(* ===== verification/Rounds_Prelude.thy ===== *)
theory Rounds_Prelude
  imports Main "HOL-Library.AList" "HOL-Library.Sublist"
begin

text \<open>
  Shared vocabulary of the development.  The source is TypeScript, so this theory
  fixes the fragment of the JavaScript standard library that the components use:
  strings (\<^verbatim>\<open>split\<close>, \<^verbatim>\<open>join\<close>, \<^verbatim>\<open>startsWith\<close>,
  \<^verbatim>\<open>trim\<close>, \<^verbatim>\<open>toLowerCase\<close>), arrays (\<^verbatim>\<open>find\<close>,
  insertion-ordered de-duplication through a \<^verbatim>\<open>Set\<close>) and the
  insertion-ordered \<^verbatim>\<open>Map\<close>.  A string is a list of characters; all
  literals of the modelled code are ASCII.
  It also declares the interfaces several components share: a keyed store and a
  transition system with an invariant.
\<close>

named_theorems rounds_defs \<open>definitions that proofs about a component unfold\<close>
named_theorems rounds_split \<open>case-split rules of the model's sums and options\<close>

declare option.splits [rounds_split] sum.splits [rounds_split] list.splits [rounds_split]
  prod.splits [rounds_split]

section \<open>Strings\<close>

fun split_on :: "char \<Rightarrow> string \<Rightarrow> string list" where
  "split_on c [] = [[]]"
| "split_on c (x # xs) =
     (if x = c then [] # split_on c xs
      else (case split_on c xs of [] \<Rightarrow> [[x]] | y # ys \<Rightarrow> (x # y) # ys))"

fun join_with :: "string \<Rightarrow> string list \<Rightarrow> string" where
  "join_with sep [] = []"
| "join_with sep [x] = x"
| "join_with sep (x # y # ys) = x @ sep @ join_with sep (y # ys)"

definition js_startsWith :: "string \<Rightarrow> string \<Rightarrow> bool" where
  "js_startsWith s p \<longleftrightarrow> take (length p) s = p"

lemma split_on_neq_Nil [simp]: "split_on c s \<noteq> []"
  by (cases s) (auto split: list.splits)

lemma join_split_on [simp]: "join_with [c] (split_on c s) = s"
proof (induction s)
  case Nil
  then show ?case by simp
next
  case (Cons x xs)
  obtain y ys where "split_on c xs = y # ys" by (metis neq_Nil_conv split_on_neq_Nil)
  with Cons.IH show ?case by (cases ys) auto
qed

lemma split_on_no_sep: "c \<notin> set s \<Longrightarrow> split_on c s = [s]"
  by (induction s) auto

lemma split_on_pieces: "p \<in> set (split_on c s) \<Longrightarrow> c \<notin> set p"
proof (induction s arbitrary: p)
  case Nil
  then show ?case by simp
next
  case (Cons x xs)
  obtain y ys where "split_on c xs = y # ys" by (metis neq_Nil_conv split_on_neq_Nil)
  with Cons show ?case by (auto split: if_splits)
qed

lemma split_on_append_sep:
  "c \<notin> set s \<Longrightarrow> split_on c (s @ c # t) = s # split_on c t"
  by (induction s) auto

lemma length_split_on: "length (split_on c s) = Suc (count_list s c)"
proof (induction s)
  case Nil
  then show ?case by simp
next
  case (Cons x xs)
  obtain y ys where "split_on c xs = y # ys" by (metis neq_Nil_conv split_on_neq_Nil)
  with Cons show ?case by auto
qed

lemma join_with_Cons: "ys \<noteq> [] \<Longrightarrow> join_with sep (x # ys) = x @ sep @ join_with sep ys"
  by (cases ys) auto

lemma set_join_with:
  "set (join_with sep xs) \<subseteq> set sep \<union> \<Union> (set ` set xs)"
  by (induction sep xs rule: join_with.induct) auto

lemma join_split_on_tl:
  "split_on c s = x # rest \<Longrightarrow> rest \<noteq> [] \<Longrightarrow> s = x @ c # join_with [c] rest"
  by (metis append_Cons append_Nil join_split_on join_with_Cons)

text \<open>ASCII white space, as \<^verbatim>\<open>trim\<close> and the pattern \<^verbatim>\<open>/\s/\<close> read it.\<close>

definition js_ws :: "char \<Rightarrow> bool" where
  "js_ws c \<longleftrightarrow> c \<in> {CHR 0x09, CHR 0x0A, CHR 0x0B, CHR 0x0C, CHR 0x0D, CHR 0x20}"

definition js_trim :: "string \<Rightarrow> string" where
  "js_trim s = rev (dropWhile js_ws (rev (dropWhile js_ws s)))"

definition js_lower_char :: "char \<Rightarrow> char" where
  "js_lower_char c = (if 65 \<le> (of_char c :: nat) \<and> (of_char c :: nat) \<le> 90
     then char_of ((of_char c :: nat) + 32) else c)"

definition js_toLowerCase :: "string \<Rightarrow> string" where
  "js_toLowerCase s = map js_lower_char s"

definition digit_value :: "char \<Rightarrow> int option" where
  "digit_value c = (let n = of_char c :: nat in if 48 \<le> n \<and> n \<le> 57 then Some (int n - 48) else None)"

fun digits_value :: "int \<Rightarrow> string \<Rightarrow> int" where
  "digits_value acc [] = acc"
| "digits_value acc (c # cs) = (case digit_value c of None \<Rightarrow> acc | Some d \<Rightarrow> digits_value (10 * acc + d) cs)"

text \<open>\<^verbatim>\<open>Number.parseInt\<close> with radix 10: leading blanks, a sign, the longest run of digits.\<close>

definition js_parseInt :: "string \<Rightarrow> int option" where
  "js_parseInt text =
     (let t = dropWhile js_ws text;
          (neg, ds) = (case t of c # cs \<Rightarrow> if c = CHR ''-'' then (True, cs) else if c = CHR ''+'' then (False, cs) else (False, t)
                       | [] \<Rightarrow> (False, t))
      in case ds of
           c # cs \<Rightarrow> if digit_value c = None then None
                     else Some (if neg then - digits_value 0 ds else digits_value 0 ds)
         | [] \<Rightarrow> None)"

lemma set_js_trim: "set (js_trim s) \<subseteq> set s"
  unfolding js_trim_def by (metis dual_order.trans set_dropWhileD set_rev subsetI)

lemma js_trim_id: "s = [] \<or> (\<not> js_ws (hd s) \<and> \<not> js_ws (last s)) \<Longrightarrow> js_trim s = s"
proof (cases "s = []")
  case True
  then show ?thesis by (simp add: js_trim_def)
next
  case False
  moreover assume "s = [] \<or> (\<not> js_ws (hd s) \<and> \<not> js_ws (last s))"
  ultimately have "dropWhile js_ws s = s" "dropWhile js_ws (rev s) = rev s"
    by (auto simp: dropWhile_eq_self_iff hd_rev)
  then show ?thesis by (simp add: js_trim_def)
qed

lemma js_startsWith_append [simp]: "js_startsWith (p @ s) p"
  by (simp add: js_startsWith_def)

lemma js_startsWith_prefix: "js_startsWith s p \<longleftrightarrow> prefix p s"
  by (auto simp: js_startsWith_def prefix_def intro: append_take_drop_id [symmetric]) (metis append_take_drop_id)

section \<open>JSON values\<close>

datatype json =
    JNull
  | JBool bool
  | JNum int
  | JStr string
  | JArr "json list"
  | JObj "(string \<times> json) list"

fun is_JStr :: "json \<Rightarrow> bool" where
  "is_JStr (JStr s) = True"
| "is_JStr _ = False"

fun the_JStr :: "json \<Rightarrow> string" where
  "the_JStr (JStr s) = s"
| "the_JStr _ = []"

section \<open>Arrays\<close>

text \<open>Reading \<^verbatim>\<open>xs[i]\<close>: \<^verbatim>\<open>undefined\<close> out of range.\<close>

definition arr_get :: "'a list \<Rightarrow> nat \<Rightarrow> 'a option" where
  "arr_get xs i = (if i < length xs then Some (xs ! i) else None)"

lemma arr_get_simps [simp]:
  "arr_get [] i = None"
  "arr_get (x # xs) 0 = Some x"
  "arr_get (x # xs) (Suc i) = arr_get xs i"
  by (auto simp: arr_get_def)

text \<open>\<^verbatim>\<open>xs.find(p)\<close> is the library's \<^const>\<open>List.find\<close>.\<close>

lemma find_Some_D: "List.find P xs = Some x \<Longrightarrow> P x \<and> x \<in> set xs"
  by (auto simp: find_Some_iff)

lemma find_None_D: "List.find P xs = None \<Longrightarrow> x \<in> set xs \<Longrightarrow> \<not> P x"
  by (auto simp: find_None_iff)

text \<open>
  De-duplication with a \<^verbatim>\<open>seen\<close> set, keeping the first element of every key and
  the order of the input; \<^verbatim>\<open>[...new Set(xs)]\<close> is the instance with the identity key.
\<close>

fun dedupe_by :: "('a \<Rightarrow> 'k) \<Rightarrow> 'k list \<Rightarrow> 'a list \<Rightarrow> 'a list" where
  "dedupe_by key seen [] = []"
| "dedupe_by key seen (x # xs) =
     (if key x \<in> set seen then dedupe_by key seen xs
      else x # dedupe_by key (key x # seen) xs)"

abbreviation js_uniq :: "'a list \<Rightarrow> 'a list" where
  "js_uniq xs \<equiv> dedupe_by (\<lambda>x. x) [] xs"

lemma dedupe_by_subset: "set (dedupe_by key seen xs) \<subseteq> set xs"
  by (induction key seen xs rule: dedupe_by.induct) auto

lemma dedupe_by_keys: "key ` set (dedupe_by key seen xs) = key ` set xs - set seen"
  by (induction key seen xs rule: dedupe_by.induct) auto

lemma dedupe_by_distinct: "distinct (map key (dedupe_by key seen xs))"
proof (induction key seen xs rule: dedupe_by.induct)
  case (2 key seen x xs)
  have "key x \<notin> key ` set (dedupe_by key (key x # seen) xs)"
    by (simp add: dedupe_by_keys)
  with 2 show ?case by auto
qed simp

lemma set_dedupe_inj: "inj_on key (set xs) \<Longrightarrow> set (dedupe_by key [] xs) = set xs"
  using dedupe_by_keys [of key "[]" xs] dedupe_by_subset [of key "[]" xs]
  by (auto simp: inj_on_def image_iff set_eq_iff subset_iff; metis)

lemma set_js_uniq [simp]: "set (js_uniq xs) = set xs"
  by (rule set_dedupe_inj) simp

lemma distinct_js_uniq [simp]: "distinct (js_uniq xs)"
  using dedupe_by_distinct [of "\<lambda>x. x" "[]" xs] by simp

section \<open>Insertion-ordered maps and the keyed-store interface\<close>

text \<open>
  A \<^verbatim>\<open>Map\<close> is an association list: \<^const>\<open>AList.update\<close> keeps the position of
  an existing key and appends a new one, as \<^verbatim>\<open>Map.prototype.set\<close> does.
\<close>

type_synonym ('k, 'v) js_map = "('k \<times> 'v) list"

locale keyed_store =
  fixes get :: "'s \<Rightarrow> 'k \<Rightarrow> 'v option"
    and put :: "'k \<Rightarrow> 'v \<Rightarrow> 's \<Rightarrow> 's"
    and del :: "'k \<Rightarrow> 's \<Rightarrow> 's"
    and wf :: "'s \<Rightarrow> bool"
  assumes get_put: "wf s \<Longrightarrow> get (put k v s) k' = (if k' = k then Some v else get s k')"
    and get_del: "wf s \<Longrightarrow> get (del k s) k' = (if k' = k then None else get s k')"
    and wf_put: "wf s \<Longrightarrow> wf (put k v s)"
    and wf_del: "wf s \<Longrightarrow> wf (del k s)"
begin

lemma wf_puts: "wf s \<Longrightarrow> wf (fold (\<lambda>(k, v). put k v) kvs s)"
  by (induction kvs arbitrary: s) (auto simp: wf_put)

lemma get_puts:
  "wf s \<Longrightarrow> get (fold (\<lambda>(k, v). put k v) kvs s) k =
     (case map_of (rev kvs) k of Some v \<Rightarrow> Some v | None \<Rightarrow> get s k)"
proof (induction kvs arbitrary: s)
  case (Cons kv kvs)
  then show ?case
    by (cases kv) (auto simp: wf_put get_put map_add_def split: option.splits)
qed simp

lemma puts_frame:
  "wf s \<Longrightarrow> k \<notin> fst ` set kvs \<Longrightarrow> get (fold (\<lambda>(k, v). put k v) kvs s) k = get s k"
  by (auto simp: get_puts map_of_eq_None_iff split: option.splits dest!: map_of_SomeD)
     (metis fst_conv image_eqI)

end

interpretation js_map: keyed_store map_of AList.update AList.delete "\<lambda>m. distinct (map fst m)"
  by unfold_locales
     (auto simp: update_conv' delete_conv' distinct_update distinct_delete)

section \<open>Transition systems with an invariant\<close>

locale invariant_system =
  fixes start :: "'s \<Rightarrow> bool"
    and step :: "'s \<Rightarrow> 's \<Rightarrow> bool"
    and inv :: "'s \<Rightarrow> bool"
  assumes start_inv: "start s \<Longrightarrow> inv s"
    and step_inv: "step s t \<Longrightarrow> inv s \<Longrightarrow> inv t"
begin

lemma steps_inv: "step\<^sup>*\<^sup>* s t \<Longrightarrow> inv s \<Longrightarrow> inv t"
  by (induction rule: rtranclp_induct) (auto intro: step_inv)

lemma reachable_inv: "start s \<Longrightarrow> step\<^sup>*\<^sup>* s t \<Longrightarrow> inv t"
  by (blast intro: steps_inv start_inv)

end

text \<open>The deterministic case: a state machine driven by a list of operations.\<close>

locale op_system =
  fixes app :: "'op \<Rightarrow> 's \<Rightarrow> 's"
    and inv :: "'s \<Rightarrow> bool"
  assumes app_inv: "inv s \<Longrightarrow> inv (app opn s)"
begin

lemma run_inv: "inv s \<Longrightarrow> inv (fold app ops s)"
  by (induction ops arbitrary: s) (auto intro: app_inv)

end

sublocale op_system \<subseteq> invariant_system inv "\<lambda>s t. \<exists>opn. t = app opn s" inv
  by unfold_locales (auto intro: app_inv)

section \<open>Results and tables\<close>

text \<open>
  A call that may throw returns a sum, the error message on the left.  A database table is the
  list of its rows in insertion order; \<^verbatim>\<open>UPDATE\<close> and \<^verbatim>\<open>DELETE\<close> act on the rows that
  satisfy their condition, and a query takes the first row of the selection.
\<close>

type_synonym 'a result = "string + 'a"

definition res_bind :: "'a result \<Rightarrow> ('a \<Rightarrow> 'b result) \<Rightarrow> 'b result" where
  "res_bind r f = (case r of Inl e \<Rightarrow> Inl e | Inr x \<Rightarrow> f x)"

lemma res_bind_simps [simp]: "res_bind (Inl e) f = Inl e" "res_bind (Inr x) f = f x"
  by (simp_all add: res_bind_def)

lemma res_bind_Inr [simp]: "res_bind r f = Inr y \<longleftrightarrow> (\<exists>x. r = Inr x \<and> f x = Inr y)"
  by (cases r) auto

definition upd_where :: "('a \<Rightarrow> bool) \<Rightarrow> ('a \<Rightarrow> 'a) \<Rightarrow> 'a list \<Rightarrow> 'a list" where
  "upd_where P f xs = map (\<lambda>x. if P x then f x else x) xs"

definition del_where :: "('a \<Rightarrow> bool) \<Rightarrow> 'a list \<Rightarrow> 'a list" where
  "del_where P xs = filter (\<lambda>x. \<not> P x) xs"

definition page :: "nat \<Rightarrow> nat \<Rightarrow> 'a list \<Rightarrow> 'a list" where
  "page lim offset xs = take lim (drop offset xs)"

definition coalesce :: "'a option \<Rightarrow> 'a \<Rightarrow> 'a" where
  "coalesce v d = (case v of None \<Rightarrow> d | Some x \<Rightarrow> x)"

lemma coalesce_simps [simp]: "coalesce None d = d" "coalesce (Some x) d = x"
  by (simp_all add: coalesce_def)

lemma set_upd_where:
  "set (upd_where P f xs) = f ` {x \<in> set xs. P x} \<union> {x \<in> set xs. \<not> P x}"
  by (auto simp: upd_where_def)

lemma set_del_where [simp]: "set (del_where P xs) = {x \<in> set xs. \<not> P x}"
  by (auto simp: del_where_def)

lemma map_upd_where_key:
  "(\<And>x. P x \<Longrightarrow> k (f x) = k x) \<Longrightarrow> map k (upd_where P f xs) = map k xs"
  by (auto simp: upd_where_def)

lemma length_upd_where [simp]: "length (upd_where P f xs) = length xs"
  by (simp add: upd_where_def)

lemma upd_where_simps [simp]:
  "upd_where P f [] = []"
  "upd_where P f (x # xs) = (if P x then f x else x) # upd_where P f xs"
  "upd_where P f (xs @ ys) = upd_where P f xs @ upd_where P f ys"
  by (simp_all add: upd_where_def)

lemma distinct_del_where: "distinct (map k xs) \<Longrightarrow> distinct (map k (del_where P xs))"
  unfolding del_where_def by (rule distinct_map_filter)

lemma find_Some_set: "List.find P xs = Some x \<Longrightarrow> x \<in> set xs \<and> P x"
  by (auto simp: find_Some_iff)

lemma find_None_set: "List.find P xs = None \<longleftrightarrow> (\<forall>x\<in>set xs. \<not> P x)"
  by (auto simp: find_None_iff)

lemma find_append_found: "List.find P xs = Some x \<Longrightarrow> List.find P (xs @ ys) = Some x"
  by (induction xs) auto

lemma find_append_miss: "List.find P xs = None \<Longrightarrow> List.find P (xs @ ys) = List.find P ys"
  by (induction xs) auto

lemma find_key_unique:
  assumes "distinct (map k xs)" and "x \<in> set xs"
  shows "List.find (\<lambda>y. k y = k x) xs = Some x"
  using assms by (induction xs) auto

lemma find_upd_where:
  "(\<And>x. P (f x) = P x) \<Longrightarrow> (\<And>x. Q (f x) = Q x) \<Longrightarrow>
     List.find P (upd_where Q f xs) = map_option (\<lambda>x. if Q x then f x else x) (List.find P xs)"
  by (induction xs) auto

lemma distinct_upd_where:
  assumes "distinct (map i xs)" "distinct (map k xs)"
    and "\<forall>y\<in>set xs. i y \<noteq> a \<longrightarrow> k y \<noteq> c" and "\<forall>x\<in>set xs. i x = a \<longrightarrow> k (f x) = c"
  shows "distinct (map k (upd_where (\<lambda>x. i x = a) f xs))"
  using assms
proof (induction xs)
  case (Cons x xs)
  have "k z \<noteq> k x" if "z \<in> set (upd_where (\<lambda>x. i x = a) f xs)" "i x \<noteq> a" for z
    using that Cons.prems by (auto simp: set_upd_where) (metis image_eqI)
  moreover have "k z \<noteq> c" if "z \<in> set (upd_where (\<lambda>x. i x = a) f xs)" "i x = a" for z
    using that Cons.prems by (auto simp: set_upd_where) (metis image_eqI)
  ultimately show ?case using Cons by (force simp: image_iff)
qed simp

text \<open>A loop whose body may throw.\<close>

fun res_fold :: "('a \<Rightarrow> 's \<Rightarrow> 's result) \<Rightarrow> 'a list \<Rightarrow> 's \<Rightarrow> 's result" where
  "res_fold f [] s = Inr s"
| "res_fold f (x # xs) s = res_bind (f x s) (res_fold f xs)"

lemma res_fold_append: "res_fold f (xs @ ys) s = res_bind (res_fold f xs s) (res_fold f ys)"
proof (induction xs arbitrary: s)
  case (Cons x xs)
  then show ?case by (cases "f x s") auto
qed simp

lemma res_fold_stable: "(\<And>x. x \<in> set xs \<Longrightarrow> f x s = Inr s) \<Longrightarrow> res_fold f xs s = Inr s"
  by (induction xs) auto

lemma res_fold_map: "res_fold f (map g xs) s = res_fold (\<lambda>x. f (g x)) xs s"
proof (induction xs arbitrary: s)
  case (Cons x xs)
  then show ?case by (cases "f (g x) s") auto
qed simp

end
