(* ===== verification/Scopes.thy ===== *)
theory Scopes
  imports Rounds_Prelude
begin

text \<open>
  The permission-scope grammar: \<^verbatim>\<open>packages/common/src/models/rbac.ts\<close>
  (\<^verbatim>\<open>parseScope\<close>) and \<^verbatim>\<open>packages/common/src/rbac/scope.ts\<close>
  (\<^verbatim>\<open>buildScope\<close>, \<^verbatim>\<open>scopeCovers\<close>, the approvals grammar).
  The results: coverage is exactly segment-wise matching of the parsed scopes, it is a
  preorder whose top elements are the unrestricted scopes, building and parsing are
  inverse, and the approvals grammar prints and parses back without ever widening to
  the wildcard.
\<close>

section \<open>Parsing and building\<close>

record parsed_scope =
  ps_kind :: string
  ps_attribute :: string
  ps_identifier :: string

definition parseScope :: "string \<Rightarrow> parsed_scope" where
  "parseScope scope =
     (if scope = '''' then \<lparr>ps_kind = ''*'', ps_attribute = ''*'', ps_identifier = ''*''\<rparr>
      else (let parts = split_on CHR '':'' scope
            in \<lparr>ps_kind = (case arr_get parts 0 of Some k \<Rightarrow> k | None \<Rightarrow> ''*''),
                ps_attribute = (case arr_get parts 1 of Some a \<Rightarrow> a | None \<Rightarrow> ''*''),
                ps_identifier = (if length parts \<ge> 3 then join_with '':'' (drop 2 parts) else ''*'')\<rparr>))"

definition buildScope :: "string \<Rightarrow> string \<Rightarrow> string \<Rightarrow> string" where
  "buildScope k a i = k @ '':'' @ a @ '':'' @ i"

text \<open>The defaulted parameters of \<^verbatim>\<open>buildScope\<close>.\<close>

definition buildScopeOpt :: "string \<Rightarrow> string option \<Rightarrow> string option \<Rightarrow> string" where
  "buildScopeOpt k a i =
     buildScope k (case a of Some x \<Rightarrow> x | None \<Rightarrow> ''*'') (case i of Some x \<Rightarrow> x | None \<Rightarrow> ''*'')"

definition SCOPE_KINDS :: "string list" where
  "SCOPE_KINDS =
     [''dashboards'', ''folders'', ''datasources'', ''users'', ''teams'', ''serviceaccounts'',
      ''orgs'', ''roles'', ''alert.rules'', ''alert.notifications'', ''alert.instances'',
      ''alert.silences'', ''alert.provisioning'', ''annotations'', ''server'', ''apikeys'',
      ''investigations'', ''approvals'', ''chat'', ''agents.config'', ''connectors'']"

definition normalizeScope :: "string option \<Rightarrow> string" where
  "normalizeScope scope = (case scope of None \<Rightarrow> '''' | Some s \<Rightarrow> s)"

section \<open>Coverage\<close>

definition seg_matches :: "string \<Rightarrow> string \<Rightarrow> bool" where
  "seg_matches parentSeg childSeg \<longleftrightarrow> parentSeg = ''*'' \<or> parentSeg = childSeg"

definition scopeCovers :: "string \<Rightarrow> string \<Rightarrow> bool" where
  "scopeCovers parent child =
     (if parent = '''' \<or> parent = ''*'' then True
      else if parent = child then True
      else (let p = parseScope parent; c = parseScope child
            in seg_matches (ps_kind p) (ps_kind c) \<and> seg_matches (ps_attribute p) (ps_attribute c)
               \<and> seg_matches (ps_identifier p) (ps_identifier c)))"

section \<open>The approvals grammar\<close>

datatype approval_scope =
    AS_wildcard
  | AS_uid string
  | AS_connector string
  | AS_namespace string string
  | AS_team string

definition parseApprovalScope :: "string \<Rightarrow> approval_scope option" where
  "parseApprovalScope scope =
     (if scope = ''approvals:*'' \<or> scope = ''approvals:*:*'' then Some AS_wildcard
      else (let parts = split_on CHR '':'' scope in
        if arr_get parts 0 \<noteq> Some ''approvals'' then None
        else if arr_get parts 1 = Some ''uid'' then
          (if length parts \<noteq> 3 then None
           else if parts ! 2 = '''' then None else Some (AS_uid (parts ! 2)))
        else if arr_get parts 1 = Some ''connector'' then
          (if length parts \<noteq> 3 then None
           else if parts ! 2 = '''' then None else Some (AS_connector (parts ! 2)))
        else if arr_get parts 1 = Some ''namespace'' then
          (if length parts \<noteq> 4 then None
           else if parts ! 2 = '''' \<or> parts ! 3 = '''' then None
           else Some (AS_namespace (parts ! 2) (parts ! 3)))
        else if arr_get parts 1 = Some ''team'' then
          (if length parts \<noteq> 3 then None
           else if parts ! 2 = '''' then None else Some (AS_team (parts ! 2)))
        else None))"

definition isValidApprovalScope :: "string \<Rightarrow> bool" where
  "isValidApprovalScope scope \<longleftrightarrow> parseApprovalScope scope \<noteq> None"

record approval_row =
  ar_id :: string
  ar_opsConnectorId :: "string option"
  ar_targetNamespace :: "string option"
  ar_requesterTeamId :: "string option"

text \<open>A nullable string is used as a condition: \<^verbatim>\<open>null\<close> and the empty string are falsy.\<close>

definition truthy :: "string option \<Rightarrow> bool" where
  "truthy s \<longleftrightarrow> (case s of None \<Rightarrow> False | Some x \<Rightarrow> x \<noteq> '''')"

definition approvalRowScopes :: "approval_row \<Rightarrow> string list" where
  "approvalRowScopes row =
     [''approvals:uid:'' @ ar_id row]
     @ (if truthy (ar_opsConnectorId row)
        then [''approvals:connector:'' @ the (ar_opsConnectorId row)]
             @ (if truthy (ar_targetNamespace row)
                then [''approvals:namespace:'' @ the (ar_opsConnectorId row) @ '':''
                      @ the (ar_targetNamespace row)]
                else [])
        else [])
     @ (if truthy (ar_requesterTeamId row)
        then [''approvals:team:'' @ the (ar_requesterTeamId row)] else [])"

section \<open>Specification of coverage\<close>

definition seg_covers :: "parsed_scope \<Rightarrow> parsed_scope \<Rightarrow> bool" where
  "seg_covers p c \<longleftrightarrow> seg_matches (ps_kind p) (ps_kind c)
     \<and> seg_matches (ps_attribute p) (ps_attribute c)
     \<and> seg_matches (ps_identifier p) (ps_identifier c)"

lemma seg_matches_refl [simp]: "seg_matches x x"
  by (simp add: seg_matches_def)

lemma seg_matches_star [simp]: "seg_matches ''*'' x"
  by (simp add: seg_matches_def)

lemma seg_matches_trans: "seg_matches x y \<Longrightarrow> seg_matches y z \<Longrightarrow> seg_matches x z"
  by (auto simp: seg_matches_def)

lemma seg_matches_antisym: "seg_matches x y \<Longrightarrow> seg_matches y x \<Longrightarrow> x = y"
  by (auto simp: seg_matches_def)

lemma parseScope_empty [simp]:
  "parseScope '''' = \<lparr>ps_kind = ''*'', ps_attribute = ''*'', ps_identifier = ''*''\<rparr>"
  by (simp add: parseScope_def)

lemma parseScope_star [simp]:
  "parseScope ''*'' = \<lparr>ps_kind = ''*'', ps_attribute = ''*'', ps_identifier = ''*''\<rparr>"
  by (simp add: parseScope_def)

lemma parseScope_three:
  assumes "CHR '':'' \<notin> set k" "CHR '':'' \<notin> set a"
  shows "parseScope (k @ '':'' @ a @ '':'' @ i) = \<lparr>ps_kind = k, ps_attribute = a, ps_identifier = i\<rparr>"
proof -
  have "split_on CHR '':'' (k @ '':'' @ a @ '':'' @ i) = k # a # split_on CHR '':'' i"
    using split_on_append_sep [OF assms(1), of "a @ CHR '':'' # i"]
      split_on_append_sep [OF assms(2), of i] by simp
  then show ?thesis by (simp add: parseScope_def Let_def length_split_on)
qed

lemma parseScope_two:
  assumes "CHR '':'' \<notin> set k" "CHR '':'' \<notin> set a"
  shows "parseScope (k @ '':'' @ a) = \<lparr>ps_kind = k, ps_attribute = a, ps_identifier = ''*''\<rparr>"
proof -
  have "split_on CHR '':'' (k @ '':'' @ a) = [k, a]"
    using split_on_append_sep [OF assms(1), of a] split_on_no_sep [OF assms(2)] by simp
  then show ?thesis by (simp add: parseScope_def Let_def)
qed

lemma scopeCovers_segments:
  "scopeCovers p c \<longleftrightarrow> seg_covers (parseScope p) (parseScope c)"
  by (auto simp: scopeCovers_def seg_covers_def Let_def)

text \<open>
  The early returns of \<^verbatim>\<open>scopeCovers\<close> (unrestricted parent, string equality) are
  only shortcuts: a scope covers another exactly when each of the three parsed segments
  of the parent is the wildcard or equals the child's segment.
\<close>

theorem scopeCovers_iff_segments:
  "scopeCovers p c \<longleftrightarrow> seg_covers (parseScope p) (parseScope c)"
  by (rule scopeCovers_segments)

subsection \<open>Coverage as a preorder: the interface the evaluator relies on\<close>

locale coverage =
  fixes covers :: "'s \<Rightarrow> 's \<Rightarrow> bool"
  assumes covers_refl: "covers s s"
    and covers_trans: "covers a b \<Longrightarrow> covers b c \<Longrightarrow> covers a c"
begin

text \<open>Replacing grants by wider ones keeps every request that was covered.\<close>

lemma dominated_request:
  assumes "\<forall>p\<in>P. \<exists>q\<in>Q. covers q p" and "\<exists>p\<in>P. covers p w"
  shows "\<exists>q\<in>Q. covers q w"
  using assms by (blast intro: covers_trans)

lemma covered_by_member: "w \<in> P \<Longrightarrow> \<exists>p\<in>P. covers p w"
  by (blast intro: covers_refl)

lemma covers_narrower: "covers a b \<Longrightarrow> \<exists>p\<in>P. covers p a \<Longrightarrow> \<exists>p\<in>P. covers p b"
  by (blast intro: covers_trans)

end

interpretation scope_cov: coverage scopeCovers
  by unfold_locales (auto simp: scopeCovers_segments seg_covers_def intro: seg_matches_trans)

text \<open>
  Coverage is transitive, so a chain of delegated grants never loses a request, and two
  scopes cover each other only if they parse to the same three segments.
\<close>

theorem scopeCovers_partial_order:
  "(scopeCovers a b \<and> scopeCovers b c \<longrightarrow> scopeCovers a c)
   \<and> (scopeCovers a b \<and> scopeCovers b a \<longleftrightarrow> parseScope a = parseScope b)"
proof
  show "scopeCovers a b \<and> scopeCovers b c \<longrightarrow> scopeCovers a c"
    by (blast intro: scope_cov.covers_trans)
  show "scopeCovers a b \<and> scopeCovers b a \<longleftrightarrow> parseScope a = parseScope b"
    by (auto simp: scopeCovers_segments seg_covers_def dest: seg_matches_antisym
             intro!: parsed_scope.equality)
qed

theorem scopeCovers_partial_order_witness:
  "scopeCovers ''dashboards:*'' ''dashboards:uid:*''
   \<and> scopeCovers ''dashboards:uid:*'' ''dashboards:uid:a''
   \<and> scopeCovers ''dashboards:*'' ''dashboards:uid:a''"
proof -
  have a: "scopeCovers ''dashboards:*'' ''dashboards:uid:*''" by code_simp
  have b: "scopeCovers ''dashboards:uid:*'' ''dashboards:uid:a''" by code_simp
  show ?thesis
    using a b scopeCovers_partial_order
      [of "''dashboards:*''" "''dashboards:uid:*''" "''dashboards:uid:a''"] by blast
qed

text \<open>
  Building a scope and parsing it gives the segments back; only the identifier may
  contain colons, and it keeps them.
\<close>

theorem parseScope_buildScope:
  assumes "CHR '':'' \<notin> set k" "CHR '':'' \<notin> set a"
  shows "parseScope (buildScope k a i) = \<lparr>ps_kind = k, ps_attribute = a, ps_identifier = i\<rparr>"
  unfolding buildScope_def by (rule parseScope_three [OF assms])

theorem parseScope_buildScope_witness:
  "parseScope (buildScope ''folders'' ''uid'' ''a:b'') =
     \<lparr>ps_kind = ''folders'', ps_attribute = ''uid'', ps_identifier = ''a:b''\<rparr>"
  by (rule parseScope_buildScope) auto

section \<open>Round trip of the approvals grammar\<close>

fun printApprovalScope :: "approval_scope \<Rightarrow> string" where
  "printApprovalScope AS_wildcard = ''approvals:*''"
| "printApprovalScope (AS_uid i) = ''approvals:uid:'' @ i"
| "printApprovalScope (AS_connector c) = ''approvals:connector:'' @ c"
| "printApprovalScope (AS_namespace c n) = ''approvals:namespace:'' @ c @ '':'' @ n"
| "printApprovalScope (AS_team t) = ''approvals:team:'' @ t"

definition plain_id :: "string \<Rightarrow> bool" where
  "plain_id s \<longleftrightarrow> s \<noteq> '''' \<and> CHR '':'' \<notin> set s"

fun wf_approval_scope :: "approval_scope \<Rightarrow> bool" where
  "wf_approval_scope AS_wildcard = True"
| "wf_approval_scope (AS_uid i) = plain_id i"
| "wf_approval_scope (AS_connector c) = plain_id c"
| "wf_approval_scope (AS_namespace c n) = (plain_id c \<and> plain_id n)"
| "wf_approval_scope (AS_team t) = plain_id t"

lemma parse_print_approval:
  "wf_approval_scope a \<Longrightarrow> parseApprovalScope (printApprovalScope a) = Some a"
proof (cases a)
  case (AS_namespace c n)
  moreover assume "wf_approval_scope a"
  ultimately have "split_on CHR '':'' (c @ '':'' @ n) = [c, n]"
    using split_on_append_sep [of "CHR '':''" c n] split_on_no_sep [of "CHR '':''" n]
    by (auto simp: plain_id_def)
  with AS_namespace \<open>wf_approval_scope a\<close> show ?thesis
    by (simp add: parseApprovalScope_def Let_def plain_id_def)
qed (auto simp: parseApprovalScope_def Let_def split_on_no_sep plain_id_def)

lemma length_split_cases:
  "length (split_on c s) = 3 \<Longrightarrow> \<exists>x y z. split_on c s = [x, y, z] \<and> s = x @ c # y @ c # z"
  "length (split_on c s) = 4 \<Longrightarrow>
     \<exists>x y z w. split_on c s = [x, y, z, w] \<and> s = x @ c # y @ c # z @ c # w"
  using join_split_on [of c s]
  by (auto simp: length_Suc_conv numeral_eq_Suc simp del: join_split_on)

lemma parse_approval_print:
  assumes "parseApprovalScope s = Some a" and "a \<noteq> AS_wildcard"
  shows "s = printApprovalScope a \<and> wf_approval_scope a"
proof -
  have pieces: "\<forall>p \<in> set (split_on CHR '':'' s). CHR '':'' \<notin> set p"
    using split_on_pieces by blast
  have "length (split_on CHR '':'' s) = 3 \<or> length (split_on CHR '':'' s) = 4"
    using assms by (auto simp: parseApprovalScope_def Let_def split: if_splits)
  then show ?thesis
  proof
    assume "length (split_on CHR '':'' s) = 3"
    then obtain x y z where "split_on CHR '':'' s = [x, y, z]" "s = x @ CHR '':'' # y @ CHR '':'' # z"
      using length_split_cases(1) by blast
    with assms pieces show ?thesis
      by (auto simp: parseApprovalScope_def Let_def plain_id_def simp del: split_on.simps
               split: if_splits)
  next
    assume "length (split_on CHR '':'' s) = 4"
    then obtain x y z w where "split_on CHR '':'' s = [x, y, z, w]"
      "s = x @ CHR '':'' # y @ CHR '':'' # z @ CHR '':'' # w"
      using length_split_cases(2) by blast
    with assms pieces show ?thesis
      by (auto simp: parseApprovalScope_def Let_def plain_id_def simp del: split_on.simps
               split: if_splits)
  qed
qed

text \<open>
  The approvals grammar is unambiguous: every well-formed scope prints to a string that
  parses back to it, and whatever parses to a specific shape is that shape's canonical
  string with non-empty, colon-free identifiers.
\<close>

theorem approval_scope_roundtrip:
  "(wf_approval_scope a \<longrightarrow> parseApprovalScope (printApprovalScope a) = Some a)
   \<and> (parseApprovalScope s = Some b \<and> b \<noteq> AS_wildcard
      \<longrightarrow> s = printApprovalScope b \<and> wf_approval_scope b)"
  using parse_print_approval parse_approval_print by blast

theorem approval_scope_roundtrip_witness:
  "wf_approval_scope (AS_namespace ''c1'' ''prod'')
   \<and> parseApprovalScope (printApprovalScope (AS_namespace ''c1'' ''prod''))
       = Some (AS_namespace ''c1'' ''prod'')
   \<and> parseApprovalScope ''approvals:team:t9'' = Some (AS_team ''t9'')
   \<and> ''approvals:team:t9'' = printApprovalScope (AS_team ''t9'')"
proof -
  have a: "wf_approval_scope (AS_namespace ''c1'' ''prod'')" by code_simp
  have b: "parseApprovalScope ''approvals:team:t9'' = Some (AS_team ''t9'')" by code_simp
  show ?thesis
    using a b approval_scope_roundtrip
      [of "AS_namespace ''c1'' ''prod''" "''approvals:team:t9''" "AS_team ''t9''"] by blast
qed

text \<open>The identifiers of a row that the candidate scopes are built from.\<close>

definition plain_row :: "approval_row \<Rightarrow> bool" where
  "plain_row row \<longleftrightarrow> plain_id (ar_id row)
     \<and> (\<forall>c. ar_opsConnectorId row = Some c \<and> c \<noteq> '''' \<longrightarrow> CHR '':'' \<notin> set c)
     \<and> (\<forall>n. ar_targetNamespace row = Some n \<and> n \<noteq> '''' \<longrightarrow> CHR '':'' \<notin> set n)
     \<and> (\<forall>t. ar_requesterTeamId row = Some t \<and> t \<noteq> '''' \<longrightarrow> CHR '':'' \<notin> set t)"

lemma approvalRowScopes_parse:
  assumes "plain_row row" and "s \<in> set (approvalRowScopes row)"
  shows "\<exists>a. parseApprovalScope s = Some a \<and> a \<noteq> AS_wildcard"
proof -
  have "\<exists>a. wf_approval_scope a \<and> a \<noteq> AS_wildcard \<and> s = printApprovalScope a"
    using assms
    by (auto simp: approvalRowScopes_def truthy_def plain_row_def plain_id_def
             split: if_splits option.splits
             intro: exI [of _ "AS_uid _"] exI [of _ "AS_connector _"] exI [of _ "AS_team _"]
               exI [of _ "AS_namespace _ _"])
  then show ?thesis using parse_print_approval by blast
qed

text \<open>
  Fail-closed row scopes: for a row whose identifiers contain no colon, every candidate
  scope is a valid, specific approvals scope; the organisation-wide wildcard is never among
  the candidates, and a holder of the wildcard covers each of them.
\<close>

theorem approvalRowScopes_fail_closed:
  assumes "plain_row row" and "s \<in> set (approvalRowScopes row)"
  shows "isValidApprovalScope s \<and> parseApprovalScope s \<noteq> Some AS_wildcard
     \<and> s \<noteq> ''approvals:*'' \<and> scopeCovers ''approvals:*'' s"
proof -
  obtain a where a: "parseApprovalScope s = Some a" "a \<noteq> AS_wildcard"
    using approvalRowScopes_parse [OF assms] by blast
  have "s \<noteq> ''approvals:*''" using a by (auto simp: parseApprovalScope_def)
  moreover have "ps_kind (parseScope s) = ''approvals''"
    using assms(2)
    by (auto simp: approvalRowScopes_def parseScope_def Let_def
             split: if_splits)
  ultimately show ?thesis
    using a by (simp add: isValidApprovalScope_def scopeCovers_segments seg_covers_def)
       (simp add: parseScope_def)
qed

theorem approvalRowScopes_fail_closed_witness:
  "isValidApprovalScope ''approvals:namespace:c1:prod''
   \<and> scopeCovers ''approvals:*'' ''approvals:namespace:c1:prod''"
proof -
  let ?row = "\<lparr>ar_id = ''a1'', ar_opsConnectorId = Some ''c1'',
               ar_targetNamespace = Some ''prod'', ar_requesterTeamId = None\<rparr>"
  have a: "plain_row ?row" by (simp add: plain_row_def plain_id_def)
  have b: "''approvals:namespace:c1:prod'' \<in> set (approvalRowScopes ?row)"
    by (simp add: approvalRowScopes_def truthy_def)
  show ?thesis using approvalRowScopes_fail_closed [OF a b] by blast
qed

end
