(* ===== verification/Evaluator.thy ===== *)
theory Evaluator
  imports Scopes
begin

text \<open>
  The permission evaluator, \<^verbatim>\<open>packages/common/src/rbac/evaluator.ts\<close>: the four
  evaluator classes as one datatype, their three methods \<^verbatim>\<open>evaluate\<close>,
  \<^verbatim>\<open>string\<close> and \<^verbatim>\<open>mutate\<close>, and the \<^verbatim>\<open>ac\<close>
  builder.  The results: the decision depends only on the set of granted permissions and is
  monotone in it (also under widening of single grants), mutation through a resolver that
  keeps the requested scope never revokes, and mutation is idempotent.
\<close>

record permission =
  action :: string
  scope :: string

datatype evaluator =
    ActionEvaluator string "string list"
  | ResolvedActionEvaluator string "string list list"
  | AllEvaluator "evaluator list"
  | AnyEvaluator "evaluator list"

fun evaluate :: "evaluator \<Rightarrow> permission list \<Rightarrow> bool" where
  "evaluate (ActionEvaluator act scopes) permissions =
     (let matching = filter (\<lambda>p. action p = act) permissions in
      if matching = [] then False
      else if scopes = [] then True
      else list_all (\<lambda>want. list_ex (\<lambda>p. scopeCovers (scope p) want) matching) scopes)"
| "evaluate (ResolvedActionEvaluator act resolvedScopes) permissions =
     (let matching = filter (\<lambda>p. action p = act) permissions in
      if matching = [] then False
      else list_all (\<lambda>options. list_ex (\<lambda>want.
             list_ex (\<lambda>p. scopeCovers (scope p) want) matching) options) resolvedScopes)"
| "evaluate (AllEvaluator children) permissions =
     (if children = [] then True else list_all (\<lambda>c. evaluate c permissions) children)"
| "evaluate (AnyEvaluator children) permissions =
     (if children = [] then False else list_ex (\<lambda>c. evaluate c permissions) children)"

fun ev_string :: "evaluator \<Rightarrow> string" where
  "ev_string (ActionEvaluator act scopes) =
     (if scopes = [] then act else act @ '' on '' @ join_with '', '' scopes)"
| "ev_string (ResolvedActionEvaluator act resolvedScopes) =
     act @ '' on '' @ join_with '', '' (map (join_with ''|'') resolvedScopes)"
| "ev_string (AllEvaluator children) = ''all('' @ join_with '', '' (map ev_string children) @ '')''"
| "ev_string (AnyEvaluator children) = ''any('' @ join_with '', '' (map ev_string children) @ '')''"

fun ev_mutate :: "(string \<Rightarrow> string list) \<Rightarrow> evaluator \<Rightarrow> evaluator" where
  "ev_mutate resolveScope (ActionEvaluator act scopes) =
     (if scopes = [] then ActionEvaluator act scopes
      else ResolvedActionEvaluator act (map resolveScope scopes))"
| "ev_mutate resolveScope (ResolvedActionEvaluator act resolvedScopes) =
     ResolvedActionEvaluator act resolvedScopes"
| "ev_mutate resolveScope (AllEvaluator children) =
     AllEvaluator (map (ev_mutate resolveScope) children)"
| "ev_mutate resolveScope (AnyEvaluator children) =
     AnyEvaluator (map (ev_mutate resolveScope) children)"

text \<open>The builder; its \<^verbatim>\<open>scope\<close> argument is absent, a string or an array.\<close>

datatype scope_arg = NoScope | OneScope string | ManyScopes "string list"

definition ac_eval :: "string \<Rightarrow> scope_arg \<Rightarrow> evaluator" where
  "ac_eval act sc = ActionEvaluator act
     (case sc of NoScope \<Rightarrow> [] | OneScope s \<Rightarrow> [s] | ManyScopes ss \<Rightarrow> ss)"

definition ac_all :: "evaluator list \<Rightarrow> evaluator" where
  "ac_all evals = AllEvaluator evals"

definition ac_any :: "evaluator list \<Rightarrow> evaluator" where
  "ac_any evals = AnyEvaluator evals"

section \<open>What a decision means\<close>

text \<open>
  The specification: a request for an action on a scope is granted by a set of permissions
  when one of them names the action with a covering scope.
\<close>

definition grants :: "permission set \<Rightarrow> string \<Rightarrow> string \<Rightarrow> bool" where
  "grants P act want \<longleftrightarrow> (\<exists>p\<in>P. action p = act \<and> scopeCovers (scope p) want)"

fun satisfies :: "permission set \<Rightarrow> evaluator \<Rightarrow> bool" where
  "satisfies P (ActionEvaluator act scopes) \<longleftrightarrow>
     act \<in> action ` P \<and> (\<forall>want\<in>set scopes. grants P act want)"
| "satisfies P (ResolvedActionEvaluator act resolved) \<longleftrightarrow>
     act \<in> action ` P \<and> (\<forall>opts\<in>set resolved. \<exists>want\<in>set opts. grants P act want)"
| "satisfies P (AllEvaluator children) \<longleftrightarrow> (\<forall>c\<in>set children. satisfies P c)"
| "satisfies P (AnyEvaluator children) \<longleftrightarrow> (\<exists>c\<in>set children. satisfies P c)"

lemma evaluate_satisfies: "evaluate e permissions \<longleftrightarrow> satisfies (set permissions) e"
proof (induction e)
  case (ActionEvaluator act scopes)
  then show ?case
    by (force simp: Let_def grants_def list_all_iff list_ex_iff filter_empty_conv)
next
  case (ResolvedActionEvaluator act resolved)
  then show ?case
    by (force simp: Let_def grants_def list_all_iff list_ex_iff filter_empty_conv)
next
  case (AllEvaluator children)
  then show ?case by (auto simp: list_all_iff)
next
  case (AnyEvaluator children)
  then show ?case by (auto simp: list_ex_iff)
qed

text \<open>
  The evaluator computes the specified decision: an atomic check holds when some permission
  has the action and every required scope is covered by one with that action, composite
  checks are conjunction and disjunction; order and repetition of permissions play no role.
\<close>

theorem evaluate_correct: "evaluate e permissions \<longleftrightarrow> satisfies (set permissions) e"
  by (rule evaluate_satisfies)

section \<open>Monotonicity\<close>

text \<open>One permission set dominates another when it has a wider grant for every grant.\<close>

definition dominates :: "permission set \<Rightarrow> permission set \<Rightarrow> bool" where
  "dominates Q P \<longleftrightarrow> (\<forall>p\<in>P. \<exists>q\<in>Q. action q = action p \<and> scopeCovers (scope q) (scope p))"

lemma dominates_superset: "P \<subseteq> Q \<Longrightarrow> dominates Q P"
  by (auto simp: dominates_def intro: scope_cov.covers_refl)

lemma grants_dominates: "dominates Q P \<Longrightarrow> grants P act want \<Longrightarrow> grants Q act want"
  by (fastforce simp: dominates_def grants_def intro: scope_cov.covers_trans)

lemma dominates_action: "dominates Q P \<Longrightarrow> a \<in> action ` P \<Longrightarrow> a \<in> action ` Q"
  unfolding dominates_def image_iff by metis

lemma satisfies_dominates: "dominates Q P \<Longrightarrow> satisfies P e \<Longrightarrow> satisfies Q e"
proof (induction e)
  case (ActionEvaluator act scopes)
  then have "act \<in> action ` Q" by (auto intro: dominates_action)
  with ActionEvaluator show ?case by (auto intro: grants_dominates)
next
  case (ResolvedActionEvaluator act resolved)
  then have "act \<in> action ` Q" by (auto intro: dominates_action)
  with ResolvedActionEvaluator show ?case by (simp, blast intro: grants_dominates)
qed auto

text \<open>
  A check never turns negative by granting more: if every permission is replaced by one for
  the same action whose scope covers the old scope (in particular if permissions are only
  added), everything allowed before stays allowed.
\<close>

theorem evaluate_monotone:
  assumes "dominates (set Q) (set P)" and "evaluate e P"
  shows "evaluate e Q"
  using assms by (simp add: evaluate_satisfies satisfies_dominates)

theorem evaluate_monotone_witness:
  "evaluate (ac_eval ''dashboards:read'' (OneScope ''dashboards:uid:a''))
     [\<lparr>action = ''dashboards:read'', scope = ''dashboards:*''\<rparr>]"
proof (rule evaluate_monotone)
  show "dominates (set [\<lparr>action = ''dashboards:read'', scope = ''dashboards:*''\<rparr>])
          (set [\<lparr>action = ''dashboards:read'', scope = ''dashboards:uid:a''\<rparr>])"
    unfolding dominates_def by code_simp
  show "evaluate (ac_eval ''dashboards:read'' (OneScope ''dashboards:uid:a''))
          [\<lparr>action = ''dashboards:read'', scope = ''dashboards:uid:a''\<rparr>]"
    by code_simp
qed

section \<open>Mutation\<close>

lemma ev_mutate_idem [simp]: "ev_mutate r (ev_mutate r' e) = ev_mutate r' e"
  by (induction e) auto

lemma satisfies_mutate:
  assumes "\<And>s. s \<in> set (r s)"
  shows "satisfies P e \<Longrightarrow> satisfies P (ev_mutate r e)"
proof (induction e)
  case (ActionEvaluator act scopes)
  then show ?case using assms by (auto intro: bexI)
qed auto

text \<open>
  A resolver is conservative for a permission set when every scope it offers for a request
  is one whose grant is meant to authorise the request.
\<close>

lemma satisfies_mutate_sound:
  assumes "\<And>s w. w \<in> set (r s) \<Longrightarrow> grants P act w \<Longrightarrow> grants P act s"
  shows "satisfies P (ev_mutate r (ActionEvaluator act scopes)) \<Longrightarrow>
         satisfies P (ActionEvaluator act scopes)"
  using assms by (auto split: if_splits)

text \<open>
  Scope resolution only widens: for a resolver that keeps the requested scope among its
  results, whatever the raw evaluator allows the mutated one allows; and mutating an already
  mutated evaluator, with any resolver, changes nothing.
\<close>

theorem ev_mutate_widens:
  assumes "\<forall>s. s \<in> set (r s)"
  shows "(evaluate e permissions \<longrightarrow> evaluate (ev_mutate r e) permissions)
     \<and> ev_mutate r' (ev_mutate r e) = ev_mutate r e"
  using assms satisfies_mutate [of r] by (simp add: evaluate_satisfies)

theorem ev_mutate_widens_witness:
  "evaluate (ev_mutate (\<lambda>s. [s, ''folders:*'']) (ac_eval ''dashboards:read'' (OneScope ''dashboards:uid:a'')))
     [\<lparr>action = ''dashboards:read'', scope = ''dashboards:uid:a''\<rparr>]"
proof -
  have r: "\<forall>s. s \<in> set ((\<lambda>s. [s, ''folders:*'']) s)" by simp
  have e: "evaluate (ac_eval ''dashboards:read'' (OneScope ''dashboards:uid:a''))
     [\<lparr>action = ''dashboards:read'', scope = ''dashboards:uid:a''\<rparr>]" by code_simp
  show ?thesis using ev_mutate_widens [OF r] e by blast
qed

end
