(* ===== verification/Actions_Catalog.thy ===== *)
theory Actions_Catalog
  imports Evaluator
begin

text \<open>
  The action catalog and the built-in roles: \<^verbatim>\<open>packages/common/src/rbac/actions.ts\<close>
  and \<^verbatim>\<open>packages/common/src/rbac/roles-def.ts\<close>.  The abbreviation
  \<^verbatim>\<open>A_X\<close> stands for the source's \<^verbatim>\<open>ACTIONS.X\<close>.  The results: every
  granted action is in the catalog, the inheritance walk returns for every role name, the
  roles form the documented chain viewer, editor, admin, server admin, and auto-edit of
  remediation plans is granted by none of the organisation roles.
\<close>

section \<open>Actions\<close>

abbreviation A_DashboardsRead :: string where "A_DashboardsRead \<equiv> ''dashboards:read''"
abbreviation A_DashboardsWrite :: string where "A_DashboardsWrite \<equiv> ''dashboards:write''"
abbreviation A_DashboardsCreate :: string where "A_DashboardsCreate \<equiv> ''dashboards:create''"
abbreviation A_DashboardsDelete :: string where "A_DashboardsDelete \<equiv> ''dashboards:delete''"
abbreviation A_DashboardsPermissionsRead :: string where "A_DashboardsPermissionsRead \<equiv> ''dashboards.permissions:read''"
abbreviation A_DashboardsPermissionsWrite :: string where "A_DashboardsPermissionsWrite \<equiv> ''dashboards.permissions:write''"
abbreviation A_FoldersRead :: string where "A_FoldersRead \<equiv> ''folders:read''"
abbreviation A_FoldersWrite :: string where "A_FoldersWrite \<equiv> ''folders:write''"
abbreviation A_FoldersCreate :: string where "A_FoldersCreate \<equiv> ''folders:create''"
abbreviation A_FoldersDelete :: string where "A_FoldersDelete \<equiv> ''folders:delete''"
abbreviation A_FoldersPermissionsRead :: string where "A_FoldersPermissionsRead \<equiv> ''folders.permissions:read''"
abbreviation A_FoldersPermissionsWrite :: string where "A_FoldersPermissionsWrite \<equiv> ''folders.permissions:write''"
abbreviation A_ConnectorsRead :: string where "A_ConnectorsRead \<equiv> ''connectors:read''"
abbreviation A_ConnectorsWrite :: string where "A_ConnectorsWrite \<equiv> ''connectors:write''"
abbreviation A_ConnectorsCreate :: string where "A_ConnectorsCreate \<equiv> ''connectors:create''"
abbreviation A_ConnectorsDelete :: string where "A_ConnectorsDelete \<equiv> ''connectors:delete''"
abbreviation A_ConnectorsQuery :: string where "A_ConnectorsQuery \<equiv> ''connectors:query''"
abbreviation A_ConnectorsExplore :: string where "A_ConnectorsExplore \<equiv> ''connectors:explore''"
abbreviation A_ConnectorsIdRead :: string where "A_ConnectorsIdRead \<equiv> ''connectors.id:read''"
abbreviation A_ConnectorsPermissionsRead :: string where "A_ConnectorsPermissionsRead \<equiv> ''connectors.permissions:read''"
abbreviation A_ConnectorsPermissionsWrite :: string where "A_ConnectorsPermissionsWrite \<equiv> ''connectors.permissions:write''"
abbreviation A_ConnectorsTest :: string where "A_ConnectorsTest \<equiv> ''connectors:test''"
abbreviation A_AlertRulesRead :: string where "A_AlertRulesRead \<equiv> ''alert.rules:read''"
abbreviation A_AlertRulesWrite :: string where "A_AlertRulesWrite \<equiv> ''alert.rules:write''"
abbreviation A_AlertRulesCreate :: string where "A_AlertRulesCreate \<equiv> ''alert.rules:create''"
abbreviation A_AlertRulesDelete :: string where "A_AlertRulesDelete \<equiv> ''alert.rules:delete''"
abbreviation A_AlertRulesPermissionsRead :: string where "A_AlertRulesPermissionsRead \<equiv> ''alert.rules.permissions:read''"
abbreviation A_AlertRulesPermissionsWrite :: string where "A_AlertRulesPermissionsWrite \<equiv> ''alert.rules.permissions:write''"
abbreviation A_AlertNotificationsRead :: string where "A_AlertNotificationsRead \<equiv> ''alert.notifications:read''"
abbreviation A_AlertNotificationsWrite :: string where "A_AlertNotificationsWrite \<equiv> ''alert.notifications:write''"
abbreviation A_AlertInstancesRead :: string where "A_AlertInstancesRead \<equiv> ''alert.instances:read''"
abbreviation A_AlertInstancesExternalRead :: string where "A_AlertInstancesExternalRead \<equiv> ''alert.instances.external:read''"
abbreviation A_AlertInstancesExternalWrite :: string where "A_AlertInstancesExternalWrite \<equiv> ''alert.instances.external:write''"
abbreviation A_AlertSilencesRead :: string where "A_AlertSilencesRead \<equiv> ''alert.silences:read''"
abbreviation A_AlertSilencesCreate :: string where "A_AlertSilencesCreate \<equiv> ''alert.silences:create''"
abbreviation A_AlertSilencesWrite :: string where "A_AlertSilencesWrite \<equiv> ''alert.silences:write''"
abbreviation A_AlertProvisioningRead :: string where "A_AlertProvisioningRead \<equiv> ''alert.provisioning:read''"
abbreviation A_AlertProvisioningWrite :: string where "A_AlertProvisioningWrite \<equiv> ''alert.provisioning:write''"
abbreviation A_UsersRead :: string where "A_UsersRead \<equiv> ''users:read''"
abbreviation A_UsersWrite :: string where "A_UsersWrite \<equiv> ''users:write''"
abbreviation A_UsersCreate :: string where "A_UsersCreate \<equiv> ''users:create''"
abbreviation A_UsersDelete :: string where "A_UsersDelete \<equiv> ''users:delete''"
abbreviation A_UsersDisable :: string where "A_UsersDisable \<equiv> ''users:disable''"
abbreviation A_UsersAuthTokenRead :: string where "A_UsersAuthTokenRead \<equiv> ''users.authtoken:read''"
abbreviation A_UsersAuthTokenUpdate :: string where "A_UsersAuthTokenUpdate \<equiv> ''users.authtoken:update''"
abbreviation A_UsersPasswordUpdate :: string where "A_UsersPasswordUpdate \<equiv> ''users.password:update''"
abbreviation A_UsersPermissionsRead :: string where "A_UsersPermissionsRead \<equiv> ''users.permissions:read''"
abbreviation A_UsersPermissionsWrite :: string where "A_UsersPermissionsWrite \<equiv> ''users.permissions:write''"
abbreviation A_UsersQuotasList :: string where "A_UsersQuotasList \<equiv> ''users.quotas:list''"
abbreviation A_UsersQuotasUpdate :: string where "A_UsersQuotasUpdate \<equiv> ''users.quotas:update''"
abbreviation A_OrgUsersRead :: string where "A_OrgUsersRead \<equiv> ''org.users:read''"
abbreviation A_OrgUsersAdd :: string where "A_OrgUsersAdd \<equiv> ''org.users:add''"
abbreviation A_OrgUsersWrite :: string where "A_OrgUsersWrite \<equiv> ''org.users:write''"
abbreviation A_OrgUsersRemove :: string where "A_OrgUsersRemove \<equiv> ''org.users:remove''"
abbreviation A_OrgsRead :: string where "A_OrgsRead \<equiv> ''orgs:read''"
abbreviation A_OrgsWrite :: string where "A_OrgsWrite \<equiv> ''orgs:write''"
abbreviation A_OrgsCreate :: string where "A_OrgsCreate \<equiv> ''orgs:create''"
abbreviation A_OrgsDelete :: string where "A_OrgsDelete \<equiv> ''orgs:delete''"
abbreviation A_OrgsPreferencesRead :: string where "A_OrgsPreferencesRead \<equiv> ''orgs.preferences:read''"
abbreviation A_OrgsPreferencesWrite :: string where "A_OrgsPreferencesWrite \<equiv> ''orgs.preferences:write''"
abbreviation A_OrgsQuotasRead :: string where "A_OrgsQuotasRead \<equiv> ''orgs.quotas:read''"
abbreviation A_OrgsQuotasWrite :: string where "A_OrgsQuotasWrite \<equiv> ''orgs.quotas:write''"
abbreviation A_TeamsRead :: string where "A_TeamsRead \<equiv> ''teams:read''"
abbreviation A_TeamsWrite :: string where "A_TeamsWrite \<equiv> ''teams:write''"
abbreviation A_TeamsCreate :: string where "A_TeamsCreate \<equiv> ''teams:create''"
abbreviation A_TeamsDelete :: string where "A_TeamsDelete \<equiv> ''teams:delete''"
abbreviation A_TeamsPermissionsRead :: string where "A_TeamsPermissionsRead \<equiv> ''teams.permissions:read''"
abbreviation A_TeamsPermissionsWrite :: string where "A_TeamsPermissionsWrite \<equiv> ''teams.permissions:write''"
abbreviation A_ServiceAccountsRead :: string where "A_ServiceAccountsRead \<equiv> ''serviceaccounts:read''"
abbreviation A_ServiceAccountsWrite :: string where "A_ServiceAccountsWrite \<equiv> ''serviceaccounts:write''"
abbreviation A_ServiceAccountsCreate :: string where "A_ServiceAccountsCreate \<equiv> ''serviceaccounts:create''"
abbreviation A_ServiceAccountsDelete :: string where "A_ServiceAccountsDelete \<equiv> ''serviceaccounts:delete''"
abbreviation A_ServiceAccountsPermissionsRead :: string where "A_ServiceAccountsPermissionsRead \<equiv> ''serviceaccounts.permissions:read''"
abbreviation A_ServiceAccountsPermissionsWrite :: string where "A_ServiceAccountsPermissionsWrite \<equiv> ''serviceaccounts.permissions:write''"
abbreviation A_ApiKeysRead :: string where "A_ApiKeysRead \<equiv> ''apikeys:read''"
abbreviation A_ApiKeysCreate :: string where "A_ApiKeysCreate \<equiv> ''apikeys:create''"
abbreviation A_ApiKeysDelete :: string where "A_ApiKeysDelete \<equiv> ''apikeys:delete''"
abbreviation A_RolesRead :: string where "A_RolesRead \<equiv> ''roles:read''"
abbreviation A_RolesWrite :: string where "A_RolesWrite \<equiv> ''roles:write''"
abbreviation A_RolesDelete :: string where "A_RolesDelete \<equiv> ''roles:delete''"
abbreviation A_ServerStatsRead :: string where "A_ServerStatsRead \<equiv> ''server.stats:read''"
abbreviation A_ServerUsageStatsReportRead :: string where "A_ServerUsageStatsReportRead \<equiv> ''server.usagestats.report:read''"
abbreviation A_AnnotationsRead :: string where "A_AnnotationsRead \<equiv> ''annotations:read''"
abbreviation A_AnnotationsWrite :: string where "A_AnnotationsWrite \<equiv> ''annotations:write''"
abbreviation A_AnnotationsCreate :: string where "A_AnnotationsCreate \<equiv> ''annotations:create''"
abbreviation A_AnnotationsDelete :: string where "A_AnnotationsDelete \<equiv> ''annotations:delete''"
abbreviation A_InvestigationsRead :: string where "A_InvestigationsRead \<equiv> ''investigations:read''"
abbreviation A_InvestigationsWrite :: string where "A_InvestigationsWrite \<equiv> ''investigations:write''"
abbreviation A_InvestigationsCreate :: string where "A_InvestigationsCreate \<equiv> ''investigations:create''"
abbreviation A_InvestigationsDelete :: string where "A_InvestigationsDelete \<equiv> ''investigations:delete''"
abbreviation A_ApprovalsRead :: string where "A_ApprovalsRead \<equiv> ''approvals:read''"
abbreviation A_ApprovalsApprove :: string where "A_ApprovalsApprove \<equiv> ''approvals:approve''"
abbreviation A_ApprovalsOverride :: string where "A_ApprovalsOverride \<equiv> ''approvals:override''"
abbreviation A_ChatUse :: string where "A_ChatUse \<equiv> ''chat:use''"
abbreviation A_AgentsConfigRead :: string where "A_AgentsConfigRead \<equiv> ''agents.config:read''"
abbreviation A_AgentsConfigWrite :: string where "A_AgentsConfigWrite \<equiv> ''agents.config:write''"
abbreviation A_OpsCommandsRun :: string where "A_OpsCommandsRun \<equiv> ''ops.commands:run''"
abbreviation A_PlansRead :: string where "A_PlansRead \<equiv> ''plans:read''"
abbreviation A_PlansApprove :: string where "A_PlansApprove \<equiv> ''plans:approve''"
abbreviation A_PlansAutoEdit :: string where "A_PlansAutoEdit \<equiv> ''plans:auto_edit''"
abbreviation A_InstanceConfigRead :: string where "A_InstanceConfigRead \<equiv> ''instance.config:read''"
abbreviation A_InstanceConfigWrite :: string where "A_InstanceConfigWrite \<equiv> ''instance.config:write''"
definition ACTIONS :: "(string \<times> string) list" where
  "ACTIONS = [
     (''DashboardsRead'', A_DashboardsRead),
     (''DashboardsWrite'', A_DashboardsWrite),
     (''DashboardsCreate'', A_DashboardsCreate),
     (''DashboardsDelete'', A_DashboardsDelete),
     (''DashboardsPermissionsRead'', A_DashboardsPermissionsRead),
     (''DashboardsPermissionsWrite'', A_DashboardsPermissionsWrite),
     (''FoldersRead'', A_FoldersRead),
     (''FoldersWrite'', A_FoldersWrite),
     (''FoldersCreate'', A_FoldersCreate),
     (''FoldersDelete'', A_FoldersDelete),
     (''FoldersPermissionsRead'', A_FoldersPermissionsRead),
     (''FoldersPermissionsWrite'', A_FoldersPermissionsWrite),
     (''ConnectorsRead'', A_ConnectorsRead),
     (''ConnectorsWrite'', A_ConnectorsWrite),
     (''ConnectorsCreate'', A_ConnectorsCreate),
     (''ConnectorsDelete'', A_ConnectorsDelete),
     (''ConnectorsQuery'', A_ConnectorsQuery),
     (''ConnectorsExplore'', A_ConnectorsExplore),
     (''ConnectorsIdRead'', A_ConnectorsIdRead),
     (''ConnectorsPermissionsRead'', A_ConnectorsPermissionsRead),
     (''ConnectorsPermissionsWrite'', A_ConnectorsPermissionsWrite),
     (''ConnectorsTest'', A_ConnectorsTest),
     (''AlertRulesRead'', A_AlertRulesRead),
     (''AlertRulesWrite'', A_AlertRulesWrite),
     (''AlertRulesCreate'', A_AlertRulesCreate),
     (''AlertRulesDelete'', A_AlertRulesDelete),
     (''AlertRulesPermissionsRead'', A_AlertRulesPermissionsRead),
     (''AlertRulesPermissionsWrite'', A_AlertRulesPermissionsWrite),
     (''AlertNotificationsRead'', A_AlertNotificationsRead),
     (''AlertNotificationsWrite'', A_AlertNotificationsWrite),
     (''AlertInstancesRead'', A_AlertInstancesRead),
     (''AlertInstancesExternalRead'', A_AlertInstancesExternalRead),
     (''AlertInstancesExternalWrite'', A_AlertInstancesExternalWrite),
     (''AlertSilencesRead'', A_AlertSilencesRead),
     (''AlertSilencesCreate'', A_AlertSilencesCreate),
     (''AlertSilencesWrite'', A_AlertSilencesWrite),
     (''AlertProvisioningRead'', A_AlertProvisioningRead),
     (''AlertProvisioningWrite'', A_AlertProvisioningWrite),
     (''UsersRead'', A_UsersRead),
     (''UsersWrite'', A_UsersWrite),
     (''UsersCreate'', A_UsersCreate),
     (''UsersDelete'', A_UsersDelete),
     (''UsersDisable'', A_UsersDisable),
     (''UsersAuthTokenRead'', A_UsersAuthTokenRead),
     (''UsersAuthTokenUpdate'', A_UsersAuthTokenUpdate),
     (''UsersPasswordUpdate'', A_UsersPasswordUpdate),
     (''UsersPermissionsRead'', A_UsersPermissionsRead),
     (''UsersPermissionsWrite'', A_UsersPermissionsWrite),
     (''UsersQuotasList'', A_UsersQuotasList),
     (''UsersQuotasUpdate'', A_UsersQuotasUpdate),
     (''OrgUsersRead'', A_OrgUsersRead),
     (''OrgUsersAdd'', A_OrgUsersAdd),
     (''OrgUsersWrite'', A_OrgUsersWrite),
     (''OrgUsersRemove'', A_OrgUsersRemove),
     (''OrgsRead'', A_OrgsRead),
     (''OrgsWrite'', A_OrgsWrite),
     (''OrgsCreate'', A_OrgsCreate),
     (''OrgsDelete'', A_OrgsDelete),
     (''OrgsPreferencesRead'', A_OrgsPreferencesRead),
     (''OrgsPreferencesWrite'', A_OrgsPreferencesWrite),
     (''OrgsQuotasRead'', A_OrgsQuotasRead),
     (''OrgsQuotasWrite'', A_OrgsQuotasWrite),
     (''TeamsRead'', A_TeamsRead),
     (''TeamsWrite'', A_TeamsWrite),
     (''TeamsCreate'', A_TeamsCreate),
     (''TeamsDelete'', A_TeamsDelete),
     (''TeamsPermissionsRead'', A_TeamsPermissionsRead),
     (''TeamsPermissionsWrite'', A_TeamsPermissionsWrite),
     (''ServiceAccountsRead'', A_ServiceAccountsRead),
     (''ServiceAccountsWrite'', A_ServiceAccountsWrite),
     (''ServiceAccountsCreate'', A_ServiceAccountsCreate),
     (''ServiceAccountsDelete'', A_ServiceAccountsDelete),
     (''ServiceAccountsPermissionsRead'', A_ServiceAccountsPermissionsRead),
     (''ServiceAccountsPermissionsWrite'', A_ServiceAccountsPermissionsWrite),
     (''ApiKeysRead'', A_ApiKeysRead),
     (''ApiKeysCreate'', A_ApiKeysCreate),
     (''ApiKeysDelete'', A_ApiKeysDelete),
     (''RolesRead'', A_RolesRead),
     (''RolesWrite'', A_RolesWrite),
     (''RolesDelete'', A_RolesDelete),
     (''ServerStatsRead'', A_ServerStatsRead),
     (''ServerUsageStatsReportRead'', A_ServerUsageStatsReportRead),
     (''AnnotationsRead'', A_AnnotationsRead),
     (''AnnotationsWrite'', A_AnnotationsWrite),
     (''AnnotationsCreate'', A_AnnotationsCreate),
     (''AnnotationsDelete'', A_AnnotationsDelete),
     (''InvestigationsRead'', A_InvestigationsRead),
     (''InvestigationsWrite'', A_InvestigationsWrite),
     (''InvestigationsCreate'', A_InvestigationsCreate),
     (''InvestigationsDelete'', A_InvestigationsDelete),
     (''ApprovalsRead'', A_ApprovalsRead),
     (''ApprovalsApprove'', A_ApprovalsApprove),
     (''ApprovalsOverride'', A_ApprovalsOverride),
     (''ChatUse'', A_ChatUse),
     (''AgentsConfigRead'', A_AgentsConfigRead),
     (''AgentsConfigWrite'', A_AgentsConfigWrite),
     (''OpsCommandsRun'', A_OpsCommandsRun),
     (''PlansRead'', A_PlansRead),
     (''PlansApprove'', A_PlansApprove),
     (''PlansAutoEdit'', A_PlansAutoEdit),
     (''InstanceConfigRead'', A_InstanceConfigRead),
     (''InstanceConfigWrite'', A_InstanceConfigWrite)]"

definition ALL_ACTIONS :: "string list" where
  "ALL_ACTIONS = map snd ACTIONS"

definition isKnownAction :: "string \<Rightarrow> bool" where
  "isKnownAction s \<longleftrightarrow> s \<in> set ALL_ACTIONS"

section \<open>Basic roles\<close>

abbreviation perm :: "string \<Rightarrow> string \<Rightarrow> permission" where
  "perm a s \<equiv> \<lparr>action = a, scope = s\<rparr>"

definition VIEWER_PERMISSIONS :: "permission list" where
  "VIEWER_PERMISSIONS = [perm A_DashboardsRead ''dashboards:*'',
     perm A_FoldersRead ''folders:*'',
     perm A_AnnotationsRead ''annotations:*'',
     perm A_ConnectorsExplore '''',
     perm A_ConnectorsIdRead ''connectors:*'',
     perm A_AlertRulesRead ''folders:*'',
     perm A_AlertInstancesRead '''',
     perm A_AlertInstancesExternalRead '''',
     perm A_AlertNotificationsRead '''',
     perm A_AlertSilencesRead '''',
     perm A_OrgsRead '''',
     perm A_OrgsPreferencesRead '''',
     perm A_TeamsRead ''teams:*'',
     perm A_UsersQuotasList ''global.users:*'',
     perm A_InvestigationsRead ''investigations:*'',
     perm A_ApprovalsRead ''approvals:*'',
     perm A_PlansRead ''plans:*'',
     perm A_ChatUse '''']"

definition EDITOR_ONLY_PERMISSIONS :: "permission list" where
  "EDITOR_ONLY_PERMISSIONS = [perm A_DashboardsCreate ''folders:*'',
     perm A_DashboardsWrite ''dashboards:*'',
     perm A_DashboardsDelete ''dashboards:*'',
     perm A_FoldersCreate '''',
     perm A_FoldersWrite ''folders:*'',
     perm A_FoldersDelete ''folders:*'',
     perm A_ConnectorsQuery ''connectors:*'',
     perm A_ConnectorsRead ''connectors:*'',
     perm A_AnnotationsWrite ''annotations:*'',
     perm A_AnnotationsCreate ''annotations:*'',
     perm A_AnnotationsDelete ''annotations:*'',
     perm A_AlertRulesWrite ''folders:*'',
     perm A_AlertRulesCreate ''folders:*'',
     perm A_AlertRulesDelete ''folders:*'',
     perm A_AlertNotificationsWrite '''',
     perm A_AlertInstancesExternalWrite '''',
     perm A_AlertSilencesCreate '''',
     perm A_AlertSilencesWrite '''',
     perm A_InvestigationsWrite ''investigations:*'',
     perm A_InvestigationsCreate '''',
     perm A_InvestigationsDelete ''investigations:*'',
     perm A_ApprovalsApprove ''approvals:*'',
     perm A_PlansApprove ''plans:*'']"

definition ADMIN_ONLY_PERMISSIONS :: "permission list" where
  "ADMIN_ONLY_PERMISSIONS = [perm A_OrgUsersRead ''users:*'',
     perm A_OrgUsersAdd ''users:*'',
     perm A_OrgUsersWrite ''users:*'',
     perm A_OrgUsersRemove ''users:*'',
     perm A_OrgsWrite '''',
     perm A_OrgsPreferencesWrite '''',
     perm A_OrgsQuotasRead '''',
     perm A_OrgsQuotasWrite '''',
     perm A_TeamsCreate '''',
     perm A_TeamsWrite ''teams:*'',
     perm A_TeamsDelete ''teams:*'',
     perm A_TeamsPermissionsRead ''teams:*'',
     perm A_TeamsPermissionsWrite ''teams:*'',
     perm A_ServiceAccountsRead ''serviceaccounts:*'',
     perm A_ServiceAccountsWrite ''serviceaccounts:*'',
     perm A_ServiceAccountsCreate '''',
     perm A_ServiceAccountsDelete ''serviceaccounts:*'',
     perm A_ServiceAccountsPermissionsRead ''serviceaccounts:*'',
     perm A_ServiceAccountsPermissionsWrite ''serviceaccounts:*'',
     perm A_ApiKeysRead ''apikeys:*'',
     perm A_ApiKeysCreate '''',
     perm A_ApiKeysDelete ''apikeys:*'',
     perm A_RolesRead ''roles:*'',
     perm A_RolesWrite ''roles:*'',
     perm A_RolesDelete ''roles:*'',
     perm A_ConnectorsWrite ''connectors:*'',
     perm A_ConnectorsCreate '''',
     perm A_ConnectorsDelete ''connectors:*'',
     perm A_ConnectorsPermissionsRead ''connectors:*'',
     perm A_ConnectorsPermissionsWrite ''connectors:*'',
     perm A_FoldersPermissionsRead ''folders:*'',
     perm A_FoldersPermissionsWrite ''folders:*'',
     perm A_DashboardsPermissionsRead ''dashboards:*'',
     perm A_DashboardsPermissionsWrite ''dashboards:*'',
     perm A_AlertProvisioningRead '''',
     perm A_AlertProvisioningWrite '''',
     perm A_ApprovalsOverride ''approvals:*'',
     perm A_AgentsConfigRead '''',
     perm A_AgentsConfigWrite '''',
     perm A_ConnectorsRead ''connectors:*'',
     perm A_ConnectorsWrite ''connectors:*'',
     perm A_OpsCommandsRun ''connectors:*'',
     perm A_InstanceConfigRead '''',
     perm A_InstanceConfigWrite '''']"
definition SERVER_ADMIN_PERMISSIONS :: "permission list" where
  "SERVER_ADMIN_PERMISSIONS = map (\<lambda>a. perm a '''') ALL_ACTIONS"

record basic_role =
  br_name :: string
  br_uid :: string
  br_displayName :: string
  br_description :: string
  br_builtinMappingRole :: string
  br_global :: bool
  br_permissions :: "permission list"
  br_parent :: "string option"

definition BASIC_ROLE_DEFINITIONS :: "basic_role list" where
  "BASIC_ROLE_DEFINITIONS =
    [\<lparr>br_name = ''basic:viewer'', br_uid = ''basic_viewer'', br_displayName = ''Viewer'',
      br_description = ''Read-only access to dashboards, folders, and annotations.'',
      br_builtinMappingRole = ''Viewer'', br_global = False,
      br_permissions = VIEWER_PERMISSIONS, br_parent = None\<rparr>,
     \<lparr>br_name = ''basic:editor'', br_uid = ''basic_editor'', br_displayName = ''Editor'',
      br_description = ''Viewer plus dashboard, folder, annotation, and alert-rule CRUD.'',
      br_builtinMappingRole = ''Editor'', br_global = False,
      br_permissions = EDITOR_ONLY_PERMISSIONS, br_parent = Some ''basic:viewer''\<rparr>,
     \<lparr>br_name = ''basic:admin'', br_uid = ''basic_admin'', br_displayName = ''Admin'',
      br_description = ''Editor plus org-level admin: users, teams, service accounts, roles.'',
      br_builtinMappingRole = ''Admin'', br_global = False,
      br_permissions = ADMIN_ONLY_PERMISSIONS, br_parent = Some ''basic:editor''\<rparr>,
     \<lparr>br_name = ''basic:server_admin'', br_uid = ''basic_server_admin'',
      br_displayName = ''Server Admin'',
      br_description = ''Global: every action unrestricted. Does not automatically grant org-level resource access.'',
      br_builtinMappingRole = ''Server Admin'', br_global = True,
      br_permissions = SERVER_ADMIN_PERMISSIONS, br_parent = None\<rparr>]"

definition perm_key :: "permission \<Rightarrow> string" where
  "perm_key p = action p @ ''|'' @ scope p"

text \<open>
  The walk of \<^verbatim>\<open>resolveBasicRolePermissions\<close> with its two accumulators
  \<^verbatim>\<open>seen\<close> and \<^verbatim>\<open>collected\<close>.  The recursion follows the parent
  links and is bounded by fuel; \<^const>\<open>None\<close> is running out of it.
\<close>

fun collect_perms :: "string list \<times> permission list \<Rightarrow> permission list \<Rightarrow>
    string list \<times> permission list" where
  "collect_perms (seen, collected) [] = (seen, collected)"
| "collect_perms (seen, collected) (p # ps) =
     (if perm_key p \<in> set seen then collect_perms (seen, collected) ps
      else collect_perms (perm_key p # seen, collected @ [p]) ps)"

fun walk_role :: "nat \<Rightarrow> (string, basic_role) js_map \<Rightarrow> string \<Rightarrow>
    string list \<times> permission list \<Rightarrow> (string list \<times> permission list) option" where
  "walk_role 0 byName n st = None"
| "walk_role (Suc fuel) byName n st =
     (case map_of byName n of
        None \<Rightarrow> Some st
      | Some d \<Rightarrow>
          (case (case br_parent d of None \<Rightarrow> Some st | Some p \<Rightarrow> walk_role fuel byName p st) of
             None \<Rightarrow> None
           | Some st' \<Rightarrow> Some (collect_perms st' (br_permissions d))))"

definition roles_byName :: "basic_role list \<Rightarrow> (string, basic_role) js_map" where
  "roles_byName defs = fold (\<lambda>d m. AList.update (br_name d) d m) defs []"

definition resolveBasicRolePermissions :: "string \<Rightarrow> permission list option" where
  "resolveBasicRolePermissions roleName =
     map_option snd (walk_role (Suc (length BASIC_ROLE_DEFINITIONS))
       (roles_byName BASIC_ROLE_DEFINITIONS) roleName ([], []))"

section \<open>The inheritance walk\<close>

lemma collect_perms_dedupe:
  "snd (collect_perms (seen, collected) ps) = collected @ dedupe_by perm_key seen ps"
  by (induction ps arbitrary: seen collected) auto

lemma collect_perms_append:
  "collect_perms st (ps @ qs) = collect_perms (collect_perms st ps) qs"
  by (induction st ps rule: collect_perms.induct) auto

lemma perm_key_inj:
  assumes "\<forall>p\<in>set ps. CHR ''|'' \<notin> set (action p)"
  shows "inj_on perm_key (set ps)"
proof (rule inj_onI)
  fix p q
  assume pq: "p \<in> set ps" "q \<in> set ps" "perm_key p = perm_key q"
  have "split_on CHR ''|'' (perm_key r) = action r # split_on CHR ''|'' (scope r)"
    if "r \<in> set ps" for r
    using assms that split_on_append_sep [of "CHR ''|''" "action r" "scope r"]
    by (simp add: perm_key_def)
  with pq have "action p = action q" by (metis list.inject)
  with pq(3) show "p = q" by (auto simp: perm_key_def intro: permission.equality)
qed

lemma byName_lookup:
  "map_of (roles_byName BASIC_ROLE_DEFINITIONS) n =
     (if n = ''basic:viewer'' then Some (BASIC_ROLE_DEFINITIONS ! 0)
      else if n = ''basic:editor'' then Some (BASIC_ROLE_DEFINITIONS ! Suc 0)
      else if n = ''basic:admin'' then Some (BASIC_ROLE_DEFINITIONS ! Suc (Suc 0))
      else if n = ''basic:server_admin'' then Some (BASIC_ROLE_DEFINITIONS ! Suc (Suc (Suc 0))) else None)"
  by (simp add: roles_byName_def BASIC_ROLE_DEFINITIONS_def)

lemma basic_defs_nth:
  "br_permissions (BASIC_ROLE_DEFINITIONS ! 0) = VIEWER_PERMISSIONS"
  "br_parent (BASIC_ROLE_DEFINITIONS ! 0) = None"
  "br_permissions (BASIC_ROLE_DEFINITIONS ! Suc 0) = EDITOR_ONLY_PERMISSIONS"
  "br_parent (BASIC_ROLE_DEFINITIONS ! Suc 0) = Some ''basic:viewer''"
  "br_permissions (BASIC_ROLE_DEFINITIONS ! Suc (Suc 0)) = ADMIN_ONLY_PERMISSIONS"
  "br_parent (BASIC_ROLE_DEFINITIONS ! Suc (Suc 0)) = Some ''basic:editor''"
  "br_permissions (BASIC_ROLE_DEFINITIONS ! Suc (Suc (Suc 0))) = SERVER_ADMIN_PERMISSIONS"
  "br_parent (BASIC_ROLE_DEFINITIONS ! Suc (Suc (Suc 0))) = None"
  "length BASIC_ROLE_DEFINITIONS = Suc (Suc (Suc (Suc 0)))"
  by (simp_all add: BASIC_ROLE_DEFINITIONS_def)

lemmas resolve_simps = resolveBasicRolePermissions_def byName_lookup basic_defs_nth
  collect_perms_dedupe

lemma walk_role_mono: "walk_role fuel m n st = Some r \<Longrightarrow> walk_role (Suc fuel) m n st = Some r"
proof (induction fuel arbitrary: n r)
  case (Suc fuel)
  from Suc.prems show ?case
    using Suc.IH
    by (subst walk_role.simps(2), subst (asm) walk_role.simps(2))
       (auto simp del: walk_role.simps split: option.splits)
qed simp

lemma resolve_basic:
  "resolveBasicRolePermissions ''basic:viewer'' = Some (dedupe_by perm_key [] VIEWER_PERMISSIONS)"
  "resolveBasicRolePermissions ''basic:editor'' =
     Some (dedupe_by perm_key [] (VIEWER_PERMISSIONS @ EDITOR_ONLY_PERMISSIONS))"
  "resolveBasicRolePermissions ''basic:admin'' =
     Some (dedupe_by perm_key []
       (VIEWER_PERMISSIONS @ EDITOR_ONLY_PERMISSIONS @ ADMIN_ONLY_PERMISSIONS))"
  "resolveBasicRolePermissions ''basic:server_admin'' =
     Some (dedupe_by perm_key [] SERVER_ADMIN_PERMISSIONS)"
  by (simp_all add: resolve_simps flip: collect_perms_append)

lemma actions_plain: "list_all (\<lambda>a. CHR ''|'' \<notin> set a) ALL_ACTIONS"
  by code_simp

lemma known_all: "list_all isKnownAction ALL_ACTIONS"
  by (simp add: list_all_iff isKnownAction_def)

text \<open>One rewrite rule per catalog action.\<close>

lemmas known_action = known_all [unfolded ALL_ACTIONS_def ACTIONS_def, simplified]

lemma basic_actions_known:
  "list_all (\<lambda>p. isKnownAction (action p)) VIEWER_PERMISSIONS"
  "list_all (\<lambda>p. isKnownAction (action p)) EDITOR_ONLY_PERMISSIONS"
  "list_all (\<lambda>p. isKnownAction (action p)) ADMIN_ONLY_PERMISSIONS"
  by (simp_all add: VIEWER_PERMISSIONS_def EDITOR_ONLY_PERMISSIONS_def
       ADMIN_ONLY_PERMISSIONS_def known_action)

lemma server_admin_known: "list_all (\<lambda>p. isKnownAction (action p)) SERVER_ADMIN_PERMISSIONS"
  by (auto simp: list_all_iff SERVER_ADMIN_PERMISSIONS_def isKnownAction_def)

lemma set_dedupe_known:
  assumes "list_all (\<lambda>p. isKnownAction (action p)) ps"
  shows "set (dedupe_by perm_key [] ps) = set ps"
  using assms actions_plain
  by (intro set_dedupe_inj perm_key_inj) (auto simp: list_all_iff isKnownAction_def)

lemmas set_resolved_roles =
  set_dedupe_known [of VIEWER_PERMISSIONS]
  set_dedupe_known [of "VIEWER_PERMISSIONS @ EDITOR_ONLY_PERMISSIONS"]
  set_dedupe_known [of "VIEWER_PERMISSIONS @ EDITOR_ONLY_PERMISSIONS @ ADMIN_ONLY_PERMISSIONS"]
  set_dedupe_known [of SERVER_ADMIN_PERMISSIONS]

lemma server_admin_dominates:
  assumes "list_all (\<lambda>p. isKnownAction (action p)) ps"
  shows "dominates (set SERVER_ADMIN_PERMISSIONS) (set ps)"
  using assms
  by (auto simp: dominates_def list_all_iff isKnownAction_def SERVER_ADMIN_PERMISSIONS_def
           scopeCovers_def)

text \<open>
  The documented role chain holds for the permissions actually stored: viewer is contained
  in editor, editor in admin, and the server administrator has for every admin permission a
  grant of the same action with a scope that covers it.
\<close>

theorem basic_role_chain:
  "\<exists>v e a s. resolveBasicRolePermissions ''basic:viewer'' = Some v
     \<and> resolveBasicRolePermissions ''basic:editor'' = Some e
     \<and> resolveBasicRolePermissions ''basic:admin'' = Some a
     \<and> resolveBasicRolePermissions ''basic:server_admin'' = Some s
     \<and> set v \<subseteq> set e \<and> set e \<subseteq> set a \<and> dominates (set s) (set a)"
proof -
  have "dominates (set SERVER_ADMIN_PERMISSIONS)
          (set (VIEWER_PERMISSIONS @ EDITOR_ONLY_PERMISSIONS @ ADMIN_ONLY_PERMISSIONS))"
    by (rule server_admin_dominates) (simp add: basic_actions_known)
  then show ?thesis
    by (auto simp: resolve_basic set_resolved_roles basic_actions_known server_admin_known)
qed

text \<open>
  Resolving a role's permissions returns for every role name (the walk along the parent
  links never runs out of its bound), yields each action and scope pair once, and only
  catalog actions.
\<close>

theorem resolveBasicRolePermissions_total:
  "\<exists>ps. resolveBasicRolePermissions n = Some ps \<and> distinct (map perm_key ps)
     \<and> list_all (\<lambda>p. isKnownAction (action p)) ps"
proof -
  have known: "list_all (\<lambda>p. isKnownAction (action p)) (dedupe_by perm_key [] ps)"
    if "list_all (\<lambda>p. isKnownAction (action p)) ps" for ps
    using that dedupe_by_subset [of perm_key "[]" ps] by (auto simp: list_all_iff)
  consider "n = ''basic:viewer''" | "n = ''basic:editor''" | "n = ''basic:admin''"
    | "n = ''basic:server_admin''"
    | "map_of (roles_byName BASIC_ROLE_DEFINITIONS) n = None"
    unfolding byName_lookup by metis
  then show ?thesis
  proof cases
    case 5
    then show ?thesis by (simp add: resolveBasicRolePermissions_def)
  qed (simp_all add: resolve_basic dedupe_by_distinct known basic_actions_known
        server_admin_known)
qed

section \<open>Auto-edit is opt-in\<close>

lemma no_auto_edit_perms:
  "list_all (\<lambda>p. action p \<noteq> A_PlansAutoEdit)
     (VIEWER_PERMISSIONS @ EDITOR_ONLY_PERMISSIONS @ ADMIN_ONLY_PERMISSIONS)"
  by code_simp

lemma evaluate_no_action:
  "\<forall>p\<in>set ps. action p \<noteq> act \<Longrightarrow> \<not> evaluate (ev_mutate r (ac_eval act sc)) ps"
  by (auto simp: evaluate_satisfies ac_eval_def split: scope_arg.splits)

text \<open>
  None of the organisation roles carries the right to approve plans in auto-edit mode: for
  viewer, editor and admin the check fails on every scope and with every scope resolver,
  while the server administrator passes it unscoped.
\<close>

theorem no_default_auto_edit:
  "map_option (evaluate (ev_mutate r (ac_eval A_PlansAutoEdit sc)))
     (resolveBasicRolePermissions ''basic:viewer'') = Some False
   \<and> map_option (evaluate (ev_mutate r (ac_eval A_PlansAutoEdit sc)))
     (resolveBasicRolePermissions ''basic:editor'') = Some False
   \<and> map_option (evaluate (ev_mutate r (ac_eval A_PlansAutoEdit sc)))
     (resolveBasicRolePermissions ''basic:admin'') = Some False
   \<and> map_option (evaluate (ac_eval A_PlansAutoEdit NoScope))
     (resolveBasicRolePermissions ''basic:server_admin'') = Some True"
proof -
  have no: "\<not> evaluate (ev_mutate r (ac_eval A_PlansAutoEdit sc)) (dedupe_by perm_key [] ps)"
    if "set ps \<subseteq> set (VIEWER_PERMISSIONS @ EDITOR_ONLY_PERMISSIONS @ ADMIN_ONLY_PERMISSIONS)" for ps
    using that no_auto_edit_perms dedupe_by_subset [of perm_key "[]" ps]
    by (intro evaluate_no_action) (auto simp: list_all_iff)
  have "A_PlansAutoEdit \<in> set ALL_ACTIONS" by code_simp
  then have "evaluate (ac_eval A_PlansAutoEdit NoScope) (dedupe_by perm_key [] SERVER_ADMIN_PERMISSIONS)"
    by (auto simp: evaluate_satisfies ac_eval_def set_resolved_roles server_admin_known)
       (auto simp: SERVER_ADMIN_PERMISSIONS_def image_iff)
  then show ?thesis by (auto simp: resolve_basic intro!: no)
qed

end
