(* ===== verification/Fixed_Roles.thy ===== *)
theory Fixed_Roles
  imports Actions_Catalog
begin

text \<open>
  The catalog of pre-defined roles, \<^verbatim>\<open>packages/common/src/rbac/fixed-roles-def.ts\<close>:
  one definition per role of the source, in its order, and the catalog itself.  The results:
  every role grants catalog actions only, the derived identifiers are pairwise distinct (so
  seeding by identifier never merges two roles), one role alone carries auto-edit, and the
  namespace approver's placeholder scope covers no concrete namespace.
\<close>

record fixed_role =
  fr_name :: string
  fr_uid :: string
  fr_displayName :: string
  fr_description :: string
  fr_groupName :: string
  fr_permissions :: "permission list"
  fr_hidden :: "bool option"

text \<open>\<^verbatim>\<open>name.replace(/[:.]/g, '_')\<close>\<close>

definition role_uid :: "string \<Rightarrow> string" where
  "role_uid name = map (\<lambda>c. if c = CHR '':'' \<or> c = CHR ''.'' then CHR ''_'' else c) name"

definition role_def :: "string \<Rightarrow> string \<Rightarrow> string \<Rightarrow> string \<Rightarrow> permission list \<Rightarrow> bool option \<Rightarrow>
    fixed_role" where
  "role_def name displayName description groupName permissions hidden =
     \<lparr>fr_name = name, fr_uid = role_uid name, fr_displayName = displayName,
      fr_description = description, fr_groupName = groupName, fr_permissions = permissions,
      fr_hidden = hidden\<rparr>"

definition DASHBOARDS_READER :: fixed_role where
  "DASHBOARDS_READER = role_def
     ''fixed:dashboards:reader'' ''Dashboards reader''
     ''Read dashboards and dashboard permissions.'' ''Dashboards''
     [perm A_DashboardsRead ''dashboards:*'',
      perm A_DashboardsPermissionsRead ''dashboards:*''] None"

definition DASHBOARDS_WRITER :: fixed_role where
  "DASHBOARDS_WRITER = role_def
     ''fixed:dashboards:writer'' ''Dashboards writer''
     ''Create, update, and delete dashboards plus manage permissions.'' ''Dashboards''
     [perm A_DashboardsRead ''dashboards:*'',
      perm A_DashboardsWrite ''dashboards:*'',
      perm A_DashboardsCreate ''folders:*'',
      perm A_DashboardsDelete ''dashboards:*'',
      perm A_DashboardsPermissionsRead ''dashboards:*'',
      perm A_DashboardsPermissionsWrite ''dashboards:*''] None"

definition DASHBOARDS_CREATOR :: fixed_role where
  "DASHBOARDS_CREATOR = role_def
     ''fixed:dashboards:creator'' ''Dashboards creator''
     ''Create dashboards in any folder.'' ''Dashboards''
     [perm A_DashboardsCreate ''folders:*''] None"

definition DASHBOARDS_PERMISSIONS_READER :: fixed_role where
  "DASHBOARDS_PERMISSIONS_READER = role_def
     ''fixed:dashboards.permissions:reader'' ''Dashboard permissions reader''
     ''Read dashboard permission assignments.'' ''Dashboards''
     [perm A_DashboardsPermissionsRead ''dashboards:*''] None"

definition DASHBOARDS_PERMISSIONS_WRITER :: fixed_role where
  "DASHBOARDS_PERMISSIONS_WRITER = role_def
     ''fixed:dashboards.permissions:writer'' ''Dashboard permissions writer''
     ''Change dashboard permission assignments.'' ''Dashboards''
     [perm A_DashboardsPermissionsRead ''dashboards:*'',
      perm A_DashboardsPermissionsWrite ''dashboards:*''] None"

definition FOLDERS_READER :: fixed_role where
  "FOLDERS_READER = role_def
     ''fixed:folders:reader'' ''Folders reader''
     ''Read folders and folder permissions.'' ''Folders''
     [perm A_FoldersRead ''folders:*'',
      perm A_FoldersPermissionsRead ''folders:*''] None"

definition FOLDERS_WRITER :: fixed_role where
  "FOLDERS_WRITER = role_def
     ''fixed:folders:writer'' ''Folders writer''
     ''Create, update, and delete folders plus manage permissions.'' ''Folders''
     [perm A_FoldersRead ''folders:*'',
      perm A_FoldersWrite ''folders:*'',
      perm A_FoldersCreate '''',
      perm A_FoldersDelete ''folders:*'',
      perm A_FoldersPermissionsRead ''folders:*'',
      perm A_FoldersPermissionsWrite ''folders:*''] None"

definition FOLDERS_CREATOR :: fixed_role where
  "FOLDERS_CREATOR = role_def
     ''fixed:folders:creator'' ''Folders creator''
     ''Create new folders.'' ''Folders''
     [perm A_FoldersCreate ''''] None"

definition FOLDERS_PERMISSIONS_READER :: fixed_role where
  "FOLDERS_PERMISSIONS_READER = role_def
     ''fixed:folders.permissions:reader'' ''Folder permissions reader''
     ''Read folder permission assignments.'' ''Folders''
     [perm A_FoldersPermissionsRead ''folders:*''] None"

definition FOLDERS_PERMISSIONS_WRITER :: fixed_role where
  "FOLDERS_PERMISSIONS_WRITER = role_def
     ''fixed:folders.permissions:writer'' ''Folder permissions writer''
     ''Change folder permission assignments.'' ''Folders''
     [perm A_FoldersPermissionsRead ''folders:*'',
      perm A_FoldersPermissionsWrite ''folders:*''] None"

definition DATASOURCES_READER :: fixed_role where
  "DATASOURCES_READER = role_def
     ''fixed:connectors:reader'' ''Connectors reader''
     ''Read connectors and their configuration.'' ''Connectors''
     [perm A_ConnectorsRead ''connectors:*'',
      perm A_ConnectorsIdRead ''connectors:*''] None"

definition DATASOURCES_WRITER :: fixed_role where
  "DATASOURCES_WRITER = role_def
     ''fixed:connectors:writer'' ''Connectors writer''
     ''Create, update, and delete connectors.'' ''Connectors''
     [perm A_ConnectorsRead ''connectors:*'',
      perm A_ConnectorsWrite ''connectors:*'',
      perm A_ConnectorsCreate '''',
      perm A_ConnectorsDelete ''connectors:*'',
      perm A_ConnectorsIdRead ''connectors:*''] None"

definition DATASOURCES_CREATOR :: fixed_role where
  "DATASOURCES_CREATOR = role_def
     ''fixed:connectors:creator'' ''Connectors creator''
     ''Create new connectors.'' ''Connectors''
     [perm A_ConnectorsCreate ''''] None"

definition DATASOURCES_EXPLORER :: fixed_role where
  "DATASOURCES_EXPLORER = role_def
     ''fixed:connectors:explorer'' ''Connectors explorer''
     ''Use Explore to run ad-hoc queries.'' ''Connectors''
     [perm A_ConnectorsExplore ''''] None"

definition DATASOURCES_PERMISSIONS_READER :: fixed_role where
  "DATASOURCES_PERMISSIONS_READER = role_def
     ''fixed:connectors.permissions:reader'' ''Connector permissions reader''
     ''Read connector permission assignments.'' ''Connectors''
     [perm A_ConnectorsPermissionsRead ''connectors:*''] None"

definition DATASOURCES_PERMISSIONS_WRITER :: fixed_role where
  "DATASOURCES_PERMISSIONS_WRITER = role_def
     ''fixed:connectors.permissions:writer'' ''Connector permissions writer''
     ''Change connector permission assignments.'' ''Connectors''
     [perm A_ConnectorsPermissionsRead ''connectors:*'',
      perm A_ConnectorsPermissionsWrite ''connectors:*''] None"

definition DATASOURCES_ID_READER :: fixed_role where
  "DATASOURCES_ID_READER = role_def
     ''fixed:connectors.id:reader'' ''Connector ID reader''
     ''Resolve connector numeric IDs from UIDs (internal).'' ''Connectors''
     [perm A_ConnectorsIdRead ''connectors:*''] (Some True)"

definition USERS_READER :: fixed_role where
  "USERS_READER = role_def
     ''fixed:users:reader'' ''Users reader''
     ''Read user accounts and their authentication info.'' ''Users''
     [perm A_UsersRead ''global.users:*'',
      perm A_UsersAuthTokenRead ''global.users:*'',
      perm A_UsersQuotasList ''global.users:*''] None"

definition USERS_WRITER :: fixed_role where
  "USERS_WRITER = role_def
     ''fixed:users:writer'' ''Users writer''
     ''Create, update, delete, disable, and manage passwords for user accounts.'' ''Users''
     [perm A_UsersRead ''global.users:*'',
      perm A_UsersWrite ''global.users:*'',
      perm A_UsersCreate '''',
      perm A_UsersDelete ''global.users:*'',
      perm A_UsersDisable ''global.users:*'',
      perm A_UsersAuthTokenRead ''global.users:*'',
      perm A_UsersAuthTokenUpdate ''global.users:*'',
      perm A_UsersPasswordUpdate ''global.users:*'',
      perm A_UsersPermissionsRead ''global.users:*'',
      perm A_UsersPermissionsWrite ''global.users:*'',
      perm A_UsersQuotasList ''global.users:*'',
      perm A_UsersQuotasUpdate ''global.users:*''] None"

definition ORG_USERS_READER :: fixed_role where
  "ORG_USERS_READER = role_def
     ''fixed:org.users:reader'' ''Organization users reader''
     (''Read the current organization'' @ [CHR 0xE2, CHR 0x80, CHR 0x99] @ ''s membership.'') ''Organizations''
     [perm A_OrgUsersRead ''users:*''] None"

definition ORG_USERS_WRITER :: fixed_role where
  "ORG_USERS_WRITER = role_def
     ''fixed:org.users:writer'' ''Organization users writer''
     ''Add, remove, and change roles of members in the current organization.'' ''Organizations''
     [perm A_OrgUsersRead ''users:*'',
      perm A_OrgUsersAdd ''users:*'',
      perm A_OrgUsersWrite ''users:*'',
      perm A_OrgUsersRemove ''users:*''] None"

definition ORGS_READER :: fixed_role where
  "ORGS_READER = role_def
     ''fixed:orgs:reader'' ''Organizations reader''
     ''Read organization metadata, preferences, and quotas.'' ''Organizations''
     [perm A_OrgsRead '''',
      perm A_OrgsPreferencesRead '''',
      perm A_OrgsQuotasRead ''''] None"

definition ORGS_WRITER :: fixed_role where
  "ORGS_WRITER = role_def
     ''fixed:orgs:writer'' ''Organizations writer''
     ''Update organization metadata, preferences, and quotas.'' ''Organizations''
     [perm A_OrgsRead '''',
      perm A_OrgsWrite '''',
      perm A_OrgsPreferencesRead '''',
      perm A_OrgsPreferencesWrite '''',
      perm A_OrgsQuotasRead '''',
      perm A_OrgsQuotasWrite ''''] None"

definition ORGS_CREATOR :: fixed_role where
  "ORGS_CREATOR = role_def
     ''fixed:orgs:creator'' ''Organizations creator''
     ''Create new organizations (server admin scope).'' ''Organizations''
     [perm A_OrgsCreate ''''] None"

definition TEAMS_READER :: fixed_role where
  "TEAMS_READER = role_def
     ''fixed:teams:reader'' ''Teams reader''
     ''Read teams and their members.'' ''Teams''
     [perm A_TeamsRead ''teams:*''] None"

definition TEAMS_WRITER :: fixed_role where
  "TEAMS_WRITER = role_def
     ''fixed:teams:writer'' ''Teams writer''
     ''Create, update, and delete teams.'' ''Teams''
     [perm A_TeamsRead ''teams:*'',
      perm A_TeamsWrite ''teams:*'',
      perm A_TeamsCreate '''',
      perm A_TeamsDelete ''teams:*'',
      perm A_TeamsPermissionsRead ''teams:*'',
      perm A_TeamsPermissionsWrite ''teams:*''] None"

definition TEAMS_CREATOR :: fixed_role where
  "TEAMS_CREATOR = role_def
     ''fixed:teams:creator'' ''Teams creator''
     ''Create new teams in the current organization.'' ''Teams''
     [perm A_TeamsCreate ''''] None"

definition SA_READER :: fixed_role where
  "SA_READER = role_def
     ''fixed:serviceaccounts:reader'' ''Service accounts reader''
     ''Read service accounts and their tokens.'' ''Service Accounts''
     [perm A_ServiceAccountsRead ''serviceaccounts:*'',
      perm A_ServiceAccountsPermissionsRead ''serviceaccounts:*''] None"

definition SA_WRITER :: fixed_role where
  "SA_WRITER = role_def
     ''fixed:serviceaccounts:writer'' ''Service accounts writer''
     ''Create, update, delete service accounts and manage their tokens.'' ''Service Accounts''
     [perm A_ServiceAccountsRead ''serviceaccounts:*'',
      perm A_ServiceAccountsWrite ''serviceaccounts:*'',
      perm A_ServiceAccountsDelete ''serviceaccounts:*'',
      perm A_ServiceAccountsPermissionsRead ''serviceaccounts:*'',
      perm A_ServiceAccountsPermissionsWrite ''serviceaccounts:*''] None"

definition SA_CREATOR :: fixed_role where
  "SA_CREATOR = role_def
     ''fixed:serviceaccounts:creator'' ''Service accounts creator''
     ''Create new service accounts.'' ''Service Accounts''
     [perm A_ServiceAccountsCreate ''''] None"

definition ROLES_READER :: fixed_role where
  "ROLES_READER = role_def
     ''fixed:roles:reader'' ''Roles reader''
     ''Read RBAC roles and permission assignments.'' ''Roles''
     [perm A_RolesRead ''roles:*''] None"

definition ROLES_WRITER :: fixed_role where
  "ROLES_WRITER = role_def
     ''fixed:roles:writer'' ''Roles writer''
     ''Create, update, and delete custom RBAC roles.'' ''Roles''
     [perm A_RolesRead ''roles:*'',
      perm A_RolesWrite ''roles:*'',
      perm A_RolesDelete ''roles:*''] None"

definition ANNOTATIONS_READER :: fixed_role where
  "ANNOTATIONS_READER = role_def
     ''fixed:annotations:reader'' ''Annotations reader''
     ''Read annotations on dashboards.'' ''Annotations''
     [perm A_AnnotationsRead ''annotations:*''] None"

definition ANNOTATIONS_WRITER :: fixed_role where
  "ANNOTATIONS_WRITER = role_def
     ''fixed:annotations:writer'' ''Annotations writer''
     ''Create, update, and delete annotations on dashboards.'' ''Annotations''
     [perm A_AnnotationsRead ''annotations:*'',
      perm A_AnnotationsWrite ''annotations:*'',
      perm A_AnnotationsCreate ''annotations:*'',
      perm A_AnnotationsDelete ''annotations:*''] None"

definition ALERT_RULES_READER :: fixed_role where
  "ALERT_RULES_READER = role_def
     ''fixed:alert.rules:reader'' ''Alert rules reader''
     ''Read alert rules and their state.'' ''Alerting''
     [perm A_AlertRulesRead ''folders:*''] None"

definition ALERT_RULES_WRITER :: fixed_role where
  "ALERT_RULES_WRITER = role_def
     ''fixed:alert.rules:writer'' ''Alert rules writer''
     ''Create, update, and delete alert rules.'' ''Alerting''
     [perm A_AlertRulesRead ''folders:*'',
      perm A_AlertRulesWrite ''folders:*'',
      perm A_AlertRulesCreate ''folders:*'',
      perm A_AlertRulesDelete ''folders:*''] None"

definition ALERT_INSTANCES_READER :: fixed_role where
  "ALERT_INSTANCES_READER = role_def
     ''fixed:alert.instances:reader'' ''Alert instances reader''
     ''Read alert rule instances and state history.'' ''Alerting''
     [perm A_AlertInstancesRead '''',
      perm A_AlertInstancesExternalRead ''''] None"

definition ALERT_INSTANCES_WRITER :: fixed_role where
  "ALERT_INSTANCES_WRITER = role_def
     ''fixed:alert.instances:writer'' ''Alert instances writer''
     ''Acknowledge and modify alert instance state.'' ''Alerting''
     [perm A_AlertInstancesRead '''',
      perm A_AlertInstancesExternalRead '''',
      perm A_AlertInstancesExternalWrite ''''] None"

definition ALERT_NOTIFICATIONS_READER :: fixed_role where
  "ALERT_NOTIFICATIONS_READER = role_def
     ''fixed:alert.notifications:reader'' ''Notification channels reader''
     ''Read notification channels and policies.'' ''Alerting''
     [perm A_AlertNotificationsRead ''''] None"

definition ALERT_NOTIFICATIONS_WRITER :: fixed_role where
  "ALERT_NOTIFICATIONS_WRITER = role_def
     ''fixed:alert.notifications:writer'' ''Notification channels writer''
     ''Manage notification channels and policies.'' ''Alerting''
     [perm A_AlertNotificationsRead '''',
      perm A_AlertNotificationsWrite ''''] None"

definition ALERT_SILENCES_READER :: fixed_role where
  "ALERT_SILENCES_READER = role_def
     ''fixed:alert.silences:reader'' ''Alert silences reader''
     ''Read alert silences.'' ''Alerting''
     [perm A_AlertSilencesRead ''''] None"

definition ALERT_SILENCES_CREATOR :: fixed_role where
  "ALERT_SILENCES_CREATOR = role_def
     ''fixed:alert.silences:creator'' ''Alert silences creator''
     ''Create alert silences.'' ''Alerting''
     [perm A_AlertSilencesRead '''',
      perm A_AlertSilencesCreate ''''] None"

definition ALERT_SILENCES_WRITER :: fixed_role where
  "ALERT_SILENCES_WRITER = role_def
     ''fixed:alert.silences:writer'' ''Alert silences writer''
     ''Create, update, and delete alert silences.'' ''Alerting''
     [perm A_AlertSilencesRead '''',
      perm A_AlertSilencesCreate '''',
      perm A_AlertSilencesWrite ''''] None"

definition ALERT_PROVISIONING_READER :: fixed_role where
  "ALERT_PROVISIONING_READER = role_def
     ''fixed:alert.provisioning:reader'' ''Alert provisioning reader''
     ''Read provisioned alerting resources.'' ''Alerting''
     [perm A_AlertProvisioningRead ''''] None"

definition ALERT_PROVISIONING_WRITER :: fixed_role where
  "ALERT_PROVISIONING_WRITER = role_def
     ''fixed:alert.provisioning:writer'' ''Alert provisioning writer''
     ''Manage provisioned alerting resources.'' ''Alerting''
     [perm A_AlertProvisioningRead '''',
      perm A_AlertProvisioningWrite ''''] None"

definition SERVER_STATS_READER :: fixed_role where
  "SERVER_STATS_READER = role_def
     ''fixed:server.stats:reader'' ''Server stats reader''
     ''Read server-wide statistics.'' ''Server''
     [perm A_ServerStatsRead ''''] None"

definition SERVER_USAGESTATS_REPORT_READER :: fixed_role where
  "SERVER_USAGESTATS_REPORT_READER = role_def
     ''fixed:server.usagestats.report:reader'' ''Server usage report reader''
     ''Read the server usage statistics report.'' ''Server''
     [perm A_ServerUsageStatsReportRead ''''] None"

definition APIKEYS_READER :: fixed_role where
  "APIKEYS_READER = role_def
     ''fixed:apikeys:reader'' ''API keys reader''
     ''List legacy API keys.'' ''API Keys''
     [perm A_ApiKeysRead ''apikeys:*''] None"

definition APIKEYS_WRITER :: fixed_role where
  "APIKEYS_WRITER = role_def
     ''fixed:apikeys:writer'' ''API keys writer''
     ''Create and delete legacy API keys.'' ''API Keys''
     [perm A_ApiKeysRead ''apikeys:*'',
      perm A_ApiKeysCreate '''',
      perm A_ApiKeysDelete ''apikeys:*''] None"

definition INVESTIGATIONS_READER :: fixed_role where
  "INVESTIGATIONS_READER = role_def
     ''fixed:investigations:reader'' ''Investigations reader''
     ''Read investigations.'' ''Investigations''
     [perm A_InvestigationsRead ''investigations:*''] None"

definition INVESTIGATIONS_WRITER :: fixed_role where
  "INVESTIGATIONS_WRITER = role_def
     ''fixed:investigations:writer'' ''Investigations writer''
     ''Create, update, and delete investigations.'' ''Investigations''
     [perm A_InvestigationsRead ''investigations:*'',
      perm A_InvestigationsWrite ''investigations:*'',
      perm A_InvestigationsCreate '''',
      perm A_InvestigationsDelete ''investigations:*''] None"

definition APPROVALS_READER :: fixed_role where
  "APPROVALS_READER = role_def
     ''fixed:approvals:reader'' ''Approvals reader''
     ''Read pending approvals.'' ''Approvals''
     [perm A_ApprovalsRead ''approvals:*''] None"

definition APPROVALS_APPROVER :: fixed_role where
  "APPROVALS_APPROVER = role_def
     ''fixed:approvals:approver'' ''Approvals approver''
     ''Approve or reject pending approvals.'' ''Approvals''
     [perm A_ApprovalsRead ''approvals:*'',
      perm A_ApprovalsApprove ''approvals:*''] None"

definition APPROVALS_OVERRIDER :: fixed_role where
  "APPROVALS_OVERRIDER = role_def
     ''fixed:approvals:overrider'' ''Approvals overrider''
     ''Override pending approvals regardless of normal policy.'' ''Approvals''
     [perm A_ApprovalsRead ''approvals:*'',
      perm A_ApprovalsApprove ''approvals:*'',
      perm A_ApprovalsOverride ''approvals:*''] None"

definition APPROVALS_CLUSTER_APPROVER :: fixed_role where
  "APPROVALS_CLUSTER_APPROVER = role_def
     ''fixed:approvals:cluster_approver'' ''Cluster approver''
     ''Read and approve cluster-operation approvals scoped to a single ops connector.'' ''Approvals''
     [perm A_ApprovalsRead ''approvals:connector:*'',
      perm A_ApprovalsApprove ''approvals:connector:*''] None"

definition APPROVALS_NAMESPACE_APPROVER :: fixed_role where
  "APPROVALS_NAMESPACE_APPROVER = role_def
     ''fixed:approvals:namespace_approver'' ''Namespace approver''
     ''Read and approve cluster-operation approvals scoped to a single (connector, namespace) pair.'' ''Approvals''
     [perm A_ApprovalsRead ''approvals:namespace:*:*'',
      perm A_ApprovalsApprove ''approvals:namespace:*:*''] None"

definition APPROVALS_TEAM_VIEWER :: fixed_role where
  "APPROVALS_TEAM_VIEWER = role_def
     ''fixed:approvals:team_viewer'' ''Team approval viewer''
     ''Read approvals originated by a single team.'' ''Approvals''
     [perm A_ApprovalsRead ''approvals:team:*''] None"

definition PLANS_READER :: fixed_role where
  "PLANS_READER = role_def
     ''fixed:plans:reader'' ''Plans reader''
     ''Read remediation plans.'' ''Plans''
     [perm A_PlansRead ''plans:*''] None"

definition PLANS_APPROVER :: fixed_role where
  "PLANS_APPROVER = role_def
     ''fixed:plans:approver'' ''Plans approver''
     ''Approve, reject, cancel, and retry remediation plans.'' ''Plans''
     [perm A_PlansRead ''plans:*'',
      perm A_PlansApprove ''plans:*''] None"

definition PLANS_AUTO_EDITOR :: fixed_role where
  "PLANS_AUTO_EDITOR = role_def
     ''fixed:plans:auto_editor'' ''Plans auto-editor (cluster-wide)''
     (''Approve a plan in auto-edit mode for ANY namespace (skips per-step approvals). Sensitive ''
      @ [CHR 0xE2, CHR 0x80, CHR 0x94]
      @ '' grant explicitly. For namespace-narrowed auto-edit, grant `plans:auto_edit` on a `plans:namespace:<ns>` scope instead of using this fixed role.'')
     ''Plans''
     [perm A_PlansRead ''plans:*'',
      perm A_PlansApprove ''plans:*'',
      perm A_PlansAutoEdit ''plans:*''] None"

definition AGENTS_CONFIG_READER :: fixed_role where
  "AGENTS_CONFIG_READER = role_def
     ''fixed:agents.config:reader'' ''Agents configuration reader''
     ''Read agent configuration.'' ''Agents''
     [perm A_AgentsConfigRead ''''] None"

definition AGENTS_CONFIG_WRITER :: fixed_role where
  "AGENTS_CONFIG_WRITER = role_def
     ''fixed:agents.config:writer'' ''Agents configuration writer''
     ''Change agent configuration.'' ''Agents''
     [perm A_AgentsConfigRead '''',
      perm A_AgentsConfigWrite ''''] None"

definition OPS_COMMANDS_RUNNER :: fixed_role where
  "OPS_COMMANDS_RUNNER = role_def
     ''fixed:ops.commands:runner'' ''Ops command runner''
     ''Run policy-gated Ops/Kubernetes commands through configured connectors.'' ''Ops''
     [perm A_ConnectorsRead ''connectors:*'',
      perm A_OpsCommandsRun ''connectors:*''] None"

definition FIXED_ROLE_DEFINITIONS :: "fixed_role list" where
  "FIXED_ROLE_DEFINITIONS = [
     DASHBOARDS_READER,
     DASHBOARDS_WRITER,
     DASHBOARDS_CREATOR,
     DASHBOARDS_PERMISSIONS_READER,
     DASHBOARDS_PERMISSIONS_WRITER,
     FOLDERS_READER,
     FOLDERS_WRITER,
     FOLDERS_CREATOR,
     FOLDERS_PERMISSIONS_READER,
     FOLDERS_PERMISSIONS_WRITER,
     DATASOURCES_READER,
     DATASOURCES_WRITER,
     DATASOURCES_CREATOR,
     DATASOURCES_EXPLORER,
     DATASOURCES_PERMISSIONS_READER,
     DATASOURCES_PERMISSIONS_WRITER,
     DATASOURCES_ID_READER,
     USERS_READER,
     USERS_WRITER,
     ORG_USERS_READER,
     ORG_USERS_WRITER,
     ORGS_READER,
     ORGS_WRITER,
     ORGS_CREATOR,
     TEAMS_READER,
     TEAMS_WRITER,
     TEAMS_CREATOR,
     SA_READER,
     SA_WRITER,
     SA_CREATOR,
     ROLES_READER,
     ROLES_WRITER,
     ANNOTATIONS_READER,
     ANNOTATIONS_WRITER,
     ALERT_RULES_READER,
     ALERT_RULES_WRITER,
     ALERT_INSTANCES_READER,
     ALERT_INSTANCES_WRITER,
     ALERT_NOTIFICATIONS_READER,
     ALERT_NOTIFICATIONS_WRITER,
     ALERT_SILENCES_READER,
     ALERT_SILENCES_CREATOR,
     ALERT_SILENCES_WRITER,
     ALERT_PROVISIONING_READER,
     ALERT_PROVISIONING_WRITER,
     SERVER_STATS_READER,
     SERVER_USAGESTATS_REPORT_READER,
     APIKEYS_READER,
     APIKEYS_WRITER,
     INVESTIGATIONS_READER,
     INVESTIGATIONS_WRITER,
     APPROVALS_READER,
     APPROVALS_APPROVER,
     APPROVALS_OVERRIDER,
     APPROVALS_CLUSTER_APPROVER,
     APPROVALS_NAMESPACE_APPROVER,
     APPROVALS_TEAM_VIEWER,
     PLANS_READER,
     PLANS_APPROVER,
     PLANS_AUTO_EDITOR,
     AGENTS_CONFIG_READER,
     AGENTS_CONFIG_WRITER,
     OPS_COMMANDS_RUNNER]"

definition findFixedRole :: "string \<Rightarrow> fixed_role option" where
  "findFixedRole name = List.find (\<lambda>r. fr_name r = name) FIXED_ROLE_DEFINITIONS"

section \<open>Facts about the catalog\<close>

lemmas fixed_role_defs =
  DASHBOARDS_READER_def DASHBOARDS_WRITER_def DASHBOARDS_CREATOR_def
  DASHBOARDS_PERMISSIONS_READER_def DASHBOARDS_PERMISSIONS_WRITER_def FOLDERS_READER_def
  FOLDERS_WRITER_def FOLDERS_CREATOR_def FOLDERS_PERMISSIONS_READER_def
  FOLDERS_PERMISSIONS_WRITER_def DATASOURCES_READER_def DATASOURCES_WRITER_def
  DATASOURCES_CREATOR_def DATASOURCES_EXPLORER_def DATASOURCES_PERMISSIONS_READER_def
  DATASOURCES_PERMISSIONS_WRITER_def DATASOURCES_ID_READER_def USERS_READER_def
  USERS_WRITER_def ORG_USERS_READER_def ORG_USERS_WRITER_def
  ORGS_READER_def ORGS_WRITER_def ORGS_CREATOR_def
  TEAMS_READER_def TEAMS_WRITER_def TEAMS_CREATOR_def
  SA_READER_def SA_WRITER_def SA_CREATOR_def
  ROLES_READER_def ROLES_WRITER_def ANNOTATIONS_READER_def
  ANNOTATIONS_WRITER_def ALERT_RULES_READER_def ALERT_RULES_WRITER_def
  ALERT_INSTANCES_READER_def ALERT_INSTANCES_WRITER_def ALERT_NOTIFICATIONS_READER_def
  ALERT_NOTIFICATIONS_WRITER_def ALERT_SILENCES_READER_def ALERT_SILENCES_CREATOR_def
  ALERT_SILENCES_WRITER_def ALERT_PROVISIONING_READER_def ALERT_PROVISIONING_WRITER_def
  SERVER_STATS_READER_def SERVER_USAGESTATS_REPORT_READER_def APIKEYS_READER_def
  APIKEYS_WRITER_def INVESTIGATIONS_READER_def INVESTIGATIONS_WRITER_def
  APPROVALS_READER_def APPROVALS_APPROVER_def APPROVALS_OVERRIDER_def
  APPROVALS_CLUSTER_APPROVER_def APPROVALS_NAMESPACE_APPROVER_def APPROVALS_TEAM_VIEWER_def
  PLANS_READER_def PLANS_APPROVER_def PLANS_AUTO_EDITOR_def
  AGENTS_CONFIG_READER_def AGENTS_CONFIG_WRITER_def OPS_COMMANDS_RUNNER_def

lemma fixed_actions_known:
  "list_all (\<lambda>r. list_all (\<lambda>p. isKnownAction (action p)) (fr_permissions r)) FIXED_ROLE_DEFINITIONS"
  by (simp add: FIXED_ROLE_DEFINITIONS_def role_def_def fixed_role_defs known_action)

lemma fixed_uids_distinct: "distinct (map fr_uid FIXED_ROLE_DEFINITIONS)"
  by code_simp

lemma fixed_perms_distinct:
  "list_all (\<lambda>r. distinct (map perm_key (fr_permissions r))) FIXED_ROLE_DEFINITIONS"
  by code_simp

lemma fixed_uid_derived: "list_all (\<lambda>r. fr_uid r = role_uid (fr_name r)) FIXED_ROLE_DEFINITIONS"
  by (simp add: FIXED_ROLE_DEFINITIONS_def role_def_def fixed_role_defs)

text \<open>
  The catalog is well formed: every permission of every role names an action of the catalog,
  no role lists an action and scope pair twice, and although \<^verbatim>\<open>:\<close> and
  \<^verbatim>\<open>.\<close> are both replaced by \<^verbatim>\<open>_\<close> the derived identifiers of the
  63 roles are pairwise distinct.
\<close>

theorem fixed_roles_well_formed:
  "list_all (\<lambda>r. list_all (\<lambda>p. isKnownAction (action p)) (fr_permissions r)) FIXED_ROLE_DEFINITIONS
   \<and> list_all (\<lambda>r. distinct (map perm_key (fr_permissions r))) FIXED_ROLE_DEFINITIONS
   \<and> distinct (map fr_uid FIXED_ROLE_DEFINITIONS) \<and> length FIXED_ROLE_DEFINITIONS = 63"
  using fixed_actions_known fixed_perms_distinct fixed_uids_distinct
  by (simp add: FIXED_ROLE_DEFINITIONS_def)

lemma find_distinct:
  "distinct (map f xs) \<Longrightarrow> x \<in> set xs \<Longrightarrow> List.find (\<lambda>y. f y = f x) xs = Some x"
  by (induction xs) (auto simp: image_iff)

lemma fixed_names_distinct: "distinct (map fr_name FIXED_ROLE_DEFINITIONS)"
proof -
  have "map fr_uid FIXED_ROLE_DEFINITIONS = map role_uid (map fr_name FIXED_ROLE_DEFINITIONS)"
    using fixed_uid_derived by (simp add: list_all_iff)
  then show ?thesis using fixed_uids_distinct by (metis distinct_map)
qed

lemma findFixedRole_mem: "r \<in> set FIXED_ROLE_DEFINITIONS \<Longrightarrow> findFixedRole (fr_name r) = Some r"
  unfolding findFixedRole_def by (rule find_distinct [OF fixed_names_distinct])

text \<open>
  Exactly one role of the catalog, the auto-editor, grants the auto-edit action.
\<close>

theorem auto_edit_single_role:
  "filter (\<lambda>r. list_ex (\<lambda>p. action p = A_PlansAutoEdit) (fr_permissions r)) FIXED_ROLE_DEFINITIONS
     = [PLANS_AUTO_EDITOR]"
  by (simp add: FIXED_ROLE_DEFINITIONS_def role_def_def fixed_role_defs)

lemma covers_approvals_attr:
  assumes "CHR '':'' \<notin> set a"
  shows "scopeCovers (''approvals:'' @ a @ '':'' @ i) (''approvals:'' @ a @ '':'' @ j)
     \<longleftrightarrow> seg_matches i j"
  using parseScope_three [of "''approvals''" a i] parseScope_three [of "''approvals''" a j] assms
  by (simp add: scopeCovers_segments seg_covers_def)

lemma evaluate_single:
  "evaluate (ac_eval act (OneScope want)) ps \<longleftrightarrow>
     (\<exists>p\<in>set ps. action p = act \<and> scopeCovers (scope p) want)"
  by (auto simp: evaluate_satisfies ac_eval_def grants_def)

text \<open>
  The wildcard placeholders of the multi-team approver roles behave differently: as shipped,
  the cluster approver may approve every connector-scoped row, but the namespace approver may
  approve a namespace-scoped row only if the row's connector and namespace are literally
  asterisks, because \<^verbatim>\<open>*:*\<close> is one identifier segment and not a wildcard.
\<close>

theorem namespace_approver_placeholder:
  "evaluate (ac_eval A_ApprovalsApprove (OneScope (''approvals:connector:'' @ c)))
     (fr_permissions APPROVALS_CLUSTER_APPROVER)
   \<and> (evaluate (ac_eval A_ApprovalsApprove (OneScope (''approvals:namespace:'' @ c @ '':'' @ n)))
        (fr_permissions APPROVALS_NAMESPACE_APPROVER)
      \<longleftrightarrow> c @ '':'' @ n = ''*:*'')"
  using covers_approvals_attr [of "''connector''" "''*''" c]
    covers_approvals_attr [of "''namespace''" "''*:*''" "c @ '':'' @ n"]
  by (auto simp: evaluate_single APPROVALS_CLUSTER_APPROVER_def APPROVALS_NAMESPACE_APPROVER_def
        role_def_def seg_matches_def)

end
