(* ===== verification/Role_Store.thy ===== *)
theory Role_Store
  imports Evaluator "HOL-Library.Char_ord" "HOL-Library.List_Lexorder" "HOL-Library.Product_Lexorder"
begin

text \<open>
  The SQLite repositories of the role tables,
  \<^verbatim>\<open>packages/data-layer/src/repository/auth\<close>: roles and builtin-role mappings
  (\<^verbatim>\<open>role-repository.ts\<close>), permissions (\<^verbatim>\<open>permission-repository.ts\<close>), user and
  team assignments (\<^verbatim>\<open>user-role-repository.ts\<close>, \<^verbatim>\<open>team-role-repository.ts\<close>)
  and team members (\<^verbatim>\<open>team-member-repository.ts\<close>).  The state is the database; a method
  takes it and returns it updated, a violated constraint of the schema is an error.  The
  clock and the random identifier of a call are arguments (\<^verbatim>\<open>now\<close>, milliseconds, and
  \<^verbatim>\<open>fresh\<close>).  The result is that every method keeps the constraints and that the stored
  scope segments always agree with the stored scope.
\<close>

section \<open>Rows and database\<close>

record role_row =
  ro_id :: string
  ro_version :: int
  ro_orgId :: string
  ro_name :: string
  ro_uid :: string
  ro_displayName :: "string option"
  ro_description :: "string option"
  ro_groupName :: "string option"
  ro_hidden :: bool
  ro_created :: int
  ro_updated :: int

record builtin_row =
  bi_id :: string
  bi_role :: string
  bi_roleId :: string
  bi_orgId :: string
  bi_created :: int
  bi_updated :: int

record permission_row =
  pr_id :: string
  pr_roleId :: string
  pr_action :: string
  pr_scope :: string
  pr_kind :: string
  pr_attribute :: string
  pr_identifier :: string
  pr_created :: int
  pr_updated :: int

record user_role_row =
  ur_id :: string
  ur_orgId :: string
  ur_userId :: string
  ur_roleId :: string
  ur_created :: int

record team_role_row =
  tr_id :: string
  tr_orgId :: string
  tr_teamId :: string
  tr_roleId :: string
  tr_created :: int

record team_member_row =
  tm_id :: string
  tm_orgId :: string
  tm_teamId :: string
  tm_userId :: string
  tm_external :: bool
  tm_permission :: int
  tm_created :: int
  tm_updated :: int

text \<open>
  The tables the foreign keys refer to but other repositories own are present through their
  primary keys.
\<close>

record rbac_db =
  db_orgs :: "string list"
  db_users :: "string list"
  db_teams :: "string list"
  db_roles :: "role_row list"
  db_builtin :: "builtin_row list"
  db_perms :: "permission_row list"
  db_user_roles :: "user_role_row list"
  db_team_roles :: "team_role_row list"
  db_team_members :: "team_member_row list"

definition unique_failed :: string where "unique_failed = ''UNIQUE constraint failed''"
definition fk_failed :: string where "fk_failed = ''FOREIGN KEY constraint failed''"

section \<open>RoleRepository\<close>

record new_role =
  nr_id :: "string option"
  nr_orgId :: string
  nr_name :: string
  nr_uid :: string
  nr_displayName :: "string option"
  nr_description :: "string option"
  nr_groupName :: "string option"
  nr_hidden :: "bool option"

definition role_findById :: "rbac_db \<Rightarrow> string \<Rightarrow> role_row option" where
  "role_findById db i = List.find (\<lambda>r. ro_id r = i) (db_roles db)"

definition role_findByUid :: "rbac_db \<Rightarrow> string \<Rightarrow> string \<Rightarrow> role_row option" where
  "role_findByUid db orgId u = List.find (\<lambda>r. ro_orgId r = orgId \<and> ro_uid r = u) (db_roles db)"

definition role_findByName :: "rbac_db \<Rightarrow> string \<Rightarrow> string \<Rightarrow> role_row option" where
  "role_findByName db orgId n = List.find (\<lambda>r. ro_orgId r = orgId \<and> ro_name r = n) (db_roles db)"

definition role_create ::
  "string \<Rightarrow> int \<Rightarrow> new_role \<Rightarrow> rbac_db \<Rightarrow> (role_row \<times> rbac_db) result" where
  "role_create fresh now input db =
     (let row = \<lparr>ro_id = coalesce (nr_id input) fresh, ro_version = 0, ro_orgId = nr_orgId input,
                 ro_name = nr_name input, ro_uid = nr_uid input,
                 ro_displayName = nr_displayName input, ro_description = nr_description input,
                 ro_groupName = nr_groupName input, ro_hidden = coalesce (nr_hidden input) False,
                 ro_created = now, ro_updated = now\<rparr>
      in if list_ex (\<lambda>r. ro_id r = ro_id row
             \<or> ro_orgId r = ro_orgId row \<and> (ro_name r = ro_name row \<or> ro_uid r = ro_uid row))
           (db_roles db)
         then Inl unique_failed
         else Inr (row, db\<lparr>db_roles := db_roles db @ [row]\<rparr>))"

record list_roles_options =
  lr_orgId :: "string option"
  lr_includeGlobal :: bool
  lr_hidden :: "bool option"
  lr_limit :: "nat option"
  lr_offset :: "nat option"

definition role_list :: "rbac_db \<Rightarrow> list_roles_options \<Rightarrow> role_row list \<times> nat" where
  "role_list db opts =
     (let sel = filter (\<lambda>r. (case lr_orgId opts of None \<Rightarrow> True
                            | Some org \<Rightarrow> if lr_includeGlobal opts
                                          then ro_orgId r = org \<or> ro_orgId r = ''''
                                          else ro_orgId r = org)
                         \<and> (case lr_hidden opts of None \<Rightarrow> True | Some h \<Rightarrow> ro_hidden r = h))
                  (db_roles db)
      in (page (coalesce (lr_limit opts) 200) (coalesce (lr_offset opts) 0) (sort_key ro_name sel),
          length sel))"

text \<open>In a patch an absent field keeps the value, and a nullable field may be set to null.\<close>

record role_patch =
  rp_name :: "string option"
  rp_displayName :: "string option option"
  rp_description :: "string option option"
  rp_groupName :: "string option option"
  rp_hidden :: "bool option"

definition role_update ::
  "int \<Rightarrow> string \<Rightarrow> role_patch \<Rightarrow> rbac_db \<Rightarrow> (role_row option \<times> rbac_db) result" where
  "role_update now i patch db =
     (case role_findById db i of
        None \<Rightarrow> Inr (None, db)
      | Some existing \<Rightarrow>
          (let name' = coalesce (rp_name patch) (ro_name existing);
               f = (\<lambda>r. r\<lparr>ro_version := ro_version r + 1, ro_name := name',
                          ro_displayName := coalesce (rp_displayName patch) (ro_displayName existing),
                          ro_description := coalesce (rp_description patch) (ro_description existing),
                          ro_groupName := coalesce (rp_groupName patch) (ro_groupName existing),
                          ro_hidden := coalesce (rp_hidden patch) (ro_hidden existing),
                          ro_updated := now\<rparr>);
               db' = db\<lparr>db_roles := upd_where (\<lambda>r. ro_id r = i) f (db_roles db)\<rparr>
           in if list_ex (\<lambda>r. ro_id r \<noteq> i \<and> ro_orgId r = ro_orgId existing \<and> ro_name r = name')
                   (db_roles db)
              then Inl unique_failed
              else Inr (role_findById db' i, db')))"

text \<open>Deleting a role cascades to its mappings, permissions and assignments.\<close>

definition role_delete :: "string \<Rightarrow> rbac_db \<Rightarrow> bool \<times> rbac_db" where
  "role_delete i db =
     (if role_findById db i = None then (False, db)
      else (True, db\<lparr>db_roles := del_where (\<lambda>r. ro_id r = i) (db_roles db),
                     db_builtin := del_where (\<lambda>r. bi_roleId r = i) (db_builtin db),
                     db_perms := del_where (\<lambda>r. pr_roleId r = i) (db_perms db),
                     db_user_roles := del_where (\<lambda>r. ur_roleId r = i) (db_user_roles db),
                     db_team_roles := del_where (\<lambda>r. tr_roleId r = i) (db_team_roles db)\<rparr>))"

definition findBuiltinRole :: "rbac_db \<Rightarrow> string \<Rightarrow> string \<Rightarrow> string \<Rightarrow> builtin_row option" where
  "findBuiltinRole db role orgId roleId =
     List.find (\<lambda>r. bi_role r = role \<and> bi_orgId r = orgId \<and> bi_roleId r = roleId) (db_builtin db)"

definition listBuiltinRoles :: "rbac_db \<Rightarrow> string \<Rightarrow> builtin_row list" where
  "listBuiltinRoles db orgId = sort_key bi_role (filter (\<lambda>r. bi_orgId r = orgId) (db_builtin db))"

definition upsertBuiltinRole ::
  "string \<Rightarrow> int \<Rightarrow> string \<Rightarrow> string \<Rightarrow> string \<Rightarrow> rbac_db \<Rightarrow> (builtin_row \<times> rbac_db) result" where
  "upsertBuiltinRole fresh now role roleId orgId db =
     (case findBuiltinRole db role orgId roleId of
        Some existing \<Rightarrow> Inr (existing, db)
      | None \<Rightarrow>
          (let row = \<lparr>bi_id = fresh, bi_role = role, bi_roleId = roleId, bi_orgId = orgId,
                      bi_created = now, bi_updated = now\<rparr>
           in if list_ex (\<lambda>r. bi_id r = fresh) (db_builtin db) then Inl unique_failed
              else if \<not> list_ex (\<lambda>r. ro_id r = roleId) (db_roles db) then Inl fk_failed
              else Inr (row, db\<lparr>db_builtin := db_builtin db @ [row]\<rparr>)))"

definition removeBuiltinRole :: "string \<Rightarrow> string \<Rightarrow> string \<Rightarrow> rbac_db \<Rightarrow> bool \<times> rbac_db" where
  "removeBuiltinRole role orgId roleId db =
     (if findBuiltinRole db role orgId roleId = None then (False, db)
      else (True, db\<lparr>db_builtin :=
              del_where (\<lambda>r. bi_role r = role \<and> bi_orgId r = orgId \<and> bi_roleId r = roleId)
                (db_builtin db)\<rparr>))"

section \<open>PermissionRepository\<close>

definition permission_findById :: "rbac_db \<Rightarrow> string \<Rightarrow> permission_row option" where
  "permission_findById db i = List.find (\<lambda>r. pr_id r = i) (db_perms db)"

definition permission_create ::
  "string \<Rightarrow> int \<Rightarrow> string \<Rightarrow> string \<Rightarrow> string option \<Rightarrow> rbac_db \<Rightarrow>
     (permission_row \<times> rbac_db) result" where
  "permission_create pid now roleId act scopeArg db =
     (let sc = coalesce scopeArg '''';
          parsed = parseScope sc;
          row = \<lparr>pr_id = pid, pr_roleId = roleId, pr_action = act, pr_scope = sc,
                 pr_kind = ps_kind parsed, pr_attribute = ps_attribute parsed,
                 pr_identifier = ps_identifier parsed, pr_created = now, pr_updated = now\<rparr>
      in if list_ex (\<lambda>r. pr_id r = pid) (db_perms db) then Inl unique_failed
         else if \<not> list_ex (\<lambda>r. ro_id r = roleId) (db_roles db) then Inl fk_failed
         else Inr (row, db\<lparr>db_perms := db_perms db @ [row]\<rparr>))"

text \<open>\<^verbatim>\<open>createMany\<close>: serial inserts, not atomic; on an error the rows before it stay.\<close>

fun permission_createMany ::
  "int \<Rightarrow> (string \<times> string \<times> string \<times> string option) list \<Rightarrow> rbac_db \<Rightarrow>
     string option \<times> permission_row list \<times> rbac_db" where
  "permission_createMany now [] db = (None, [], db)"
| "permission_createMany now ((pid, roleId, act, sc) # inputs) db =
     (case permission_create pid now roleId act sc db of
        Inl e \<Rightarrow> (Some e, [], db)
      | Inr (row, db') \<Rightarrow>
          (case permission_createMany now inputs db' of
             (e, rows, db'') \<Rightarrow> (e, row # rows, db'')))"

definition permission_listByRole :: "rbac_db \<Rightarrow> string \<Rightarrow> permission_row list" where
  "permission_listByRole db roleId =
     sort_key (\<lambda>r. (pr_action r, pr_scope r)) (filter (\<lambda>r. pr_roleId r = roleId) (db_perms db))"

definition permission_listByRoles :: "rbac_db \<Rightarrow> string list \<Rightarrow> permission_row list" where
  "permission_listByRoles db roleIds =
     (if roleIds = [] then []
      else sort_key (\<lambda>r. (pr_roleId r, pr_action r, pr_scope r))
             (filter (\<lambda>r. pr_roleId r \<in> set roleIds) (db_perms db)))"

definition permission_listByAction :: "rbac_db \<Rightarrow> string \<Rightarrow> permission_row list" where
  "permission_listByAction db act = filter (\<lambda>r. pr_action r = act) (db_perms db)"

definition permission_delete :: "string \<Rightarrow> rbac_db \<Rightarrow> bool \<times> rbac_db" where
  "permission_delete i db =
     (if permission_findById db i = None then (False, db)
      else (True, db\<lparr>db_perms := del_where (\<lambda>r. pr_id r = i) (db_perms db)\<rparr>))"

definition permission_deleteByRole :: "string \<Rightarrow> rbac_db \<Rightarrow> nat \<times> rbac_db" where
  "permission_deleteByRole roleId db =
     (length (filter (\<lambda>r. pr_roleId r = roleId) (db_perms db)),
      db\<lparr>db_perms := del_where (\<lambda>r. pr_roleId r = roleId) (db_perms db)\<rparr>)"

section \<open>UserRoleRepository\<close>

definition user_role_findById :: "rbac_db \<Rightarrow> string \<Rightarrow> user_role_row option" where
  "user_role_findById db i = List.find (\<lambda>r. ur_id r = i) (db_user_roles db)"

definition user_role_create ::
  "string \<Rightarrow> int \<Rightarrow> string \<Rightarrow> string \<Rightarrow> string \<Rightarrow> rbac_db \<Rightarrow> (user_role_row \<times> rbac_db) result" where
  "user_role_create i now orgId userId roleId db =
     (let row = \<lparr>ur_id = i, ur_orgId = orgId, ur_userId = userId, ur_roleId = roleId,
                 ur_created = now\<rparr>
      in if list_ex (\<lambda>r. ur_id r = i
             \<or> ur_orgId r = orgId \<and> ur_userId r = userId \<and> ur_roleId r = roleId) (db_user_roles db)
         then Inl unique_failed
         else if userId \<notin> set (db_users db) \<or> \<not> list_ex (\<lambda>r. ro_id r = roleId) (db_roles db)
         then Inl fk_failed
         else Inr (row, db\<lparr>db_user_roles := db_user_roles db @ [row]\<rparr>))"

text \<open>
  A missing and an empty organisation both mean no filter (\<^verbatim>\<open>orgId ? ... : ...\<close>).
\<close>

definition user_role_listByUser :: "rbac_db \<Rightarrow> string \<Rightarrow> string option \<Rightarrow> user_role_row list" where
  "user_role_listByUser db userId orgId =
     (if truthy orgId
      then filter (\<lambda>r. ur_userId r = userId \<and> (ur_orgId r = the orgId \<or> ur_orgId r = ''''))
             (db_user_roles db)
      else filter (\<lambda>r. ur_userId r = userId) (db_user_roles db))"

definition user_role_listByRole :: "rbac_db \<Rightarrow> string \<Rightarrow> user_role_row list" where
  "user_role_listByRole db roleId = filter (\<lambda>r. ur_roleId r = roleId) (db_user_roles db)"

definition user_role_delete :: "string \<Rightarrow> rbac_db \<Rightarrow> bool \<times> rbac_db" where
  "user_role_delete i db =
     (if user_role_findById db i = None then (False, db)
      else (True, db\<lparr>db_user_roles := del_where (\<lambda>r. ur_id r = i) (db_user_roles db)\<rparr>))"

definition user_role_remove :: "string \<Rightarrow> string \<Rightarrow> string \<Rightarrow> rbac_db \<Rightarrow> bool \<times> rbac_db" where
  "user_role_remove orgId userId roleId db =
     (let sel = (\<lambda>r. ur_orgId r = orgId \<and> ur_userId r = userId \<and> ur_roleId r = roleId)
      in if filter sel (db_user_roles db) = [] then (False, db)
         else (True, db\<lparr>db_user_roles := del_where sel (db_user_roles db)\<rparr>))"

section \<open>TeamRoleRepository\<close>

definition team_role_findById :: "rbac_db \<Rightarrow> string \<Rightarrow> team_role_row option" where
  "team_role_findById db i = List.find (\<lambda>r. tr_id r = i) (db_team_roles db)"

definition team_role_create ::
  "string \<Rightarrow> int \<Rightarrow> string \<Rightarrow> string \<Rightarrow> string \<Rightarrow> rbac_db \<Rightarrow> (team_role_row \<times> rbac_db) result" where
  "team_role_create i now orgId teamId roleId db =
     (let row = \<lparr>tr_id = i, tr_orgId = orgId, tr_teamId = teamId, tr_roleId = roleId,
                 tr_created = now\<rparr>
      in if list_ex (\<lambda>r. tr_id r = i
             \<or> tr_orgId r = orgId \<and> tr_teamId r = teamId \<and> tr_roleId r = roleId) (db_team_roles db)
         then Inl unique_failed
         else if teamId \<notin> set (db_teams db) \<or> \<not> list_ex (\<lambda>r. ro_id r = roleId) (db_roles db)
         then Inl fk_failed
         else Inr (row, db\<lparr>db_team_roles := db_team_roles db @ [row]\<rparr>))"

definition team_role_listByTeams ::
  "rbac_db \<Rightarrow> string list \<Rightarrow> string option \<Rightarrow> team_role_row list" where
  "team_role_listByTeams db teamIds orgId =
     (if teamIds = [] then []
      else if truthy orgId
      then filter (\<lambda>r. tr_teamId r \<in> set teamIds \<and> (tr_orgId r = the orgId \<or> tr_orgId r = ''''))
             (db_team_roles db)
      else filter (\<lambda>r. tr_teamId r \<in> set teamIds) (db_team_roles db))"

definition team_role_listByTeam :: "rbac_db \<Rightarrow> string \<Rightarrow> string option \<Rightarrow> team_role_row list" where
  "team_role_listByTeam db teamId orgId =
     (if truthy orgId
      then filter (\<lambda>r. tr_teamId r = teamId \<and> (tr_orgId r = the orgId \<or> tr_orgId r = ''''))
             (db_team_roles db)
      else filter (\<lambda>r. tr_teamId r = teamId) (db_team_roles db))"

definition team_role_listByRole :: "rbac_db \<Rightarrow> string \<Rightarrow> team_role_row list" where
  "team_role_listByRole db roleId = filter (\<lambda>r. tr_roleId r = roleId) (db_team_roles db)"

definition team_role_delete :: "string \<Rightarrow> rbac_db \<Rightarrow> bool \<times> rbac_db" where
  "team_role_delete i db =
     (if team_role_findById db i = None then (False, db)
      else (True, db\<lparr>db_team_roles := del_where (\<lambda>r. tr_id r = i) (db_team_roles db)\<rparr>))"

definition team_role_remove :: "string \<Rightarrow> string \<Rightarrow> string \<Rightarrow> rbac_db \<Rightarrow> bool \<times> rbac_db" where
  "team_role_remove orgId teamId roleId db =
     (let sel = (\<lambda>r. tr_orgId r = orgId \<and> tr_teamId r = teamId \<and> tr_roleId r = roleId)
      in if filter sel (db_team_roles db) = [] then (False, db)
         else (True, db\<lparr>db_team_roles := del_where sel (db_team_roles db)\<rparr>))"

section \<open>TeamMemberRepository\<close>

definition team_member_findMembership :: "rbac_db \<Rightarrow> string \<Rightarrow> string \<Rightarrow> team_member_row option" where
  "team_member_findMembership db teamId userId =
     List.find (\<lambda>r. tm_teamId r = teamId \<and> tm_userId r = userId) (db_team_members db)"

definition team_member_create ::
  "string \<Rightarrow> int \<Rightarrow> string \<Rightarrow> string \<Rightarrow> string \<Rightarrow> bool option \<Rightarrow> int option \<Rightarrow> rbac_db \<Rightarrow>
     (team_member_row \<times> rbac_db) result" where
  "team_member_create i now orgId teamId userId ext permission db =
     (let row = \<lparr>tm_id = i, tm_orgId = orgId, tm_teamId = teamId, tm_userId = userId,
                 tm_external = coalesce ext False, tm_permission = coalesce permission 0,
                 tm_created = now, tm_updated = now\<rparr>
      in if list_ex (\<lambda>r. tm_id r = i \<or> tm_teamId r = teamId \<and> tm_userId r = userId)
           (db_team_members db)
         then Inl unique_failed
         else if orgId \<notin> set (db_orgs db) \<or> teamId \<notin> set (db_teams db) \<or> userId \<notin> set (db_users db)
         then Inl fk_failed
         else Inr (row, db\<lparr>db_team_members := db_team_members db @ [row]\<rparr>))"

definition team_member_listByTeam :: "rbac_db \<Rightarrow> string \<Rightarrow> team_member_row list" where
  "team_member_listByTeam db teamId =
     sort_key tm_created (filter (\<lambda>r. tm_teamId r = teamId) (db_team_members db))"

definition team_member_listTeamsForUser ::
  "rbac_db \<Rightarrow> string \<Rightarrow> string option \<Rightarrow> team_member_row list" where
  "team_member_listTeamsForUser db userId orgId =
     (if truthy orgId
      then filter (\<lambda>r. tm_userId r = userId \<and> tm_orgId r = the orgId) (db_team_members db)
      else filter (\<lambda>r. tm_userId r = userId) (db_team_members db))"

definition team_member_updatePermission ::
  "int \<Rightarrow> string \<Rightarrow> string \<Rightarrow> int \<Rightarrow> rbac_db \<Rightarrow> team_member_row option \<times> rbac_db" where
  "team_member_updatePermission now teamId userId permission db =
     (if team_member_findMembership db teamId userId = None then (None, db)
      else let db' = db\<lparr>db_team_members :=
                 upd_where (\<lambda>r. tm_teamId r = teamId \<and> tm_userId r = userId)
                   (\<lambda>r. r\<lparr>tm_permission := permission, tm_updated := now\<rparr>) (db_team_members db)\<rparr>
           in (team_member_findMembership db' teamId userId, db'))"

definition team_member_remove :: "string \<Rightarrow> string \<Rightarrow> rbac_db \<Rightarrow> bool \<times> rbac_db" where
  "team_member_remove teamId userId db =
     (if team_member_findMembership db teamId userId = None then (False, db)
      else (True, db\<lparr>db_team_members :=
              del_where (\<lambda>r. tm_teamId r = teamId \<and> tm_userId r = userId) (db_team_members db)\<rparr>))"

definition team_member_removeAllByUser :: "string \<Rightarrow> rbac_db \<Rightarrow> nat \<times> rbac_db" where
  "team_member_removeAllByUser userId db =
     (length (filter (\<lambda>r. tm_userId r = userId) (db_team_members db)),
      db\<lparr>db_team_members := del_where (\<lambda>r. tm_userId r = userId) (db_team_members db)\<rparr>)"

section \<open>The schema's constraints as an invariant\<close>

definition roles_ok :: "rbac_db \<Rightarrow> bool" where
  "roles_ok db \<longleftrightarrow> distinct (map ro_id (db_roles db))
     \<and> distinct (map (\<lambda>r. (ro_orgId r, ro_name r)) (db_roles db))
     \<and> distinct (map (\<lambda>r. (ro_orgId r, ro_uid r)) (db_roles db))"

definition builtin_ok :: "rbac_db \<Rightarrow> bool" where
  "builtin_ok db \<longleftrightarrow> distinct (map bi_id (db_builtin db))
     \<and> distinct (map (\<lambda>r. (bi_role r, bi_orgId r, bi_roleId r)) (db_builtin db))
     \<and> bi_roleId ` set (db_builtin db) \<subseteq> ro_id ` set (db_roles db)"

definition perm_row_ok :: "permission_row \<Rightarrow> bool" where
  "perm_row_ok r \<longleftrightarrow> parseScope (pr_scope r) =
     \<lparr>ps_kind = pr_kind r, ps_attribute = pr_attribute r, ps_identifier = pr_identifier r\<rparr>"

definition perms_ok :: "rbac_db \<Rightarrow> bool" where
  "perms_ok db \<longleftrightarrow> distinct (map pr_id (db_perms db))
     \<and> pr_roleId ` set (db_perms db) \<subseteq> ro_id ` set (db_roles db)
     \<and> list_all perm_row_ok (db_perms db)"

definition user_roles_ok :: "rbac_db \<Rightarrow> bool" where
  "user_roles_ok db \<longleftrightarrow> distinct (map ur_id (db_user_roles db))
     \<and> distinct (map (\<lambda>r. (ur_orgId r, ur_userId r, ur_roleId r)) (db_user_roles db))
     \<and> ur_roleId ` set (db_user_roles db) \<subseteq> ro_id ` set (db_roles db)"

definition team_roles_ok :: "rbac_db \<Rightarrow> bool" where
  "team_roles_ok db \<longleftrightarrow> distinct (map tr_id (db_team_roles db))
     \<and> distinct (map (\<lambda>r. (tr_orgId r, tr_teamId r, tr_roleId r)) (db_team_roles db))
     \<and> tr_roleId ` set (db_team_roles db) \<subseteq> ro_id ` set (db_roles db)"

definition members_ok :: "rbac_db \<Rightarrow> bool" where
  "members_ok db \<longleftrightarrow> distinct (map tm_id (db_team_members db))
     \<and> distinct (map (\<lambda>r. (tm_teamId r, tm_userId r)) (db_team_members db))"

definition db_ok :: "rbac_db \<Rightarrow> bool" where
  "db_ok db \<longleftrightarrow> roles_ok db \<and> builtin_ok db \<and> perms_ok db \<and> user_roles_ok db
     \<and> team_roles_ok db \<and> members_ok db"

lemmas table_ok_defs [rounds_defs] =
  roles_ok_def builtin_ok_def perms_ok_def user_roles_ok_def team_roles_ok_def members_ok_def

text \<open>The mutating methods as the operations of one state machine.\<close>

datatype rbac_op =
    Role_create string int new_role
  | Role_update int string role_patch
  | Role_delete string
  | Builtin_upsert string int string string string
  | Builtin_remove string string string
  | Permission_create string int string string "string option"
  | Permission_createMany int "(string \<times> string \<times> string \<times> string option) list"
  | Permission_delete string
  | Permission_deleteByRole string
  | User_role_create string int string string string
  | User_role_delete string
  | User_role_remove string string string
  | Team_role_create string int string string string
  | Team_role_delete string
  | Team_role_remove string string string
  | Team_member_create string int string string string "bool option" "int option"
  | Team_member_updatePermission int string string int
  | Team_member_remove string string
  | Team_member_removeAllByUser string

definition keep_on_error :: "rbac_db \<Rightarrow> ('a \<times> rbac_db) result \<Rightarrow> rbac_db" where
  "keep_on_error db r = (case r of Inl e \<Rightarrow> db | Inr (x, db') \<Rightarrow> db')"

fun rbac_apply :: "rbac_op \<Rightarrow> rbac_db \<Rightarrow> rbac_db" where
  "rbac_apply (Role_create i now input) db = keep_on_error db (role_create i now input db)"
| "rbac_apply (Role_update now i patch) db = keep_on_error db (role_update now i patch db)"
| "rbac_apply (Role_delete i) db = snd (role_delete i db)"
| "rbac_apply (Builtin_upsert i now role roleId orgId) db =
     keep_on_error db (upsertBuiltinRole i now role roleId orgId db)"
| "rbac_apply (Builtin_remove role orgId roleId) db = snd (removeBuiltinRole role orgId roleId db)"
| "rbac_apply (Permission_create i now roleId act sc) db =
     keep_on_error db (permission_create i now roleId act sc db)"
| "rbac_apply (Permission_createMany now inputs) db = snd (snd (permission_createMany now inputs db))"
| "rbac_apply (Permission_delete i) db = snd (permission_delete i db)"
| "rbac_apply (Permission_deleteByRole roleId) db = snd (permission_deleteByRole roleId db)"
| "rbac_apply (User_role_create i now orgId userId roleId) db =
     keep_on_error db (user_role_create i now orgId userId roleId db)"
| "rbac_apply (User_role_delete i) db = snd (user_role_delete i db)"
| "rbac_apply (User_role_remove orgId userId roleId) db = snd (user_role_remove orgId userId roleId db)"
| "rbac_apply (Team_role_create i now orgId teamId roleId) db =
     keep_on_error db (team_role_create i now orgId teamId roleId db)"
| "rbac_apply (Team_role_delete i) db = snd (team_role_delete i db)"
| "rbac_apply (Team_role_remove orgId teamId roleId) db = snd (team_role_remove orgId teamId roleId db)"
| "rbac_apply (Team_member_create i now orgId teamId userId ext permission) db =
     keep_on_error db (team_member_create i now orgId teamId userId ext permission db)"
| "rbac_apply (Team_member_updatePermission now teamId userId permission) db =
     snd (team_member_updatePermission now teamId userId permission db)"
| "rbac_apply (Team_member_remove teamId userId) db = snd (team_member_remove teamId userId db)"
| "rbac_apply (Team_member_removeAllByUser userId) db = snd (team_member_removeAllByUser userId db)"

lemma keep_on_errorI [intro]:
  "P db \<Longrightarrow> (\<And>x db'. r = Inr (x, db') \<Longrightarrow> P db') \<Longrightarrow> P (keep_on_error db r)"
  by (cases r) (auto simp: keep_on_error_def)

lemmas table_frame = list_ex_iff list_all_iff image_subset_iff distinct_del_where

lemma role_create_ok:
  assumes "db_ok db" "role_create i now input db = Inr (row, db')" shows "db_ok db'"
  using assms
  by (auto simp: db_ok_def role_create_def Let_def table_ok_defs table_frame split: if_splits) blast+

lemma role_update_ok:
  assumes "db_ok db" "role_update now i patch db = Inr (row, db')" shows "db_ok db'"
proof (cases "role_findById db i")
  case None
  with assms show ?thesis by (simp add: role_update_def)
next
  case (Some existing)
  then have ex: "existing \<in> set (db_roles db)" "ro_id existing = i"
    by (auto simp: role_findById_def dest: find_Some_set)
  have same: "r = existing" if "r \<in> set (db_roles db)" "ro_id r = i" for r
    using assms(1) ex that by (auto simp: db_ok_def roles_ok_def distinct_map inj_on_def)
  obtain f where db': "db' = db\<lparr>db_roles := upd_where (\<lambda>r. ro_id r = i) f (db_roles db)\<rparr>"
    and f: "\<And>r. ro_id (f r) = ro_id r" "\<And>r. ro_orgId (f r) = ro_orgId r" "\<And>r. ro_uid (f r) = ro_uid r"
      "\<And>r. ro_name (f r) = coalesce (rp_name patch) (ro_name existing)"
    and clash: "\<not> list_ex (\<lambda>r. ro_id r \<noteq> i \<and> ro_orgId r = ro_orgId existing
        \<and> ro_name r = coalesce (rp_name patch) (ro_name existing)) (db_roles db)"
    using assms(2) Some by (fastforce simp: role_update_def Let_def split: if_splits)
  have ids: "map ro_id (db_roles db') = map ro_id (db_roles db)"
    by (simp add: db' map_upd_where_key f)
  then have sets: "ro_id ` set (db_roles db') = ro_id ` set (db_roles db)"
    by (metis list.set_map)
  have "distinct (map (\<lambda>r. (ro_orgId r, ro_name r)) (db_roles db'))"
    unfolding db' using assms(1) same clash
    by (auto simp: db_ok_def roles_ok_def list_ex_iff f intro!: distinct_upd_where
        [where i = ro_id and c = "(ro_orgId existing, coalesce (rp_name patch) (ro_name existing))"])
  then show ?thesis
    using assms(1) ids sets by (simp add: db_ok_def table_ok_defs db' map_upd_where_key f)
qed

lemma role_delete_ok: "db_ok db \<Longrightarrow> db_ok (snd (role_delete i db))"
  by (auto simp: db_ok_def role_delete_def table_ok_defs table_frame image_iff)

lemma upsertBuiltinRole_ok:
  assumes "db_ok db" "upsertBuiltinRole i now role roleId orgId db = Inr (row, db')"
  shows "db_ok db'"
  using assms
  by (auto simp: db_ok_def upsertBuiltinRole_def findBuiltinRole_def find_None_set Let_def
      table_ok_defs table_frame split: if_splits option.splits) blast

lemma removeBuiltinRole_ok: "db_ok db \<Longrightarrow> db_ok (snd (removeBuiltinRole role orgId roleId db))"
  by (auto simp: db_ok_def removeBuiltinRole_def table_ok_defs table_frame)

lemma permission_create_ok:
  assumes "db_ok db" "permission_create i now roleId act sc db = Inr (row, db')"
  shows "db_ok db'"
  using assms
  by (auto simp: db_ok_def permission_create_def Let_def table_ok_defs table_frame
      perm_row_ok_def split: if_splits)

lemma permission_createMany_ok:
  "db_ok db \<Longrightarrow> db_ok (snd (snd (permission_createMany now inputs db)))"
  by (induction now inputs db rule: permission_createMany.induct)
     (auto split: sum.splits prod.splits dest: permission_create_ok)

lemma permission_delete_ok: "db_ok db \<Longrightarrow> db_ok (snd (permission_delete i db))"
  by (auto simp: db_ok_def permission_delete_def table_ok_defs table_frame)

lemma permission_deleteByRole_ok: "db_ok db \<Longrightarrow> db_ok (snd (permission_deleteByRole roleId db))"
  by (auto simp: db_ok_def permission_deleteByRole_def table_ok_defs table_frame)

lemma user_role_create_ok:
  assumes "db_ok db" "user_role_create i now orgId userId roleId db = Inr (row, db')"
  shows "db_ok db'"
  using assms
  by (auto simp: db_ok_def user_role_create_def Let_def table_ok_defs table_frame
      split: if_splits) blast

lemma user_role_delete_ok: "db_ok db \<Longrightarrow> db_ok (snd (user_role_delete i db))"
  by (auto simp: db_ok_def user_role_delete_def table_ok_defs table_frame)

lemma user_role_remove_ok: "db_ok db \<Longrightarrow> db_ok (snd (user_role_remove orgId userId roleId db))"
  by (auto simp: db_ok_def user_role_remove_def Let_def table_ok_defs table_frame)

lemma team_role_create_ok:
  assumes "db_ok db" "team_role_create i now orgId teamId roleId db = Inr (row, db')"
  shows "db_ok db'"
  using assms
  by (auto simp: db_ok_def team_role_create_def Let_def table_ok_defs table_frame
      split: if_splits) blast

lemma team_role_delete_ok: "db_ok db \<Longrightarrow> db_ok (snd (team_role_delete i db))"
  by (auto simp: db_ok_def team_role_delete_def table_ok_defs table_frame)

lemma team_role_remove_ok: "db_ok db \<Longrightarrow> db_ok (snd (team_role_remove orgId teamId roleId db))"
  by (auto simp: db_ok_def team_role_remove_def Let_def table_ok_defs table_frame)

lemma team_member_create_ok:
  assumes "db_ok db" "team_member_create i now orgId teamId userId ext permission db = Inr (row, db')"
  shows "db_ok db'"
  using assms
  by (auto simp: db_ok_def team_member_create_def Let_def table_ok_defs table_frame split: if_splits)

lemma team_member_updatePermission_ok:
  "db_ok db \<Longrightarrow> db_ok (snd (team_member_updatePermission now teamId userId permission db))"
  by (auto simp: db_ok_def team_member_updatePermission_def Let_def table_ok_defs map_upd_where_key)

lemma team_member_remove_ok: "db_ok db \<Longrightarrow> db_ok (snd (team_member_remove teamId userId db))"
  by (auto simp: db_ok_def team_member_remove_def table_ok_defs table_frame)

lemma team_member_removeAllByUser_ok: "db_ok db \<Longrightarrow> db_ok (snd (team_member_removeAllByUser userId db))"
  by (auto simp: db_ok_def team_member_removeAllByUser_def table_ok_defs table_frame)

lemmas rbac_method_ok = role_create_ok role_update_ok role_delete_ok upsertBuiltinRole_ok
  removeBuiltinRole_ok permission_create_ok permission_createMany_ok permission_delete_ok
  permission_deleteByRole_ok user_role_create_ok user_role_delete_ok user_role_remove_ok
  team_role_create_ok team_role_delete_ok team_role_remove_ok team_member_create_ok
  team_member_updatePermission_ok team_member_remove_ok team_member_removeAllByUser_ok

lemma rbac_apply_ok: "db_ok db \<Longrightarrow> db_ok (rbac_apply opn db)"
  by (cases opn) (auto intro: rbac_method_ok)

interpretation rbac_sys: op_system rbac_apply db_ok
  by unfold_locales (rule rbac_apply_ok)

text \<open>
  Every sequence of repository calls keeps the schema's constraints: primary keys and
  unique indexes, no mapping, permission or assignment without its role (deleting a role
  cascades), and the three stored segments of a permission always are those of its scope.
\<close>

theorem rbac_tables_consistent:
  assumes "db_ok db"
  shows "db_ok (fold rbac_apply ops db)"
  using assms by (rule rbac_sys.run_inv)

theorem rbac_tables_consistent_witness:
  "db_ok (fold rbac_apply
     [Role_create ''r1'' 5 \<lparr>nr_id = None, nr_orgId = ''o'', nr_name = ''ops'', nr_uid = ''u'',
        nr_displayName = None, nr_description = None, nr_groupName = None, nr_hidden = None\<rparr>,
      Permission_create ''p1'' 6 ''r1'' ''plans:read'' (Some ''plans:*''), Role_delete ''r1'']
     \<lparr>db_orgs = [''o''], db_users = [], db_teams = [], db_roles = [], db_builtin = [], db_perms = [],
      db_user_roles = [], db_team_roles = [], db_team_members = []\<rparr>)"
  by (rule rbac_tables_consistent) (simp add: db_ok_def table_ok_defs)

end
