(* ===== verification/Rbac_Seed.thy ===== *)
theory Rbac_Seed
  imports Role_Store Fixed_Roles
begin

text \<open>
  Seeding the role tables, \<^verbatim>\<open>packages/data-layer/src/seed/rbac-seed.ts\<close>.  The state of the
  run is the database, the number of random identifiers drawn so far and the result counters;
  \<^verbatim>\<open>fresh\<close> is the stream of identifiers (\<^verbatim>\<open>randomUUID\<close>).  A throw ends the run
  with its message; rows inserted before it stay, there is no surrounding transaction.  The
  results: on a consistent database without clashing role names the seed succeeds and every
  catalog role is there with its permissions and mapping, and a second run changes nothing.
\<close>

record seed_result =
  rolesInserted :: nat
  permissionsInserted :: nat
  builtinMappingsInserted :: nat

type_synonym seed_state = "rbac_db \<times> nat \<times> seed_result"

text \<open>Looking the role up by identifier and creating it when it is missing.\<close>

definition ensure_role ::
  "(nat \<Rightarrow> string) \<Rightarrow> int \<Rightarrow> new_role \<Rightarrow> seed_state \<Rightarrow> (string \<times> seed_state) result" where
  "ensure_role fresh now input st = (case st of (db, n, r) \<Rightarrow>
     (case role_findByUid db (nr_orgId input) (nr_uid input) of
        Some existing \<Rightarrow> Inr (ro_id existing, st)
      | None \<Rightarrow> res_bind (role_create (fresh n) now input db) (\<lambda>(row, db').
          Inr (ro_id row, (db', Suc n, r\<lparr>rolesInserted := rolesInserted r + 1\<rparr>)))))"

fun insert_missing ::
  "(nat \<Rightarrow> string) \<Rightarrow> int \<Rightarrow> string \<Rightarrow> string list \<Rightarrow> permission list \<Rightarrow> seed_state \<Rightarrow>
     seed_state result" where
  "insert_missing fresh now roleId have_keys [] st = Inr st"
| "insert_missing fresh now roleId have_keys (p # ps) (db, n, r) =
     (if perm_key p \<in> set have_keys then insert_missing fresh now roleId have_keys ps (db, n, r)
      else res_bind (permission_create (fresh n) now roleId (action p) (Some (scope p)) db)
        (\<lambda>(row, db'). insert_missing fresh now roleId have_keys ps
           (db', Suc n, r\<lparr>permissionsInserted := permissionsInserted r + 1\<rparr>)))"

definition row_key :: "permission_row \<Rightarrow> string" where
  "row_key row = pr_action row @ ''|'' @ pr_scope row"

definition syncPermissions ::
  "(nat \<Rightarrow> string) \<Rightarrow> int \<Rightarrow> string \<Rightarrow> permission list \<Rightarrow> seed_state \<Rightarrow> seed_state result" where
  "syncPermissions fresh now roleId desired st = (case st of (db, n, r) \<Rightarrow>
     insert_missing fresh now roleId (map row_key (permission_listByRole db roleId)) desired st)"

definition link_builtin ::
  "(nat \<Rightarrow> string) \<Rightarrow> int \<Rightarrow> string \<Rightarrow> string \<Rightarrow> string \<Rightarrow> seed_state \<Rightarrow> seed_state result" where
  "link_builtin fresh now role orgId roleId st = (case st of (db, n, r) \<Rightarrow>
     (let before = findBuiltinRole db role orgId roleId
      in res_bind (upsertBuiltinRole (fresh n) now role roleId orgId db) (\<lambda>(row, db').
           Inr (if before = None
                then (db', Suc n, r\<lparr>builtinMappingsInserted := builtinMappingsInserted r + 1\<rparr>)
                else (db', n, r)))))"

text \<open>One role: its row, its permissions, and for a basic role its mapping.\<close>

definition seed_unit ::
  "(nat \<Rightarrow> string) \<Rightarrow> int \<Rightarrow> new_role \<times> permission list \<times> string option \<Rightarrow> seed_state \<Rightarrow>
     seed_state result" where
  "seed_unit fresh now u st = (case u of (input, perms, mapping) \<Rightarrow>
     res_bind (ensure_role fresh now input st) (\<lambda>(roleId, st1).
     res_bind (syncPermissions fresh now roleId perms st1) (\<lambda>st2.
       case mapping of None \<Rightarrow> Inr st2
       | Some role \<Rightarrow> link_builtin fresh now role (nr_orgId input) roleId st2)))"

definition fixed_unit :: "fixed_role \<Rightarrow> new_role \<times> permission list \<times> string option" where
  "fixed_unit d =
     (\<lparr>nr_id = None, nr_orgId = '''', nr_name = fr_name d, nr_uid = fr_uid d,
       nr_displayName = Some (fr_displayName d), nr_description = Some (fr_description d),
       nr_groupName = Some (fr_groupName d), nr_hidden = Some (coalesce (fr_hidden d) False)\<rparr>,
      fr_permissions d, None)"

definition basic_unit ::
  "string \<Rightarrow> basic_role \<Rightarrow> permission list \<Rightarrow> new_role \<times> permission list \<times> string option" where
  "basic_unit orgId d perms =
     (\<lparr>nr_id = None, nr_orgId = orgId, nr_name = br_name d, nr_uid = br_uid d,
       nr_displayName = Some (br_displayName d), nr_description = Some (br_description d),
       nr_groupName = Some ''Basic'', nr_hidden = None\<rparr>,
      perms, Some (br_builtinMappingRole d))"

definition findBasic :: "string \<Rightarrow> basic_role result" where
  "findBasic n = (case List.find (\<lambda>d. br_name d = n) BASIC_ROLE_DEFINITIONS of
     Some d \<Rightarrow> Inr d | None \<Rightarrow> Inl (''[rbac-seed] missing basic role definition: '' @ n))"

definition seed_basic ::
  "(nat \<Rightarrow> string) \<Rightarrow> int \<Rightarrow> string \<Rightarrow> basic_role \<Rightarrow> seed_state \<Rightarrow> seed_state result" where
  "seed_basic fresh now orgId d st = (case resolveBasicRolePermissions (br_name d) of
     None \<Rightarrow> Inl ''maximum recursion depth''
   | Some perms \<Rightarrow> seed_unit fresh now (basic_unit orgId d perms) st)"

definition seedRbacForOrg ::
  "(nat \<Rightarrow> string) \<Rightarrow> int \<Rightarrow> string \<Rightarrow> rbac_db \<times> nat \<Rightarrow> seed_state result" where
  "seedRbacForOrg fresh now orgId s =
     (if orgId = '''' then Inl ''seedRbacForOrg: orgId must be non-empty (use a real org id)''
      else res_bind
        (res_fold (\<lambda>d. seed_unit fresh now (fixed_unit d)) FIXED_ROLE_DEFINITIONS
           (fst s, snd s, \<lparr>rolesInserted = 0, permissionsInserted = 0, builtinMappingsInserted = 0\<rparr>))
        (\<lambda>st1. res_bind (findBasic ''basic:server_admin'') (\<lambda>serverAdminDef.
         res_bind (seed_basic fresh now '''' serverAdminDef st1) (\<lambda>st2.
           res_fold (\<lambda>d st. if br_global d then Inr st else seed_basic fresh now orgId d st)
             BASIC_ROLE_DEFINITIONS st2))))"

section \<open>The run as a list of units\<close>

definition seed_units :: "string \<Rightarrow> (new_role \<times> permission list \<times> string option) list" where
  "seed_units orgId = map fixed_unit FIXED_ROLE_DEFINITIONS
     @ map (\<lambda>d. basic_unit (if br_global d then '''' else orgId) d
              (the (resolveBasicRolePermissions (br_name d))))
         (filter br_global BASIC_ROLE_DEFINITIONS @ filter (\<lambda>d. \<not> br_global d) BASIC_ROLE_DEFINITIONS)"

lemma basic_defs_split:
  "filter br_global BASIC_ROLE_DEFINITIONS = [BASIC_ROLE_DEFINITIONS ! 3]"
  "filter (\<lambda>d. \<not> br_global d) BASIC_ROLE_DEFINITIONS = take 3 BASIC_ROLE_DEFINITIONS"
  by (simp_all add: BASIC_ROLE_DEFINITIONS_def)

lemma seed_basic_unit:
  "d \<in> set BASIC_ROLE_DEFINITIONS \<Longrightarrow> seed_basic fresh now orgId d =
     seed_unit fresh now (basic_unit orgId d (the (resolveBasicRolePermissions (br_name d))))"
  by (auto simp: BASIC_ROLE_DEFINITIONS_def seed_basic_def resolve_basic fun_eq_iff)

lemma res_fold_cong:
  "(\<And>x. x \<in> set xs \<Longrightarrow> f x = g x) \<Longrightarrow> res_fold f xs s = res_fold g xs s"
proof (induction xs arbitrary: s)
  case (Cons x xs)
  then show ?case by (cases "g x s") auto
qed simp

lemma res_fold_Cons: "res_fold f (x # xs) = (\<lambda>s. res_bind (f x s) (res_fold f xs))"
  by (rule ext) simp

lemma res_fold_skip:
  "res_fold (\<lambda>x s. if P x then Inr s else f x s) xs s = res_fold f (filter (\<lambda>x. \<not> P x) xs) s"
proof (induction xs arbitrary: s)
  case (Cons x xs)
  then show ?case by (cases "f x s") auto
qed simp

lemma server_admin_def: "findBasic ''basic:server_admin'' = Inr (BASIC_ROLE_DEFINITIONS ! 3)"
  by (simp add: findBasic_def BASIC_ROLE_DEFINITIONS_def)

definition seed_start :: "rbac_db \<times> nat \<Rightarrow> seed_state" where
  "seed_start s =
     (fst s, snd s, \<lparr>rolesInserted = 0, permissionsInserted = 0, builtinMappingsInserted = 0\<rparr>)"

lemma basic_defs_mem:
  "BASIC_ROLE_DEFINITIONS ! 3 \<in> set BASIC_ROLE_DEFINITIONS" "br_global (BASIC_ROLE_DEFINITIONS ! 3)"
  by (simp_all add: BASIC_ROLE_DEFINITIONS_def)

lemma seed_as_units:
  assumes "orgId \<noteq> ''''"
  shows "seedRbacForOrg fresh now orgId s =
           res_fold (seed_unit fresh now) (seed_units orgId) (seed_start s)"
proof -
  let ?u = "\<lambda>d. basic_unit (if br_global d then '''' else orgId) d
              (the (resolveBasicRolePermissions (br_name d)))"
  have tail: "res_fold (\<lambda>d st. if br_global d then Inr st else seed_basic fresh now orgId d st)
                BASIC_ROLE_DEFINITIONS =
              res_fold (seed_unit fresh now) (map ?u (filter (\<lambda>d. \<not> br_global d) BASIC_ROLE_DEFINITIONS))"
    by (rule ext, simp add: res_fold_skip res_fold_map)
       (rule res_fold_cong, auto simp: seed_basic_unit)
  have head: "seed_basic fresh now '''' (BASIC_ROLE_DEFINITIONS ! 3) =
              seed_unit fresh now (?u (BASIC_ROLE_DEFINITIONS ! 3))"
    by (simp add: seed_basic_unit basic_defs_mem)
  show ?thesis
    unfolding seedRbacForOrg_def seed_units_def seed_start_def tail
    using assms basic_defs_mem(2)
    by (simp add: res_fold_append res_fold_map res_fold_Cons server_admin_def head basic_defs_split(1))
qed

section \<open>The seed is add-only and idempotent\<close>

definition grows :: "rbac_db \<Rightarrow> rbac_db \<Rightarrow> bool" where
  "grows db db' \<longleftrightarrow> (\<exists>rs ps bs. db_roles db' = db_roles db @ rs \<and> db_perms db' = db_perms db @ ps
     \<and> db_builtin db' = db_builtin db @ bs)"

definition has_perm :: "rbac_db \<Rightarrow> string \<Rightarrow> permission \<Rightarrow> bool" where
  "has_perm db roleId p \<longleftrightarrow> (\<exists>row\<in>set (db_perms db). pr_roleId row = roleId \<and> row_key row = perm_key p)"

definition role_present :: "rbac_db \<Rightarrow> new_role \<times> permission list \<times> string option \<Rightarrow> bool" where
  "role_present db u = (case u of (input, perms, mapping) \<Rightarrow>
     (case role_findByUid db (nr_orgId input) (nr_uid input) of None \<Rightarrow> False
      | Some e \<Rightarrow> (\<forall>p\<in>set perms. has_perm db (ro_id e) p)
          \<and> (\<forall>m. mapping = Some m \<longrightarrow> findBuiltinRole db m (nr_orgId input) (ro_id e) \<noteq> None)))"

lemma grows_refl [simp]: "grows db db" by (auto simp: grows_def)

lemma grows_trans [trans]: "grows a b \<Longrightarrow> grows b c \<Longrightarrow> grows a c"
  by (auto simp: grows_def)

lemma grows_findByUid:
  "grows db db' \<Longrightarrow> role_findByUid db orgId u = Some e \<Longrightarrow> role_findByUid db' orgId u = Some e"
  by (auto simp: grows_def role_findByUid_def intro: find_append_found)

lemma grows_has_perm: "grows db db' \<Longrightarrow> has_perm db roleId p \<Longrightarrow> has_perm db' roleId p"
  by (auto simp: grows_def has_perm_def)

lemma grows_builtin:
  "grows db db' \<Longrightarrow> findBuiltinRole db m org rid \<noteq> None \<Longrightarrow> findBuiltinRole db' m org rid \<noteq> None"
  by (auto simp: grows_def findBuiltinRole_def) (metis find_append_found option.distinct(1))

lemma role_present_iff:
  "role_present db (input, perms, mapping) \<longleftrightarrow>
     (\<exists>e. role_findByUid db (nr_orgId input) (nr_uid input) = Some e
        \<and> (\<forall>p\<in>set perms. has_perm db (ro_id e) p)
        \<and> (\<forall>m. mapping = Some m \<longrightarrow> findBuiltinRole db m (nr_orgId input) (ro_id e) \<noteq> None))"
  by (simp add: role_present_def split: option.splits)

lemma grows_present: "grows db db' \<Longrightarrow> role_present db u \<Longrightarrow> role_present db' u"
proof -
  assume g: "grows db db'" and p: "role_present db u"
  obtain input perms mapping where u: "u = (input, perms, mapping)" by (cases u)
  from p obtain e where "role_findByUid db (nr_orgId input) (nr_uid input) = Some e"
    and "\<forall>p\<in>set perms. has_perm db (ro_id e) p"
    and "\<forall>m. mapping = Some m \<longrightarrow> findBuiltinRole db m (nr_orgId input) (ro_id e) \<noteq> None"
    unfolding u role_present_iff by blast
  note old = this
  have "role_findByUid db' (nr_orgId input) (nr_uid input) = Some e"
    by (rule grows_findByUid [OF g old(1)])
  moreover have "\<forall>p\<in>set perms. has_perm db' (ro_id e) p"
    using old(2) by (auto intro: grows_has_perm [OF g])
  moreover have "\<forall>m. mapping = Some m \<longrightarrow> findBuiltinRole db' m (nr_orgId input) (ro_id e) \<noteq> None"
    using old(3) grows_builtin [OF g] by simp
  ultimately show ?thesis unfolding u role_present_iff by blast
qed

lemma ensure_role_grows:
  assumes "ensure_role fresh now input (db, n, r) = Inr (roleId, db', n', r')"
  shows "grows db db' \<and> (\<exists>e. role_findByUid db' (nr_orgId input) (nr_uid input) = Some e \<and> ro_id e = roleId)"
  using assms
  by (auto simp: ensure_role_def role_create_def Let_def grows_def role_findByUid_def find_append_miss
      split: option.splits if_splits)

lemma permission_create_grows:
  assumes "permission_create i now roleId (action p) (Some (scope p)) db = Inr (row, db')"
  shows "grows db db' \<and> has_perm db' roleId p"
  using assms
  by (auto simp: permission_create_def Let_def grows_def has_perm_def row_key_def perm_key_def
      split: if_splits)

lemma insert_missing_grows:
  "insert_missing fresh now roleId ks ps (db, n, r) = Inr (db', n', r') \<Longrightarrow>
   grows db db' \<and> (\<forall>p\<in>set ps. perm_key p \<in> set ks \<or> has_perm db' roleId p)"
proof (induction ps arbitrary: db n r)
  case (Cons p ps)
  show ?case
  proof (cases "perm_key p \<in> set ks")
    case False
    with Cons.prems obtain row db1 r1 where
      s: "permission_create (fresh n) now roleId (action p) (Some (scope p)) db = Inr (row, db1)"
      "insert_missing fresh now roleId ks ps (db1, Suc n, r1) = Inr (db', n', r')"
      by auto
    then show ?thesis
      using permission_create_grows [OF s(1)] Cons.IH [OF s(2)]
      by (auto intro: grows_trans grows_has_perm)
  qed (use Cons in auto)
qed simp

lemma sync_grows:
  assumes "syncPermissions fresh now roleId ps (db, n, r) = Inr (db', n', r')"
  shows "grows db db' \<and> (\<forall>p\<in>set ps. has_perm db' roleId p)"
proof -
  have g: "grows db db'" and keys: "\<forall>p\<in>set ps. perm_key p \<in> set (map row_key (permission_listByRole db roleId))
      \<or> has_perm db' roleId p"
    using assms insert_missing_grows unfolding syncPermissions_def by fastforce+
  have "has_perm db roleId p" if "perm_key p \<in> set (map row_key (permission_listByRole db roleId))" for p
    using that by (auto simp: has_perm_def permission_listByRole_def)
  with g keys show ?thesis by (blast intro: grows_has_perm)
qed

lemma link_grows:
  assumes "link_builtin fresh now m org roleId (db, n, r) = Inr (db', n', r')"
  shows "grows db db' \<and> findBuiltinRole db' m org roleId \<noteq> None"
  using assms
  by (auto simp: link_builtin_def upsertBuiltinRole_def Let_def grows_def findBuiltinRole_def
      find_append_miss split: option.splits if_splits)

lemma seed_unit_grows:
  assumes "seed_unit fresh now u (db, n, r) = Inr (db', n', r')"
  shows "grows db db' \<and> role_present db' u"
proof -
  obtain input perms mapping where u: "u = (input, perms, mapping)" by (cases u)
  from assms obtain roleId db1 n1 r1 db2 n2 r2 where
    a: "ensure_role fresh now input (db, n, r) = Inr (roleId, db1, n1, r1)" and
    b: "syncPermissions fresh now roleId perms (db1, n1, r1) = Inr (db2, n2, r2)" and
    c: "(case mapping of None \<Rightarrow> Inr (db2, n2, r2)
         | Some m \<Rightarrow> link_builtin fresh now m (nr_orgId input) roleId (db2, n2, r2)) = Inr (db', n', r')"
    by (auto simp: seed_unit_def u)
  have g3: "grows db2 db' \<and> (\<forall>m. mapping = Some m \<longrightarrow> findBuiltinRole db' m (nr_orgId input) roleId \<noteq> None)"
    using c link_grows by (cases mapping) fastforce+
  obtain e where e: "role_findByUid db1 (nr_orgId input) (nr_uid input) = Some e" "ro_id e = roleId"
    using ensure_role_grows [OF a] by blast
  have "grows db1 db'" using sync_grows [OF b] g3 by (blast intro: grows_trans)
  then show ?thesis
    using ensure_role_grows [OF a] sync_grows [OF b] g3 e grows_findByUid [OF _ e(1)]
    by (auto simp: role_present_def u intro: grows_trans grows_has_perm)
qed

lemma seed_fold_grows:
  "res_fold (seed_unit fresh now) us (db, n, r) = Inr (db', n', r') \<Longrightarrow>
   grows db db' \<and> (\<forall>u\<in>set us. role_present db' u)"
proof (induction us arbitrary: db n r)
  case (Cons u us)
  then obtain db1 n1 r1 where
    "seed_unit fresh now u (db, n, r) = Inr (db1, n1, r1)"
    "res_fold (seed_unit fresh now) us (db1, n1, r1) = Inr (db', n', r')"
    by auto
  then have "grows db db1" "role_present db1 u" "grows db1 db'" "\<forall>u\<in>set us. role_present db' u"
    using seed_unit_grows Cons.IH by blast+
  then show ?case by (auto intro: grows_trans grows_present)
qed simp

lemma insert_missing_none:
  "\<forall>p\<in>set ps. perm_key p \<in> set ks \<Longrightarrow> insert_missing fresh now roleId ks ps st = Inr st"
  by (induction ps) (cases st; auto)+

lemma seed_unit_stable:
  assumes "role_present db u"
  shows "seed_unit fresh now u (db, n, r) = Inr (db, n, r)"
proof -
  obtain input perms mapping where u: "u = (input, perms, mapping)" by (cases u)
  from assms obtain e where e: "role_findByUid db (nr_orgId input) (nr_uid input) = Some e"
    and p: "\<forall>p\<in>set perms. has_perm db (ro_id e) p"
    and m: "\<And>m. mapping = Some m \<Longrightarrow> findBuiltinRole db m (nr_orgId input) (ro_id e) \<noteq> None"
    by (auto simp: role_present_def u split: option.splits)
  have "\<forall>p\<in>set perms. perm_key p \<in> set (map row_key (permission_listByRole db (ro_id e)))"
    using p by (simp add: has_perm_def permission_listByRole_def image_iff) metis
  then have "syncPermissions fresh now (ro_id e) perms (db, n, r) = Inr (db, n, r)"
    by (simp add: syncPermissions_def insert_missing_none)
  then show ?thesis
    using e m by (auto simp: seed_unit_def u ensure_role_def link_builtin_def upsertBuiltinRole_def
        split: option.splits)
qed

section \<open>The seed succeeds\<close>

definition db_ids :: "rbac_db \<Rightarrow> string set" where
  "db_ids db = ro_id ` set (db_roles db) \<union> pr_id ` set (db_perms db) \<union> bi_id ` set (db_builtin db)"

definition supply_ok :: "(nat \<Rightarrow> string) \<Rightarrow> nat \<Rightarrow> rbac_db \<Rightarrow> bool" where
  "supply_ok fresh n db \<longleftrightarrow> inj fresh \<and> (\<forall>m\<ge>n. fresh m \<notin> db_ids db)"

text \<open>No other role of the same organisation occupies the name of a role to be seeded.\<close>

definition names_free :: "(new_role \<times> permission list \<times> string option) list \<Rightarrow> rbac_db \<Rightarrow> bool" where
  "names_free us db \<longleftrightarrow> (\<forall>(input, _)\<in>set us. \<forall>r\<in>set (db_roles db).
     ro_orgId r = nr_orgId input \<and> ro_name r = nr_name input \<longrightarrow> ro_uid r = nr_uid input)"

definition unit_ok :: "new_role \<times> permission list \<times> string option \<Rightarrow> bool" where
  "unit_ok u \<longleftrightarrow> nr_id (fst u) = None \<and> nr_uid (fst u) = role_uid (nr_name (fst u))"

lemma supply_next:
  assumes "supply_ok fresh n db" and "db_ids db' \<subseteq> insert (fresh n) (db_ids db)"
  shows "supply_ok fresh (Suc n) db'"
proof -
  have "fresh m \<noteq> fresh n" if "m \<ge> Suc n" for m
    using assms(1) that by (auto simp: supply_ok_def dest: injD)
  with assms show ?thesis by (auto simp: supply_ok_def)
qed

lemma supply_fresh:
  assumes "supply_ok fresh n db"
  shows "r \<in> set (db_roles db) \<Longrightarrow> ro_id r \<noteq> fresh n" "p \<in> set (db_perms db) \<Longrightarrow> pr_id p \<noteq> fresh n"
    "b \<in> set (db_builtin db) \<Longrightarrow> bi_id b \<noteq> fresh n"
  using assms by (auto simp: supply_ok_def db_ids_def) (metis image_eqI order_refl)+

lemma ensure_role_progress:
  assumes "supply_ok fresh n db" "names_free us db" "(input, w) \<in> set us" "\<forall>u\<in>set us. unit_ok u"
  shows "\<exists>roleId db' n' r'. ensure_role fresh now input (db, n, r) = Inr (roleId, db', n', r')
     \<and> supply_ok fresh n' db' \<and> names_free us db' \<and> roleId \<in> ro_id ` set (db_roles db')"
proof (cases "role_findByUid db (nr_orgId input) (nr_uid input)")
  case (Some e)
  with assms(1,2) show ?thesis
    by (auto simp: ensure_role_def role_findByUid_def dest: find_Some_set)
next
  case None
  then have no_uid: "\<not> (ro_orgId r = nr_orgId input \<and> ro_uid r = nr_uid input)"
    if "r \<in> set (db_roles db)" for r
    using that by (auto simp: role_findByUid_def find_None_set)
  have no_name: "\<not> (ro_orgId r = nr_orgId input \<and> ro_name r = nr_name input)"
    if "r \<in> set (db_roles db)" for r
    using that assms(2,3) no_uid [OF that] by (fastforce simp: names_free_def)
  have nid: "nr_id input = None" using assms(3,4) by (auto simp: unit_ok_def)
  have uid_fn: "nr_uid i = role_uid (nr_name i)" if "(i, v) \<in> set us" for i v
    using that assms(4) by (auto simp: unit_ok_def)
  let ?row = "\<lparr>ro_id = fresh n, ro_version = 0, ro_orgId = nr_orgId input,
                 ro_name = nr_name input, ro_uid = nr_uid input,
                 ro_displayName = nr_displayName input, ro_description = nr_description input,
                 ro_groupName = nr_groupName input, ro_hidden = coalesce (nr_hidden input) False,
                 ro_created = now, ro_updated = now\<rparr>"
  let ?db = "db\<lparr>db_roles := db_roles db @ [?row]\<rparr>"
  have step: "ensure_role fresh now input (db, n, r) =
      Inr (fresh n, ?db, Suc n, r\<lparr>rolesInserted := rolesInserted r + 1\<rparr>)"
    using None no_uid no_name supply_fresh(1) [OF assms(1)]
    by (auto simp: ensure_role_def role_create_def Let_def nid list_ex_iff)
  have "supply_ok fresh (Suc n) ?db"
    by (rule supply_next [OF assms(1)]) (auto simp: db_ids_def)
  moreover have "names_free us ?db"
    using assms(2) uid_fn assms(3) unfolding names_free_def by auto
  ultimately show ?thesis unfolding step by auto
qed

lemma insert_missing_progress:
  assumes "supply_ok fresh n db" and "roleId \<in> ro_id ` set (db_roles db)"
  shows "\<exists>db' n' r'. insert_missing fresh now roleId ks ps (db, n, r) = Inr (db', n', r')
     \<and> supply_ok fresh n' db' \<and> db_roles db' = db_roles db"
  using assms
proof (induction ps arbitrary: db n r)
  case (Cons p ps)
  show ?case
  proof (cases "perm_key p \<in> set ks")
    case False
    obtain row where c: "permission_create (fresh n) now roleId (action p) (Some (scope p)) db =
        Inr (row, db\<lparr>db_perms := db_perms db @ [row]\<rparr>)" and row: "pr_id row = fresh n"
      using Cons.prems supply_fresh(2) [OF Cons.prems(1)]
      by (fastforce simp: permission_create_def Let_def list_ex_iff)
    have "supply_ok fresh (Suc n) (db\<lparr>db_perms := db_perms db @ [row]\<rparr>)"
      by (rule supply_next [OF Cons.prems(1)]) (auto simp: db_ids_def row)
    from Cons.IH [OF this] show ?thesis using False c Cons.prems(2) by simp
  qed (use Cons in auto)
qed auto

lemma link_progress:
  assumes "supply_ok fresh n db" and "roleId \<in> ro_id ` set (db_roles db)"
  shows "\<exists>db' n' r'. link_builtin fresh now m org roleId (db, n, r) = Inr (db', n', r')
     \<and> supply_ok fresh n' db' \<and> db_roles db' = db_roles db"
proof (cases "findBuiltinRole db m org roleId")
  case None
  obtain row where c: "upsertBuiltinRole (fresh n) now m roleId org db =
      Inr (row, db\<lparr>db_builtin := db_builtin db @ [row]\<rparr>)" and row: "bi_id row = fresh n"
    using assms None supply_fresh(3) [OF assms(1)]
    by (fastforce simp: upsertBuiltinRole_def Let_def list_ex_iff)
  have "supply_ok fresh (Suc n) (db\<lparr>db_builtin := db_builtin db @ [row]\<rparr>)"
    by (rule supply_next [OF assms(1)]) (auto simp: db_ids_def row)
  then show ?thesis using c None by (simp add: link_builtin_def)
qed (use assms in \<open>simp add: link_builtin_def upsertBuiltinRole_def\<close>)

lemma seed_unit_progress:
  assumes "supply_ok fresh n db" "names_free us db" "u \<in> set us" "\<forall>u\<in>set us. unit_ok u"
  shows "\<exists>db' n' r'. seed_unit fresh now u (db, n, r) = Inr (db', n', r')
     \<and> supply_ok fresh n' db' \<and> names_free us db'"
proof -
  obtain input perms mapping where u: "u = (input, perms, mapping)" by (cases u)
  obtain roleId db1 n1 r1 where a: "ensure_role fresh now input (db, n, r) = Inr (roleId, db1, n1, r1)"
    "supply_ok fresh n1 db1" "names_free us db1" "roleId \<in> ro_id ` set (db_roles db1)"
    using ensure_role_progress [OF assms(1,2) _ assms(4), of input "(perms, mapping)" now r]
      assms(3) u by auto
  obtain db2 n2 r2 where b: "syncPermissions fresh now roleId perms (db1, n1, r1) = Inr (db2, n2, r2)"
    "supply_ok fresh n2 db2" "db_roles db2 = db_roles db1"
    using insert_missing_progress
      [OF a(2,4), of now "map row_key (permission_listByRole db1 roleId)" perms r1]
    by (auto simp: syncPermissions_def)
  show ?thesis
  proof (cases mapping)
    case None
    with a b show ?thesis by (simp add: seed_unit_def u names_free_def)
  next
    case (Some m)
    obtain db3 n3 r3 where "link_builtin fresh now m (nr_orgId input) roleId (db2, n2, r2) = Inr (db3, n3, r3)"
      "supply_ok fresh n3 db3" "db_roles db3 = db_roles db2"
      using link_progress [OF b(2)] a(4) b(3) by metis
    with a b Some show ?thesis by (simp add: seed_unit_def u names_free_def)
  qed
qed

lemma seed_fold_progress:
  assumes "\<forall>u\<in>set us. unit_ok u"
  shows "supply_ok fresh n db \<Longrightarrow> names_free us db \<Longrightarrow> set vs \<subseteq> set us \<Longrightarrow>
     \<exists>db' n' r'. res_fold (seed_unit fresh now) vs (db, n, r) = Inr (db', n', r')"
proof (induction vs arbitrary: db n r)
  case (Cons v vs)
  then obtain db1 n1 r1 where "seed_unit fresh now v (db, n, r) = Inr (db1, n1, r1)"
    "supply_ok fresh n1 db1" "names_free us db1"
    using seed_unit_progress [OF Cons.prems(1,2) _ assms, of v now r] by auto
  with Cons show ?case by simp
qed auto

lemma seed_units_ok: "\<forall>u\<in>set (seed_units orgId). unit_ok u"
  using fixed_uid_derived
  by (auto simp: seed_units_def unit_ok_def fixed_unit_def basic_unit_def list_all_iff
      BASIC_ROLE_DEFINITIONS_def role_uid_def)

lemma seed_run:
  assumes "orgId \<noteq> ''''" "supply_ok fresh n db" "names_free (seed_units orgId) db"
  shows "\<exists>db' n' r. seedRbacForOrg fresh now orgId (db, n) = Inr (db', n', r)"
  using seed_fold_progress [OF seed_units_ok assms(2,3)]
  by (simp add: seed_as_units [OF assms(1)] seed_start_def)

text \<open>
  C31. Seeding is total and complete: with a supply of unused identifiers and no foreign role on
  a seeded name, the run returns, only adds rows, and afterwards every catalog role exists
  with all its permissions, the four basic roles also with their builtin mapping.
\<close>

theorem seed_complete:
  assumes "orgId \<noteq> ''''" "supply_ok fresh n db" "names_free (seed_units orgId) db"
  shows "\<exists>db' n' r. seedRbacForOrg fresh now orgId (db, n) = Inr (db', n', r) \<and> grows db db'
     \<and> (\<forall>u\<in>set (seed_units orgId). role_present db' u)"
proof -
  obtain db' n' r where run: "seedRbacForOrg fresh now orgId (db, n) = Inr (db', n', r)"
    using seed_run [OF assms] by blast
  then show ?thesis
    using seed_fold_grows by (fastforce simp: seed_as_units [OF assms(1)] seed_start_def)
qed

definition empty_db :: rbac_db where
  "empty_db = \<lparr>db_orgs = [''main''], db_users = [], db_teams = [], db_roles = [], db_builtin = [],
     db_perms = [], db_user_roles = [], db_team_roles = [], db_team_members = []\<rparr>"

lemma empty_seedable:
  "supply_ok (\<lambda>k. replicate k CHR ''x'') 0 empty_db" "names_free us empty_db"
  by (auto simp: supply_ok_def names_free_def db_ids_def empty_db_def inj_on_def replicate_eq_replicate)

theorem seed_complete_witness:
  "\<exists>db' n' r. seedRbacForOrg (\<lambda>k. replicate k CHR ''x'') 0 ''main'' (empty_db, 0) = Inr (db', n', r)
     \<and> grows empty_db db' \<and> (\<forall>u\<in>set (seed_units ''main''). role_present db' u)"
  by (rule seed_complete) (simp_all add: empty_seedable)

text \<open>
  Seeding is idempotent: running it again on the database a run left, at any later time and
  with any identifiers, changes no row and reports zero insertions.
\<close>

theorem seed_idempotent:
  assumes "seedRbacForOrg fresh now orgId (db, n) = Inr (db', n', r)"
  shows "seedRbacForOrg fresh' now' orgId (db', m) = Inr (db', m,
     \<lparr>rolesInserted = 0, permissionsInserted = 0, builtinMappingsInserted = 0\<rparr>)"
proof -
  have org: "orgId \<noteq> ''''" using assms by (auto simp: seedRbacForOrg_def)
  have "\<forall>u\<in>set (seed_units orgId). role_present db' u"
    using assms seed_fold_grows by (fastforce simp: seed_as_units [OF org] seed_start_def)
  then show ?thesis
    by (simp add: seed_as_units [OF org] seed_start_def res_fold_stable seed_unit_stable)
qed

theorem seed_idempotent_witness:
  "\<exists>db' n' r. seedRbacForOrg (\<lambda>k. replicate k CHR ''x'') 0 ''main'' (empty_db, 0) = Inr (db', n', r)
     \<and> seedRbacForOrg (\<lambda>k. replicate k CHR ''x'') 7 ''main'' (db', n') = Inr (db', n',
       \<lparr>rolesInserted = 0, permissionsInserted = 0, builtinMappingsInserted = 0\<rparr>)"
  using seed_run [OF _ empty_seedable, of "''main''" 0] seed_idempotent by fastforce

end
