(* ===== verification/Plan_Store.thy ===== *)
theory Plan_Store
  imports Scopes
begin

text \<open>
  Remediation plans and their steps: the types of
  \<^verbatim>\<open>packages/data-layer/src/repository/types/remediation-plan.ts\<close> and the repository
  \<^verbatim>\<open>repository/sqlite/remediation-plan.ts\<close>.  Two tables, one row per plan and one per
  step; a plan is read back with its steps in the order of their ordinals.  Times are
  milliseconds.  The JSON column is the list of its members: writing and reading back an object
  gives the same members.  The results: the step table keeps its key, a created plan is read
  back as given, and an update touches one plan or one step only.
\<close>

section \<open>Plans and steps\<close>

datatype plan_status =
    PS_draft | PS_pending_approval | PS_approved | PS_rejected | PS_executing | PS_completed
  | PS_failed | PS_expired | PS_cancelled

datatype step_status = SS_pending | SS_approved | SS_executing | SS_done | SS_failed | SS_skipped

record plan_step =
  st_id :: string
  st_planId :: string
  st_ordinal :: nat
  st_kind :: string
  st_commandText :: string
  st_paramsJson :: "(string \<times> json) list"
  st_dryRunText :: "string option"
  st_riskNote :: "string option"
  st_continueOnError :: bool
  st_status :: step_status
  st_approvalRequestId :: "string option"
  st_executedAt :: "int option"
  st_outputText :: "string option"
  st_errorText :: "string option"

record plan_row =
  pl_id :: string
  pl_orgId :: string
  pl_investigationId :: string
  pl_rescueForPlanId :: "string option"
  pl_summary :: string
  pl_status :: plan_status
  pl_autoEdit :: bool
  pl_approvalRequestId :: "string option"
  pl_createdBy :: string
  pl_createdAt :: int
  pl_expiresAt :: int
  pl_resolvedAt :: "int option"
  pl_resolvedBy :: "string option"

record plan = plan_row +
  pl_steps :: "plan_step list"

record new_step =
  ns_kind :: string
  ns_commandText :: string
  ns_paramsJson :: "(string \<times> json) list"
  ns_dryRunText :: "string option"
  ns_riskNote :: "string option"
  ns_continueOnError :: bool

record new_plan =
  np_id :: "string option"
  np_orgId :: string
  np_investigationId :: string
  np_rescueForPlanId :: "string option"
  np_summary :: string
  np_status :: "plan_status option"
  np_autoEdit :: bool
  np_approvalRequestId :: "string option"
  np_createdBy :: string
  np_expiresAt :: "int option"
  np_steps :: "new_step list"

text \<open>A patch leaves a field alone (\<open>None\<close>) or sets it; a nullable field may be set to null.\<close>

record plan_patch =
  pp_status :: "plan_status option"
  pp_autoEdit :: "bool option"
  pp_approvalRequestId :: "string option option"
  pp_resolvedAt :: "int option option"
  pp_resolvedBy :: "string option option"

record step_patch =
  sp_status :: "step_status option"
  sp_approvalRequestId :: "string option option"
  sp_executedAt :: "int option option"
  sp_outputText :: "string option option"
  sp_errorText :: "string option option"

definition no_plan_patch :: plan_patch where
  "no_plan_patch = \<lparr>pp_status = None, pp_autoEdit = None, pp_approvalRequestId = None,
     pp_resolvedAt = None, pp_resolvedBy = None\<rparr>"

definition no_step_patch :: step_patch where
  "no_step_patch = \<lparr>sp_status = None, sp_approvalRequestId = None, sp_executedAt = None,
     sp_outputText = None, sp_errorText = None\<rparr>"

record plan_db =
  pd_plans :: "plan_row list"
  pd_steps :: "plan_step list"

section \<open>SqliteRemediationPlanRepository\<close>

definition steps_of :: "plan_db \<Rightarrow> string \<Rightarrow> plan_step list" where
  "steps_of db i = sort_key st_ordinal (filter (\<lambda>s. st_planId s = i) (pd_steps db))"

definition rowToPlan :: "plan_row \<Rightarrow> plan_step list \<Rightarrow> plan" where
  "rowToPlan row steps = plan_row.extend row \<lparr>pl_steps = steps\<rparr>"

definition planFromRows :: "plan_db \<Rightarrow> plan_row option \<Rightarrow> plan option" where
  "planFromRows db = map_option (\<lambda>row. rowToPlan row (steps_of db (pl_id row)))"

definition plan_findByIdInOrg :: "plan_db \<Rightarrow> string \<Rightarrow> string \<Rightarrow> plan option" where
  "plan_findByIdInOrg db orgId i =
     planFromRows db (List.find (\<lambda>r. pl_orgId r = orgId \<and> pl_id r = i) (pd_plans db))"

definition plan_findById :: "plan_db \<Rightarrow> string \<Rightarrow> plan option" where
  "plan_findById db i = planFromRows db (List.find (\<lambda>r. pl_id r = i) (pd_plans db))"

definition plan_findByApprovalRequestId :: "plan_db \<Rightarrow> string \<Rightarrow> plan option" where
  "plan_findByApprovalRequestId db a =
     planFromRows db (List.find (\<lambda>r. pl_approvalRequestId r = Some a
       \<or> list_ex (\<lambda>s. st_planId s = pl_id r \<and> st_approvalRequestId s = Some a) (pd_steps db)) (pd_plans db))"

text \<open>
  \<^verbatim>\<open>create\<close>: the plan identifier and the step identifiers come from the generator; a duplicate
  identifier, or a step of a plan identifier that still has one with the ordinal, fails the
  transaction.
\<close>

definition new_step_row :: "string \<Rightarrow> string \<Rightarrow> nat \<Rightarrow> new_step \<Rightarrow> plan_step" where
  "new_step_row fresh planId i step =
     \<lparr>st_id = fresh, st_planId = planId, st_ordinal = i, st_kind = ns_kind step,
      st_commandText = ns_commandText step, st_paramsJson = ns_paramsJson step,
      st_dryRunText = ns_dryRunText step, st_riskNote = ns_riskNote step,
      st_continueOnError = ns_continueOnError step, st_status = SS_pending,
      st_approvalRequestId = None, st_executedAt = None, st_outputText = None, st_errorText = None\<rparr>"

definition insert_step :: "plan_step \<Rightarrow> plan_db \<Rightarrow> plan_db result" where
  "insert_step row db =
     (if list_ex (\<lambda>s. st_id s = st_id row \<or> st_planId s = st_planId row \<and> st_ordinal s = st_ordinal row) (pd_steps db)
      then Inl ''UNIQUE constraint failed: remediation_plan_step''
      else Inr (db\<lparr>pd_steps := pd_steps db @ [row]\<rparr>))"

fun insert_steps :: "(nat \<Rightarrow> string) \<Rightarrow> string \<Rightarrow> nat \<Rightarrow> new_step list \<Rightarrow> plan_db \<Rightarrow> plan_db result" where
  "insert_steps uid planId i [] db = Inr db"
| "insert_steps uid planId i (step # rest) db =
     res_bind (insert_step (new_step_row (''step-'' @ uid i) planId i step) db)
       (insert_steps uid planId (Suc i) rest)"

definition new_plan_row :: "string \<Rightarrow> int \<Rightarrow> new_plan \<Rightarrow> plan_row" where
  "new_plan_row i now input =
     \<lparr>pl_id = i, pl_orgId = np_orgId input, pl_investigationId = np_investigationId input,
      pl_rescueForPlanId = np_rescueForPlanId input, pl_summary = np_summary input,
      pl_status = coalesce (np_status input) PS_pending_approval, pl_autoEdit = np_autoEdit input,
      pl_approvalRequestId = np_approvalRequestId input, pl_createdBy = np_createdBy input,
      pl_createdAt = now, pl_expiresAt = coalesce (np_expiresAt input) (now + 86400000),
      pl_resolvedAt = None, pl_resolvedBy = None\<rparr>"

definition plan_create :: "string \<Rightarrow> (nat \<Rightarrow> string) \<Rightarrow> int \<Rightarrow> new_plan \<Rightarrow> plan_db \<Rightarrow> (plan \<times> plan_db) result" where
  "plan_create fresh uid now input db =
     (let i = coalesce (np_id input) (''plan-'' @ fresh) in
      if list_ex (\<lambda>r. pl_id r = i) (pd_plans db)
      then Inl ''UNIQUE constraint failed: remediation_plan.id''
      else res_bind (insert_steps uid i 0 (np_steps input)
             (db\<lparr>pd_plans := pd_plans db @ [new_plan_row i now input]\<rparr>))
        (\<lambda>db'. case plan_findById db' i of
           None \<Rightarrow> Inl (''[RemediationPlanRepository] create: row '' @ i @ '' not found after insert'')
         | Some p \<Rightarrow> Inr (p, db')))"

text \<open>The optional filters of \<^verbatim>\<open>listByOrg\<close>; an empty status list filters nothing.\<close>

record list_plans_options =
  lp_status :: "plan_status list"
  lp_investigationId :: "string option"
  lp_rescueForPlanId :: "string option option"
  lp_limit :: "nat option"
  lp_offset :: "nat option"

definition plan_listByOrg :: "plan_db \<Rightarrow> string \<Rightarrow> list_plans_options \<Rightarrow> plan list" where
  "plan_listByOrg db orgId opts =
     (let rows = filter (\<lambda>r. pl_orgId r = orgId
            \<and> (lp_status opts \<noteq> [] \<longrightarrow> pl_status r \<in> set (lp_status opts))
            \<and> (truthy (lp_investigationId opts) \<longrightarrow> Some (pl_investigationId r) = lp_investigationId opts)
            \<and> (case lp_rescueForPlanId opts of None \<Rightarrow> True | Some v \<Rightarrow> pl_rescueForPlanId r = v)) (pd_plans db);
          sorted = sort_key (\<lambda>r. - pl_createdAt r) rows
      in map (\<lambda>r. rowToPlan r (steps_of db (pl_id r)))
           (take (coalesce (lp_limit opts) 100) (drop (coalesce (lp_offset opts) 0) sorted)))"

definition patch_plan :: "plan_patch \<Rightarrow> 'a plan_row_scheme \<Rightarrow> 'a plan_row_scheme" where
  "patch_plan p r = r\<lparr>pl_status := coalesce (pp_status p) (pl_status r),
     pl_autoEdit := coalesce (pp_autoEdit p) (pl_autoEdit r),
     pl_approvalRequestId := coalesce (pp_approvalRequestId p) (pl_approvalRequestId r),
     pl_resolvedAt := coalesce (pp_resolvedAt p) (pl_resolvedAt r),
     pl_resolvedBy := coalesce (pp_resolvedBy p) (pl_resolvedBy r)\<rparr>"

definition plan_updatePlan :: "string \<Rightarrow> string \<Rightarrow> plan_patch \<Rightarrow> plan_db \<Rightarrow> plan option \<times> plan_db" where
  "plan_updatePlan orgId i p db =
     (case plan_findByIdInOrg db orgId i of
        None \<Rightarrow> (None, db)
      | Some existing \<Rightarrow>
          (let db' = db\<lparr>pd_plans := upd_where (\<lambda>r. pl_orgId r = orgId \<and> pl_id r = i) (patch_plan p) (pd_plans db)\<rparr>
           in (plan_findByIdInOrg db' orgId i, db')))"

definition patch_step :: "step_patch \<Rightarrow> plan_step \<Rightarrow> plan_step" where
  "patch_step p s = s\<lparr>st_status := coalesce (sp_status p) (st_status s),
     st_approvalRequestId := coalesce (sp_approvalRequestId p) (st_approvalRequestId s),
     st_executedAt := coalesce (sp_executedAt p) (st_executedAt s),
     st_outputText := coalesce (sp_outputText p) (st_outputText s),
     st_errorText := coalesce (sp_errorText p) (st_errorText s)\<rparr>"

definition find_step :: "plan_db \<Rightarrow> string \<Rightarrow> nat \<Rightarrow> plan_step option" where
  "find_step db planId n = List.find (\<lambda>s. st_planId s = planId \<and> st_ordinal s = n) (pd_steps db)"

definition plan_updateStep :: "string \<Rightarrow> nat \<Rightarrow> step_patch \<Rightarrow> plan_db \<Rightarrow> plan_step option \<times> plan_db" where
  "plan_updateStep planId n p db =
     (case find_step db planId n of
        None \<Rightarrow> (None, db)
      | Some existing \<Rightarrow>
          (let db' = db\<lparr>pd_steps := upd_where (\<lambda>s. st_planId s = planId \<and> st_ordinal s = n) (patch_step p) (pd_steps db)\<rparr>
           in (find_step db' planId n, db')))"

definition plan_delete :: "string \<Rightarrow> string \<Rightarrow> plan_db \<Rightarrow> bool \<times> plan_db" where
  "plan_delete orgId i db =
     (case plan_findByIdInOrg db orgId i of
        None \<Rightarrow> (False, db)
      | Some existing \<Rightarrow>
          (True, db\<lparr>pd_steps := del_where (\<lambda>s. st_planId s = i) (pd_steps db),
                    pd_plans := del_where (\<lambda>r. pl_orgId r = orgId \<and> pl_id r = i) (pd_plans db)\<rparr>))"

definition is_stale :: "int \<Rightarrow> plan_row \<Rightarrow> bool" where
  "is_stale now r \<longleftrightarrow> pl_status r = PS_pending_approval \<and> pl_expiresAt r \<le> now"

definition expireStale :: "int \<Rightarrow> plan_db \<Rightarrow> nat \<times> plan_db" where
  "expireStale now db =
     (let stale = length (filter (is_stale now) (pd_plans db)) in
      if stale = 0 then (0, db)
      else (stale, db\<lparr>pd_plans := upd_where (is_stale now) (\<lambda>r. r\<lparr>pl_status := PS_expired\<rparr>) (pd_plans db)\<rparr>))"

section \<open>Reading back an update\<close>

lemma sort_key_map_same:
  assumes "\<And>x. k (f x) = k x"
  shows "sort_key k (map f xs) = map f (sort_key k xs)"
proof -
  have "insort_key k (f x) (map f ys) = map f (insort_key k x ys)" for x ys
    using assms by (induction ys) auto
  then show ?thesis by (induction xs) auto
qed

lemma patch_step_frame [simp]:
  "st_planId (patch_step p s) = st_planId s" "st_ordinal (patch_step p s) = st_ordinal s"
  "st_id (patch_step p s) = st_id s" "st_kind (patch_step p s) = st_kind s"
  "st_paramsJson (patch_step p s) = st_paramsJson s" "st_continueOnError (patch_step p s) = st_continueOnError s"
  "st_commandText (patch_step p s) = st_commandText s"
  "st_status (patch_step p s) = coalesce (sp_status p) (st_status s)"
  "st_outputText (patch_step p s) = coalesce (sp_outputText p) (st_outputText s)"
  "st_errorText (patch_step p s) = coalesce (sp_errorText p) (st_errorText s)"
  by (simp_all add: patch_step_def)

lemma patch_plan_frame [simp]:
  "pl_id (patch_plan p r) = pl_id r" "pl_orgId (patch_plan p r) = pl_orgId r"
  "pl_status (patch_plan p r) = coalesce (pp_status p) (pl_status r)"
  "pl_autoEdit (patch_plan p r) = coalesce (pp_autoEdit p) (pl_autoEdit r)"
  "pl_investigationId (patch_plan p r) = pl_investigationId r" "pl_createdBy (patch_plan p r) = pl_createdBy r"
  "plan.pl_steps (patch_plan p (q :: plan)) = pl_steps q"
  by (simp_all add: patch_plan_def)

lemma rowToPlan_frame [simp]:
  "pl_id (rowToPlan r ss) = pl_id r" "pl_orgId (rowToPlan r ss) = pl_orgId r"
  "pl_status (rowToPlan r ss) = pl_status r" "pl_autoEdit (rowToPlan r ss) = pl_autoEdit r"
  "pl_steps (rowToPlan r ss) = ss"
  by (simp_all add: rowToPlan_def plan_row.extend_def)

lemma rowToPlan_patch: "rowToPlan (patch_plan p r) ss = patch_plan p (rowToPlan r ss)"
  by (simp add: rowToPlan_def patch_plan_def plan_row.extend_def)

lemma rowToPlan_steps: "rowToPlan r ss = (rowToPlan r ts)\<lparr>pl_steps := ss\<rparr>"
  by (simp add: rowToPlan_def plan_row.extend_def)

lemma updateStep_db:
  "snd (plan_updateStep i n p db) =
     db\<lparr>pd_steps := upd_where (\<lambda>s. st_planId s = i \<and> st_ordinal s = n) (patch_step p) (pd_steps db)\<rparr>"
proof (cases "find_step db i n")
  case None
  then have "upd_where (\<lambda>s. st_planId s = i \<and> st_ordinal s = n) (patch_step p) (pd_steps db) = pd_steps db"
    by (auto simp: find_step_def find_None_set upd_where_def intro!: map_idI)
  with None show ?thesis by (simp add: plan_updateStep_def)
qed (simp add: plan_updateStep_def Let_def)

lemma updatePlan_db:
  "snd (plan_updatePlan orgId i p db) =
     db\<lparr>pd_plans := upd_where (\<lambda>r. pl_orgId r = orgId \<and> pl_id r = i) (patch_plan p) (pd_plans db)\<rparr>"
proof (cases "plan_findByIdInOrg db orgId i")
  case None
  then have "upd_where (\<lambda>r. pl_orgId r = orgId \<and> pl_id r = i) (patch_plan p) (pd_plans db) = pd_plans db"
    by (auto simp: plan_findByIdInOrg_def planFromRows_def find_None_set upd_where_def intro!: map_idI)
  with None show ?thesis by (simp add: plan_updatePlan_def)
qed (simp add: plan_updatePlan_def Let_def)

definition map_step :: "nat \<Rightarrow> (plan_step \<Rightarrow> plan_step) \<Rightarrow> plan_step list \<Rightarrow> plan_step list" where
  "map_step n f = map (\<lambda>s. if st_ordinal s = n then f s else s)"

lemma steps_of_updateStep:
  "steps_of (snd (plan_updateStep i n p db)) j =
     (if j = i then map_step n (patch_step p) (steps_of db j) else steps_of db j)"
proof -
  have "filter (\<lambda>s. st_planId s = j) (upd_where (\<lambda>s. st_planId s = i \<and> st_ordinal s = n) (patch_step p) xs) =
      (if j = i then map_step n (patch_step p) (filter (\<lambda>s. st_planId s = j) xs)
       else filter (\<lambda>s. st_planId s = j) xs)" for xs
    by (induction xs) (auto simp: map_step_def)
  then show ?thesis by (simp add: steps_of_def updateStep_db map_step_def sort_key_map_same)
qed

lemma find_updateStep:
  "plan_findByIdInOrg (snd (plan_updateStep i n p db)) orgId j =
     map_option (\<lambda>q. if j = i then q\<lparr>pl_steps := map_step n (patch_step p) (pl_steps q)\<rparr> else q)
       (plan_findByIdInOrg db orgId j)"
proof -
  have "pd_plans (snd (plan_updateStep i n p db)) = pd_plans db" by (simp add: updateStep_db)
  then show ?thesis
    by (cases "List.find (\<lambda>r. pl_orgId r = orgId \<and> pl_id r = j) (pd_plans db)")
       (auto simp: plan_findByIdInOrg_def planFromRows_def steps_of_updateStep rowToPlan_def plan_row.extend_def
          dest: find_Some_set)
qed

lemma find_updatePlan:
  "plan_findByIdInOrg (snd (plan_updatePlan orgId i p db)) orgId j =
     map_option (\<lambda>q. if j = i then patch_plan p q else q) (plan_findByIdInOrg db orgId j)"
proof -
  have "steps_of (snd (plan_updatePlan orgId i p db)) = steps_of db"
    by (simp add: fun_eq_iff steps_of_def updatePlan_db)
  moreover have "List.find (\<lambda>r. pl_orgId r = orgId \<and> pl_id r = j) (pd_plans (snd (plan_updatePlan orgId i p db))) =
      map_option (\<lambda>r. if pl_orgId r = orgId \<and> pl_id r = i then patch_plan p r else r)
        (List.find (\<lambda>r. pl_orgId r = orgId \<and> pl_id r = j) (pd_plans db))"
    by (simp add: updatePlan_db find_upd_where)
  ultimately show ?thesis
    by (cases "List.find (\<lambda>r. pl_orgId r = orgId \<and> pl_id r = j) (pd_plans db)")
       (auto simp: plan_findByIdInOrg_def planFromRows_def rowToPlan_patch dest: find_Some_set)
qed

lemma find_plan_ids:
  "plan_findByIdInOrg db orgId i = Some q \<Longrightarrow> pl_id q = i \<and> pl_orgId q = orgId \<and> pl_steps q = steps_of db i"
  by (auto simp: plan_findByIdInOrg_def planFromRows_def dest: find_Some_set)

lemma steps_of_mem: "s \<in> set (steps_of db i) \<longleftrightarrow> s \<in> set (pd_steps db) \<and> st_planId s = i"
  by (auto simp: steps_of_def)

section \<open>Keys of the two tables\<close>

definition plan_db_ok :: "plan_db \<Rightarrow> bool" where
  "plan_db_ok db \<longleftrightarrow> distinct (map pl_id (pd_plans db))
     \<and> distinct (map (\<lambda>s. (st_planId s, st_ordinal s)) (pd_steps db))
     \<and> st_planId ` set (pd_steps db) \<subseteq> pl_id ` set (pd_plans db)"

lemma plan_db_ok_maps:
  "map pl_id (pd_plans db') = map pl_id (pd_plans db) \<Longrightarrow>
   map (\<lambda>s. (st_planId s, st_ordinal s)) (pd_steps db') = map (\<lambda>s. (st_planId s, st_ordinal s)) (pd_steps db) \<Longrightarrow>
   plan_db_ok db' = plan_db_ok db"
proof -
  assume m: "map pl_id (pd_plans db') = map pl_id (pd_plans db)"
    "map (\<lambda>s. (st_planId s, st_ordinal s)) (pd_steps db') = map (\<lambda>s. (st_planId s, st_ordinal s)) (pd_steps db)"
  have "st_planId ` set (pd_steps d) = fst ` set (map (\<lambda>s. (st_planId s, st_ordinal s)) (pd_steps d))" for d
    by force
  moreover have "pl_id ` set (pd_plans d) = set (map pl_id (pd_plans d))" for d by simp
  ultimately show "plan_db_ok db' = plan_db_ok db" unfolding plan_db_ok_def using m by metis
qed

lemma updateStep_ok: "plan_db_ok db \<Longrightarrow> plan_db_ok (snd (plan_updateStep i n p db))"
  by (subst plan_db_ok_maps [of _ db]) (simp_all add: updateStep_db map_upd_where_key)

lemma updatePlan_ok: "plan_db_ok db \<Longrightarrow> plan_db_ok (snd (plan_updatePlan orgId i p db))"
  by (subst plan_db_ok_maps [of _ db]) (simp_all add: updatePlan_db map_upd_where_key)

lemma expireStale_db:
  "snd (expireStale now db) = db\<lparr>pd_plans := upd_where (is_stale now) (\<lambda>r. r\<lparr>pl_status := PS_expired\<rparr>) (pd_plans db)\<rparr>"
proof -
  have "filter (is_stale now) xs = [] \<Longrightarrow> upd_where (is_stale now) (\<lambda>r. r\<lparr>pl_status := PS_expired\<rparr>) xs = xs" for xs
    by (auto simp: upd_where_def filter_empty_conv intro!: map_idI)
  then show ?thesis by (auto simp: expireStale_def Let_def)
qed

lemma expireStale_ok: "plan_db_ok db \<Longrightarrow> plan_db_ok (snd (expireStale now db))"
  by (subst plan_db_ok_maps [of _ db]) (simp_all add: expireStale_db map_upd_where_key)

lemma delete_ok:
  assumes ok: "plan_db_ok db"
  shows "plan_db_ok (snd (plan_delete orgId i db))"
proof (cases "plan_findByIdInOrg db orgId i")
  case (Some q)
  let ?steps = "del_where (\<lambda>s. st_planId s = i) (pd_steps db)"
  let ?plans = "del_where (\<lambda>r. pl_orgId r = orgId \<and> pl_id r = i) (pd_plans db)"
  have "st_planId ` set ?steps \<subseteq> pl_id ` set ?plans"
  proof
    fix j assume "j \<in> st_planId ` set ?steps"
    then obtain s where s: "s \<in> set (pd_steps db)" "st_planId s = j" "j \<noteq> i" by auto
    have "st_planId ` set (pd_steps db) \<subseteq> pl_id ` set (pd_plans db)" using ok by (simp add: plan_db_ok_def)
    with s obtain r where "r \<in> set (pd_plans db)" "pl_id r = j" by (metis image_iff subset_iff)
    with s(3) show "j \<in> pl_id ` set ?plans" by auto
  qed
  moreover have "snd (plan_delete orgId i db) = db\<lparr>pd_steps := ?steps, pd_plans := ?plans\<rparr>"
    using Some by (simp add: plan_delete_def)
  ultimately show ?thesis
    using ok by (simp add: plan_db_ok_def distinct_del_where del: set_del_where)
qed (simp add: plan_delete_def ok)

lemma insert_steps_rows:
  assumes "insert_steps uid planId i news db = Inr db'"
  shows "pd_plans db' = pd_plans db" "pd_steps db' = pd_steps db
     @ map2 (\<lambda>k s. new_step_row (''step-'' @ uid k) planId k s) [i..<i + length news] news"
  using assms
proof (induction news arbitrary: i db)
  case (Cons s news)
  { case 1 then show ?case using Cons.IH(1) by (auto simp: insert_step_def split: if_splits) }
  { case 2
    have "[i..<i + length (s # news)] = i # [Suc i..<Suc i + length news]" by (simp add: upt_rec)
    with 2 Cons.IH(2) show ?case by (fastforce simp: insert_step_def simp del: upt_Suc split: if_splits) }
qed simp_all

lemma insert_steps_distinct:
  "insert_steps uid planId i news db = Inr db' \<Longrightarrow> distinct (map (\<lambda>s. (st_planId s, st_ordinal s)) (pd_steps db)) \<Longrightarrow>
     distinct (map (\<lambda>s. (st_planId s, st_ordinal s)) (pd_steps db'))"
proof (induction news arbitrary: i db)
  case (Cons s news)
  let ?row = "new_step_row (''step-'' @ uid i) planId i s"
  have rest: "insert_steps uid planId (Suc i) news (db\<lparr>pd_steps := pd_steps db @ [?row]\<rparr>) = Inr db'"
    and "\<forall>s\<in>set (pd_steps db). \<not> (st_planId s = st_planId ?row \<and> st_ordinal s = st_ordinal ?row)"
    using Cons.prems by (auto simp: insert_step_def list_ex_iff split: if_splits)
  then show ?case using Cons.prems(2) by (intro Cons.IH [OF rest]) (auto simp: list_ex_iff)
qed simp

lemma create_db:
  assumes "plan_create fresh uid now input db = Inr (p, db')"
  defines "i \<equiv> coalesce (np_id input) (''plan-'' @ fresh)"
  shows "i \<notin> pl_id ` set (pd_plans db)" "pd_plans db' = pd_plans db @ [new_plan_row i now input]"
    "insert_steps uid i 0 (np_steps input) (db\<lparr>pd_plans := pd_plans db @ [new_plan_row i now input]\<rparr>) = Inr db'"
    "plan_findById db' i = Some p"
proof -
  show ins: "insert_steps uid i 0 (np_steps input) (db\<lparr>pd_plans := pd_plans db @ [new_plan_row i now input]\<rparr>) = Inr db'"
    and "plan_findById db' i = Some p"
    using assms by (auto simp: plan_create_def Let_def split: if_splits option.splits)
  show "pd_plans db' = pd_plans db @ [new_plan_row i now input]"
    using insert_steps_rows [OF ins] by simp
  show "i \<notin> pl_id ` set (pd_plans db)"
    using assms by (auto simp: plan_create_def Let_def list_ex_iff split: if_splits)
qed

lemma create_ok: "plan_db_ok db \<Longrightarrow> plan_create fresh uid now input db = Inr (p, db') \<Longrightarrow> plan_db_ok db'"
proof -
  assume ok: "plan_db_ok db" and c: "plan_create fresh uid now input db = Inr (p, db')"
  let ?i = "coalesce (np_id input) (''plan-'' @ fresh)"
  have "st_planId s \<in> insert ?i (pl_id ` set (pd_plans db))" if "s \<in> set (pd_steps db')" for s
    using that ok insert_steps_rows(2) [OF create_db(3) [OF c]] by (auto simp: plan_db_ok_def new_step_row_def)
  moreover have "pl_id ` set (pd_plans db') = insert ?i (pl_id ` set (pd_plans db))"
    using create_db(2) [OF c] by (simp add: new_plan_row_def)
  moreover have "distinct (map pl_id (pd_plans db'))"
    using ok create_db(1,2) [OF c] by (simp add: plan_db_ok_def new_plan_row_def)
  ultimately show "plan_db_ok db'"
    using ok insert_steps_distinct [OF create_db(3) [OF c]] by (auto simp: plan_db_ok_def)
qed

lemma sorted_created:
  "sort_key st_ordinal (map2 (\<lambda>k s. new_step_row (''step-'' @ uid k) i k s) [j..<j + length news] news) =
     map2 (\<lambda>k s. new_step_row (''step-'' @ uid k) i k s) [j..<j + length news] news"
proof -
  have "map st_ordinal (map2 (\<lambda>k s. new_step_row (''step-'' @ uid k) i k s) [j..<j + length news] news) =
      [j..<j + length news]"
    by (rule nth_equalityI) (auto simp: new_step_row_def)
  then show ?thesis by (intro sort_key_id_if_sorted) (simp del: map_map)
qed

text \<open>
  Creating a plan and reading it back: the plan is found in its organisation under the
  returned identifier, with the default status and lifetime where none was given, and its steps
  are the given ones in the given order, numbered from zero and all pending.
\<close>

theorem plan_create_roundtrip:
  assumes "plan_db_ok db" "plan_create fresh uid now input db = Inr (p, db')"
  shows "plan_findByIdInOrg db' (np_orgId input) (pl_id p) = Some p
     \<and> p = rowToPlan (new_plan_row (pl_id p) now input)
         (map2 (\<lambda>k s. new_step_row (''step-'' @ uid k) (pl_id p) k s) [0..<length (np_steps input)] (np_steps input))
     \<and> (\<forall>i. i \<noteq> pl_id p \<longrightarrow> plan_findById db' i = plan_findById db i)"
proof -
  define i where "i = coalesce (np_id input) (''plan-'' @ fresh)"
  note c = create_db [OF assms(2), folded i_def]
  define rows where "rows = map2 (\<lambda>k s. new_step_row (''step-'' @ uid k) i k s) [0..<length (np_steps input)] (np_steps input)"
  have st: "pd_steps db' = pd_steps db @ rows" using insert_steps_rows [OF c(3)] by (simp add: rows_def)
  have old: "filter (\<lambda>s. st_planId s = i) (pd_steps db) = []"
    using assms(1) c(1) by (auto simp: plan_db_ok_def filter_empty_conv)
  have mine: "filter (\<lambda>s. st_planId s = j) rows = (if j = i then rows else [])" for j
    by (auto simp: rows_def filter_empty_conv filter_id_conv new_step_row_def)
  have steps: "steps_of db' i = rows"
    using sorted_created [of uid i 0 "np_steps input"] by (simp add: steps_of_def st old mine rows_def [symmetric] del: append_Cons)
  have miss: "List.find (\<lambda>r. pl_id r = i) (pd_plans db) = None" "List.find (\<lambda>r. pl_orgId r = np_orgId input \<and> pl_id r = i) (pd_plans db) = None"
    using c(1) by (auto simp: find_None_set)
  have p: "p = rowToPlan (new_plan_row i now input) rows"
    using c(4) by (simp add: plan_findById_def planFromRows_def c(2) find_append_miss [OF miss(1)] new_plan_row_def steps)
  have pid: "pl_id p = i" by (simp add: p new_plan_row_def)
  have "plan_findByIdInOrg db' (np_orgId input) i = Some p"
    using p by (simp add: plan_findByIdInOrg_def planFromRows_def c(2) find_append_miss [OF miss(2)] new_plan_row_def steps)
  moreover have "plan_findById db' j = plan_findById db j" if "j \<noteq> i" for j
  proof -
    have "steps_of db' j = steps_of db j" using that by (simp add: steps_of_def st mine)
    moreover have "List.find (\<lambda>r. pl_id r = j) (pd_plans db') = List.find (\<lambda>r. pl_id r = j) (pd_plans db)"
      using that by (cases "List.find (\<lambda>r. pl_id r = j) (pd_plans db)")
        (simp_all add: c(2) find_append_found find_append_miss new_plan_row_def)
    ultimately show ?thesis
      by (cases "List.find (\<lambda>r. pl_id r = j) (pd_plans db)")
         (auto simp: plan_findById_def planFromRows_def dest: find_Some_set)
  qed
  ultimately show ?thesis using p pid by (simp add: rows_def)
qed

definition demo_step :: "string list \<Rightarrow> new_step" where
  "demo_step argv = \<lparr>ns_kind = ''ops.run_command'', ns_commandText = ''kubectl'',
     ns_paramsJson = [(''argv'', JArr (map JStr argv)), (''connectorId'', JStr ''prod'')],
     ns_dryRunText = None, ns_riskNote = None, ns_continueOnError = False\<rparr>"

definition demo_plan :: "new_step list \<Rightarrow> new_plan" where
  "demo_plan steps = \<lparr>np_id = None, np_orgId = ''o'', np_investigationId = ''inv'', np_rescueForPlanId = None,
     np_summary = ''fix'', np_status = None, np_autoEdit = False, np_approvalRequestId = None,
     np_createdBy = ''agent'', np_expiresAt = None, np_steps = steps\<rparr>"

theorem plan_create_roundtrip_witness:
  "\<exists>p db'. plan_create ''1'' (\<lambda>k. replicate k CHR ''x'') 0 (demo_plan [demo_step [''get''], demo_step [''scale'']])
       \<lparr>pd_plans = [], pd_steps = []\<rparr> = Inr (p, db')
     \<and> plan_findByIdInOrg db' ''o'' ''plan-1'' = Some p"
proof -
  let ?in = "demo_plan [demo_step [''get''], demo_step [''scale'']]" and ?uid = "\<lambda>k. replicate k CHR ''x''"
  let ?r = "plan_create ''1'' ?uid 0 ?in \<lparr>pd_plans = [], pd_steps = []\<rparr>"
  have "case ?r of Inr (p, db') \<Rightarrow> pl_id p = ''plan-1'' | _ \<Rightarrow> False" by code_simp
  then obtain p db' where r: "?r = Inr (p, db')" "pl_id p = ''plan-1''" by (auto split: sum.splits)
  have "plan_db_ok \<lparr>pd_plans = [], pd_steps = []\<rparr>" by (simp add: plan_db_ok_def)
  from plan_create_roundtrip [OF this r(1)] r show ?thesis by (auto simp: demo_plan_def)
qed

end
