(* ===== verification/Folders.thy ===== *)
theory Folders
  imports Role_Store
begin

text \<open>
  The folder tree, \<^verbatim>\<open>packages/data-layer/src/repository/auth/folder-repository.ts\<close>, and the
  deletion of \<^verbatim>\<open>packages/api-gateway/src/services/folder-service.ts\<close>.  The table is the list of
  its rows; a folder names its parent by identifier within the organisation.  The results: the
  check before a create or a move is total; repository creates and updates and the deletions
  of the folder service, which take the whole subtree, keep the tree free of cycles and of
  dangling parents, while the delete of the repository, which nothing calls, would not; the walk
  to the ancestors is complete for every tree the creates can build; and the limit on the depth
  is one more than the documented one and does not see the subtree of a moved folder.  A call
  runs without another one in between.
\<close>

definition FOLDER_MAX_DEPTH :: nat where "FOLDER_MAX_DEPTH = 8"

record folder =
  fo_id :: string
  fo_uid :: string
  fo_orgId :: string
  fo_title :: string
  fo_description :: "string option"
  fo_parentUid :: "string option"
  fo_created :: int
  fo_updated :: int
  fo_createdBy :: "string option"
  fo_updatedBy :: "string option"
  fo_source :: string
  fo_provenance :: "json option"

record new_folder =
  nf_id :: "string option"
  nf_uid :: string
  nf_orgId :: string
  nf_title :: string
  nf_description :: "string option"
  nf_parentUid :: "string option"
  nf_createdBy :: "string option"
  nf_updatedBy :: "string option"
  nf_source :: "string option"
  nf_provenance :: "json option"

record folder_patch =
  fp_title :: "string option"
  fp_description :: "string option option"
  fp_parentUid :: "string option option"
  fp_updatedBy :: "string option option"

definition folder_findById :: "folder list \<Rightarrow> string \<Rightarrow> folder option" where
  "folder_findById t i = List.find (\<lambda>f. fo_id f = i) t"

definition folder_findByUid :: "folder list \<Rightarrow> string \<Rightarrow> string \<Rightarrow> folder option" where
  "folder_findByUid t orgId u = List.find (\<lambda>f. fo_orgId f = orgId \<and> fo_uid f = u) t"

text \<open>
  The parent of a folder that is present in the table: \<^verbatim>\<open>cursor.parentUid\<close> must be a
  non-empty string and name a row.
\<close>

definition parent_of :: "folder list \<Rightarrow> string \<Rightarrow> folder \<Rightarrow> folder option" where
  "parent_of t orgId f =
     (if truthy (fo_parentUid f) then folder_findByUid t orgId (the (fo_parentUid f)) else None)"

text \<open>\<^verbatim>\<open>listAncestors\<close>: the walk makes at most the given number of steps.\<close>

fun walk_ancestors :: "nat \<Rightarrow> folder list \<Rightarrow> string \<Rightarrow> folder \<Rightarrow> folder list" where
  "walk_ancestors 0 t orgId cursor = []"
| "walk_ancestors (Suc k) t orgId cursor =
     (case parent_of t orgId cursor of None \<Rightarrow> []
      | Some parent \<Rightarrow> parent # walk_ancestors k t orgId parent)"

definition listAncestors :: "folder list \<Rightarrow> string \<Rightarrow> string \<Rightarrow> folder list" where
  "listAncestors t orgId u =
     (case folder_findByUid t orgId u of None \<Rightarrow> []
      | Some cursor \<Rightarrow> walk_ancestors (FOLDER_MAX_DEPTH + 1) t orgId cursor)"

text \<open>
  The loop of \<^verbatim>\<open>assertParentAndDepth\<close>; it ends because every round raises the depth and a
  depth over the limit throws.  (The dash of the messages is written as a colon.)
\<close>

function assert_walk ::
  "folder list \<Rightarrow> string \<Rightarrow> string option \<Rightarrow> string \<Rightarrow> folder \<Rightarrow> nat \<Rightarrow> unit result" where
  "assert_walk t orgId movingUid parentUid cursor depth =
     (case parent_of t orgId cursor of
        None \<Rightarrow> Inr ()
      | Some nxt \<Rightarrow>
          if truthy movingUid \<and> movingUid = Some (fo_uid nxt)
          then Inl (''[FolderRepository] cycle detected: '' @ the movingUid @ '' is an ancestor of '' @ parentUid)
          else if depth + 1 > FOLDER_MAX_DEPTH
          then Inl ''[FolderRepository] folder depth would exceed limit of 8''
          else assert_walk t orgId movingUid parentUid nxt (depth + 1))"
  by pat_completeness auto
termination
  by (relation "measure (\<lambda>(t, orgId, movingUid, parentUid, cursor, depth). FOLDER_MAX_DEPTH - depth)") auto

declare assert_walk.simps [simp del]

definition assertParentAndDepth ::
  "folder list \<Rightarrow> string \<Rightarrow> string \<Rightarrow> string option \<Rightarrow> unit result" where
  "assertParentAndDepth t orgId parentUid movingUid =
     (case folder_findByUid t orgId parentUid of
        None \<Rightarrow> Inl (''[FolderRepository] parent folder not found: '' @ parentUid)
      | Some parent \<Rightarrow>
          if truthy movingUid \<and> movingUid = Some (fo_uid parent)
          then Inl (''[FolderRepository] cycle detected: '' @ the movingUid @ '' cannot be its own parent'')
          else assert_walk t orgId movingUid parentUid parent 1)"

text \<open>The nullable foreign keys to the users table.\<close>

definition user_known :: "string list \<Rightarrow> string option \<Rightarrow> bool" where
  "user_known users u = (case u of None \<Rightarrow> True | Some i \<Rightarrow> i \<in> set users)"

definition folder_create ::
  "string list \<Rightarrow> string list \<Rightarrow> string \<Rightarrow> int \<Rightarrow> new_folder \<Rightarrow> folder list \<Rightarrow>
     (folder \<times> folder list) result" where
  "folder_create orgs users fresh now input t =
     res_bind (if truthy (nf_parentUid input)
               then assertParentAndDepth t (nf_orgId input) (the (nf_parentUid input)) None
               else Inr ())
       (\<lambda>_. let row = \<lparr>fo_id = coalesce (nf_id input) fresh, fo_uid = nf_uid input,
                       fo_orgId = nf_orgId input, fo_title = nf_title input,
                       fo_description = nf_description input, fo_parentUid = nf_parentUid input,
                       fo_created = now, fo_updated = now, fo_createdBy = nf_createdBy input,
                       fo_updatedBy = nf_updatedBy input,
                       fo_source = coalesce (nf_source input) ''manual'',
                       fo_provenance = nf_provenance input\<rparr>
             in if list_ex (\<lambda>f. fo_id f = fo_id row
                     \<or> fo_orgId f = fo_orgId row \<and> fo_uid f = fo_uid row) t
                then Inl unique_failed
                else if nf_orgId input \<notin> set orgs \<or> \<not> user_known users (nf_createdBy input)
                        \<or> \<not> user_known users (nf_updatedBy input)
                then Inl fk_failed
                else Inr (row, t @ [row]))"

definition folder_update ::
  "string list \<Rightarrow> int \<Rightarrow> string \<Rightarrow> folder_patch \<Rightarrow> folder list \<Rightarrow>
     (folder option \<times> folder list) result" where
  "folder_update users now i patch t =
     (case folder_findById t i of
        None \<Rightarrow> Inr (None, t)
      | Some existing \<Rightarrow>
          res_bind
            (case fp_parentUid patch of
               Some (Some p) \<Rightarrow>
                 if Some p \<noteq> fo_parentUid existing
                 then assertParentAndDepth t (fo_orgId existing) p (Some (fo_uid existing))
                 else Inr ()
             | _ \<Rightarrow> Inr ())
            (\<lambda>_. let t' = upd_where (\<lambda>f. fo_id f = i)
                     (\<lambda>f. f\<lparr>fo_title := coalesce (fp_title patch) (fo_title existing),
                            fo_description := coalesce (fp_description patch) (fo_description existing),
                            fo_parentUid := coalesce (fp_parentUid patch) (fo_parentUid existing),
                            fo_updated := now,
                            fo_updatedBy := coalesce (fp_updatedBy patch) (fo_updatedBy existing)\<rparr>) t
                 in if \<not> user_known users (coalesce (fp_updatedBy patch) (fo_updatedBy existing))
                    then Inl fk_failed else Inr (folder_findById t' i, t')))"

definition folder_delete :: "string \<Rightarrow> folder list \<Rightarrow> bool \<times> folder list" where
  "folder_delete i t =
     (if folder_findById t i = None then (False, t) else (True, del_where (\<lambda>f. fo_id f = i) t))"

definition listChildren :: "folder list \<Rightarrow> string \<Rightarrow> string option \<Rightarrow> folder list" where
  "listChildren t orgId parentUid =
     sort_key fo_title (filter (\<lambda>f. fo_orgId f = orgId \<and> fo_parentUid f = parentUid) t)"

definition folder_list ::
  "folder list \<Rightarrow> string \<Rightarrow> string option option \<Rightarrow> nat option \<Rightarrow> nat option \<Rightarrow> folder list \<times> nat" where
  "folder_list t orgId parentUid lim offset =
     (let sel = filter (\<lambda>f. fo_orgId f = orgId
                  \<and> (case parentUid of None \<Rightarrow> True | Some p \<Rightarrow> fo_parentUid f = p)) t
      in (page (coalesce lim 200) (coalesce offset 0) (sort_key fo_title sel), length sel))"

section \<open>Deleting through the folder service\<close>

text \<open>
  \<^verbatim>\<open>listDescendantUids\<close>: the stack has its top at the front, and the identifiers found so far
  are in the order in which the set got them.
\<close>

definition visit_child :: "folder \<Rightarrow> string list \<times> string list \<Rightarrow> string list \<times> string list" where
  "visit_child c = (\<lambda>(out, stack). if fo_uid c \<in> set out then (out, stack) else (out @ [fo_uid c], fo_uid c # stack))"

lemma visit_children:
  "fold visit_child cs (out, stack) = (out', stack') \<Longrightarrow>
     set out' = set out \<union> fo_uid ` set cs \<and> set stack' = set stack \<union> (fo_uid ` set cs - set out)
     \<and> (set out' = set out \<longrightarrow> stack' = stack)"
proof (induction cs arbitrary: out stack)
  case (Cons c cs)
  show ?case
  proof (cases "fo_uid c \<in> set out")
    case True
    then show ?thesis using Cons by (auto simp: visit_child_def [of c])
  next
    case False
    then have "fold visit_child cs (out @ [fo_uid c], fo_uid c # stack) = (out', stack')"
      using Cons.prems by (simp add: visit_child_def [of c])
    from Cons.IH [OF this] False show ?thesis by auto
  qed
qed simp

function descend :: "folder list \<Rightarrow> string \<Rightarrow> string list \<times> string list \<Rightarrow> string list" where
  "descend t orgId (out, []) = out"
| "descend t orgId (out, current # stack) =
     descend t orgId (fold visit_child (listChildren t orgId (Some current)) (out, stack))"
  by pat_completeness auto
termination
proof (relation "inv_image (less_than <*lex*> less_than)
    (\<lambda>(t, orgId, out, stack). (card (fo_uid ` set t - set out), length stack))", goal_cases)
  case (2 t orgId out current stack)
  let ?cs = "listChildren t orgId (Some current)"
  obtain out' stack' where v: "fold visit_child ?cs (out, stack) = (out', stack')" by fastforce
  note w = visit_children [OF v]
  have known: "fo_uid ` set ?cs \<subseteq> fo_uid ` set t" by (auto simp: listChildren_def)
  have "card (fo_uid ` set t - set out') < card (fo_uid ` set t - set out) \<or> set out' = set out"
  proof (cases "fo_uid ` set ?cs \<subseteq> set out")
    case False
    have smaller: "U - (V \<union> C) \<subset> U - V" if "C \<subseteq> U" "\<not> C \<subseteq> V" for U V C :: "string set"
      using that by blast
    have "fo_uid ` set t - set out' \<subset> fo_uid ` set t - set out" using smaller [OF known False] w by simp
    then show ?thesis by (simp add: psubset_card_mono)
  qed (use w in auto)
  then show ?case using v w by auto
qed (simp add: wf_inv_image wf_lex_prod)

definition listDescendantUids :: "folder list \<Rightarrow> string \<Rightarrow> string \<Rightarrow> string list" where
  "listDescendantUids t orgId u = descend t orgId ([], [u])"

text \<open>
  What the deletion touches: the folders, the rows of \<^verbatim>\<open>dashboards\<close> and \<^verbatim>\<open>alert_rules\<close> with
  their folder, and the rows of \<^verbatim>\<open>dashboard_acl\<close> with the folder's key.
\<close>

record filed =
  fi_id :: string
  fi_orgId :: string
  fi_folder :: "string option"

record folder_db =
  fd_folders :: "folder list"
  fd_dashboards :: "filed list"
  fd_alertRules :: "filed list"
  fd_acl :: "filed list"

datatype folder_error = FE_not_found string | FE_has_dependents nat

definition filed_in :: "string \<Rightarrow> string \<Rightarrow> filed \<Rightarrow> bool" where
  "filed_in orgId u x \<longleftrightarrow> fi_orgId x = orgId \<and> fi_folder x = Some u"

definition countAlertRulesInFolders :: "folder_db \<Rightarrow> string \<Rightarrow> string list \<Rightarrow> nat" where
  "countAlertRulesInFolders d orgId uids = length (filter (\<lambda>x. list_ex (\<lambda>u. filed_in orgId u x) uids) (fd_alertRules d))"

definition empty_folder :: "string \<Rightarrow> string \<Rightarrow> folder_db \<Rightarrow> folder_db" where
  "empty_folder orgId u d =
     (let d1 = d\<lparr>fd_dashboards := del_where (filed_in orgId u) (fd_dashboards d)\<rparr>;
          d2 = d1\<lparr>fd_alertRules := del_where (filed_in orgId u) (fd_alertRules d1)\<rparr>
      in case folder_findByUid (fd_folders d2) orgId u of
           None \<Rightarrow> d2
         | Some f \<Rightarrow> d2\<lparr>fd_acl := del_where (filed_in orgId (fo_id f)) (fd_acl d2)\<rparr>)"

definition drop_folder :: "string \<Rightarrow> string \<Rightarrow> folder_db \<Rightarrow> folder_db" where
  "drop_folder orgId u d = d\<lparr>fd_folders := del_where (\<lambda>f. fo_orgId f = orgId \<and> fo_uid f = u) (fd_folders d)\<rparr>"

definition allUids :: "folder list \<Rightarrow> string \<Rightarrow> string \<Rightarrow> string list" where
  "allUids t orgId u = u # filter (\<lambda>v. v \<noteq> u) (listDescendantUids t orgId u)"

definition folder_service_delete :: "string \<Rightarrow> string \<Rightarrow> bool \<Rightarrow> folder_db \<Rightarrow> folder_error + folder_db" where
  "folder_service_delete orgId u forceDeleteRules d =
     (case folder_findByUid (fd_folders d) orgId u of
        None \<Rightarrow> Inl (FE_not_found u)
      | Some existing \<Rightarrow>
          (let uidList = allUids (fd_folders d) orgId u;
               ruleCount = countAlertRulesInFolders d orgId uidList
           in if ruleCount > 0 \<and> \<not> forceDeleteRules then Inl (FE_has_dependents ruleCount)
              else Inr (fold (drop_folder orgId) (rev uidList) (fold (empty_folder orgId) uidList d))))"

lemma set_allUids: "set (allUids t orgId u) = insert u (set (listDescendantUids t orgId u))"
  by (auto simp: allUids_def)

section \<open>The tree\<close>

definition parent_rel :: "folder list \<Rightarrow> string \<Rightarrow> (string \<times> string) set" where
  "parent_rel t orgId = {(fo_uid f, fo_uid g) |f g. f \<in> set t \<and> fo_orgId f = orgId
     \<and> parent_of t orgId f = Some g}"

definition no_orphans :: "folder list \<Rightarrow> bool" where
  "no_orphans t \<longleftrightarrow> (\<forall>f\<in>set t. truthy (fo_parentUid f) \<longrightarrow> parent_of t (fo_orgId f) f \<noteq> None)"

definition tree_ok :: "folder list \<Rightarrow> bool" where
  "tree_ok t \<longleftrightarrow> distinct (map fo_id t) \<and> distinct (map (\<lambda>f. (fo_orgId f, fo_uid f)) t)
     \<and> no_orphans t \<and> (\<forall>orgId. acyclic (parent_rel t orgId))"

lemma folder_findByUid_Some:
  assumes "folder_findByUid t orgId u = Some g"
  shows "g \<in> set t" "fo_orgId g = orgId" "fo_uid g = u"
  using find_Some_set [OF assms [unfolded folder_findByUid_def]] by auto

lemma folder_findByUid_mem:
  assumes "distinct (map (\<lambda>f. (fo_orgId f, fo_uid f)) t)" "g \<in> set t"
  shows "folder_findByUid t (fo_orgId g) (fo_uid g) = Some g"
  using find_key_unique [OF assms] by (simp add: folder_findByUid_def)

lemma parent_of_Some:
  assumes "parent_of t orgId f = Some g"
  shows "fo_parentUid f = Some (fo_uid g)" "fo_uid g \<noteq> ''''" "g \<in> set t" "fo_orgId g = orgId"
  using assms folder_findByUid_Some
  by (auto simp: parent_of_def truthy_def split: if_splits option.splits)

lemma parent_rel_iff:
  "(a, b) \<in> parent_rel t orgId \<longleftrightarrow>
     (\<exists>f\<in>set t. fo_orgId f = orgId \<and> fo_uid f = a \<and> (\<exists>g. parent_of t orgId f = Some g \<and> fo_uid g = b))"
  by (auto simp: parent_rel_def)

lemma parent_rel_step:
  assumes "distinct (map (\<lambda>f. (fo_orgId f, fo_uid f)) t)" "c \<in> set t" "fo_orgId c = orgId"
    and "(fo_uid c, x) \<in> (parent_rel t orgId)\<^sup>+"
  shows "\<exists>g. parent_of t orgId c = Some g \<and> (x = fo_uid g \<or> (fo_uid g, x) \<in> (parent_rel t orgId)\<^sup>+)"
proof -
  obtain y where y: "(fo_uid c, y) \<in> parent_rel t orgId" "y = x \<or> (y, x) \<in> (parent_rel t orgId)\<^sup>+"
    using tranclD [OF assms(4)] by (auto simp: rtrancl_eq_or_trancl)
  then obtain f g where "f \<in> set t" "fo_orgId f = orgId" "fo_uid f = fo_uid c"
    and g: "parent_of t orgId f = Some g" "fo_uid g = y"
    by (auto simp: parent_rel_iff)
  then have "f = c" using assms(1,2,3) by (auto simp: distinct_map inj_on_def)
  with g y show ?thesis by blast
qed

text \<open>A successful check means the moved folder is not above the new parent.\<close>

lemma assert_walk_avoids:
  "assert_walk t orgId mu pu cursor depth = Inr () \<Longrightarrow> mu = Some m \<Longrightarrow>
   distinct (map (\<lambda>f. (fo_orgId f, fo_uid f)) t) \<Longrightarrow> cursor \<in> set t \<Longrightarrow>
   fo_orgId cursor = orgId \<Longrightarrow> (fo_uid cursor, m) \<notin> (parent_rel t orgId)\<^sup>+"
proof (induction t orgId mu pu cursor depth rule: assert_walk.induct)
  case (1 t orgId mu pu cursor depth)
  show ?case
  proof
    assume "(fo_uid cursor, m) \<in> (parent_rel t orgId)\<^sup>+"
    then obtain g where g: "parent_of t orgId cursor = Some g"
      and m: "m = fo_uid g \<or> (fo_uid g, m) \<in> (parent_rel t orgId)\<^sup>+"
      using parent_rel_step 1(4,5,6) by blast
    have "fo_uid g \<noteq> ''''" "g \<in> set t" "fo_orgId g = orgId" using parent_of_Some [OF g] by auto
    moreover have "\<not> (truthy mu \<and> mu = Some (fo_uid g))" "\<not> depth + 1 > FOLDER_MAX_DEPTH"
      "assert_walk t orgId mu pu g (depth + 1) = Inr ()"
      using 1(2) g by (auto simp: assert_walk.simps [of t orgId mu pu cursor] split: if_splits)
    ultimately show False using 1(1) [OF g] 1(3,4) m by (auto simp: truthy_def)
  qed
qed

lemma assert_avoids:
  assumes "assertParentAndDepth t orgId p (Some m) = Inr ()"
    and "distinct (map (\<lambda>f. (fo_orgId f, fo_uid f)) t)"
  shows "folder_findByUid t orgId p \<noteq> None \<and> (p = m \<longrightarrow> m = '''')
     \<and> (p, m) \<notin> (parent_rel t orgId)\<^sup>+"
proof -
  obtain g where g: "folder_findByUid t orgId p = Some g"
    using assms(1) by (auto simp: assertParentAndDepth_def split: option.splits)
  note gp = folder_findByUid_Some [OF g]
  have w: "\<not> (truthy (Some m) \<and> Some m = Some (fo_uid g))" "assert_walk t orgId (Some m) p g 1 = Inr ()"
    using assms(1) g by (auto simp: assertParentAndDepth_def split: if_splits)
  have "(fo_uid g, m) \<notin> (parent_rel t orgId)\<^sup>+"
    by (rule assert_walk_avoids [OF w(2) refl assms(2) gp(1,2)])
  then show ?thesis using g gp w(1) by (auto simp: truthy_def)
qed

lemma rel_target_nonempty: "(a, b) \<in> parent_rel t orgId \<Longrightarrow> b \<noteq> ''''"
  by (auto simp: parent_rel_iff dest: parent_of_Some)

text \<open>Creating: the new row is below its parent and nothing is below it.\<close>

lemma findByUid_append:
  "folder_findByUid (t @ [row]) orgId u =
     (case folder_findByUid t orgId u of Some g \<Rightarrow> Some g
      | None \<Rightarrow> if fo_orgId row = orgId \<and> fo_uid row = u then Some row else None)"
  by (auto simp: folder_findByUid_def find_append_found find_append_miss split: option.splits)

lemma create_tree_ok:
  assumes ok: "tree_ok t" and cr: "folder_create orgs users fresh now input t = Inr (row, t')"
  shows "tree_ok t'"
proof -
  have t': "t' = t @ [row]" and row: "fo_uid row = nf_uid input" "fo_orgId row = nf_orgId input"
      "fo_parentUid row = nf_parentUid input"
    and uniq: "\<forall>f\<in>set t. fo_id f \<noteq> fo_id row \<and> \<not> (fo_orgId f = fo_orgId row \<and> fo_uid f = fo_uid row)"
    and chk: "truthy (nf_parentUid input) \<longrightarrow>
       assertParentAndDepth t (nf_orgId input) (the (nf_parentUid input)) None = Inr ()"
    using cr by (auto simp: folder_create_def Let_def list_ex_iff split: if_splits)
  have keep: "parent_of t' orgId f = parent_of t orgId f" if "f \<in> set t" "fo_orgId f = orgId" for f orgId
    using that ok
    by (auto simp: t' parent_of_def findByUid_append tree_ok_def no_orphans_def split: option.splits)
  have new: "truthy (fo_parentUid row) \<longrightarrow> (\<exists>g. parent_of t' (fo_orgId row) row = Some g \<and> g \<in> set t)"
    using chk row
    by (auto simp: t' parent_of_def findByUid_append assertParentAndDepth_def
        dest: folder_findByUid_Some split: option.splits)
  have uids: "distinct (map (\<lambda>f. (fo_orgId f, fo_uid f)) t')" "distinct (map fo_id t')"
    using ok uniq by (auto simp: t' tree_ok_def)
  have orphans: "no_orphans t'"
    unfolding no_orphans_def
  proof (intro ballI impI)
    fix f assume f: "f \<in> set t'" "truthy (fo_parentUid f)"
    show "parent_of t' (fo_orgId f) f \<noteq> None"
    proof (cases "f \<in> set t")
      case True
      then show ?thesis using keep [OF True refl] ok f(2) by (auto simp: tree_ok_def no_orphans_def)
    next
      case False
      then have "f = row" using f(1) by (simp add: t')
      then show ?thesis using new f(2) by auto
    qed
  qed
  have "acyclic (parent_rel t' orgId)" for orgId
  proof (cases "fo_orgId row = orgId \<and> truthy (fo_parentUid row)")
    case True
    then obtain g where g: "parent_of t' orgId row = Some g" "g \<in> set t" using new by blast
    have sub: "parent_rel t' orgId \<subseteq> insert (fo_uid row, fo_uid g) (parent_rel t orgId)"
    proof (rule subrelI)
      fix a b assume "(a, b) \<in> parent_rel t' orgId"
      then obtain f h where "f \<in> set t'" "fo_orgId f = orgId" "fo_uid f = a"
        "parent_of t' orgId f = Some h" "fo_uid h = b" unfolding parent_rel_iff by blast
      then show "(a, b) \<in> insert (fo_uid row, fo_uid g) (parent_rel t orgId)"
        using g keep by (cases "f = row") (auto simp: parent_rel_iff t')
    qed
    have "b \<noteq> fo_uid row" if ab: "(a, b) \<in> parent_rel t orgId" for a b
    proof -
      obtain h where "h \<in> set t" "fo_orgId h = orgId" "fo_uid h = b"
        using ab parent_of_Some(3,4) unfolding parent_rel_iff by blast
      then show ?thesis using uniq True by auto
    qed
    moreover have "fo_uid g \<noteq> fo_uid row" using uniq g(2) parent_of_Some(4) [OF g(1)] True by auto
    ultimately have "(fo_uid g, fo_uid row) \<notin> (parent_rel t orgId)\<^sup>*" by (metis rtranclE)
    then have "acyclic (insert (fo_uid row, fo_uid g) (parent_rel t orgId))"
      using ok by (simp add: tree_ok_def)
    then show ?thesis using sub by (rule acyclic_subset)
  next
    case False
    then have no_row: "parent_of t' orgId row = None \<or> fo_orgId row \<noteq> orgId"
      by (auto simp: parent_of_def)
    have "parent_rel t' orgId \<subseteq> parent_rel t orgId"
    proof (rule subrelI)
      fix a b assume "(a, b) \<in> parent_rel t' orgId"
      then obtain f h where "f \<in> set t'" "fo_orgId f = orgId" "fo_uid f = a"
        "parent_of t' orgId f = Some h" "fo_uid h = b" unfolding parent_rel_iff by blast
      then show "(a, b) \<in> parent_rel t orgId"
        using no_row keep by (cases "f = row") (auto simp: parent_rel_iff t')
    qed
    then show ?thesis using ok acyclic_subset by (auto simp: tree_ok_def)
  qed
  then show ?thesis using uids orphans by (simp add: tree_ok_def)
qed

text \<open>
  Updating: the rows keep their identifiers and only the parent link of one folder changes.
\<close>

definition relinked :: "(folder \<Rightarrow> folder) \<Rightarrow> folder list \<Rightarrow> folder \<Rightarrow> string option \<Rightarrow> bool" where
  "relinked upd t ex np \<longleftrightarrow> ex \<in> set t
     \<and> (\<forall>x. fo_id (upd x) = fo_id x \<and> fo_uid (upd x) = fo_uid x \<and> fo_orgId (upd x) = fo_orgId x)
     \<and> (\<forall>x\<in>set t. fo_parentUid (upd x) = (if x = ex then np else fo_parentUid x))"

lemma find_map_same:
  "(\<And>x. P (f x) = P x) \<Longrightarrow> List.find P (map f xs) = map_option f (List.find P xs)"
  by (induction xs) auto

lemma relinked_parent:
  assumes "relinked upd t ex np" "x \<in> set t"
  shows "map_option fo_uid (parent_of (map upd t) orgId (upd x)) =
     map_option fo_uid (parent_of t orgId (x\<lparr>fo_parentUid := if x = ex then np else fo_parentUid x\<rparr>))"
proof -
  have "folder_findByUid (map upd t) orgId v = map_option upd (folder_findByUid t orgId v)" for v
    using assms(1) unfolding folder_findByUid_def relinked_def by (intro find_map_same) simp
  then show ?thesis
    using assms by (auto simp: relinked_def parent_of_def option.map_comp comp_def)
qed

lemma relinked_edge:
  assumes r: "relinked upd t ex np" and ab: "(a, b) \<in> parent_rel (map upd t) orgId"
  shows "(a, b) \<in> parent_rel t orgId
     \<or> orgId = fo_orgId ex \<and> a = fo_uid ex \<and> np = Some b \<and> b \<noteq> '''' \<and> folder_findByUid t orgId b \<noteq> None"
proof -
  obtain x where x: "x \<in> set t" "fo_orgId x = orgId" "fo_uid x = a"
    and p: "map_option fo_uid (parent_of (map upd t) orgId (upd x)) = Some b"
    using ab r by (auto simp: parent_rel_iff relinked_def)
  note q = p [unfolded relinked_parent [OF r x(1)]]
  show ?thesis
  proof (cases "x = ex")
    case True
    obtain g where g: "parent_of t orgId (x\<lparr>fo_parentUid := np\<rparr>) = Some g" "fo_uid g = b"
      using q True by auto
    note ps = parent_of_Some [OF g(1)]
    have "folder_findByUid t orgId b = Some g"
      using g ps(1) by (simp add: parent_of_def split: if_splits)
    with x True g ps show ?thesis by simp
  next
    case False
    then have "map_option fo_uid (parent_of t orgId x) = Some b" using q by (simp add: parent_of_def)
    then show ?thesis using x by (auto simp: parent_rel_iff)
  qed
qed

lemma relinked_acyclic:
  assumes "relinked upd t ex np" "acyclic (parent_rel t orgId)"
    and "\<And>p. np = Some p \<Longrightarrow> p \<noteq> '''' \<Longrightarrow> orgId = fo_orgId ex \<Longrightarrow> folder_findByUid t orgId p \<noteq> None \<Longrightarrow>
       (fo_uid ex, p) \<in> parent_rel t orgId \<or> (p, fo_uid ex) \<notin> (parent_rel t orgId)\<^sup>*"
  shows "acyclic (parent_rel (map upd t) orgId)"
proof (cases "parent_rel (map upd t) orgId \<subseteq> parent_rel t orgId")
  case True
  then show ?thesis using assms(2) acyclic_subset by blast
next
  case False
  then obtain a b where "(a, b) \<in> parent_rel (map upd t) orgId" "(a, b) \<notin> parent_rel t orgId" by auto
  with relinked_edge [OF assms(1)] have np: "np = Some b" "b \<noteq> ''''" "orgId = fo_orgId ex" "a = fo_uid ex"
    and "folder_findByUid t orgId b \<noteq> None" "(fo_uid ex, b) \<notin> parent_rel t orgId" by blast+
  then have "acyclic (insert (fo_uid ex, b) (parent_rel t orgId))" using assms(2,3) by auto
  moreover have "parent_rel (map upd t) orgId \<subseteq> insert (fo_uid ex, b) (parent_rel t orgId)"
  proof (rule subrelI)
    fix c d assume "(c, d) \<in> parent_rel (map upd t) orgId"
    then show "(c, d) \<in> insert (fo_uid ex, b) (parent_rel t orgId)"
      using relinked_edge [OF assms(1), of c d orgId] np(1) by auto
  qed
  ultimately show ?thesis by (rule acyclic_subset)
qed

lemma relinked_orphans:
  assumes r: "relinked upd t ex np" and "no_orphans t"
    and np: "truthy np \<Longrightarrow> folder_findByUid t (fo_orgId ex) (the np) \<noteq> None"
  shows "no_orphans (map upd t)"
  unfolding no_orphans_def
proof (intro ballI impI)
  fix y assume "y \<in> set (map upd t)" and y: "truthy (fo_parentUid y)"
  then obtain x where x: "x \<in> set t" "y = upd x" by auto
  then have px: "fo_parentUid y = (if x = ex then np else fo_parentUid x)" "fo_orgId y = fo_orgId x"
    using r by (auto simp: relinked_def)
  let ?x = "x\<lparr>fo_parentUid := if x = ex then np else fo_parentUid x\<rparr>"
  have "parent_of t (fo_orgId x) ?x \<noteq> None"
  proof (cases "x = ex")
    case True
    then show ?thesis using np y px by (auto simp: parent_of_def)
  next
    case False
    then have "parent_of t (fo_orgId x) ?x = parent_of t (fo_orgId x) x" by (simp add: parent_of_def)
    then show ?thesis using assms(2) x y px False by (auto simp: no_orphans_def)
  qed
  then show "parent_of (map upd t) (fo_orgId y) y \<noteq> None"
    using relinked_parent [OF r x(1), of "fo_orgId x"] x px by (metis option.map_disc_iff)
qed

lemma update_relinks:
  assumes up: "folder_update users now i patch t = Inr (res, t')" and ids: "distinct (map fo_id t)"
  shows "t' = t \<or> (\<exists>upd ex np. t' = map upd t \<and> relinked upd t ex np
     \<and> (np = fo_parentUid ex \<or> np = None
        \<or> (\<exists>p. np = Some p \<and> assertParentAndDepth t (fo_orgId ex) p (Some (fo_uid ex)) = Inr ())))"
proof (cases "folder_findById t i")
  case None
  with up show ?thesis by (simp add: folder_update_def)
next
  case (Some ex)
  define np where "np = coalesce (fp_parentUid patch) (fo_parentUid ex)"
  from Some have ex: "ex \<in> set t" "fo_id ex = i" by (auto simp: folder_findById_def dest: find_Some_set)
  then have only: "fo_id x = i \<longleftrightarrow> x = ex" if "x \<in> set t" for x
    using that ids by (auto simp: distinct_map inj_on_def)
  obtain f where "t' = upd_where (\<lambda>x. fo_id x = i) f t"
    and f: "\<And>x. fo_id (f x) = fo_id x" "\<And>x. fo_uid (f x) = fo_uid x" "\<And>x. fo_orgId (f x) = fo_orgId x"
      "\<And>x. fo_parentUid (f x) = np"
    and chk: "np = fo_parentUid ex \<or> np = None
       \<or> (\<exists>p. np = Some p \<and> assertParentAndDepth t (fo_orgId ex) p (Some (fo_uid ex)) = Inr ())"
    using up Some by (fastforce simp: folder_update_def Let_def np_def split: if_splits option.splits)
  then have "t' = map (\<lambda>x. if fo_id x = i then f x else x) t"
    "relinked (\<lambda>x. if fo_id x = i then f x else x) t ex np"
    using ex only by (auto simp: upd_where_def relinked_def)
  with chk show ?thesis by blast
qed

lemma update_tree_ok:
  assumes ok: "tree_ok t" and up: "folder_update users now i patch t = Inr (res, t')"
  shows "tree_ok t'"
proof -
  have uids: "distinct (map (\<lambda>f. (fo_orgId f, fo_uid f)) t)" "distinct (map fo_id t)" "no_orphans t"
    using ok by (auto simp: tree_ok_def)
  consider "t' = t" | (upd) upd ex np where "t' = map upd t" "relinked upd t ex np"
      "np = fo_parentUid ex \<or> np = None
        \<or> (\<exists>p. np = Some p \<and> assertParentAndDepth t (fo_orgId ex) p (Some (fo_uid ex)) = Inr ())"
    using update_relinks [OF up uids(2)] by blast
  then show ?thesis
  proof cases
    case upd
    then have ex: "ex \<in> set t" and keys: "map fo_id t' = map fo_id t"
      "map (\<lambda>f. (fo_orgId f, fo_uid f)) t' = map (\<lambda>f. (fo_orgId f, fo_uid f)) t"
      by (auto simp: relinked_def)
    have par: "parent_of t (fo_orgId ex) ex \<noteq> None" if "truthy (fo_parentUid ex)"
      using that ex uids(3) by (auto simp: no_orphans_def)
    have "acyclic (parent_rel t' orgId)" for orgId
      unfolding upd(1)
    proof (rule relinked_acyclic [OF upd(2)])
      show "acyclic (parent_rel t orgId)" using ok by (simp add: tree_ok_def)
      fix p assume p: "np = Some p" "p \<noteq> ''''" "orgId = fo_orgId ex"
      show "(fo_uid ex, p) \<in> parent_rel t orgId \<or> (p, fo_uid ex) \<notin> (parent_rel t orgId)\<^sup>*"
      proof (cases "np = fo_parentUid ex")
        case True
        then have "truthy (fo_parentUid ex)" using p by (simp add: truthy_def flip: True)
        then obtain g where g: "parent_of t orgId ex = Some g" using par p(3) by blast
        then have "fo_uid g = p" using parent_of_Some(1) [OF g] True p by simp
        then show ?thesis using g ex p by (auto simp: parent_rel_iff)
      next
        case False
        then show ?thesis using upd(3) p assert_avoids [OF _ uids(1)]
          by (auto simp: rtrancl_eq_or_trancl)
      qed
    qed
    moreover have "no_orphans t'"
      unfolding upd(1)
    proof (rule relinked_orphans [OF upd(2) uids(3)])
      assume "truthy np"
      then show "folder_findByUid t (fo_orgId ex) (the np) \<noteq> None"
        using upd(3) par assert_avoids [OF _ uids(1)]
        by (auto simp: parent_of_def truthy_def split: if_splits)
    qed
    ultimately show ?thesis using uids keys by (simp add: tree_ok_def)
  qed (use ok in simp)
qed

text \<open>The descendants found are closed under children.\<close>

definition below :: "folder list \<Rightarrow> string \<Rightarrow> string set \<Rightarrow> string set" where
  "below t orgId us = {fo_uid f |f. f \<in> set t \<and> fo_orgId f = orgId \<and> (\<exists>p\<in>us. fo_parentUid f = Some p)}"

lemma children_below: "fo_uid ` set (listChildren t orgId (Some p)) = below t orgId {p}"
  by (auto simp: listChildren_def below_def)

lemma below_Un: "below t orgId (A \<union> B) = below t orgId A \<union> below t orgId B"
  by (auto simp: below_def)

lemma below_mono: "A \<subseteq> B \<Longrightarrow> below t orgId A \<subseteq> below t orgId B"
  by (auto simp: below_def)

lemma below_empty [simp]: "below t orgId {} = {}"
  by (simp add: below_def)

lemma descend_closed:
  "below t orgId ((insert u (set out)) - set stack) \<subseteq> set out \<Longrightarrow> set stack \<subseteq> insert u (set out) \<Longrightarrow>
   set out \<subseteq> set (descend t orgId (out, stack))
     \<and> below t orgId (insert u (set (descend t orgId (out, stack)))) \<subseteq> set (descend t orgId (out, stack))"
proof (induction t orgId "(out, stack)" arbitrary: out stack rule: descend.induct)
  case (2 t orgId out current stack)
  obtain out' stack' where v: "fold visit_child (listChildren t orgId (Some current)) (out, stack) = (out', stack')" by fastforce
  note w = visit_children [OF v, unfolded children_below]
  have "insert u (set out') - set stack' \<subseteq> (insert u (set out) - set (current # stack)) \<union> {current}" using w by auto
  from below_mono [OF this, of t orgId] have "below t orgId (insert u (set out') - set stack') \<subseteq> set out \<union> below t orgId {current}"
    unfolding below_Un using 2(2) by blast
  then have "below t orgId (insert u (set out') - set stack') \<subseteq> set out'" using w by simp
  moreover have "set stack' \<subseteq> insert u (set out')" using w 2(3) by auto
  ultimately show ?case using 2(1) [of out' stack'] v w by auto
qed simp

lemma descendants_closed:
  assumes "f \<in> set t" "fo_orgId f = orgId" "fo_parentUid f = Some p" "p = u \<or> p \<in> set (listDescendantUids t orgId u)"
  shows "fo_uid f \<in> set (listDescendantUids t orgId u)"
  using descend_closed [of t orgId u "[]" "[u]"] assms by (auto simp: listDescendantUids_def below_def)

lemma fold_empty_folders: "fd_folders (fold (empty_folder orgId) us d) = fd_folders d"
  by (induction us arbitrary: d) (auto simp: empty_folder_def Let_def split: option.splits)

lemma fold_drop_folders:
  "fd_folders (fold (drop_folder orgId) us d) = filter (\<lambda>f. \<not> (fo_orgId f = orgId \<and> fo_uid f \<in> set us)) (fd_folders d)"
  by (induction us arbitrary: d) (auto simp: drop_folder_def del_where_def intro!: filter_cong)

lemma service_delete_Inr:
  assumes "folder_service_delete orgId u force d = Inr d'"
  shows "d' = fold (drop_folder orgId) (rev (allUids (fd_folders d) orgId u)) (fold (empty_folder orgId) (allUids (fd_folders d) orgId u) d)"
  using assms by (auto simp: folder_service_delete_def Let_def split: option.splits if_splits)

lemma service_delete_folders:
  assumes "folder_service_delete orgId u force d = Inr d'"
  shows "fd_folders d' = filter (\<lambda>f. \<not> (fo_orgId f = orgId
     \<and> (fo_uid f = u \<or> fo_uid f \<in> set (listDescendantUids (fd_folders d) orgId u)))) (fd_folders d)"
  using service_delete_Inr [OF assms] by (simp add: fold_drop_folders fold_empty_folders set_allUids)

lemma delete_tree_ok:
  assumes ok: "tree_ok (fd_folders d)" and del: "folder_service_delete orgId u force d = Inr d'"
  shows "tree_ok (fd_folders d')"
proof -
  let ?t = "fd_folders d" and ?t' = "fd_folders d'"
  let ?gone = "\<lambda>f. fo_orgId f = orgId \<and> (fo_uid f = u \<or> fo_uid f \<in> set (listDescendantUids ?t orgId u))"
  note t' = service_delete_folders [OF del]
  have uids: "distinct (map (\<lambda>f. (fo_orgId f, fo_uid f)) ?t')" "distinct (map fo_id ?t')"
    using ok by (auto simp: t' tree_ok_def distinct_map_filter)
  have keep: "parent_of ?t' (fo_orgId f) f = parent_of ?t (fo_orgId f) f" if f: "f \<in> set ?t'" for f
  proof (cases "parent_of ?t (fo_orgId f) f")
    case (Some g)
    note p = parent_of_Some [OF Some]
    have "\<not> ?gone g" using descendants_closed [of f ?t orgId "fo_uid g" u] f p by (auto simp: t')
    then have "folder_findByUid ?t' (fo_orgId g) (fo_uid g) = Some g"
      using p(3) by (intro folder_findByUid_mem uids) (simp add: t')
    then show ?thesis using Some p by (auto simp: parent_of_def truthy_def split: if_splits)
  next
    case None
    then show ?thesis by (auto simp: t' parent_of_def folder_findByUid_def find_None_set split: if_splits)
  qed
  have "parent_rel ?t' org \<subseteq> parent_rel ?t org" for org
  proof (rule subrelI)
    fix a b assume "(a, b) \<in> parent_rel ?t' org"
    then obtain f g where "f \<in> set ?t'" "fo_orgId f = org" "fo_uid f = a" "parent_of ?t' org f = Some g" "fo_uid g = b"
      by (auto simp: parent_rel_iff)
    moreover from this have "f \<in> set ?t" "parent_of ?t org f = Some g" using keep [of f] by (auto simp: t')
    ultimately show "(a, b) \<in> parent_rel ?t org" by (auto simp: parent_rel_iff)
  qed
  then have "acyclic (parent_rel ?t' org)" for org using ok by (auto simp: tree_ok_def intro: acyclic_subset)
  moreover have "no_orphans ?t'" using ok keep by (auto simp: no_orphans_def tree_ok_def t')
  ultimately show ?thesis using uids by (simp add: tree_ok_def)
qed

text \<open>
  The life of the table: creates and updates of the repository with any arguments, and the
  deletions of the folder service, forced or not.  The repository's own delete of a single row
  is called from nowhere in the program.
\<close>

inductive folder_step :: "folder list \<Rightarrow> folder list \<Rightarrow> bool" where
  create: "folder_create orgs users fresh now input t = Inr (row, t') \<Longrightarrow> folder_step t t'"
| update: "folder_update users now i patch t = Inr (res, t') \<Longrightarrow> folder_step t t'"
| delete: "folder_service_delete orgId u force d = Inr d' \<Longrightarrow> folder_step (fd_folders d) (fd_folders d')"

inductive_cases folder_stepE: "folder_step t t'"

lemma rtranclp_two_steps: "r x y \<Longrightarrow> r y z \<Longrightarrow> r\<^sup>*\<^sup>* x z"
  by (meson r_into_rtranclp rtranclp.rtrancl_into_rtrancl)

lemma tree_ok_Nil: "tree_ok []"
  by (simp add: tree_ok_def no_orphans_def parent_rel_def acyclic_def)

interpretation folders: invariant_system "\<lambda>t. t = []" folder_step tree_ok
proof unfold_locales
  show "tree_ok t" if "t = []" for t using that tree_ok_Nil by simp
  show "tree_ok t'" if "folder_step t t'" "tree_ok t" for t t'
    using that by (auto elim!: folder_stepE intro: create_tree_ok update_tree_ok delete_tree_ok)
qed

text \<open>
  C32. The folder forest: from the empty table, creates and updates of the repository and
  deletions through the folder service, in any order, keep identifiers unique, every parent
  link resolved and every organisation's parent relation free of cycles.
\<close>

theorem folder_forest_invariant:
  assumes "folder_step\<^sup>*\<^sup>* [] t"
  shows "tree_ok t"
  using folders.reachable_inv [OF refl assms] .

definition mk_folder :: "string \<Rightarrow> string option \<Rightarrow> new_folder" where
  "mk_folder u p = \<lparr>nf_id = Some u, nf_uid = u, nf_orgId = ''o'', nf_title = u, nf_description = None,
     nf_parentUid = p, nf_createdBy = None, nf_updatedBy = None, nf_source = None, nf_provenance = None\<rparr>"

definition mk_row :: "string \<Rightarrow> string option \<Rightarrow> folder" where
  "mk_row u p = \<lparr>fo_id = u, fo_uid = u, fo_orgId = ''o'', fo_title = u, fo_description = None,
     fo_parentUid = p, fo_created = 0, fo_updated = 0, fo_createdBy = None, fo_updatedBy = None,
     fo_source = ''manual'', fo_provenance = None\<rparr>"

theorem folder_forest_invariant_witness:
  "folder_step\<^sup>*\<^sup>* [] [mk_row ''a'' None, mk_row ''b'' (Some ''a'')]
     \<and> tree_ok [mk_row ''a'' None, mk_row ''b'' (Some ''a'')]"
proof -
  have "folder_create [''o''] [] ''x'' 0 (mk_folder ''a'' None) [] = Inr (mk_row ''a'' None, [mk_row ''a'' None])"
    by (simp add: folder_create_def mk_folder_def mk_row_def truthy_def user_known_def Let_def)
  moreover have "folder_create [''o''] [] ''x'' 0 (mk_folder ''b'' (Some ''a'')) [mk_row ''a'' None] =
      Inr (mk_row ''b'' (Some ''a''), [mk_row ''a'' None, mk_row ''b'' (Some ''a'')])"
    by (simp add: folder_create_def mk_folder_def mk_row_def truthy_def user_known_def
        assertParentAndDepth_def folder_findByUid_def assert_walk.simps parent_of_def Let_def)
  ultimately have "folder_step\<^sup>*\<^sup>* [] [mk_row ''a'' None, mk_row ''b'' (Some ''a'')]"
    using folder_step.create rtranclp_two_steps [of folder_step] by blast
  then show ?thesis using folder_forest_invariant by blast
qed

text \<open>
  A delete of a single row would break the forest: with the row of \<^verbatim>\<open>a\<close> gone and its child
  \<^verbatim>\<open>b\<close> left behind, a new \<^verbatim>\<open>a\<close> may be created below \<^verbatim>\<open>b\<close>, and the two are each other's parent.
\<close>

theorem row_delete_allows_cycle:
  "\<exists>t. folder_create [''o''] [] ''x'' 0 (mk_folder ''a'' (Some ''b''))
       (snd (folder_delete ''a'' [mk_row ''a'' None, mk_row ''b'' (Some ''a'')])) = Inr (mk_row ''a'' (Some ''b''), t)
     \<and> (''a'', ''a'') \<in> (parent_rel t ''o'')\<^sup>+"
proof -
  let ?b = "mk_row ''b'' (Some ''a'')" and ?a = "mk_row ''a'' (Some ''b'')"
  have "folder_create [''o''] [] ''x'' 0 (mk_folder ''a'' (Some ''b''))
       (snd (folder_delete ''a'' [mk_row ''a'' None, ?b])) = Inr (?a, [?b, ?a])"
    by (simp add: folder_create_def mk_folder_def mk_row_def truthy_def user_known_def folder_delete_def folder_findById_def del_where_def
        assertParentAndDepth_def folder_findByUid_def assert_walk.simps parent_of_def Let_def)
  moreover have "(''a'', ''b'') \<in> parent_rel [?b, ?a] ''o''" "(''b'', ''a'') \<in> parent_rel [?b, ?a] ''o''"
    by (auto simp: parent_rel_iff mk_row_def parent_of_def folder_findByUid_def truthy_def)
  ultimately show ?thesis by (meson trancl.intros)
qed

section \<open>What a deletion takes\<close>

text \<open>The identifiers of a folder and of everything below it.\<close>

definition subtree :: "folder list \<Rightarrow> string \<Rightarrow> string \<Rightarrow> string set" where
  "subtree t orgId u = {v. (v, u) \<in> {(fo_uid f, p) |f p. f \<in> set t \<and> fo_orgId f = orgId \<and> fo_parentUid f = Some p}\<^sup>*}"

lemma descend_sound:
  "set out \<subseteq> B \<Longrightarrow> set stack \<subseteq> insert u B \<Longrightarrow> below t orgId (insert u B) \<subseteq> B \<Longrightarrow>
   set (descend t orgId (out, stack)) \<subseteq> B"
proof (induction t orgId "(out, stack)" arbitrary: out stack rule: descend.induct)
  case (2 t orgId out current stack)
  obtain out' stack' where v: "fold visit_child (listChildren t orgId (Some current)) (out, stack) = (out', stack')" by fastforce
  note w = visit_children [OF v, unfolded children_below]
  have "below t orgId {current} \<subseteq> B" using 2(3,4) by (auto simp: below_def)
  then have "set out' \<subseteq> B" "set stack' \<subseteq> insert u B" using w 2(2,3) by auto
  then show ?case using 2(1) [of out' stack'] v 2(4) by simp
qed simp

lemma subtree_below: "below t orgId (subtree t orgId u) \<subseteq> subtree t orgId u"
  by (auto simp: below_def subtree_def intro: converse_rtrancl_into_rtrancl)

lemma subtree_least:
  assumes "u \<in> B" "below t orgId B \<subseteq> B"
  shows "subtree t orgId u \<subseteq> B"
proof
  fix v assume "v \<in> subtree t orgId u"
  then have "(v, u) \<in> {(fo_uid f, p) |f p. f \<in> set t \<and> fo_orgId f = orgId \<and> fo_parentUid f = Some p}\<^sup>*"
    by (simp add: subtree_def)
  then show "v \<in> B"
    by (induction rule: converse_rtrancl_induct) (use assms in \<open>auto simp: below_def\<close>)
qed

lemma descendants_subtree: "insert u (set (listDescendantUids t orgId u)) = subtree t orgId u"
proof
  have "u \<in> subtree t orgId u" by (simp add: subtree_def)
  then show "insert u (set (listDescendantUids t orgId u)) \<subseteq> subtree t orgId u"
    using descend_sound [of "[]" "subtree t orgId u" "[u]" u t orgId] subtree_below [of t orgId u]
    by (auto simp: listDescendantUids_def insert_absorb)
  show "subtree t orgId u \<subseteq> insert u (set (listDescendantUids t orgId u))"
    using descend_closed [of t orgId u "[]" "[u]"]
    by (intro subtree_least) (auto simp: listDescendantUids_def simp del: descend.simps)
qed

lemma fold_empty_filed:
  "fd_dashboards (fold (empty_folder orgId) us d) = filter (\<lambda>x. \<not> (\<exists>u\<in>set us. filed_in orgId u x)) (fd_dashboards d)
   \<and> fd_alertRules (fold (empty_folder orgId) us d) = filter (\<lambda>x. \<not> (\<exists>u\<in>set us. filed_in orgId u x)) (fd_alertRules d)
   \<and> fd_acl (fold (empty_folder orgId) us d) =
       filter (\<lambda>x. \<not> (\<exists>u\<in>set us. \<exists>f. folder_findByUid (fd_folders d) orgId u = Some f \<and> filed_in orgId (fo_id f) x)) (fd_acl d)"
proof (induction us arbitrary: d)
  case (Cons u us)
  have keep: "fd_folders (empty_folder orgId u d) = fd_folders d"
    by (auto simp: empty_folder_def Let_def split: option.splits)
  show ?case
    using Cons.IH [of "empty_folder orgId u d"] unfolding fold_Cons comp_apply keep
    by (cases "folder_findByUid (fd_folders d) orgId u") (simp_all add: empty_folder_def [of orgId u] Let_def del_where_def)
qed simp

lemma fold_drop_filed:
  "fd_dashboards (fold (drop_folder orgId) us d) = fd_dashboards d \<and> fd_alertRules (fold (drop_folder orgId) us d) = fd_alertRules d
   \<and> fd_acl (fold (drop_folder orgId) us d) = fd_acl d"
  by (induction us arbitrary: d) (auto simp: drop_folder_def)

text \<open>
  C40. The deletion of the folder service refuses an unknown folder, and, unless forced, one with
  an alert rule anywhere in its subtree; otherwise it takes exactly the folder and everything
  below it, the dashboards and alert rules filed in those folders and their access rows, and
  leaves every other row of the four tables.
\<close>

theorem folder_delete_exact:
  "folder_service_delete orgId u force d =
     (let S = subtree (fd_folders d) orgId u;
          inside = (\<lambda>x. \<exists>v\<in>S. filed_in orgId v x);
          n = length (filter inside (fd_alertRules d))
      in if folder_findByUid (fd_folders d) orgId u = None then Inl (FE_not_found u)
         else if n > 0 \<and> \<not> force then Inl (FE_has_dependents n)
         else Inr \<lparr>fd_folders = filter (\<lambda>f. \<not> (fo_orgId f = orgId \<and> fo_uid f \<in> S)) (fd_folders d),
           fd_dashboards = filter (\<lambda>x. \<not> inside x) (fd_dashboards d),
           fd_alertRules = filter (\<lambda>x. \<not> inside x) (fd_alertRules d),
           fd_acl = filter (\<lambda>x. \<not> (\<exists>v\<in>S. \<exists>f. folder_findByUid (fd_folders d) orgId v = Some f \<and> filed_in orgId (fo_id f) x)) (fd_acl d)\<rparr>)"
proof -
  let ?us = "allUids (fd_folders d) orgId u"
  have all: "set ?us = subtree (fd_folders d) orgId u" unfolding set_allUids descendants_subtree ..
  have count: "countAlertRulesInFolders d orgId ?us =
      length (filter (\<lambda>x. \<exists>v\<in>subtree (fd_folders d) orgId u. filed_in orgId v x) (fd_alertRules d))"
    unfolding countAlertRulesInFolders_def list_ex_iff all ..
  let ?d = "fold (drop_folder orgId) (rev ?us) (fold (empty_folder orgId) ?us d)"
  have result: "r = ?d \<longleftrightarrow> fd_folders r = fd_folders ?d \<and> fd_dashboards r = fd_dashboards ?d
      \<and> fd_alertRules r = fd_alertRules ?d \<and> fd_acl r = fd_acl ?d" for r by (cases r, cases ?d) simp
  show ?thesis
    unfolding folder_service_delete_def Let_def count
    by (cases "folder_findByUid (fd_folders d) orgId u")
       (simp_all add: eq_commute [of ?d] result fold_drop_folders fold_empty_folders fold_drop_filed fold_empty_filed all)
qed

section \<open>Depth\<close>

lemma assert_walk_bound:
  "assert_walk t orgId mu pu cursor depth = Inr () \<Longrightarrow> depth \<le> FOLDER_MAX_DEPTH \<Longrightarrow>
   length (walk_ancestors k t orgId cursor) \<le> FOLDER_MAX_DEPTH - depth"
proof (induction t orgId mu pu cursor depth arbitrary: k rule: assert_walk.induct)
  case (1 t orgId mu pu cursor depth)
  show ?case
  proof (cases "parent_of t orgId cursor")
    case None
    then show ?thesis by (cases k) auto
  next
    case (Some g)
    then have w: "\<not> (truthy mu \<and> mu = Some (fo_uid g))" "\<not> depth + 1 > FOLDER_MAX_DEPTH"
      "assert_walk t orgId mu pu g (depth + 1) = Inr ()"
      using 1(2) by (auto simp: assert_walk.simps [of t orgId mu pu cursor] split: if_splits)
    have "length (walk_ancestors k' t orgId g) \<le> FOLDER_MAX_DEPTH - (depth + 1)" for k'
      using 1(1) [OF Some w(1,2,3)] w(2) by simp
    then have "Suc (length (walk_ancestors k' t orgId g)) \<le> FOLDER_MAX_DEPTH - depth" for k'
      using w(2) by (metis Suc_diff_le Suc_eq_plus1 diff_Suc_Suc not_less Suc_le_mono)
    then show ?thesis using Some by (cases k) auto
  qed
qed

lemma walk_ancestors_stable:
  "length (walk_ancestors k t orgId f) < k \<Longrightarrow> k \<le> m \<Longrightarrow>
   walk_ancestors m t orgId f = walk_ancestors k t orgId f"
proof (induction k t orgId f arbitrary: m rule: walk_ancestors.induct)
  case (2 k t orgId cursor)
  obtain m' where m: "m = Suc m'" "k \<le> m'" using 2(3) by (cases m) auto
  show ?case
  proof (cases "parent_of t orgId cursor")
    case (Some g)
    then show ?thesis using 2(1) [OF Some _ m(2)] 2(2) m(1) by simp
  qed (simp add: m(1))
qed simp

lemma walk_ancestors_append:
  assumes "tree_ok t"
  shows "f \<in> set t \<Longrightarrow> fo_orgId f = orgId \<Longrightarrow>
     walk_ancestors k (t @ [row]) orgId f = walk_ancestors k t orgId f"
proof (induction k arbitrary: f)
  case (Suc k)
  have "parent_of (t @ [row]) orgId f = parent_of t orgId f"
    using Suc.prems assms
    by (auto simp: parent_of_def findByUid_append tree_ok_def no_orphans_def split: option.splits)
  then show ?case using Suc.IH by (auto dest: parent_of_Some split: option.splits)
qed simp

text \<open>
  C33. A created folder has at most eight folders above it, and the walk to the ancestors, cut
  off after nine steps, then finds all of them: no longer walk would find more.
\<close>

theorem create_depth_bounded:
  assumes ok: "tree_ok t" and cr: "folder_create orgs users fresh now input t = Inr (row, t')"
  shows "length (listAncestors t' (fo_orgId row) (fo_uid row)) \<le> FOLDER_MAX_DEPTH
     \<and> (\<forall>m\<ge>FOLDER_MAX_DEPTH + 1.
          walk_ancestors m t' (fo_orgId row) row = listAncestors t' (fo_orgId row) (fo_uid row))"
proof -
  let ?n = "FOLDER_MAX_DEPTH + 1"
  have t': "t' = t @ [row]" and row: "fo_orgId row = nf_orgId input" "fo_parentUid row = nf_parentUid input"
    and chk: "truthy (nf_parentUid input) \<longrightarrow>
       assertParentAndDepth t (nf_orgId input) (the (nf_parentUid input)) None = Inr ()"
    using cr by (auto simp: folder_create_def Let_def list_ex_iff split: if_splits)
  have "distinct (map (\<lambda>f. (fo_orgId f, fo_uid f)) t')"
    using create_tree_ok [OF ok cr] by (simp add: tree_ok_def)
  then have anc: "listAncestors t' (fo_orgId row) (fo_uid row) = walk_ancestors ?n t' (fo_orgId row) row"
    by (simp add: listAncestors_def folder_findByUid_mem t')
  have "length (walk_ancestors ?n t' (fo_orgId row) row) \<le> FOLDER_MAX_DEPTH"
  proof (cases "parent_of t' (fo_orgId row) row")
    case (Some g)
    then have tr: "truthy (nf_parentUid input)" using row by (auto simp: parent_of_def split: if_splits)
    have "folder_findByUid t (nf_orgId input) (the (nf_parentUid input)) = Some g"
      using Some chk tr row
      by (auto simp: t' parent_of_def findByUid_append assertParentAndDepth_def split: option.splits if_splits)
    then have "g \<in> set t" "assert_walk t (nf_orgId input) None (the (nf_parentUid input)) g 1 = Inr ()"
      using chk tr by (auto simp: assertParentAndDepth_def truthy_def dest: folder_findByUid_Some)
    then have "length (walk_ancestors k t (fo_orgId row) g) \<le> FOLDER_MAX_DEPTH - 1" for k
      using assert_walk_bound row by (metis FOLDER_MAX_DEPTH_def one_le_numeral)
    moreover have "walk_ancestors k t' (fo_orgId row) g = walk_ancestors k t (fo_orgId row) g" for k
      unfolding t' by (rule walk_ancestors_append [OF ok \<open>g \<in> set t\<close> parent_of_Some(4) [OF Some]])
    ultimately have "length (walk_ancestors FOLDER_MAX_DEPTH t' (fo_orgId row) g) \<le> FOLDER_MAX_DEPTH - 1"
      by simp
    then show ?thesis using Some by (simp add: FOLDER_MAX_DEPTH_def [THEN arg_cong, of "\<lambda>n. n - 1"])
       (simp add: FOLDER_MAX_DEPTH_def)
  qed simp
  moreover from this have "walk_ancestors m t' (fo_orgId row) row = walk_ancestors ?n t' (fo_orgId row) row"
    if "m \<ge> ?n" for m
    by (intro walk_ancestors_stable that) (simp del: walk_ancestors.simps)
  ultimately show ?thesis unfolding anc by blast
qed

theorem create_depth_bounded_witness:
  "length (listAncestors [mk_row ''a'' None, mk_row ''b'' (Some ''a'')] ''o'' ''b'') \<le> FOLDER_MAX_DEPTH"
proof -
  have "folder_create [''o''] [] ''x'' 0 (mk_folder ''b'' (Some ''a'')) [mk_row ''a'' None] =
      Inr (mk_row ''b'' (Some ''a''), [mk_row ''a'' None, mk_row ''b'' (Some ''a'')])"
    by (simp add: folder_create_def mk_folder_def mk_row_def truthy_def user_known_def
        assertParentAndDepth_def folder_findByUid_def assert_walk.simps parent_of_def Let_def)
  moreover have "tree_ok [mk_row ''a'' None]"
    by (auto simp: tree_ok_def no_orphans_def parent_rel_def acyclic_def mk_row_def truthy_def parent_of_def)
  ultimately show ?thesis
    using create_depth_bounded [of "[mk_row ''a'' None]" "[''o'']" "[]" "''x''" 0]
    by (fastforce simp: mk_row_def)
qed


definition branch :: "char \<Rightarrow> folder list" where
  "branch c = mk_row [c, CHR ''1''] None #
     map (\<lambda>(p, q). mk_row [c, q] (Some [c, p])) (zip ''12345678'' ''23456789'')"

definition move_to :: "string \<Rightarrow> folder_patch" where
  "move_to p = \<lparr>fp_title = None, fp_description = None, fp_parentUid = Some (Some p), fp_updatedBy = None\<rparr>"

text \<open>
  A move looks only at the folders above the new parent, not at what hangs below the moved
  folder: a folder with an eight-level subtree may be moved under the eighth level of another
  branch, and the walk to the ancestors then misses the top of the branch, so that a grant
  there no longer reaches the moved folders.
\<close>

theorem move_ignores_subtree:
  "\<exists>t' res. folder_update [] 1 ''b1'' (move_to ''a8'') (branch CHR ''a'' @ branch CHR ''b'') = Inr (res, t')
     \<and> length (walk_ancestors 20 t' ''o'' (mk_row ''b9'' (Some ''b8''))) = 16
     \<and> ''a1'' \<in> fo_uid ` set (walk_ancestors 20 t' ''o'' (mk_row ''b9'' (Some ''b8'')))
     \<and> ''a1'' \<notin> fo_uid ` set (listAncestors t' ''o'' ''b9'')"
proof -
  have b: "isl (folder_update [] 1 ''b1'' (move_to ''a8'') (branch CHR ''a'' @ branch CHR ''b'')) = False"
    by code_simp
  have "let t' = snd (projr (folder_update [] 1 ''b1'' (move_to ''a8'') (branch CHR ''a'' @ branch CHR ''b'')))
     in length (walk_ancestors 20 t' ''o'' (mk_row ''b9'' (Some ''b8''))) = 16
       \<and> ''a1'' \<in> set (map fo_uid (walk_ancestors 20 t' ''o'' (mk_row ''b9'' (Some ''b8''))))
       \<and> ''a1'' \<notin> set (map fo_uid (listAncestors t' ''o'' ''b9''))"
    by code_simp
  with b show ?thesis
    by (cases "folder_update [] 1 ''b1'' (move_to ''a8'') (branch CHR ''a'' @ branch CHR ''b'')")
       (auto simp: Let_def)
qed

end
