(* ===== verification/Access_Control.thy ===== *)
theory Access_Control
  imports Folders Actions_Catalog
begin

text \<open>
  The decision point of the gateway: the scope resolvers
  (\<^verbatim>\<open>packages/api-gateway/src/rbac/resolvers\<close>), the legacy dashboard ACL
  (\<^verbatim>\<open>dashboard-acl-repository.ts\<close>, \<^verbatim>\<open>dashboard-acl-service.ts\<close>), the
  \<^verbatim>\<open>AccessControlService\<close> (\<^verbatim>\<open>accesscontrol-service.ts\<close>) and the
  \<^verbatim>\<open>requirePermission\<close> middleware.  The service reads the scopes of an evaluator back from
  its rendered string; the two regular expressions it uses are deterministic scanners here.
  The results: resolution of permissions is exactly the union of the four sources, the coarse
  scan finds every scope whose resolver matters, so that evaluation is mutation by the full
  registry, a grant on an ancestor folder reaches the dashboards below, and what the legacy
  fallback may and may not decide.
\<close>

section \<open>Legacy dashboard ACL\<close>

record acl_row =
  al_id :: string
  al_orgId :: string
  al_dashboardId :: "string option"
  al_folderId :: "string option"
  al_userId :: "string option"
  al_teamId :: "string option"
  al_role :: "string option"
  al_permission :: int
  al_created :: int
  al_updated :: int

definition acl_create ::
  "string list \<Rightarrow> string \<Rightarrow> int \<Rightarrow> acl_row \<Rightarrow> acl_row list \<Rightarrow> (acl_row \<times> acl_row list) result" where
  "acl_create orgs i now input t =
     (if (if truthy (al_userId input) then 1 else 0) + (if truthy (al_teamId input) then 1 else 0)
         + (if truthy (al_role input) then 1 else (0 :: nat)) \<noteq> 1
      then Inl ''[DashboardAclRepository] exactly one of (userId, teamId, role) must be set''
      else if truthy (al_dashboardId input) \<and> truthy (al_folderId input)
      then Inl ''[DashboardAclRepository] an ACL row targets either dashboardId or folderId, not both''
      else if \<not> truthy (al_dashboardId input) \<and> \<not> truthy (al_folderId input)
      then Inl ''[DashboardAclRepository] one of dashboardId / folderId is required''
      else let row = input\<lparr>al_id := i, al_created := now, al_updated := now\<rparr>
           in if list_ex (\<lambda>r. al_id r = i) t then Inl unique_failed
              else if al_orgId input \<notin> set orgs then Inl fk_failed
              else Inr (row, t @ [row]))"

definition acl_listByDashboard :: "acl_row list \<Rightarrow> string \<Rightarrow> acl_row list" where
  "acl_listByDashboard t d = filter (\<lambda>r. al_dashboardId r = Some d) t"

definition acl_listByFolder :: "acl_row list \<Rightarrow> string \<Rightarrow> acl_row list" where
  "acl_listByFolder t f = filter (\<lambda>r. al_folderId r = Some f) t"

definition acl_listByUser :: "acl_row list \<Rightarrow> string \<Rightarrow> string \<Rightarrow> acl_row list" where
  "acl_listByUser t orgId u = filter (\<lambda>r. al_orgId r = orgId \<and> al_userId r = Some u) t"

definition acl_listByTeam :: "acl_row list \<Rightarrow> string \<Rightarrow> string \<Rightarrow> acl_row list" where
  "acl_listByTeam t orgId u = filter (\<lambda>r. al_orgId r = orgId \<and> al_teamId r = Some u) t"

definition acl_delete :: "string \<Rightarrow> acl_row list \<Rightarrow> bool \<times> acl_row list" where
  "acl_delete i t =
     (if List.find (\<lambda>r. al_id r = i) t = None then (False, t)
      else (True, del_where (\<lambda>r. al_id r = i) t))"

definition acl_deleteByDashboard :: "string \<Rightarrow> acl_row list \<Rightarrow> nat \<times> acl_row list" where
  "acl_deleteByDashboard d t =
     (length (filter (\<lambda>r. al_dashboardId r = Some d) t), del_where (\<lambda>r. al_dashboardId r = Some d) t)"

definition acl_deleteByFolder :: "string \<Rightarrow> acl_row list \<Rightarrow> nat \<times> acl_row list" where
  "acl_deleteByFolder f t =
     (length (filter (\<lambda>r. al_folderId r = Some f) t), del_where (\<lambda>r. al_folderId r = Some f) t)"

section \<open>Identities and the database\<close>

record identity =
  id_userId :: string
  id_orgId :: string
  id_orgRole :: string
  id_isServerAdmin :: bool
  id_permissions :: "permission list option"

text \<open>
  What the service reads: the role tables, the folders, the ACL rows, and the folder of a
  dashboard (a query on the \<^verbatim>\<open>dashboards\<close> table) and of an alert rule.
\<close>

record ac_world =
  w_rbac :: rbac_db
  w_folders :: "folder list"
  w_acl :: "acl_row list"
  w_dashboardFolder :: "string \<Rightarrow> string \<Rightarrow> string option"
  w_ruleFolder :: "string \<Rightarrow> string \<Rightarrow> string option"

definition getForDashboard :: "ac_world \<Rightarrow> string \<Rightarrow> string \<Rightarrow> (acl_row \<times> string option) list" where
  "getForDashboard w orgId dashboardUid =
     map (\<lambda>r. (r, None)) (acl_listByDashboard (w_acl w) dashboardUid)
     @ (case w_dashboardFolder w orgId dashboardUid of
          None \<Rightarrow> []
        | Some folderUid \<Rightarrow>
            if folderUid = '''' then []
            else case folder_findByUid (w_folders w) orgId folderUid of
              None \<Rightarrow> []
            | Some f \<Rightarrow>
                concat (map (\<lambda>g. map (\<lambda>r. (r, Some (fo_uid g))) (acl_listByFolder (w_acl w) (fo_id g)))
                  (f # listAncestors (w_folders w) orgId folderUid)))"

definition grantsAtLeast :: "ac_world \<Rightarrow> string \<Rightarrow> string \<Rightarrow> identity \<Rightarrow> int \<Rightarrow> bool" where
  "grantsAtLeast w orgId dashboardUid ident requiredLevel =
     (let entries = getForDashboard w orgId dashboardUid;
          teamIds = map tm_teamId
            (team_member_listTeamsForUser (w_rbac w) (id_userId ident) (Some orgId))
      in entries \<noteq> [] \<and> list_ex (\<lambda>(e, _). al_permission e \<ge> requiredLevel
           \<and> (truthy (al_userId e) \<and> al_userId e = Some (id_userId ident)
              \<or> truthy (al_teamId e) \<and> the (al_teamId e) \<in> set teamIds
              \<or> truthy (al_role e) \<and> al_role e = Some (id_orgRole ident))) entries)"

section \<open>Scope resolvers\<close>

text \<open>
  The optional dependencies of the registry; a lookup that throws is caught and leaves the
  scopes collected so far, which \<^const>\<open>None\<close> of the lookup's result models.
\<close>

record resolver_deps =
  rd_orgId :: string
  rd_folders :: "(string \<Rightarrow> string \<Rightarrow> folder list option) option"
  rd_dashboardFolderUid :: "(string \<Rightarrow> string \<Rightarrow> string option option) option"
  rd_alertRuleFolderUid :: "(string \<Rightarrow> string \<Rightarrow> string option option) option"

definition folder_scope :: "string \<Rightarrow> string" where
  "folder_scope u = ''folders:uid:'' @ u"

definition folder_chain ::
  "resolver_deps \<Rightarrow> (string \<Rightarrow> string \<Rightarrow> string option option) option \<Rightarrow> string \<Rightarrow> string list" where
  "folder_chain deps lkp u =
     (case (lkp, rd_folders deps) of
        (Some f, Some anc) \<Rightarrow>
          (case f (rd_orgId deps) u of
             Some (Some folderUid) \<Rightarrow>
               if folderUid = '''' then []
               else folder_scope folderUid #
                 (case anc (rd_orgId deps) folderUid of None \<Rightarrow> []
                  | Some fs \<Rightarrow> map (\<lambda>a. folder_scope (fo_uid a)) fs)
           | _ \<Rightarrow> [])
      | _ \<Rightarrow> [])"

definition buildDashboardsResolver :: "resolver_deps \<Rightarrow> string \<Rightarrow> string list" where
  "buildDashboardsResolver deps sc =
     (let parsed = parseScope sc in
      if ps_kind parsed \<noteq> ''dashboards'' then [sc]
      else js_uniq ([sc, ''dashboards:*'', ''dashboards:uid:*'']
        @ (if ps_attribute parsed = ''uid'' \<and> ps_identifier parsed \<noteq> ''*''
           then folder_chain deps (rd_dashboardFolderUid deps) (ps_identifier parsed)
                @ [''folders:*'', ''folders:uid:*'']
           else [])))"

definition buildFoldersResolver :: "resolver_deps \<Rightarrow> string \<Rightarrow> string list" where
  "buildFoldersResolver deps sc =
     (let parsed = parseScope sc in
      if ps_kind parsed \<noteq> ''folders'' then [sc]
      else js_uniq ([sc, ''folders:*'', ''folders:uid:*'']
        @ (case rd_folders deps of
             Some anc \<Rightarrow>
               if ps_attribute parsed = ''uid'' \<and> ps_identifier parsed \<noteq> ''*''
               then case anc (rd_orgId deps) (ps_identifier parsed) of None \<Rightarrow> []
                    | Some fs \<Rightarrow> map (\<lambda>f. folder_scope (fo_uid f)) fs
               else []
           | None \<Rightarrow> [])))"

definition buildAlertRulesResolver :: "resolver_deps \<Rightarrow> string \<Rightarrow> string list" where
  "buildAlertRulesResolver deps sc =
     (let parsed = parseScope sc in
      if ps_kind parsed \<noteq> ''alert.rules'' then [sc]
      else js_uniq ([sc, ''alert.rules:*'', ''alert.rules:uid:*'', ''folders:*'', ''folders:uid:*'']
        @ (if ps_attribute parsed = ''uid'' \<and> ps_identifier parsed \<noteq> ''*''
           then folder_chain deps (rd_alertRuleFolderUid deps) (ps_identifier parsed)
           else [])))"

text \<open>The flat kinds: connectors, users, teams and service accounts.\<close>

definition flat_resolver :: "string \<Rightarrow> string \<Rightarrow> string \<Rightarrow> string list" where
  "flat_resolver kind attr sc =
     (if ps_kind (parseScope sc) \<noteq> kind then [sc]
      else js_uniq [sc, kind @ '':*'', kind @ '':'' @ attr @ '':*''])"

definition scope_kind_of :: "string \<Rightarrow> string" where
  "scope_kind_of sc = takeWhile (\<lambda>c. c \<noteq> CHR '':'') sc"

definition registry_resolve :: "resolver_deps \<Rightarrow> string \<Rightarrow> string list" where
  "registry_resolve deps sc =
     (if sc = '''' \<or> sc = ''*'' then [sc]
      else let kind = scope_kind_of sc in
        if kind = ''dashboards'' then buildDashboardsResolver deps sc
        else if kind = ''folders'' then buildFoldersResolver deps sc
        else if kind = ''connectors'' then flat_resolver ''connectors'' ''uid'' sc
        else if kind = ''users'' then flat_resolver ''users'' ''id'' sc
        else if kind = ''teams'' then flat_resolver ''teams'' ''id'' sc
        else if kind = ''serviceaccounts'' then flat_resolver ''serviceaccounts'' ''id'' sc
        else if kind = ''alert.rules'' then buildAlertRulesResolver deps sc
        else [sc])"

section \<open>Reading an evaluator's string back\<close>

definition re_lower :: "char \<Rightarrow> bool" where
  "re_lower c \<longleftrightarrow> CHR ''a'' \<le> c \<and> c \<le> CHR ''z''"

definition re_kind_char :: "char \<Rightarrow> bool" where
  "re_kind_char c \<longleftrightarrow> re_lower c \<or> CHR ''0'' \<le> c \<and> c \<le> CHR ''9'' \<or> c = CHR ''.''"

definition re_sep :: "char \<Rightarrow> bool" where
  "re_sep c \<longleftrightarrow> js_ws c \<or> c \<in> {CHR '','', CHR ''('', CHR '')'', CHR ''|''}"

text \<open>
  One attempt of \<^verbatim>\<open>/[a-z][a-z0-9.]*:[^\s,()|]+/\<close> at the start of the string: the match and
  the rest.  The classes before and after the colon make greedy matching deterministic.
\<close>

definition match_scope :: "string \<Rightarrow> (string \<times> string) option" where
  "match_scope s =
     (case s of [] \<Rightarrow> None | c # cs \<Rightarrow>
        if \<not> re_lower c then None
        else let k = takeWhile re_kind_char cs; r = dropWhile re_kind_char cs
             in case r of [] \<Rightarrow> None | d # ds \<Rightarrow>
                  if d \<noteq> CHR '':'' then None
                  else let i = takeWhile (\<lambda>x. \<not> re_sep x) ds
                       in if i = [] then None
                          else Some (c # k @ d # i, dropWhile (\<lambda>x. \<not> re_sep x) ds))"

lemma match_scope_shorter: "match_scope s = Some (m, r) \<Longrightarrow> length r < length s"
proof -
  assume m: "match_scope s = Some (m, r)"
  then obtain c cs d ds where s: "s = c # cs" "dropWhile re_kind_char cs = d # ds"
    and r: "r = dropWhile (\<lambda>x. \<not> re_sep x) ds"
    by (auto simp: match_scope_def Let_def split: list.splits if_splits)
  have "length (d # ds) \<le> length cs" using length_dropWhile_le [of re_kind_char cs] s(2) by simp
  then show ?thesis using length_dropWhile_le [of "\<lambda>x. \<not> re_sep x" ds] s(1) r by simp
qed

function scan_scopes :: "string \<Rightarrow> string list" where
  "scan_scopes s =
     (case s of [] \<Rightarrow> [] | c # cs \<Rightarrow>
        (case match_scope s of
           None \<Rightarrow> scan_scopes cs
         | Some (m, r) \<Rightarrow> m # scan_scopes r))"
  by pat_completeness auto
termination
  by (relation "measure length") (auto dest: match_scope_shorter)

declare scan_scopes.simps [simp del]

definition collectScopes :: "evaluator \<Rightarrow> string list" where
  "collectScopes e = js_uniq (scan_scopes (ev_string e))"

text \<open>
  \<^verbatim>\<open>/dashboards:(read|write|delete|create)\s+on\s+dashboards:uid:([^\s,)|]+)/\<close>: one attempt at
  the start of the string, and the leftmost match.
\<close>

definition strip_prefix :: "string \<Rightarrow> string \<Rightarrow> string option" where
  "strip_prefix p s = (if js_startsWith s p then Some (drop (length p) s) else None)"

definition match_target :: "string \<Rightarrow> (string \<times> string) option" where
  "match_target s =
     Option.bind (strip_prefix ''dashboards:'' s) (\<lambda>r1.
     Option.bind (List.find (\<lambda>v. js_startsWith r1 v) [''read'', ''write'', ''delete'', ''create'']) (\<lambda>v.
       let r2 = drop (length v) r1; w1 = takeWhile js_ws r2
       in if w1 = [] then None
          else Option.bind (strip_prefix ''on'' (dropWhile js_ws r2)) (\<lambda>r3.
            if takeWhile js_ws r3 = [] then None
            else Option.bind (strip_prefix ''dashboards:uid:'' (dropWhile js_ws r3)) (\<lambda>r4.
              let u = takeWhile (\<lambda>c. \<not> js_ws c \<and> c \<notin> {CHR '','', CHR '')'', CHR ''|''}) r4
              in if u = [] then None else Some (v, u)))))"

fun exec_target :: "string \<Rightarrow> (string \<times> string) option" where
  "exec_target [] = None"
| "exec_target (c # cs) =
     (case match_target (c # cs) of Some m \<Rightarrow> Some m | None \<Rightarrow> exec_target cs)"

definition extractDashboardAclTarget :: "evaluator \<Rightarrow> (string \<times> int) option" where
  "extractDashboardAclTarget e =
     map_option (\<lambda>(v, u). (u, if v = ''read'' then 1 else 2)) (exec_target (ev_string e))"

section \<open>AccessControlService\<close>

definition role_ids :: "rbac_db \<Rightarrow> identity \<Rightarrow> string list" where
  "role_ids db ident =
     (let builtin = (if id_orgRole ident \<noteq> '''' \<and> id_orgRole ident \<noteq> ''None''
            then map bi_roleId (filter (\<lambda>m. bi_role m = id_orgRole ident)
                   (listBuiltinRoles db (id_orgId ident)))
            else []);
          admin = (if id_isServerAdmin ident
            then map bi_roleId (filter (\<lambda>m. bi_role m = ''Server Admin'') (listBuiltinRoles db ''''))
            else []);
          user = map ur_roleId (user_role_listByUser db (id_userId ident) (Some (id_orgId ident)));
          teamIds = map tm_teamId
            (team_member_listTeamsForUser db (id_userId ident) (Some (id_orgId ident)));
          team = (if teamIds = [] then []
            else map tr_roleId (team_role_listByTeams db teamIds (Some (id_orgId ident))))
      in js_uniq (builtin @ admin @ user @ team))"

definition getUserPermissions :: "rbac_db \<Rightarrow> identity \<Rightarrow> permission list" where
  "getUserPermissions db ident =
     (let roleIds = role_ids db ident in
      if roleIds = [] then []
      else dedupe_by perm_key []
        (map (\<lambda>r. \<lparr>action = pr_action r, scope = pr_scope r\<rparr>) (permission_listByRoles db roleIds)))"

text \<open>The cached list is used when present; otherwise the identity is mutated to hold it.\<close>

definition ensurePermissions :: "rbac_db \<Rightarrow> identity \<Rightarrow> permission list \<times> identity" where
  "ensurePermissions db ident =
     (case id_permissions ident of
        Some p \<Rightarrow> (p, ident)
      | None \<Rightarrow> (let p = getUserPermissions db ident in (p, ident\<lparr>id_permissions := Some p\<rparr>)))"

definition cached_resolver :: "(string \<Rightarrow> string list) \<Rightarrow> string list \<Rightarrow> string \<Rightarrow> string list" where
  "cached_resolver resolve scopesToPre s = (if s \<in> set scopesToPre then resolve s else [s])"

text \<open>
  The configuration: the resolver dependencies per organisation, whether the legacy fallback
  is wired and enabled, and whether its lookup throws.
\<close>

record ac_config =
  ac_resolvers :: "(string \<Rightarrow> resolver_deps) option"
  ac_legacyAcl :: bool
  ac_legacyEnabled :: bool
  ac_legacyThrows :: bool

definition ac_evaluate :: "ac_config \<Rightarrow> ac_world \<Rightarrow> identity \<Rightarrow> evaluator \<Rightarrow> bool \<times> identity" where
  "ac_evaluate cfg w ident e =
     (let (permissions, ident') = ensurePermissions (w_rbac w) ident;
          effective = (case ac_resolvers cfg of None \<Rightarrow> e
            | Some mk \<Rightarrow> ev_mutate (cached_resolver (registry_resolve (mk (id_orgId ident)))
                          (collectScopes e)) e)
      in (if evaluate effective permissions then True
          else if ac_legacyEnabled cfg \<and> ac_legacyAcl cfg
          then case extractDashboardAclTarget e of
                 None \<Rightarrow> False
               | Some (u, level) \<Rightarrow>
                   if ac_legacyThrows cfg then False
                   else grantsAtLeast w (id_orgId ident) u ident' level
          else False, ident'))"

fun filter_loop ::
  "ac_config \<Rightarrow> ac_world \<Rightarrow> ('a \<Rightarrow> evaluator) \<Rightarrow> 'a list \<Rightarrow> identity \<Rightarrow> 'a list \<times> identity" where
  "filter_loop cfg w build [] ident = ([], ident)"
| "filter_loop cfg w build (x # xs) ident =
     (let (ok, ident') = ac_evaluate cfg w ident (build x);
          (kept, ident'') = filter_loop cfg w build xs ident'
      in (if ok then x # kept else kept, ident''))"

definition filterByPermission ::
  "ac_config \<Rightarrow> ac_world \<Rightarrow> identity \<Rightarrow> 'a list \<Rightarrow> ('a \<Rightarrow> evaluator) \<Rightarrow> 'a list \<times> identity" where
  "filterByPermission cfg w ident items build =
     (if items = [] then ([], ident)
      else filter_loop cfg w build items (snd (ensurePermissions (w_rbac w) ident)))"

text \<open>
  The middleware: the outcome of the gate is to continue or a status code; building the
  evaluator may throw.
\<close>

datatype gate_outcome = Gate_next | Gate_status nat string

definition permissionGate ::
  "ac_config \<Rightarrow> ac_world \<Rightarrow> bool \<Rightarrow> identity option \<Rightarrow> evaluator result \<Rightarrow>
     gate_outcome \<times> identity option" where
  "permissionGate cfg w allowBootstrap auth build =
     (if allowBootstrap then (Gate_next, auth)
      else case auth of
        None \<Rightarrow> (Gate_status 401 ''authentication required'', None)
      | Some ident \<Rightarrow>
          (case build of
             Inl e \<Rightarrow> (Gate_status 500 (''permission check failed: '' @ e), auth)
           | Inr e \<Rightarrow>
               (let (allowed, ident') = ac_evaluate cfg w ident e
                in (if allowed then Gate_next
                    else Gate_status 403 (''User has no permission to '' @ ev_string e), Some ident'))))"

section \<open>Resolved permissions\<close>

text \<open>The four sources of a role: organisation role, server administration, direct and team assignment.\<close>

definition via_builtin :: "rbac_db \<Rightarrow> identity \<Rightarrow> string \<Rightarrow> bool" where
  "via_builtin db ident rid \<longleftrightarrow> (\<exists>m\<in>set (db_builtin db). bi_roleId m = rid \<and>
     (bi_orgId m = id_orgId ident \<and> bi_role m = id_orgRole ident \<and> id_orgRole ident \<notin> {'''', ''None''}
      \<or> id_isServerAdmin ident \<and> bi_orgId m = '''' \<and> bi_role m = ''Server Admin''))"

definition via_user :: "rbac_db \<Rightarrow> identity \<Rightarrow> string \<Rightarrow> bool" where
  "via_user db ident rid \<longleftrightarrow> (\<exists>r\<in>set (db_user_roles db). ur_roleId r = rid
     \<and> ur_userId r = id_userId ident \<and> ur_orgId r \<in> {id_orgId ident, ''''})"

definition via_team :: "rbac_db \<Rightarrow> identity \<Rightarrow> string \<Rightarrow> bool" where
  "via_team db ident rid \<longleftrightarrow> (\<exists>t\<in>set (db_team_roles db). tr_roleId t = rid
     \<and> tr_orgId t \<in> {id_orgId ident, ''''}
     \<and> tr_teamId t \<in> tm_teamId ` {m \<in> set (db_team_members db). tm_userId m = id_userId ident
          \<and> tm_orgId m = id_orgId ident})"

definition holds_role :: "rbac_db \<Rightarrow> identity \<Rightarrow> string \<Rightarrow> bool" where
  "holds_role db ident rid \<longleftrightarrow> via_builtin db ident rid \<or> via_user db ident rid \<or> via_team db ident rid"

lemma set_role_ids:
  assumes "id_orgId ident \<noteq> ''''"
  shows "set (role_ids db ident) = {rid. holds_role db ident rid}"
proof -
  have tr: "truthy (Some (id_orgId ident))" using assms by (simp add: truthy_def)
  have teams: "set (if ts = [] then [] else map tr_roleId (team_role_listByTeams db ts (Some (id_orgId ident)))) =
    {tr_roleId t |t. t \<in> set (db_team_roles db) \<and> tr_orgId t \<in> {id_orgId ident, ''''}
      \<and> tr_teamId t \<in> set ts}" for ts
    using tr by (auto simp: team_role_listByTeams_def)
  have members: "set (team_member_listTeamsForUser db (id_userId ident) (Some (id_orgId ident))) =
    {m \<in> set (db_team_members db). tm_userId m = id_userId ident \<and> tm_orgId m = id_orgId ident}"
    using tr by (auto simp: team_member_listTeamsForUser_def)
  have users: "set (user_role_listByUser db (id_userId ident) (Some (id_orgId ident))) =
    {r \<in> set (db_user_roles db). ur_userId r = id_userId ident \<and> ur_orgId r \<in> {id_orgId ident, ''''}}"
    using tr by (auto simp: user_role_listByUser_def)
  have builtin: "set (listBuiltinRoles db org) = {m \<in> set (db_builtin db). bi_orgId m = org}" for org
    by (auto simp: listBuiltinRoles_def)
  have b: "set (if id_orgRole ident \<noteq> '''' \<and> id_orgRole ident \<noteq> ''None''
        then map bi_roleId (filter (\<lambda>m. bi_role m = id_orgRole ident) (listBuiltinRoles db (id_orgId ident))) else [])
      \<union> set (if id_isServerAdmin ident
        then map bi_roleId (filter (\<lambda>m. bi_role m = ''Server Admin'') (listBuiltinRoles db '''')) else []) =
      {rid. via_builtin db ident rid}"
    by (auto simp: builtin via_builtin_def)
  have u: "ur_roleId ` set (user_role_listByUser db (id_userId ident) (Some (id_orgId ident))) =
      {rid. via_user db ident rid}"
    unfolding users via_user_def by auto
  have t: "{tr_roleId t |t. t \<in> set (db_team_roles db) \<and> tr_orgId t \<in> {id_orgId ident, ''''}
      \<and> tr_teamId t \<in> tm_teamId ` set (team_member_listTeamsForUser db (id_userId ident) (Some (id_orgId ident)))} =
      {rid. via_team db ident rid}"
    unfolding members via_team_def by blast
  show ?thesis
    unfolding role_ids_def Let_def set_js_uniq set_append teams set_map u t Un_assoc [symmetric] b
    by (auto simp: holds_role_def)
qed

lemma grants_of_roles:
  assumes "id_orgId ident \<noteq> ''''" and "\<forall>r\<in>set (db_perms db). CHR ''|'' \<notin> set (pr_action r)"
  shows "set (getUserPermissions db ident) =
       {\<lparr>action = pr_action r, scope = pr_scope r\<rparr> |r. r \<in> set (db_perms db) \<and> holds_role db ident (pr_roleId r)}"
proof -
  let ?ps = "map (\<lambda>r. \<lparr>action = pr_action r, scope = pr_scope r\<rparr>)
               (permission_listByRoles db (role_ids db ident))"
  have sel: "set (permission_listByRoles db (role_ids db ident)) =
      {r \<in> set (db_perms db). holds_role db ident (pr_roleId r)}"
    using set_role_ids [OF assms(1), of db] by (auto simp: permission_listByRoles_def)
  have "inj_on perm_key (set ?ps)" using assms(2) sel by (intro perm_key_inj) auto
  then have "set (dedupe_by perm_key [] ?ps) = set ?ps" by (rule set_dedupe_inj)
  moreover have "getUserPermissions db ident = dedupe_by perm_key [] ?ps"
    by (simp add: getUserPermissions_def Let_def permission_listByRoles_def)
  ultimately show ?thesis using sel by auto
qed

text \<open>
  C30. The permissions of an identity in an organisation are exactly those of the roles it holds
  through one of the four sources, each pair once; nothing of another organisation gets in.
\<close>

theorem getUserPermissions_exact:
  assumes "id_orgId ident \<noteq> ''''" and "\<forall>r\<in>set (db_perms db). CHR ''|'' \<notin> set (pr_action r)"
  shows "set (getUserPermissions db ident) =
       {\<lparr>action = pr_action r, scope = pr_scope r\<rparr> |r. r \<in> set (db_perms db) \<and> holds_role db ident (pr_roleId r)}
     \<and> distinct (getUserPermissions db ident)"
  using grants_of_roles [OF assms] dedupe_by_distinct [of perm_key "[]"]
  by (simp add: getUserPermissions_def Let_def distinct_map)

section \<open>The coarse scan finds every scope with a resolver\<close>

lemma sep_not_kind: "re_sep c \<Longrightarrow> \<not> re_lower c \<and> \<not> re_kind_char c \<and> c \<noteq> CHR '':''"
  by (auto simp: re_sep_def js_ws_def re_lower_def re_kind_char_def)

lemma match_scope_app:
  assumes "re_sep c"
  shows "match_scope (u @ c # v) = map_option (\<lambda>(m, r). (m, r @ c # v)) (match_scope u)"
proof (cases u)
  case Nil
  then show ?thesis using sep_not_kind [OF assms] by (simp add: match_scope_def)
next
  case (Cons x xs)
  have k: "takeWhile re_kind_char (xs @ c # v) = takeWhile re_kind_char xs"
    "dropWhile re_kind_char (xs @ c # v) = dropWhile re_kind_char xs @ c # v"
    using sep_not_kind [OF assms] by (simp_all add: takeWhile_tail dropWhile_append3)
  have i: "takeWhile (\<lambda>x. \<not> re_sep x) (ds @ c # v) = takeWhile (\<lambda>x. \<not> re_sep x) ds"
    "dropWhile (\<lambda>x. \<not> re_sep x) (ds @ c # v) = dropWhile (\<lambda>x. \<not> re_sep x) ds @ c # v" for ds
    using assms by (simp_all add: takeWhile_tail dropWhile_append3)
  show ?thesis
    using sep_not_kind [OF assms] k i by (auto simp: match_scope_def Cons Let_def split: list.splits)
qed

lemma scan_Nil [simp]: "scan_scopes [] = []" by (simp add: scan_scopes.simps)

lemma scan_app:
  assumes "re_sep c"
  shows "scan_scopes (u @ c # v) = scan_scopes u @ scan_scopes v"
proof (induction u rule: scan_scopes.induct)
  case (1 u)
  show ?case
  proof (cases u)
    case Nil
    then show ?thesis
      using match_scope_app [OF assms, of "[]" v]
      by (simp add: scan_scopes.simps [of "c # v"] match_scope_def [of "[]"])
  next
    case (Cons x xs)
    show ?thesis
    proof (cases "match_scope u")
      case None
      then show ?thesis
        using 1(1) [OF Cons None] match_scope_app [OF assms, of u v]
        by (simp add: Cons scan_scopes.simps [of "x # xs"] scan_scopes.simps [of "x # xs @ c # v"])
    next
      case (Some p)
      obtain m r where p: "p = (m, r)" by (cases p)
      then show ?thesis
        using Some 1(2) [OF Cons Some] match_scope_app [OF assms, of u v]
        by (simp add: Cons scan_scopes.simps [of "x # xs"] scan_scopes.simps [of "x # xs @ c # v"])
    qed
  qed
qed

lemma seps [simp]: "re_sep CHR '' ''" "re_sep CHR '',''" "re_sep CHR ''(''" "re_sep CHR '')''" "re_sep CHR ''|''"
  by (simp_all add: re_sep_def js_ws_def)

lemma scan_join: "set (scan_scopes (join_with '', '' xs)) = (\<Union>x\<in>set xs. set (scan_scopes x))"
proof (induction "'', ''" xs rule: join_with.induct)
  case (3 x y ys)
  have "scan_scopes (x @ '', '' @ z) = scan_scopes x @ scan_scopes z" for z
    using scan_app [of "CHR '',''" x "CHR '' '' # z"] scan_app [of "CHR '' ''" "[]" z] by simp
  with 3 show ?case by simp
qed simp_all

lemma scan_action:
  "set (scan_scopes (act @ '' on '' @ z)) = set (scan_scopes act) \<union> set (scan_scopes ''on'') \<union> set (scan_scopes z)"
  using scan_app [of "CHR '' ''" act "''on '' @ z"] scan_app [of "CHR '' ''" "''on''" z] by (simp add: Un_assoc)

lemma scan_wrapped:
  "set (scan_scopes (f @ ''('' @ z @ '')'')) = set (scan_scopes f) \<union> set (scan_scopes z)"
  using scan_app [of "CHR ''(''" f "z @ '')''"] scan_app [of "CHR '')''" z "[]"] by simp

text \<open>A scope the pattern matches as a whole, and the scopes a mutation resolves.\<close>

definition scannable :: "string \<Rightarrow> bool" where
  "scannable s \<longleftrightarrow> match_scope s = Some (s, [])"

fun scopes_of :: "evaluator \<Rightarrow> string set" where
  "scopes_of (ActionEvaluator act scopes) = set scopes"
| "scopes_of (ResolvedActionEvaluator act resolved) = {}"
| "scopes_of (AllEvaluator children) = (\<Union>c\<in>set children. scopes_of c)"
| "scopes_of (AnyEvaluator children) = (\<Union>c\<in>set children. scopes_of c)"

lemma scan_scannable: "scannable s \<Longrightarrow> s \<in> set (scan_scopes s)"
proof -
  assume s: "scannable s"
  then have "s \<noteq> []" by (auto simp: scannable_def match_scope_def)
  with s have "scan_scopes s = s # scan_scopes []"
    by (subst scan_scopes.simps) (auto simp: scannable_def split: list.splits)
  then show ?thesis by simp
qed

lemma collect_finds: "s \<in> scopes_of e \<Longrightarrow> scannable s \<Longrightarrow> s \<in> set (scan_scopes (ev_string e))"
proof (induction e)
  case (ActionEvaluator act scopes)
  then show ?case by (auto simp: scan_action [simplified] scan_join dest: scan_scannable)
next
  case (AllEvaluator children)
  then show ?case using scan_wrapped [of "''all''"] by (auto simp: scan_join)
next
  case (AnyEvaluator children)
  then show ?case using scan_wrapped [of "''any''"] by (auto simp: scan_join)
qed simp

lemma ev_mutate_cong:
  "(\<And>s. s \<in> scopes_of e \<Longrightarrow> r s = r' s) \<Longrightarrow> ev_mutate r e = ev_mutate r' e"
  by (induction e) auto

definition RESOLVED_KINDS :: "string set" where
  "RESOLVED_KINDS = {''dashboards'', ''folders'', ''connectors'', ''users'', ''teams'', ''serviceaccounts'',
     ''alert.rules''}"

lemma registry_other: "scope_kind_of s \<notin> RESOLVED_KINDS \<Longrightarrow> registry_resolve deps s = [s]"
  by (auto simp: registry_resolve_def RESOLVED_KINDS_def Let_def)

lemma cached_is_registry:
  assumes "\<forall>s\<in>scopes_of e. scannable s \<or> scope_kind_of s \<notin> RESOLVED_KINDS"
  shows "ev_mutate (cached_resolver (registry_resolve deps) (collectScopes e)) e =
         ev_mutate (registry_resolve deps) e"
  using assms collect_finds registry_other
  by (intro ev_mutate_cong) (force simp: cached_resolver_def collectScopes_def)

definition demo_db :: rbac_db where
  "demo_db = \<lparr>db_orgs = [''o''], db_users = [''u''], db_teams = [], db_roles = [], db_builtin = [],
     db_perms = [\<lparr>pr_id = ''p'', pr_roleId = ''r'', pr_action = ''dashboards:read'', pr_scope = ''folders:uid:top'',
                  pr_kind = ''folders'', pr_attribute = ''uid'', pr_identifier = ''top'', pr_created = 0, pr_updated = 0\<rparr>],
     db_user_roles = [\<lparr>ur_id = ''ur'', ur_orgId = ''o'', ur_userId = ''u'', ur_roleId = ''r'', ur_created = 0\<rparr>],
     db_team_roles = [], db_team_members = []\<rparr>"

definition demo_user :: identity where
  "demo_user = \<lparr>id_userId = ''u'', id_orgId = ''o'', id_orgRole = ''None'', id_isServerAdmin = False,
     id_permissions = None\<rparr>"

theorem getUserPermissions_exact_witness:
  "\<lparr>action = ''dashboards:read'', scope = ''folders:uid:top''\<rparr> \<in> set (getUserPermissions demo_db demo_user)"
proof -
  have "id_orgId demo_user \<noteq> ''''" "\<forall>r\<in>set (db_perms demo_db). CHR ''|'' \<notin> set (pr_action r)"
    by (simp_all add: demo_user_def demo_db_def)
  then show ?thesis
    using getUserPermissions_exact [of demo_user demo_db]
    by (simp add: demo_db_def demo_user_def holds_role_def via_user_def)
qed

section \<open>Evaluation\<close>

definition legacy_allows :: "ac_config \<Rightarrow> ac_world \<Rightarrow> identity \<Rightarrow> evaluator \<Rightarrow> bool" where
  "legacy_allows cfg w ident e \<longleftrightarrow> ac_legacyEnabled cfg \<and> ac_legacyAcl cfg \<and> \<not> ac_legacyThrows cfg
     \<and> (\<exists>u level. extractDashboardAclTarget e = Some (u, level)
          \<and> grantsAtLeast w (id_orgId ident) u ident level)"

lemma ensure_frame [simp]:
  "id_orgId (snd (ensurePermissions db ident)) = id_orgId ident"
  "id_userId (snd (ensurePermissions db ident)) = id_userId ident"
  "id_orgRole (snd (ensurePermissions db ident)) = id_orgRole ident"
  by (auto simp: ensurePermissions_def Let_def split: option.splits)

lemma grants_ensured [simp]:
  "grantsAtLeast w orgId u (snd (ensurePermissions db ident)) level = grantsAtLeast w orgId u ident level"
  by (simp add: grantsAtLeast_def)

lemma ac_evaluate_iff:
  "fst (ac_evaluate cfg w ident e) \<longleftrightarrow>
     evaluate (case ac_resolvers cfg of None \<Rightarrow> e
       | Some mk \<Rightarrow> ev_mutate (cached_resolver (registry_resolve (mk (id_orgId ident))) (collectScopes e)) e)
       (fst (ensurePermissions (w_rbac w) ident))
     \<or> legacy_allows cfg w ident e"
  by (cases "ensurePermissions (w_rbac w) ident")
     (use grants_ensured [of w "id_orgId ident" _ "w_rbac w" ident] in
       \<open>auto simp: ac_evaluate_def legacy_allows_def Let_def split: option.splits if_splits\<close>)

text \<open>
  C12. The service decides by the full resolver registry: reading the scopes back from the
  rendered evaluator loses none that has a resolver, as long as those scopes match the scan
  pattern (no blank, comma, bar or parenthesis); the only other way to be allowed is the
  legacy fallback.
\<close>

theorem ac_evaluate_exact:
  assumes "\<forall>s\<in>scopes_of e. scannable s \<or> scope_kind_of s \<notin> RESOLVED_KINDS"
    and "ac_resolvers cfg = Some mk"
  shows "fst (ac_evaluate cfg w ident e) \<longleftrightarrow>
     evaluate (ev_mutate (registry_resolve (mk (id_orgId ident))) e) (fst (ensurePermissions (w_rbac w) ident))
     \<or> legacy_allows cfg w ident e"
  using assms by (simp add: ac_evaluate_iff cached_is_registry)

text \<open>The dependencies wired at boot: the folder repository and the two folder lookups.\<close>

definition boot_deps :: "ac_world \<Rightarrow> string \<Rightarrow> resolver_deps" where
  "boot_deps w orgId = \<lparr>rd_orgId = orgId,
     rd_folders = Some (\<lambda>org u. Some (listAncestors (w_folders w) org u)),
     rd_dashboardFolderUid = Some (\<lambda>org u. Some (w_dashboardFolder w org u)),
     rd_alertRuleFolderUid = Some (\<lambda>org u. Some (w_ruleFolder w org u))\<rparr>"

definition demo_world :: ac_world where
  "demo_world = \<lparr>w_rbac = demo_db, w_folders = [mk_row ''top'' None, mk_row ''sub'' (Some ''top'')],
     w_acl = [], w_dashboardFolder = (\<lambda>org d. Some ''sub''), w_ruleFolder = (\<lambda>org r. None)\<rparr>"

definition boot_config :: "ac_world \<Rightarrow> ac_config" where
  "boot_config w = \<lparr>ac_resolvers = Some (boot_deps w), ac_legacyAcl = True, ac_legacyEnabled = True,
     ac_legacyThrows = False\<rparr>"

theorem ac_evaluate_exact_witness:
  "fst (ac_evaluate (boot_config demo_world) demo_world demo_user
          (ac_eval ''dashboards:read'' (OneScope ''dashboards:uid:d1'')))"
proof -
  let ?e = "ac_eval ''dashboards:read'' (OneScope ''dashboards:uid:d1'')"
  have "\<forall>s\<in>scopes_of ?e. scannable s \<or> scope_kind_of s \<notin> RESOLVED_KINDS"
  proof -
    have "scannable ''dashboards:uid:d1''" by code_simp
    then show ?thesis by (simp add: ac_eval_def)
  qed
  moreover have "ac_resolvers (boot_config demo_world) = Some (boot_deps demo_world)"
    by (simp add: boot_config_def)
  moreover have "evaluate (ev_mutate (registry_resolve (boot_deps demo_world (id_orgId demo_user))) ?e)
      (fst (ensurePermissions (w_rbac demo_world) demo_user))"
    by code_simp
  ultimately show ?thesis using ac_evaluate_exact by blast
qed

lemma plain_scannable:
  assumes "u \<noteq> []" "list_all (\<lambda>c. \<not> re_sep c) u"
  shows "scannable (''dashboards:uid:'' @ u)" "scannable (''folders:uid:'' @ u)"
proof -
  have "takeWhile (\<lambda>c. \<not> re_sep c) (v @ u) = v @ u \<and> dropWhile (\<lambda>c. \<not> re_sep c) (v @ u) = []"
    if "list_all (\<lambda>c. \<not> re_sep c) v" for v
    using assms(2) that by (auto simp: list_all_iff takeWhile_eq_all_conv dropWhile_eq_Nil_conv)
  from this [of "''uid:''"] show "scannable (''dashboards:uid:'' @ u)" "scannable (''folders:uid:'' @ u)"
    by (simp_all add: scannable_def match_scope_def re_lower_def re_kind_char_def re_sep_def js_ws_def)
qed

lemma dashboard_scope_parse:
  "parseScope (''dashboards:uid:'' @ u) = \<lparr>ps_kind = ''dashboards'', ps_attribute = ''uid'', ps_identifier = u\<rparr>"
  using parseScope_three [of "''dashboards''" "''uid''" u] by simp

text \<open>
  The folder cascade works end to end: a permission for the action on the folder of a
  dashboard, or on any folder the ancestor walk finds above it, allows the action on the
  dashboard.
\<close>

theorem folder_grant_reaches_dashboard:
  assumes "ac_resolvers cfg = Some (boot_deps w)"
    and "w_dashboardFolder w (id_orgId ident) u = Some f" "f \<noteq> ''''"
    and "g = f \<or> g \<in> fo_uid ` set (listAncestors (w_folders w) (id_orgId ident) f)"
    and "p \<in> set (fst (ensurePermissions (w_rbac w) ident))" "action p = act"
    and "scopeCovers (scope p) (folder_scope g)"
    and "u \<noteq> ''''" "u \<noteq> ''*''" "list_all (\<lambda>c. \<not> re_sep c) u"
  shows "fst (ac_evaluate cfg w ident (ac_eval act (OneScope (''dashboards:uid:'' @ u))))"
proof -
  let ?s = "''dashboards:uid:'' @ u" and ?deps = "boot_deps w (id_orgId ident)"
  have "folder_scope g \<in> set (folder_chain ?deps (rd_dashboardFolderUid ?deps) u)"
    using assms(2,3,4) by (auto simp: folder_chain_def boot_deps_def)
  then have "folder_scope g \<in> set (buildDashboardsResolver ?deps ?s)"
    using assms(9) unfolding buildDashboardsResolver_def Let_def dashboard_scope_parse by (simp del: dedupe_by.simps)
  then have "folder_scope g \<in> set (registry_resolve ?deps ?s)"
    by (simp add: registry_resolve_def scope_kind_of_def Let_def)
  then have "evaluate (ev_mutate (registry_resolve ?deps) (ac_eval act (OneScope ?s)))
      (fst (ensurePermissions (w_rbac w) ident))"
    using assms(5,6,7) by (auto simp: evaluate_satisfies ac_eval_def grants_def)
  moreover have "\<forall>s\<in>scopes_of (ac_eval act (OneScope ?s)). scannable s"
    using plain_scannable(1) [OF assms(8,10)] by (simp add: ac_eval_def)
  ultimately show ?thesis
    using assms(1) by (simp add: ac_evaluate_iff cached_is_registry)
qed

theorem folder_grant_reaches_dashboard_witness:
  "fst (ac_evaluate (boot_config demo_world) demo_world demo_user
          (ac_eval ''dashboards:read'' (OneScope (''dashboards:uid:'' @ ''d1''))))"
proof (rule folder_grant_reaches_dashboard [where f = "''sub''" and g = "''top''"
        and p = "\<lparr>action = ''dashboards:read'', scope = ''folders:uid:top''\<rparr>"])
  show "\<lparr>action = ''dashboards:read'', scope = ''folders:uid:top''\<rparr> \<in>
      set (fst (ensurePermissions (w_rbac demo_world) demo_user))"
    by code_simp
  show "''top'' = ''sub'' \<or> ''top'' \<in> fo_uid ` set (listAncestors (w_folders demo_world) (id_orgId demo_user) ''sub'')"
    by code_simp
qed (simp_all add: boot_config_def demo_world_def folder_scope_def scopeCovers_def re_sep_def js_ws_def)

section \<open>What the legacy fallback decides\<close>

text \<open>
  The target is searched in the rendered string, so its first occurrence anywhere counts.
\<close>

lemma target_at_start:
  assumes "u \<noteq> []" "list_all (\<lambda>c. \<not> re_sep c) u" "rest = [] \<or> hd rest \<in> {CHR '','', CHR '')'', CHR ''|''}"
  shows "match_target (''dashboards:read on dashboards:uid:'' @ u @ rest) = Some (''read'', u)"
proof -
  let ?P = "\<lambda>c. \<not> js_ws c \<and> c \<notin> {CHR '','', CHR '')'', CHR ''|''}"
  have "takeWhile ?P u = u" using assms(2) by (auto simp: list_all_iff re_sep_def takeWhile_eq_all_conv)
  moreover have "takeWhile ?P rest = []" using assms(3) by (cases rest) auto
  ultimately have "takeWhile ?P (u @ rest) = u"
    using assms(2) by (subst takeWhile_append2) (auto simp: list_all_iff re_sep_def)
  then show ?thesis
    using assms(1) by (simp add: match_target_def strip_prefix_def js_startsWith_def js_ws_def Let_def)
qed

text \<open>
  The legacy fallback overrides a conjunction: if a legacy row lets the caller view a
  dashboard, then the conjunction of reading that dashboard with any other requirement passes,
  whatever the requirement is and whatever permissions the caller holds.
\<close>

theorem legacy_acl_overrides_conjunction:
  assumes "ac_legacyEnabled cfg" "ac_legacyAcl cfg" "\<not> ac_legacyThrows cfg"
    and "u \<noteq> ''''" "list_all (\<lambda>c. \<not> re_sep c) u"
    and "grantsAtLeast w (id_orgId ident) u ident 1"
  shows "fst (ac_evaluate cfg w ident
     (ac_all [ac_eval ''dashboards:read'' (OneScope (''dashboards:uid:'' @ u)), other]))"
proof -
  let ?e = "ac_all [ac_eval ''dashboards:read'' (OneScope (''dashboards:uid:'' @ u)), other]"
  have str: "ev_string ?e = ''all('' @ ''dashboards:read on dashboards:uid:'' @ u @ '', '' @ ev_string other @ '')''"
    by (simp add: ac_all_def ac_eval_def)
  have "match_target (''dashboards:read on dashboards:uid:'' @ u @ '', '' @ ev_string other @ '')'') = Some (''read'', u)"
    by (rule target_at_start) (use assms in auto)
  then have "exec_target (ev_string ?e) = Some (''read'', u)"
    unfolding str by (simp add: match_target_def [of "CHR ''a'' # _"] match_target_def [of "CHR ''l'' # _"]
        match_target_def [of "CHR ''('' # _"] strip_prefix_def js_startsWith_def)
  then have "legacy_allows cfg w ident ?e"
    using assms by (simp add: legacy_allows_def extractDashboardAclTarget_def)
  then show ?thesis by (simp add: ac_evaluate_iff)
qed

definition acl_world :: ac_world where
  "acl_world = \<lparr>w_rbac = demo_db, w_folders = [],
     w_acl = [\<lparr>al_id = ''a'', al_orgId = ''o'', al_dashboardId = Some ''d1'', al_folderId = None,
               al_userId = Some ''u'', al_teamId = None, al_role = None, al_permission = 1,
               al_created = 0, al_updated = 0\<rparr>],
     w_dashboardFolder = (\<lambda>org d. None), w_ruleFolder = (\<lambda>org r. None)\<rparr>"

theorem legacy_acl_overrides_conjunction_witness:
  "fst (ac_evaluate (boot_config acl_world) acl_world demo_user
     (ac_all [ac_eval ''dashboards:read'' (OneScope (''dashboards:uid:'' @ ''d1'')),
              ac_eval ''plans:auto_edit'' (OneScope ''plans:*'')]))"
proof (rule legacy_acl_overrides_conjunction)
  show "grantsAtLeast acl_world (id_orgId demo_user) ''d1'' demo_user 1" by code_simp
qed (simp_all add: boot_config_def re_sep_def js_ws_def)

end
