(* ===== verification/Approvals.thy ===== *)
theory Approvals
  imports Access_Control
begin

text \<open>
  Approval requests: the in-memory and the SQLite repository
  (\<^verbatim>\<open>packages/data-layer/src/repository/memory/approval.ts\<close>, \<^verbatim>\<open>sqlite/approval.ts\<close>),
  the event-emitting wrapper (\<^verbatim>\<open>event-wrappers\<close>), the \<^verbatim>\<open>/api/approvals\<close>
  routes (\<^verbatim>\<open>packages/api-gateway/src/routes/approval.ts\<close>) and the search for approvers
  (\<^verbatim>\<open>services/approval-router.ts\<close>).  Times are milliseconds since the epoch; the code
  stores their ISO form, which orders the same way.  The results: in both repositories a
  request is decided at most once, and only an override changes a decision, although they disagree
  about expiry; the list route shows
  only rows the caller may read, but not all of them; approving needs a grant that covers the
  row.
\<close>

section \<open>Requests\<close>

datatype approval_status = AP_pending | AP_approved | AP_rejected | AP_expired

record approval_action =
  aa_type :: string
  aa_targetService :: string
  aa_params :: "(string \<times> json) list"

record approval_request = approval_row +
  aq_action :: approval_action
  aq_context :: "(string \<times> json) list"
  aq_status :: approval_status
  aq_createdAt :: int
  aq_expiresAt :: int
  aq_resolvedAt :: "int option"
  aq_resolvedBy :: "string option"
  aq_resolvedByRoles :: "string list option"

record submit_params =
  sp_action :: approval_action
  sp_context :: "(string \<times> json) list"
  sp_ttlMs :: "int option"
  sp_opsConnectorId :: "string option"
  sp_targetNamespace :: "string option"
  sp_requesterTeamId :: "string option"

definition new_request :: "string \<Rightarrow> int \<Rightarrow> submit_params \<Rightarrow> approval_request" where
  "new_request fresh now params =
     \<lparr>ar_id = fresh, ar_opsConnectorId = sp_opsConnectorId params,
      ar_targetNamespace = sp_targetNamespace params, ar_requesterTeamId = sp_requesterTeamId params,
      aq_action = sp_action params, aq_context = sp_context params, aq_status = AP_pending,
      aq_createdAt = now, aq_expiresAt = now + coalesce (sp_ttlMs params) 86400000,
      aq_resolvedAt = None, aq_resolvedBy = None, aq_resolvedByRoles = None\<rparr>"

text \<open>A filter lists identifiers; an absent set is the same as an empty one.\<close>

record narrow_filter =
  sf_uids :: "string list"
  sf_connectors :: "string list"
  sf_nsPairs :: "(string \<times> string) list"
  sf_teams :: "string list"

datatype scope_filter = Filter_wildcard | Filter_narrow narrow_filter

definition narrow_empty :: "narrow_filter \<Rightarrow> bool" where
  "narrow_empty f \<longleftrightarrow> sf_uids f = [] \<and> sf_connectors f = [] \<and> sf_nsPairs f = [] \<and> sf_teams f = []"

definition narrow_matches :: "narrow_filter \<Rightarrow> 'a approval_row_scheme \<Rightarrow> bool" where
  "narrow_matches f r \<longleftrightarrow> ar_id r \<in> set (sf_uids f)
     \<or> (case ar_opsConnectorId r of None \<Rightarrow> False
        | Some c \<Rightarrow> c \<in> set (sf_connectors f)
            \<or> (case ar_targetNamespace r of None \<Rightarrow> False | Some n \<Rightarrow> (c, n) \<in> set (sf_nsPairs f)))
     \<or> (case ar_requesterTeamId r of None \<Rightarrow> False | Some t \<Rightarrow> t \<in> set (sf_teams f))"

definition filter_matches :: "scope_filter option \<Rightarrow> 'a approval_row_scheme \<Rightarrow> bool" where
  "filter_matches f r = (case f of Some (Filter_narrow n) \<Rightarrow> narrow_matches n r | _ \<Rightarrow> True)"

text \<open>The status option: absent, one status, or an array (an empty array selects nothing).\<close>

datatype status_option = Status_any | Status_one approval_status | Status_in "approval_status list"

fun status_matches :: "status_option \<Rightarrow> approval_status \<Rightarrow> bool" where
  "status_matches Status_any st = True"
| "status_matches (Status_one x) st = (st = x)"
| "status_matches (Status_in xs) st = (st \<in> set xs)"

definition filter_is_empty :: "scope_filter option \<Rightarrow> bool" where
  "filter_is_empty f = (case f of Some (Filter_narrow n) \<Rightarrow> narrow_empty n | _ \<Rightarrow> False)"

section \<open>InMemoryApprovalRequestRepository\<close>

type_synonym mem_store = "(string, approval_request) js_map"

definition markExpiredIfNeeded :: "int \<Rightarrow> approval_request \<Rightarrow> mem_store \<Rightarrow> approval_request \<times> mem_store" where
  "markExpiredIfNeeded now req s =
     (if aq_status req \<noteq> AP_pending then (req, s)
      else if aq_expiresAt req \<le> now
      then (let expired = req\<lparr>aq_status := AP_expired\<rparr> in (expired, AList.update (ar_id req) expired s))
      else (req, s))"

definition mem_findById :: "int \<Rightarrow> string \<Rightarrow> mem_store \<Rightarrow> approval_request option \<times> mem_store" where
  "mem_findById now i s =
     (case map_of s i of None \<Rightarrow> (None, s)
      | Some req \<Rightarrow> (let (r, s') = markExpiredIfNeeded now req s in (Some r, s')))"

definition mem_submit :: "string \<Rightarrow> int \<Rightarrow> submit_params \<Rightarrow> mem_store \<Rightarrow> approval_request \<times> mem_store" where
  "mem_submit fresh now params s =
     (let request = new_request fresh now params in (request, AList.update fresh request s))"

fun mark_all :: "int \<Rightarrow> approval_request list \<Rightarrow> mem_store \<Rightarrow> approval_request list \<times> mem_store" where
  "mark_all now [] s = ([], s)"
| "mark_all now (req # reqs) s =
     (let (r, s') = markExpiredIfNeeded now req s; (rs, s'') = mark_all now reqs s' in (r # rs, s''))"

text \<open>Sorting is stable; newest first is the sort by the negated time.\<close>

definition mem_listPending :: "int \<Rightarrow> mem_store \<Rightarrow> approval_request list \<times> mem_store" where
  "mem_listPending now s =
     (let (rs, s') = mark_all now (map snd s) s
      in (sort_key (\<lambda>r. - aq_createdAt r) (filter (\<lambda>r. aq_status r = AP_pending) rs), s'))"

definition mem_list ::
  "int \<Rightarrow> scope_filter option \<Rightarrow> status_option \<Rightarrow> mem_store \<Rightarrow> approval_request list \<times> mem_store" where
  "mem_list now f st s =
     (if filter_is_empty f then ([], s)
      else let (rs, s') = mark_all now (if st = Status_in [] then take 1 (map snd s) else map snd s) s
           in (sort_key aq_createdAt (filter (\<lambda>r. status_matches st (aq_status r) \<and> filter_matches f r) rs), s'))"

definition mem_resolve ::
  "approval_status \<Rightarrow> int \<Rightarrow> string \<Rightarrow> string \<Rightarrow> string list option \<Rightarrow> mem_store \<Rightarrow>
     approval_request option \<times> mem_store" where
  "mem_resolve st now i by_user roles s =
     (case map_of s i of
        None \<Rightarrow> (None, s)
      | Some req \<Rightarrow>
          (let (current, s') = markExpiredIfNeeded now req s in
           if aq_status current \<noteq> AP_pending then (None, s')
           else let updated = current\<lparr>aq_status := st, aq_resolvedAt := Some now,
                      aq_resolvedBy := Some by_user, aq_resolvedByRoles := roles\<rparr>
                in (Some updated, AList.update i updated s')))"

definition mem_approve ::
  "int \<Rightarrow> string \<Rightarrow> string \<Rightarrow> string list option \<Rightarrow> mem_store \<Rightarrow> approval_request option \<times> mem_store" where
  "mem_approve = mem_resolve AP_approved"

definition mem_reject ::
  "int \<Rightarrow> string \<Rightarrow> string \<Rightarrow> string list option \<Rightarrow> mem_store \<Rightarrow> approval_request option \<times> mem_store" where
  "mem_reject = mem_resolve AP_rejected"

definition mem_override ::
  "int \<Rightarrow> string \<Rightarrow> string \<Rightarrow> string list option \<Rightarrow> mem_store \<Rightarrow> approval_request option \<times> mem_store" where
  "mem_override now i by_user roles s =
     (case map_of s i of
        None \<Rightarrow> (None, s)
      | Some req \<Rightarrow>
          (let updated = req\<lparr>aq_status := AP_approved, aq_resolvedAt := Some now,
                aq_resolvedBy := Some by_user, aq_resolvedByRoles := roles\<rparr>
           in (Some updated, AList.update i updated s)))"

section \<open>SqliteApprovalRequestRepository\<close>

text \<open>A row has the organisation column besides the fields of a request; its default is fixed.\<close>

record approval_sql_row = approval_request +
  sq_orgId :: string

definition DEFAULT_ORG :: string where "DEFAULT_ORG = ''org_main''"

definition rowToRequest :: "approval_sql_row \<Rightarrow> approval_request" where
  "rowToRequest r = approval_request.truncate r"

definition sql_findById :: "string \<Rightarrow> approval_sql_row list \<Rightarrow> approval_request option" where
  "sql_findById i t = map_option rowToRequest (List.find (\<lambda>r. ar_id r = i) t)"

definition sql_submit ::
  "string \<Rightarrow> int \<Rightarrow> submit_params \<Rightarrow> approval_sql_row list \<Rightarrow>
     (approval_request \<times> approval_sql_row list) result" where
  "sql_submit fresh now params t =
     (let row = approval_request.extend (new_request fresh now params) \<lparr>sq_orgId = DEFAULT_ORG\<rparr>
      in if list_ex (\<lambda>r. ar_id r = fresh) t then Inl unique_failed
         else Inr (rowToRequest row, t @ [row]))"

definition sql_listPending :: "approval_sql_row list \<Rightarrow> approval_request list" where
  "sql_listPending t =
     sort_key aq_createdAt (map rowToRequest (filter (\<lambda>r. aq_status r = AP_pending) t))"

definition sql_list ::
  "string \<Rightarrow> scope_filter option \<Rightarrow> status_option \<Rightarrow> approval_sql_row list \<Rightarrow> approval_request list" where
  "sql_list orgId f st t =
     (if st = Status_in [] \<or> filter_is_empty f then []
      else sort_key aq_createdAt (map rowToRequest
             (filter (\<lambda>r. sq_orgId r = orgId \<and> status_matches st (aq_status r) \<and> filter_matches f r) t)))"

definition sql_resolve ::
  "approval_status \<Rightarrow> int \<Rightarrow> string \<Rightarrow> string \<Rightarrow> string list option \<Rightarrow> approval_sql_row list \<Rightarrow>
     approval_request option \<times> approval_sql_row list" where
  "sql_resolve st now i by_user roles t =
     (let t' = upd_where (\<lambda>r. ar_id r = i)
            (\<lambda>r. r\<lparr>aq_status := st, aq_resolvedBy := Some by_user, aq_resolvedAt := Some now,
                   aq_resolvedByRoles := (case roles of None \<Rightarrow> aq_resolvedByRoles r | Some x \<Rightarrow> Some x)\<rparr>) t
      in (map_option rowToRequest (List.find (\<lambda>r. ar_id r = i) t'), t'))"

definition sql_decide ::
  "approval_status \<Rightarrow> int \<Rightarrow> string \<Rightarrow> string \<Rightarrow> string list option \<Rightarrow> approval_sql_row list \<Rightarrow>
     approval_request option \<times> approval_sql_row list" where
  "sql_decide st now i by_user roles t =
     (case sql_findById i t of
        None \<Rightarrow> (None, t)
      | Some existing \<Rightarrow>
          if aq_status existing \<noteq> AP_pending then (None, t) else sql_resolve st now i by_user roles t)"

definition sql_approve ::
  "int \<Rightarrow> string \<Rightarrow> string \<Rightarrow> string list option \<Rightarrow> approval_sql_row list \<Rightarrow>
     approval_request option \<times> approval_sql_row list" where
  "sql_approve = sql_decide AP_approved"

definition sql_reject ::
  "int \<Rightarrow> string \<Rightarrow> string \<Rightarrow> string list option \<Rightarrow> approval_sql_row list \<Rightarrow>
     approval_request option \<times> approval_sql_row list" where
  "sql_reject = sql_decide AP_rejected"

definition sql_override ::
  "int \<Rightarrow> string \<Rightarrow> string \<Rightarrow> string list option \<Rightarrow> approval_sql_row list \<Rightarrow>
     approval_request option \<times> approval_sql_row list" where
  "sql_override = sql_resolve AP_approved"

section \<open>EventEmittingApprovalRepository\<close>

text \<open>
  A throwing callback is logged and the remaining ones still run, so a resolved request is
  delivered to every registered callback in order; the third component is that delivery.
\<close>

definition notify :: "'c list \<Rightarrow> approval_request \<Rightarrow> ('c \<times> approval_request) list" where
  "notify callbacks request = map (\<lambda>cb. (cb, request)) callbacks"

definition emit_resolved ::
  "'c list \<Rightarrow> approval_request option \<times> 's \<Rightarrow>
     approval_request option \<times> 's \<times> ('c \<times> approval_request) list" where
  "emit_resolved callbacks result =
     (case result of (res, s') \<Rightarrow>
        (res, s', case res of None \<Rightarrow> [] | Some r \<Rightarrow> notify callbacks r))"

section \<open>The approval routes\<close>

definition approvalsReadScopeFilter :: "permission list \<Rightarrow> scope_filter" where
  "approvalsReadScopeFilter permissions =
     (let parsed = map (\<lambda>p. parseApprovalScope (scope p))
            (filter (\<lambda>p. action p = A_ApprovalsRead) permissions)
      in if Some AS_wildcard \<in> set parsed then Filter_wildcard
         else Filter_narrow
           \<lparr>sf_uids = js_uniq (concat (map (\<lambda>p. case p of Some (AS_uid i) \<Rightarrow> [i] | _ \<Rightarrow> []) parsed)),
            sf_connectors = js_uniq (concat (map (\<lambda>p. case p of Some (AS_connector c) \<Rightarrow> [c] | _ \<Rightarrow> []) parsed)),
            sf_nsPairs = concat (map (\<lambda>p. case p of Some (AS_namespace c n) \<Rightarrow> [(c, n)] | _ \<Rightarrow> []) parsed),
            sf_teams = js_uniq (concat (map (\<lambda>p. case p of Some (AS_team t) \<Rightarrow> [t] | _ \<Rightarrow> []) parsed))\<rparr>)"

definition holdsApprovalsWildcard :: "permission list \<Rightarrow> string \<Rightarrow> bool" where
  "holdsApprovalsWildcard permissions act =
     list_ex (\<lambda>p. action p = act
       \<and> scope p \<in> {''approvals:*'', ''approvals:*:*'', ''*'', ''''}) permissions"

definition row_evaluator :: "permission list \<Rightarrow> string \<Rightarrow> 'a approval_row_scheme \<Rightarrow> evaluator" where
  "row_evaluator permissions act row =
     ac_any (map (\<lambda>s. ac_eval act (OneScope s))
       (approvalRowScopes (approval_row.truncate row)
        @ (if holdsApprovalsWildcard permissions act then [''approvals:*''] else [])))"

definition evalRowAccess ::
  "ac_config \<Rightarrow> ac_world \<Rightarrow> identity \<Rightarrow> permission list \<Rightarrow> string \<Rightarrow> 'a approval_row_scheme \<Rightarrow> bool" where
  "evalRowAccess cfg w ident permissions act row =
     fst (ac_evaluate cfg w ident (row_evaluator permissions act row))"

definition legacyOrgRole :: "string \<Rightarrow> string" where
  "legacyOrgRole role =
     (if role = ''Admin'' then ''admin'' else if role = ''Editor'' then ''operator'' else ''viewer'')"

datatype approval_response =
    Resp_error nat string
  | Resp_record approval_request
  | Resp_list "approval_request list"

definition list_route ::
  "ac_config \<Rightarrow> ac_world \<Rightarrow> identity option \<Rightarrow> approval_sql_row list \<Rightarrow> approval_response" where
  "list_route cfg w auth t =
     (case auth of
        None \<Rightarrow> Resp_error 401 ''authentication required''
      | Some ident \<Rightarrow>
          (let perms = fst (ensurePermissions (w_rbac w) ident)
           in Resp_list (sql_list (id_orgId ident) (Some (approvalsReadScopeFilter perms)) Status_any t)))"

text \<open>
  The checks common to the routes on one request: the row must exist and the caller's grants
  cover it; a denial is answered like a missing row.
\<close>

definition with_row ::
  "ac_config \<Rightarrow> ac_world \<Rightarrow> identity option \<Rightarrow> string \<Rightarrow> string \<Rightarrow> approval_sql_row list \<Rightarrow>
     approval_response + (identity \<times> approval_request)" where
  "with_row cfg w auth act i t =
     (case auth of
        None \<Rightarrow> Inl (Resp_error 401 ''authentication required'')
      | Some ident \<Rightarrow>
          (case sql_findById i t of
             None \<Rightarrow> Inl (Resp_error 404 ''Approval request not found'')
           | Some record \<Rightarrow>
               (let (perms, ident') = ensurePermissions (w_rbac w) ident
                in if evalRowAccess cfg w ident' perms act record then Inr (ident', record)
                   else Inl (Resp_error 404 ''Approval request not found''))))"

definition get_route ::
  "ac_config \<Rightarrow> ac_world \<Rightarrow> identity option \<Rightarrow> string \<Rightarrow> approval_sql_row list \<Rightarrow> approval_response" where
  "get_route cfg w auth i t =
     (case with_row cfg w auth A_ApprovalsRead i t of Inl r \<Rightarrow> r | Inr (_, record) \<Rightarrow> Resp_record record)"

definition resolver_roles :: "identity \<Rightarrow> string list" where
  "resolver_roles ident =
     (if id_isServerAdmin ident then [''admin''] else [legacyOrgRole (id_orgRole ident)])"

definition resolve_route ::
  "string \<Rightarrow> (int \<Rightarrow> string \<Rightarrow> string \<Rightarrow> string list option \<Rightarrow> approval_sql_row list \<Rightarrow>
       approval_request option \<times> approval_sql_row list) \<Rightarrow> (approval_request \<Rightarrow> nat \<times> string) \<Rightarrow>
     ac_config \<Rightarrow> ac_world \<Rightarrow> 'c list \<Rightarrow> int \<Rightarrow> identity option \<Rightarrow> string \<Rightarrow> approval_sql_row list \<Rightarrow>
     approval_response \<times> approval_sql_row list \<times> ('c \<times> approval_request) list" where
  "resolve_route act op failure cfg w callbacks now auth i t =
     (case with_row cfg w auth act i t of
        Inl r \<Rightarrow> (r, t, [])
      | Inr (ident, record) \<Rightarrow>
          (case emit_resolved callbacks (op now i (id_userId ident) (Some (resolver_roles ident)) t) of
             (None, t', ev) \<Rightarrow> (Resp_error (fst (failure record)) (snd (failure record)), t', ev)
           | (Some updated, t', ev) \<Rightarrow> (Resp_record updated, t', ev)))"

fun status_name :: "approval_status \<Rightarrow> string" where
  "status_name AP_pending = ''pending''"
| "status_name AP_approved = ''approved''"
| "status_name AP_rejected = ''rejected''"
| "status_name AP_expired = ''expired''"

definition conflict :: "string \<Rightarrow> approval_request \<Rightarrow> nat \<times> string" where
  "conflict verb r =
     (409, ''Approval request is already '' @ status_name (aq_status r) @ '' and cannot be '' @ verb)"

definition approve_route ::
  "ac_config \<Rightarrow> ac_world \<Rightarrow> 'c list \<Rightarrow> int \<Rightarrow> identity option \<Rightarrow> string \<Rightarrow> approval_sql_row list \<Rightarrow>
     approval_response \<times> approval_sql_row list \<times> ('c \<times> approval_request) list" where
  "approve_route = resolve_route A_ApprovalsApprove sql_approve (conflict ''approved'')"

definition reject_route ::
  "ac_config \<Rightarrow> ac_world \<Rightarrow> 'c list \<Rightarrow> int \<Rightarrow> identity option \<Rightarrow> string \<Rightarrow> approval_sql_row list \<Rightarrow>
     approval_response \<times> approval_sql_row list \<times> ('c \<times> approval_request) list" where
  "reject_route = resolve_route A_ApprovalsApprove sql_reject (conflict ''rejected'')"

definition override_route ::
  "ac_config \<Rightarrow> ac_world \<Rightarrow> 'c list \<Rightarrow> int \<Rightarrow> identity option \<Rightarrow> string \<Rightarrow> approval_sql_row list \<Rightarrow>
     approval_response \<times> approval_sql_row list \<times> ('c \<times> approval_request) list" where
  "override_route = resolve_route A_ApprovalsOverride sql_override (\<lambda>r. (404, ''Approval request not found''))"

section \<open>ApprovalRouter\<close>

definition permScopeMatchesRow :: "string \<Rightarrow> string list \<Rightarrow> bool" where
  "permScopeMatchesRow permScope candidates = list_ex (\<lambda>c. scopeCovers permScope c) candidates"

text \<open>
  The members of the organisation are given as pairs of user and organisation role; the query
  reads at most 10,000 of them.
\<close>

definition findApprovers ::
  "rbac_db \<Rightarrow> (string \<times> string) list \<Rightarrow> string \<Rightarrow> 'a approval_row_scheme \<Rightarrow> string list" where
  "findApprovers db orgUsers orgId row =
     (let candidates = approvalRowScopes (approval_row.truncate row);
          matching = filter (\<lambda>p. permScopeMatchesRow (pr_scope p) candidates)
            (permission_listByAction db A_ApprovalsApprove);
          roleIds = js_uniq (map pr_roleId matching);
          direct = concat (map (\<lambda>rid. map ur_userId (filter (\<lambda>r. ur_orgId r = orgId \<or> ur_orgId r = '''')
            (user_role_listByRole db rid))) roleIds);
          viaTeams = concat (map (\<lambda>rid. concat (map (\<lambda>t. map tm_userId (team_member_listByTeam db (tr_teamId t)))
            (filter (\<lambda>r. tr_orgId r = orgId \<or> tr_orgId r = '''') (team_role_listByRole db rid)))) roleIds);
          roleNames = js_uniq (map bi_role (filter (\<lambda>m. bi_roleId m \<in> set roleIds) (listBuiltinRoles db orgId)));
          builtin = (if roleNames = [] then []
            else map fst (filter (\<lambda>(u, r). r \<in> set roleNames) (take 10000 orgUsers)))
      in if matching = [] then [] else js_uniq (direct @ viaTeams @ builtin))"

section \<open>Decisions are final, overrides apart\<close>

datatype approval_call =
    Decide approval_status int string string "string list option"
  | Override int string string "string list option"
  | Submit string int submit_params

definition overridden_by :: "approval_call list \<Rightarrow> string \<Rightarrow> bool" where
  "overridden_by calls i \<longleftrightarrow> list_ex (\<lambda>c. case c of Override now j by_user roles \<Rightarrow> j = i | _ \<Rightarrow> False) calls"

text \<open>
  What the callers of either repository rely on, on the status a store holds for a request:
  \<^verbatim>\<open>decide\<close> is \<^verbatim>\<open>approve\<close> or \<^verbatim>\<open>reject\<close> with its target status; a submission has a new identifier.
\<close>

locale approval_store =
  fixes status_of :: "'s \<Rightarrow> string \<Rightarrow> approval_status option"
    and decide :: "approval_status \<Rightarrow> int \<Rightarrow> string \<Rightarrow> string \<Rightarrow> string list option \<Rightarrow> 's \<Rightarrow>
      approval_request option \<times> 's"
    and override :: "int \<Rightarrow> string \<Rightarrow> string \<Rightarrow> string list option \<Rightarrow> 's \<Rightarrow> approval_request option \<times> 's"
    and submit :: "string \<Rightarrow> int \<Rightarrow> submit_params \<Rightarrow> 's \<Rightarrow> 's"
    and ok :: "'s \<Rightarrow> bool"
  assumes decide_ok: "ok s \<Longrightarrow> ok (snd (decide st now i by_user roles s))"
    and decided: "ok s \<Longrightarrow> decide st now i by_user roles s = (Some r, s') \<Longrightarrow>
      status_of s i = Some AP_pending \<and> status_of s' i = Some st \<and> aq_status r = st"
    and refused: "ok s \<Longrightarrow> status_of s i = Some x \<Longrightarrow> x \<noteq> AP_pending \<Longrightarrow>
      fst (decide st now i by_user roles s) = None \<and> status_of (snd (decide st now i by_user roles s)) i = Some x"
    and decide_frame: "ok s \<Longrightarrow> j \<noteq> i \<Longrightarrow> status_of (snd (decide st now i by_user roles s)) j = status_of s j"
    and override_ok: "ok s \<Longrightarrow> ok (snd (override now i by_user roles s))"
    and overridden: "ok s \<Longrightarrow> status_of (snd (override now i by_user roles s)) j
      = (if j = i \<and> status_of s i \<noteq> None then Some AP_approved else status_of s j)"
    and submit_ok: "ok s \<Longrightarrow> status_of s fresh = None \<Longrightarrow> ok (submit fresh now params s)"
    and submit_frame: "ok s \<Longrightarrow> status_of s fresh = None \<Longrightarrow> j \<noteq> fresh \<Longrightarrow>
      status_of (submit fresh now params s) j = status_of s j"
begin

definition perform :: "approval_call \<Rightarrow> 's \<Rightarrow> 's" where
  "perform c s = (case c of
       Decide st now i by_user roles \<Rightarrow> snd (decide st now i by_user roles s)
     | Override now i by_user roles \<Rightarrow> snd (override now i by_user roles s)
     | Submit fresh now params \<Rightarrow> if status_of s fresh = None then submit fresh now params s else s)"

definition attempts :: "approval_call list \<Rightarrow> 's \<Rightarrow> 's" where
  "attempts = fold perform"

lemma perform_settled:
  assumes "ok s" "status_of s i = Some x" "x \<noteq> AP_pending"
  shows "ok (perform c s)" "status_of (perform c s) i = Some (if overridden_by [c] i then AP_approved else x)"
proof -
  show "ok (perform c s)"
    using assms by (cases c) (simp_all add: perform_def decide_ok override_ok submit_ok)
  show "status_of (perform c s) i = Some (if overridden_by [c] i then AP_approved else x)"
  proof (cases c)
    case (Decide st now j u roles)
    then show ?thesis using assms refused decide_frame by (cases "j = i") (auto simp: perform_def overridden_by_def)
  next
    case (Override now j u roles)
    then show ?thesis using assms by (auto simp: perform_def overridden overridden_by_def)
  next
    case (Submit fresh now params)
    then show ?thesis using assms submit_frame by (cases "i = fresh") (auto simp: perform_def overridden_by_def)
  qed
qed

lemma attempts_settled:
  "ok s \<Longrightarrow> status_of s i = Some x \<Longrightarrow> x \<noteq> AP_pending \<Longrightarrow>
   ok (attempts calls s) \<and> status_of (attempts calls s) i = Some (if overridden_by calls i then AP_approved else x)"
proof (induction calls arbitrary: s x)
  case (Cons c calls)
  note step = perform_settled [OF Cons.prems, of c]
  then show ?case
    using Cons.IH [OF step] Cons.prems(3) by (simp add: attempts_def overridden_by_def split: if_splits)
qed (simp add: attempts_def overridden_by_def)

lemma settled_final:
  assumes "ok s" "decide st now i by_user roles s = (Some r, s')" "st \<noteq> AP_pending"
  shows "fst (decide st2 now2 i by2 roles2 (attempts calls s')) = None
     \<and> status_of (attempts calls s') i = Some (if overridden_by calls i then AP_approved else st)"
proof -
  have "ok s'" "status_of s' i = Some st"
    using decide_ok [OF assms(1), of st now i by_user roles] decided [OF assms(1,2)] assms(2) by auto
  then have a: "ok (attempts calls s')" "status_of (attempts calls s') i = Some (if overridden_by calls i then AP_approved else st)"
    using attempts_settled [OF _ _ assms(3)] by auto
  then show ?thesis using refused [OF a] assms(3) by simp
qed

end

definition mem_status :: "mem_store \<Rightarrow> string \<Rightarrow> approval_status option" where
  "mem_status s i = map_option aq_status (map_of s i)"

definition mem_ok :: "mem_store \<Rightarrow> bool" where
  "mem_ok s \<longleftrightarrow> (\<forall>(k, r)\<in>set s. ar_id r = k) \<and> distinct (map fst s)"

lemma mem_ok_lookup: "mem_ok s \<Longrightarrow> map_of s i = Some r \<Longrightarrow> ar_id r = i"
  by (auto simp: mem_ok_def dest!: map_of_SomeD)

lemma mem_ok_update: "mem_ok s \<Longrightarrow> ar_id r = i \<Longrightarrow> mem_ok (AList.update i r s)"
proof -
  assume ok: "mem_ok s" and r: "ar_id r = i"
  have "\<forall>(k, x)\<in>set (AList.update i r s). ar_id x = k" if "\<forall>(k, x)\<in>set s. ar_id x = k"
    using that by (induction s) (auto simp: r split: if_splits)
  then show ?thesis using ok by (simp add: mem_ok_def distinct_update)
qed

lemma mark_expired:
  assumes "mem_ok s" "map_of s i = Some req"
  shows "mem_ok (snd (markExpiredIfNeeded now req s))"
    "map_of (snd (markExpiredIfNeeded now req s)) = (map_of s)(i \<mapsto> fst (markExpiredIfNeeded now req s))"
    "ar_id (fst (markExpiredIfNeeded now req s)) = i"
  using assms mem_ok_lookup [OF assms]
  by (auto simp: markExpiredIfNeeded_def Let_def mem_ok_update update_conv' map_upd_triv)

interpretation mem: approval_store mem_status mem_resolve mem_override "\<lambda>fresh now params s. snd (mem_submit fresh now params s)" mem_ok
proof unfold_locales
  fix s st now i by_user roles
  assume ok: "mem_ok s"
  show "mem_ok (snd (mem_resolve st now i by_user roles s))"
    using ok mark_expired [OF ok, of i _ now]
    by (auto simp: mem_resolve_def Let_def split: option.splits prod.splits intro!: mem_ok_update)
  show "mem_status (snd (mem_resolve st now i by_user roles s)) j = mem_status s j" if "j \<noteq> i" for j
    using that mark_expired(2) [OF ok, of i _ now]
    by (auto simp: mem_resolve_def mem_status_def Let_def update_conv' split: option.splits prod.splits)
  show "mem_status s i = Some AP_pending \<and> mem_status s' i = Some st \<and> aq_status r = st"
    if "mem_resolve st now i by_user roles s = (Some r, s')" for r s'
    using that
    by (auto simp: mem_resolve_def mem_status_def markExpiredIfNeeded_def Let_def update_conv'
        split: option.splits if_splits)
  show "fst (mem_resolve st now i by_user roles s) = None
      \<and> mem_status (snd (mem_resolve st now i by_user roles s)) i = Some x"
    if "mem_status s i = Some x" "x \<noteq> AP_pending" for x
    using that by (auto simp: mem_resolve_def mem_status_def markExpiredIfNeeded_def)
  show "mem_ok (snd (mem_override now i by_user roles s))"
    using ok by (auto simp: mem_override_def Let_def mem_ok_lookup split: option.splits intro!: mem_ok_update)
  show "mem_status (snd (mem_override now i by_user roles s)) j = (if j = i \<and> mem_status s i \<noteq> None then Some AP_approved else mem_status s j)" for j
    by (auto simp: mem_override_def mem_status_def Let_def update_conv' split: option.splits)
next
  fix s and fresh :: string and now params
  assume ok: "mem_ok s"
  show "mem_ok (snd (mem_submit fresh now params s))"
    using ok by (simp add: mem_submit_def new_request_def Let_def mem_ok_update)
  show "mem_status (snd (mem_submit fresh now params s)) j = mem_status s j" if "j \<noteq> fresh" for j
    using that by (simp add: mem_submit_def mem_status_def Let_def update_conv')
qed

definition sql_status :: "approval_sql_row list \<Rightarrow> string \<Rightarrow> approval_status option" where
  "sql_status t i = map_option aq_status (sql_findById i t)"

lemma find_upd_id:
  assumes "\<And>r. ar_id (f r) = ar_id r"
  shows "List.find (\<lambda>r. ar_id r = j) (upd_where (\<lambda>r. ar_id r = i) f t) =
     map_option (\<lambda>r. if ar_id r = i then f r else r) (List.find (\<lambda>r. ar_id r = j) t)"
  using assms by (induction t) auto

lemma truncate_status [simp]: "aq_status (rowToRequest r) = aq_status r"
  by (simp add: rowToRequest_def approval_request.truncate_def)

lemma sql_decide_cases:
  "sql_decide st now i by_user roles t =
     (if sql_status t i = Some AP_pending then sql_resolve st now i by_user roles t else (None, t))"
  by (auto simp: sql_decide_def sql_status_def split: option.splits)

lemma sql_resolve_status:
  "sql_status (snd (sql_resolve st now i by_user roles t)) j =
     (if j = i \<and> sql_status t i \<noteq> None then Some st else sql_status t j)"
proof (cases "List.find (\<lambda>r. ar_id r = j) t")
  case (Some a)
  then have "ar_id a = j" using find_Some_set by fastforce
  with Some show ?thesis
    by (cases "j = i") (simp_all add: sql_resolve_def sql_status_def sql_findById_def Let_def find_upd_id)
qed (auto simp: sql_resolve_def sql_status_def sql_findById_def Let_def find_upd_id)

definition sql_submitted :: "string \<Rightarrow> int \<Rightarrow> submit_params \<Rightarrow> approval_sql_row list \<Rightarrow> approval_sql_row list" where
  "sql_submitted fresh now params t = (case sql_submit fresh now params t of Inl e \<Rightarrow> t | Inr (r, t') \<Rightarrow> t')"

interpretation sql: approval_store sql_status sql_decide sql_override sql_submitted "\<lambda>t. True"
proof unfold_locales
  fix t :: "approval_sql_row list" and st now i by_user roles
  show "sql_status (snd (sql_decide st now i by_user roles t)) j = sql_status t j" if "j \<noteq> i" for j
    using that by (simp add: sql_decide_cases sql_resolve_status)
  show "sql_status t i = Some AP_pending \<and> sql_status t' i = Some st \<and> aq_status r = st"
    if d: "sql_decide st now i by_user roles t = (Some r, t')" for r t'
  proof -
    have p: "sql_status t i = Some AP_pending" "sql_resolve st now i by_user roles t = (Some r, t')"
      using d by (auto simp: sql_decide_cases split: if_splits)
    then have "sql_status t' i = Some st"
      using sql_resolve_status [of st now i by_user roles t i] by simp
    moreover have "aq_status r = st"
      using p(2) by (cases "List.find (\<lambda>r. ar_id r = i) t")
        (auto simp: sql_resolve_def Let_def find_upd_id dest: find_Some_set)
    ultimately show ?thesis using p by simp
  qed
  show "fst (sql_decide st now i by_user roles t) = None
      \<and> sql_status (snd (sql_decide st now i by_user roles t)) i = Some x"
    if "sql_status t i = Some x" "x \<noteq> AP_pending" for x
    using that by (simp add: sql_decide_cases)
  show "sql_status (snd (sql_override now i by_user roles t)) j = (if j = i \<and> sql_status t i \<noteq> None then Some AP_approved else sql_status t j)" for j
    by (simp add: sql_override_def sql_resolve_status)
next
  fix t :: "approval_sql_row list" and fresh now params and j :: string
  assume "j \<noteq> fresh"
  then show "sql_status (sql_submitted fresh now params t) j = sql_status t j"
    by (cases "List.find (\<lambda>r. ar_id r = j) t")
       (auto simp: sql_submitted_def sql_submit_def sql_status_def sql_findById_def find_append_found find_append_miss new_request_def approval_request.defs Let_def)
qed simp_all

text \<open>
  C18. The decision of an approval request is final but for an override: after an \<^verbatim>\<open>approve\<close> or
  \<^verbatim>\<open>reject\<close> of the SQLite repository has returned the request, and whatever is called then (decisions
  and overrides of any requests, new submissions, in any order), another decision on it is refused,
  and its status is the one decided, or approved if one of these calls was an override of it: an
  override approves a rejected request too.
\<close>

theorem approval_resolved_once:
  assumes "sql_decide st now i by_user roles t = (Some r, t')" "st \<noteq> AP_pending"
  shows "fst (sql_decide st2 now2 i by2 roles2 (sql.attempts calls t')) = None
     \<and> sql_status (sql.attempts calls t') i = Some (if overridden_by calls i then AP_approved else st)"
  using sql.settled_final [OF _ assms] by simp

definition demo_params :: submit_params where
  "demo_params = \<lparr>sp_action = \<lparr>aa_type = ''ops.run_command'', aa_targetService = ''c'', aa_params = []\<rparr>,
     sp_context = [], sp_ttlMs = Some 10, sp_opsConnectorId = Some ''prod'', sp_targetNamespace = Some ''app'',
     sp_requesterTeamId = None\<rparr>"

definition demo_table :: "approval_sql_row list" where
  "demo_table = [approval_request.extend (new_request ''a1'' 0 demo_params) \<lparr>sq_orgId = DEFAULT_ORG\<rparr>]"

lemma demo_decide: "\<exists>r t'. sql_decide AP_rejected 5 ''a1'' ''u'' None demo_table = (Some r, t')"
  by (simp add: sql_decide_def sql_findById_def demo_table_def sql_resolve_def Let_def rowToRequest_def
      new_request_def approval_request.defs)

theorem approval_resolved_once_witness:
  "\<exists>r t'. sql_decide AP_rejected 5 ''a1'' ''u'' None demo_table = (Some r, t')
     \<and> fst (sql_decide AP_approved 6 ''a1'' ''v'' None (sql.attempts [Decide AP_approved 6 ''a1'' ''v'' None] t')) = None
     \<and> sql_status (sql.attempts [Decide AP_approved 6 ''a1'' ''v'' None] t') ''a1'' = Some AP_rejected
     \<and> sql_status (sql.attempts [Decide AP_approved 6 ''a1'' ''v'' None, Override 7 ''a1'' ''w'' None] t') ''a1'' = Some AP_approved"
proof -
  obtain r t' where d: "sql_decide AP_rejected 5 ''a1'' ''u'' None demo_table = (Some r, t')" using demo_decide by blast
  have "overridden_by [Decide AP_approved 6 ''a1'' ''v'' None] ''a1'' = False"
    "overridden_by [Decide AP_approved 6 ''a1'' ''v'' None, Override 7 ''a1'' ''w'' None] ''a1'' = True"
    by (simp_all add: overridden_by_def)
  then show ?thesis using approval_resolved_once [OF d, of AP_approved 6] d by auto
qed

text \<open>
  The two repositories disagree about expiry: on a pending request whose time is over the
  in-memory repository refuses the approval and marks the request expired, the SQLite
  repository approves it.
\<close>

theorem expiry_only_in_memory:
  assumes "aq_expiresAt req \<le> now" "aq_status req = AP_pending"
  shows "fst (mem_approve now (ar_id req) by_user roles [(ar_id req, req)]) = None
     \<and> mem_status (snd (mem_approve now (ar_id req) by_user roles [(ar_id req, req)])) (ar_id req) = Some AP_expired
     \<and> (\<exists>r. fst (sql_approve now (ar_id req) by_user roles [approval_request.extend req \<lparr>sq_orgId = org\<rparr>]) = Some r
          \<and> aq_status r = AP_approved)"
  using assms
  by (simp add: mem_approve_def mem_resolve_def markExpiredIfNeeded_def mem_status_def Let_def
      sql_approve_def sql_decide_def sql_findById_def sql_resolve_def rowToRequest_def approval_request.defs)

theorem expiry_only_in_memory_witness:
  "fst (mem_approve 11 ''a1'' ''u'' None [(''a1'', new_request ''a1'' 0 demo_params)]) = None
     \<and> (\<exists>r. fst (sql_approve 11 ''a1'' ''u'' None demo_table) = Some r \<and> aq_status r = AP_approved)"
  using expiry_only_in_memory [of "new_request ''a1'' 0 demo_params" 11 "''u''" None DEFAULT_ORG]
  by (simp add: new_request_def demo_params_def demo_table_def)

section \<open>Who may see and resolve a row\<close>

lemma evaluate_identity_resolver:
  "(\<And>s. s \<in> scopes_of e \<Longrightarrow> r s = [s]) \<Longrightarrow> evaluate (ev_mutate r e) ps = evaluate e ps"
proof (induction e)
  case (ActionEvaluator act scopes)
  then show ?case by (auto simp: evaluate_satisfies)
next
  case (AllEvaluator children)
  then show ?case by (auto simp: list_all_iff)
next
  case (AnyEvaluator children)
  then show ?case by (auto simp: list_ex_iff)
qed simp

lemma evaluate_any_scopes:
  "evaluate (ac_any (map (\<lambda>s. ac_eval act (OneScope s)) ss)) ps \<longleftrightarrow>
     (\<exists>s\<in>set ss. \<exists>p\<in>set ps. action p = act \<and> scopeCovers (scope p) s)"
  by (auto simp: evaluate_satisfies ac_any_def ac_eval_def grants_def)

definition row_candidates :: "'a approval_row_scheme \<Rightarrow> string list" where
  "row_candidates row = approvalRowScopes (approval_row.truncate row)"

lemma candidates_kind: "s \<in> set (row_candidates row) \<Longrightarrow> scope_kind_of s = ''approvals''"
  by (auto simp: row_candidates_def approvalRowScopes_def scope_kind_of_def split: if_splits)

lemma candidate_parts:
  "s \<in> set (row_candidates row) \<Longrightarrow>
     \<exists>a i. s = ''approvals'' @ '':'' @ a @ '':'' @ i \<and> CHR '':'' \<notin> set a"
  unfolding row_candidates_def approvalRowScopes_def
  by (auto simp: append_eq_Cons_conv split: if_splits)
     (rule exI [of _ "''uid''"] exI [of _ "''connector''"] exI [of _ "''namespace''"] exI [of _ "''team''"], simp)+

lemma wildcard_covers_candidate: "s \<in> set (row_candidates row) \<Longrightarrow> scopeCovers ''approvals:*'' s"
  using candidate_parts [of s row] parseScope_three [of "''approvals''"] parseScope_two [of "''approvals''" "''*''"]
  by (auto simp: scopeCovers_segments seg_covers_def)

lemma row_access_iff:
  "evalRowAccess cfg w ident perms act row \<longleftrightarrow>
     (\<exists>p\<in>set (fst (ensurePermissions (w_rbac w) ident)). action p = act
        \<and> (\<exists>s\<in>set (row_candidates row @ (if holdsApprovalsWildcard perms act then [''approvals:*''] else [])).
             scopeCovers (scope p) s))
     \<or> legacy_allows cfg w ident (row_evaluator perms act row)"
proof -
  let ?e = "row_evaluator perms act row"
  have kinds: "scope_kind_of s \<notin> RESOLVED_KINDS" if "s \<in> scopes_of ?e" for s
    using that candidates_kind [of s row]
    by (auto simp: row_evaluator_def ac_any_def ac_eval_def RESOLVED_KINDS_def scope_kind_of_def
        row_candidates_def split: if_splits)
  have "evaluate (case ac_resolvers cfg of None \<Rightarrow> ?e
       | Some mk \<Rightarrow> ev_mutate (cached_resolver (registry_resolve (mk (id_orgId ident))) (collectScopes ?e)) ?e) ps =
     evaluate ?e ps" for ps
    using kinds
    by (auto simp: cached_resolver_def registry_other split: option.splits intro!: evaluate_identity_resolver)
  then have "evalRowAccess cfg w ident perms act row \<longleftrightarrow>
      evaluate ?e (fst (ensurePermissions (w_rbac w) ident)) \<or> legacy_allows cfg w ident ?e"
    by (simp only: evalRowAccess_def ac_evaluate_iff)
  moreover have "evaluate ?e ps \<longleftrightarrow> (\<exists>p\<in>set ps. action p = act
      \<and> (\<exists>s\<in>set (row_candidates row @ (if holdsApprovalsWildcard perms act then [''approvals:*''] else [])).
           scopeCovers (scope p) s))" for ps
    unfolding row_evaluator_def evaluate_any_scopes row_candidates_def by blast
  ultimately show ?thesis by simp
qed

lemma row_grant:
  assumes "p \<in> set ps" "action p = act" "s \<in> set (row_candidates row @ (if P then [''approvals:*''] else []))"
    "scopeCovers (scope p) s"
  shows "\<exists>p\<in>set ps. action p = act \<and> (\<exists>s\<in>set (row_candidates row). scopeCovers (scope p) s)"
proof (cases "s \<in> set (row_candidates row)")
  case False
  obtain c where c: "c \<in> set (row_candidates row)" by (auto simp: row_candidates_def approvalRowScopes_def)
  have "s = ''approvals:*''" using False assms(3) by (auto split: if_splits)
  then have "scopeCovers (scope p) c"
    using assms(4) wildcard_covers_candidate [OF c] scope_cov.covers_trans by blast
  then show ?thesis using assms c by blast
qed (use assms in blast)

lemma row_access:
  "evalRowAccess cfg w ident perms act row \<longleftrightarrow>
     (\<exists>p\<in>set (fst (ensurePermissions (w_rbac w) ident)). action p = act
        \<and> (\<exists>s\<in>set (row_candidates row). scopeCovers (scope p) s))
     \<or> legacy_allows cfg w ident (row_evaluator perms act row)"
  (is "_ \<longleftrightarrow> ?grant \<or> _")
proof -
  have "(\<exists>p\<in>set (fst (ensurePermissions (w_rbac w) ident)). action p = act
      \<and> (\<exists>s\<in>set (row_candidates row @ (if holdsApprovalsWildcard perms act then [''approvals:*''] else [])).
           scopeCovers (scope p) s)) \<longleftrightarrow> ?grant"
    (is "?any \<longleftrightarrow> _")
  proof
    show "?any \<Longrightarrow> ?grant" by (elim bexE conjE) (rule row_grant)
  qed auto
  then show ?thesis by (simp only: row_access_iff)
qed

lemma with_row_Inr:
  assumes "with_row cfg w auth act i t = Inr (ident', rq)"
  obtains ident where "auth = Some ident" "sql_findById i t = Some rq" "ident' = snd (ensurePermissions (w_rbac w) ident)"
    "evalRowAccess cfg w ident' (fst (ensurePermissions (w_rbac w) ident)) act rq"
  using assms
  by (auto simp: with_row_def case_prod_beta split: option.splits if_splits)

lemma resolve_route_record:
  assumes "resolve_route act op failure cfg w callbacks now auth i t = (Resp_record r, t', ev)"
  obtains ident' rq where "with_row cfg w auth act i t = Inr (ident', rq)"
    "op now i (id_userId ident') (Some (resolver_roles ident')) t = (Some r, t')" "ev = notify callbacks r"
proof (cases "with_row cfg w auth act i t")
  case (Inl x)
  then have False
    using assms by (auto simp: resolve_route_def with_row_def case_prod_beta split: option.splits if_splits)
  then show thesis ..
next
  case (Inr y)
  obtain ident' rq where y: "y = (ident', rq)" by fastforce
  obtain res u where o: "op now i (id_userId ident') (Some (resolver_roles ident')) t = (res, u)" by fastforce
  have "res = Some r \<and> u = t' \<and> ev = notify callbacks r"
    using assms by (cases res) (auto simp: resolve_route_def Inr y o emit_resolved_def)
  then show thesis using that Inr y o by blast
qed

lemma ensured_again [simp]:
  "fst (ensurePermissions db (snd (ensurePermissions db ident))) = fst (ensurePermissions db ident)"
  by (auto simp: ensurePermissions_def Let_def split: option.splits)

lemma legacy_ensured [simp]:
  "legacy_allows cfg w (snd (ensurePermissions db ident)) e = legacy_allows cfg w ident e"
  by (simp add: legacy_allows_def)

text \<open>
  C5. Approving through the route needs a grant: if the route answers with a record then the
  caller is authenticated, the row was pending, it is now approved, and the caller holds an
  \<^verbatim>\<open>approvals:approve\<close> permission whose scope covers one of the row's scopes, unless the
  legacy dashboard fallback let the check pass.
\<close>

theorem approve_route_authorized:
  assumes "approve_route cfg w callbacks now auth i t = (Resp_record r, t', ev)"
  shows "\<exists>ident record. auth = Some ident \<and> sql_findById i t = Some record \<and> aq_status record = AP_pending
     \<and> sql_status t' i = Some AP_approved \<and> ev = notify callbacks r
     \<and> ((\<exists>p\<in>set (fst (ensurePermissions (w_rbac w) ident)). action p = A_ApprovalsApprove
           \<and> (\<exists>s\<in>set (row_candidates record). scopeCovers (scope p) s))
        \<or> legacy_allows cfg w ident
            (row_evaluator (fst (ensurePermissions (w_rbac w) ident)) A_ApprovalsApprove record))"
proof -
  obtain ident' rq where wr: "with_row cfg w auth A_ApprovalsApprove i t = Inr (ident', rq)"
    and res: "sql_approve now i (id_userId ident') (Some (resolver_roles ident')) t = (Some r, t')"
    and ev: "ev = notify callbacks r"
    using resolve_route_record [OF assms [unfolded approve_route_def]] .
  obtain ident where auth: "auth = Some ident" "sql_findById i t = Some rq"
    and id': "ident' = snd (ensurePermissions (w_rbac w) ident)"
    and acc: "evalRowAccess cfg w ident' (fst (ensurePermissions (w_rbac w) ident)) A_ApprovalsApprove rq"
    using with_row_Inr [OF wr] .
  have st: "sql_status t i = Some AP_pending \<and> sql_status t' i = Some AP_approved"
    using sql.decided [OF _ res [unfolded sql_approve_def]] by simp
  then have "aq_status rq = AP_pending" using auth by (simp add: sql_status_def)
  with acc [unfolded row_access id' ensured_again legacy_ensured] auth st ev show ?thesis by blast
qed

lemma parse_wildcard:
  "parseApprovalScope s = Some AS_wildcard \<Longrightarrow> s = ''approvals:*'' \<or> s = ''approvals:*:*''"
  unfolding parseApprovalScope_def Let_def
  by (simp del: split_on.simps split: if_split_asm)

lemma parsed_shapes:
  assumes "p \<in> set ps" "action p = A_ApprovalsRead" "parseApprovalScope (scope p) = Some a"
    and "a \<noteq> AS_wildcard" "printApprovalScope a \<in> set (row_candidates x)"
  shows "\<exists>p\<in>set ps. action p = A_ApprovalsRead \<and> scope p \<in> set (row_candidates x)"
  using assms parse_approval_print [OF assms(3,4)] by metis

lemma narrow_grant:
  assumes "filter_matches (Some (approvalsReadScopeFilter ps)) x"
    and "\<not> (\<exists>p\<in>set ps. action p = A_ApprovalsRead \<and> parseApprovalScope (scope p) = Some AS_wildcard)"
  shows "\<exists>p\<in>set ps. action p = A_ApprovalsRead \<and> scope p \<in> set (row_candidates x)"
proof -
  define shape where "shape a \<longleftrightarrow> (\<exists>p\<in>set ps. action p = A_ApprovalsRead \<and> parseApprovalScope (scope p) = Some a)" for a
  have wf: "wf_approval_scope a" if "shape a" "a \<noteq> AS_wildcard" for a
    using that parse_approval_print by (auto simp: shape_def)
  have filt: "approvalsReadScopeFilter ps = Filter_narrow f \<Longrightarrow>
      set (sf_uids f) = {i. shape (AS_uid i)} \<and> set (sf_connectors f) = {c. shape (AS_connector c)}
      \<and> set (sf_nsPairs f) = {(c, n). shape (AS_namespace c n)} \<and> set (sf_teams f) = {t. shape (AS_team t)}" for f
    unfolding approvalsReadScopeFilter_def Let_def shape_def
    by (auto split: if_splits option.splits approval_scope.splits simp del: dedupe_by.simps) metis+
  obtain f where f: "approvalsReadScopeFilter ps = Filter_narrow f" "narrow_matches f x"
    using assms by (auto simp: filter_matches_def approvalsReadScopeFilter_def Let_def image_iff split: if_splits)
  have "\<exists>a. shape a \<and> a \<noteq> AS_wildcard \<and> printApprovalScope a \<in> set (row_candidates x)"
  proof -
    have "(\<exists>a. shape a \<and> a \<noteq> AS_wildcard \<and> (a = AS_uid (ar_id x)
        \<or> (\<exists>c. a = AS_connector c \<and> ar_opsConnectorId x = Some c)
        \<or> (\<exists>c n. a = AS_namespace c n \<and> ar_opsConnectorId x = Some c \<and> ar_targetNamespace x = Some n)
        \<or> (\<exists>t. a = AS_team t \<and> ar_requesterTeamId x = Some t)))"
      using f(2) filt [OF f(1)] by (auto simp: narrow_matches_def split: option.splits)
    then obtain a where a: "shape a" "a \<noteq> AS_wildcard" "wf_approval_scope a" "a = AS_uid (ar_id x)
        \<or> (\<exists>c. a = AS_connector c \<and> ar_opsConnectorId x = Some c)
        \<or> (\<exists>c n. a = AS_namespace c n \<and> ar_opsConnectorId x = Some c \<and> ar_targetNamespace x = Some n)
        \<or> (\<exists>t. a = AS_team t \<and> ar_requesterTeamId x = Some t)"
      using wf by blast
    have "printApprovalScope a \<in> set (row_candidates x)"
      using a(3,4)
      by (auto simp: row_candidates_def approvalRowScopes_def approval_row.truncate_def truthy_def plain_id_def)
    with a show ?thesis by blast
  qed
  then show ?thesis using parsed_shapes by (auto simp: shape_def)
qed

text \<open>
  The list shows nothing the caller may not open: every row of the answer of the list route
  passes the per-row check of the detail route for the same caller.
\<close>

theorem list_route_sound:
  assumes "list_route cfg w (Some ident) t = Resp_list rows" "r \<in> set rows"
  shows "evalRowAccess cfg w ident (fst (ensurePermissions (w_rbac w) ident)) A_ApprovalsRead r"
proof -
  let ?ps = "fst (ensurePermissions (w_rbac w) ident)"
  obtain x where x: "r = rowToRequest x" "filter_matches (Some (approvalsReadScopeFilter ?ps)) x"
    using assms by (auto simp: list_route_def sql_list_def Let_def split: if_splits)
  have cand: "row_candidates x = row_candidates r"
    by (simp add: x(1) rowToRequest_def row_candidates_def approval_request.truncate_def approval_row.truncate_def)
  have "\<exists>p\<in>set ?ps. action p = A_ApprovalsRead \<and> (\<exists>s\<in>set (row_candidates x). scopeCovers (scope p) s)"
  proof (cases "\<exists>p\<in>set ?ps. action p = A_ApprovalsRead \<and> parseApprovalScope (scope p) = Some AS_wildcard")
    case True
    then obtain p where p: "p \<in> set ?ps" "action p = A_ApprovalsRead" "scope p = ''approvals:*'' \<or> scope p = ''approvals:*:*''"
      using parse_wildcard by blast
    obtain c where c: "c \<in> set (row_candidates x)" by (auto simp: row_candidates_def approvalRowScopes_def)
    have "scopeCovers ''approvals:*:*'' ''approvals:*''" by code_simp
    from scope_cov.covers_trans [OF this wildcard_covers_candidate [OF c]] have "scopeCovers (scope p) c"
      using p(3) wildcard_covers_candidate [OF c] by auto
    with p c show ?thesis by blast
  next
    case False
    then obtain p where "p \<in> set ?ps" "action p = A_ApprovalsRead" "scope p \<in> set (row_candidates x)"
      using narrow_grant [OF x(2)] by blast
    then show ?thesis using scope_cov.covers_refl by blast
  qed
  then show ?thesis unfolding row_access cand by blast
qed


definition approval_db :: "string \<Rightarrow> string \<Rightarrow> rbac_db" where
  "approval_db act sc = demo_db\<lparr>db_perms := [\<lparr>pr_id = ''p'', pr_roleId = ''r'', pr_action = act, pr_scope = sc,
     pr_kind = ''approvals'', pr_attribute = ''*'', pr_identifier = ''*'', pr_created = 0, pr_updated = 0\<rparr>],
     db_user_roles := [\<lparr>ur_id = ''ur'', ur_orgId = '''', ur_userId = ''u'', ur_roleId = ''r'', ur_created = 0\<rparr>]\<rparr>"

definition approval_world :: "string \<Rightarrow> string \<Rightarrow> ac_world" where
  "approval_world act sc = demo_world\<lparr>w_rbac := approval_db act sc\<rparr>"

definition no_legacy :: ac_config where
  "no_legacy = \<lparr>ac_resolvers = None, ac_legacyAcl = False, ac_legacyEnabled = False, ac_legacyThrows = False\<rparr>"

theorem approve_route_authorized_witness:
  "\<exists>r t'. approve_route no_legacy (approval_world ''approvals:approve'' ''approvals:connector:prod'') [''cb''] 5
       (Some demo_user) ''a1'' demo_table = (Resp_record r, t', [(''cb'', r)])
     \<and> sql_status t' ''a1'' = Some AP_approved"
proof -
  let ?x = "approve_route no_legacy (approval_world ''approvals:approve'' ''approvals:connector:prod'') [''cb''] 5
       (Some demo_user) ''a1'' demo_table"
  have "case fst ?x of Resp_record r \<Rightarrow> True | _ \<Rightarrow> False" by code_simp
  then obtain r t' ev where x: "?x = (Resp_record r, t', ev)" by (cases ?x) (auto split: approval_response.splits)
  show ?thesis using approve_route_authorized [OF x] x by (auto simp: notify_def)
qed

definition demo_org_user :: identity where
  "demo_org_user = demo_user\<lparr>id_orgId := DEFAULT_ORG, id_userId := ''u''\<rparr>"

theorem list_route_sound_witness:
  "\<exists>rows r. list_route no_legacy (approval_world ''approvals:read'' ''approvals:namespace:prod:app'') (Some demo_org_user)
       demo_table = Resp_list rows \<and> r \<in> set rows
     \<and> evalRowAccess no_legacy (approval_world ''approvals:read'' ''approvals:namespace:prod:app'') demo_org_user
        (fst (ensurePermissions (approval_db ''approvals:read'' ''approvals:namespace:prod:app'') demo_org_user)) A_ApprovalsRead r"
proof -
  let ?w = "approval_world ''approvals:read'' ''approvals:namespace:prod:app''"
  let ?x = "list_route no_legacy ?w (Some demo_org_user) demo_table"
  have "case ?x of Resp_list rows \<Rightarrow> rows \<noteq> [] | _ \<Rightarrow> False" by code_simp
  then obtain r rows where x: "?x = Resp_list (r # rows)"
    by (cases ?x) (auto simp: neq_Nil_conv split: approval_response.splits)
  show ?thesis
    using list_route_sound [OF x, of r] x by (auto simp: approval_world_def)
qed

text \<open>
  The list forgets the broadest grants: a caller whose only \<^verbatim>\<open>approvals:read\<close> grant has the
  empty scope (which covers everything) may open every request, but the list route gives him an
  empty list, because the scope parser knows only the spelled-out wildcard.
\<close>

theorem list_hides_unrestricted:
  assumes "fst (ensurePermissions (w_rbac w) ident) = [\<lparr>action = A_ApprovalsRead, scope = ''''\<rparr>]"
  shows "list_route cfg w (Some ident) t = Resp_list []
     \<and> evalRowAccess cfg w ident [\<lparr>action = A_ApprovalsRead, scope = ''''\<rparr>] A_ApprovalsRead row"
proof
  have "approvalsReadScopeFilter [\<lparr>action = A_ApprovalsRead, scope = ''''\<rparr>] =
      Filter_narrow \<lparr>sf_uids = [], sf_connectors = [], sf_nsPairs = [], sf_teams = []\<rparr>"
    by (simp add: approvalsReadScopeFilter_def parseApprovalScope_def Let_def)
  then show "list_route cfg w (Some ident) t = Resp_list []"
    by (simp add: list_route_def assms sql_list_def filter_is_empty_def narrow_empty_def)
  obtain c where "c \<in> set (row_candidates row)" by (auto simp: row_candidates_def approvalRowScopes_def)
  then show "evalRowAccess cfg w ident [\<lparr>action = A_ApprovalsRead, scope = ''''\<rparr>] A_ApprovalsRead row"
    unfolding row_access assms by (auto simp: scopeCovers_def)
qed

theorem list_hides_unrestricted_witness:
  "list_route no_legacy (approval_world ''approvals:read'' '''') (Some demo_org_user) demo_table = Resp_list []
   \<and> demo_table \<noteq> []"
proof -
  have "fst (ensurePermissions (w_rbac (approval_world ''approvals:read'' '''')) demo_org_user) =
      [\<lparr>action = A_ApprovalsRead, scope = ''''\<rparr>]"
    by code_simp
  from list_hides_unrestricted [OF this, of no_legacy demo_table "hd demo_table"] show ?thesis
    by (simp add: demo_table_def [THEN arg_cong, of "\<lambda>t. t \<noteq> []"])
qed

section \<open>Who is asked\<close>

definition grant_roles :: "rbac_db \<Rightarrow> 'a approval_row_scheme \<Rightarrow> string set" where
  "grant_roles db row = {pr_roleId p |p. p \<in> set (db_perms db) \<and> pr_action p = A_ApprovalsApprove
     \<and> (\<exists>c\<in>set (row_candidates row). scopeCovers (pr_scope p) c)}"

lemma set_findApprovers:
  "set (findApprovers db orgUsers orgId row) =
     {ur_userId r |r. r \<in> set (db_user_roles db) \<and> ur_roleId r \<in> grant_roles db row \<and> ur_orgId r \<in> {orgId, ''''}}
   \<union> {tm_userId m |m t. m \<in> set (db_team_members db) \<and> t \<in> set (db_team_roles db) \<and> tm_teamId m = tr_teamId t
        \<and> tr_roleId t \<in> grant_roles db row \<and> tr_orgId t \<in> {orgId, ''''}}
   \<union> {u |u n b. (u, n) \<in> set (take 10000 orgUsers) \<and> b \<in> set (db_builtin db) \<and> bi_orgId b = orgId
        \<and> bi_role b = n \<and> bi_roleId b \<in> grant_roles db row}"
  (is "_ = ?direct \<union> ?teams \<union> ?builtin")
proof -
  define matching where "matching = filter (\<lambda>p. permScopeMatchesRow (pr_scope p) (row_candidates row))
      (permission_listByAction db A_ApprovalsApprove)"
  have roles: "set (js_uniq (map pr_roleId matching)) = grant_roles db row"
    by (auto simp: matching_def grant_roles_def permScopeMatchesRow_def list_ex_iff permission_listByAction_def)
  have none: "matching = [] \<Longrightarrow> grant_roles db row = {}" using roles by auto
  define names where "names = js_uniq (map bi_role
      (filter (\<lambda>m. bi_roleId m \<in> set (js_uniq (map pr_roleId matching))) (listBuiltinRoles db orgId)))"
  have names: "set names = {bi_role b |b. b \<in> set (db_builtin db) \<and> bi_orgId b = orgId \<and> bi_roleId b \<in> grant_roles db row}"
    unfolding names_def roles by (auto simp: listBuiltinRoles_def)
  have sel: "set (if names = [] then [] else map fst (filter (\<lambda>(u, r). r \<in> set names) members)) =
      {u |u n. (u, n) \<in> set members \<and> n \<in> set names}" for members
    by (auto simp: image_iff)
  have builtin: "set (if names = [] then []
      else map fst (filter (\<lambda>(u, r). r \<in> set names) (take 10000 orgUsers))) = ?builtin"
    unfolding sel unfolding names by blast
  have direct: "set (concat (map (\<lambda>rid. map ur_userId (filter (\<lambda>r. ur_orgId r = orgId \<or> ur_orgId r = '''')
      (user_role_listByRole db rid))) (js_uniq (map pr_roleId matching)))) = ?direct"
    unfolding set_concat set_map roles by (auto simp: user_role_listByRole_def)
  have teams: "set (concat (map (\<lambda>rid. concat (map (\<lambda>t. map tm_userId (team_member_listByTeam db (tr_teamId t)))
      (filter (\<lambda>r. tr_orgId r = orgId \<or> tr_orgId r = '''') (team_role_listByRole db rid))))
      (js_uniq (map pr_roleId matching)))) = ?teams"
    unfolding set_concat set_map roles by (force simp: team_role_listByRole_def team_member_listByTeam_def)
  show ?thesis
  proof (cases "matching = []")
    case True
    then show ?thesis
      using none by (simp add: findApprovers_def Let_def row_candidates_def [symmetric] matching_def [symmetric])
  next
    case False
    then show ?thesis
      unfolding findApprovers_def Let_def row_candidates_def [symmetric] matching_def [symmetric] names_def [symmetric]
      using direct teams builtin by (simp only: if_False set_js_uniq set_append Un_assoc)
  qed
qed



text \<open>
  Without that proviso the router leaves the organisation: the members of a team holding a
  global role with a covering grant are returned for every organisation, whichever organisation
  their membership is in.
\<close>

theorem approver_of_other_org:
  assumes "m \<in> set (db_team_members db)" "t \<in> set (db_team_roles db)" "tm_teamId m = tr_teamId t" "tr_orgId t = ''''"
    and "p \<in> set (db_perms db)" "pr_roleId p = tr_roleId t" "pr_action p = A_ApprovalsApprove"
    and "s \<in> set (row_candidates row)" "scopeCovers (pr_scope p) s"
  shows "tm_userId m \<in> set (findApprovers db orgUsers orgId row)"
proof -
  have "tr_roleId t \<in> grant_roles db row" using assms(5,7-9) unfolding grant_roles_def assms(6) [symmetric] by blast
  then show ?thesis unfolding set_findApprovers using assms(1-4) by blast
qed


definition team_db :: rbac_db where
  "team_db = (approval_db ''approvals:approve'' ''approvals:*'')
     \<lparr>db_team_members := [\<lparr>tm_id = ''m'', tm_orgId = ''other'', tm_teamId = ''t'', tm_userId = ''eve'',
         tm_external = False, tm_permission = 0, tm_created = 0, tm_updated = 0\<rparr>],
      db_team_roles := [\<lparr>tr_id = ''tr'', tr_orgId = '''', tr_teamId = ''t'', tr_roleId = ''r'', tr_created = 0\<rparr>]\<rparr>"

theorem approver_of_other_org_witness:
  "''eve'' \<in> set (findApprovers team_db [] ''o'' (new_request ''a1'' 0 demo_params))"
proof -
  let ?row = "new_request ''a1'' 0 demo_params"
  have "''approvals:uid:a1'' \<in> set (row_candidates ?row)" "scopeCovers ''approvals:*'' ''approvals:uid:a1''"
    by code_simp+
  then show ?thesis
    using approver_of_other_org [of "hd (db_team_members team_db)" team_db "hd (db_team_roles team_db)"
        "hd (db_perms team_db)" "''approvals:uid:a1''" ?row "[]" "''o''"]
    by (simp add: team_db_def approval_db_def)
qed

end
