(* ===== verification/Kubectl.thy ===== *)
theory Kubectl
  imports Rounds_Prelude "HOL-Library.Char_ord" "HOL-Library.List_Lexorder"
begin

text \<open>
  The command policy in front of the cluster,
  \<^verbatim>\<open>packages/adapters/src/execution/kubectl-allowlist.ts\<close>, and the adapter that
  spawns \<^verbatim>\<open>kubectl\<close> behind it,
  \<^verbatim>\<open>packages/adapters/src/execution/kubectl-adapter.ts\<close>.  The child process,
  the kubeconfig resolver and the optional pre-guard are parameters.  The results: what an
  allowed write guarantees, that permanent denials win in both modes, that read permission
  implies write-mode permission, the exact meaning of the three-way classification, when the
  tokenizer returns and what it returns, and that the adapter spawns nothing the policy rejects.
\<close>

section \<open>Verb tables\<close>

definition READ_VERBS :: "string list" where
  "READ_VERBS = [''get'', ''describe'', ''logs'', ''top'', ''events'', ''version'',
     ''api-resources'', ''api-versions'']"

definition WRITE_VERBS :: "string list" where
  "WRITE_VERBS = [''scale'', ''rollout'', ''patch'', ''apply'', ''annotate'', ''label'', ''delete'']"

definition ROLLOUT_READ_SUBCOMMANDS :: "string list" where
  "ROLLOUT_READ_SUBCOMMANDS = [''status'', ''history'']"

definition ROLLOUT_WRITE_SUBCOMMANDS :: "string list" where
  "ROLLOUT_WRITE_SUBCOMMANDS = [''restart'', ''undo'', ''pause'', ''resume'']"

definition CONFIG_READ_SUBCOMMANDS :: "string list" where
  "CONFIG_READ_SUBCOMMANDS = [''current-context'']"

definition PERMANENT_DENY_VERBS :: "string list" where
  "PERMANENT_DENY_VERBS = [''exec'', ''cp'', ''port-forward'', ''proxy'', ''attach'']"

definition PERMANENT_DENY_NAMESPACES :: "string list" where
  "PERMANENT_DENY_NAMESPACES = [''kube-system'', ''kube-public'', ''kube-node-lease'']"

lemmas verb_tables [rounds_defs] = READ_VERBS_def WRITE_VERBS_def ROLLOUT_READ_SUBCOMMANDS_def
  ROLLOUT_WRITE_SUBCOMMANDS_def CONFIG_READ_SUBCOMMANDS_def PERMANENT_DENY_VERBS_def
  PERMANENT_DENY_NAMESPACES_def

section \<open>Reading an argument vector\<close>

record parsed_kubectl =
  verb :: string
  namespace :: "string option"
  hasAuthCanIAs :: bool
  subResource :: "string option"
  resourceName :: "string option"

text \<open>
  The loop of \<^verbatim>\<open>parseKubectlArgv\<close>: the namespace seen last, whether an
  \<^verbatim>\<open>--as\<close> flag was seen, and the positional arguments.
\<close>

fun scan_argv :: "string list \<Rightarrow> string option \<Rightarrow> bool \<Rightarrow> string list \<Rightarrow>
    string option \<times> bool \<times> string list" where
  "scan_argv [] ns asf positional = (ns, asf, positional)"
| "scan_argv (tok # rest) ns asf positional =
     (if tok = ''-n'' \<or> tok = ''--namespace'' then
        scan_argv (drop 1 rest) (arr_get rest 0) asf positional
      else if js_startsWith tok ''--namespace='' then
        scan_argv rest (Some (drop (length ''--namespace='') tok)) asf positional
      else if tok = ''--as'' \<or> js_startsWith tok ''--as='' then
        scan_argv (if tok = ''--as'' then drop 1 rest else rest) ns True positional
      else if js_startsWith tok ''-'' then scan_argv rest ns asf positional
      else scan_argv rest ns asf (positional @ [tok]))"

definition parseKubectlArgv :: "string list \<Rightarrow> parsed_kubectl" where
  "parseKubectlArgv argv =
     (let (ns, asf, positional) = scan_argv argv None False [];
          v = (case arr_get positional 0 of Some x \<Rightarrow> x | None \<Rightarrow> '''');
          sub = arr_get positional 1;
          name = arr_get positional 2
      in \<lparr>verb = v, namespace = ns,
          hasAuthCanIAs = (v = ''auth'' \<and> sub = Some ''can-i'' \<and> asf),
          subResource = sub, resourceName = name\<rparr>)"

section \<open>The policy\<close>

definition in_opt :: "string option \<Rightarrow> string list \<Rightarrow> bool" where
  "in_opt s xs \<longleftrightarrow> (case s of None \<Rightarrow> False | Some x \<Rightarrow> x \<noteq> '''' \<and> x \<in> set xs)"

definition isKubectlRead :: "parsed_kubectl \<Rightarrow> bool" where
  "isKubectlRead parsed =
     (if verb parsed \<in> set READ_VERBS then True
      else if verb parsed = ''rollout'' \<and> in_opt (subResource parsed) ROLLOUT_READ_SUBCOMMANDS then True
      else if verb parsed = ''config'' \<and> in_opt (subResource parsed) CONFIG_READ_SUBCOMMANDS then True
      else False)"

definition isKubectlWrite :: "parsed_kubectl \<Rightarrow> bool" where
  "isKubectlWrite parsed =
     (if verb parsed \<in> set WRITE_VERBS \<and> verb parsed \<noteq> ''rollout'' then True
      else if verb parsed = ''rollout'' \<and> in_opt (subResource parsed) ROLLOUT_WRITE_SUBCOMMANDS then True
      else False)"

definition isSecretResource :: "string option \<Rightarrow> bool" where
  "isSecretResource r \<longleftrightarrow> r = Some ''secret'' \<or> r = Some ''secrets''"

definition isSecretRead :: "parsed_kubectl \<Rightarrow> bool" where
  "isSecretRead parsed \<longleftrightarrow>
     (verb parsed = ''get'' \<or> verb parsed = ''describe'') \<and> isSecretResource (subResource parsed)"

definition isSecretDelete :: "parsed_kubectl \<Rightarrow> bool" where
  "isSecretDelete parsed \<longleftrightarrow> verb parsed = ''delete'' \<and> isSecretResource (subResource parsed)"

datatype kubectl_mode = Mode_read | Mode_write

text \<open>\<^verbatim>\<open>{allow: true}\<close> or \<^verbatim>\<open>{allow: false, reason}\<close>.\<close>

datatype allowlist_decision = Allow | Refuse string

abbreviation quoted :: "string \<Rightarrow> string" where
  "quoted s \<equiv> [CHR 0x27] @ s @ [CHR 0x27]"

definition ns_refusal :: "string \<Rightarrow> string" where
  "ns_refusal n = ''namespace '' @ quoted n @ '' is not in the connector'' @ [CHR 0x27]
     @ ''s allowed namespaces''"

definition absent_or_empty :: "string option \<Rightarrow> bool" where
  "absent_or_empty s \<longleftrightarrow> s = None \<or> s = Some ''''"

text \<open>The namespace gate that reads are subject to in both modes.\<close>

definition read_namespace_gate :: "parsed_kubectl \<Rightarrow> string list \<Rightarrow> allowlist_decision" where
  "read_namespace_gate parsed allowedNamespaces =
     (case namespace parsed of
        None \<Rightarrow> Allow
      | Some n \<Rightarrow> if allowedNamespaces \<noteq> [] \<and> n \<notin> set allowedNamespaces
                  then Refuse (ns_refusal n) else Allow)"

definition checkKubectl :: "string list \<Rightarrow> kubectl_mode \<Rightarrow> string list \<Rightarrow> allowlist_decision" where
  "checkKubectl argv mode allowedNamespaces =
     (if argv = [] then Refuse ''empty kubectl argv''
      else let parsed = parseKubectlArgv argv in
      if verb parsed = '''' then Refuse ''kubectl argv has no verb''
      else if verb parsed \<in> set PERMANENT_DENY_VERBS then
        Refuse (''kubectl verb '' @ quoted (verb parsed) @ '' is permanently denied'')
      else if hasAuthCanIAs parsed then Refuse ''kubectl auth can-i --as is permanently denied''
      else if isSecretRead parsed then
        Refuse ''kubectl secret reads are denied because they can expose credentials''
      else if isSecretDelete parsed then Refuse ''kubectl secret delete is denied''
      else let isRead = isKubectlRead parsed; isWrite = isKubectlWrite parsed in
      case mode of
        Mode_read \<Rightarrow>
          if \<not> isRead then
            Refuse (''kubectl verb '' @ quoted (verb parsed)
              @ '' is not on the read-allowlist (allowed: '' @ join_with '', '' (sort READ_VERBS) @ '')'')
          else read_namespace_gate parsed allowedNamespaces
      | Mode_write \<Rightarrow>
          if \<not> isRead \<and> \<not> isWrite then
            Refuse (''kubectl verb '' @ quoted (verb parsed)
              @ '' is not on the write-allowlist (allowed: ''
              @ join_with '', '' (sort (js_uniq (READ_VERBS @ WRITE_VERBS))) @ '')'')
          else if isWrite then
            (if verb parsed = ''delete''
                \<and> (absent_or_empty (subResource parsed) \<or> absent_or_empty (resourceName parsed))
             then Refuse ''kubectl delete requires both a resource type and an explicit resource name''
             else (case namespace parsed of
                None \<Rightarrow> Refuse (''kubectl '' @ verb parsed
                  @ '' requires --namespace; refusing to write at cluster scope'')
              | Some n \<Rightarrow>
                  if n \<in> set PERMANENT_DENY_NAMESPACES then
                    Refuse (''kubectl write to namespace '' @ quoted n @ '' is permanently denied'')
                  else if allowedNamespaces \<noteq> [] \<and> n \<notin> set allowedNamespaces then
                    Refuse (ns_refusal n)
                  else Allow))
          else read_namespace_gate parsed allowedNamespaces)"

section \<open>From a command string to an argument vector\<close>

definition shell_meta :: "char \<Rightarrow> bool" where
  "shell_meta c \<longleftrightarrow> c \<in> {CHR 0x60, CHR ''$'', CHR ''|'', CHR '';'', CHR ''&'', CHR ''>'', CHR ''<''}"

definition is_quote :: "char \<Rightarrow> bool" where
  "is_quote c \<longleftrightarrow> c = CHR 0x22 \<or> c = CHR 0x27"

definition skip_blank :: "char \<Rightarrow> bool" where
  "skip_blank c \<longleftrightarrow> c = CHR 0x20 \<or> c = CHR 0x09 \<or> c = CHR 0x0A"

text \<open>
  The \<^verbatim>\<open>while\<close> loop of the tokenizer over the rest of the input and the tokens
  pushed so far.  An unterminated quote returns the empty vector; \<^const>\<open>None\<close> means
  that the loop never ends.
\<close>

partial_function (option) tokenize_from :: "string \<Rightarrow> string list \<Rightarrow> string list option" where
  "tokenize_from s tokens =
     (case s of
        [] \<Rightarrow> Some tokens
      | ch # rest \<Rightarrow>
          if skip_blank ch then tokenize_from rest tokens
          else if is_quote ch then
            (case dropWhile (\<lambda>x. x \<noteq> ch) rest of
               [] \<Rightarrow> Some []
             | q # rest' \<Rightarrow> tokenize_from rest' (tokens @ [takeWhile (\<lambda>x. x \<noteq> ch) rest]))
          else tokenize_from (dropWhile (\<lambda>x. \<not> js_ws x) s)
                 (tokens @ [takeWhile (\<lambda>x. \<not> js_ws x) s]))"

definition parseKubectlCommandString :: "string \<Rightarrow> string list option" where
  "parseKubectlCommandString command =
     (let trimmed = js_trim command in
      if trimmed = '''' then Some []
      else if list_ex shell_meta trimmed then Some []
      else map_option (\<lambda>tokens. if arr_get tokens 0 = Some ''kubectl'' then drop 1 tokens else tokens)
             (tokenize_from trimmed []))"

datatype policy_decision = PD_read | PD_approval_required | PD_denied

record command_policy =
  decision :: policy_decision
  pol_reason :: string
  pol_argv :: "string list"

definition classifyKubectlCommand :: "string \<Rightarrow> string list \<Rightarrow> command_policy option" where
  "classifyKubectlCommand command allowedNamespaces =
     (let trimmed = js_trim command in
      if trimmed = '''' then
        Some \<lparr>decision = PD_denied, pol_reason = ''empty kubectl command'', pol_argv = []\<rparr>
      else if \<not> js_startsWith (js_toLowerCase trimmed) ''kubectl '' then
        Some \<lparr>decision = PD_denied,
              pol_reason = ''only kubectl commands are supported for Kubernetes connectors'',
              pol_argv = []\<rparr>
      else (case parseKubectlCommandString trimmed of
        None \<Rightarrow> None
      | Some argv \<Rightarrow>
          if argv = [] then
            Some \<lparr>decision = PD_denied,
                  pol_reason = ''kubectl command could not be parsed safely'', pol_argv = []\<rparr>
          else (case checkKubectl argv Mode_read allowedNamespaces of
            Allow \<Rightarrow> Some \<lparr>decision = PD_read, pol_reason = ''read-only inspection command'',
                            pol_argv = argv\<rparr>
          | Refuse r \<Rightarrow>
              (case checkKubectl argv Mode_write allowedNamespaces of
                 Allow \<Rightarrow> Some \<lparr>decision = PD_approval_required,
                                 pol_reason = ''mutating cluster command'', pol_argv = argv\<rparr>
               | Refuse w \<Rightarrow> Some \<lparr>decision = PD_denied, pol_reason = w, pol_argv = argv\<rparr>))))"

section \<open>The adapter\<close>

text \<open>
  The result of one child process, or the error that its start raised.  The kubeconfig
  resolver and the temporary file belong to that parameter.  The list of spawned argument
  vectors is returned beside the result.
\<close>

record run_result =
  rr_stdout :: string
  rr_stderr :: string
  rr_exitCode :: int
  rr_timedOut :: bool

record adapter_options =
  ao_allowedNamespaces :: "string list"
  ao_mode :: kubectl_mode
  ao_timeoutMs :: string
  ao_preGuard :: "(string list \<Rightarrow> string option) option"

record execution_result =
  er_success :: bool
  er_output :: string
  er_error :: "string option"

definition takeArgv :: "(string \<times> json) list \<Rightarrow> string list option" where
  "takeArgv params =
     (case map_of params ''argv'' of
        Some (JArr xs) \<Rightarrow> if list_all is_JStr xs then Some (map the_JStr xs) else None
      | _ \<Rightarrow> None)"

definition argv_type_error :: string where
  "argv_type_error = ''KubectlExecutionAdapter: action.params.argv must be string[]''"

definition adapter_capabilities :: "adapter_options \<Rightarrow> string list" where
  "adapter_capabilities opts =
     (let readCapabilities = [''runtime.get'', ''runtime.list'', ''runtime.logs'', ''runtime.events'']
      in case ao_mode opts of
           Mode_read \<Rightarrow> readCapabilities
         | Mode_write \<Rightarrow> readCapabilities
             @ [''runtime.restart'', ''runtime.scale'', ''runtime.rollout'', ''runtime.delete''])"

text \<open>\<^verbatim>\<open>validate\<close>: the reason of an invalid action, or the vector of a valid one.\<close>

definition adapter_validate :: "adapter_options \<Rightarrow> (string \<times> json) list \<Rightarrow> string + string list" where
  "adapter_validate opts params =
     (case takeArgv params of
        None \<Rightarrow> Inl argv_type_error
      | Some argv \<Rightarrow> (case checkKubectl argv (ao_mode opts) (ao_allowedNamespaces opts) of
           Allow \<Rightarrow> Inr argv
         | Refuse r \<Rightarrow> Inl r))"

definition failed_result :: "string \<Rightarrow> execution_result" where
  "failed_result e = \<lparr>er_success = False, er_output = '''', er_error = Some e\<rparr>"

definition or_else :: "string \<Rightarrow> string \<Rightarrow> string" where
  "or_else a b = (if a = '''' then b else a)"

definition run_message :: "adapter_options \<Rightarrow> (int \<Rightarrow> string) \<Rightarrow> run_result \<Rightarrow> string option" where
  "run_message opts showInt r =
     (if rr_exitCode r \<noteq> 0 \<or> rr_timedOut r then
        Some (if rr_timedOut r then ''kubectl timed out after '' @ ao_timeoutMs opts @ ''ms''
              else ''kubectl exited '' @ showInt (rr_exitCode r) @ '': ''
                   @ or_else (js_trim (rr_stderr r)) (js_trim (rr_stdout r)))
      else None)"

definition adapter_execute ::
  "(int \<Rightarrow> string) \<Rightarrow> (string list \<Rightarrow> string + run_result) \<Rightarrow> adapter_options \<Rightarrow> (string \<times> json) list \<Rightarrow>
   (string + execution_result) \<times> string list list" where
  "adapter_execute showInt spawn opts params =
     (case adapter_validate opts params of
        Inl reason \<Rightarrow> (Inr (failed_result reason), [])
      | Inr argv \<Rightarrow>
          (case (case ao_preGuard opts of None \<Rightarrow> None | Some g \<Rightarrow> g argv) of
             Some reason \<Rightarrow> (Inr (failed_result (''pre-guard rejected: '' @ reason)), [])
           | None \<Rightarrow>
               (case spawn argv of
                  Inl e \<Rightarrow> (Inl e, [argv])
                | Inr r \<Rightarrow> (Inr \<lparr>er_success = (rr_exitCode r = 0 \<and> \<not> rr_timedOut r),
                                  er_output = rr_stdout r,
                                  er_error = run_message opts showInt r\<rparr>, [argv]))))"

definition adapter_dryRun ::
  "(int \<Rightarrow> string) \<Rightarrow> (string list \<Rightarrow> string + run_result) \<Rightarrow> adapter_options \<Rightarrow> (string \<times> json) list \<Rightarrow>
   (string + string \<times> string list) \<times> string list list" where
  "adapter_dryRun showInt spawn opts params =
     (case adapter_validate opts params of
        Inl reason \<Rightarrow> (Inl (''kubectl dry-run rejected: '' @ reason), [])
      | Inr argv \<Rightarrow>
          (let argv' = argv @ [''--dry-run=server'', ''-o'', ''yaml''] in
           case spawn argv' of
             Inl e \<Rightarrow> (Inl e, [argv'])
           | Inr r \<Rightarrow>
               (if rr_exitCode r \<noteq> 0 then
                  (Inl (''kubectl --dry-run=server exited '' @ showInt (rr_exitCode r) @ '': ''
                     @ or_else (js_trim (rr_stderr r)) (js_trim (rr_stdout r))), [argv'])
                else (Inr (rr_stdout r, if rr_stderr r = '''' then [] else [js_trim (rr_stderr r)]),
                      [argv']))))"

section \<open>What the policy guarantees\<close>

lemma read_not_write: "isKubectlRead p \<Longrightarrow> \<not> isKubectlWrite p"
  by (auto simp: isKubectlRead_def isKubectlWrite_def in_opt_def verb_tables
        split: if_splits option.splits)

text \<open>The refusals that come before the mode is looked at.\<close>

definition permanently_refused :: "parsed_kubectl \<Rightarrow> bool" where
  "permanently_refused p \<longleftrightarrow> verb p = '''' \<or> verb p \<in> set PERMANENT_DENY_VERBS
     \<or> hasAuthCanIAs p \<or> isSecretRead p \<or> isSecretDelete p"

definition write_target_ok :: "parsed_kubectl \<Rightarrow> string list \<Rightarrow> bool" where
  "write_target_ok p allowed \<longleftrightarrow>
     (\<exists>n. namespace p = Some n \<and> n \<notin> set PERMANENT_DENY_NAMESPACES
        \<and> (allowed = [] \<or> n \<in> set allowed))
     \<and> (verb p = ''delete'' \<longrightarrow> \<not> absent_or_empty (subResource p) \<and> \<not> absent_or_empty (resourceName p))"

definition read_target_ok :: "parsed_kubectl \<Rightarrow> string list \<Rightarrow> bool" where
  "read_target_ok p allowed \<longleftrightarrow>
     (\<forall>n. namespace p = Some n \<longrightarrow> allowed = [] \<or> n \<in> set allowed)"

lemma read_gate_Allow: "read_namespace_gate p allowed = Allow \<longleftrightarrow> read_target_ok p allowed"
  by (auto simp: read_namespace_gate_def read_target_ok_def split: option.splits)

lemma check_read_Allow:
  "checkKubectl argv Mode_read allowed = Allow \<longleftrightarrow>
     argv \<noteq> [] \<and> \<not> permanently_refused (parseKubectlArgv argv)
     \<and> isKubectlRead (parseKubectlArgv argv) \<and> read_target_ok (parseKubectlArgv argv) allowed"
  by (simp add: checkKubectl_def permanently_refused_def Let_def read_gate_Allow)

lemma check_write_Allow:
  "checkKubectl argv Mode_write allowed = Allow \<longleftrightarrow>
     argv \<noteq> [] \<and> \<not> permanently_refused (parseKubectlArgv argv)
     \<and> (isKubectlRead (parseKubectlArgv argv) \<and> read_target_ok (parseKubectlArgv argv) allowed
        \<or> isKubectlWrite (parseKubectlArgv argv) \<and> write_target_ok (parseKubectlArgv argv) allowed)"
proof -
  let ?p = "parseKubectlArgv argv"
  consider (w) "isKubectlWrite ?p" "\<not> isKubectlRead ?p" | (r) "isKubectlRead ?p" "\<not> isKubectlWrite ?p"
    | (n) "\<not> isKubectlRead ?p" "\<not> isKubectlWrite ?p"
    using read_not_write by blast
  then show ?thesis
  proof cases
    case w
    then show ?thesis
      by (auto simp: checkKubectl_def permanently_refused_def Let_def write_target_ok_def
          split: option.splits)
  next
    case r
    then show ?thesis
      by (simp add: checkKubectl_def permanently_refused_def Let_def read_gate_Allow)
  next
    case n
    then show ?thesis by (simp add: checkKubectl_def Let_def)
  qed
qed

text \<open>
  C2. Safety of an allowed mutation: when write mode lets a command through that is not a read,
  its verb is on the write list, it names a namespace, that namespace is none of the
  protected system namespaces and is on the connector's list if there is one, a delete
  names both type and object, and no permanent denial applies.
\<close>

theorem allowed_write_safe:
  assumes "checkKubectl argv Mode_write allowed = Allow"
    and "\<not> isKubectlRead (parseKubectlArgv argv)"
  shows "isKubectlWrite (parseKubectlArgv argv) \<and> write_target_ok (parseKubectlArgv argv) allowed
     \<and> \<not> permanently_refused (parseKubectlArgv argv)"
  using assms by (auto simp: check_write_Allow)

theorem allowed_write_safe_witness:
  "write_target_ok (parseKubectlArgv [''scale'', ''deploy'', ''web'', ''-n'', ''app'']) [''app'']"
proof -
  let ?argv = "[''scale'', ''deploy'', ''web'', ''-n'', ''app'']"
  have a: "checkKubectl ?argv Mode_write [''app''] = Allow" by code_simp
  have b: "\<not> isKubectlRead (parseKubectlArgv ?argv)" by code_simp
  show ?thesis using allowed_write_safe [OF a b] by blast
qed

text \<open>
  Permanent denials win in both modes and for every connector: a command whose verb is on
  the permanent list, an impersonating \<^verbatim>\<open>auth can-i --as\<close>, and reading or deleting
  a resource of type secret are never allowed; and what read mode allows write mode allows.
\<close>

theorem permanent_deny_wins:
  "(permanently_refused (parseKubectlArgv argv) \<longrightarrow> checkKubectl argv mode allowed \<noteq> Allow)
   \<and> (checkKubectl argv Mode_read allowed = Allow \<longrightarrow> checkKubectl argv Mode_write allowed = Allow)"
  by (cases mode) (auto simp: check_read_Allow check_write_Allow)

theorem permanent_deny_wins_witness:
  "checkKubectl [''exec'', ''web'', ''-n'', ''app''] Mode_write [''app''] \<noteq> Allow
   \<and> checkKubectl [''get'', ''pods''] Mode_write [] = Allow"
proof -
  have a: "permanently_refused (parseKubectlArgv [''exec'', ''web'', ''-n'', ''app''])" by code_simp
  have b: "checkKubectl [''get'', ''pods''] Mode_read [] = Allow" by code_simp
  show ?thesis
    using a b permanent_deny_wins [of "[''exec'', ''web'', ''-n'', ''app'']" Mode_write "[''app'']"]
      permanent_deny_wins [of "[''get'', ''pods'']" Mode_write "[]"] by blast
qed

text \<open>
  A connector without an allowed-namespace list accepts writes to every namespace that is not
  a protected one: with the empty list the write gate is open, not closed.
\<close>

theorem empty_allowlist_opens_writes:
  assumes "n \<notin> set PERMANENT_DENY_NAMESPACES"
  shows "checkKubectl [''scale'', ''deploy'', ''web'', ''-n'', n] Mode_write [] = Allow"
  using assms
  by (simp add: check_write_Allow write_target_ok_def permanently_refused_def isKubectlRead_def
      isKubectlWrite_def isSecretRead_def isSecretDelete_def parseKubectlArgv_def verb_tables
      js_startsWith_def in_opt_def)

theorem empty_allowlist_opens_writes_witness:
  "checkKubectl [''scale'', ''deploy'', ''web'', ''-n'', ''billing''] Mode_write [] = Allow"
  by (rule empty_allowlist_opens_writes) (simp add: PERMANENT_DENY_NAMESPACES_def)

text \<open>
  The secret guard compares the resource token literally, so the equivalent
  \<^verbatim>\<open>type/name\<close> form of a secret passes as a plain read for every secret name.
\<close>

theorem secret_slash_form_allowed:
  "checkKubectl [''get'', ''secret/'' @ name, ''-o'', ''yaml''] Mode_read [] = Allow"
  by (simp add: check_read_Allow read_target_ok_def permanently_refused_def isKubectlRead_def
      isSecretRead_def isSecretDelete_def isSecretResource_def parseKubectlArgv_def verb_tables
      js_startsWith_def in_opt_def)

section \<open>The tokenizer\<close>

text \<open>White space the loop neither skips nor consumes: vertical tab, form feed, carriage return.\<close>

definition odd_ws :: "char \<Rightarrow> bool" where
  "odd_ws c \<longleftrightarrow> js_ws c \<and> \<not> skip_blank c"

lemma odd_ws_not_quote: "odd_ws c \<Longrightarrow> \<not> is_quote c"
  by (auto simp: odd_ws_def js_ws_def is_quote_def)

lemma skip_blank_ws: "skip_blank c \<Longrightarrow> js_ws c"
  by (auto simp: skip_blank_def js_ws_def)

lemma dropWhile_before_ws:
  "js_ws c \<Longrightarrow> \<exists>u'. dropWhile (\<lambda>x. \<not> js_ws x) (u @ c # v) = u' @ c # v \<and> set u' \<subseteq> set u"
  by (induction u) (auto intro: exI [of _ "_ # _"])

lemma tokenize_returns_no_odd:
  assumes "tokenize_from s tokens = Some r"
  shows "\<forall>u c v. s = u @ c # v \<longrightarrow> odd_ws c \<longrightarrow> (\<exists>q\<in>set u. is_quote q)"
proof (rule tokenize_from.raw_induct
    [where P = "\<lambda>s t r. \<forall>u c v. s = u @ c # v \<longrightarrow> odd_ws c \<longrightarrow> (\<exists>q\<in>set u. is_quote q)",
     OF _ assms])
  fix f s tokens r
  let ?Q = "\<lambda>s. \<forall>u c v. s = u @ c # v \<longrightarrow> odd_ws c \<longrightarrow> (\<exists>q\<in>set u. is_quote q)"
  assume IH: "\<And>s t r. f s t = Some r \<Longrightarrow> ?Q s"
    and eq: "(case s of [] \<Rightarrow> Some tokens
      | ch # rest \<Rightarrow> if skip_blank ch then f rest tokens
          else if is_quote ch then (case dropWhile (\<lambda>x. x \<noteq> ch) rest of [] \<Rightarrow> Some []
             | q # rest' \<Rightarrow> f rest' (tokens @ [takeWhile (\<lambda>x. x \<noteq> ch) rest]))
          else f (dropWhile (\<lambda>x. \<not> js_ws x) s) (tokens @ [takeWhile (\<lambda>x. \<not> js_ws x) s])) = Some r"
  show "?Q s"
  proof (intro allI impI)
    fix u c v
    assume s: "s = u @ c # v" and odd: "odd_ws c"
    show "\<exists>q\<in>set u. is_quote q"
    proof (cases "s \<noteq> [] \<and> skip_blank (hd s)")
      case True
      with s odd obtain ch u' where u: "u = ch # u'" and b: "skip_blank ch"
        by (cases u) (auto simp: odd_ws_def)
      have "f (u' @ c # v) tokens = Some r" using eq b unfolding s u by simp
      with IH odd u show ?thesis by (metis list.set_intros(2))
    next
      case False
      show ?thesis
      proof (cases "is_quote (hd s)")
        case True
        with s odd show ?thesis by (cases u) (auto simp: odd_ws_not_quote)
      next
        case nq: False
        obtain u' where u': "dropWhile (\<lambda>x. \<not> js_ws x) s = u' @ c # v" "set u' \<subseteq> set u"
          using dropWhile_before_ws odd s unfolding odd_ws_def by blast
        from s have "s \<noteq> []" by simp
        with False nq eq have "f (dropWhile (\<lambda>x. \<not> js_ws x) s) (tokens @ [takeWhile (\<lambda>x. \<not> js_ws x) s]) = Some r"
          by (cases s) auto
        with IH u' odd show ?thesis by blast
      qed
    qed
  qed
qed

lemma tokenize_total:
  "list_all (\<lambda>c. \<not> odd_ws c) s \<Longrightarrow> \<exists>r. tokenize_from s tokens = Some r"
proof (induction s arbitrary: tokens rule: length_induct)
  case (1 s)
  have sub: "list_all (\<lambda>c. \<not> odd_ws c) (dropWhile P t)" if "list_all (\<lambda>c. \<not> odd_ws c) t" for P t
    using that by (auto simp: list_all_iff dest: set_dropWhileD)
  show ?case
  proof (cases s)
    case Nil
    then show ?thesis by (simp add: tokenize_from.simps)
  next
    case (Cons ch rest)
    consider (blank) "skip_blank ch" | (quote) "\<not> skip_blank ch" "is_quote ch"
      | (word) "\<not> skip_blank ch" "\<not> is_quote ch" by blast
    then show ?thesis
    proof cases
      case blank
      with 1 Cons show ?thesis by (subst tokenize_from.simps) simp
    next
      case quote
      show ?thesis
      proof (cases "dropWhile (\<lambda>x. x \<noteq> ch) rest")
        case Nil
        show ?thesis using quote Cons by (subst tokenize_from.simps) (simp add: Nil)
      next
        case (Cons q rest')
        with length_dropWhile_le [of "\<lambda>x. x \<noteq> ch" rest] have "length rest' < length s"
          using \<open>s = ch # rest\<close> by simp
        moreover have "list_all (\<lambda>c. \<not> odd_ws c) rest'"
          using sub [of rest "\<lambda>x. x \<noteq> ch"] "1.prems" \<open>s = ch # rest\<close> Cons by simp
        ultimately show ?thesis
          using "1.IH" quote Cons \<open>s = ch # rest\<close> by (subst tokenize_from.simps) simp
      qed
    next
      case word
      with 1 Cons have nws: "\<not> js_ws ch" by (auto simp: odd_ws_def)
      have "length (dropWhile (\<lambda>x. \<not> js_ws x) rest) < length s"
        using Cons length_dropWhile_le [of "\<lambda>x. \<not> js_ws x" rest] by simp
      then show ?thesis
        using word nws 1 Cons sub [of rest "\<lambda>x. \<not> js_ws x"] by (subst tokenize_from.simps) simp
    qed
  qed
qed

lemma tokenize_chars:
  assumes "tokenize_from s tokens = Some r"
  shows "\<Union> (set ` set r) \<subseteq> \<Union> (set ` set tokens) \<union> set s"
proof (rule tokenize_from.raw_induct
    [where P = "\<lambda>s t r. \<Union> (set ` set r) \<subseteq> \<Union> (set ` set t) \<union> set s", OF _ assms])
  fix f s tokens r
  assume IH: "\<And>s t r. f s t = Some r \<Longrightarrow> \<Union> (set ` set r) \<subseteq> \<Union> (set ` set t) \<union> set s"
    and eq: "(case s of [] \<Rightarrow> Some tokens
      | ch # rest \<Rightarrow> if skip_blank ch then f rest tokens
          else if is_quote ch then (case dropWhile (\<lambda>x. x \<noteq> ch) rest of [] \<Rightarrow> Some []
             | q # rest' \<Rightarrow> f rest' (tokens @ [takeWhile (\<lambda>x. x \<noteq> ch) rest]))
          else f (dropWhile (\<lambda>x. \<not> js_ws x) s) (tokens @ [takeWhile (\<lambda>x. \<not> js_ws x) s])) = Some r"
  show "\<Union> (set ` set r) \<subseteq> \<Union> (set ` set tokens) \<union> set s"
  proof (cases s)
    case Nil
    with eq show ?thesis by simp
  next
    case (Cons ch rest)
    have step: "\<Union> (set ` set r) \<subseteq> \<Union> (set ` set tokens) \<union> set s"
      if "f s' (tokens @ ts) = Some r" "set s' \<subseteq> set s" "\<Union> (set ` set ts) \<subseteq> set s" for s' ts
    proof -
      have "\<Union> (set ` set r) \<subseteq> \<Union> (set ` set tokens) \<union> \<Union> (set ` set ts) \<union> set s'"
        using IH [OF that(1)] by auto
      then show ?thesis using that(2,3) by blast
    qed
    have tw: "set (takeWhile P t) \<subseteq> set t" "set (dropWhile P t) \<subseteq> set t" for P and t :: string
      by (auto dest: set_takeWhileD set_dropWhileD)
    show ?thesis
    proof (cases "skip_blank ch")
      case True
      with eq Cons show ?thesis by (intro step [of rest "[]"]) auto
    next
      case nb: False
      show ?thesis
      proof (cases "is_quote ch")
        case True
        show ?thesis
        proof (cases "dropWhile (\<lambda>x. x \<noteq> ch) rest")
          case Nil
          with eq Cons nb True show ?thesis by auto
        next
          case (Cons q rest')
          with tw [of "\<lambda>x. x \<noteq> ch" rest] eq \<open>s = ch # rest\<close> nb True show ?thesis
            by (intro step [of rest' "[takeWhile (\<lambda>x. x \<noteq> ch) rest]"]) auto
        qed
      next
        case False
        with tw [of "\<lambda>x. \<not> js_ws x" s] eq Cons nb show ?thesis
          by (intro step [of "dropWhile (\<lambda>x. \<not> js_ws x) s" "[takeWhile (\<lambda>x. \<not> js_ws x) s]"])
             (auto split: if_splits)
      qed
    qed
  qed
qed

text \<open>
  The tokenizer returns for every command that, once trimmed, contains no carriage return,
  vertical tab or form feed, and then no argument contains a shell metacharacter.
\<close>

theorem parse_command_returns:
  assumes "list_all (\<lambda>c. \<not> odd_ws c) (js_trim command)"
  shows "\<exists>argv. parseKubectlCommandString command = Some argv
     \<and> list_all (\<lambda>a. list_all (\<lambda>c. \<not> shell_meta c) a) argv"
proof -
  obtain r where r: "tokenize_from (js_trim command) [] = Some r"
    using tokenize_total [OF assms] by blast
  have "set (drop n r) \<subseteq> set r" for n by (rule set_drop_subset)
  with tokenize_chars [OF r] r show ?thesis
    by (fastforce simp: parseKubectlCommandString_def Let_def list_all_iff list_ex_iff)
qed

theorem parse_command_returns_witness:
  "\<exists>argv. parseKubectlCommandString ''kubectl get pods'' = Some argv
     \<and> list_all (\<lambda>a. list_all (\<lambda>c. \<not> shell_meta c) a) argv"
  by (rule parse_command_returns) code_simp

text \<open>
  The tokenizer does not return on a command with a carriage return, vertical tab or form
  feed outside quotes: for any prefix without quotes, the loop stays at that character.
\<close>

theorem parse_command_diverges:
  assumes "js_trim command = u @ c # v" and "odd_ws c" and "list_all (\<lambda>q. \<not> is_quote q) u"
    and "list_all (\<lambda>q. \<not> shell_meta q) (u @ c # v)"
  shows "parseKubectlCommandString command = None"
proof -
  have "tokenize_from (js_trim command) [] = None"
    using tokenize_returns_no_odd [of "js_trim command" "[]"] assms
    by (cases "tokenize_from (js_trim command) []") (auto simp: list_all_iff)
  moreover have "\<not> list_ex shell_meta (js_trim command)"
    using assms(1,4) by (auto simp: list_ex_iff list_all_iff)
  moreover have "js_trim command \<noteq> []" using assms(1) by simp
  ultimately show ?thesis by (simp add: parseKubectlCommandString_def Let_def)
qed

theorem parse_command_diverges_witness:
  "parseKubectlCommandString (''kubectl get'' @ CHR 0x0D # ''pods'') = None"
  by (rule parse_command_diverges [of _ "''kubectl get''" "CHR 0x0D" "''pods''"]) code_simp+

section \<open>Printing and reading back\<close>

definition plain_word :: "string \<Rightarrow> bool" where
  "plain_word w \<longleftrightarrow> w \<noteq> '''' \<and> list_all (\<lambda>c. \<not> js_ws c \<and> \<not> shell_meta c) w \<and> \<not> is_quote (hd w)"

lemma tokenize_word:
  assumes "plain_word w"
  shows "tokenize_from (w @ rest) tokens =
     (if rest = [] then Some (tokens @ [w])
      else if skip_blank (hd rest) then tokenize_from (tl rest) (tokens @ [w])
      else tokenize_from (w @ rest) tokens)"
proof -
  have w: "w \<noteq> []" "\<not> skip_blank (hd w)" "\<not> is_quote (hd w)" "\<forall>c\<in>set w. \<not> js_ws c"
    using assms skip_blank_ws by (auto simp: plain_word_def list_all_iff dest: hd_in_set)
  have unfold: "tokenize_from (w @ rest) tokens =
      tokenize_from (dropWhile (\<lambda>x. \<not> js_ws x) rest) (tokens @ [w @ takeWhile (\<lambda>x. \<not> js_ws x) rest])"
  proof (subst tokenize_from.simps)
    show "(case w @ rest of [] \<Rightarrow> Some tokens
      | ch # r \<Rightarrow> if skip_blank ch then tokenize_from r tokens
          else if is_quote ch then (case dropWhile (\<lambda>x. x \<noteq> ch) r of [] \<Rightarrow> Some []
             | q # rest' \<Rightarrow> tokenize_from rest' (tokens @ [takeWhile (\<lambda>x. x \<noteq> ch) r]))
          else tokenize_from (dropWhile (\<lambda>x. \<not> js_ws x) (w @ rest))
                 (tokens @ [takeWhile (\<lambda>x. \<not> js_ws x) (w @ rest)]))
      = tokenize_from (dropWhile (\<lambda>x. \<not> js_ws x) rest) (tokens @ [w @ takeWhile (\<lambda>x. \<not> js_ws x) rest])"
      using w dropWhile_append2 [of w "\<lambda>x. \<not> js_ws x" rest] takeWhile_append2 [of w "\<lambda>x. \<not> js_ws x" rest]
      by (cases w) auto
  qed
  show ?thesis
  proof (cases rest)
    case Nil
    with unfold show ?thesis by (simp add: tokenize_from.simps [of "[]"])
  next
    case (Cons b bs)
    show ?thesis
    proof (cases "skip_blank b")
      case True
      with unfold Cons skip_blank_ws show ?thesis
        by (simp add: tokenize_from.simps [of "b # bs"])
    qed (use Cons in simp)
  qed
qed

lemma tokenize_join:
  "list_all plain_word ws \<Longrightarrow> tokenize_from (join_with '' '' ws) tokens = Some (tokens @ ws)"
proof (induction ws arbitrary: tokens)
  case Nil
  then show ?case by (simp add: tokenize_from.simps)
next
  case (Cons w ws)
  show ?case
  proof (cases ws)
    case Nil
    with Cons.prems show ?thesis using tokenize_word [of w "[]" tokens] by simp
  next
    case (Cons v vs)
    have "tokenize_from (w @ '' '' @ join_with '' '' ws) tokens =
        tokenize_from (join_with '' '' ws) (tokens @ [w])"
      using Cons.prems tokenize_word [of w "'' '' @ join_with '' '' ws" tokens]
      by (simp add: skip_blank_def)
    then show ?thesis using Cons.IH Cons.prems Cons by simp
  qed
qed

lemma plain_words_join:
  assumes "list_all plain_word ws" "ws \<noteq> []"
  shows "hd (join_with '' '' ws) = hd (hd ws)" "last (join_with '' '' ws) = last (last ws)"
    "join_with '' '' ws \<noteq> []" "\<not> list_ex shell_meta (join_with '' '' ws)"
proof -
  have "hd (join_with '' '' ws) = hd (hd ws) \<and> last (join_with '' '' ws) = last (last ws)
      \<and> join_with '' '' ws \<noteq> [] \<and> \<not> list_ex shell_meta (join_with '' '' ws)"
    using assms
  proof (induction ws)
    case (Cons w ws)
    have b: "\<not> shell_meta CHR '' ''" by (simp add: shell_meta_def)
    from Cons.prems have w: "w \<noteq> []" "\<not> list_ex shell_meta w"
      by (auto simp: plain_word_def list_ex_iff list_all_iff)
    show ?case
    proof (cases ws)
      case (Cons v vs)
      with Cons.IH Cons.prems w b show ?thesis
        by (simp add: join_with_Cons)
    qed (use w in simp)
  qed simp
  then show "hd (join_with '' '' ws) = hd (hd ws)" "last (join_with '' '' ws) = last (last ws)"
    "join_with '' '' ws \<noteq> []" "\<not> list_ex shell_meta (join_with '' '' ws)" by blast+
qed

text \<open>
  Printing and tokenizing are inverse: a command line of blank-separated plain words after
  \<^verbatim>\<open>kubectl\<close> parses to exactly these words.
\<close>

theorem parse_command_roundtrip:
  assumes "list_all plain_word ws"
  shows "parseKubectlCommandString (join_with '' '' (''kubectl'' # ws)) = Some ws"
proof -
  let ?c = "join_with '' '' (''kubectl'' # ws)"
  have all: "list_all plain_word (''kubectl'' # ws)"
    using assms by (simp add: plain_word_def js_ws_def shell_meta_def is_quote_def)
  have l: "plain_word (last (''kubectl'' # ws))"
    using all by (metis last_in_set list.discI list_all_iff)
  then have "\<not> js_ws (last (last (''kubectl'' # ws)))"
    by (auto simp: plain_word_def list_all_iff)
  then have "js_trim ?c = ?c"
    using plain_words_join [OF all] by (intro js_trim_id) (auto simp: js_ws_def)
  then show ?thesis
    using plain_words_join(3,4) [OF all] tokenize_join [OF all, of "[]"]
    by (simp add: parseKubectlCommandString_def Let_def del: join_with.simps)
qed

theorem parse_command_roundtrip_witness:
  "parseKubectlCommandString (join_with '' '' [''kubectl'', ''get'', ''pods'', ''-n'', ''app''])
     = Some [''get'', ''pods'', ''-n'', ''app'']"
  by (rule parse_command_roundtrip) code_simp

section \<open>Classification and the adapter\<close>

text \<open>
  The three-way classification is exact: a returned policy says read only for a vector read
  mode allows, approval required only for a mutating vector with an acceptable target, and
  denied only if both modes refuse the vector or nothing could be parsed.
\<close>

theorem classify_exact:
  assumes "classifyKubectlCommand command allowed = Some pol"
  shows "(decision pol = PD_read \<longrightarrow> checkKubectl (pol_argv pol) Mode_read allowed = Allow)
     \<and> (decision pol = PD_approval_required \<longrightarrow>
          isKubectlWrite (parseKubectlArgv (pol_argv pol))
          \<and> write_target_ok (parseKubectlArgv (pol_argv pol)) allowed)
     \<and> (decision pol = PD_denied \<longrightarrow>
          checkKubectl (pol_argv pol) Mode_read allowed \<noteq> Allow
          \<and> checkKubectl (pol_argv pol) Mode_write allowed \<noteq> Allow)"
proof -
  have empty: "checkKubectl [] mode allowed \<noteq> Allow" for mode by (simp add: checkKubectl_def)
  have "decision pol = PD_read \<and> checkKubectl (pol_argv pol) Mode_read allowed = Allow
      \<or> decision pol = PD_approval_required \<and> checkKubectl (pol_argv pol) Mode_read allowed \<noteq> Allow
          \<and> checkKubectl (pol_argv pol) Mode_write allowed = Allow
      \<or> decision pol = PD_denied \<and> checkKubectl (pol_argv pol) Mode_read allowed \<noteq> Allow
          \<and> checkKubectl (pol_argv pol) Mode_write allowed \<noteq> Allow"
    using assms empty
    by (auto simp: classifyKubectlCommand_def Let_def
        split: if_splits option.splits allowlist_decision.splits)
  then show ?thesis by (auto simp: check_write_Allow check_read_Allow)
qed

theorem classify_exact_witness:
  "write_target_ok (parseKubectlArgv [''delete'', ''pod'', ''web-1'', ''-n'', ''app'']) [''app'']"
proof -
  let ?argv = "[''delete'', ''pod'', ''web-1'', ''-n'', ''app'']"
  let ?pol = "\<lparr>decision = PD_approval_required, pol_reason = ''mutating cluster command'', pol_argv = ?argv\<rparr>"
  define cmd where "cmd = ''kubectl delete pod web-1 -n app''"
  have p: "parseKubectlCommandString cmd = Some ?argv"
    using tokenize_join [of "''kubectl'' # ?argv" "[]"]
    by (simp add: cmd_def parseKubectlCommandString_def js_trim_def js_ws_def shell_meta_def
        plain_word_def is_quote_def)
  have t: "js_trim cmd = cmd" unfolding cmd_def by code_simp
  have w: "checkKubectl ?argv Mode_write [''app''] = Allow" by code_simp
  have r: "\<exists>x. checkKubectl ?argv Mode_read [''app''] = Refuse x"
    by (cases "checkKubectl ?argv Mode_read [''app'']")
       (auto simp: check_read_Allow isKubectlRead_def parseKubectlArgv_def verb_tables js_startsWith_def)
  have l: "js_startsWith (js_toLowerCase cmd) ''kubectl ''" "cmd \<noteq> ''''"
    unfolding cmd_def by code_simp+
  have "classifyKubectlCommand cmd [''app''] = Some ?pol"
    using p t w r l by (auto simp: classifyKubectlCommand_def Let_def)
  from classify_exact [OF this] show ?thesis by simp
qed

text \<open>
  The adapter starts a process only behind the policy: an execution spawns at most one
  process, with exactly the vector of the action, and only if the policy allows that vector
  in the adapter's mode and the pre-guard does not object; a rejected action fails without
  spawning.
\<close>

theorem adapter_spawns_allowed_only:
  assumes "adapter_execute showInt spawn opts params = (res, spawned)"
  shows "spawned = [] \<and> (\<exists>e. res = Inr (failed_result e))
     \<or> (\<exists>argv. spawned = [argv] \<and> takeArgv params = Some argv
          \<and> checkKubectl argv (ao_mode opts) (ao_allowedNamespaces opts) = Allow
          \<and> (case ao_preGuard opts of None \<Rightarrow> True | Some g \<Rightarrow> g argv = None))"
  using assms
  by (auto simp: adapter_execute_def adapter_validate_def
      split: option.splits sum.splits allowlist_decision.splits)

theorem adapter_spawns_allowed_only_witness:
  "snd (adapter_execute (\<lambda>_. ''0'') (\<lambda>_. Inl ''spawn failed'')
      \<lparr>ao_allowedNamespaces = [], ao_mode = Mode_read, ao_timeoutMs = ''60000'', ao_preGuard = None\<rparr>
      [(''argv'', JArr [JStr ''exec'', JStr ''web''])]) = []"
proof -
  let ?opts = "\<lparr>ao_allowedNamespaces = [], ao_mode = Mode_read, ao_timeoutMs = ''60000'', ao_preGuard = None\<rparr>"
  let ?params = "[(''argv'', JArr [JStr ''exec'', JStr ''web''])]"
  have c: "checkKubectl [''exec'', ''web''] Mode_read [] \<noteq> Allow"
    by (simp add: check_read_Allow permanently_refused_def parseKubectlArgv_def verb_tables js_startsWith_def)
  have "takeArgv ?params = Some [''exec'', ''web'']" by code_simp
  with c show ?thesis
    using adapter_spawns_allowed_only
      [of "\<lambda>_. ''0''" "\<lambda>_. Inl ''spawn failed''" ?opts ?params, OF prod.collapse [symmetric]] by auto
qed

end
