(* ===== verification/Plan_Executor.thy ===== *)
theory Plan_Executor
  imports Plan_Store Approvals Kubectl
begin

text \<open>
  The engine that drives a plan from approval to its end:
  \<^verbatim>\<open>packages/api-gateway/src/services/plan-executor-service.ts\<close>, the namespace helpers
  \<^verbatim>\<open>services/plan-namespaces.ts\<close> and the wiring of \<^verbatim>\<open>app/plans-boot.ts\<close>.  The
  execution adapter, the clock, the identifier generator and the team lookup are parameters; each
  call of \<^verbatim>\<open>executeStep\<close> reads the clock and asks the adapter with a running number, so their
  answers may differ from call to call.  The state keeps, beside the two plan tables and the
  approval table, the list of adapter calls and the audit rows.  A service call is one
  transition in which nobody else writes; a cancellation while the command of a step is running is
  modelled apart, by the two halves of \<^verbatim>\<open>executeStep\<close> around the adapter call.
\<close>

section \<open>Namespaces of a plan\<close>

text \<open>
  A token that is neither a string nor null has no \<^verbatim>\<open>startsWith\<close>: reading it throws.
\<close>

fun readNamespaceFromArgv :: "json list \<Rightarrow> string option result" where
  "readNamespaceFromArgv [] = Inr None"
| "readNamespaceFromArgv (t # rest) =
     (case t of
        JStr tok \<Rightarrow>
          (if tok = ''-n'' \<or> tok = ''--namespace'' then
             Inr (case arr_get rest 0 of Some (JStr v) \<Rightarrow> if v = '''' then None else Some v | _ \<Rightarrow> None)
           else if js_startsWith tok ''--namespace='' then
             (let v = drop (length ''--namespace='') tok in Inr (if v = '''' then None else Some v))
           else readNamespaceFromArgv rest)
      | JNull \<Rightarrow> readNamespaceFromArgv rest
      | _ \<Rightarrow> Inl ''TypeError: tok.startsWith is not a function'')"

record plan_namespaces =
  pn_namespaces :: "string list"
  pn_hasClusterScoped :: bool

fun collect_namespaces :: "plan_step list \<Rightarrow> plan_namespaces \<Rightarrow> plan_namespaces result" where
  "collect_namespaces [] acc = Inr acc"
| "collect_namespaces (step # rest) acc =
     (if st_kind step \<noteq> ''ops.run_command'' then collect_namespaces rest acc
      else (case map_of (st_paramsJson step) ''argv'' of
        Some (JArr argv) \<Rightarrow>
          (case readNamespaceFromArgv argv of
             Inl e \<Rightarrow> Inl e
           | Inr None \<Rightarrow> collect_namespaces rest (acc\<lparr>pn_hasClusterScoped := True\<rparr>)
           | Inr (Some ns) \<Rightarrow> collect_namespaces rest (acc\<lparr>pn_namespaces := pn_namespaces acc @ [ns]\<rparr>))
      | _ \<Rightarrow> collect_namespaces rest (acc\<lparr>pn_hasClusterScoped := True\<rparr>)))"

definition extractPlanNamespaces :: "plan \<Rightarrow> plan_namespaces result" where
  "extractPlanNamespaces p =
     res_bind (collect_namespaces (pl_steps p) \<lparr>pn_namespaces = [], pn_hasClusterScoped = False\<rparr>)
       (\<lambda>acc. Inr (acc\<lparr>pn_namespaces := sort (js_uniq (pn_namespaces acc))\<rparr>))"

section \<open>Parameters of a step\<close>

definition STDIO_CAP_BYTES :: nat where
  "STDIO_CAP_BYTES = 65536"

record ops_params =
  op_argv :: "string list"
  op_connectorId :: string

definition readOpsRunCommandParams :: "plan_step \<Rightarrow> ops_params option" where
  "readOpsRunCommandParams step =
     (if st_kind step \<noteq> ''ops.run_command'' then None
      else (case (map_of (st_paramsJson step) ''argv'', map_of (st_paramsJson step) ''connectorId'') of
        (Some (JArr argv), Some (JStr c)) \<Rightarrow>
          if list_all is_JStr argv \<and> c \<noteq> '''' then Some \<lparr>op_argv = map the_JStr argv, op_connectorId = c\<rparr>
          else None
      | _ \<Rightarrow> None))"

text \<open>\<^verbatim>\<open>truncate\<close> keeps the end of a long text; absent and empty texts become null.\<close>

definition truncate_text :: "string option \<Rightarrow> nat \<Rightarrow> string option" where
  "truncate_text t cap =
     (case t of None \<Rightarrow> None
      | Some s \<Rightarrow> if s = '''' then None
          else if length s \<le> cap then Some s else Some (drop (length s - cap) s))"

definition capabilityForKubectlArgv :: "string list \<Rightarrow> string" where
  "capabilityForKubectlArgv argv =
     (let v = coalesce (arr_get argv 0) '''' in
      if v \<in> {''scale'', ''rollout'', ''restart'', ''delete'', ''logs'', ''events'', ''get'', ''list''}
      then ''runtime.'' @ v
      else ''runtime.'' @ (if v = '''' then ''unknown'' else v))"

section \<open>State and environment\<close>

record audit_row =
  au_actorId :: string
  au_orgId :: string
  au_planId :: string
  au_ordinal :: nat
  au_success :: bool
  au_kind :: string
  au_verb :: string
  au_connectorId :: string
  au_error :: "string option"

record adapter_call =
  cl_planId :: string
  cl_ordinal :: nat
  cl_connectorId :: string
  cl_argv :: "string list"

record exec_env =
  en_adapter :: "nat \<Rightarrow> plan \<Rightarrow> plan_step \<Rightarrow> ops_params \<Rightarrow> string + execution_result"
  en_clock :: "nat \<Rightarrow> int"
  en_uid :: "nat \<Rightarrow> string"
  en_approvals :: bool
  en_audit :: bool
  en_team :: "(string \<Rightarrow> string \<Rightarrow> string option) option"
  en_show :: "int \<Rightarrow> string"

record exec_state =
  x_db :: plan_db
  x_approvals :: "approval_sql_row list"
  x_tick :: nat
  x_calls :: "adapter_call list"
  x_audit :: "audit_row list"

datatype exec_outcome =
    Paused_for_approval nat string
  | Completed
  | Failed int string
  | Cancelled

definition upd_step :: "string \<Rightarrow> nat \<Rightarrow> step_patch \<Rightarrow> exec_state \<Rightarrow> exec_state" where
  "upd_step planId n p s = s\<lparr>x_db := snd (plan_updateStep planId n p (x_db s))\<rparr>"

definition upd_plan :: "string \<Rightarrow> string \<Rightarrow> plan_patch \<Rightarrow> exec_state \<Rightarrow> exec_state" where
  "upd_plan orgId planId p s = s\<lparr>x_db := snd (plan_updatePlan orgId planId p (x_db s))\<rparr>"

definition set_plan_status :: "string \<Rightarrow> string \<Rightarrow> plan_status \<Rightarrow> exec_state \<Rightarrow> exec_state" where
  "set_plan_status orgId planId st = upd_plan orgId planId (no_plan_patch\<lparr>pp_status := Some st\<rparr>)"

section \<open>PlanExecutorService\<close>

definition audit ::
  "exec_env \<Rightarrow> plan \<Rightarrow> plan_step \<Rightarrow> bool \<Rightarrow> string option \<Rightarrow> ops_params \<Rightarrow> exec_state \<Rightarrow> exec_state" where
  "audit env p step ok errMsg params s =
     (if \<not> en_audit env then s
      else s\<lparr>x_audit := x_audit s @ [\<lparr>au_actorId = pl_createdBy p, au_orgId = pl_orgId p, au_planId = pl_id p,
             au_ordinal = st_ordinal step, au_success = ok, au_kind = st_kind step,
             au_verb = coalesce (arr_get (op_argv params) 0) '''', au_connectorId = op_connectorId params,
             au_error = (case errMsg of None \<Rightarrow> None | Some e \<Rightarrow> if e = '''' then None else Some (take 512 e))\<rparr>]\<rparr>)"

fun skip_later :: "string \<Rightarrow> nat \<Rightarrow> plan_step list \<Rightarrow> exec_state \<Rightarrow> exec_state" where
  "skip_later planId n [] s = s"
| "skip_later planId n (st # rest) s =
     skip_later planId n rest
       (if n < st_ordinal st \<and> st_status st = SS_pending
        then upd_step planId (st_ordinal st) (no_step_patch\<lparr>sp_status := Some SS_skipped\<rparr>) s else s)"

definition haltPlan :: "string \<Rightarrow> string \<Rightarrow> nat \<Rightarrow> string \<Rightarrow> exec_state \<Rightarrow> exec_outcome \<times> exec_state" where
  "haltPlan orgId planId failedOrdinal reason s =
     (let s1 = (case plan_findByIdInOrg (x_db s) orgId planId of
                  None \<Rightarrow> s
                | Some fresh \<Rightarrow> skip_later planId failedOrdinal (pl_steps fresh) s)
      in (Failed (int failedOrdinal) reason, set_plan_status orgId planId PS_failed s1))"

definition fail_patch :: "string option \<Rightarrow> step_patch" where
  "fail_patch err = no_step_patch\<lparr>sp_status := Some SS_failed, sp_errorText := Some err\<rparr>"

definition halt_unless_continue :: "plan \<Rightarrow> plan_step \<Rightarrow> string \<Rightarrow> exec_state \<Rightarrow> exec_state" where
  "halt_unless_continue p step reason s =
     (if st_continueOnError step then s else snd (haltPlan (pl_orgId p) (pl_id p) (st_ordinal step) reason s))"

definition invalid_params :: "exec_env \<Rightarrow> plan_step \<Rightarrow> string" where
  "invalid_params env step =
     ''step '' @ en_show env (int (st_ordinal step)) @ '' has invalid params for kind '' @ [CHR 0x27] @ st_kind step @ [CHR 0x27]"

definition executeStep :: "exec_env \<Rightarrow> plan \<Rightarrow> plan_step \<Rightarrow> exec_state \<Rightarrow> exec_state" where
  "executeStep env p step s =
     (let k = x_tick s;
          s1 = upd_step (pl_id p) (st_ordinal step)
                 (no_step_patch\<lparr>sp_status := Some SS_executing, sp_executedAt := Some (Some (en_clock env k))\<rparr>)
                 (s\<lparr>x_tick := Suc k\<rparr>)
      in case readOpsRunCommandParams step of
           None \<Rightarrow>
             (let reason = invalid_params env step
              in halt_unless_continue p step reason
                   (upd_step (pl_id p) (st_ordinal step) (fail_patch (Some reason)) s1))
         | Some params \<Rightarrow>
             (let s2 = s1\<lparr>x_calls := x_calls s1 @ [\<lparr>cl_planId = pl_id p, cl_ordinal = st_ordinal step,
                          cl_connectorId = op_connectorId params, cl_argv = op_argv params\<rparr>]\<rparr>
              in case en_adapter env k p step params of
                   Inl e \<Rightarrow>
                     halt_unless_continue p step e
                       (audit env p step False (Some (''adapter threw: '' @ e)) params
                         (upd_step (pl_id p) (st_ordinal step)
                           (fail_patch (truncate_text (Some (''adapter threw: '' @ e)) STDIO_CAP_BYTES)) s2))
                 | Inr r \<Rightarrow>
                     (if er_success r then
                        audit env p step True None params
                          (upd_step (pl_id p) (st_ordinal step)
                            (no_step_patch\<lparr>sp_status := Some SS_done,
                               sp_outputText := Some (truncate_text (Some (er_output r)) STDIO_CAP_BYTES)\<rparr>) s2)
                      else (let errMsg = coalesce (er_error r) ''step failed''
                            in halt_unless_continue p step errMsg
                                 (audit env p step False (Some errMsg) params
                                   (upd_step (pl_id p) (st_ordinal step)
                                     (fail_patch (truncate_text (Some errMsg) STDIO_CAP_BYTES)) s2))))))"

text \<open>
  Each run of a step takes it out of the pending steps and nothing puts one back, so the loop of
  \<^verbatim>\<open>runNext\<close> ends; the number of pending steps of the plan is its measure.
\<close>

definition pending_steps :: "string \<Rightarrow> exec_state \<Rightarrow> plan_step list" where
  "pending_steps i s = filter (\<lambda>st. st_planId st = i \<and> st_status st = SS_pending) (pd_steps (x_db s))"

lemma filter_upd_where_le:
  "(\<And>x. Q x \<Longrightarrow> \<not> P (f x)) \<Longrightarrow> length (filter P (upd_where Q f xs)) \<le> length (filter P xs)"
  by (induction xs) (auto intro: le_SucI)

lemma filter_upd_where_less:
  "(\<And>x. Q x \<Longrightarrow> \<not> P (f x)) \<Longrightarrow> x \<in> set xs \<Longrightarrow> P x \<Longrightarrow> Q x \<Longrightarrow>
     length (filter P (upd_where Q f xs)) < length (filter P xs)"
proof (induction xs)
  case (Cons y ys)
  then show ?case using filter_upd_where_le [of Q P f ys] by (auto simp: less_Suc_eq_le)
qed simp

lemma upd_step_frame [simp]:
  "x_approvals (upd_step i n p s) = x_approvals s" "x_tick (upd_step i n p s) = x_tick s"
  "x_calls (upd_step i n p s) = x_calls s" "x_audit (upd_step i n p s) = x_audit s"
  "pd_plans (x_db (upd_step i n p s)) = pd_plans (x_db s)"
  by (simp_all add: upd_step_def updateStep_db)

lemma upd_plan_frame [simp]:
  "x_approvals (upd_plan org i p s) = x_approvals s" "x_tick (upd_plan org i p s) = x_tick s"
  "x_calls (upd_plan org i p s) = x_calls s" "x_audit (upd_plan org i p s) = x_audit s"
  "pd_steps (x_db (upd_plan org i p s)) = pd_steps (x_db s)"
  by (simp_all add: upd_plan_def updatePlan_db)

lemma audit_frame [simp]:
  "x_approvals (audit env p step ok e params s) = x_approvals s" "x_tick (audit env p step ok e params s) = x_tick s"
  "x_calls (audit env p step ok e params s) = x_calls s" "x_db (audit env p step ok e params s) = x_db s"
  by (simp_all add: audit_def)

lemma pending_upd_step:
  "sp_status p = Some x \<Longrightarrow> x \<noteq> SS_pending \<Longrightarrow> length (pending_steps j (upd_step i n p s)) \<le> length (pending_steps j s)"
  unfolding pending_steps_def by (simp add: upd_step_def updateStep_db filter_upd_where_le)

lemma pending_upd_step_less:
  "sp_status p = Some x \<Longrightarrow> x \<noteq> SS_pending \<Longrightarrow> st \<in> set (pending_steps i s) \<Longrightarrow>
     length (pending_steps i (upd_step i (st_ordinal st) p s)) < length (pending_steps i s)"
  unfolding pending_steps_def by (auto simp: upd_step_def updateStep_db intro!: filter_upd_where_less)

lemma pending_upd_plan [simp]: "pending_steps j (upd_plan org i p s) = pending_steps j s"
  by (simp add: pending_steps_def)

lemma pending_audit [simp]: "pending_steps j (audit env p step ok e params s) = pending_steps j s"
  by (simp add: pending_steps_def)

lemma pending_record [simp]:
  "pending_steps j (s\<lparr>x_tick := t\<rparr>) = pending_steps j s" "pending_steps j (s\<lparr>x_calls := c\<rparr>) = pending_steps j s"
  by (simp_all add: pending_steps_def)

lemma pending_skip_later: "length (pending_steps j (skip_later i n ss s)) \<le> length (pending_steps j s)"
proof (induction ss arbitrary: s)
  case (Cons st ss)
  then show ?case
    using pending_upd_step [of "no_step_patch\<lparr>sp_status := Some SS_skipped\<rparr>" SS_skipped j i "st_ordinal st" s]
    by (auto simp del: upd_step_frame intro: order_trans)
qed simp

lemma pending_halt: "length (pending_steps j (halt_unless_continue p step e s)) \<le> length (pending_steps j s)"
  using pending_skip_later
  by (auto simp: halt_unless_continue_def haltPlan_def Let_def set_plan_status_def split: option.splits)

lemma pending_execute:
  assumes "st \<in> set (pending_steps (pl_id p) s)"
  shows "length (pending_steps (pl_id p) (executeStep env p st s)) < length (pending_steps (pl_id p) s)"
proof -
  let ?exec = "no_step_patch\<lparr>sp_status := Some SS_executing, sp_executedAt := Some (Some (en_clock env (x_tick s)))\<rparr>"
  let ?s1 = "upd_step (pl_id p) (st_ordinal st) ?exec (s\<lparr>x_tick := Suc (x_tick s)\<rparr>)"
  have less: "length (pending_steps (pl_id p) ?s1) < length (pending_steps (pl_id p) s)"
    using pending_upd_step_less [of ?exec SS_executing st "pl_id p" "s\<lparr>x_tick := Suc (x_tick s)\<rparr>"] assms by simp
  have fin: "length (pending_steps (pl_id p) (upd_step (pl_id p) (st_ordinal st) q s')) \<le> length (pending_steps (pl_id p) s')"
    if "sp_status q = Some SS_failed \<or> sp_status q = Some SS_done" for q s'
    using that pending_upd_step by auto
  note fin_patch = fin [of "fail_patch _"] fin [of "no_step_patch\<lparr>sp_status := Some SS_done, sp_outputText := _\<rparr>"]
  have "length (pending_steps (pl_id p) (executeStep env p st s)) \<le> length (pending_steps (pl_id p) ?s1)"
  proof (cases "readOpsRunCommandParams st")
    case None
    then show ?thesis
      by (auto simp: executeStep_def Let_def fail_patch_def intro!: order_trans [OF pending_halt] fin)
  next
    case (Some params)
    have "x_calls ?s1 = x_calls s" by simp
    with Some show ?thesis
      by (auto simp: executeStep_def Let_def fail_patch_def split: sum.splits
          intro!: order_trans [OF pending_halt] order_trans [OF fin])
  qed
  with less show ?thesis by simp
qed

lemma first_pending:
  assumes "plan_findByIdInOrg (x_db s) orgId i = Some p" "List.find (\<lambda>st. st_status st = SS_pending) (pl_steps p) = Some st"
  shows "pl_id p = i \<and> st \<in> set (pending_steps i s)"
  using assms find_plan_ids [OF assms(1)] find_Some_set [OF assms(2)] by (auto simp: pending_steps_def steps_of_mem)

definition step_submission :: "exec_env \<Rightarrow> string \<Rightarrow> plan \<Rightarrow> plan_step \<Rightarrow> submit_params" where
  "step_submission env orgId p step =
     (let params = readOpsRunCommandParams step in
      \<lparr>sp_action = \<lparr>aa_type = ''ops.run_command'',
         aa_targetService = (case params of Some q \<Rightarrow> op_connectorId q | None \<Rightarrow> ''unknown''),
         aa_params = [(''argv'', JArr (map JStr (case params of Some q \<Rightarrow> op_argv q | None \<Rightarrow> []))),
                      (''connectorId'', JStr (case params of Some q \<Rightarrow> op_connectorId q | None \<Rightarrow> '''')),
                      (''stepKind'', JStr (st_kind step))]\<rparr>,
       sp_context = [(''investigationId'', JStr (pl_investigationId p)), (''requestedBy'', JStr (pl_createdBy p)),
                     (''reason'', JStr (st_commandText step)), (''planId'', JStr (pl_id p)),
                     (''stepOrdinal'', JNum (int (st_ordinal step)))],
       sp_ttlMs = None,
       sp_opsConnectorId = map_option op_connectorId params,
       sp_targetNamespace = (case params of None \<Rightarrow> None
          | Some q \<Rightarrow> (case readNamespaceFromArgv (map JStr (op_argv q)) of Inr ns \<Rightarrow> ns | Inl e \<Rightarrow> None)),
       sp_requesterTeamId = (case en_team env of None \<Rightarrow> None | Some f \<Rightarrow> f orgId (pl_investigationId p))\<rparr>)"

definition failed_outcome :: "plan \<Rightarrow> exec_outcome" where
  "failed_outcome p =
     (case List.find (\<lambda>st. st_status st = SS_failed) (pl_steps p) of
        None \<Rightarrow> Failed (-1) ''plan failed''
      | Some st \<Rightarrow> Failed (int (st_ordinal st)) (coalesce (st_errorText st) ''plan failed''))"

definition pause_for_approval ::
  "exec_env \<Rightarrow> string \<Rightarrow> plan \<Rightarrow> plan_step \<Rightarrow> exec_state \<Rightarrow> exec_outcome result \<times> exec_state" where
  "pause_for_approval env orgId p step s =
     (if \<not> en_approvals env
      then (Inl ''PlanExecutorService: approvals repository is required when autoEdit=false'', s)
      else (case sql_submit (en_uid env (length (x_approvals s))) (en_clock env (x_tick s))
                 (step_submission env orgId p step) (x_approvals s) of
        Inl e \<Rightarrow> (Inl e, s)
      | Inr (submitted, t) \<Rightarrow>
          (Inr (Paused_for_approval (st_ordinal step) (ar_id submitted)),
           upd_step (pl_id p) (st_ordinal step) (no_step_patch\<lparr>sp_approvalRequestId := Some (Some (ar_id submitted))\<rparr>)
             (s\<lparr>x_approvals := t\<rparr>))))"

function runNext :: "exec_env \<Rightarrow> string \<Rightarrow> string \<Rightarrow> exec_state \<Rightarrow> exec_outcome result \<times> exec_state" where
  "runNext env orgId planId s =
     (case plan_findByIdInOrg (x_db s) orgId planId of
        None \<Rightarrow> (Inl (''plan '' @ planId @ '' not found''), s)
      | Some p \<Rightarrow>
          (if pl_status p = PS_failed then (Inr (failed_outcome p), s)
           else if pl_status p = PS_cancelled then (Inr Cancelled, s)
           else (case List.find (\<lambda>st. st_status st = SS_pending) (pl_steps p) of
             None \<Rightarrow> (Inr Completed, set_plan_status orgId planId PS_completed s)
           | Some next \<Rightarrow>
               (if pl_autoEdit p then runNext env orgId planId (executeStep env p next s)
                else pause_for_approval env orgId p next s))))"
  by pat_completeness auto
termination
proof (relation "measure (\<lambda>(env, orgId, planId, s). length (pending_steps planId s))")
  fix env :: exec_env and orgId planId p nxt and s :: exec_state
  assume "plan_findByIdInOrg (x_db s) orgId planId = Some p"
    "List.find (\<lambda>st. st_status st = SS_pending) (pl_steps p) = Some nxt"
  then have "pl_id p = planId" "nxt \<in> set (pending_steps planId s)" using first_pending by auto
  then show "((env, orgId, planId, executeStep env p nxt s), env, orgId, planId, s)
      \<in> measure (\<lambda>(env, orgId, planId, s). length (pending_steps planId s))"
    using pending_execute [of nxt p s env] by simp
qed simp

declare runNext.simps [simp del]

fun plan_status_name :: "plan_status \<Rightarrow> string" where
  "plan_status_name PS_draft = ''draft''"
| "plan_status_name PS_pending_approval = ''pending_approval''"
| "plan_status_name PS_approved = ''approved''"
| "plan_status_name PS_rejected = ''rejected''"
| "plan_status_name PS_executing = ''executing''"
| "plan_status_name PS_completed = ''completed''"
| "plan_status_name PS_failed = ''failed''"
| "plan_status_name PS_expired = ''expired''"
| "plan_status_name PS_cancelled = ''cancelled''"

fun step_status_name :: "step_status \<Rightarrow> string" where
  "step_status_name SS_pending = ''pending''"
| "step_status_name SS_approved = ''approved''"
| "step_status_name SS_executing = ''executing''"
| "step_status_name SS_done = ''done''"
| "step_status_name SS_failed = ''failed''"
| "step_status_name SS_skipped = ''skipped''"

definition exec_approve ::
  "exec_env \<Rightarrow> int \<Rightarrow> string \<Rightarrow> string \<Rightarrow> bool \<Rightarrow> identity \<Rightarrow> exec_state \<Rightarrow> exec_outcome result \<times> exec_state" where
  "exec_approve env now orgId planId autoEdit ident s =
     (case plan_findByIdInOrg (x_db s) orgId planId of
        None \<Rightarrow> (Inl (''plan '' @ planId @ '' not found''), s)
      | Some p \<Rightarrow>
          (if pl_status p \<noteq> PS_pending_approval
           then (Inl (''plan '' @ planId @ '' is '' @ plan_status_name (pl_status p) @ '', cannot approve''), s)
           else (let s1 = upd_plan orgId planId (no_plan_patch\<lparr>pp_status := Some PS_approved, pp_autoEdit := Some autoEdit,
                            pp_resolvedAt := Some (Some now), pp_resolvedBy := Some (Some (id_userId ident))\<rparr>) s;
                     s2 = set_plan_status orgId planId PS_executing s1
                 in runNext env orgId planId s2)))"

definition resolve_plan ::
  "plan_status \<Rightarrow> int \<Rightarrow> string \<Rightarrow> string \<Rightarrow> identity \<Rightarrow> exec_state \<Rightarrow> plan option \<times> exec_state" where
  "resolve_plan st now orgId planId ident s =
     (let (r, db) = plan_updatePlan orgId planId (no_plan_patch\<lparr>pp_status := Some st,
            pp_resolvedAt := Some (Some now), pp_resolvedBy := Some (Some (id_userId ident))\<rparr>) (x_db s)
      in (r, s\<lparr>x_db := db\<rparr>))"

definition exec_reject ::
  "int \<Rightarrow> string \<Rightarrow> string \<Rightarrow> identity \<Rightarrow> exec_state \<Rightarrow> plan option result \<times> exec_state" where
  "exec_reject now orgId planId ident s =
     (case plan_findByIdInOrg (x_db s) orgId planId of
        None \<Rightarrow> (Inl (''plan '' @ planId @ '' not found''), s)
      | Some p \<Rightarrow>
          (if pl_status p \<noteq> PS_pending_approval
           then (Inl (''plan '' @ planId @ '' is '' @ plan_status_name (pl_status p) @ '', cannot reject''), s)
           else (let (r, s') = resolve_plan PS_rejected now orgId planId ident s in (Inr r, s'))))"

definition exec_cancel ::
  "int \<Rightarrow> string \<Rightarrow> string \<Rightarrow> identity \<Rightarrow> exec_state \<Rightarrow> plan option result \<times> exec_state" where
  "exec_cancel now orgId planId ident s =
     (case plan_findByIdInOrg (x_db s) orgId planId of
        None \<Rightarrow> (Inl (''plan '' @ planId @ '' not found''), s)
      | Some p \<Rightarrow>
          (if pl_status p \<noteq> PS_approved \<and> pl_status p \<noteq> PS_executing
           then (Inl (''plan '' @ planId @ '' is '' @ plan_status_name (pl_status p) @ '', cannot cancel''), s)
           else (let (r, s') = resolve_plan PS_cancelled now orgId planId ident s in (Inr r, s'))))"

text \<open>The step an approval request names in its context.\<close>

definition step_ref :: "(string \<times> json) list \<Rightarrow> (string \<times> int) option" where
  "step_ref ctx =
     (case (map_of ctx ''planId'', map_of ctx ''stepOrdinal'') of
        (Some (JStr i), Some (JNum n)) \<Rightarrow> Some (i, n)
      | _ \<Rightarrow> None)"

definition findStepByApproval ::
  "exec_env \<Rightarrow> string \<Rightarrow> string \<Rightarrow> exec_state \<Rightarrow> (plan \<times> plan_step) result" where
  "findStepByApproval env orgId a s =
     (if \<not> en_approvals env then Inl ''PlanExecutorService: approvals repository is required''
      else (case sql_findById a (x_approvals s) of
        None \<Rightarrow> Inl (''approval '' @ a @ '' not found'')
      | Some req \<Rightarrow>
          (case step_ref (aq_context req) of
             None \<Rightarrow> Inl (''approval '' @ a @ '' is not a plan-step approval'')
           | Some (planId, n) \<Rightarrow>
               (case plan_findByIdInOrg (x_db s) orgId planId of
                  None \<Rightarrow> Inl (''plan '' @ planId @ '' not found'')
                | Some p \<Rightarrow>
                    (case List.find (\<lambda>st. int (st_ordinal st) = n) (pl_steps p) of
                       None \<Rightarrow> Inl (''step '' @ en_show env n @ '' not found on plan '' @ planId)
                     | Some st \<Rightarrow> Inr (p, st))))))"

definition onStepApproved ::
  "exec_env \<Rightarrow> string \<Rightarrow> string \<Rightarrow> exec_state \<Rightarrow> exec_outcome result \<times> exec_state" where
  "onStepApproved env orgId a s =
     (case findStepByApproval env orgId a s of
        Inl e \<Rightarrow> (Inl e, s)
      | Inr (p, st) \<Rightarrow> runNext env orgId (pl_id p) (executeStep env p st s))"

definition onStepRejected ::
  "exec_env \<Rightarrow> string \<Rightarrow> string \<Rightarrow> exec_state \<Rightarrow> exec_outcome result \<times> exec_state" where
  "onStepRejected env orgId a s =
     (case findStepByApproval env orgId a s of
        Inl e \<Rightarrow> (Inl e, s)
      | Inr (p, st) \<Rightarrow>
          (let s1 = upd_step (pl_id p) (st_ordinal st) (fail_patch (Some ''rejected by approver'')) s
           in if st_continueOnError st then runNext env orgId (pl_id p) s1
              else (let (r, s2) = haltPlan orgId (pl_id p) (st_ordinal st) ''rejected by approver'' s1 in (Inr r, s2))))"

fun unskip_later :: "string \<Rightarrow> nat \<Rightarrow> plan_step list \<Rightarrow> exec_state \<Rightarrow> exec_state" where
  "unskip_later planId n [] s = s"
| "unskip_later planId n (st # rest) s =
     unskip_later planId n rest
       (if n < st_ordinal st \<and> st_status st = SS_skipped
        then upd_step planId (st_ordinal st) (no_step_patch\<lparr>sp_status := Some SS_pending\<rparr>) s else s)"

definition reset_patch :: step_patch where
  "reset_patch = no_step_patch\<lparr>sp_status := Some SS_pending, sp_errorText := Some None,
     sp_outputText := Some None, sp_executedAt := Some None\<rparr>"

definition retryStep ::
  "exec_env \<Rightarrow> string \<Rightarrow> string \<Rightarrow> nat \<Rightarrow> exec_state \<Rightarrow> exec_outcome result \<times> exec_state" where
  "retryStep env orgId planId n s =
     (case plan_findByIdInOrg (x_db s) orgId planId of
        None \<Rightarrow> (Inl (''plan '' @ planId @ '' not found''), s)
      | Some p \<Rightarrow>
          (case List.find (\<lambda>st. st_ordinal st = n) (pl_steps p) of
             None \<Rightarrow> (Inl (''step '' @ en_show env (int n) @ '' not found on plan '' @ planId), s)
           | Some st \<Rightarrow>
               (if st_status st \<noteq> SS_failed
                then (Inl (''step '' @ en_show env (int n) @ '' is '' @ step_status_name (st_status st)
                       @ '', only failed steps may be retried''), s)
                else (let s1 = upd_step planId n reset_patch s;
                          s2 = (if pl_status p = PS_failed
                                then set_plan_status orgId planId PS_executing (unskip_later planId n (pl_steps p) s1)
                                else s1)
                      in case plan_findByIdInOrg (x_db s2) orgId planId of
                           None \<Rightarrow> (Inl (''plan '' @ planId @ '' disappeared during retry''), s2)
                         | Some refreshed \<Rightarrow>
                             (case List.find (\<lambda>st. st_ordinal st = n) (pl_steps refreshed) of
                                None \<Rightarrow> (Inl (''step '' @ en_show env (int n) @ '' disappeared during retry''), s2)
                              | Some target \<Rightarrow> runNext env orgId planId (executeStep env refreshed target s2))))))"

section \<open>Wiring\<close>

text \<open>
  \<^verbatim>\<open>resumeExecutor\<close> and the callback of \<^verbatim>\<open>onResolved\<close>: errors of the executor are logged.
\<close>

definition resumeExecutor :: "exec_env \<Rightarrow> approval_request \<Rightarrow> exec_state \<Rightarrow> exec_state" where
  "resumeExecutor env req s =
     (case map_of (aq_context req) ''planId'' of
        Some (JStr i) \<Rightarrow>
          (case plan_findById (x_db s) i of
             None \<Rightarrow> s
           | Some p \<Rightarrow>
               (if aq_status req = AP_approved then snd (onStepApproved env (pl_orgId p) (ar_id req) s)
                else if aq_status req = AP_rejected then snd (onStepRejected env (pl_orgId p) (ar_id req) s)
                else s))
      | _ \<Rightarrow> s)"

definition on_resolved :: "exec_env \<Rightarrow> approval_request \<Rightarrow> exec_state \<Rightarrow> exec_state" where
  "on_resolved env req s =
     (if step_ref (aq_context req) = None \<or> aa_type (aq_action req) \<noteq> ''ops.run_command'' then s
      else resumeExecutor env req s)"

text \<open>
  The adapter the boot code builds for a step: the connector of the plan's organisation, its
  namespace list, write mode.  The connector repository, the resolution of the kubeconfig with
  the process itself, and the default timeout are parameters.
\<close>

definition connector_namespaces :: "(string \<times> json) list \<Rightarrow> string list" where
  "connector_namespaces config =
     (case map_of config ''allowedNamespaces'' of
        Some (JArr vs) \<Rightarrow> map the_JStr (filter is_JStr vs)
      | _ \<Rightarrow> [])"

definition boot_options :: "(string \<times> json) list \<Rightarrow> adapter_options" where
  "boot_options config = \<lparr>ao_allowedNamespaces = connector_namespaces config, ao_mode = Mode_write,
     ao_timeoutMs = ''60000'', ao_preGuard = None\<rparr>"

definition adapterFor ::
  "(int \<Rightarrow> string) \<Rightarrow> (string \<Rightarrow> string \<Rightarrow> (string \<times> json) list option) \<Rightarrow> plan \<Rightarrow> plan_step \<Rightarrow>
     adapter_options result" where
  "adapterFor showInt connectors p step =
     (let c = (case map_of (st_paramsJson step) ''connectorId'' of Some (JStr c) \<Rightarrow> c | _ \<Rightarrow> '''') in
      if c = '''' then Inl (''step '' @ showInt (int (st_ordinal step)) @ '': paramsJson.connectorId is required'')
      else (case connectors c (pl_orgId p) of
        None \<Rightarrow> Inl (''connector '' @ [CHR 0x22] @ c @ [CHR 0x22] @ '' not found in org '' @ pl_orgId p)
      | Some config \<Rightarrow> Inr (boot_options config)))"

text \<open>What one step does at the boot wiring: the answer and the spawned argument vectors.\<close>

definition boot_run ::
  "(int \<Rightarrow> string) \<Rightarrow> (string \<Rightarrow> string \<Rightarrow> (string \<times> json) list option) \<Rightarrow>
   (string list \<Rightarrow> string + run_result) \<Rightarrow> plan \<Rightarrow> plan_step \<Rightarrow> ops_params \<Rightarrow>
   (string + execution_result) \<times> string list list" where
  "boot_run showInt connectors spawn p step params =
     (case adapterFor showInt connectors p step of
        Inl e \<Rightarrow> (Inl e, [])
      | Inr opts \<Rightarrow> adapter_execute showInt spawn opts [(''argv'', JArr (map JStr (op_argv params)))])"

section \<open>The plan as the executor reads it\<close>

definition view :: "exec_state \<Rightarrow> string \<Rightarrow> string \<Rightarrow> plan option" where
  "view s orgId i = plan_findByIdInOrg (x_db s) orgId i"

lemma view_upd_step:
  "view (upd_step i n p s) orgId i =
     map_option (\<lambda>q. q\<lparr>pl_steps := map_step n (patch_step p) (pl_steps q)\<rparr>) (view s orgId i)"
  unfolding view_def upd_step_def using find_updateStep [of i n p "x_db s" orgId i] by (simp cong: map_option_cong)

lemma view_upd_plan: "view (upd_plan orgId i p s) orgId i = map_option (patch_plan p) (view s orgId i)"
  unfolding view_def upd_plan_def using find_updatePlan [of orgId i p "x_db s" i] by (simp cong: map_option_cong)

lemma view_frame [simp]:
  "view (audit env p step ok e params s) = view s" "view (s\<lparr>x_tick := t\<rparr>) = view s" "view (s\<lparr>x_calls := c\<rparr>) = view s"
  "view (s\<lparr>x_approvals := a\<rparr>) = view s"
  by (simp_all add: view_def fun_eq_iff)

lemma view_ids: "view s orgId i = Some q \<Longrightarrow> pl_id q = i \<and> pl_orgId q = orgId"
  using find_plan_ids by (auto simp: view_def)

lemma map_step_id: "n \<notin> st_ordinal ` set ss \<Longrightarrow> map_step n f ss = ss"
  by (auto simp: map_step_def intro!: map_idI)

lemma map_step_app: "map_step n f (xs @ ys) = map_step n f xs @ map_step n f ys"
  by (simp add: map_step_def)

lemma map_step_comp: "(\<And>x. st_ordinal (f x) = st_ordinal x) \<Longrightarrow> map_step n g (map_step n f ss) = map_step n (g \<circ> f) ss"
  by (simp add: map_step_def)

definition skip_step :: "nat \<Rightarrow> plan_step \<Rightarrow> plan_step" where
  "skip_step n st = (if n < st_ordinal st \<and> st_status st = SS_pending
     then patch_step (no_step_patch\<lparr>sp_status := Some SS_skipped\<rparr>) st else st)"

lemma view_skip_later:
  "view s orgId i = Some q \<Longrightarrow>
     view (skip_later i n ss s) orgId i = Some (q\<lparr>pl_steps := map (\<lambda>st.
       if \<exists>t\<in>set ss. st_ordinal t = st_ordinal st \<and> n < st_ordinal t \<and> st_status t = SS_pending
       then patch_step (no_step_patch\<lparr>sp_status := Some SS_skipped\<rparr>) st else st) (pl_steps q)\<rparr>)"
proof (induction ss arbitrary: s q)
  case (Cons t ss)
  let ?p = "no_step_patch\<lparr>sp_status := Some SS_skipped\<rparr>"
  have idem: "patch_step ?p (patch_step ?p st) = patch_step ?p st" for st
    by (simp add: patch_step_def no_step_patch_def)
  show ?case
  proof (cases "n < st_ordinal t \<and> st_status t = SS_pending")
    case True
    then have "view (upd_step i (st_ordinal t) ?p s) orgId i =
        Some (q\<lparr>pl_steps := map_step (st_ordinal t) (patch_step ?p) (pl_steps q)\<rparr>)"
      using Cons.prems by (simp add: view_upd_step)
    from Cons.IH [OF this] have ih: "view (skip_later i n ss (upd_step i (st_ordinal t) ?p s)) orgId i = Some (q\<lparr>pl_steps :=
        map (\<lambda>st. if \<exists>t\<in>set ss. st_ordinal t = st_ordinal st \<and> n < st_ordinal t \<and> st_status t = SS_pending
          then patch_step ?p st else st) (map_step (st_ordinal t) (patch_step ?p) (pl_steps q))\<rparr>)"
      by simp
    have lists: "map (\<lambda>st. if \<exists>t\<in>set ss. st_ordinal t = st_ordinal st \<and> n < st_ordinal t \<and> st_status t = SS_pending
        then patch_step ?p st else st) (map_step (st_ordinal t) (patch_step ?p) (pl_steps q)) =
      map (\<lambda>st. if \<exists>t\<in>set (t # ss). st_ordinal t = st_ordinal st \<and> n < st_ordinal t \<and> st_status t = SS_pending
        then patch_step ?p st else st) (pl_steps q)"
      using True by (auto simp: map_step_def idem)
    have "skip_later i n (t # ss) s = skip_later i n ss (upd_step i (st_ordinal t) ?p s)" using True by simp
    then show ?thesis by (simp only: ih lists)
  next
    case False
    then have "(\<exists>u\<in>set (t # ss). st_ordinal u = st_ordinal st \<and> n < st_ordinal u \<and> st_status u = SS_pending) \<longleftrightarrow>
        (\<exists>u\<in>set ss. st_ordinal u = st_ordinal st \<and> n < st_ordinal u \<and> st_status u = SS_pending)" for st :: plan_step
      by auto
    moreover have "skip_later i n (t # ss) s = skip_later i n ss s" using False by (simp only: skip_later.simps if_False)
    ultimately show ?thesis by (simp only: Cons.IH [OF Cons.prems])
  qed
qed simp

lemma view_halt:
  assumes "view s orgId i = Some q" "distinct (map st_ordinal (pl_steps q))"
  shows "view (snd (haltPlan orgId i n reason s)) orgId i =
     Some (q\<lparr>pl_status := PS_failed, pl_steps := map (skip_step n) (pl_steps q)\<rparr>)"
proof -
  have "(\<exists>t\<in>set (pl_steps q). st_ordinal t = st_ordinal st \<and> n < st_ordinal t \<and> st_status t = SS_pending) \<longleftrightarrow>
      n < st_ordinal st \<and> st_status st = SS_pending" if "st \<in> set (pl_steps q)" for st
    using that assms(2) by (auto simp: distinct_map inj_on_def)
  then have "map (\<lambda>st. if \<exists>t\<in>set (pl_steps q). st_ordinal t = st_ordinal st \<and> n < st_ordinal t \<and> st_status t = SS_pending
      then patch_step (no_step_patch\<lparr>sp_status := Some SS_skipped\<rparr>) st else st) (pl_steps q) =
      map (skip_step n) (pl_steps q)"
    by (intro map_cong) (simp_all add: skip_step_def)
  moreover have "plan_findByIdInOrg (x_db s) orgId i = Some q" using assms(1) by (simp add: view_def)
  ultimately show ?thesis
    using view_skip_later [OF assms(1), of n "pl_steps q"]
    by (simp add: haltPlan_def Let_def set_plan_status_def view_upd_plan patch_plan_def no_plan_patch_def)
qed

section \<open>One step\<close>

definition start_patch :: "exec_env \<Rightarrow> nat \<Rightarrow> step_patch" where
  "start_patch env k = no_step_patch\<lparr>sp_status := Some SS_executing, sp_executedAt := Some (Some (en_clock env k))\<rparr>"

definition end_patch :: "exec_env \<Rightarrow> nat \<Rightarrow> plan \<Rightarrow> plan_step \<Rightarrow> step_patch" where
  "end_patch env k p st =
     (case readOpsRunCommandParams st of
        None \<Rightarrow> fail_patch (Some (invalid_params env st))
      | Some params \<Rightarrow>
          (case en_adapter env k p st params of
             Inl e \<Rightarrow> fail_patch (truncate_text (Some (''adapter threw: '' @ e)) STDIO_CAP_BYTES)
           | Inr r \<Rightarrow>
               (if er_success r
                then no_step_patch\<lparr>sp_status := Some SS_done,
                       sp_outputText := Some (truncate_text (Some (er_output r)) STDIO_CAP_BYTES)\<rparr>
                else fail_patch (truncate_text (Some (coalesce (er_error r) ''step failed'')) STDIO_CAP_BYTES))))"

definition ran :: "exec_env \<Rightarrow> nat \<Rightarrow> plan \<Rightarrow> plan_step \<Rightarrow> plan_step" where
  "ran env k p st = patch_step (end_patch env k p st) (patch_step (start_patch env k) st)"

definition step_calls :: "plan_step \<Rightarrow> string \<Rightarrow> adapter_call list" where
  "step_calls st i = (case readOpsRunCommandParams st of None \<Rightarrow> []
     | Some params \<Rightarrow> [\<lparr>cl_planId = i, cl_ordinal = st_ordinal st, cl_connectorId = op_connectorId params,
                        cl_argv = op_argv params\<rparr>])"

lemma end_patch_status: "sp_status (end_patch env k p st) \<in> {Some SS_done, Some SS_failed}"
  by (auto simp: end_patch_def fail_patch_def no_step_patch_def split: option.splits sum.splits)

lemma ran_status: "st_status (ran env k p st) = SS_done \<or> st_status (ran env k p st) = SS_failed"
  using end_patch_status [of env k p st] by (auto simp: ran_def)

lemma ran_frame [simp]:
  "st_ordinal (ran env k p st) = st_ordinal st" "st_continueOnError (ran env k p st) = st_continueOnError st"
  "st_planId (ran env k p st) = st_planId st" "st_kind (ran env k p st) = st_kind st"
  by (simp_all add: ran_def)

definition halts :: "exec_env \<Rightarrow> nat \<Rightarrow> plan \<Rightarrow> plan_step \<Rightarrow> bool" where
  "halts env k p st \<longleftrightarrow> st_status (ran env k p st) = SS_failed \<and> \<not> st_continueOnError st"

lemma halt_frame [simp]:
  "x_calls (skip_later i n ss s) = x_calls s" "x_tick (skip_later i n ss s) = x_tick s"
  "x_approvals (skip_later i n ss s) = x_approvals s"
  "x_calls (snd (haltPlan orgId i n reason s)) = x_calls s" "x_tick (snd (haltPlan orgId i n reason s)) = x_tick s"
  "x_approvals (snd (haltPlan orgId i n reason s)) = x_approvals s"
proof -
  show skip: "x_calls (skip_later i n ss s) = x_calls s" "x_tick (skip_later i n ss s) = x_tick s"
    "x_approvals (skip_later i n ss s) = x_approvals s" for ss
    by (induction ss arbitrary: s) auto
  show "x_calls (snd (haltPlan orgId i n reason s)) = x_calls s" "x_tick (snd (haltPlan orgId i n reason s)) = x_tick s"
    "x_approvals (snd (haltPlan orgId i n reason s)) = x_approvals s"
    by (auto simp: haltPlan_def Let_def set_plan_status_def skip split: option.splits)
qed

text \<open>
  The two halves of \<^verbatim>\<open>executeStep\<close>: up to the call of the adapter, and from its answer on.
\<close>

definition step_begin :: "exec_env \<Rightarrow> plan \<Rightarrow> plan_step \<Rightarrow> exec_state \<Rightarrow> exec_state" where
  "step_begin env p step s =
     (let s1 = upd_step (pl_id p) (st_ordinal step) (start_patch env (x_tick s)) (s\<lparr>x_tick := Suc (x_tick s)\<rparr>)
      in s1\<lparr>x_calls := x_calls s1 @ step_calls step (pl_id p)\<rparr>)"

definition step_finish :: "exec_env \<Rightarrow> nat \<Rightarrow> plan \<Rightarrow> plan_step \<Rightarrow> exec_state \<Rightarrow> exec_state" where
  "step_finish env k p step s =
     (let s1 = upd_step (pl_id p) (st_ordinal step) (end_patch env k p step) s in
      case readOpsRunCommandParams step of
        None \<Rightarrow> halt_unless_continue p step (invalid_params env step) s1
      | Some params \<Rightarrow>
          (case en_adapter env k p step params of
             Inl e \<Rightarrow> halt_unless_continue p step e (audit env p step False (Some (''adapter threw: '' @ e)) params s1)
           | Inr r \<Rightarrow>
               (if er_success r then audit env p step True None params s1
                else (let errMsg = coalesce (er_error r) ''step failed''
                      in halt_unless_continue p step errMsg (audit env p step False (Some errMsg) params s1)))))"

lemma executeStep_halves: "executeStep env p st s = step_finish env (x_tick s) p st (step_begin env p st s)"
proof (cases "readOpsRunCommandParams st")
  case None
  then show ?thesis
    by (simp add: executeStep_def step_finish_def step_begin_def start_patch_def end_patch_def step_calls_def Let_def)
next
  case (Some params)
  then show ?thesis
    by (cases "en_adapter env (x_tick s) p st params")
       (simp_all add: executeStep_def step_finish_def step_begin_def start_patch_def end_patch_def step_calls_def Let_def)
qed

lemma step_begin_frame:
  "x_db (step_begin env p st s) = x_db (upd_step (pl_id p) (st_ordinal st) (start_patch env (x_tick s)) s)"
  "x_calls (step_begin env p st s) = x_calls s @ step_calls st (pl_id p)" "x_tick (step_begin env p st s) = Suc (x_tick s)"
  "x_approvals (step_begin env p st s) = x_approvals s"
  by (simp_all add: step_begin_def upd_step_def Let_def)

text \<open>The second half in one equation: the patch, the audit row, the halt.\<close>

lemma step_finish_shape:
  obtains s' reason where
    "step_finish env k p st s = (if halts env k p st then snd (haltPlan (pl_orgId p) (pl_id p) (st_ordinal st) reason s') else s')"
    "x_db s' = x_db (upd_step (pl_id p) (st_ordinal st) (end_patch env k p st) s)"
    "x_calls s' = x_calls s" "x_tick s' = x_tick s" "x_approvals s' = x_approvals s"
proof -
  let ?s1 = "upd_step (pl_id p) (st_ordinal st) (end_patch env k p st) s"
  have failed: "st_status (ran env k p st) = SS_failed \<longleftrightarrow> sp_status (end_patch env k p st) = Some SS_failed"
    using end_patch_status [of env k p st] by (auto simp: ran_def)
  show ?thesis
  proof (cases "readOpsRunCommandParams st")
    case None
    then show ?thesis
      by (intro that [of "invalid_params env st" ?s1])
         (simp_all add: step_finish_def halt_unless_continue_def halts_def failed end_patch_def fail_patch_def Let_def)
  next
    case (Some params)
    show ?thesis
    proof (cases "en_adapter env k p st params")
      case (Inl e)
      then show ?thesis
        by (intro that [of e "audit env p st False (Some (''adapter threw: '' @ e)) params ?s1"])
           (simp_all add: step_finish_def Some halt_unless_continue_def halts_def failed end_patch_def fail_patch_def Let_def)
    next
      case (Inr r)
      let ?m = "coalesce (er_error r) ''step failed''"
      show ?thesis
      proof (cases "er_success r")
        case True
        then show ?thesis
          by (intro that [of "''''" "audit env p st True None params ?s1"])
             (simp_all add: step_finish_def Some Inr halts_def failed end_patch_def Let_def)
      next
        case False
        then show ?thesis
          by (intro that [of ?m "audit env p st False (Some ?m) params ?s1"])
             (simp_all add: step_finish_def Some Inr halt_unless_continue_def halts_def failed end_patch_def fail_patch_def Let_def)
      qed
    qed
  qed
qed

text \<open>The whole of \<^verbatim>\<open>executeStep\<close> in one equation: two patches, the call, the halt.\<close>

lemma executeStep_shape:
  obtains s' reason where
    "executeStep env p st s = (if halts env (x_tick s) p st then snd (haltPlan (pl_orgId p) (pl_id p) (st_ordinal st) reason s') else s')"
    "x_db s' = x_db (upd_step (pl_id p) (st_ordinal st) (end_patch env (x_tick s) p st)
       (upd_step (pl_id p) (st_ordinal st) (start_patch env (x_tick s)) s))"
    "x_calls s' = x_calls s @ step_calls st (pl_id p)" "x_tick s' = Suc (x_tick s)" "x_approvals s' = x_approvals s"
proof -
  have db: "x_db (upd_step i n q s1) = x_db (upd_step i n q s2)" if "x_db s1 = x_db s2" for i n q s1 s2
    using that by (simp add: upd_step_def)
  obtain s' reason where s': "step_finish env (x_tick s) p st (step_begin env p st s)
      = (if halts env (x_tick s) p st then snd (haltPlan (pl_orgId p) (pl_id p) (st_ordinal st) reason s') else s')"
    "x_db s' = x_db (upd_step (pl_id p) (st_ordinal st) (end_patch env (x_tick s) p st) (step_begin env p st s))"
    "x_calls s' = x_calls (step_begin env p st s)" "x_tick s' = x_tick (step_begin env p st s)"
    "x_approvals s' = x_approvals (step_begin env p st s)"
    using step_finish_shape [of env "x_tick s" p st "step_begin env p st s"] by metis
  show ?thesis
    by (rule that [of reason s']) (use s' in \<open>simp_all add: executeStep_halves step_begin_frame db [OF step_begin_frame(1)]\<close>)
qed

lemma view_execute:
  fixes env :: exec_env and st :: plan_step
  assumes "view s orgId i = Some p" "distinct (map st_ordinal (pl_steps p))"
  defines "ss \<equiv> map_step (st_ordinal st) (\<lambda>t. patch_step (end_patch env (x_tick s) p st) (patch_step (start_patch env (x_tick s)) t)) (pl_steps p)"
  shows "view (executeStep env p st s) orgId i =
     Some (if halts env (x_tick s) p st then p\<lparr>pl_status := PS_failed, pl_steps := map (skip_step (st_ordinal st)) ss\<rparr>
           else p\<lparr>pl_steps := ss\<rparr>)"
proof -
  have ids: "pl_id p = i" "pl_orgId p = orgId" using view_ids [OF assms(1)] by auto
  obtain s' reason where e: "executeStep env p st s = (if halts env (x_tick s) p st then snd (haltPlan orgId i (st_ordinal st) reason s') else s')"
    and db: "x_db s' = x_db (upd_step i (st_ordinal st) (end_patch env (x_tick s) p st)
       (upd_step i (st_ordinal st) (start_patch env (x_tick s)) s))"
    using executeStep_shape [of env p st s] unfolding ids by metis
  have "view s' orgId i = view (upd_step i (st_ordinal st) (end_patch env (x_tick s) p st)
       (upd_step i (st_ordinal st) (start_patch env (x_tick s)) s)) orgId i"
    by (simp add: view_def db)
  also have "\<dots> = Some (p\<lparr>pl_steps := ss\<rparr>)"
    using assms(1) by (simp add: view_upd_step ss_def map_step_comp comp_def)
  finally have v: "view s' orgId i = Some (p\<lparr>pl_steps := ss\<rparr>)" .
  have "map st_ordinal ss = map st_ordinal (pl_steps p)" by (simp add: ss_def map_step_def)
  then have "distinct (map st_ordinal ss)" using assms(2) by metis
  with view_halt [OF v] v e show ?thesis by simp
qed

lemma execute_frame:
  "x_calls (executeStep env p st s) = x_calls s @ step_calls st (pl_id p)"
  "x_tick (executeStep env p st s) = Suc (x_tick s)" "x_approvals (executeStep env p st s) = x_approvals s"
  using executeStep_shape [of env p st s] by (metis halt_frame(4-6))+

section \<open>An automatic run is one pass over the steps\<close>

text \<open>
  The specification: walk over the steps once, from left to right; run a pending step; if it
  fails and does not continue on error, skip the pending rest and fail, else go on.
\<close>

fun auto_pass ::
  "exec_env \<Rightarrow> plan \<Rightarrow> nat \<Rightarrow> plan_step list \<Rightarrow> plan_step list \<Rightarrow> plan_status \<times> plan_step list \<times> adapter_call list" where
  "auto_pass env p k pre [] = (PS_completed, pre, [])"
| "auto_pass env p k pre (st # rest) =
     (if st_status st \<noteq> SS_pending then auto_pass env p k (pre @ [st]) rest
      else let p' = p\<lparr>pl_steps := pre @ st # rest\<rparr>; st' = ran env k p' st in
        if halts env k p' st then (PS_failed, pre @ st' # map (skip_step (st_ordinal st)) rest, step_calls st (pl_id p))
        else (case auto_pass env p (Suc k) (pre @ [st']) rest of
                (fin, ss, calls) \<Rightarrow> (fin, ss, step_calls st (pl_id p) @ calls)))"

lemma sorted_ordinals:
  assumes "plan_db_ok db"
  shows "sorted_wrt (<) (map st_ordinal (steps_of db i))"
proof -
  have "distinct (map (\<lambda>s. (st_planId s, st_ordinal s)) (filter (\<lambda>s. st_planId s = i) (pd_steps db)))"
    using assms distinct_map_filter unfolding plan_db_ok_def by blast
  then have "distinct (map st_ordinal (filter (\<lambda>s. st_planId s = i) (pd_steps db)))"
    by (auto simp: distinct_map inj_on_def)
  then have "distinct (map st_ordinal (steps_of db i))"
    by (simp add: steps_of_def distinct_map)
  moreover have "sorted (map st_ordinal (steps_of db i))" by (simp add: steps_of_def)
  ultimately show ?thesis by (simp add: strict_sorted_iff)
qed

lemma view_ordinals: "plan_db_ok (x_db s) \<Longrightarrow> view s orgId i = Some p \<Longrightarrow> sorted_wrt (<) (map st_ordinal (pl_steps p))"
  using sorted_ordinals find_plan_ids by (metis view_def)

lemma upd_step_ok: "plan_db_ok (x_db s) \<Longrightarrow> plan_db_ok (x_db (upd_step i n p s))"
  by (simp add: upd_step_def updateStep_ok)

lemma upd_plan_ok: "plan_db_ok (x_db s) \<Longrightarrow> plan_db_ok (x_db (upd_plan orgId i p s))"
  by (simp add: upd_plan_def updatePlan_ok)

lemma skip_later_ok: "plan_db_ok (x_db s) \<Longrightarrow> plan_db_ok (x_db (skip_later i n ss s))"
  by (induction ss arbitrary: s) (auto simp: upd_step_ok)

lemma halt_ok: "plan_db_ok (x_db s) \<Longrightarrow> plan_db_ok (x_db (snd (haltPlan orgId i n reason s)))"
  by (auto simp: haltPlan_def Let_def set_plan_status_def upd_plan_ok skip_later_ok split: option.splits)

lemma execute_ok:
  assumes "plan_db_ok (x_db s)"
  shows "plan_db_ok (x_db (executeStep env p st s))"
proof -
  obtain s' reason where
    e: "executeStep env p st s = (if halts env (x_tick s) p st then snd (haltPlan (pl_orgId p) (pl_id p) (st_ordinal st) reason s') else s')"
    and db: "x_db s' = x_db (upd_step (pl_id p) (st_ordinal st) (end_patch env (x_tick s) p st)
       (upd_step (pl_id p) (st_ordinal st) (start_patch env (x_tick s)) s))"
    using executeStep_shape [of env p st s] by metis
  have "plan_db_ok (x_db s')" unfolding db by (intro upd_step_ok assms)
  then show ?thesis unfolding e using halt_ok by simp
qed

lemma map_step_split:
  assumes "sorted_wrt (<) (map st_ordinal (pre @ st # rest))"
  shows "map_step (st_ordinal st) f (pre @ st # rest) = pre @ f st # rest"
proof -
  have "st_ordinal st \<notin> st_ordinal ` set pre" "st_ordinal st \<notin> st_ordinal ` set rest"
    using assms by (auto simp: sorted_wrt_append)
  then show ?thesis by (simp add: map_step_app map_step_id) (simp add: map_step_def map_step_id [unfolded map_step_def])
qed

lemma auto_run:
  assumes "plan_db_ok (x_db s)" "view s orgId i = Some p" "pl_steps p = pre @ rest"
    and "\<forall>st\<in>set pre. st_status st \<noteq> SS_pending"
    and "pl_autoEdit p" "pl_status p \<notin> {PS_failed, PS_cancelled}"
    and "auto_pass env p (x_tick s) pre rest = (fin, ss, calls)"
  shows "\<exists>s'. runNext env orgId i s =
       (Inr (if fin = PS_completed then Completed else failed_outcome (p\<lparr>pl_status := fin, pl_steps := ss\<rparr>)), s')
     \<and> view s' orgId i = Some (p\<lparr>pl_status := fin, pl_steps := ss\<rparr>) \<and> x_calls s' = x_calls s @ calls
     \<and> plan_db_ok (x_db s') \<and> x_approvals s' = x_approvals s"
  using assms
proof (induction rest arbitrary: s p pre fin ss calls)
  case Nil
  have none: "List.find (\<lambda>st. st_status st = SS_pending) (pl_steps p) = None" using Nil by (simp add: find_None_set)
  let ?s' = "set_plan_status orgId i PS_completed s"
  have "runNext env orgId i s = (Inr Completed, ?s')"
    using Nil none by (simp add: runNext.simps [of env orgId i s] view_def)
  moreover have "view ?s' orgId i = Some (p\<lparr>pl_status := PS_completed\<rparr>)"
    using Nil.prems(2) by (simp add: set_plan_status_def view_upd_plan patch_plan_def no_plan_patch_def)
  moreover have "p\<lparr>pl_status := PS_completed, pl_steps := pre\<rparr> = p\<lparr>pl_status := PS_completed\<rparr>" using Nil.prems(3) by simp
  ultimately show ?case using Nil.prems by (auto simp: set_plan_status_def upd_plan_ok)
next
  case (Cons st rest)
  show ?case
  proof (cases "st_status st = SS_pending")
    case False
    then show ?thesis using Cons.IH [of s p "pre @ [st]" fin ss calls] Cons.prems by simp
  next
    case True
    let ?k = "x_tick s" and ?e = "executeStep env p st s" and ?st = "ran env (x_tick s) p st"
    have self: "p\<lparr>pl_steps := pre @ st # rest\<rparr> = p" using Cons.prems(3) by simp
    have ord: "sorted_wrt (<) (map st_ordinal (pre @ st # rest))"
      using view_ordinals [OF Cons.prems(1,2)] Cons.prems(3) by simp
    then have dist: "distinct (map st_ordinal (pl_steps p))" using Cons.prems(3) strict_sorted_iff by metis
    have found: "List.find (\<lambda>st. st_status st = SS_pending) (pl_steps p) = Some st"
      using Cons.prems(3,4) True by (simp add: find_append_miss find_None_set)
    have run: "runNext env orgId i s = runNext env orgId i ?e"
      using Cons.prems found by (simp add: runNext.simps [of env orgId i s] view_def)
    have v: "view ?e orgId i = Some (if halts env ?k p st
        then p\<lparr>pl_status := PS_failed, pl_steps := map (skip_step (st_ordinal st)) (pre @ ?st # rest)\<rparr>
        else p\<lparr>pl_steps := pre @ ?st # rest\<rparr>)"
      using view_execute [OF Cons.prems(2) dist, of env st] map_step_split [OF ord] Cons.prems(3) by (simp add: ran_def)
    have ok: "plan_db_ok (x_db ?e)" using Cons.prems(1) by (rule execute_ok)
    have pid: "pl_id p = i" using view_ids [OF Cons.prems(2)] by simp
    have keep: "map (skip_step (st_ordinal st)) (pre @ ?st # rest) = pre @ ?st # map (skip_step (st_ordinal st)) rest"
      using ord by (auto simp: sorted_wrt_append skip_step_def intro!: map_idI)
    show ?thesis
    proof (cases "halts env ?k p st")
      case True': True
      let ?q = "p\<lparr>pl_status := PS_failed, pl_steps := pre @ ?st # map (skip_step (st_ordinal st)) rest\<rparr>"
      have res: "fin = PS_failed" "ss = pre @ ?st # map (skip_step (st_ordinal st)) rest" "calls = step_calls st i"
        using Cons.prems(7) True True' self pid by (auto simp: Let_def)
      have vq: "view ?e orgId i = Some ?q" using v True' keep by simp
      then have "runNext env orgId i ?e = (Inr (failed_outcome ?q), ?e)"
        by (simp add: runNext.simps [of env orgId i ?e] view_def)
      then show ?thesis using run vq ok res pid by (auto simp: execute_frame)
    next
      case False
      obtain fin' ss' calls' where rec: "auto_pass env p (Suc ?k) (pre @ [?st]) rest = (fin', ss', calls')"
        by (metis prod_cases3)
      have res: "fin = fin'" "ss = ss'" "calls = step_calls st i @ calls'"
        using Cons.prems(7) True False self pid rec by (auto simp: Let_def)
      let ?q = "p\<lparr>pl_steps := pre @ ?st # rest\<rparr>"
      have indep: "auto_pass env (p\<lparr>pl_steps := x\<rparr>) k pr rs = auto_pass env p k pr rs" for x k pr rs
        by (induction rs arbitrary: k pr) (simp_all add: Let_def)
      have "\<exists>s'. runNext env orgId i ?e =
         (Inr (if fin' = PS_completed then Completed else failed_outcome (?q\<lparr>pl_status := fin', pl_steps := ss'\<rparr>)), s')
         \<and> view s' orgId i = Some (?q\<lparr>pl_status := fin', pl_steps := ss'\<rparr>) \<and> x_calls s' = x_calls ?e @ calls'
         \<and> plan_db_ok (x_db s') \<and> x_approvals s' = x_approvals ?e"
      proof (rule Cons.IH [of ?e ?q "pre @ [?st]"])
        show "\<forall>t\<in>set (pre @ [?st]). st_status t \<noteq> SS_pending"
          using Cons.prems(4) ran_status [of env ?k p st] by auto
        show "auto_pass env ?q (x_tick ?e) (pre @ [?st]) rest = (fin', ss', calls')"
          by (simp add: indep execute_frame rec)
      qed (use v False ok Cons.prems(5,6) in auto)
      then show ?thesis using run res pid by (auto simp: execute_frame)
    qed
  qed
qed

lemma skip_step_frame [simp]:
  "st_ordinal (skip_step n st) = st_ordinal st" "st_continueOnError (skip_step n st) = st_continueOnError st"
  by (auto simp: skip_step_def)

definition settled :: "plan_step list \<Rightarrow> plan_status \<Rightarrow> adapter_call list \<Rightarrow> bool" where
  "settled ss fin calls \<longleftrightarrow> fin \<in> {PS_completed, PS_failed}
     \<and> (\<forall>st\<in>set ss. st_status st \<in> {SS_done, SS_failed, SS_skipped})
     \<and> (fin = PS_failed \<longleftrightarrow> (\<exists>st\<in>set ss. st_status st = SS_failed \<and> \<not> st_continueOnError st))
     \<and> sorted_wrt (<) (map cl_ordinal calls) \<and> cl_ordinal ` set calls \<subseteq> st_ordinal ` set ss
     \<and> (\<forall>st\<in>set ss. st_status st = SS_skipped \<longrightarrow>
          (\<exists>h\<in>set ss. st_ordinal h < st_ordinal st \<and> st_status h = SS_failed \<and> \<not> st_continueOnError h)
          \<and> (\<forall>c\<in>set calls. cl_ordinal c < st_ordinal st))"

lemma step_calls_ordinal: "c \<in> set (step_calls st i) \<Longrightarrow> cl_ordinal c = st_ordinal st \<and> cl_planId c = i"
  by (auto simp: step_calls_def split: option.splits)

lemma settled_Cons:
  assumes "settled ss fin calls" "st_status st = SS_done \<or> st_status st = SS_failed \<and> st_continueOnError st"
    and "\<forall>t\<in>set ss. st_ordinal st < st_ordinal t" "st_ordinal st' = st_ordinal st"
  shows "settled (st # ss) fin (step_calls st' i @ calls)"
proof -
  have sub: "cl_ordinal ` set calls \<subseteq> st_ordinal ` set ss" and sk: "\<forall>t\<in>set ss. st_status t = SS_skipped \<longrightarrow>
      (\<forall>c\<in>set calls. cl_ordinal c < st_ordinal t)"
    using assms(1) unfolding settled_def by blast+
  have "\<forall>c\<in>set calls. st_ordinal st < cl_ordinal c"
  proof
    fix c assume "c \<in> set calls"
    then obtain t where "t \<in> set ss" "cl_ordinal c = st_ordinal t" using sub by auto
    then show "st_ordinal st < cl_ordinal c" using assms(3) by simp
  qed
  then have "sorted_wrt (<) (map cl_ordinal (step_calls st' i @ calls))"
    using assms(1,4) by (auto simp: settled_def step_calls_def sorted_wrt_append split: option.splits)
  moreover have "cl_ordinal ` set (step_calls st' i @ calls) \<subseteq> st_ordinal ` set (st # ss)"
    using sub assms(4) by (auto simp: step_calls_def split: option.splits)
  moreover have "\<forall>t\<in>set ss. st_status t = SS_skipped \<longrightarrow> (\<forall>c\<in>set (step_calls st' i @ calls). cl_ordinal c < st_ordinal t)"
    using sk assms(3,4) by (auto simp: step_calls_def split: option.splits)
  ultimately show ?thesis using assms(1,2) unfolding settled_def by auto
qed

lemma auto_pass_settles:
  assumes "auto_pass env p k pre rest = (fin, ss, calls)" "\<forall>st\<in>set rest. st_status st = SS_pending"
    and "sorted_wrt (<) (map st_ordinal rest)"
  shows "\<exists>done. ss = pre @ done \<and> map st_ordinal done = map st_ordinal rest \<and> settled done fin calls
     \<and> (\<forall>c\<in>set calls. cl_planId c = pl_id p)"
  using assms
proof (induction rest arbitrary: k pre fin ss calls)
  case Nil
  then show ?case by (simp add: settled_def)
next
  case (Cons st rest)
  let ?p = "p\<lparr>pl_steps := pre @ st # rest\<rparr>"
  let ?st = "ran env k ?p st"
  show ?case
  proof (cases "halts env k ?p st")
    case True
    have res: "fin = PS_failed" "ss = pre @ ?st # map (skip_step (st_ordinal st)) rest" "calls = step_calls st (pl_id p)"
      using Cons.prems True by (auto simp: Let_def)
    have failed: "st_status ?st = SS_failed" "\<not> st_continueOnError st" using True by (auto simp: halts_def)
    have rest: "\<forall>t\<in>set rest. st_ordinal st < st_ordinal t \<and> st_status (skip_step (st_ordinal st) t) = SS_skipped"
      using Cons.prems(2,3) by (auto simp: skip_step_def)
    have "sorted_wrt (<) (map cl_ordinal calls)" by (auto simp: res(3) step_calls_def split: option.splits)
    with failed rest res have "settled (?st # map (skip_step (st_ordinal st)) rest) fin calls"
      by (auto simp: settled_def dest: step_calls_ordinal)
    moreover have "map st_ordinal (?st # map (skip_step (st_ordinal st)) rest) = map st_ordinal (st # rest)" by simp
    ultimately show ?thesis using res step_calls_ordinal by blast
  next
    case False
    obtain fin' ss' calls' where rec: "auto_pass env p (Suc k) (pre @ [?st]) rest = (fin', ss', calls')"
      by (metis prod_cases3)
    have res: "fin = fin'" "ss = ss'" "calls = step_calls st (pl_id p) @ calls'"
      using Cons.prems(1,2) False rec by (auto simp: Let_def)
    obtain tl where tl: "ss' = (pre @ [?st]) @ tl" "map st_ordinal tl = map st_ordinal rest" "settled tl fin' calls'"
      "\<forall>c\<in>set calls'. cl_planId c = pl_id p"
      using Cons.IH [OF rec] Cons.prems by auto
    have "\<forall>t\<in>set tl. st_ordinal ?st < st_ordinal t"
    proof
      fix t assume "t \<in> set tl"
      then have "st_ordinal t \<in> set (map st_ordinal tl)" by simp
      then show "st_ordinal ?st < st_ordinal t" using Cons.prems(3) unfolding tl(2) by auto
    qed
    with tl(3) have "settled (?st # tl) fin calls"
      unfolding res using False ran_status [of env k ?p st] by (intro settled_Cons) (auto simp: halts_def)
    then show ?thesis using tl res step_calls_ordinal by (intro exI [of _ "?st # tl"]) auto
  qed
qed

definition approved_plan :: "int \<Rightarrow> bool \<Rightarrow> identity \<Rightarrow> plan \<Rightarrow> plan" where
  "approved_plan now autoEdit ident p = p\<lparr>pl_status := PS_executing, pl_autoEdit := autoEdit,
     pl_resolvedAt := Some now, pl_resolvedBy := Some (id_userId ident)\<rparr>"

lemma approve_state:
  assumes "view s orgId i = Some p" "pl_status p = PS_pending_approval" "plan_db_ok (x_db s)"
  obtains s2 where "exec_approve env now orgId i autoEdit ident s = runNext env orgId i s2"
    "view s2 orgId i = Some (approved_plan now autoEdit ident p)" "plan_db_ok (x_db s2)"
    "x_calls s2 = x_calls s" "x_tick s2 = x_tick s" "x_approvals s2 = x_approvals s"
    "pd_steps (x_db s2) = pd_steps (x_db s)"
proof (rule that)
  let ?s1 = "upd_plan orgId i (no_plan_patch\<lparr>pp_status := Some PS_approved, pp_autoEdit := Some autoEdit,
      pp_resolvedAt := Some (Some now), pp_resolvedBy := Some (Some (id_userId ident))\<rparr>) s"
  let ?s2 = "set_plan_status orgId i PS_executing ?s1"
  show "exec_approve env now orgId i autoEdit ident s = runNext env orgId i ?s2"
    using assms by (simp add: exec_approve_def view_def Let_def)
  show "view ?s2 orgId i = Some (approved_plan now autoEdit ident p)"
    using assms(1) by (simp add: set_plan_status_def view_upd_plan patch_plan_def no_plan_patch_def approved_plan_def)
qed (use assms in \<open>auto simp: set_plan_status_def upd_plan_ok\<close>)

lemma auto_approve_run:
  assumes "plan_db_ok (x_db s)" "plan_findByIdInOrg (x_db s) orgId i = Some p" "pl_status p = PS_pending_approval"
    and "auto_pass env (approved_plan now True ident p) (x_tick s) [] (pl_steps p) = (fin, ss, calls)"
  obtains s' where "exec_approve env now orgId i True ident s =
       (Inr (if fin = PS_completed then Completed
             else failed_outcome ((approved_plan now True ident p)\<lparr>pl_status := fin, pl_steps := ss\<rparr>)), s')"
    "plan_findByIdInOrg (x_db s') orgId i = Some ((approved_plan now True ident p)\<lparr>pl_status := fin, pl_steps := ss\<rparr>)"
    "x_calls s' = x_calls s @ calls" "x_approvals s' = x_approvals s"
proof -
  have "view s orgId i = Some p" using assms(2) by (simp add: view_def)
  from approve_state [OF this assms(3,1), of env now True ident] obtain s2 where
    s2: "exec_approve env now orgId i True ident s = runNext env orgId i s2"
    "view s2 orgId i = Some (approved_plan now True ident p)" "plan_db_ok (x_db s2)"
    "x_calls s2 = x_calls s" "x_tick s2 = x_tick s" "x_approvals s2 = x_approvals s" by blast
  have "\<exists>s'. runNext env orgId i s2 =
       (Inr (if fin = PS_completed then Completed
             else failed_outcome ((approved_plan now True ident p)\<lparr>pl_status := fin, pl_steps := ss\<rparr>)), s')
     \<and> view s' orgId i = Some ((approved_plan now True ident p)\<lparr>pl_status := fin, pl_steps := ss\<rparr>)
     \<and> x_calls s' = x_calls s2 @ calls \<and> plan_db_ok (x_db s') \<and> x_approvals s' = x_approvals s2"
    by (rule auto_run [where pre = "[]" and rest = "pl_steps p"])
       (use s2 assms(4) in \<open>auto simp: approved_plan_def\<close>)
  then show ?thesis using s2 that by (auto simp: view_def)
qed

text \<open>
  C7. Approving a plan in auto-edit mode runs it by one pass: although the loop re-reads the
  tables before every step, what it leaves in the tables, the adapter calls it makes and its
  answer are those of the single left-to-right walk over the steps.
\<close>

theorem auto_approve_is_one_pass:
  assumes "plan_db_ok (x_db s)" "plan_findByIdInOrg (x_db s) orgId i = Some p" "pl_status p = PS_pending_approval"
    and "auto_pass env (approved_plan now True ident p) (x_tick s) [] (pl_steps p) = (fin, ss, calls)"
  shows "\<exists>s'. exec_approve env now orgId i True ident s =
       (Inr (if fin = PS_completed then Completed
             else failed_outcome ((approved_plan now True ident p)\<lparr>pl_status := fin, pl_steps := ss\<rparr>)), s')
     \<and> plan_findByIdInOrg (x_db s') orgId i = Some ((approved_plan now True ident p)\<lparr>pl_status := fin, pl_steps := ss\<rparr>)
     \<and> x_calls s' = x_calls s @ calls \<and> x_approvals s' = x_approvals s"
  using auto_approve_run [OF assms] by metis

text \<open>
  C17. An automatic run always ends, and with a settled plan: when nobody writes to the plan while the
  call that approves it runs, every step is then done, failed or skipped; the plan has failed exactly
  if a step failed that does not continue on error, and only the steps after such a step are skipped;
  the adapter was called for the steps in the order of their ordinals, at most once each, and never
  for a skipped one or one after it.
\<close>

theorem auto_approve_settles:
  assumes "plan_db_ok (x_db s)" "plan_findByIdInOrg (x_db s) orgId i = Some p" "pl_status p = PS_pending_approval"
    and "\<forall>st\<in>set (pl_steps p). st_status st = SS_pending"
  shows "\<exists>r s' q calls. exec_approve env now orgId i True ident s = (Inr r, s')
     \<and> (r = Completed \<or> (\<exists>n e. r = Failed n e)) \<and> (r = Completed \<longleftrightarrow> pl_status q = PS_completed)
     \<and> plan_findByIdInOrg (x_db s') orgId i = Some q
     \<and> map st_ordinal (pl_steps q) = map st_ordinal (pl_steps p)
     \<and> settled (pl_steps q) (pl_status q) calls
     \<and> x_calls s' = x_calls s @ calls \<and> (\<forall>c\<in>set calls. cl_planId c = i)"
proof -
  let ?p = "approved_plan now True ident p"
  have v: "view s orgId i = Some p" using assms(2) by (simp add: view_def)
  obtain fin ss calls where pass: "auto_pass env ?p (x_tick s) [] (pl_steps p) = (fin, ss, calls)"
    by (metis prod_cases3)
  have "pl_id ?p = i" using view_ids [OF v] by (simp add: approved_plan_def)
  with auto_pass_settles [OF pass assms(4) view_ordinals [OF assms(1) v]]
  have st: "map st_ordinal ss = map st_ordinal (pl_steps p)" "settled ss fin calls" "\<forall>c\<in>set calls. cl_planId c = i"
    by auto
  obtain s' where s': "exec_approve env now orgId i True ident s =
       (Inr (if fin = PS_completed then Completed else failed_outcome (?p\<lparr>pl_status := fin, pl_steps := ss\<rparr>)), s')"
     "plan_findByIdInOrg (x_db s') orgId i = Some (?p\<lparr>pl_status := fin, pl_steps := ss\<rparr>)" "x_calls s' = x_calls s @ calls"
    using auto_approve_run [OF assms(1-3) pass] by metis
  have "fin = PS_completed \<or> fin = PS_failed" using st(2) unfolding settled_def by blast
  moreover have "\<exists>n e. failed_outcome q = Failed n e" for q
    by (auto simp: failed_outcome_def split: option.splits)
  ultimately show ?thesis
    using s' st
    by (intro exI [of _ "?p\<lparr>pl_status := fin, pl_steps := ss\<rparr>"] exI [of _ s'] exI [of _ calls]
         exI [of _ "if fin = PS_completed then Completed else failed_outcome (?p\<lparr>pl_status := fin, pl_steps := ss\<rparr>)"])
       (auto simp: failed_outcome_def split: option.splits)
qed

section \<open>A plan cancelled while it runs\<close>

lemma cancel_view:
  assumes "view s orgId i = Some p" "pl_status p = PS_approved \<or> pl_status p = PS_executing"
  shows "view (snd (exec_cancel now orgId i ident s)) orgId i
     = Some (p\<lparr>pl_status := PS_cancelled, pl_resolvedAt := Some now, pl_resolvedBy := Some (id_userId ident)\<rparr>)"
    "x_calls (snd (exec_cancel now orgId i ident s)) = x_calls s"
proof -
  let ?patch = "no_plan_patch\<lparr>pp_status := Some PS_cancelled, pp_resolvedAt := Some (Some now), pp_resolvedBy := Some (Some (id_userId ident))\<rparr>"
  have "snd (exec_cancel now orgId i ident s) = upd_plan orgId i ?patch s"
    using assms by (auto simp: exec_cancel_def view_def resolve_plan_def upd_plan_def Let_def split_beta)
  then show "view (snd (exec_cancel now orgId i ident s)) orgId i
      = Some (p\<lparr>pl_status := PS_cancelled, pl_resolvedAt := Some now, pl_resolvedBy := Some (id_userId ident)\<rparr>)"
    "x_calls (snd (exec_cancel now orgId i ident s)) = x_calls s"
    using assms(1) by (simp_all add: view_upd_plan patch_plan_def no_plan_patch_def)
qed

text \<open>
  The state when a plan is cancelled while the command of a step runs: the first half of the step,
  the cancellation, the second half.
\<close>

definition cancelled_in_flight :: "exec_env \<Rightarrow> int \<Rightarrow> identity \<Rightarrow> plan \<Rightarrow> plan_step \<Rightarrow> exec_state \<Rightarrow> exec_state" where
  "cancelled_in_flight env now ident p step s =
     step_finish env (x_tick s) p step (snd (exec_cancel now (pl_orgId p) (pl_id p) ident (step_begin env p step s)))"

text \<open>
  C11. A cancellation stops a running plan at the step in flight: if an executing plan is cancelled
  while the command of its next step runs, the step gets its result, but the loop, which reads the plan
  again before each step, calls the adapter for no other step; it answers that the plan is cancelled
  and leaves the plan so and its other pending steps pending.  The exception: if the step in flight
  fails and does not continue on error, the plan ends failed with its later pending steps skipped,
  and the cancellation is lost.
\<close>

theorem cancel_stops_run:
  assumes "plan_db_ok (x_db s)" "plan_findByIdInOrg (x_db s) orgId i = Some p" "pl_status p = PS_executing"
    and "List.find (\<lambda>st. st_status st = SS_pending) (pl_steps p) = Some st"
    and "s' = cancelled_in_flight env now ident p st s"
  shows "\<exists>q. plan_findByIdInOrg (x_db s') orgId i = Some q \<and> x_calls s' = x_calls s @ step_calls st i
     \<and> runNext env orgId i s' = (Inr (if halts env (x_tick s) p st then failed_outcome q else Cancelled), s')
     \<and> pl_status q = (if halts env (x_tick s) p st then PS_failed else PS_cancelled)
     \<and> pl_steps q = map (\<lambda>t. if st_ordinal t = st_ordinal st then ran env (x_tick s) p st
          else if halts env (x_tick s) p st then skip_step (st_ordinal st) t else t) (pl_steps p)"
proof -
  let ?k = "x_tick s" and ?n = "st_ordinal st"
  have v: "view s orgId i = Some p" using assms(2) by (simp add: view_def)
  have ids: "pl_id p = i" "pl_orgId p = orgId" using view_ids [OF v] by auto
  have dist: "distinct (map st_ordinal (pl_steps p))" using view_ordinals [OF assms(1) v] by (simp add: strict_sorted_iff)
  let ?p1 = "p\<lparr>pl_steps := map_step ?n (patch_step (start_patch env ?k)) (pl_steps p)\<rparr>"
  let ?ss = "map_step ?n (\<lambda>t. patch_step (end_patch env ?k p st) (patch_step (start_patch env ?k) t)) (pl_steps p)"
  let ?p2 = "p\<lparr>pl_status := PS_cancelled, pl_resolvedAt := Some now, pl_resolvedBy := Some (id_userId ident), pl_steps := ?ss\<rparr>"
  let ?s1 = "step_begin env p st s"
  let ?s2 = "snd (exec_cancel now orgId i ident ?s1)"
  have "view ?s1 orgId i = view (upd_step i ?n (start_patch env ?k) s) orgId i" by (simp add: view_def step_begin_frame ids)
  then have v1: "view ?s1 orgId i = Some ?p1" using v by (simp add: view_upd_step)
  have v2: "view ?s2 orgId i = Some (?p1\<lparr>pl_status := PS_cancelled, pl_resolvedAt := Some now, pl_resolvedBy := Some (id_userId ident)\<rparr>)"
    and calls: "x_calls ?s2 = x_calls s @ step_calls st i"
    using cancel_view [OF v1] assms(3) by (simp_all add: step_begin_frame ids)
  obtain s3 reason where s3: "s' = (if halts env ?k p st then snd (haltPlan orgId i ?n reason s3) else s3)"
      "x_db s3 = x_db (upd_step i ?n (end_patch env ?k p st) ?s2)" "x_calls s3 = x_calls ?s2"
    using step_finish_shape [of env ?k p st ?s2] assms(5) unfolding cancelled_in_flight_def ids by metis
  have "view s3 orgId i = view (upd_step i ?n (end_patch env ?k p st) ?s2) orgId i" by (simp add: view_def s3(2))
  then have v3: "view s3 orgId i = Some ?p2" using v2 by (simp add: view_upd_step map_step_comp comp_def)
  have ss: "?ss = map (\<lambda>t. if st_ordinal t = ?n then ran env ?k p st else t) (pl_steps p)"
  proof -
    have "st \<in> set (pl_steps p)" using assms(4) find_Some_set by fast
    then have "t = st" if "t \<in> set (pl_steps p)" "st_ordinal t = ?n" for t
      using dist that by (auto simp: distinct_map dest: inj_onD)
    then show ?thesis by (auto simp: map_step_def ran_def)
  qed
  have "map st_ordinal ?ss = map st_ordinal (pl_steps p)" by (simp add: map_step_def)
  then have "distinct (map st_ordinal (pl_steps ?p2))" using dist by simp
  from view_halt [OF v3 this, of ?n reason]
  have q: "view s' orgId i = Some (if halts env ?k p st then ?p2\<lparr>pl_status := PS_failed, pl_steps := map (skip_step ?n) ?ss\<rparr> else ?p2)"
    using s3(1) v3 by simp
  have "runNext env orgId i s' = (Inr (if halts env ?k p st then failed_outcome (the (view s' orgId i)) else Cancelled), s')"
    by (subst runNext.simps) (use q in \<open>simp add: view_def\<close>)
  moreover have "x_calls s' = x_calls s @ step_calls st i" using s3(1,3) calls by simp
  moreover have "skip_step ?n (ran env ?k p st) = ran env ?k p st" by (simp add: skip_step_def)
  ultimately show ?thesis using q unfolding ss by (auto simp: view_def comp_def if_distrib)
qed

section \<open>Step-by-step approval\<close>

lemma find_in_org:
  assumes "plan_db_ok db" "plan_findByIdInOrg db orgId i = Some p"
  shows "plan_findById db i = Some p"
proof -
  obtain r where r: "List.find (\<lambda>r. pl_orgId r = orgId \<and> pl_id r = i) (pd_plans db) = Some r"
    and p: "p = rowToPlan r (steps_of db i)"
    using assms(2) by (auto simp: plan_findByIdInOrg_def planFromRows_def dest: find_Some_set)
  have "r \<in> set (pd_plans db)" "pl_id r = i" using find_Some_set [OF r] by auto
  then have "List.find (\<lambda>y. pl_id y = i) (pd_plans db) = Some r"
    using find_key_unique [of pl_id "pd_plans db" r] assms(1) by (auto simp: plan_db_ok_def)
  then show ?thesis using p \<open>pl_id r = i\<close> by (simp add: plan_findById_def planFromRows_def)
qed

lemma manual_no_calls:
  assumes "view s orgId i = Some p" "\<not> pl_autoEdit p"
  shows "x_calls (snd (runNext env orgId i s)) = x_calls s"
  using assms by (auto simp: runNext.simps [of env orgId i s] view_def pause_for_approval_def set_plan_status_def
      split: option.splits sum.splits)

lemma step_ref_submission: "step_ref (sp_context (step_submission env orgId p st)) = Some (pl_id p, int (st_ordinal st))"
  by (simp add: step_ref_def step_submission_def Let_def)

lemma find_ordinal:
  "sorted_wrt (<) (map st_ordinal ss) \<Longrightarrow> st \<in> set ss \<Longrightarrow> List.find (\<lambda>t. st_ordinal t = st_ordinal st) ss = Some st"
  using find_key_unique [of st_ordinal ss st] strict_sorted_iff by blast

lemma pause:
  assumes ok: "plan_db_ok (x_db s)" and v: "view s orgId i = Some p"
    and man: "\<not> pl_autoEdit p" "pl_status p \<notin> {PS_failed, PS_cancelled}"
    and nxt: "List.find (\<lambda>st. st_status st = SS_pending) (pl_steps p) = Some st"
    and env: "en_approvals env" "en_uid env (length (x_approvals s)) \<notin> ar_id ` set (x_approvals s)"
  defines "a \<equiv> en_uid env (length (x_approvals s))"
    and "st' \<equiv> patch_step (no_step_patch\<lparr>sp_approvalRequestId := Some (Some (en_uid env (length (x_approvals s))))\<rparr>) st"
  obtains s' p' where "runNext env orgId i s = (Inr (Paused_for_approval (st_ordinal st) a), s')"
    "x_approvals s' = x_approvals s @ [approval_request.extend (new_request a (en_clock env (x_tick s)) (step_submission env orgId p st)) \<lparr>sq_orgId = DEFAULT_ORG\<rparr>]"
    "x_calls s' = x_calls s" "plan_db_ok (x_db s')" "view s' orgId i = Some p'" "\<not> pl_autoEdit p'" "pl_status p' = pl_status p"
    "List.find (\<lambda>t. st_ordinal t = st_ordinal st) (pl_steps p') = Some st'" "pl_id p' = i"
proof -
  let ?row = "approval_request.extend (new_request a (en_clock env (x_tick s)) (step_submission env orgId p st)) \<lparr>sq_orgId = DEFAULT_ORG\<rparr>"
  let ?patch = "no_step_patch\<lparr>sp_approvalRequestId := Some (Some a)\<rparr>"
  let ?s' = "upd_step i (st_ordinal st) ?patch (s\<lparr>x_approvals := x_approvals s @ [?row]\<rparr>)"
  let ?p' = "p\<lparr>pl_steps := map_step (st_ordinal st) (patch_step ?patch) (pl_steps p)\<rparr>"
  have pid: "pl_id p = i" using view_ids [OF v] by simp
  have aid: "ar_id (rowToRequest ?row) = a"
    by (simp add: rowToRequest_def approval_request.defs new_request_def)
  have sub: "sql_submit a (en_clock env (x_tick s)) (step_submission env orgId p st) (x_approvals s) =
      Inr (rowToRequest ?row, x_approvals s @ [?row])"
    using env(2) by (auto simp: sql_submit_def Let_def list_ex_iff a_def image_iff)
  have "runNext env orgId i s = pause_for_approval env orgId p st s"
    using v man nxt by (simp add: runNext.simps [of env orgId i s] view_def)
  then have run: "runNext env orgId i s = (Inr (Paused_for_approval (st_ordinal st) a), ?s')"
    using env(1) sub by (simp add: pause_for_approval_def a_def [symmetric] aid pid)
  have ord: "sorted_wrt (<) (map st_ordinal (pl_steps p))" by (rule view_ordinals [OF ok v])
  have mem: "st \<in> set (pl_steps p)" using find_Some_set [OF nxt] by simp
  have v': "view ?s' orgId i = Some ?p'" using v by (simp add: view_upd_step)
  have "map st_ordinal (pl_steps ?p') = map st_ordinal (pl_steps p)" by (simp add: map_step_def)
  then have ord': "sorted_wrt (<) (map st_ordinal (pl_steps ?p'))" using ord by metis
  have "st' \<in> set (pl_steps ?p')" using mem by (auto simp: map_step_def st'_def a_def)
  from find_ordinal [OF ord' this] have "List.find (\<lambda>t. st_ordinal t = st_ordinal st) (pl_steps ?p') = Some st'"
    by (simp add: st'_def)
  with run v' show thesis
    by (intro that [of ?s' ?p']) (use ok man pid in \<open>auto intro: upd_step_ok\<close>)
qed

lemma resume_found:
  assumes ok: "plan_db_ok (x_db s)" and v: "view s orgId i = Some p"
    and rq: "sql_findById a (x_approvals s) = Some rq" "step_ref (aq_context rq) = Some (i, int n)"
    and st: "List.find (\<lambda>t. st_ordinal t = n) (pl_steps p) = Some st" and env: "en_approvals env"
  shows "findStepByApproval env orgId a s = Inr (p, st)"
  using assms by (simp add: findStepByApproval_def view_def)

lemma approve_pending:
  assumes "sql_findById a t = Some rq" "aq_status rq = AP_pending"
  shows "\<exists>req t'. sql_approve now a by_user roles t = (Some req, t') \<and> sql_findById a t' = Some req
     \<and> aq_status req = AP_approved \<and> aq_context req = aq_context rq \<and> aq_action req = aq_action rq \<and> ar_id req = a"
proof -
  obtain x where x: "List.find (\<lambda>r. ar_id r = a) t = Some x" "rq = rowToRequest x"
    using assms(1) by (auto simp: sql_findById_def)
  then have "ar_id x = a" using find_Some_set by fastforce
  with x assms show ?thesis
    by (simp add: sql_approve_def sql_decide_def sql_resolve_def Let_def sql_findById_def find_upd_id
        rowToRequest_def approval_request.defs)
qed

text \<open>
  Without auto-edit nothing runs before a human said so: approving such a plan makes no
  adapter call and, if it has a pending step, pauses on a new pending request for that step; once
  that request is approved in the approvals table, the callback runs this one step and no other.
\<close>

theorem manual_step_cycle:
  assumes "plan_db_ok (x_db s)" "plan_findByIdInOrg (x_db s) orgId i = Some p" "pl_status p = PS_pending_approval"
    and "List.find (\<lambda>st. st_status st = SS_pending) (pl_steps p) = Some st"
    and "en_approvals env" "en_uid env (length (x_approvals s)) \<notin> ar_id ` set (x_approvals s)"
  shows "\<exists>s' a. exec_approve env now orgId i False ident s = (Inr (Paused_for_approval (st_ordinal st) a), s')
     \<and> x_calls s' = x_calls s \<and> sql_status (x_approvals s') a = Some AP_pending
     \<and> (\<forall>now2 by_user roles. \<exists>req t. sql_approve now2 a by_user roles (x_approvals s') = (Some req, t)
          \<and> x_calls (on_resolved env req (s'\<lparr>x_approvals := t\<rparr>)) = x_calls s @ step_calls st i)"
proof -
  have v: "view s orgId i = Some p" using assms(2) by (simp add: view_def)
  let ?p = "approved_plan now False ident p"
  let ?a = "en_uid env (length (x_approvals s))"
  let ?st = "patch_step (no_step_patch\<lparr>sp_approvalRequestId := Some (Some ?a)\<rparr>) st"
  obtain s2 where s2: "exec_approve env now orgId i False ident s = runNext env orgId i s2"
    "view s2 orgId i = Some ?p" "plan_db_ok (x_db s2)" "x_calls s2 = x_calls s" "x_approvals s2 = x_approvals s"
    using approve_state [OF v assms(3,1), of env now False ident] by blast
  obtain s' p' where s': "runNext env orgId i s2 = (Inr (Paused_for_approval (st_ordinal st) ?a), s')"
    "x_approvals s' = x_approvals s @ [approval_request.extend (new_request ?a (en_clock env (x_tick s2)) (step_submission env orgId ?p st)) \<lparr>sq_orgId = DEFAULT_ORG\<rparr>]"
    "x_calls s' = x_calls s2" "plan_db_ok (x_db s')" "view s' orgId i = Some p'" "\<not> pl_autoEdit p'" "pl_status p' = pl_status ?p"
    "List.find (\<lambda>t. st_ordinal t = st_ordinal st) (pl_steps p') = Some ?st" "pl_id p' = i"
    using pause [OF s2(3,2), of st env] assms(4,5,6) s2(5) by (auto simp: approved_plan_def)
  let ?row = "approval_request.extend (new_request ?a (en_clock env (x_tick s2)) (step_submission env orgId ?p st)) \<lparr>sq_orgId = DEFAULT_ORG\<rparr>"
  have miss: "List.find (\<lambda>r. ar_id r = ?a) (x_approvals s) = None" using assms(6) by (auto simp: find_None_set image_iff)
  have fields: "ar_id ?row = ?a" "aq_status ?row = AP_pending" "step_ref (aq_context ?row) = Some (i, int (st_ordinal st))"
    "aa_type (aq_action ?row) = ''ops.run_command''"
    using step_ref_submission [of env orgId ?p st] view_ids [OF v]
    by (simp_all add: approval_request.defs new_request_def approved_plan_def step_submission_def Let_def)
  have find: "sql_findById ?a (x_approvals s') = Some (rowToRequest ?row)"
    using miss fields(1) by (simp add: s'(2) sql_findById_def find_append_miss)
  have cycle: "\<exists>req t. sql_approve now2 ?a by_user roles (x_approvals s') = (Some req, t)
      \<and> x_calls (on_resolved env req (s'\<lparr>x_approvals := t\<rparr>)) = x_calls s @ step_calls st i" for now2 by_user roles
  proof -
    obtain req t where ap: "sql_approve now2 ?a by_user roles (x_approvals s') = (Some req, t)"
      "sql_findById ?a t = Some req" "aq_status req = AP_approved" "aq_context req = aq_context ?row"
      "aq_action req = aq_action ?row" "ar_id req = ?a"
      using approve_pending [OF find] fields by (force simp: rowToRequest_def approval_request.defs)
    let ?s = "s'\<lparr>x_approvals := t\<rparr>"
    have v2: "view ?s orgId i = Some p'" "plan_db_ok (x_db ?s)" using s'(4,5) by simp_all
    have found: "findStepByApproval env orgId ?a ?s = Inr (p', ?st)"
      by (rule resume_found [OF v2(2,1)]) (use ap fields s' assms(5) in auto)
    have byid: "plan_findById (x_db ?s) i = Some p'" using find_in_org [OF v2(2)] v2(1) by (simp add: view_def)
    have org: "pl_orgId p' = orgId" using view_ids [OF v2(1)] by simp
    have ref: "step_ref (aq_context req) = Some (i, int (st_ordinal st))" using ap(4) fields(3) by metis
    then have ctx: "map_of (aq_context req) ''planId'' = Some (JStr i)"
      by (auto simp: step_ref_def split: option.splits json.splits)
    have kind: "aa_type (aq_action req) = ''ops.run_command''" using ap(5) fields(4) by metis
    have "on_resolved env req ?s = snd (runNext env orgId i (executeStep env p' ?st ?s))"
      using ap(3,6) ref ctx kind byid org found s'(9)
      by (simp add: on_resolved_def resumeExecutor_def onStepApproved_def)
    moreover have "x_calls (snd (runNext env orgId i (executeStep env p' ?st ?s))) = x_calls (executeStep env p' ?st ?s)"
    proof -
      have "distinct (map st_ordinal (pl_steps p'))" using view_ordinals [OF v2(2,1)] strict_sorted_iff by blast
      from view_execute [OF v2(1) this, of env ?st] obtain q where
        "view (executeStep env p' ?st ?s) orgId i = Some q" "pl_autoEdit q = pl_autoEdit p'" by (auto split: if_splits)
      then show ?thesis using s'(6) by (intro manual_no_calls) auto
    qed
    moreover have "step_calls ?st i = step_calls st i"
      by (simp add: step_calls_def readOpsRunCommandParams_def split: option.splits)
    ultimately show ?thesis using ap s'(3,9) s2(4) by (auto simp: execute_frame)
  qed
  have "sql_status (x_approvals s') ?a = Some AP_pending" using find fields(2) by (simp add: sql_status_def)
  then show ?thesis using s2(1,4) s'(1,3) cycle by (intro exI [of _ s'] exI [of _ ?a]) simp
qed

section \<open>A concrete plan\<close>

definition empty_exec :: exec_state where
  "empty_exec = \<lparr>x_db = \<lparr>pd_plans = [], pd_steps = []\<rparr>, x_approvals = [], x_tick = 0, x_calls = [], x_audit = []\<rparr>"

definition demo_env :: exec_env where
  "demo_env = \<lparr>en_adapter = (\<lambda>k p st params. Inr \<lparr>er_success = True, er_output = ''ok'', er_error = None\<rparr>),
     en_clock = int, en_uid = (\<lambda>k. CHR ''a'' # replicate k CHR ''x''), en_approvals = True, en_audit = True,
     en_team = None, en_show = (\<lambda>n. ''n'')\<rparr>"

definition two_steps :: new_plan where
  "two_steps = demo_plan [demo_step [''scale'', ''deploy/web'', ''-n'', ''app''], demo_step [''delete'', ''pod'', ''x'', ''-n'', ''app'']]"

definition created_state :: exec_state where
  "created_state = (case plan_create ''1'' (\<lambda>k. replicate k CHR ''x'') 0 two_steps (x_db empty_exec) of
     Inr (p, db) \<Rightarrow> empty_exec\<lparr>x_db := db\<rparr> | Inl e \<Rightarrow> empty_exec)"

lemma created_ok: "plan_db_ok (x_db created_state)"
  by code_simp

definition created_plan :: plan where
  "created_plan = the (plan_findByIdInOrg (x_db created_state) ''o'' ''plan-1'')"

lemma created_found: "plan_findByIdInOrg (x_db created_state) ''o'' ''plan-1'' = Some created_plan"
proof -
  have "plan_findByIdInOrg (x_db created_state) ''o'' ''plan-1'' \<noteq> None" by code_simp
  then show ?thesis by (auto simp: created_plan_def)
qed

lemma created_waiting: "pl_status created_plan = PS_pending_approval" "\<forall>st\<in>set (pl_steps created_plan). st_status st = SS_pending"
  by code_simp+

lemma demo_never_halts: "readOpsRunCommandParams st \<noteq> None \<Longrightarrow> \<not> halts demo_env k p st"
  by (auto simp: halts_def ran_def end_patch_def demo_env_def no_step_patch_def)

theorem auto_approve_is_one_pass_witness:
  "\<exists>s'. exec_approve demo_env 5 ''o'' ''plan-1'' True demo_user created_state = (Inr Completed, s')
     \<and> length (x_calls s') = 2"
proof -
  obtain fin ss calls where pass: "auto_pass demo_env (approved_plan 5 True demo_user created_plan) (x_tick created_state) []
      (pl_steps created_plan) = (fin, ss, calls)" by (metis prod_cases3)
  have two: "length (pl_steps created_plan) = 2" "\<forall>st\<in>set (pl_steps created_plan). readOpsRunCommandParams st \<noteq> None"
    "x_calls created_state = []"
    by code_simp+
  then obtain a b where ab: "pl_steps created_plan = [a, b]" by (auto simp: numeral_2_eq_2 length_Suc_conv)
  have "fin = PS_completed \<and> length calls = 2"
    using pass two(2) created_waiting(2) unfolding ab
    by (auto simp: Let_def demo_never_halts step_calls_def)
  then show ?thesis
    using auto_approve_is_one_pass [OF created_ok created_found created_waiting(1) pass] two(3) by auto
qed

theorem auto_approve_settles_witness:
  "\<exists>r s'. exec_approve demo_env 5 ''o'' ''plan-1'' True demo_user created_state = (Inr r, s')
     \<and> (r = Completed \<or> (\<exists>n e. r = Failed n e))"
  using auto_approve_settles [OF created_ok created_found created_waiting] by blast

definition running_state :: exec_state where
  "running_state = set_plan_status ''o'' ''plan-1'' PS_executing created_state"

theorem cancel_stops_run_witness:
  "\<exists>s' q. s' = cancelled_in_flight demo_env 5 demo_user (the (plan_findByIdInOrg (x_db running_state) ''o'' ''plan-1'')) (hd (pl_steps created_plan)) running_state
     \<and> fst (runNext demo_env ''o'' ''plan-1'' s') = Inr Cancelled \<and> length (x_calls s') = 1
     \<and> plan_findByIdInOrg (x_db s') ''o'' ''plan-1'' = Some q \<and> map st_status (pl_steps q) = [SS_done, SS_pending]"
proof -
  let ?p = "the (plan_findByIdInOrg (x_db running_state) ''o'' ''plan-1'')" and ?st = "hd (pl_steps created_plan)"
  have st: "plan_findByIdInOrg (x_db running_state) ''o'' ''plan-1'' = Some ?p" "pl_status ?p = PS_executing" "plan_db_ok (x_db running_state)"
      "List.find (\<lambda>st. st_status st = SS_pending) (pl_steps ?p) = Some ?st" "readOpsRunCommandParams ?st \<noteq> None"
      "map st_ordinal (pl_steps ?p) = [0, 1]" "map st_status (pl_steps ?p) = [SS_pending, SS_pending]" "st_ordinal ?st = 0" "x_calls running_state = []"
    by code_simp+
  note run = cancel_stops_run [OF st(3,1,2,4) refl, of demo_env 5 demo_user]
  have "st_status (ran demo_env (x_tick running_state) ?p ?st) = SS_done"
    using st(5) by (auto simp: ran_def end_patch_def demo_env_def no_step_patch_def)
  moreover have "length (step_calls ?st ''plan-1'') = 1" using st(5) by (auto simp: step_calls_def)
  ultimately show ?thesis
    using run st(6-9) demo_never_halts [OF st(5)] by (fastforce simp: map_eq_Cons_conv)
qed

theorem manual_step_cycle_witness:
  "\<exists>s' a. exec_approve demo_env 5 ''o'' ''plan-1'' False demo_user created_state = (Inr (Paused_for_approval 0 a), s')
     \<and> x_calls s' = []"
proof -
  let ?st = "hd (pl_steps created_plan)"
  have st: "List.find (\<lambda>st. st_status st = SS_pending) (pl_steps created_plan) = Some ?st" "st_ordinal ?st = 0"
    "x_calls created_state = []" "x_approvals created_state = []"
    by code_simp+
  have "en_approvals demo_env" "en_uid demo_env (length (x_approvals created_state)) \<notin> ar_id ` set (x_approvals created_state)"
    by (simp_all add: demo_env_def st)
  from manual_step_cycle [OF created_ok created_found created_waiting(1) st(1) this, of 5 demo_user] st show ?thesis
    by auto
qed

end
