(* ===== verification/Plan_Safety.thy ===== *)
theory Plan_Safety
  imports Plan_Executor
begin

text \<open>
  Safety of the plan executor over whole histories: a step relation with every service call, the
  approval decisions with their callback, expiry and the creation and removal of plans; the
  invariant that a plan nobody approved has run nothing; what an approval event does to a plan
  that is no longer running; the size of the stored texts; the errors of the service calls.
\<close>

section \<open>What a call on one plan may touch\<close>

definition UNAPPROVED :: "plan_status set" where
  "UNAPPROVED = {PS_draft, PS_pending_approval, PS_rejected, PS_expired}"

definition unapproved :: "exec_state \<Rightarrow> string \<Rightarrow> bool" where
  "unapproved s i \<longleftrightarrow> (\<exists>r\<in>set (pd_plans (x_db s)). pl_id r = i \<and> pl_status r \<in> UNAPPROVED)"

definition touches :: "string \<Rightarrow> exec_state \<Rightarrow> exec_state \<Rightarrow> bool" where
  "touches i s s' \<longleftrightarrow>
     (plan_db_ok (x_db s) \<longrightarrow> plan_db_ok (x_db s'))
     \<and> (\<forall>j. unapproved s' j \<longrightarrow> unapproved s j)
     \<and> (\<forall>st\<in>set (pd_steps (x_db s')). st_planId st \<noteq> i \<longrightarrow> st \<in> set (pd_steps (x_db s)))
     \<and> (\<forall>c\<in>set (x_calls s'). cl_planId c \<noteq> i \<longrightarrow> c \<in> set (x_calls s))
     \<and> (\<forall>a\<in>set (x_approvals s'). a \<in> set (x_approvals s) \<or> (\<exists>n. step_ref (aq_context a) = Some (i, n)))"

lemma touches_refl: "touches i s s"
  by (simp add: touches_def)

lemma touches_trans: "touches i s t \<Longrightarrow> touches i t u \<Longrightarrow> touches i s u"
  unfolding touches_def by blast

lemma touches_upd_step: "touches i s (upd_step i n p s)"
  unfolding touches_def unapproved_def
  by (auto simp: upd_step_ok) (auto simp: upd_step_def updateStep_db set_upd_where)

lemma touches_upd_plan:
  assumes "pp_status p = Some x" "x \<notin> UNAPPROVED"
  shows "touches i s (upd_plan orgId i p s)"
  unfolding touches_def unapproved_def using assms
  by (auto simp: upd_plan_ok) (auto simp: upd_plan_def updatePlan_db set_upd_where)

lemma touches_frame:
  "x_db s' = x_db s \<Longrightarrow> x_approvals s' = x_approvals s \<Longrightarrow>
   (\<forall>c\<in>set (x_calls s'). c \<in> set (x_calls s) \<or> cl_planId c = i) \<Longrightarrow> touches i s s'"
  by (auto simp: touches_def unapproved_def)

lemma touches_status: "st \<notin> UNAPPROVED \<Longrightarrow> touches i s (set_plan_status orgId i st s)"
  unfolding set_plan_status_def by (rule touches_upd_plan) (auto simp: no_plan_patch_def)

lemma touches_skip_later: "touches i s (skip_later i n ss s)"
proof (induction ss arbitrary: s)
  case (Cons st ss)
  show ?case
    unfolding skip_later.simps by (rule touches_trans [OF _ Cons.IH]) (auto intro: touches_upd_step touches_refl)
qed (simp add: touches_refl)

lemma touches_unskip_later: "touches i s (unskip_later i n ss s)"
proof (induction ss arbitrary: s)
  case (Cons st ss)
  show ?case
    unfolding unskip_later.simps by (rule touches_trans [OF _ Cons.IH]) (auto intro: touches_upd_step touches_refl)
qed (simp add: touches_refl)

lemma touches_halt: "touches i s (snd (haltPlan orgId i n reason s))"
proof -
  have "PS_failed \<notin> UNAPPROVED" by (simp add: UNAPPROVED_def)
  then show ?thesis
    by (auto simp: haltPlan_def Let_def intro: touches_status touches_trans [OF touches_skip_later touches_status]
        split: option.splits)
qed

lemma touches_execute: "touches (pl_id p) s (executeStep env p st s)"
proof -
  let ?t = "upd_step (pl_id p) (st_ordinal st) (end_patch env (x_tick s) p st)
       (upd_step (pl_id p) (st_ordinal st) (start_patch env (x_tick s)) s)"
  obtain s' reason where
    e: "executeStep env p st s = (if halts env (x_tick s) p st then snd (haltPlan (pl_orgId p) (pl_id p) (st_ordinal st) reason s') else s')"
    and db: "x_db s' = x_db ?t" and calls: "x_calls s' = x_calls s @ step_calls st (pl_id p)" and ap: "x_approvals s' = x_approvals s"
    using executeStep_shape [of env p st s] by metis
  have "touches (pl_id p) s ?t" by (rule touches_trans [OF touches_upd_step touches_upd_step])
  moreover have "touches (pl_id p) ?t s'"
    by (rule touches_frame) (use db calls ap step_calls_ordinal in auto)
  ultimately have "touches (pl_id p) s s'" by (rule touches_trans)
  then show ?thesis unfolding e using touches_trans [OF _ touches_halt] by simp
qed

lemma touches_pause:
  assumes "pl_id p = i"
  shows "touches i s (snd (pause_for_approval env orgId p st s))"
proof (cases "en_approvals env")
  case True
  let ?t = "sql_submit (en_uid env (length (x_approvals s))) (en_clock env (x_tick s)) (step_submission env orgId p st) (x_approvals s)"
  show ?thesis
  proof (cases ?t)
    case (Inr z)
    obtain sub t where z: "z = (sub, t)" by fastforce
    have "step_ref (aq_context a) = Some (i, int (st_ordinal st)) \<or> a \<in> set (x_approvals s)" if "a \<in> set t" for a
      using Inr z that step_ref_submission [of env orgId p st] assms
      by (auto simp: sql_submit_def Let_def approval_request.defs new_request_def split: if_splits)
    then have "touches i s (s\<lparr>x_approvals := t\<rparr>)" by (auto simp: touches_def unapproved_def)
    then show ?thesis
      using True Inr z assms touches_trans [OF _ touches_upd_step] by (simp add: pause_for_approval_def)
  qed (simp add: pause_for_approval_def True touches_refl)
qed (simp add: pause_for_approval_def touches_refl)

lemma touches_runNext: "touches planId s (snd (runNext env orgId planId s))"
proof (induction env orgId planId s rule: runNext.induct)
  case (1 env orgId planId s)
  show ?case
  proof (cases "plan_findByIdInOrg (x_db s) orgId planId")
    case None
    then show ?thesis by (simp add: runNext.simps [of env orgId planId s] touches_refl)
  next
    case (Some p)
    then have pid: "pl_id p = planId" using find_plan_ids by blast
    have comp: "PS_completed \<notin> UNAPPROVED" by (simp add: UNAPPROVED_def)
    have ih: "touches planId s (snd (runNext env orgId planId (executeStep env p st s)))"
      if "pl_status p \<noteq> PS_failed" "pl_status p \<noteq> PS_cancelled" "pl_autoEdit p"
        "List.find (\<lambda>st. st_status st = SS_pending) (pl_steps p) = Some st" for st
      using touches_trans [OF touches_execute [of p s env st, unfolded pid] 1 [OF Some that(1,2,4,3)]] .
    show ?thesis
      using Some ih touches_pause [OF pid] touches_status [OF comp]
      by (auto simp: runNext.simps [of env orgId planId s] touches_refl split: option.splits)
  qed
qed

section \<open>Histories\<close>

text \<open>
  An approval decision is an approve, reject or override of the approvals table that returned the
  request, followed by the callback.  A plan is created without status (hence waiting for
  approval) or as a draft, under an identifier that occurs nowhere yet; the other requests in the
  approvals table name no plan step.
\<close>

definition decide_event ::
  "exec_env \<Rightarrow> (approval_sql_row list \<Rightarrow> approval_request option \<times> approval_sql_row list) \<Rightarrow> exec_state \<Rightarrow> exec_state" where
  "decide_event env decide s =
     (case decide (x_approvals s) of
        (None, t) \<Rightarrow> s\<lparr>x_approvals := t\<rparr>
      | (Some req, t) \<Rightarrow> on_resolved env req (s\<lparr>x_approvals := t\<rparr>))"

definition mentioned :: "exec_state \<Rightarrow> string \<Rightarrow> bool" where
  "mentioned s i \<longleftrightarrow> (\<exists>c\<in>set (x_calls s). cl_planId c = i) \<or> (\<exists>a\<in>set (x_approvals s). \<exists>n. step_ref (aq_context a) = Some (i, n))"

inductive plan_event :: "exec_state \<Rightarrow> exec_state \<Rightarrow> bool" where
  ev_create: "plan_create fresh uid now input (x_db s) = Inr (p, db') \<Longrightarrow> np_status input \<in> {None, Some PS_draft} \<Longrightarrow>
     \<not> mentioned s (pl_id p) \<Longrightarrow> plan_event s (s\<lparr>x_db := db'\<rparr>)"
| ev_delete: "plan_event s (s\<lparr>x_db := snd (plan_delete orgId i (x_db s))\<rparr>)"
| ev_expire: "plan_event s (s\<lparr>x_db := snd (expireStale now (x_db s))\<rparr>)"
| ev_link: "plan_event s (upd_plan orgId i (no_plan_patch\<lparr>pp_approvalRequestId := Some (Some a)\<rparr>) s)"
| ev_approve: "plan_event s (snd (exec_approve env now orgId i autoEdit ident s))"
| ev_reject: "plan_event s (snd (exec_reject now orgId i ident s))"
| ev_cancel: "plan_event s (snd (exec_cancel now orgId i ident s))"
| ev_retry: "plan_event s (snd (retryStep env orgId i n s))"
| ev_decide: "decide \<in> {sql_approve now a by_user roles, sql_reject now a by_user roles, sql_override now a by_user roles} \<Longrightarrow>
     plan_event s (decide_event env decide s)"
| ev_submit: "sql_submit fresh now params (x_approvals s) = Inr (req, t) \<Longrightarrow> step_ref (sp_context params) = None \<Longrightarrow>
     plan_event s (s\<lparr>x_approvals := t\<rparr>)"

inductive_cases plan_eventE: "plan_event s s'"

definition quiet :: "exec_state \<Rightarrow> string \<Rightarrow> bool" where
  "quiet s i \<longleftrightarrow> \<not> mentioned s i \<and> (\<forall>st\<in>set (pd_steps (x_db s)). st_planId st = i \<longrightarrow> st_status st = SS_pending)"

definition exec_inv :: "exec_state \<Rightarrow> bool" where
  "exec_inv s \<longleftrightarrow> plan_db_ok (x_db s) \<and> (\<forall>i. unapproved s i \<longrightarrow> quiet s i)"

lemma touches_inv:
  assumes "exec_inv s" "touches i s s'" "\<not> unapproved s i"
  shows "exec_inv s'"
proof -
  have "quiet s' j" if "unapproved s' j" for j
  proof -
    have uj: "unapproved s j" using assms(2) that by (simp add: touches_def)
    then have "j \<noteq> i" "quiet s j" using assms(1,3) by (auto simp: exec_inv_def)
    then show ?thesis using assms(2) unfolding quiet_def mentioned_def touches_def by (metis option.inject prod.inject)
  qed
  then show ?thesis using assms(1,2) by (simp add: exec_inv_def touches_def)
qed

lemma unapproved_view:
  assumes "plan_db_ok (x_db s)" "view s orgId i = Some p" "unapproved s i"
  shows "pl_status p \<in> UNAPPROVED"
proof -
  obtain r where r: "r \<in> set (pd_plans (x_db s))" "pl_id r = i" "pl_status r \<in> UNAPPROVED"
    using assms(3) by (auto simp: unapproved_def)
  have "plan_findById (x_db s) i = Some p" using find_in_org [OF assms(1)] assms(2) by (simp add: view_def)
  moreover have "List.find (\<lambda>y. pl_id y = i) (pd_plans (x_db s)) = Some r"
    using find_key_unique [of pl_id "pd_plans (x_db s)" r] assms(1) r by (auto simp: plan_db_ok_def)
  ultimately show ?thesis using r by (auto simp: plan_findById_def planFromRows_def)
qed

lemma view_row:
  assumes "view s orgId i = Some p"
  shows "\<exists>r\<in>set (pd_plans (x_db s)). pl_id r = i \<and> pl_orgId r = orgId \<and> pl_status r = pl_status p"
  using assms by (auto simp: view_def plan_findByIdInOrg_def planFromRows_def dest!: find_Some_set)

lemma not_unapproved:
  assumes "exec_inv s" "\<not> quiet s i"
  shows "\<not> unapproved s i"
  using assms by (auto simp: exec_inv_def)

lemma approve_inv: "exec_inv s \<Longrightarrow> exec_inv (snd (exec_approve env now orgId i autoEdit ident s))"
proof (cases "view s orgId i")
  case None
  then show "exec_inv s \<Longrightarrow> ?thesis" by (simp add: exec_approve_def view_def)
next
  case (Some p)
  assume inv: "exec_inv s"
  let ?patch = "no_plan_patch\<lparr>pp_status := Some PS_approved, pp_autoEdit := Some autoEdit,
                  pp_resolvedAt := Some (Some now), pp_resolvedBy := Some (Some (id_userId ident))\<rparr>"
  let ?s1 = "upd_plan orgId i ?patch s"
  show ?thesis
  proof (cases "pl_status p = PS_pending_approval")
    case True
    have t1: "touches i s ?s1" by (rule touches_upd_plan) (auto simp: UNAPPROVED_def)
    have appr: "\<not> unapproved ?s1 i"
    proof -
      have "plan_db_ok (x_db ?s1)" using inv upd_plan_ok by (simp add: exec_inv_def)
      moreover have "view ?s1 orgId i = Some (patch_plan ?patch p)" using Some by (simp add: view_upd_plan)
      ultimately show ?thesis using unapproved_view by (fastforce simp: UNAPPROVED_def)
    qed
    have "quiet ?s1 j" if "unapproved ?s1 j" for j
    proof -
      have "j \<noteq> i" "unapproved s j" using that appr t1 by (auto simp: touches_def)
      then show ?thesis using inv by (auto simp: exec_inv_def quiet_def mentioned_def)
    qed
    then have "exec_inv ?s1" using inv upd_plan_ok by (simp add: exec_inv_def)
    moreover have "touches i ?s1 (snd (runNext env orgId i (set_plan_status orgId i PS_executing ?s1)))"
      by (rule touches_trans [OF touches_status touches_runNext]) (simp add: UNAPPROVED_def)
    ultimately have "exec_inv (snd (runNext env orgId i (set_plan_status orgId i PS_executing ?s1)))"
      using appr by (rule touches_inv)
    then show ?thesis using Some True by (simp add: exec_approve_def view_def Let_def)
  next
    case False
    then show ?thesis using Some inv by (simp add: exec_approve_def view_def)
  qed
qed

lemma resolve_plan_inv:
  assumes "exec_inv s" "view s orgId i = Some p" "pl_status p \<in> UNAPPROVED \<or> x \<notin> UNAPPROVED"
  shows "exec_inv (snd (resolve_plan x now orgId i ident s))"
proof -
  let ?patch = "no_plan_patch\<lparr>pp_status := Some x, pp_resolvedAt := Some (Some now), pp_resolvedBy := Some (Some (id_userId ident))\<rparr>"
  have s': "snd (resolve_plan x now orgId i ident s) = upd_plan orgId i ?patch s"
    by (simp add: resolve_plan_def upd_plan_def case_prod_beta)
  have "unapproved s j" if "unapproved (upd_plan orgId i ?patch s) j" for j
    using that view_row [OF assms(2)] assms(3)
    by (auto simp: unapproved_def upd_plan_def updatePlan_db set_upd_where)
  moreover have "quiet (upd_plan orgId i ?patch s) j = quiet s j" for j by (simp add: quiet_def mentioned_def)
  ultimately show ?thesis using assms(1) unfolding s' exec_inv_def by (simp add: upd_plan_ok)
qed

lemma reject_inv: "exec_inv s \<Longrightarrow> exec_inv (snd (exec_reject now orgId i ident s))"
  using resolve_plan_inv [of s orgId i _ PS_rejected now ident]
  by (auto simp: exec_reject_def view_def UNAPPROVED_def case_prod_beta split: option.splits)

lemma cancel_inv: "exec_inv s \<Longrightarrow> exec_inv (snd (exec_cancel now orgId i ident s))"
  using resolve_plan_inv [of s orgId i _ PS_cancelled now ident]
  by (auto simp: exec_cancel_def view_def UNAPPROVED_def case_prod_beta split: option.splits)

lemma retry_inv:
  assumes inv: "exec_inv s"
  shows "exec_inv (snd (retryStep env orgId i n s))"
proof (cases "view s orgId i")
  case None
  then show ?thesis using inv by (simp add: retryStep_def view_def)
next
  case (Some p)
  show ?thesis
  proof (cases "\<exists>st. List.find (\<lambda>st. st_ordinal st = n) (pl_steps p) = Some st \<and> st_status st = SS_failed")
    case True
    then obtain st where st: "List.find (\<lambda>st. st_ordinal st = n) (pl_steps p) = Some st" "st_status st = SS_failed" by blast
    have "pl_steps p = steps_of (x_db s) i" using Some find_plan_ids by (auto simp: view_def)
    then have mem: "st \<in> set (pd_steps (x_db s))" "st_planId st = i"
      using find_Some_set [OF st(1)] by (auto simp: steps_of_mem)
    then have nq: "\<not> unapproved s i"
      using inv st(2) by (intro not_unapproved) (auto simp: quiet_def)
    let ?s1 = "upd_step i n reset_patch s"
    define s2 where "s2 = (if pl_status p = PS_failed
      then set_plan_status orgId i PS_executing (unskip_later i n (pl_steps p) ?s1) else ?s1)"
    have "PS_executing \<notin> UNAPPROVED" by (simp add: UNAPPROVED_def)
    then have t2: "touches i s s2"
      unfolding s2_def using touches_trans [OF touches_trans [OF touches_upd_step touches_unskip_later] touches_status] touches_upd_step by auto
    have t3: "touches i s (snd (runNext env orgId i (executeStep env q t s2)))" if "view s2 orgId i = Some q" for q t
    proof -
      have "pl_id q = i" using view_ids [OF that] by simp
      then have "touches i s2 (executeStep env q t s2)" using touches_execute by metis
      then show ?thesis using touches_trans t2 touches_runNext by metis
    qed
    have "retryStep env orgId i n s = (case plan_findByIdInOrg (x_db s2) orgId i of
        None \<Rightarrow> (Inl (''plan '' @ i @ '' disappeared during retry''), s2)
      | Some q \<Rightarrow> (case List.find (\<lambda>st. st_ordinal st = n) (pl_steps q) of
          None \<Rightarrow> (Inl (''step '' @ en_show env (int n) @ '' disappeared during retry''), s2)
        | Some t \<Rightarrow> runNext env orgId i (executeStep env q t s2)))"
      using Some st unfolding s2_def retryStep_def view_def Let_def by (cases "pl_status p = PS_failed") simp_all
    then have "touches i s (snd (retryStep env orgId i n s))" using t2 t3 by (auto simp: view_def split: option.splits)
    then show ?thesis using touches_inv [OF inv _ nq] by blast
  next
    case False
    then show ?thesis using Some inv by (auto simp: retryStep_def view_def split: option.splits)
  qed
qed

lemma approval_step_inv:
  assumes inv: "exec_inv s"
  shows "exec_inv (snd (onStepApproved env orgId a s))" "exec_inv (snd (onStepRejected env orgId a s))"
proof -
  have "exec_inv (snd (onStepApproved env orgId a s)) \<and> exec_inv (snd (onStepRejected env orgId a s))"
  proof (cases "findStepByApproval env orgId a s")
    case (Inl e)
    then show ?thesis using inv by (simp add: onStepApproved_def onStepRejected_def)
  next
    case (Inr z)
    obtain p st where z: "z = (p, st)" by fastforce
    obtain rq m where rq: "sql_findById a (x_approvals s) = Some rq" "step_ref (aq_context rq) = Some (pl_id p, m)"
      using Inr z find_plan_ids
      by (auto simp: findStepByApproval_def split: if_splits option.splits prod.splits)
    then obtain row where "row \<in> set (x_approvals s)" "aq_context row = aq_context rq"
      by (auto simp: sql_findById_def rowToRequest_def approval_request.defs dest!: find_Some_set)
    then have "mentioned s (pl_id p)" using rq(2) unfolding mentioned_def by metis
    then have nq: "\<not> unapproved s (pl_id p)" using inv by (intro not_unapproved) (simp_all add: quiet_def)
    let ?r = "upd_step (pl_id p) (st_ordinal st) (fail_patch (Some ''rejected by approver'')) s"
    have "touches (pl_id p) s (snd (onStepApproved env orgId a s))"
      using Inr z touches_trans [OF touches_execute touches_runNext] by (simp add: onStepApproved_def)
    moreover have "touches (pl_id p) s (snd (onStepRejected env orgId a s))"
      using Inr z touches_trans [OF touches_upd_step [of "pl_id p" s "st_ordinal st"] touches_runNext]
        touches_trans [OF touches_upd_step [of "pl_id p" s "st_ordinal st"] touches_halt]
      by (simp add: onStepRejected_def Let_def case_prod_beta)
    ultimately show ?thesis using touches_inv [OF inv _ nq] by blast
  qed
  then show "exec_inv (snd (onStepApproved env orgId a s))" "exec_inv (snd (onStepRejected env orgId a s))" by auto
qed

lemma decide_contexts:
  assumes "decide \<in> {sql_approve now a by_user roles, sql_reject now a by_user roles, sql_override now a by_user roles}"
  shows "aq_context ` set (snd (decide t)) = aq_context ` set t"
proof -
  have r: "aq_context ` set (snd (sql_resolve st now a by_user roles t)) = aq_context ` set t" for st
  proof -
    have "map aq_context (snd (sql_resolve st now a by_user roles t)) = map aq_context t"
      by (simp add: sql_resolve_def Let_def map_upd_where_key)
    then show ?thesis by (metis set_map)
  qed
  then show ?thesis
    using assms unfolding sql_approve_def sql_reject_def sql_override_def sql_decide_cases
    by (elim insertE emptyE) (simp_all add: r)
qed

lemma contexts_inv: "exec_inv s \<Longrightarrow> aq_context ` set t = aq_context ` set (x_approvals s) \<Longrightarrow> exec_inv (s\<lparr>x_approvals := t\<rparr>)"
proof -
  assume inv: "exec_inv s" and ctx: "aq_context ` set t = aq_context ` set (x_approvals s)"
  have "mentioned (s\<lparr>x_approvals := t\<rparr>) i = mentioned s i" for i
  proof -
    have "(\<exists>a\<in>set u. \<exists>n. step_ref (aq_context a) = Some (i, n)) \<longleftrightarrow>
        (\<exists>c\<in>aq_context ` set u. \<exists>n. step_ref c = Some (i, n))" for u :: "approval_sql_row list"
      by auto
    from this [of t] this [of "x_approvals s"] have "(\<exists>a\<in>set t. \<exists>n. step_ref (aq_context a) = Some (i, n)) \<longleftrightarrow>
        (\<exists>a\<in>set (x_approvals s). \<exists>n. step_ref (aq_context a) = Some (i, n))"
      by (simp only: ctx)
    then show ?thesis by (simp add: mentioned_def)
  qed
  then show ?thesis using inv by (simp add: exec_inv_def unapproved_def quiet_def)
qed

lemma decide_inv:
  assumes "exec_inv s" "decide \<in> {sql_approve now a by_user roles, sql_reject now a by_user roles, sql_override now a by_user roles}"
  shows "exec_inv (decide_event env decide s)"
proof -
  obtain r t where d: "decide (x_approvals s) = (r, t)" by fastforce
  have "exec_inv (s\<lparr>x_approvals := t\<rparr>)"
    using contexts_inv [OF assms(1)] decide_contexts [OF assms(2), of "x_approvals s"] d by simp
  then show ?thesis
    using approval_step_inv
    by (auto simp: decide_event_def d on_resolved_def resumeExecutor_def split: option.splits json.splits)
qed

lemma create_inv:
  assumes inv: "exec_inv s" and c: "plan_create fresh uid now input (x_db s) = Inr (p, db')" and new: "\<not> mentioned s (pl_id p)"
  shows "exec_inv (s\<lparr>x_db := db'\<rparr>)"
proof -
  let ?i = "coalesce (np_id input) (''plan-'' @ fresh)"
  have ok: "plan_db_ok (x_db s)" using inv by (simp add: exec_inv_def)
  have rows: "pd_plans db' = pd_plans (x_db s) @ [new_plan_row ?i now input]" "plan_findById db' ?i = Some p"
    using create_db [OF c] by simp_all
  have pid: "pl_id p = ?i" using rows(2) by (auto simp: plan_findById_def planFromRows_def dest: find_Some_set)
  have st: "s' \<in> set (pd_steps (x_db s)) \<or> st_planId s' = ?i \<and> st_status s' = SS_pending" if "s' \<in> set (pd_steps db')" for s'
    using that insert_steps_rows(2) [OF create_db(3) [OF c]] by (auto simp: new_step_row_def)
  have old: "s' \<notin> set (pd_steps (x_db s))" if "st_planId s' = ?i" for s'
    using that ok create_db(1) [OF c] unfolding plan_db_ok_def by (metis image_eqI subsetD)
  have "quiet (s\<lparr>x_db := db'\<rparr>) j" if u: "unapproved (s\<lparr>x_db := db'\<rparr>) j" for j
  proof (cases "j = ?i")
    case True
    then show ?thesis using new st old pid by (auto simp: quiet_def mentioned_def)
  next
    case False
    then have "unapproved s j" using u rows(1) by (auto simp: unapproved_def new_plan_row_def)
    then have "quiet s j" using inv by (simp add: exec_inv_def)
    moreover have "st_status s' = SS_pending" if "s' \<in> set (pd_steps db')" "st_planId s' = j" for s'
      using st [OF that(1)] that(2) \<open>quiet s j\<close> False by (auto simp: quiet_def)
    ultimately show ?thesis by (simp add: quiet_def mentioned_def)
  qed
  then show ?thesis using create_ok [OF ok c] by (simp add: exec_inv_def)
qed

lemma delete_inv: "exec_inv s \<Longrightarrow> exec_inv (s\<lparr>x_db := snd (plan_delete orgId i (x_db s))\<rparr>)"
proof -
  assume inv: "exec_inv s"
  let ?db = "snd (plan_delete orgId i (x_db s))"
  have sub: "set (pd_plans ?db) \<subseteq> set (pd_plans (x_db s))" "set (pd_steps ?db) \<subseteq> set (pd_steps (x_db s))"
    by (auto simp: plan_delete_def split: option.splits)
  have "quiet (s\<lparr>x_db := ?db\<rparr>) j" if "unapproved (s\<lparr>x_db := ?db\<rparr>) j" for j
  proof -
    have "unapproved s j" using that sub(1) by (auto simp: unapproved_def)
    then show ?thesis using inv sub(2) by (auto simp: exec_inv_def quiet_def mentioned_def)
  qed
  then show ?thesis using inv delete_ok by (simp add: exec_inv_def)
qed

lemma expire_inv: "exec_inv s \<Longrightarrow> exec_inv (s\<lparr>x_db := snd (expireStale now (x_db s))\<rparr>)"
proof -
  assume inv: "exec_inv s"
  let ?s = "s\<lparr>x_db := snd (expireStale now (x_db s))\<rparr>"
  have "unapproved s j" if "unapproved ?s j" for j
    using that by (auto simp: unapproved_def expireStale_db set_upd_where is_stale_def UNAPPROVED_def)
  moreover have "quiet ?s j = quiet s j" for j by (simp add: quiet_def mentioned_def expireStale_db)
  ultimately show ?thesis using inv expireStale_ok by (simp add: exec_inv_def)
qed

lemma link_inv: "exec_inv s \<Longrightarrow> exec_inv (upd_plan orgId i (no_plan_patch\<lparr>pp_approvalRequestId := Some a\<rparr>) s)"
proof -
  assume inv: "exec_inv s"
  let ?s = "upd_plan orgId i (no_plan_patch\<lparr>pp_approvalRequestId := Some a\<rparr>) s"
  have "unapproved s j" if "unapproved ?s j" for j
    using that by (auto simp: unapproved_def upd_plan_def updatePlan_db set_upd_where patch_plan_def no_plan_patch_def)
  moreover have "quiet ?s j = quiet s j" for j by (simp add: quiet_def mentioned_def upd_plan_def updatePlan_db)
  ultimately show ?thesis using inv by (simp add: exec_inv_def upd_plan_ok)
qed

lemma submit_inv:
  assumes "exec_inv s" "sql_submit fresh now params (x_approvals s) = Inr (req, t)" "step_ref (sp_context params) = None"
  shows "exec_inv (s\<lparr>x_approvals := t\<rparr>)"
proof -
  have "mentioned (s\<lparr>x_approvals := t\<rparr>) j = mentioned s j" for j
    using assms(2,3)
    by (auto simp: mentioned_def sql_submit_def Let_def approval_request.defs new_request_def split: if_splits)
  then show ?thesis using assms(1) by (simp add: exec_inv_def unapproved_def quiet_def)
qed

lemmas event_inv = create_inv delete_inv expire_inv link_inv approve_inv reject_inv cancel_inv retry_inv decide_inv submit_inv

interpretation executor: invariant_system "\<lambda>s. s = empty_exec" plan_event exec_inv
proof unfold_locales
  show "exec_inv s" if "s = empty_exec" for s
    using that by (simp add: exec_inv_def empty_exec_def plan_db_ok_def unapproved_def)
  show "exec_inv t" if "plan_event s t" "exec_inv s" for s t
    using that by (elim plan_eventE) (auto intro: event_inv)
qed

text \<open>
  C1. Nothing runs without the plan's approval: in every state reached from empty tables by
  creating and deleting plans, approving, rejecting, cancelling, retrying, expiring them, and
  deciding approval requests with their callback, no adapter call was ever made for a plan that
  is a draft, waiting, rejected or expired, and all its steps are still pending.
\<close>

theorem only_approved_plans_execute:
  assumes "plan_event\<^sup>*\<^sup>* empty_exec s" "r \<in> set (pd_plans (x_db s))"
    and "pl_status r \<in> {PS_draft, PS_pending_approval, PS_rejected, PS_expired}"
  shows "(\<forall>c\<in>set (x_calls s). cl_planId c \<noteq> pl_id r)
     \<and> (\<forall>st\<in>set (pd_steps (x_db s)). st_planId st = pl_id r \<longrightarrow> st_status st = SS_pending)"
proof -
  have "exec_inv s" by (rule executor.reachable_inv [OF refl assms(1)])
  moreover have "unapproved s (pl_id r)" using assms(2,3) unfolding unapproved_def UNAPPROVED_def by blast
  ultimately show ?thesis by (auto simp: exec_inv_def quiet_def mentioned_def)
qed

lemma created_event: "plan_event\<^sup>*\<^sup>* empty_exec created_state"
proof -
  have "case plan_create ''1'' (\<lambda>k. replicate k CHR ''x'') 0 two_steps (x_db empty_exec) of Inr z \<Rightarrow> True | Inl e \<Rightarrow> False"
    by code_simp
  then obtain p db where c: "plan_create ''1'' (\<lambda>k. replicate k CHR ''x'') 0 two_steps (x_db empty_exec) = Inr (p, db)"
    by (auto split: sum.splits)
  have "plan_event empty_exec (empty_exec\<lparr>x_db := db\<rparr>)"
    by (rule ev_create [OF c]) (simp_all add: two_steps_def demo_plan_def mentioned_def empty_exec_def)
  then show ?thesis using c by (simp add: created_state_def)
qed

theorem only_approved_plans_execute_witness:
  "\<exists>r\<in>set (pd_plans (x_db (snd (exec_reject 5 ''o'' ''plan-1'' demo_user created_state)))). pl_status r = PS_rejected
     \<and> (\<forall>c\<in>set (x_calls (snd (exec_reject 5 ''o'' ''plan-1'' demo_user created_state))). cl_planId c \<noteq> pl_id r)"
proof -
  let ?s = "snd (exec_reject 5 ''o'' ''plan-1'' demo_user created_state)"
  have "plan_event\<^sup>*\<^sup>* empty_exec ?s"
    using created_event ev_reject [of created_state] by (rule rtranclp.rtrancl_into_rtrancl)
  moreover have "list_ex (\<lambda>r. pl_status r = PS_rejected) (pd_plans (x_db ?s))" by code_simp
  ultimately show ?thesis using only_approved_plans_execute [of ?s] by (auto simp: list_ex_iff)
qed

section \<open>An approval event on a plan that is not running\<close>

lemma runNext_calls: "\<exists>more. x_calls (snd (runNext env orgId i s)) = x_calls s @ more"
proof (induction env orgId i s rule: runNext.induct)
  case (1 env orgId i s)
  show ?case
  proof (cases "plan_findByIdInOrg (x_db s) orgId i")
    case (Some p)
    have "\<exists>more. x_calls (snd (runNext env orgId i (executeStep env p st s))) = x_calls s @ more"
      if "pl_status p \<noteq> PS_failed" "pl_status p \<noteq> PS_cancelled" "pl_autoEdit p"
        "List.find (\<lambda>st. st_status st = SS_pending) (pl_steps p) = Some st" for st
      using 1 [OF Some that(1,2,4,3)] by (auto simp: execute_frame)
    then show ?thesis
      using Some
      by (auto simp: runNext.simps [of env orgId i s] pause_for_approval_def set_plan_status_def split: option.splits sum.splits)
  qed (simp add: runNext.simps [of env orgId i s])
qed

text \<open>
  An approval event runs its step whatever became of the plan: when an approved request that
  names a step is delivered, the step's command goes to the adapter, also if the plan was
  cancelled, has failed or is complete, and also if the step has run already (an override of an
  approved request delivers it once more).
\<close>

theorem step_approval_ignores_status:
  assumes "plan_db_ok (x_db s)" "plan_findByIdInOrg (x_db s) orgId i = Some p"
    and "sql_findById (ar_id req) (x_approvals s) = Some req" "aq_status req = AP_approved"
    and "step_ref (aq_context req) = Some (i, int n)" "aa_type (aq_action req) = ''ops.run_command''"
    and "List.find (\<lambda>t. st_ordinal t = n) (pl_steps p) = Some st" "en_approvals env"
  shows "\<exists>more. x_calls (on_resolved env req s) = x_calls s @ step_calls st i @ more"
proof -
  have v: "view s orgId i = Some p" using assms(2) by (simp add: view_def)
  have byid: "plan_findById (x_db s) i = Some p" "pl_orgId p = orgId" "pl_id p = i"
    using find_in_org [OF assms(1,2)] view_ids [OF v] by auto
  have ctx: "map_of (aq_context req) ''planId'' = Some (JStr i)"
    using assms(5) by (auto simp: step_ref_def split: option.splits json.splits)
  have "findStepByApproval env orgId (ar_id req) s = Inr (p, st)"
    by (rule resume_found [OF assms(1) v assms(3,5,7,8)])
  then have "on_resolved env req s = snd (runNext env orgId i (executeStep env p st s))"
    using assms(4,5,6) ctx byid by (simp add: on_resolved_def resumeExecutor_def onStepApproved_def)
  then show ?thesis using runNext_calls [of env orgId i "executeStep env p st s"] byid(3) by (auto simp: execute_frame)
qed

definition paused_state :: exec_state where
  "paused_state = snd (exec_approve demo_env 5 ''o'' ''plan-1'' False demo_user created_state)"

definition cancelled_state :: exec_state where
  "cancelled_state = (let s = snd (exec_cancel 6 ''o'' ''plan-1'' demo_user paused_state)
     in s\<lparr>x_approvals := snd (sql_approve 7 ''a'' ''u'' None (x_approvals s))\<rparr>)"

theorem step_approval_ignores_status_witness:
  "\<exists>req p. plan_findByIdInOrg (x_db cancelled_state) ''o'' ''plan-1'' = Some p \<and> pl_status p = PS_cancelled
     \<and> x_calls cancelled_state = [] \<and> length (x_calls (on_resolved demo_env req cancelled_state)) \<ge> 1"
proof -
  have f: "case plan_findByIdInOrg (x_db cancelled_state) ''o'' ''plan-1'' of None \<Rightarrow> False
      | Some p \<Rightarrow> pl_status p = PS_cancelled \<and> (case List.find (\<lambda>t. st_ordinal t = 0) (pl_steps p) of None \<Rightarrow> False
          | Some st \<Rightarrow> length (step_calls st ''plan-1'') = 1)" by code_simp
  have r: "case sql_findById ''a'' (x_approvals cancelled_state) of None \<Rightarrow> False
      | Some req \<Rightarrow> ar_id req = ''a'' \<and> aq_status req = AP_approved \<and> step_ref (aq_context req) = Some (''plan-1'', 0)
          \<and> aa_type (aq_action req) = ''ops.run_command''" by code_simp
  have ok: "plan_db_ok (x_db cancelled_state)" and e: "x_calls cancelled_state = []" by code_simp+
  from f obtain p st where p: "plan_findByIdInOrg (x_db cancelled_state) ''o'' ''plan-1'' = Some p" "pl_status p = PS_cancelled"
    "List.find (\<lambda>t. st_ordinal t = 0) (pl_steps p) = Some st" "length (step_calls st ''plan-1'') = 1"
    by (auto split: option.splits)
  from r obtain req where rq: "sql_findById ''a'' (x_approvals cancelled_state) = Some req" "ar_id req = ''a''"
    "aq_status req = AP_approved" "step_ref (aq_context req) = Some (''plan-1'', int 0)"
    "aa_type (aq_action req) = ''ops.run_command''"
    by (auto split: option.splits)
  have req: "sql_findById (ar_id req) (x_approvals cancelled_state) = Some req" using rq(1,2) by simp
  have "en_approvals demo_env" by (simp add: demo_env_def)
  from step_approval_ignores_status [OF ok p(1) req rq(3-5) p(3) this] obtain more where
    "x_calls (on_resolved demo_env req cancelled_state) = x_calls cancelled_state @ step_calls st ''plan-1'' @ more" by blast
  then have "length (x_calls (on_resolved demo_env req cancelled_state)) \<ge> 1" using p(4) by simp
  then show ?thesis using p(1,2) e by blast
qed

section \<open>Refused calls\<close>

text \<open>
  C38. A refused call changes nothing: rejecting and approving need a plan of the organisation
  that waits for approval, cancelling one that is approved or executing, retrying a failed step;
  otherwise the call throws and leaves the tables and the calls as they are.
\<close>

theorem refused_calls_change_nothing:
  "(isl (fst (exec_reject now orgId i ident s)) \<longleftrightarrow> (\<forall>p. plan_findByIdInOrg (x_db s) orgId i = Some p \<longrightarrow> pl_status p \<noteq> PS_pending_approval))
     \<and> (isl (fst (exec_reject now orgId i ident s)) \<longrightarrow> snd (exec_reject now orgId i ident s) = s)
     \<and> (isl (fst (exec_cancel now orgId i ident s)) \<longleftrightarrow>
          (\<forall>p. plan_findByIdInOrg (x_db s) orgId i = Some p \<longrightarrow> pl_status p \<notin> {PS_approved, PS_executing}))
     \<and> (isl (fst (exec_cancel now orgId i ident s)) \<longrightarrow> snd (exec_cancel now orgId i ident s) = s)
     \<and> ((\<forall>p. plan_findByIdInOrg (x_db s) orgId i = Some p \<longrightarrow> pl_status p \<noteq> PS_pending_approval) \<longrightarrow>
          isl (fst (exec_approve env now orgId i autoEdit ident s)) \<and> snd (exec_approve env now orgId i autoEdit ident s) = s)
     \<and> ((\<forall>p st. plan_findByIdInOrg (x_db s) orgId i = Some p \<longrightarrow> List.find (\<lambda>st. st_ordinal st = n) (pl_steps p) = Some st \<longrightarrow> st_status st \<noteq> SS_failed) \<longrightarrow>
          isl (fst (retryStep env orgId i n s)) \<and> snd (retryStep env orgId i n s) = s)"
proof -
  have rej: "(isl (fst (exec_reject now orgId i ident s)) \<longleftrightarrow> (\<forall>p. plan_findByIdInOrg (x_db s) orgId i = Some p \<longrightarrow> pl_status p \<noteq> PS_pending_approval))
     \<and> (isl (fst (exec_reject now orgId i ident s)) \<longrightarrow> snd (exec_reject now orgId i ident s) = s)"
    by (auto simp: exec_reject_def  case_prod_beta split: option.splits)
  have can: "(isl (fst (exec_cancel now orgId i ident s)) \<longleftrightarrow> (\<forall>p. plan_findByIdInOrg (x_db s) orgId i = Some p \<longrightarrow> pl_status p \<notin> {PS_approved, PS_executing}))
     \<and> (isl (fst (exec_cancel now orgId i ident s)) \<longrightarrow> snd (exec_cancel now orgId i ident s) = s)"
    by (auto simp: exec_cancel_def  case_prod_beta split: option.splits)
  have app: "(\<forall>p. plan_findByIdInOrg (x_db s) orgId i = Some p \<longrightarrow> pl_status p \<noteq> PS_pending_approval) \<longrightarrow>
      isl (fst (exec_approve env now orgId i autoEdit ident s)) \<and> snd (exec_approve env now orgId i autoEdit ident s) = s"
    by (auto simp: exec_approve_def  split: option.splits)
  have ret: "(\<forall>p st. plan_findByIdInOrg (x_db s) orgId i = Some p \<longrightarrow> List.find (\<lambda>st. st_ordinal st = n) (pl_steps p) = Some st \<longrightarrow> st_status st \<noteq> SS_failed) \<longrightarrow>
      isl (fst (retryStep env orgId i n s)) \<and> snd (retryStep env orgId i n s) = s"
    by (auto simp: retryStep_def  split: option.splits)
  show ?thesis using rej can app ret by blast
qed

theorem refused_calls_change_nothing_witness:
  "snd (exec_cancel 6 ''o'' ''plan-1'' demo_user created_state) = created_state
   \<and> snd (retryStep demo_env ''o'' ''plan-1'' 0 created_state) = created_state"
proof -
  have "isl (fst (exec_cancel 6 ''o'' ''plan-1'' demo_user created_state))" by code_simp
  moreover have "\<forall>p st. plan_findByIdInOrg (x_db created_state) ''o'' ''plan-1'' = Some p \<longrightarrow>
      List.find (\<lambda>st. st_ordinal st = 0) (pl_steps p) = Some st \<longrightarrow> st_status st \<noteq> SS_failed"
    using created_found created_waiting(2) by (auto dest: find_Some_set)
  ultimately show ?thesis
    using refused_calls_change_nothing [of 6 "''o''" "''plan-1''" demo_user created_state demo_env True 0] by blast
qed

section \<open>The stored texts are bounded\<close>

definition text_fits :: "string option \<Rightarrow> bool" where
  "text_fits t \<longleftrightarrow> (case t of None \<Rightarrow> True | Some x \<Rightarrow> length x \<le> STDIO_CAP_BYTES)"

lemma truncate_fits: "text_fits (truncate_text t STDIO_CAP_BYTES)"
  by (auto simp: truncate_text_def text_fits_def split: option.splits)

lemma truncate_keeps_end:
  "truncate_text (Some x) cap = Some y \<Longrightarrow> \<exists>z. x = z @ y \<and> (length x \<le> cap \<longrightarrow> z = '''')"
  by (auto simp: truncate_text_def split: if_splits) (metis append_take_drop_id)

definition texts_fit :: "exec_state \<Rightarrow> bool" where
  "texts_fit s \<longleftrightarrow> (\<forall>st\<in>set (pd_steps (x_db s)). length (st_kind st) \<le> 60000
     \<and> text_fits (st_outputText st) \<and> text_fits (st_errorText st))"

definition patch_fits :: "step_patch \<Rightarrow> bool" where
  "patch_fits p \<longleftrightarrow> (case sp_outputText p of None \<Rightarrow> True | Some t \<Rightarrow> text_fits t)
     \<and> (case sp_errorText p of None \<Rightarrow> True | Some t \<Rightarrow> text_fits t)"

lemma fits_upd_step: "texts_fit s \<Longrightarrow> patch_fits p \<Longrightarrow> texts_fit (upd_step i n p s)"
  by (auto simp: texts_fit_def patch_fits_def upd_step_def updateStep_db set_upd_where split: option.splits)

lemma fits_steps: "texts_fit s \<Longrightarrow> pd_steps (x_db s') = pd_steps (x_db s) \<Longrightarrow> texts_fit s'"
  by (simp add: texts_fit_def)

lemma no_text_fits [simp]: "text_fits None" by (simp add: text_fits_def)

lemma patch_fits_simps [simp]:
  "patch_fits (no_step_patch\<lparr>sp_status := x\<rparr>)" "patch_fits (no_step_patch\<lparr>sp_approvalRequestId := a\<rparr>)"
  "patch_fits reset_patch" "patch_fits (start_patch env k)" "text_fits t \<Longrightarrow> patch_fits (fail_patch t)"
  by (simp_all add: patch_fits_def no_step_patch_def reset_patch_def start_patch_def fail_patch_def)

lemma fits_skip: "texts_fit s \<Longrightarrow> texts_fit (skip_later i n ss s)" "texts_fit s \<Longrightarrow> texts_fit (unskip_later i n ss s)"
  by (induction ss arbitrary: s) (simp_all add: fits_upd_step)

lemma fits_upd_plan: "texts_fit s \<Longrightarrow> texts_fit (upd_plan orgId i p s)"
  by (erule fits_steps) simp

lemma fits_halt: "texts_fit s \<Longrightarrow> texts_fit (snd (haltPlan orgId i n reason s))"
  by (simp add: haltPlan_def Let_def set_plan_status_def fits_upd_plan fits_skip split: option.split)

definition short_numbers :: "exec_env \<Rightarrow> bool" where
  "short_numbers env \<longleftrightarrow> (\<forall>n. length (en_show env n) \<le> 400)"

lemma fits_end_patch:
  assumes "short_numbers env" "length (st_kind st) \<le> 60000"
  shows "patch_fits (end_patch env k p st)"
proof -
  have "length (en_show env (int (st_ordinal st))) \<le> 400" using assms(1) by (simp add: short_numbers_def)
  then have "text_fits (Some (invalid_params env st))"
    using assms(2) by (simp add: text_fits_def invalid_params_def STDIO_CAP_BYTES_def)
  moreover have "patch_fits (no_step_patch\<lparr>sp_status := x, sp_outputText := Some (truncate_text t STDIO_CAP_BYTES)\<rparr>)" for x t
    using truncate_fits by (simp add: patch_fits_def no_step_patch_def)
  ultimately show ?thesis
    using truncate_fits by (auto simp: end_patch_def split: option.splits sum.splits)
qed

lemma fits_execute:
  assumes "texts_fit s" "short_numbers env" "length (st_kind st) \<le> 60000"
  shows "texts_fit (executeStep env p st s)"
proof -
  let ?t = "upd_step (pl_id p) (st_ordinal st) (end_patch env (x_tick s) p st)
       (upd_step (pl_id p) (st_ordinal st) (start_patch env (x_tick s)) s)"
  obtain s' reason where
    e: "executeStep env p st s = (if halts env (x_tick s) p st then snd (haltPlan (pl_orgId p) (pl_id p) (st_ordinal st) reason s') else s')"
    and db: "x_db s' = x_db ?t"
    using executeStep_shape [of env p st s] by metis
  have "texts_fit ?t" by (intro fits_upd_step fits_end_patch assms) simp
  then have "texts_fit s'" by (rule fits_steps) (simp add: db)
  then show ?thesis unfolding e using fits_halt by simp
qed

lemma fits_kind: "texts_fit s \<Longrightarrow> plan_findByIdInOrg (x_db s) orgId i = Some p \<Longrightarrow> st \<in> set (pl_steps p) \<Longrightarrow> length (st_kind st) \<le> 60000"
  using find_plan_ids [of "x_db s" orgId i p] by (auto simp: texts_fit_def steps_of_mem)

lemma fits_runNext: "short_numbers env \<Longrightarrow> texts_fit s \<Longrightarrow> texts_fit (snd (runNext env orgId i s))"
proof (induction env orgId i s rule: runNext.induct)
  case (1 env orgId i s)
  show ?case
  proof (cases "plan_findByIdInOrg (x_db s) orgId i")
    case (Some p)
    have step: "texts_fit (snd (runNext env orgId i (executeStep env p st s)))"
      if "pl_status p \<noteq> PS_failed" "pl_status p \<noteq> PS_cancelled" "pl_autoEdit p"
        "List.find (\<lambda>st. st_status st = SS_pending) (pl_steps p) = Some st" for st
      by (rule 1(1) [OF Some that(1,2,4,3) 1(2)])
         (use fits_execute [OF 1(3,2)] fits_kind [OF 1(3) Some] find_Some_set [OF that(4)] in auto)
    have comp: "texts_fit (set_plan_status orgId i x s)" for x
      using 1(3) by (rule fits_steps) (simp add: set_plan_status_def)
    have pause: "texts_fit (snd (pause_for_approval env orgId p st s))" for st
    proof -
      have "texts_fit (s\<lparr>x_approvals := t\<rparr>)" for t using 1(3) by (rule fits_steps) simp
      then show ?thesis using 1(3) by (auto simp: pause_for_approval_def split: sum.splits intro!: fits_upd_step)
    qed
    show ?thesis
      using Some step comp pause 1(3) by (auto simp: runNext.simps [of env orgId i s] split: option.splits)
  qed (simp add: runNext.simps [of env orgId i s] 1(3))
qed

lemma fits_found:
  assumes "findStepByApproval env orgId a s = Inr (p, st)"
  shows "\<exists>i. plan_findByIdInOrg (x_db s) orgId i = Some p \<and> st \<in> set (pl_steps p)"
  using assms by (auto simp: findStepByApproval_def split: if_splits option.splits prod.splits dest!: find_Some_set)

text \<open>
  The output and error texts of the steps never outgrow the 64 KB cap: whatever the adapter
  answers, approving, resuming after an approval or a rejection, and retrying keep every stored
  text within it, provided the step kinds are not themselves that long; and a text that is cut
  keeps its end.
\<close>

theorem stored_texts_bounded:
  assumes "texts_fit s" "short_numbers env"
  shows "texts_fit (snd (exec_approve env now orgId i autoEdit ident s))
     \<and> texts_fit (snd (onStepApproved env orgId a s)) \<and> texts_fit (snd (onStepRejected env orgId a s))
     \<and> texts_fit (snd (retryStep env orgId i n s))
     \<and> (truncate_text (Some x) STDIO_CAP_BYTES = Some y \<longrightarrow> (\<exists>z. x = z @ y))"
proof -
  have app: "texts_fit (snd (exec_approve env now orgId i autoEdit ident s))"
    using assms by (auto simp: exec_approve_def Let_def set_plan_status_def split: option.splits intro!: fits_runNext fits_upd_plan)
  have step: "texts_fit (snd (runNext env orgId j (executeStep env p st t)))"
    if "texts_fit t" "plan_findByIdInOrg (x_db t) orgId k = Some p" "st \<in> set (pl_steps p)" for j k p st t
    using that assms(2) by (intro fits_runNext fits_execute) (auto intro: fits_kind)
  have onA: "texts_fit (snd (onStepApproved env orgId a s))"
  proof (cases "findStepByApproval env orgId a s")
    case (Inr z)
    obtain p st where z: "z = (p, st)" by fastforce
    then show ?thesis using fits_found [of env orgId a s p st] Inr step [OF assms(1)] by (auto simp: onStepApproved_def)
  qed (simp add: onStepApproved_def assms(1))
  have rej: "patch_fits (fail_patch (Some ''rejected by approver''))" by (simp add: text_fits_def STDIO_CAP_BYTES_def)
  have onR: "texts_fit (snd (onStepRejected env orgId a s))"
    using assms rej
    by (auto simp: onStepRejected_def Let_def case_prod_beta split: sum.splits intro!: fits_runNext fits_halt fits_upd_step)
  have re: "texts_fit (upd_step i n reset_patch s)"
    "texts_fit (set_plan_status orgId i PS_executing (unskip_later i n ss (upd_step i n reset_patch s)))" for ss
    using assms(1) by (auto simp: set_plan_status_def intro!: fits_upd_plan fits_skip fits_upd_step)
  have ret: "texts_fit (snd (retryStep env orgId i n s))"
    using assms(1) re step unfolding retryStep_def Let_def
    by (auto split: option.splits dest: find_Some_set)
  show ?thesis using app onA onR ret truncate_keeps_end by blast
qed

theorem stored_texts_bounded_witness:
  "texts_fit (snd (exec_approve demo_env 5 ''o'' ''plan-1'' True demo_user created_state))"
proof -
  have "short_numbers demo_env" by (simp add: short_numbers_def demo_env_def)
  moreover have "texts_fit created_state"
  proof -
    have "\<forall>st\<in>set (pd_steps (x_db created_state)). st_kind st = ''ops.run_command'' \<and> st_outputText st = None \<and> st_errorText st = None"
      by code_simp
    then show ?thesis by (simp add: texts_fit_def)
  qed
  ultimately show ?thesis using stored_texts_bounded by blast
qed

end
