(* ===== verification/Plan_Routes.thy ===== *)
theory Plan_Routes
  imports Plan_Executor
begin

text \<open>
  The \<^verbatim>\<open>/api/plans\<close> routes (\<^verbatim>\<open>packages/api-gateway/src/routes/plans.ts\<close>): the permission
  gate in front of every route, the two-layered gate for auto-edit, the confirmation lookup and
  the parsing of query and path parameters; and what the executor spawns through the adapter the
  boot code builds (\<^verbatim>\<open>app/plans-boot.ts\<close>).  A thrown error is handed to the error handler
  and appears as \<open>PR_throw\<close>.
\<close>

section \<open>Confirmation modes\<close>

datatype action_source = Src_user_conversation | Src_background_agent | Src_manual_ui | Src_system

datatype action_risk = Risk_low | Risk_medium | Risk_high | Risk_critical

datatype confirmation_mode = Conf_none | Conf_user_confirm | Conf_strong_user_confirm | Conf_formal_approval

definition pickConfirmationMode :: "action_source \<Rightarrow> action_risk \<Rightarrow> confirmation_mode" where
  "pickConfirmationMode source risk =
     (if source = Src_background_agent then
        (if risk = Risk_high \<or> risk = Risk_critical then Conf_formal_approval else Conf_none)
      else if source = Src_user_conversation \<or> source = Src_manual_ui then
        (if risk = Risk_critical \<or> risk = Risk_high then Conf_strong_user_confirm
         else if risk = Risk_medium then Conf_user_confirm
         else Conf_none)
      else Conf_none)"

definition source_names :: "(string \<times> action_source) list" where
  "source_names = [(''user_conversation'', Src_user_conversation), (''background_agent'', Src_background_agent),
     (''manual_ui'', Src_manual_ui), (''system'', Src_system)]"

definition risk_names :: "(string \<times> action_risk) list" where
  "risk_names = [(''low'', Risk_low), (''medium'', Risk_medium), (''high'', Risk_high), (''critical'', Risk_critical)]"

section \<open>Query and path parameters\<close>

definition STATUSES :: "plan_status list" where
  "STATUSES = [PS_draft, PS_pending_approval, PS_approved, PS_rejected, PS_executing, PS_completed, PS_failed,
     PS_expired, PS_cancelled]"

definition status_of_name :: "string \<Rightarrow> plan_status option" where
  "status_of_name v = List.find (\<lambda>x. plan_status_name x = v) STATUSES"

text \<open>The statuses to filter for; the empty list is no filter.\<close>

definition parseStatus :: "json option \<Rightarrow> plan_status list" where
  "parseStatus raw =
     (case raw of
        Some (JStr v) \<Rightarrow> (case status_of_name v of Some x \<Rightarrow> [x] | None \<Rightarrow> [])
      | Some (JArr vs) \<Rightarrow> concat (map (\<lambda>v. case v of JStr n \<Rightarrow> (case status_of_name n of Some x \<Rightarrow> [x] | None \<Rightarrow> []) | _ \<Rightarrow> []) vs)
      | _ \<Rightarrow> [])"

section \<open>Routes\<close>

datatype plan_response =
    PR_error nat string
  | PR_throw string
  | PR_list "plan list"
  | PR_plan "plan option"
  | PR_confirmation action_source action_risk confirmation_mode bool
  | PR_outcome exec_outcome "plan option"

text \<open>
  The permission gate and the checks that follow it; the body sees the identity with its
  permissions filled in.
\<close>

definition gated ::
  "ac_config \<Rightarrow> ac_world \<Rightarrow> bool \<Rightarrow> identity option \<Rightarrow> string \<Rightarrow> string \<Rightarrow> string \<Rightarrow>
     (identity \<Rightarrow> exec_state \<Rightarrow> plan_response \<times> exec_state) \<Rightarrow> exec_state \<Rightarrow> plan_response \<times> exec_state" where
  "gated cfg w boot auth act sc missing body s =
     (case permissionGate cfg w boot auth (Inr (ac_eval act (OneScope sc))) of
        (Gate_status code msg, _) \<Rightarrow> (PR_error code msg, s)
      | (Gate_next, None) \<Rightarrow> (PR_error 401 missing, s)
      | (Gate_next, Some ident) \<Rightarrow> body ident s)"

definition with_org ::
  "(identity \<Rightarrow> exec_state \<Rightarrow> plan_response \<times> exec_state) \<Rightarrow> identity \<Rightarrow> exec_state \<Rightarrow> plan_response \<times> exec_state" where
  "with_org body ident s =
     (if id_orgId ident = '''' then (PR_error 401 ''org context required'', s) else body ident s)"

definition list_plans_route ::
  "ac_config \<Rightarrow> ac_world \<Rightarrow> bool \<Rightarrow> identity option \<Rightarrow> json option \<Rightarrow> json option \<Rightarrow> exec_state \<Rightarrow> plan_response \<times> exec_state" where
  "list_plans_route cfg w boot auth status investigation =
     gated cfg w boot auth A_PlansRead ''plans:*'' ''org context required''
       (with_org (\<lambda>ident s. (PR_list (plan_listByOrg (x_db s) (id_orgId ident)
          \<lparr>lp_status = parseStatus status,
           lp_investigationId = (case investigation of Some (JStr v) \<Rightarrow> Some v | _ \<Rightarrow> None),
           lp_rescueForPlanId = None, lp_limit = None, lp_offset = None\<rparr>), s)))"

definition get_plan_route ::
  "ac_config \<Rightarrow> ac_world \<Rightarrow> bool \<Rightarrow> identity option \<Rightarrow> string \<Rightarrow> exec_state \<Rightarrow> plan_response \<times> exec_state" where
  "get_plan_route cfg w boot auth i =
     gated cfg w boot auth A_PlansRead (''plans:uid:'' @ i) ''org context required''
       (with_org (\<lambda>ident s. (case plan_findByIdInOrg (x_db s) (id_orgId ident) i of
          None \<Rightarrow> PR_error 404 ''plan not found''
        | Some p \<Rightarrow> PR_plan (Some p), s)))"

definition confirmation_route ::
  "ac_config \<Rightarrow> ac_world \<Rightarrow> bool \<Rightarrow> identity option \<Rightarrow> string \<Rightarrow> string option \<Rightarrow> string option \<Rightarrow> exec_state \<Rightarrow>
     plan_response \<times> exec_state" where
  "confirmation_route cfg w boot auth i sourceQ riskQ =
     gated cfg w boot auth A_PlansRead (''plans:uid:'' @ i) ''org context required''
       (with_org (\<lambda>ident s. (case plan_findByIdInOrg (x_db s) (id_orgId ident) i of
          None \<Rightarrow> PR_error 404 ''plan not found''
        | Some p \<Rightarrow>
            (let source = coalesce (map_of source_names (coalesce sourceQ ''background_agent'')) Src_background_agent;
                 risk = coalesce (map_of risk_names (coalesce riskQ ''high'')) Risk_high;
                 mode = pickConfirmationMode source risk
             in PR_confirmation source risk mode (mode = Conf_formal_approval)), s)))"

fun check_namespaces :: "ac_config \<Rightarrow> ac_world \<Rightarrow> identity \<Rightarrow> string list \<Rightarrow> string option" where
  "check_namespaces cfg w ident [] = None"
| "check_namespaces cfg w ident (ns # rest) =
     (case ac_evaluate cfg w ident (ac_eval A_PlansAutoEdit (OneScope (''plans:namespace:'' @ ns))) of
        (ok, ident') \<Rightarrow> if ok then check_namespaces cfg w ident' rest
                         else Some (''auto-edit requires plans:auto_edit on plans:namespace:'' @ ns))"

text \<open>The two-layered gate: the error response, or nothing when auto-edit may go ahead.\<close>

definition auto_edit_gate :: "ac_config \<Rightarrow> ac_world \<Rightarrow> identity \<Rightarrow> string \<Rightarrow> exec_state \<Rightarrow> plan_response option" where
  "auto_edit_gate cfg w ident i s =
     (case plan_findByIdInOrg (x_db s) (id_orgId ident) i of
        None \<Rightarrow> Some (PR_error 404 ''plan not found'')
      | Some p \<Rightarrow>
          (case ac_evaluate cfg w ident (ac_eval A_PlansAutoEdit (OneScope ''plans:*'')) of
             (wildcard, ident') \<Rightarrow>
               if wildcard then None
               else (case extractPlanNamespaces p of
                 Inl e \<Rightarrow> Some (PR_throw e)
               | Inr summary \<Rightarrow>
                   if pn_hasClusterScoped summary
                   then Some (PR_error 403 ''auto-edit on a plan with a cluster-scoped step requires plans:auto_edit on plans:* (cluster-wide grant)'')
                   else map_option (PR_error 403) (check_namespaces cfg w ident' (pn_namespaces summary)))))"

definition respond :: "string \<Rightarrow> string \<Rightarrow> exec_outcome result \<times> exec_state \<Rightarrow> plan_response \<times> exec_state" where
  "respond orgId i z =
     (case z of
        (Inl e, s) \<Rightarrow> (PR_throw e, s)
      | (Inr r, s) \<Rightarrow> (PR_outcome r (plan_findByIdInOrg (x_db s) orgId i), s))"

definition respond_plan :: "plan option result \<times> exec_state \<Rightarrow> plan_response \<times> exec_state" where
  "respond_plan z = (case z of (Inl e, s) \<Rightarrow> (PR_throw e, s) | (Inr p, s) \<Rightarrow> (PR_plan p, s))"

definition approve_plan_route ::
  "exec_env \<Rightarrow> ac_config \<Rightarrow> ac_world \<Rightarrow> bool \<Rightarrow> int \<Rightarrow> identity option \<Rightarrow> string \<Rightarrow> json option \<Rightarrow> exec_state \<Rightarrow>
     plan_response \<times> exec_state" where
  "approve_plan_route env cfg w boot now auth i autoEdit =
     gated cfg w boot auth A_PlansApprove (''plans:uid:'' @ i) ''authentication required''
       (\<lambda>ident s.
          (case (if autoEdit = Some (JBool True) then auto_edit_gate cfg w ident i s else None) of
             Some err \<Rightarrow> (err, s)
           | None \<Rightarrow> respond (id_orgId ident) i
               (exec_approve env now (id_orgId ident) i (autoEdit = Some (JBool True)) ident s)))"

definition reject_plan_route ::
  "ac_config \<Rightarrow> ac_world \<Rightarrow> bool \<Rightarrow> int \<Rightarrow> identity option \<Rightarrow> string \<Rightarrow> exec_state \<Rightarrow> plan_response \<times> exec_state" where
  "reject_plan_route cfg w boot now auth i =
     gated cfg w boot auth A_PlansApprove (''plans:uid:'' @ i) ''authentication required''
       (\<lambda>ident s. respond_plan (exec_reject now (id_orgId ident) i ident s))"

definition cancel_plan_route ::
  "ac_config \<Rightarrow> ac_world \<Rightarrow> bool \<Rightarrow> int \<Rightarrow> identity option \<Rightarrow> string \<Rightarrow> exec_state \<Rightarrow> plan_response \<times> exec_state" where
  "cancel_plan_route cfg w boot now auth i =
     gated cfg w boot auth A_PlansApprove (''plans:uid:'' @ i) ''authentication required''
       (\<lambda>ident s. respond_plan (exec_cancel now (id_orgId ident) i ident s))"

definition retry_step_route ::
  "exec_env \<Rightarrow> ac_config \<Rightarrow> ac_world \<Rightarrow> bool \<Rightarrow> identity option \<Rightarrow> string \<Rightarrow> string \<Rightarrow> exec_state \<Rightarrow>
     plan_response \<times> exec_state" where
  "retry_step_route env cfg w boot auth i ordinal =
     gated cfg w boot auth A_PlansApprove (''plans:uid:'' @ i) ''authentication required''
       (\<lambda>ident s.
          (case js_parseInt ordinal of
             None \<Rightarrow> (PR_error 400 ''ordinal must be a non-negative integer'', s)
           | Some n \<Rightarrow> if n < 0 then (PR_error 400 ''ordinal must be a non-negative integer'', s)
               else respond (id_orgId ident) i (retryStep env (id_orgId ident) i (nat n) s)))"

section \<open>The namespace the gate reads\<close>

text \<open>
  The tokens by which a vector names a namespace, and the vectors that do so once.  The gate takes
  the first such token and does not know that \<^verbatim>\<open>--as\<close> takes a value; the policy and kubectl take
  the last one.
\<close>

definition namespace_flag :: "string \<Rightarrow> bool" where
  "namespace_flag t \<longleftrightarrow> t = ''-n'' \<or> t = ''--namespace'' \<or> js_startsWith t ''--namespace=''"

definition names_once :: "string list \<Rightarrow> bool" where
  "names_once argv \<longleftrightarrow> length (filter namespace_flag argv) \<le> 1 \<and> ''--as'' \<notin> set argv"

lemma parse_namespace: "namespace (parseKubectlArgv argv) = fst (scan_argv argv None False [])"
  by (simp add: parseKubectlArgv_def case_prod_beta Let_def)

lemma scan_unnamed:
  "\<not> (\<exists>t\<in>set xs. namespace_flag t) \<Longrightarrow> ''--as'' \<notin> set xs \<Longrightarrow> fst (scan_argv xs ns asf pos) = ns"
  by (induction xs arbitrary: asf pos) (auto simp: namespace_flag_def)

lemma named_once_agree:
  "names_once argv \<Longrightarrow> readNamespaceFromArgv (map JStr argv) = Inr (Some ns) \<Longrightarrow> fst (scan_argv argv ns0 asf pos) = Some ns"
proof (induction argv arbitrary: asf pos)
  case (Cons t rest)
  show ?case
  proof (cases "namespace_flag t")
    case True
    then have none: "\<not> (\<exists>x\<in>set rest. namespace_flag x)" "''--as'' \<notin> set rest" "''--as'' \<notin> set (drop 1 rest)"
      using Cons.prems(1) in_set_dropD [of "''--as''" 1 rest] by (auto simp: names_once_def filter_empty_conv)
    have later: "\<not> (\<exists>x\<in>set (drop 1 rest). namespace_flag x)" using none(1) by (blast dest: in_set_dropD)
    show ?thesis
      using True Cons.prems(2) scan_unnamed [OF none(1,2)] scan_unnamed [OF later none(3)]
      by (auto simp: namespace_flag_def arr_get_def Let_def split: if_splits)
  next
    case False
    then show ?thesis using Cons by (auto simp: names_once_def namespace_flag_def)
  qed
qed simp

section \<open>What the auto-edit gate guarantees\<close>

definition may_auto_edit :: "ac_config \<Rightarrow> ac_world \<Rightarrow> identity \<Rightarrow> string \<Rightarrow> bool" where
  "may_auto_edit cfg w ident sc \<longleftrightarrow> fst (ac_evaluate cfg w ident (ac_eval A_PlansAutoEdit (OneScope sc)))"

lemma ac_evaluate_ident: "snd (ac_evaluate cfg w ident e) = snd (ensurePermissions (w_rbac w) ident)"
  by (auto simp: ac_evaluate_def Let_def case_prod_beta split: option.splits if_splits)

lemma evaluate_again: "fst (ac_evaluate cfg w (snd (ensurePermissions (w_rbac w) ident)) e) = fst (ac_evaluate cfg w ident e)"
  unfolding ac_evaluate_iff ensured_again legacy_ensured ensure_frame by (rule refl)

lemma ensure_idem: "snd (ensurePermissions db (snd (ensurePermissions db ident))) = snd (ensurePermissions db ident)"
  by (auto simp: ensurePermissions_def Let_def split: option.splits)

lemma check_namespaces_None:
  "check_namespaces cfg w ident nss = None \<longleftrightarrow> (\<forall>ns\<in>set nss. may_auto_edit cfg w ident (''plans:namespace:'' @ ns))"
proof -
  have rec: "check_namespaces cfg w (snd (ensurePermissions (w_rbac w) ident)) nss = None \<longleftrightarrow>
      (\<forall>ns\<in>set nss. may_auto_edit cfg w ident (''plans:namespace:'' @ ns))" for nss
    by (induction nss)
       (auto simp: case_prod_beta ac_evaluate_ident ensure_idem evaluate_again may_auto_edit_def)
  show ?thesis
    by (cases nss) (auto simp: case_prod_beta ac_evaluate_ident rec may_auto_edit_def)
qed

lemma collect_namespaces_sound:
  assumes "collect_namespaces steps acc = Inr r" "\<not> pn_hasClusterScoped r"
  shows "\<not> pn_hasClusterScoped acc \<and> set (pn_namespaces acc) \<subseteq> set (pn_namespaces r)
     \<and> (\<forall>st\<in>set steps. st_kind st = ''ops.run_command'' \<longrightarrow>
         (\<exists>argv ns. map_of (st_paramsJson st) ''argv'' = Some (JArr argv) \<and> readNamespaceFromArgv argv = Inr (Some ns)
            \<and> ns \<in> set (pn_namespaces r)))"
  using assms
proof (induction steps arbitrary: acc)
  case (Cons st steps)
  have no_cluster: "collect_namespaces steps (acc\<lparr>pn_hasClusterScoped := True\<rparr>) \<noteq> Inr r"
    using Cons.IH [of "acc\<lparr>pn_hasClusterScoped := True\<rparr>"] Cons.prems(2) by auto
  show ?case
  proof (cases "st_kind st = ''ops.run_command''")
    case True
    then obtain argv ns where a: "map_of (st_paramsJson st) ''argv'' = Some (JArr argv)" "readNamespaceFromArgv argv = Inr (Some ns)"
      and rest: "collect_namespaces steps (acc\<lparr>pn_namespaces := pn_namespaces acc @ [ns]\<rparr>) = Inr r"
      using Cons.prems(1) no_cluster by (auto split: option.splits json.splits sum.splits)
    from Cons.IH [OF rest Cons.prems(2)] a show ?thesis by auto
  next
    case False
    then show ?thesis using Cons by auto
  qed
qed simp

lemma extract_sound:
  assumes "extractPlanNamespaces p = Inr r" "\<not> pn_hasClusterScoped r" "st \<in> set (pl_steps p)" "readOpsRunCommandParams st = Some params"
  shows "\<exists>ns\<in>set (pn_namespaces r). readNamespaceFromArgv (map JStr (op_argv params)) = Inr (Some ns)"
proof -
  obtain r0 where r0: "collect_namespaces (pl_steps p) \<lparr>pn_namespaces = [], pn_hasClusterScoped = False\<rparr> = Inr r0"
    "r = r0\<lparr>pn_namespaces := sort (js_uniq (pn_namespaces r0))\<rparr>"
    using assms(1) by (auto simp: extractPlanNamespaces_def)
  obtain argv where argv: "map_of (st_paramsJson st) ''argv'' = Some (JArr argv)" "list_all is_JStr argv" "op_argv params = map the_JStr argv"
    "st_kind st = ''ops.run_command''"
    using assms(4) by (auto simp: readOpsRunCommandParams_def split: if_splits option.splits json.splits)
  have "map (JStr \<circ> the_JStr) argv = argv"
    using argv(2) by (intro map_idI) (auto simp: list_all_iff elim!: is_JStr.elims)
  then have "map JStr (op_argv params) = argv" using argv(3) by simp
  moreover have "\<not> pn_hasClusterScoped r0" using assms(2) r0(2) by simp
  ultimately show ?thesis
    using collect_namespaces_sound [OF r0(1)] assms(3) argv(1,4) r0(2) by fastforce
qed

text \<open>
  C29. Auto-edit stays within the granted namespaces, for commands that name a namespace once: if
  the approve route lets an auto-edit approval through, the caller may auto-edit everywhere, or every
  command step of the plan names a namespace, the one named first is one in which he may
  auto-edit, and a command that names only one is run by kubectl in that namespace.  The
  restriction is needed: for a command with two namespace flags the gate speaks of the first
  and kubectl uses the last.
\<close>

theorem auto_edit_within_grants:
  assumes "approve_plan_route env cfg w False now (Some ident) i (Some (JBool True)) s = (PR_outcome r q, s')"
  shows "\<exists>p. plan_findByIdInOrg (x_db s) (id_orgId ident) i = Some p
     \<and> (may_auto_edit cfg w ident ''plans:*''
        \<or> (\<forall>st\<in>set (pl_steps p). \<forall>params. readOpsRunCommandParams st = Some params \<longrightarrow>
             (\<exists>ns. readNamespaceFromArgv (map JStr (op_argv params)) = Inr (Some ns)
                \<and> may_auto_edit cfg w ident (''plans:namespace:'' @ ns)
                \<and> (names_once (op_argv params) \<longrightarrow> namespace (parseKubectlArgv (op_argv params)) = Some ns))))"
proof -
  let ?ident = "snd (ensurePermissions (w_rbac w) ident)"
  have gate: "auto_edit_gate cfg w ?ident i s = None"
    using assms
    by (auto simp: approve_plan_route_def gated_def permissionGate_def case_prod_beta Let_def ac_evaluate_ident auto_edit_gate_def
        split: if_splits option.splits sum.splits gate_outcome.splits)
  have same: "may_auto_edit cfg w ?ident sc = may_auto_edit cfg w ident sc" for sc
    by (simp add: may_auto_edit_def evaluate_again)
  obtain p where p: "plan_findByIdInOrg (x_db s) (id_orgId ident) i = Some p"
    using gate by (auto simp: auto_edit_gate_def split: option.splits)
  show ?thesis
  proof (cases "may_auto_edit cfg w ident ''plans:*''")
    case False
    then have nw: "\<not> fst (ac_evaluate cfg w ?ident (ac_eval A_PlansAutoEdit (OneScope ''plans:*'')))"
      using same [of "''plans:*''"] by (simp add: may_auto_edit_def)
    obtain summary where x: "extractPlanNamespaces p = Inr summary" "\<not> pn_hasClusterScoped summary"
      "check_namespaces cfg w ?ident (pn_namespaces summary) = None"
      using gate p nw by (auto simp: auto_edit_gate_def case_prod_beta ac_evaluate_ident ensure_idem split: sum.splits if_splits)
    have ok: "may_auto_edit cfg w ident (''plans:namespace:'' @ ns)" if "ns \<in> set (pn_namespaces summary)" for ns
      using x(3) that same unfolding check_namespaces_None by blast
    have "\<exists>ns. readNamespaceFromArgv (map JStr (op_argv params)) = Inr (Some ns)
        \<and> may_auto_edit cfg w ident (''plans:namespace:'' @ ns)
        \<and> (names_once (op_argv params) \<longrightarrow> namespace (parseKubectlArgv (op_argv params)) = Some ns)"
      if st: "st \<in> set (pl_steps p)" "readOpsRunCommandParams st = Some params" for st params
    proof -
      obtain ns where ns: "ns \<in> set (pn_namespaces summary)" "readNamespaceFromArgv (map JStr (op_argv params)) = Inr (Some ns)"
        using extract_sound [OF x(1,2) st] by blast
      have "namespace (parseKubectlArgv (op_argv params)) = Some ns" if "names_once (op_argv params)"
        using named_once_agree [OF that ns(2)] by (simp add: parse_namespace)
      then show ?thesis using ns ok by blast
    qed
    then show ?thesis using p by blast
  qed (use p in blast)
qed

text \<open>
  With a repeated flag the gate looks at another namespace than kubectl: a one-step plan
  whose vector says \<^verbatim>\<open>-n a ... -n b\<close> passes the auto-edit gate for a caller who may auto-edit
  in \<open>a\<close> only, while the policy and kubectl take \<open>b\<close>.
\<close>

theorem repeated_flag_evades_gate:
  assumes "plan_findByIdInOrg (x_db s) (id_orgId ident) i = Some p" "pl_steps p = [st]"
    and "readOpsRunCommandParams st = Some \<lparr>op_argv = [''scale'', ''deploy/web'', ''-n'', a, ''-n'', b], op_connectorId = c\<rparr>"
    and "may_auto_edit cfg w ident (''plans:namespace:'' @ a)" "a \<noteq> ''''"
  shows "auto_edit_gate cfg w ident i s = None
     \<and> namespace (parseKubectlArgv [''scale'', ''deploy/web'', ''-n'', a, ''-n'', b]) = Some b"
proof -
  obtain argv where argv: "map_of (st_paramsJson st) ''argv'' = Some (JArr argv)" "list_all is_JStr argv"
    "map the_JStr argv = [''scale'', ''deploy/web'', ''-n'', a, ''-n'', b]" "st_kind st = ''ops.run_command''"
    using assms(3) by (auto simp: readOpsRunCommandParams_def split: if_splits option.splits json.splits)
  have "map (JStr \<circ> the_JStr) argv = argv"
    using argv(2) by (intro map_idI) (auto simp: list_all_iff elim!: is_JStr.elims)
  then have "argv = map JStr [''scale'', ''deploy/web'', ''-n'', a, ''-n'', b]" using argv(3) by (metis map_map)
  then have "readNamespaceFromArgv argv = Inr (Some a)" using assms(5) by (simp add: js_startsWith_def)
  then have "extractPlanNamespaces p = Inr \<lparr>pn_namespaces = [a], pn_hasClusterScoped = False\<rparr>"
    using assms(2) argv(1,4) by (simp add: extractPlanNamespaces_def)
  moreover have "check_namespaces cfg w (snd (ensurePermissions (w_rbac w) ident)) [a] = None"
    using assms(4) evaluate_again unfolding check_namespaces_None by (simp add: may_auto_edit_def)
  moreover have "namespace (parseKubectlArgv [''scale'', ''deploy/web'', ''-n'', a, ''-n'', b]) = Some b"
    by (simp add: parse_namespace js_startsWith_def)
  ultimately show ?thesis using assms(1) by (simp add: auto_edit_gate_def case_prod_beta ac_evaluate_ident)
qed

section \<open>What a step spawns\<close>

text \<open>
  C34. Every process a plan step starts through the boot wiring passed the kubectl policy in
  write mode for the connector of the plan's organisation, and its vector is the step's; in
  particular none of them touches a protected namespace by a mutating verb.
\<close>

theorem step_spawns_allowed_only:
  assumes "argv \<in> set (snd (boot_run showInt connectors spawn p st params))"
  shows "argv = op_argv params
     \<and> (\<exists>c config. map_of (st_paramsJson st) ''connectorId'' = Some (JStr c) \<and> connectors c (pl_orgId p) = Some config
          \<and> checkKubectl argv Mode_write (connector_namespaces config) = Allow)
     \<and> (\<not> isKubectlRead (parseKubectlArgv argv) \<longrightarrow>
          (\<exists>ns. namespace (parseKubectlArgv argv) = Some ns \<and> ns \<notin> set PERMANENT_DENY_NAMESPACES))"
proof -
  have take: "takeArgv [(''argv'', JArr (map JStr xs))] = Some xs" for xs
    by (simp add: takeArgv_def list_all_iff comp_def)
  obtain opts where o: "adapterFor showInt connectors p st = Inr opts"
    and sp: "argv \<in> set (snd (adapter_execute showInt spawn opts [(''argv'', JArr (map JStr (op_argv params)))]))"
    using assms by (auto simp: boot_run_def split: sum.splits)
  obtain c config where c: "map_of (st_paramsJson st) ''connectorId'' = Some (JStr c)" "connectors c (pl_orgId p) = Some config"
    "opts = boot_options config"
    using o by (auto simp: adapterFor_def Let_def split: option.splits json.splits if_splits)
  have chk: "checkKubectl (op_argv params) Mode_write (connector_namespaces config) = Allow \<and> argv = op_argv params"
    using sp unfolding c(3)
    by (auto simp: adapter_execute_def adapter_validate_def boot_options_def take split: allowlist_decision.splits sum.splits)
  then have "\<not> isKubectlRead (parseKubectlArgv argv) \<longrightarrow>
      (\<exists>ns. namespace (parseKubectlArgv argv) = Some ns \<and> ns \<notin> set PERMANENT_DENY_NAMESPACES)"
    using check_write_Allow [of argv "connector_namespaces config"] unfolding write_target_ok_def by metis
  then show ?thesis using chk c by blast
qed


section \<open>A concrete caller\<close>

text \<open>A caller who may approve the plan and auto-edit in one namespace.\<close>

definition editor_world :: ac_world where
  "editor_world = (let db = approval_db ''plans:approve'' ''plans:uid:plan-1''; w = approval_world '''' '''' in
     w\<lparr>w_rbac := db\<lparr>db_perms := db_perms db @ [(hd (db_perms db))\<lparr>pr_id := ''p2'', pr_action := ''plans:auto_edit'',
        pr_scope := ''plans:namespace:app'', pr_kind := ''plans''\<rparr>]\<rparr>\<rparr>)"

definition repeated_flag_state :: exec_state where
  "repeated_flag_state =
     (case plan_create ''1'' (\<lambda>k. replicate k CHR ''x'') 0
         (demo_plan [demo_step [''scale'', ''deploy/web'', ''-n'', ''app'', ''-n'', ''db'']]) (x_db empty_exec) of
        Inr (p, db) \<Rightarrow> empty_exec\<lparr>x_db := db\<rparr> | Inl e \<Rightarrow> empty_exec)"

theorem auto_edit_within_grants_witness:
  "\<exists>ns. namespace (parseKubectlArgv [''scale'', ''deploy/web'', ''-n'', ''app'']) = Some ns
     \<and> may_auto_edit no_legacy editor_world demo_user (''plans:namespace:'' @ ns)"
proof -
  let ?x = "approve_plan_route demo_env no_legacy editor_world False 5 (Some demo_user) ''plan-1'' (Some (JBool True)) created_state"
  let ?ident = "snd (ensurePermissions (w_rbac editor_world) demo_user)"
  have gate: "permissionGate no_legacy editor_world False (Some demo_user) (Inr (ac_eval A_PlansApprove (OneScope ''plans:uid:plan-1'')))
      = (Gate_next, Some (snd (ensurePermissions (w_rbac editor_world) demo_user)))" by code_simp
  have pass_gate: "auto_edit_gate no_legacy editor_world (snd (ensurePermissions (w_rbac editor_world) demo_user)) ''plan-1'' created_state = None"
    by code_simp
  have no: "\<not> may_auto_edit no_legacy editor_world demo_user ''plans:*''" by code_simp
  have org: "id_orgId demo_user = ''o''" by code_simp
  obtain r q s' where x: "?x = (PR_outcome r q, s')"
  proof -
    obtain fin ss calls where pass: "auto_pass demo_env (approved_plan 5 True ?ident created_plan) (x_tick created_state) []
      (pl_steps created_plan) = (fin, ss, calls)" by (metis prod_cases3)
    obtain r s' where "exec_approve demo_env 5 ''o'' ''plan-1'' True ?ident created_state = (Inr r, s')"
      using auto_approve_run [OF created_ok created_found created_waiting(1) pass] by metis
    then have "?x = (PR_outcome r (plan_findByIdInOrg (x_db s') ''o'' ''plan-1''), s')"
      by (simp add: approve_plan_route_def gated_def gate pass_gate org respond_def)
    then show ?thesis using that by blast
  qed
  have steps: "pl_steps created_plan \<noteq> []" by code_simp
  have params: "readOpsRunCommandParams (hd (pl_steps created_plan)) =
      Some \<lparr>op_argv = [''scale'', ''deploy/web'', ''-n'', ''app''], op_connectorId = ''prod''\<rparr>" by code_simp
  have once: "names_once [''scale'', ''deploy/web'', ''-n'', ''app'']" by code_simp
  have "\<forall>params. readOpsRunCommandParams (hd (pl_steps created_plan)) = Some params \<longrightarrow>
     (\<exists>ns. readNamespaceFromArgv (map JStr (op_argv params)) = Inr (Some ns)
        \<and> may_auto_edit no_legacy editor_world demo_user (''plans:namespace:'' @ ns)
        \<and> (names_once (op_argv params) \<longrightarrow> namespace (parseKubectlArgv (op_argv params)) = Some ns))"
    using auto_edit_within_grants [OF x] no created_found hd_in_set [OF steps] unfolding org by (metis option.inject)
  from this [rule_format, OF params] once show ?thesis by auto
qed

theorem repeated_flag_evades_gate_witness:
  "auto_edit_gate no_legacy editor_world demo_user ''plan-1'' repeated_flag_state = None
   \<and> \<not> may_auto_edit no_legacy editor_world demo_user ''plans:namespace:db''"
proof -
  let ?p = "the (plan_findByIdInOrg (x_db repeated_flag_state) ''o'' ''plan-1'')"
  have "plan_findByIdInOrg (x_db repeated_flag_state) (id_orgId demo_user) ''plan-1'' \<noteq> None" by code_simp
  then have find: "plan_findByIdInOrg (x_db repeated_flag_state) (id_orgId demo_user) ''plan-1'' = Some ?p"
    by (auto simp: demo_user_def)
  have "length (pl_steps ?p) = 1" by code_simp
  then have one: "pl_steps ?p = [hd (pl_steps ?p)]" by (cases "pl_steps ?p") auto
  have params: "readOpsRunCommandParams (hd (pl_steps ?p)) =
      Some \<lparr>op_argv = [''scale'', ''deploy/web'', ''-n'', ''app'', ''-n'', ''db''], op_connectorId = ''prod''\<rparr>" by code_simp
  have may: "may_auto_edit no_legacy editor_world demo_user (''plans:namespace:'' @ ''app'')" by code_simp
  have "\<not> may_auto_edit no_legacy editor_world demo_user ''plans:namespace:db''" by code_simp
  then show ?thesis using repeated_flag_evades_gate [OF find one params may] by simp
qed

theorem step_spawns_allowed_only_witness:
  "\<exists>argv. argv \<in> set (snd (boot_run (\<lambda>n. ''n'') (\<lambda>c org. Some []) (\<lambda>argv. Inr \<lparr>rr_stdout = ''ok'', rr_stderr = '''', rr_exitCode = 0, rr_timedOut = False\<rparr>)
       created_plan (hd (pl_steps created_plan)) (the (readOpsRunCommandParams (hd (pl_steps created_plan))))))
     \<and> namespace (parseKubectlArgv argv) = Some ''app''"
proof -
  let ?argv = "[''scale'', ''deploy/web'', ''-n'', ''app'']"
  have in_spawned: "?argv \<in> set (snd (boot_run (\<lambda>n. ''n'') (\<lambda>c org. Some [])
      (\<lambda>argv. Inr \<lparr>rr_stdout = ''ok'', rr_stderr = '''', rr_exitCode = 0, rr_timedOut = False\<rparr>)
      created_plan (hd (pl_steps created_plan)) (the (readOpsRunCommandParams (hd (pl_steps created_plan))))))"
    by code_simp
  have "\<not> isKubectlRead (parseKubectlArgv ?argv)" "namespace (parseKubectlArgv ?argv) = Some ''app''" by code_simp+
  then show ?thesis using step_spawns_allowed_only [OF in_spawned] in_spawned by blast
qed

end
