(* ===== verification/Sessions.thy ===== *)
theory Sessions
  imports Rounds_Prelude
begin

text \<open>
  Cookie sessions: the repository of \<^verbatim>\<open>user_auth_token\<close> rows
  (\<^verbatim>\<open>data-layer/src/repository/auth/user-auth-token-repository.ts\<close>) and the service over it
  (\<^verbatim>\<open>api-gateway/src/auth/session-service.ts\<close>).  A row keeps the hash of the current token and
  of the one before it; the hash function and the random part of a token are parameters.  Times
  are milliseconds, and the repository reads the same clock as the service.
\<close>

section \<open>The token repository\<close>

record auth_token =
  at_id :: string
  at_userId :: string
  at_authToken :: string
  at_prevAuthToken :: string
  at_userAgent :: string
  at_clientIp :: string
  at_authTokenSeen :: bool
  at_seenAt :: "int option"
  at_rotatedAt :: int
  at_createdAt :: int
  at_updatedAt :: int
  at_revokedAt :: "int option"

record new_auth_token =
  nt_id :: "string option"
  nt_userId :: string
  nt_authToken :: string
  nt_prevAuthToken :: "string option"
  nt_userAgent :: string
  nt_clientIp :: string
  nt_authTokenSeen :: bool
  nt_seenAt :: "int option"
  nt_rotatedAt :: "int option"
  nt_createdAt :: "int option"
  nt_updatedAt :: "int option"

definition token_findById :: "auth_token list \<Rightarrow> string \<Rightarrow> auth_token option" where
  "token_findById t i = List.find (\<lambda>r. at_id r = i) t"

definition new_token_row :: "string \<Rightarrow> int \<Rightarrow> new_auth_token \<Rightarrow> auth_token" where
  "new_token_row i now input =
     (let createdAt = coalesce (nt_createdAt input) now
      in \<lparr>at_id = i, at_userId = nt_userId input, at_authToken = nt_authToken input,
          at_prevAuthToken = coalesce (nt_prevAuthToken input) '''', at_userAgent = nt_userAgent input,
          at_clientIp = nt_clientIp input, at_authTokenSeen = nt_authTokenSeen input, at_seenAt = nt_seenAt input,
          at_rotatedAt = coalesce (nt_rotatedAt input) createdAt, at_createdAt = createdAt,
          at_updatedAt = coalesce (nt_updatedAt input) now, at_revokedAt = None\<rparr>)"

text \<open>The insertion fails on a known identifier or token hash, and for an unknown user.\<close>

definition token_create ::
  "string list \<Rightarrow> string \<Rightarrow> int \<Rightarrow> new_auth_token \<Rightarrow> auth_token list \<Rightarrow> (auth_token \<times> auth_token list) result" where
  "token_create users fresh now input t =
     (let i = coalesce (nt_id input) fresh; row = new_token_row i now input
      in if list_ex (\<lambda>r. at_id r = i \<or> at_authToken r = nt_authToken input) t then Inl ''UNIQUE constraint failed''
         else if nt_userId input \<notin> set users then Inl ''FOREIGN KEY constraint failed''
         else (case token_findById (t @ [row]) i of
                 None \<Rightarrow> Inl (''[UserAuthTokenRepository] create failed for id='' @ i)
               | Some saved \<Rightarrow> Inr (saved, t @ [row])))"

definition token_findByHashedToken :: "auth_token list \<Rightarrow> string \<Rightarrow> auth_token option" where
  "token_findByHashedToken t hashed =
     List.find (\<lambda>r. at_revokedAt r = None \<and> (at_authToken r = hashed \<or> at_prevAuthToken r = hashed)) t"

definition token_listByUser :: "auth_token list \<Rightarrow> string \<Rightarrow> bool \<Rightarrow> auth_token list" where
  "token_listByUser t userId includeRevoked =
     sort_key (\<lambda>r. - at_createdAt r)
       (filter (\<lambda>r. at_userId r = userId \<and> (includeRevoked \<or> at_revokedAt r = None)) t)"

text \<open>The hash of the new token must be new to the table.\<close>

definition token_rotate ::
  "int \<Rightarrow> string \<Rightarrow> string \<Rightarrow> int \<Rightarrow> auth_token list \<Rightarrow> (auth_token option \<times> auth_token list) result" where
  "token_rotate now i newHashed rotatedAt t =
     (case token_findById t i of
        None \<Rightarrow> Inr (None, t)
      | Some existing \<Rightarrow>
          if at_revokedAt existing \<noteq> None then Inr (None, t)
          else if list_ex (\<lambda>r. at_id r \<noteq> i \<and> at_authToken r = newHashed) t then Inl ''UNIQUE constraint failed''
          else (let t' = upd_where (\<lambda>r. at_id r = i) (\<lambda>r. r\<lparr>at_prevAuthToken := at_authToken r,
                      at_authToken := newHashed, at_rotatedAt := rotatedAt, at_updatedAt := now\<rparr>) t
                in Inr (token_findById t' i, t')))"

definition token_markSeen :: "int \<Rightarrow> string \<Rightarrow> int \<Rightarrow> auth_token list \<Rightarrow> auth_token list" where
  "token_markSeen now i seenAt t =
     upd_where (\<lambda>r. at_id r = i) (\<lambda>r. r\<lparr>at_authTokenSeen := True, at_seenAt := Some seenAt, at_updatedAt := now\<rparr>) t"

definition token_revoke :: "int \<Rightarrow> string \<Rightarrow> int \<Rightarrow> auth_token list \<Rightarrow> auth_token list" where
  "token_revoke now i revokedAt t =
     upd_where (\<lambda>r. at_id r = i) (\<lambda>r. r\<lparr>at_revokedAt := Some revokedAt, at_updatedAt := now\<rparr>) t"

definition token_revokeAllForUser :: "int \<Rightarrow> string \<Rightarrow> int \<Rightarrow> auth_token list \<Rightarrow> nat \<times> auth_token list" where
  "token_revokeAllForUser now userId revokedAt t =
     (length (filter (\<lambda>r. at_userId r = userId \<and> at_revokedAt r = None) t),
      upd_where (\<lambda>r. at_userId r = userId \<and> at_revokedAt r = None)
        (\<lambda>r. r\<lparr>at_revokedAt := Some revokedAt, at_updatedAt := now\<rparr>) t)"

definition token_deleteExpired :: "int \<Rightarrow> auth_token list \<Rightarrow> nat \<times> auth_token list" where
  "token_deleteExpired before t =
     (length (filter (\<lambda>r. at_createdAt r < before) t), del_where (\<lambda>r. at_createdAt r < before) t)"

section \<open>The session service\<close>

record session_options =
  so_maxLifetimeMs :: int
  so_idleTimeoutMs :: int
  so_rotationIntervalMs :: int
  so_rotationGraceMs :: int

definition DEFAULT_SESSION_OPTIONS :: session_options where
  "DEFAULT_SESSION_OPTIONS = \<lparr>so_maxLifetimeMs = 30 * 24 * 60 * 60 * 1000, so_idleTimeoutMs = 7 * 24 * 60 * 60 * 1000,
     so_rotationIntervalMs = 10 * 60 * 1000, so_rotationGraceMs = 30 * 1000\<rparr>"

definition SESSION_TOKEN_PREFIX :: string where
  "SESSION_TOKEN_PREFIX = ''openobs_s_''"

definition generateSessionToken :: "string \<Rightarrow> string" where
  "generateSessionToken random = SESSION_TOKEN_PREFIX @ random"

definition session_create ::
  "(string \<Rightarrow> string) \<Rightarrow> string list \<Rightarrow> string \<Rightarrow> string \<Rightarrow> int \<Rightarrow> string \<Rightarrow> string \<Rightarrow> string \<Rightarrow> auth_token list \<Rightarrow>
     ((string \<times> auth_token) \<times> auth_token list) result" where
  "session_create sha users fresh random now userId userAgent clientIp t =
     (let token = generateSessionToken random
      in res_bind (token_create users fresh now
           \<lparr>nt_id = None, nt_userId = userId, nt_authToken = sha token, nt_prevAuthToken = Some '''',
            nt_userAgent = userAgent, nt_clientIp = clientIp, nt_authTokenSeen = False, nt_seenAt = None,
            nt_rotatedAt = Some now, nt_createdAt = Some now, nt_updatedAt = Some now\<rparr> t)
         (\<lambda>(row, t'). Inr ((token, row), t')))"

definition lookupByToken ::
  "(string \<Rightarrow> string) \<Rightarrow> session_options \<Rightarrow> int \<Rightarrow> string \<Rightarrow> auth_token list \<Rightarrow> auth_token option" where
  "lookupByToken sha opts now rawToken t =
     (if rawToken = '''' then None
      else (case token_findByHashedToken t (sha rawToken) of
        None \<Rightarrow> None
      | Some row \<Rightarrow>
          if at_revokedAt row \<noteq> None then None
          else if now - at_createdAt row > so_maxLifetimeMs opts then None
          else (let lastTouched = max (at_updatedAt row) (max (at_rotatedAt row) (at_createdAt row))
                in if lastTouched > 0 \<and> now - lastTouched > so_idleTimeoutMs opts then None
                   else if at_prevAuthToken row \<noteq> '''' \<and> at_prevAuthToken row = sha rawToken
                           \<and> now - at_rotatedAt row > so_rotationGraceMs opts then None
                   else Some row)))"

definition shouldRotate :: "session_options \<Rightarrow> int \<Rightarrow> auth_token \<Rightarrow> bool" where
  "shouldRotate opts now row \<longleftrightarrow> now - at_rotatedAt row \<ge> so_rotationIntervalMs opts"

definition session_rotate ::
  "(string \<Rightarrow> string) \<Rightarrow> string \<Rightarrow> int \<Rightarrow> string \<Rightarrow> auth_token list \<Rightarrow> ((string \<times> auth_token) option \<times> auth_token list) result" where
  "session_rotate sha random now i t =
     (let newToken = generateSessionToken random
      in res_bind (token_rotate now i (sha newToken) now t)
           (\<lambda>(row, t'). Inr (map_option (\<lambda>r. (newToken, r)) row, t')))"

definition session_markSeen :: "int \<Rightarrow> string \<Rightarrow> auth_token list \<Rightarrow> auth_token list" where
  "session_markSeen now i t = token_markSeen now i now t"

definition session_revoke :: "int \<Rightarrow> string \<Rightarrow> auth_token list \<Rightarrow> auth_token list" where
  "session_revoke now i t = token_revoke now i now t"

definition session_revokeAllForUser :: "int \<Rightarrow> string \<Rightarrow> auth_token list \<Rightarrow> nat \<times> auth_token list" where
  "session_revokeAllForUser now userId t = token_revokeAllForUser now userId now t"

definition pruneExpired :: "session_options \<Rightarrow> int \<Rightarrow> auth_token list \<Rightarrow> nat \<times> auth_token list" where
  "pruneExpired opts now t = token_deleteExpired (now - so_maxLifetimeMs opts) t"

section \<open>Cookies\<close>

definition SESSION_COOKIE_NAME :: string where
  "SESSION_COOKIE_NAME = ''openobs_session''"

definition buildSessionCookie :: "(int \<Rightarrow> string) \<Rightarrow> string \<Rightarrow> int \<Rightarrow> bool option \<Rightarrow> string option \<Rightarrow> string" where
  "buildSessionCookie showInt token maxAgeSec secure name =
     join_with ''; '' ([coalesce name SESSION_COOKIE_NAME @ ''='' @ token, ''HttpOnly'', ''SameSite=Lax'', ''Path=/'',
        ''Max-Age='' @ showInt maxAgeSec] @ (if secure \<noteq> Some False then [''Secure''] else []))"

definition buildClearedSessionCookie :: "bool option \<Rightarrow> string option \<Rightarrow> string" where
  "buildClearedSessionCookie secure name =
     join_with ''; '' ([coalesce name SESSION_COOKIE_NAME @ ''='', ''HttpOnly'', ''SameSite=Lax'', ''Path=/'', ''Max-Age=0'']
        @ (if secure \<noteq> Some False then [''Secure''] else []))"


section \<open>Sessions over time\<close>

text \<open>
  The state of the server as far as sessions go, with the log of the tokens it handed out: session,
  user and token, oldest first.  A new session gets an identifier that was never used, and the
  random part of a token never repeats; the clock does not go back.
\<close>

record session_state =
  ss_tokens :: "auth_token list"
  ss_now :: int
  ss_issued :: "(string \<times> string \<times> string) list"

definition issued_tokens :: "session_state \<Rightarrow> string set" where
  "issued_tokens s = (\<lambda>(i, u, tok). tok) ` set (ss_issued s)"

definition issued_for :: "session_state \<Rightarrow> string \<Rightarrow> string list" where
  "issued_for s i = map (\<lambda>(i, u, tok). tok) (filter (\<lambda>(j, u, tok). j = i) (ss_issued s))"

inductive session_event :: "(string \<Rightarrow> string) \<Rightarrow> session_options \<Rightarrow> session_state \<Rightarrow> session_state \<Rightarrow> bool"
  for sha opts where
  create: "ss_now s \<le> now \<Longrightarrow> fresh \<notin> fst ` set (ss_issued s) \<Longrightarrow> generateSessionToken random \<notin> issued_tokens s \<Longrightarrow>
     session_create sha users fresh random now userId userAgent clientIp (ss_tokens s) = Inr ((tok, row), t') \<Longrightarrow>
     session_event sha opts s \<lparr>ss_tokens = t', ss_now = now, ss_issued = ss_issued s @ [(at_id row, userId, tok)]\<rparr>"
| rotate: "ss_now s \<le> now \<Longrightarrow> generateSessionToken random \<notin> issued_tokens s \<Longrightarrow>
     session_rotate sha random now i (ss_tokens s) = Inr (Some (tok, row), t') \<Longrightarrow>
     session_event sha opts s \<lparr>ss_tokens = t', ss_now = now, ss_issued = ss_issued s @ [(i, at_userId row, tok)]\<rparr>"
| seen: "ss_now s \<le> now \<Longrightarrow> session_event sha opts s (s\<lparr>ss_tokens := session_markSeen now i (ss_tokens s), ss_now := now\<rparr>)"
| revoke: "ss_now s \<le> now \<Longrightarrow> session_event sha opts s (s\<lparr>ss_tokens := session_revoke now i (ss_tokens s), ss_now := now\<rparr>)"
| revoke_all: "ss_now s \<le> now \<Longrightarrow>
     session_event sha opts s (s\<lparr>ss_tokens := snd (session_revokeAllForUser now userId (ss_tokens s)), ss_now := now\<rparr>)"
| prune: "ss_now s \<le> now \<Longrightarrow> session_event sha opts s (s\<lparr>ss_tokens := snd (pruneExpired opts now (ss_tokens s)), ss_now := now\<rparr>)"

inductive_cases session_eventE: "session_event sha opts s s'"

definition row_inv :: "(string \<Rightarrow> string) \<Rightarrow> session_state \<Rightarrow> auth_token \<Rightarrow> bool" where
  "row_inv sha s r \<longleftrightarrow> (\<exists>ts. issued_for s (at_id r) = ts \<and> ts \<noteq> [] \<and> at_authToken r = sha (last ts)
     \<and> at_prevAuthToken r = (if butlast ts = [] then '''' else sha (last (butlast ts))))
     \<and> (\<forall>(i, u, tok)\<in>set (ss_issued s). i = at_id r \<longrightarrow> u = at_userId r)"

definition sessions_inv :: "(string \<Rightarrow> string) \<Rightarrow> session_state \<Rightarrow> bool" where
  "sessions_inv sha s \<longleftrightarrow> distinct (map at_id (ss_tokens s)) \<and> distinct (map (\<lambda>(i, u, tok). tok) (ss_issued s))
     \<and> '''' \<notin> issued_tokens s \<and> (\<forall>r\<in>set (ss_tokens s). row_inv sha s r)"

lemma issued_for_snoc:
  "issued_for (s\<lparr>ss_tokens := t, ss_now := n, ss_issued := ss_issued s @ [(j, u, tok)]\<rparr>) i =
     issued_for s i @ (if j = i then [tok] else [])"
  by (simp add: issued_for_def)

lemma token_nonempty: "generateSessionToken random \<noteq> ''''"
  by (simp add: generateSessionToken_def SESSION_TOKEN_PREFIX_def)

text \<open>An update of the rows that leaves keys, users and hashes alone keeps the invariant.\<close>

lemma inv_update:
  assumes "sessions_inv sha s" "\<And>r. at_id (f r) = at_id r \<and> at_userId (f r) = at_userId r
      \<and> at_authToken (f r) = at_authToken r \<and> at_prevAuthToken (f r) = at_prevAuthToken r"
  shows "sessions_inv sha (s\<lparr>ss_tokens := upd_where P f (ss_tokens s), ss_now := now\<rparr>)"
proof -
  have "row_inv sha (s\<lparr>ss_tokens := t, ss_now := now\<rparr>) (f r) \<longleftrightarrow> row_inv sha s r"
    and "row_inv sha (s\<lparr>ss_tokens := t, ss_now := now\<rparr>) r \<longleftrightarrow> row_inv sha s r" for t r
    using assms(2) by (simp_all add: row_inv_def issued_for_def)
  then show ?thesis
    using assms by (auto simp: sessions_inv_def issued_tokens_def set_upd_where map_upd_where_key)
qed

lemma inv_delete: "sessions_inv sha s \<Longrightarrow> sessions_inv sha (s\<lparr>ss_tokens := del_where P (ss_tokens s), ss_now := now\<rparr>)"
  by (auto simp: sessions_inv_def issued_tokens_def row_inv_def issued_for_def distinct_del_where)

lemma issued_for_Nil: "i \<notin> fst ` set (ss_issued s) \<Longrightarrow> issued_for s i = []"
  by (force simp: issued_for_def filter_empty_conv)

lemma issued_for_mem: "tok \<in> set (issued_for s i) \<longleftrightarrow> (\<exists>u. (i, u, tok) \<in> set (ss_issued s))"
  by (auto simp: issued_for_def image_iff)

lemma session_create_Inr:
  assumes "session_create sha users fresh random now userId userAgent clientIp t = Inr ((tok, row), t')"
  obtains new where "t' = t @ [new]" "at_id new = fresh" "at_userId new = userId" "at_authToken new = sha tok"
    "at_prevAuthToken new = ''''" "tok = generateSessionToken random" "fresh \<notin> at_id ` set t"
    "token_findById t' fresh = Some row"
proof -
  let ?input = "\<lparr>nt_id = None, nt_userId = userId, nt_authToken = sha (generateSessionToken random), nt_prevAuthToken = Some '''',
       nt_userAgent = userAgent, nt_clientIp = clientIp, nt_authTokenSeen = False, nt_seenAt = None,
       nt_rotatedAt = Some now, nt_createdAt = Some now, nt_updatedAt = Some now\<rparr>"
  have c: "token_create users fresh now ?input t = Inr (row, t')" and tok: "tok = generateSessionToken random"
    using assms by (auto simp: session_create_def Let_def)
  then have "\<not> list_ex (\<lambda>r. at_id r = fresh \<or> at_authToken r = sha tok) t"
    and "token_findById (t @ [new_token_row fresh now ?input]) fresh = Some row" "t' = t @ [new_token_row fresh now ?input]"
    by (simp_all add: token_create_def Let_def split: if_splits option.splits)
  then show ?thesis
    using tok by (intro that [of "new_token_row fresh now ?input"]) (auto simp: new_token_row_def list_ex_iff)
qed

lemma inv_create:
  assumes "sessions_inv sha s" "fresh \<notin> fst ` set (ss_issued s)" "generateSessionToken random \<notin> issued_tokens s"
    and "session_create sha users fresh random now userId userAgent clientIp (ss_tokens s) = Inr ((tok, row), t')"
  shows "sessions_inv sha \<lparr>ss_tokens = t', ss_now = now, ss_issued = ss_issued s @ [(at_id row, userId, tok)]\<rparr>"
proof -
  obtain new where row: "t' = ss_tokens s @ [new]" "at_id new = fresh" "at_userId new = userId" "at_authToken new = sha tok"
    "at_prevAuthToken new = ''''" and tok: "tok = generateSessionToken random" and uniq: "fresh \<notin> at_id ` set (ss_tokens s)"
    and find: "token_findById t' fresh = Some row"
    using session_create_Inr [OF assms(4)] by metis
  have "at_id row = fresh" using find_Some_set [OF find [unfolded token_findById_def]] by simp
  let ?s = "\<lparr>ss_tokens = t', ss_now = now, ss_issued = ss_issued s @ [(fresh, userId, tok)]\<rparr>"
  have "row_inv sha ?s r" if "r \<in> set (ss_tokens s)" for r
  proof -
    have "at_id r \<noteq> fresh" using uniq that by auto
    then show ?thesis using assms(1) that by (auto simp: sessions_inv_def row_inv_def issued_for_def)
  qed
  moreover have "row_inv sha ?s new"
    using issued_for_Nil [OF assms(2)] assms(2) row by (auto simp: row_inv_def issued_for_def rev_image_eqI)
  moreover have "distinct (map at_id t')" using assms(1) uniq row by (auto simp: sessions_inv_def)
  moreover have "distinct (map (\<lambda>(i, u, tok). tok) (ss_issued ?s))" "'''' \<notin> issued_tokens ?s"
    using assms(1,3) tok token_nonempty [of random] by (auto simp: sessions_inv_def issued_tokens_def)
  ultimately show ?thesis using row(1) \<open>at_id row = fresh\<close> by (auto simp: sessions_inv_def)
qed

lemma inv_rotate:
  assumes "sessions_inv sha s" "generateSessionToken random \<notin> issued_tokens s"
    and "session_rotate sha random now i (ss_tokens s) = Inr (Some (tok, row), t')"
  shows "sessions_inv sha \<lparr>ss_tokens = t', ss_now = now, ss_issued = ss_issued s @ [(i, at_userId row, tok)]\<rparr>"
proof -
  let ?f = "\<lambda>r. r\<lparr>at_prevAuthToken := at_authToken r, at_authToken := sha tok, at_rotatedAt := now, at_updatedAt := now\<rparr>"
  have t': "t' = upd_where (\<lambda>r. at_id r = i) ?f (ss_tokens s)" and tok: "tok = generateSessionToken random"
    and find: "token_findById t' i = Some row"
    using assms(3) by (auto simp: session_rotate_def token_rotate_def Let_def split: option.splits if_splits)
  have rowin: "row \<in> set t'" "at_id row = i" using find_Some_set [OF find [unfolded token_findById_def]] by auto
  have ids: "map at_id t' = map at_id (ss_tokens s)" unfolding t' by (rule map_upd_where_key) simp
  let ?s = "\<lparr>ss_tokens = t', ss_now = now, ss_issued = ss_issued s @ [(i, at_userId row, tok)]\<rparr>"
  have inv: "row_inv sha s r" if "r \<in> set (ss_tokens s)" for r using assms(1) that by (simp add: sessions_inv_def)
  have "row_inv sha ?s r'" if r': "r' \<in> set t'" for r'
  proof -
    obtain r where r: "r \<in> set (ss_tokens s)" "r' = (if at_id r = i then ?f r else r)"
      using r' unfolding t' by (auto simp: set_upd_where)
    have same: "at_userId r' = at_userId row" if "at_id r' = i"
      using that r' rowin assms(1) ids by (metis distinct_map inj_onD sessions_inv_def)
    have "at_id r' = at_id r" "at_userId r' = at_userId r" by (simp_all add: r(2))
    then show ?thesis
      using inv [OF r(1)] same unfolding r(2) by (auto simp: row_inv_def issued_for_def)
  qed
  moreover have "distinct (map (\<lambda>(i, u, tok). tok) (ss_issued ?s))" "'''' \<notin> issued_tokens ?s"
    using assms(1,2) tok token_nonempty [of random] by (auto simp: sessions_inv_def issued_tokens_def)
  moreover have "distinct (map at_id t')" using assms(1) ids by (simp add: sessions_inv_def)
  ultimately show ?thesis by (auto simp: sessions_inv_def)
qed

definition no_sessions :: session_state where
  "no_sessions = \<lparr>ss_tokens = [], ss_now = 0, ss_issued = []\<rparr>"

lemma sessions_step_inv: "session_event sha opts s s' \<Longrightarrow> sessions_inv sha s \<Longrightarrow> sessions_inv sha s'"
proof (induction rule: session_event.induct)
  case (prune s now)
  then show ?case by (simp add: pruneExpired_def token_deleteExpired_def inv_delete)
qed (auto intro: inv_create inv_rotate simp: inv_update session_markSeen_def token_markSeen_def session_revoke_def token_revoke_def
      session_revokeAllForUser_def token_revokeAllForUser_def)

interpretation sessions: invariant_system "\<lambda>s. s = no_sessions" "session_event sha opts" "sessions_inv sha" for sha opts
  by unfold_locales (simp add: sessions_inv_def no_sessions_def issued_tokens_def, rule sessions_step_inv)


section \<open>Who gets in\<close>

definition session_live :: "session_options \<Rightarrow> int \<Rightarrow> auth_token \<Rightarrow> bool" where
  "session_live opts now r \<longleftrightarrow> at_revokedAt r = None \<and> now - at_createdAt r \<le> so_maxLifetimeMs opts
     \<and> (let lastTouched = max (at_updatedAt r) (max (at_rotatedAt r) (at_createdAt r))
        in lastTouched \<le> 0 \<or> now - lastTouched \<le> so_idleTimeoutMs opts)"

definition token_admits :: "session_options \<Rightarrow> int \<Rightarrow> string list \<Rightarrow> string \<Rightarrow> auth_token \<Rightarrow> bool" where
  "token_admits opts now ts tok r \<longleftrightarrow> ts \<noteq> [] \<and> (tok = last ts
     \<or> butlast ts \<noteq> [] \<and> tok = last (butlast ts) \<and> now - at_rotatedAt r \<le> so_rotationGraceMs opts)"

lemma token_admits_mem: "token_admits opts now ts tok r \<Longrightarrow> tok \<in> set ts"
  using in_set_butlastD last_in_set unfolding token_admits_def by metis

text \<open>Where hashes do not collide, a row matches the hash of a token that was issued for its session.\<close>

lemma row_matches:
  assumes "sessions_inv sha s" "inj_on sha (insert tok (issued_tokens s))" "\<forall>x. sha x \<noteq> ''''" "r \<in> set (ss_tokens s)"
  shows "at_authToken r = sha tok \<longleftrightarrow> tok = last (issued_for s (at_id r))"
    and "at_prevAuthToken r = sha tok \<longleftrightarrow>
       butlast (issued_for s (at_id r)) \<noteq> [] \<and> tok = last (butlast (issued_for s (at_id r)))"
proof -
  let ?ts = "issued_for s (at_id r)"
  have inv: "?ts \<noteq> []" "at_authToken r = sha (last ?ts)"
    "at_prevAuthToken r = (if butlast ?ts = [] then '''' else sha (last (butlast ?ts)))"
    using assms(1,4) by (auto simp: sessions_inv_def row_inv_def)
  have sub: "set ?ts \<subseteq> issued_tokens s" by (force simp: issued_for_def issued_tokens_def)
  have eq: "sha x = sha tok \<longleftrightarrow> tok = x" if "x \<in> issued_tokens s" for x
    using inj_onD [OF assms(2), of x tok] that by auto
  have "last ?ts \<in> issued_tokens s" using sub inv(1) last_in_set by blast
  then show "at_authToken r = sha tok \<longleftrightarrow> tok = last ?ts" using inv(2) eq by simp
  have "last (butlast ?ts) \<in> issued_tokens s" if "butlast ?ts \<noteq> []"
    using sub last_in_set [OF that] in_set_butlastD by fast
  then show "at_prevAuthToken r = sha tok \<longleftrightarrow> butlast ?ts \<noteq> [] \<and> tok = last (butlast ?ts)"
    using assms(3) inv(3) eq by metis
qed

text \<open>A token identifies its session.\<close>

lemma issued_once:
  assumes "sessions_inv sha s" "tok \<in> set (issued_for s i)" "tok \<in> set (issued_for s j)"
  shows "i = j"
proof -
  obtain u v where "(i, u, tok) \<in> set (ss_issued s)" "(j, v, tok) \<in> set (ss_issued s)"
    using assms(2,3) by (auto simp: issued_for_mem)
  moreover have inj: "inj_on (\<lambda>(i, u, tok). tok) (set (ss_issued s))"
    using assms(1) by (simp add: sessions_inv_def distinct_map)
  ultimately show ?thesis using inj_onD [OF inj, of "(i, u, tok)" "(j, v, tok)"] by simp
qed

lemma last_two_distinct:
  assumes "sessions_inv sha s" "butlast (issued_for s i) \<noteq> []"
  shows "last (butlast (issued_for s i)) \<noteq> last (issued_for s i)"
proof -
  have "distinct (issued_for s i)"
    using assms(1) unfolding sessions_inv_def issued_for_def by (simp add: distinct_map_filter)
  then show ?thesis using assms(2) by (metis append_butlast_last_id butlast.simps(1) distinct_append last_in_set disjoint_iff list.set_intros(1))
qed

lemma lookup_exact:
  assumes inv: "sessions_inv sha s" and inj: "inj_on sha (insert tok (issued_tokens s))" and ne: "\<forall>x. sha x \<noteq> ''''"
  shows "lookupByToken sha opts now tok (ss_tokens s) = Some r \<longleftrightarrow>
     r \<in> set (ss_tokens s) \<and> session_live opts now r \<and> token_admits opts now (issued_for s (at_id r)) tok r"
proof -
  let ?match = "\<lambda>r. at_revokedAt r = None \<and> (at_authToken r = sha tok \<or> at_prevAuthToken r = sha tok)"
  note m = row_matches [OF inv inj ne]
  have issued: "tok \<in> set (issued_for s (at_id r))" if "r \<in> set (ss_tokens s)" "?match r" for r
    using that m [OF that(1)] inv last_in_set in_set_butlastD unfolding sessions_inv_def row_inv_def by metis
  have found: "token_findByHashedToken (ss_tokens s) (sha tok) = Some r \<longleftrightarrow> r \<in> set (ss_tokens s) \<and> ?match r" for r
  proof
    assume r: "r \<in> set (ss_tokens s) \<and> ?match r"
    obtain x where x: "List.find ?match (ss_tokens s) = Some x"
      using r by (cases "List.find ?match (ss_tokens s)") (auto simp: find_None_set)
    have xm: "x \<in> set (ss_tokens s)" "?match x" using find_Some_set [OF x] by auto
    have "at_id x = at_id r" using issued [OF xm] issued [of r] r issued_once [OF inv] by blast
    then have "x = r" using inv xm(1) r unfolding sessions_inv_def distinct_map by (meson inj_onD)
    then show "token_findByHashedToken (ss_tokens s) (sha tok) = Some r" using x by (simp add: token_findByHashedToken_def)
  qed (auto simp: token_findByHashedToken_def dest!: find_Some_set)
  have nonempty: "tok \<noteq> ''''" if "r \<in> set (ss_tokens s)" "tok \<in> set (issued_for s (at_id r))" for r
  proof -
    have "tok \<in> issued_tokens s" using that(2) by (force simp: issued_for_def issued_tokens_def)
    then show ?thesis using inv by (auto simp: sessions_inv_def)
  qed
  have cur: "at_authToken r = sha tok \<Longrightarrow> at_prevAuthToken r \<noteq> sha tok" if "r \<in> set (ss_tokens s)" for r
    using m [OF that] last_two_distinct [OF inv] by metis
  show ?thesis
  proof (cases "r \<in> set (ss_tokens s) \<and> ?match r")
    case True
    then have "lookupByToken sha opts now tok (ss_tokens s) = Some r \<longleftrightarrow>
        session_live opts now r \<and> \<not> (at_prevAuthToken r = sha tok \<and> now - at_rotatedAt r > so_rotationGraceMs opts)"
      using found [of r] nonempty [of r] issued [of r] ne
      by (auto simp: lookupByToken_def session_live_def Let_def)
    also have "\<dots> \<longleftrightarrow> session_live opts now r \<and> token_admits opts now (issued_for s (at_id r)) tok r"
      using True m [of r] cur [of r] inv unfolding token_admits_def sessions_inv_def row_inv_def by (metis linorder_not_less)
    finally show ?thesis using True by blast
  next
    case False
    then have "lookupByToken sha opts now tok (ss_tokens s) \<noteq> Some r"
      using found by (auto simp: lookupByToken_def Let_def split: option.splits if_splits)
    moreover have "\<not> (r \<in> set (ss_tokens s) \<and> session_live opts now r \<and> token_admits opts now (issued_for s (at_id r)) tok r)"
      using False m [of r] unfolding token_admits_def session_live_def by blast
    ultimately show ?thesis by blast
  qed
qed

text \<open>
  C13. Exactly the right token opens a session: in every state the server reaches, a token is
  accepted for a row if and only if the row is there, not revoked, not too old and not idle, and
  the token is the last one issued for that session, or the one before it within the grace time
  after the rotation, provided hashes do not collide on the tokens in question.
\<close>

theorem session_lookup_exact:
  assumes "(session_event sha opts)\<^sup>*\<^sup>* no_sessions s" "inj_on sha (insert tok (issued_tokens s))" "\<forall>x. sha x \<noteq> ''''"
  shows "lookupByToken sha opts now tok (ss_tokens s) = Some r \<longleftrightarrow>
     r \<in> set (ss_tokens s) \<and> session_live opts now r \<and> token_admits opts now (issued_for s (at_id r)) tok r"
  using lookup_exact [OF sessions.reachable_inv [OF refl assms(1)] assms(2,3)] .

section \<open>Revocation is final\<close>

definition locked_out :: "string \<Rightarrow> session_state \<Rightarrow> bool" where
  "locked_out i s \<longleftrightarrow> i \<in> fst ` set (ss_issued s) \<and> (\<forall>r\<in>set (ss_tokens s). at_id r = i \<longrightarrow> at_revokedAt r \<noteq> None)"

lemma locked_out_step: "session_event sha opts s s' \<Longrightarrow> locked_out i s \<Longrightarrow> locked_out i s'"
proof (induction rule: session_event.induct)
  case (create s now fresh random users userId userAgent clientIp tok row t')
  obtain new where "t' = ss_tokens s @ [new]" "at_id new = fresh" using session_create_Inr [OF create(4)] by metis
  then show ?case using create by (auto simp: locked_out_def)
next
  case (rotate s now random j tok row t')
  have "j \<noteq> i"
    using rotate(3,4) find_Some_set
    by (fastforce simp: locked_out_def session_rotate_def token_rotate_def token_findById_def Let_def split: option.splits if_splits)
  moreover have "t' = upd_where (\<lambda>r. at_id r = j) (\<lambda>r. r\<lparr>at_prevAuthToken := at_authToken r,
      at_authToken := sha tok, at_rotatedAt := now, at_updatedAt := now\<rparr>) (ss_tokens s)"
    using rotate(3) by (auto simp: session_rotate_def token_rotate_def Let_def split: option.splits if_splits)
  ultimately show ?case using rotate(4) by (auto simp: locked_out_def set_upd_where)
qed (auto simp: locked_out_def set_upd_where session_markSeen_def token_markSeen_def session_revoke_def token_revoke_def
      session_revokeAllForUser_def token_revokeAllForUser_def pruneExpired_def token_deleteExpired_def)

lemma issued_grow: "session_event sha opts s s' \<Longrightarrow> set (ss_issued s) \<subseteq> set (ss_issued s')"
  by (induction rule: session_event.induct) auto

text \<open>
  C35. Revoking a session is final: whatever happens afterwards (rotations, activity, new sessions),
  no token that was ever issued for the revoked session is accepted again.
\<close>

theorem revoked_session_stays_out:
  assumes "(session_event sha opts)\<^sup>*\<^sup>* no_sessions s" "tok \<in> set (issued_for s i)"
    and "(session_event sha opts)\<^sup>*\<^sup>* (s\<lparr>ss_tokens := session_revoke now i (ss_tokens s), ss_now := now\<rparr>) s'" "ss_now s \<le> now"
    and "inj_on sha (issued_tokens s')" "\<forall>x. sha x \<noteq> ''''"
  shows "lookupByToken sha opts later tok (ss_tokens s') = None"
proof -
  let ?s = "s\<lparr>ss_tokens := session_revoke now i (ss_tokens s), ss_now := now\<rparr>"
  have reach: "(session_event sha opts)\<^sup>*\<^sup>* no_sessions s'"
    using rtranclp_trans [OF rtranclp.rtrancl_into_rtrancl [OF assms(1) session_event.revoke [OF assms(4)]] assms(3)] .
  have inv: "sessions_inv sha s'" using sessions.reachable_inv [OF refl reach] .
  obtain u where "(i, u, tok) \<in> set (ss_issued s)" using assms(2) by (auto simp: issued_for_mem)
  then have "i \<in> fst ` set (ss_issued s)" by (rule rev_image_eqI) simp
  then have "locked_out i ?s"
    by (auto simp: locked_out_def session_revoke_def token_revoke_def set_upd_where)
  with assms(3) have locked: "locked_out i s'" by (induction rule: rtranclp_induct) (auto intro: locked_out_step)
  have keep: "set (ss_issued ?s) \<subseteq> set (ss_issued s')"
    using assms(3) by (induction rule: rtranclp_induct) (use issued_grow in blast)+
  then have tok: "tok \<in> set (issued_for s' i)" using assms(2) by (auto simp: issued_for_mem)
  then have "tok \<in> issued_tokens s'" by (force simp: issued_tokens_def issued_for_def)
  then have "inj_on sha (insert tok (issued_tokens s'))" using assms(5) by (simp add: insert_absorb)
  note exact = lookup_exact [OF inv this assms(6), of opts later]
  show ?thesis
  proof (rule ccontr)
    assume "lookupByToken sha opts later tok (ss_tokens s') \<noteq> None"
    then obtain r where r: "r \<in> set (ss_tokens s')" "session_live opts later r" "token_admits opts later (issued_for s' (at_id r)) tok r"
      using exact by blast
    have "at_id r = i" using issued_once [OF inv token_admits_mem [OF r(3)] tok] .
    then show False using locked r(1,2) by (auto simp: locked_out_def session_live_def)
  qed
qed


section \<open>A concrete session\<close>

definition demo_sha :: "string \<Rightarrow> string" where
  "demo_sha x = CHR ''h'' # x"

definition demo_created :: session_state where
  "demo_created = (case session_create demo_sha [''u''] ''s1'' ''A'' 1000 ''u'' ''ua'' ''ip'' [] of
     Inr ((tok, row), t) \<Rightarrow> \<lparr>ss_tokens = t, ss_now = 1000, ss_issued = [(at_id row, ''u'', tok)]\<rparr> | Inl e \<Rightarrow> no_sessions)"

definition demo_rotated :: session_state where
  "demo_rotated = (case session_rotate demo_sha ''B'' 2000 ''s1'' (ss_tokens demo_created) of
     Inr (Some (tok, row), t) \<Rightarrow> \<lparr>ss_tokens = t, ss_now = 2000, ss_issued = ss_issued demo_created @ [(''s1'', at_userId row, tok)]\<rparr>
   | _ \<Rightarrow> no_sessions)"

lemma demo_created_step: "session_event demo_sha DEFAULT_SESSION_OPTIONS no_sessions demo_created"
proof -
  let ?x = "session_create demo_sha [''u''] ''s1'' ''A'' 1000 ''u'' ''ua'' ''ip'' (ss_tokens no_sessions)"
  obtain tok row t where x: "?x = Inr ((tok, row), t)"
    by (auto simp: session_create_def token_create_def new_token_row_def no_sessions_def token_findById_def Let_def)
  have "demo_created = \<lparr>ss_tokens = t, ss_now = 1000, ss_issued = ss_issued no_sessions @ [(at_id row, ''u'', tok)]\<rparr>"
    using x by (simp add: demo_created_def no_sessions_def)
  then show ?thesis
    using session_event.create [OF _ _ _ x, of DEFAULT_SESSION_OPTIONS] by (simp add: no_sessions_def issued_tokens_def)
qed

lemma demo_rotated_step: "session_event demo_sha DEFAULT_SESSION_OPTIONS demo_created demo_rotated"
proof -
  let ?x = "session_rotate demo_sha ''B'' 2000 ''s1'' (ss_tokens demo_created)"
  have "case ?x of Inr (Some (tok, row), t) \<Rightarrow> True | _ \<Rightarrow> False" by code_simp
  then obtain tok row t where x: "?x = Inr (Some (tok, row), t)" by (auto split: sum.splits prod.splits option.splits)
  have "demo_rotated = \<lparr>ss_tokens = t, ss_now = 2000, ss_issued = ss_issued demo_created @ [(''s1'', at_userId row, tok)]\<rparr>"
    using x by (simp add: demo_rotated_def)
  moreover have "ss_now demo_created \<le> 2000" "generateSessionToken ''B'' \<notin> issued_tokens demo_created" by code_simp+
  ultimately show ?thesis using session_event.rotate [OF _ _ x, of DEFAULT_SESSION_OPTIONS] by metis
qed

lemma demo_reach: "(session_event demo_sha DEFAULT_SESSION_OPTIONS)\<^sup>*\<^sup>* no_sessions demo_rotated"
  using demo_created_step demo_rotated_step by (meson r_into_rtranclp rtranclp.rtrancl_into_rtrancl)

lemma demo_sha_ok: "inj_on demo_sha A" "\<forall>x. demo_sha x \<noteq> ''''"
  by (auto simp: demo_sha_def inj_on_def)

text \<open>The first token is accepted shortly after the rotation and refused after the grace time.\<close>

theorem session_lookup_exact_witness:
  "lookupByToken demo_sha DEFAULT_SESSION_OPTIONS 3000 ''openobs_s_A'' (ss_tokens demo_rotated) = Some (hd (ss_tokens demo_rotated))
   \<and> lookupByToken demo_sha DEFAULT_SESSION_OPTIONS 40000 ''openobs_s_A'' (ss_tokens demo_rotated) \<noteq> Some (hd (ss_tokens demo_rotated))"
proof -
  let ?r = "hd (ss_tokens demo_rotated)"
  note exact = session_lookup_exact [OF demo_reach demo_sha_ok, of _ "''openobs_s_A''" ?r]
  have "?r \<in> set (ss_tokens demo_rotated)" "session_live DEFAULT_SESSION_OPTIONS 3000 ?r"
    "token_admits DEFAULT_SESSION_OPTIONS 3000 (issued_for demo_rotated (at_id ?r)) ''openobs_s_A'' ?r"
    "\<not> token_admits DEFAULT_SESSION_OPTIONS 40000 (issued_for demo_rotated (at_id ?r)) ''openobs_s_A'' ?r"
    by code_simp+
  then show ?thesis using exact [of 3000] exact [of 40000] by blast
qed

theorem revoked_session_stays_out_witness:
  "lookupByToken demo_sha DEFAULT_SESSION_OPTIONS 3000 ''openobs_s_B''
     (session_revoke 2500 ''s1'' (ss_tokens demo_rotated)) = None"
proof -
  have "''openobs_s_B'' \<in> set (issued_for demo_rotated ''s1'')" "ss_now demo_rotated \<le> 2500" by code_simp+
  from revoked_session_stays_out [OF demo_reach this(1) rtranclp.rtrancl_refl this(2) demo_sha_ok, of 3000]
  show ?thesis by simp
qed

end
