(* ===== verification/Api_Keys.thy ===== *)
theory Api_Keys
  imports Rounds_Prelude
begin

text \<open>
  API tokens: users and memberships as the authentication code reads them, the quota and API-key
  repositories (\<^verbatim>\<open>data-layer/src/repository/auth\<close>), and the service that issues, looks up and
  revokes tokens (\<^verbatim>\<open>api-gateway/src/services/apikey-service.ts\<close>), with what the deletion of a
  service account (\<^verbatim>\<open>api-gateway/src/services/serviceaccount-service.ts\<close>), a user or an
  organisation does to the key table.  The hash function and the random part of a token are
  parameters; times are milliseconds.  A lookup is characterised exactly; a revoked token stays
  out whatever is called, except for an update that clears the flag or a removal of the row,
  and both exceptions are shown to be real.
\<close>

section \<open>Users and memberships\<close>

record user_row =
  us_id :: string
  us_login :: string
  us_email :: string
  us_password :: "string option"
  us_orgId :: string
  us_isAdmin :: bool
  us_isDisabled :: bool
  us_isServiceAccount :: bool

record org_user_row =
  ou_orgId :: string
  ou_userId :: string
  ou_role :: string

definition user_findById :: "user_row list \<Rightarrow> string \<Rightarrow> user_row option" where
  "user_findById us i = List.find (\<lambda>u. us_id u = i) us"

definition user_findByLogin :: "user_row list \<Rightarrow> string \<Rightarrow> user_row option" where
  "user_findByLogin us login = List.find (\<lambda>u. us_login u = login) us"

definition user_findByEmail :: "user_row list \<Rightarrow> string \<Rightarrow> user_row option" where
  "user_findByEmail us email = List.find (\<lambda>u. us_email u = email) us"

definition findMembership :: "org_user_row list \<Rightarrow> string \<Rightarrow> string \<Rightarrow> org_user_row option" where
  "findMembership ous orgId userId = List.find (\<lambda>m. ou_orgId m = orgId \<and> ou_userId m = userId) ous"

section \<open>Quotas\<close>

record quota =
  qu_id :: string
  qu_orgId :: "string option"
  qu_userId :: "string option"
  qu_target :: string
  qu_limitVal :: int
  qu_created :: int
  qu_updated :: int

definition given :: "string option \<Rightarrow> nat" where
  "given v = (case v of Some x \<Rightarrow> if x = '''' then 0 else 1 | None \<Rightarrow> 0)"

definition quota_create ::
  "(int \<Rightarrow> string) \<Rightarrow> string \<Rightarrow> int \<Rightarrow> string option \<Rightarrow> string option \<Rightarrow> string \<Rightarrow> int \<Rightarrow> quota list \<Rightarrow> (quota \<times> quota list) result" where
  "quota_create showInt i now orgId userId target limitVal t =
     (let hits = given orgId + given userId in
      if hits \<noteq> 1 then Inl (''[QuotaRepository] exactly one of (orgId, userId) must be set: got '' @ showInt (int hits))
      else (let row = \<lparr>qu_id = i, qu_orgId = orgId, qu_userId = userId, qu_target = target, qu_limitVal = limitVal,
                       qu_created = now, qu_updated = now\<rparr>
            in if list_ex (\<lambda>r. qu_id r = i) t then Inl ''UNIQUE constraint failed'' else Inr (row, t @ [row])))"

definition findOrgQuota :: "quota list \<Rightarrow> string \<Rightarrow> string \<Rightarrow> quota option" where
  "findOrgQuota t orgId target = List.find (\<lambda>r. qu_orgId r = Some orgId \<and> qu_userId r = None \<and> qu_target r = target) t"

definition findUserQuota :: "quota list \<Rightarrow> string \<Rightarrow> string \<Rightarrow> quota option" where
  "findUserQuota t userId target = List.find (\<lambda>r. qu_userId r = Some userId \<and> qu_orgId r = None \<and> qu_target r = target) t"

definition set_quota :: "int \<Rightarrow> int \<Rightarrow> quota \<Rightarrow> quota list \<Rightarrow> quota \<times> quota list" where
  "set_quota now limitVal existing t =
     (existing\<lparr>qu_limitVal := limitVal, qu_updated := now\<rparr>,
      upd_where (\<lambda>r. qu_id r = qu_id existing) (\<lambda>r. r\<lparr>qu_limitVal := limitVal, qu_updated := now\<rparr>) t)"

definition upsertOrgQuota ::
  "(int \<Rightarrow> string) \<Rightarrow> string \<Rightarrow> int \<Rightarrow> string \<Rightarrow> string \<Rightarrow> int \<Rightarrow> quota list \<Rightarrow> (quota \<times> quota list) result" where
  "upsertOrgQuota showInt i now orgId target limitVal t =
     (case findOrgQuota t orgId target of
        Some existing \<Rightarrow> Inr (set_quota now limitVal existing t)
      | None \<Rightarrow> quota_create showInt i now (Some orgId) None target limitVal t)"

definition upsertUserQuota ::
  "(int \<Rightarrow> string) \<Rightarrow> string \<Rightarrow> int \<Rightarrow> string \<Rightarrow> string \<Rightarrow> int \<Rightarrow> quota list \<Rightarrow> (quota \<times> quota list) result" where
  "upsertUserQuota showInt i now userId target limitVal t =
     (case findUserQuota t userId target of
        Some existing \<Rightarrow> Inr (set_quota now limitVal existing t)
      | None \<Rightarrow> quota_create showInt i now None (Some userId) target limitVal t)"

definition quota_delete :: "string \<Rightarrow> quota list \<Rightarrow> bool \<times> quota list" where
  "quota_delete i t = (if list_ex (\<lambda>r. qu_id r = i) t then (True, del_where (\<lambda>r. qu_id r = i) t) else (False, t))"

section \<open>The key repository\<close>

record api_key =
  ak_id :: string
  ak_orgId :: string
  ak_name :: string
  ak_key :: string
  ak_role :: string
  ak_created :: int
  ak_updated :: int
  ak_lastUsedAt :: "int option"
  ak_expires :: "int option"
  ak_serviceAccountId :: "string option"
  ak_ownerUserId :: "string option"
  ak_isRevoked :: bool

record new_api_key =
  nk_orgId :: string
  nk_name :: string
  nk_key :: string
  nk_role :: string
  nk_expires :: "int option"
  nk_serviceAccountId :: "string option"
  nk_ownerUserId :: "string option"

definition key_findById :: "api_key list \<Rightarrow> string \<Rightarrow> api_key option" where
  "key_findById t i = List.find (\<lambda>r. ak_id r = i) t"

definition new_key_row :: "string \<Rightarrow> int \<Rightarrow> new_api_key \<Rightarrow> api_key" where
  "new_key_row i now input =
     \<lparr>ak_id = i, ak_orgId = nk_orgId input, ak_name = nk_name input, ak_key = nk_key input, ak_role = nk_role input,
      ak_created = now, ak_updated = now, ak_lastUsedAt = None, ak_expires = nk_expires input,
      ak_serviceAccountId = nk_serviceAccountId input, ak_ownerUserId = nk_ownerUserId input, ak_isRevoked = False\<rparr>"

text \<open>
  Identifiers and hashes are unique.  The service only inserts rows for a member of an
  organisation, so the references to users and organisations always resolve.
\<close>

definition key_create :: "string \<Rightarrow> int \<Rightarrow> new_api_key \<Rightarrow> api_key list \<Rightarrow> (api_key \<times> api_key list) result" where
  "key_create fresh now input t =
     (let row = new_key_row fresh now input
      in if list_ex (\<lambda>r. ak_id r = fresh \<or> ak_key r = nk_key input) t then Inl ''UNIQUE constraint failed''
         else Inr (row, t @ [row]))"

definition findByHashedKey :: "api_key list \<Rightarrow> string \<Rightarrow> api_key option" where
  "findByHashedKey t hashed = List.find (\<lambda>r. ak_key r = hashed \<and> \<not> ak_isRevoked r) t"

record list_keys_options =
  lk_orgId :: "string option"
  lk_serviceAccountId :: "string option option"
  lk_includeRevoked :: bool
  lk_includeExpired :: bool
  lk_limit :: "nat option"
  lk_offset :: "nat option"

definition key_selected :: "int \<Rightarrow> list_keys_options \<Rightarrow> api_key \<Rightarrow> bool" where
  "key_selected now opts r \<longleftrightarrow> (case lk_orgId opts of None \<Rightarrow> True | Some v \<Rightarrow> ak_orgId r = v)
     \<and> (case lk_serviceAccountId opts of None \<Rightarrow> True | Some v \<Rightarrow> ak_serviceAccountId r = v)
     \<and> (lk_includeRevoked opts \<or> \<not> ak_isRevoked r)
     \<and> (lk_includeExpired opts \<or> (case ak_expires r of None \<Rightarrow> True | Some e \<Rightarrow> e > now))"

definition key_list :: "int \<Rightarrow> list_keys_options \<Rightarrow> api_key list \<Rightarrow> api_key list \<times> nat" where
  "key_list now opts t =
     (let rows = filter (key_selected now opts) t
      in (page (coalesce (lk_limit opts) 100) (coalesce (lk_offset opts) 0) (sort_key (\<lambda>r. - ak_created r) rows), length rows))"

record api_key_patch =
  kp_name :: "string option"
  kp_role :: "string option"
  kp_lastUsedAt :: "int option option"
  kp_expires :: "int option option"
  kp_isRevoked :: "bool option"

definition key_update :: "int \<Rightarrow> string \<Rightarrow> api_key_patch \<Rightarrow> api_key list \<Rightarrow> api_key option \<times> api_key list" where
  "key_update now i patch t =
     (case key_findById t i of
        None \<Rightarrow> (None, t)
      | Some ex \<Rightarrow>
          (let t' = upd_where (\<lambda>r. ak_id r = i) (\<lambda>r. r\<lparr>ak_name := coalesce (kp_name patch) (ak_name ex),
                 ak_role := coalesce (kp_role patch) (ak_role ex),
                 ak_lastUsedAt := coalesce (kp_lastUsedAt patch) (ak_lastUsedAt ex),
                 ak_expires := coalesce (kp_expires patch) (ak_expires ex),
                 ak_isRevoked := coalesce (kp_isRevoked patch) (ak_isRevoked ex), ak_updated := now\<rparr>) t
           in (key_findById t' i, t')))"

definition key_revoke :: "int \<Rightarrow> string \<Rightarrow> api_key list \<Rightarrow> bool \<times> api_key list" where
  "key_revoke now i t =
     (case key_findById t i of
        None \<Rightarrow> (False, t)
      | Some _ \<Rightarrow> (True, upd_where (\<lambda>r. ak_id r = i) (\<lambda>r. r\<lparr>ak_isRevoked := True, ak_updated := now\<rparr>) t))"

definition key_delete :: "string \<Rightarrow> api_key list \<Rightarrow> bool \<times> api_key list" where
  "key_delete i t = (case key_findById t i of None \<Rightarrow> (False, t) | Some _ \<Rightarrow> (True, del_where (\<lambda>r. ak_id r = i) t))"

definition touchLastUsed :: "string \<Rightarrow> int \<Rightarrow> api_key list \<Rightarrow> api_key list" where
  "touchLastUsed i at_time t = upd_where (\<lambda>r. ak_id r = i) (\<lambda>r. r\<lparr>ak_lastUsedAt := Some at_time\<rparr>) t"

section \<open>The key service\<close>

record key_env =
  ke_users :: "user_row list"
  ke_orgUsers :: "org_user_row list"
  ke_quotas :: "quota list option"
  ke_limitPerSA :: int
  ke_limitPerUser :: int
  ke_cooldownMs :: int
  ke_sha :: "string \<Rightarrow> string"

record key_state =
  ks_keys :: "api_key list"
  ks_usedAuditAt :: "(string, int) js_map"
  ks_audit :: "(string \<times> string) list"

datatype key_error = Validation string | NotFound string | Forbidden string | Database string

definition TOKEN_PREFIX_SA :: string where
  "TOKEN_PREFIX_SA = ''openobs_sa_''"

definition TOKEN_PREFIX_PAT :: string where
  "TOKEN_PREFIX_PAT = ''openobs_pat_''"

definition computeExpiry :: "int \<Rightarrow> int option \<Rightarrow> int option" where
  "computeExpiry now secondsToLive =
     (case secondsToLive of None \<Rightarrow> None | Some n \<Rightarrow> if n \<le> 0 then None else Some (now + n * 1000))"

definition all_keys_of :: "string \<Rightarrow> string option \<Rightarrow> list_keys_options" where
  "all_keys_of orgId serviceAccountId = \<lparr>lk_orgId = Some orgId, lk_serviceAccountId = Some serviceAccountId,
     lk_includeRevoked = True, lk_includeExpired = True, lk_limit = Some 1000, lk_offset = None\<rparr>"

definition listByServiceAccount :: "int \<Rightarrow> api_key list \<Rightarrow> string \<Rightarrow> string \<Rightarrow> api_key list" where
  "listByServiceAccount now t orgId serviceAccountId = fst (key_list now (all_keys_of orgId (Some serviceAccountId)) t)"

definition listByOwner :: "int \<Rightarrow> api_key list \<Rightarrow> string \<Rightarrow> string \<Rightarrow> api_key list" where
  "listByOwner now t orgId userId =
     filter (\<lambda>k. ak_ownerUserId k = Some userId) (fst (key_list now (all_keys_of orgId None) t))"

definition key_getById :: "api_key list \<Rightarrow> string \<Rightarrow> string \<Rightarrow> api_key option" where
  "key_getById t orgId keyId =
     (case key_findById t keyId of None \<Rightarrow> None | Some row \<Rightarrow> if ak_orgId row \<noteq> orgId then None else Some row)"

text \<open>The quota check: organisation, user and service account are optional as in the source.\<close>

definition enforceTokenQuota ::
  "key_env \<Rightarrow> int \<Rightarrow> string option \<Rightarrow> string option \<Rightarrow> string option \<Rightarrow> int \<Rightarrow> api_key list \<Rightarrow> bool" where
  "enforceTokenQuota env now orgId userId serviceAccountId envLimit t =
     (let limit = (case (ke_quotas env, userId) of
              (Some quotas, Some u) \<Rightarrow>
                if u = '''' then envLimit
                else (case findUserQuota quotas u ''api_keys'' of Some row \<Rightarrow> qu_limitVal row | None \<Rightarrow> envLimit)
            | _ \<Rightarrow> envLimit)
      in if limit < 0 then True
         else (let current =
                 (if given serviceAccountId = 1 \<and> given orgId = 1
                  then int (snd (key_list now \<lparr>lk_orgId = orgId, lk_serviceAccountId = Some serviceAccountId,
                         lk_includeRevoked = False, lk_includeExpired = False, lk_limit = None, lk_offset = None\<rparr> t))
                  else if given userId = 1
                  then int (length (filter (\<lambda>r. \<not> ak_isRevoked r) (listByOwner now t (coalesce orgId '''') (the userId))))
                  else 0)
               in current < limit))"

definition log_audit :: "string \<Rightarrow> string \<Rightarrow> key_state \<Rightarrow> key_state" where
  "log_audit act target s = s\<lparr>ks_audit := ks_audit s @ [(act, target)]\<rparr>"

definition store_key :: "string \<Rightarrow> int \<Rightarrow> new_api_key \<Rightarrow> string \<Rightarrow> string \<Rightarrow> key_state \<Rightarrow> (key_error + string \<times> api_key) \<times> key_state" where
  "store_key fresh now input plaintext act s =
     (case key_create fresh now input (ks_keys s) of
        Inl e \<Rightarrow> (Inl (Database e), s)
      | Inr (row, t) \<Rightarrow> (Inr (plaintext, row), log_audit act (ak_id row) (s\<lparr>ks_keys := t\<rparr>)))"

definition issueServiceAccountToken ::
  "key_env \<Rightarrow> string \<Rightarrow> string \<Rightarrow> int \<Rightarrow> string \<Rightarrow> string \<Rightarrow> string \<Rightarrow> int option \<Rightarrow> key_state \<Rightarrow>
     (key_error + string \<times> api_key) \<times> key_state" where
  "issueServiceAccountToken env fresh random now orgId serviceAccountId name secondsToLive s =
     (let name' = js_trim name in
      if name' = '''' then (Inl (Validation ''name is required''), s)
      else if (case user_findById (ke_users env) serviceAccountId of
                 None \<Rightarrow> True | Some sa \<Rightarrow> \<not> us_isServiceAccount sa \<or> us_orgId sa \<noteq> orgId)
      then (Inl (NotFound ''service account''), s)
      else if \<not> enforceTokenQuota env now (Some orgId) None (Some serviceAccountId) (ke_limitPerSA env) (ks_keys s)
      then (Inl (Forbidden ''Quota exceeded''), s)
      else (case findMembership (ke_orgUsers env) orgId serviceAccountId of
              None \<Rightarrow> (Inl (Forbidden ''service account has no membership in this organization''), s)
            | Some m \<Rightarrow>
                (let plaintext = TOKEN_PREFIX_SA @ random
                 in store_key fresh now \<lparr>nk_orgId = orgId, nk_name = name', nk_key = ke_sha env plaintext, nk_role = ou_role m,
                      nk_expires = computeExpiry now secondsToLive, nk_serviceAccountId = Some serviceAccountId,
                      nk_ownerUserId = None\<rparr> plaintext ''serviceaccount.token_created'' s)))"

definition ORG_ROLES :: "string list" where
  "ORG_ROLES = [''Admin'', ''Editor'', ''Viewer'', ''None'']"

definition issuePersonalAccessToken ::
  "key_env \<Rightarrow> string \<Rightarrow> string \<Rightarrow> int \<Rightarrow> string \<Rightarrow> string \<Rightarrow> string \<Rightarrow> int option \<Rightarrow> string option \<Rightarrow> key_state \<Rightarrow>
     (key_error + string \<times> api_key) \<times> key_state" where
  "issuePersonalAccessToken env fresh random now orgId userId name secondsToLive role s =
     (let name' = js_trim name in
      if name' = '''' then (Inl (Validation ''name is required''), s)
      else if (case role of None \<Rightarrow> False | Some r \<Rightarrow> r \<notin> set ORG_ROLES)
      then (Inl (Validation (''role must be one of: '' @ join_with '', '' ORG_ROLES)), s)
      else (case user_findById (ke_users env) userId of
              None \<Rightarrow> (Inl (NotFound ''user''), s)
            | Some user \<Rightarrow>
                if us_isServiceAccount user then (Inl (Validation ''service accounts must use SA tokens''), s)
                else if \<not> enforceTokenQuota env now None (Some userId) None (ke_limitPerUser env) (ks_keys s)
                then (Inl (Forbidden ''Quota exceeded''), s)
                else (case findMembership (ke_orgUsers env) orgId userId of
                        None \<Rightarrow> (Inl (Forbidden ''user has no membership in this organization''), s)
                      | Some m \<Rightarrow>
                          (let plaintext = TOKEN_PREFIX_PAT @ random
                           in store_key fresh now \<lparr>nk_orgId = orgId, nk_name = name', nk_key = ke_sha env plaintext,
                                nk_role = coalesce role (ou_role m), nk_expires = computeExpiry now secondsToLive,
                                nk_serviceAccountId = None, nk_ownerUserId = Some userId\<rparr> plaintext ''apikey.created'' s))))"

definition service_revoke :: "int \<Rightarrow> string \<Rightarrow> string \<Rightarrow> key_state \<Rightarrow> (key_error + unit) \<times> key_state" where
  "service_revoke now orgId keyId s =
     (case key_findById (ks_keys s) keyId of
        None \<Rightarrow> (Inl (NotFound ''api key''), s)
      | Some row \<Rightarrow>
          if ak_orgId row \<noteq> orgId then (Inl (NotFound ''api key''), s)
          else if ak_isRevoked row then (Inr (), s)
          else (Inr (), log_audit (if given (ak_serviceAccountId row) = 1 then ''serviceaccount.token_revoked'' else ''apikey.revoked'')
                          (ak_id row) (s\<lparr>ks_keys := snd (key_revoke now keyId (ks_keys s))\<rparr>)))"

definition maybeAuditUsed :: "key_env \<Rightarrow> int \<Rightarrow> api_key \<Rightarrow> key_state \<Rightarrow> key_state" where
  "maybeAuditUsed env now row s =
     (let last = coalesce (map_of (ks_usedAuditAt s) (ak_id row)) 0 in
      if now - last < ke_cooldownMs env then s
      else (let used = AList.update (ak_id row) now (ks_usedAuditAt s);
                used' = (if length used > 1024 then filter (\<lambda>(k, v). \<not> v < now - ke_cooldownMs env * 10) used else used)
            in log_audit ''apikey.used'' (ak_id row) (s\<lparr>ks_usedAuditAt := used'\<rparr>)))"

record api_key_lookup =
  kl_user :: user_row
  kl_orgId :: string
  kl_role :: string
  kl_serviceAccountId :: "string option"
  kl_keyId :: string
  kl_isServerAdmin :: bool

definition key_principal :: "api_key \<Rightarrow> string option" where
  "key_principal row = (case ak_serviceAccountId row of Some i \<Rightarrow> Some i | None \<Rightarrow> ak_ownerUserId row)"

definition validateAndLookup :: "key_env \<Rightarrow> int \<Rightarrow> string \<Rightarrow> key_state \<Rightarrow> api_key_lookup option \<times> key_state" where
  "validateAndLookup env now rawToken s =
     (if rawToken = '''' then (None, s)
      else (case findByHashedKey (ks_keys s) (ke_sha env rawToken) of
        None \<Rightarrow> (None, s)
      | Some row \<Rightarrow>
          if ak_isRevoked row then (None, s)
          else if (case ak_expires row of Some e \<Rightarrow> e < now | None \<Rightarrow> False) then (None, s)
          else (case key_principal row of
            None \<Rightarrow> (None, s)
          | Some principalId \<Rightarrow>
              if principalId = '''' then (None, s)
              else (case user_findById (ke_users env) principalId of
                None \<Rightarrow> (None, s)
              | Some user \<Rightarrow>
                  if us_isDisabled user then (None, s)
                  else (Some \<lparr>kl_user = user, kl_orgId = ak_orgId row,
                          kl_role = (case findMembership (ke_orgUsers env) (ak_orgId row) principalId of
                                       Some m \<Rightarrow> ou_role m | None \<Rightarrow> ''None''),
                          kl_serviceAccountId = ak_serviceAccountId row, kl_keyId = ak_id row,
                          kl_isServerAdmin = us_isAdmin user\<rparr>,
                        maybeAuditUsed env now row (s\<lparr>ks_keys := touchLastUsed (ak_id row) now (ks_keys s)\<rparr>))))))"


section \<open>Legacy keys\<close>

definition parse_pair :: "string \<Rightarrow> (string \<times> string) list" where
  "parse_pair pair =
     (let trimmed = js_trim pair; before = takeWhile (\<lambda>c. c \<noteq> CHR '':'') trimmed; rest = dropWhile (\<lambda>c. c \<noteq> CHR '':'') trimmed;
          name = js_trim before; key = js_trim (drop 1 rest)
      in if trimmed = '''' \<or> rest = '''' \<or> before = '''' \<or> name = '''' \<or> key = '''' then [] else [(name, key)])"

definition parseLegacyEnv :: "string option \<Rightarrow> (string \<times> string) list" where
  "parseLegacyEnv raw = (if given raw = 0 then [] else concat (map parse_pair (split_on (CHR '','') (the raw))))"

definition importLegacyKeyForSA ::
  "key_env \<Rightarrow> string \<Rightarrow> int \<Rightarrow> string \<Rightarrow> string \<Rightarrow> string \<Rightarrow> string \<Rightarrow> key_state \<Rightarrow> (key_error + api_key) \<times> key_state" where
  "importLegacyKeyForSA env fresh now orgId serviceAccountId legacyName legacyKey s =
     (let hashed = ke_sha env legacyKey in
      case findByHashedKey (ks_keys s) hashed of
        Some existing \<Rightarrow> (Inr existing, s)
      | None \<Rightarrow>
          (case findMembership (ke_orgUsers env) orgId serviceAccountId of
             None \<Rightarrow> (Inl (Forbidden ''service account has no membership in this organization''), s)
           | Some m \<Rightarrow>
               (case key_create fresh now \<lparr>nk_orgId = orgId, nk_name = legacyName, nk_key = hashed, nk_role = ou_role m,
                       nk_expires = None, nk_serviceAccountId = Some serviceAccountId, nk_ownerUserId = None\<rparr> (ks_keys s) of
                  Inl e \<Rightarrow> (Inl (Database e), s)
                | Inr (row, t) \<Rightarrow> (Inr row, s\<lparr>ks_keys := t\<rparr>))))"

section \<open>Deleting accounts\<close>

text \<open>
  What the foreign keys of \<^verbatim>\<open>api_key\<close> do when a user or an organisation is deleted, and the deletion
  of a service account as far as the key table goes: the listed tokens one by one (the list has
  its default length), then the user row with its cascade.
\<close>

definition user_row_gone :: "string \<Rightarrow> api_key list \<Rightarrow> api_key list" where
  "user_row_gone i t = upd_where (\<lambda>r. ak_ownerUserId r = Some i) (\<lambda>r. r\<lparr>ak_ownerUserId := None\<rparr>)
     (del_where (\<lambda>r. ak_serviceAccountId r = Some i) t)"

definition org_row_gone :: "string \<Rightarrow> api_key list \<Rightarrow> api_key list" where
  "org_row_gone orgId t = del_where (\<lambda>r. ak_orgId r = orgId) t"

definition service_account_delete :: "key_env \<Rightarrow> int \<Rightarrow> string \<Rightarrow> string \<Rightarrow> key_state \<Rightarrow> (key_error + unit) \<times> key_state" where
  "service_account_delete env now orgId i s =
     (if (case user_findById (ke_users env) i of None \<Rightarrow> True | Some user \<Rightarrow> \<not> us_isServiceAccount user \<or> us_orgId user \<noteq> orgId)
      then (Inl (NotFound ''service account not found''), s)
      else (let tokens = fst (key_list now \<lparr>lk_orgId = Some orgId, lk_serviceAccountId = Some (Some i), lk_includeRevoked = True,
                                lk_includeExpired = True, lk_limit = None, lk_offset = None\<rparr> (ks_keys s))
            in (Inr (), log_audit ''serviceaccount.deleted'' i
                 (s\<lparr>ks_keys := user_row_gone i (fold (\<lambda>k t. snd (key_delete (ak_id k) t)) tokens (ks_keys s))\<rparr>))))"

section \<open>What a key admits\<close>

definition keys_ok :: "api_key list \<Rightarrow> bool" where
  "keys_ok t \<longleftrightarrow> distinct (map ak_id t) \<and> distinct (map ak_key t)"

lemma same_key: "keys_ok t \<Longrightarrow> x \<in> set t \<Longrightarrow> y \<in> set t \<Longrightarrow> ak_key x = ak_key y \<Longrightarrow> x = y"
  by (auto simp: keys_ok_def distinct_map dest: inj_onD)

lemma findByHashedKey_iff:
  assumes "keys_ok t"
  shows "findByHashedKey t h = Some r \<longleftrightarrow> r \<in> set t \<and> ak_key r = h \<and> \<not> ak_isRevoked r"
proof
  assume r: "r \<in> set t \<and> ak_key r = h \<and> \<not> ak_isRevoked r"
  obtain x where x: "findByHashedKey t h = Some x"
    using r by (cases "findByHashedKey t h") (auto simp: findByHashedKey_def find_None_set)
  have "x \<in> set t" "ak_key x = h" using find_Some_set [OF x [unfolded findByHashedKey_def]] by auto
  then have "x = r" using same_key [OF assms] r by simp
  then show "findByHashedKey t h = Some r" using x by simp
qed (auto simp: findByHashedKey_def dest!: find_Some_set)

definition unexpired :: "int \<Rightarrow> api_key \<Rightarrow> bool" where
  "unexpired now r \<longleftrightarrow> (case ak_expires r of None \<Rightarrow> True | Some e \<Rightarrow> now \<le> e)"

text \<open>
  C14. An API token admits exactly its owner: a lookup succeeds if and only if the table has an
  unrevoked and unexpired key with the token's hash whose service account or owner exists and is
  enabled, and the caller then acts in the organisation of the key with the role his membership has
  now (none without a membership), whatever role is stored with the key.
\<close>

theorem api_key_lookup_exact:
  assumes "keys_ok (ks_keys s)"
  shows "fst (validateAndLookup env now tok s) = Some l \<longleftrightarrow>
     tok \<noteq> '''' \<and> (\<exists>r\<in>set (ks_keys s). ak_key r = ke_sha env tok \<and> \<not> ak_isRevoked r \<and> unexpired now r
       \<and> (\<exists>p user. key_principal r = Some p \<and> p \<noteq> '''' \<and> user_findById (ke_users env) p = Some user \<and> \<not> us_isDisabled user
            \<and> l = \<lparr>kl_user = user, kl_orgId = ak_orgId r,
                   kl_role = (case findMembership (ke_orgUsers env) (ak_orgId r) p of Some m \<Rightarrow> ou_role m | None \<Rightarrow> ''None''),
                   kl_serviceAccountId = ak_serviceAccountId r, kl_keyId = ak_id r, kl_isServerAdmin = us_isAdmin user\<rparr>))"
proof (cases "findByHashedKey (ks_keys s) (ke_sha env tok)")
  case None
  then show ?thesis
    using findByHashedKey_iff [OF assms, of "ke_sha env tok"] by (auto simp: validateAndLookup_def)
next
  case (Some r)
  have r: "r \<in> set (ks_keys s)" "ak_key r = ke_sha env tok" "\<not> ak_isRevoked r"
    using findByHashedKey_iff [OF assms] Some by auto
  have only: "(\<exists>r'\<in>set (ks_keys s). ak_key r' = ke_sha env tok \<and> Q r') \<longleftrightarrow> Q r" for Q
    using r same_key [OF assms _ r(1)] by metis
  have exp: "(case ak_expires r of Some e \<Rightarrow> e < now | None \<Rightarrow> False) = (\<not> unexpired now r)"
    by (auto simp: unexpired_def split: option.splits)
  show ?thesis
    unfolding only validateAndLookup_def Some option.case exp using r(3) by (auto split: option.splits)
qed

section \<open>Keys over time\<close>

text \<open>
  Everything that writes to the key table: the calls of the key service, the deletion of a
  service account, a user or an organisation, and the update and delete of the repository with any
  arguments.  Users, memberships, limits and the clock may be different at every call.
\<close>

datatype key_call =
    Issue_sa string string string string string "int option"
  | Issue_pat string string string string string "int option" "string option"
  | Import_legacy string string string string string
  | Revoke string string
  | Lookup string
  | Update_row string api_key_patch
  | Delete_row string
  | Delete_sa string string
  | Delete_user string
  | Delete_org string

fun key_step :: "key_env \<times> int \<times> key_call \<Rightarrow> key_state \<Rightarrow> key_state" where
  "key_step (env, now, Issue_sa fresh random orgId sa name ttl) s = snd (issueServiceAccountToken env fresh random now orgId sa name ttl s)"
| "key_step (env, now, Issue_pat fresh random orgId userId name ttl role) s =
     snd (issuePersonalAccessToken env fresh random now orgId userId name ttl role s)"
| "key_step (env, now, Import_legacy fresh orgId sa legacyName legacyKey) s =
     snd (importLegacyKeyForSA env fresh now orgId sa legacyName legacyKey s)"
| "key_step (env, now, Revoke orgId keyId) s = snd (service_revoke now orgId keyId s)"
| "key_step (env, now, Lookup tok) s = snd (validateAndLookup env now tok s)"
| "key_step (env, now, Update_row i patch) s = s\<lparr>ks_keys := snd (key_update now i patch (ks_keys s))\<rparr>"
| "key_step (env, now, Delete_row i) s = s\<lparr>ks_keys := snd (key_delete i (ks_keys s))\<rparr>"
| "key_step (env, now, Delete_sa orgId i) s = snd (service_account_delete env now orgId i s)"
| "key_step (env, now, Delete_user i) s = s\<lparr>ks_keys := user_row_gone i (ks_keys s)\<rparr>"
| "key_step (env, now, Delete_org orgId) s = s\<lparr>ks_keys := org_row_gone orgId (ks_keys s)\<rparr>"

definition key_run :: "(key_env \<times> int \<times> key_call) list \<Rightarrow> key_state \<Rightarrow> key_state" where
  "key_run cs s = fold key_step cs s"

text \<open>The calls that undo a revocation: clearing the flag of the row, and removing the row.\<close>

fun lifts :: "api_key \<Rightarrow> key_call \<Rightarrow> bool" where
  "lifts r (Update_row i patch) = (i = ak_id r \<and> kp_isRevoked patch = Some False)"
| "lifts r (Delete_row i) = (i = ak_id r)"
| "lifts r (Delete_sa orgId i) = (ak_serviceAccountId r = Some i)"
| "lifts r (Delete_user i) = (ak_serviceAccountId r = Some i)"
| "lifts r (Delete_org orgId) = (ak_orgId r = orgId)"
| "lifts r c = False"

definition no_keys :: key_state where
  "no_keys = \<lparr>ks_keys = [], ks_usedAuditAt = [], ks_audit = []\<rparr>"

lemma maybeAuditUsed_keys [simp]: "ks_keys (maybeAuditUsed env now row s) = ks_keys s"
  by (simp add: maybeAuditUsed_def log_audit_def Let_def)

text \<open>
  What a call can do to the table, one step at a time: append a key, change a row, where the flag
  is cleared only by a call that lifts the revocation, or remove rows, which lifts it too.
\<close>

definition same_row :: "api_key \<Rightarrow> api_key \<Rightarrow> bool" where
  "same_row x y \<longleftrightarrow> ak_id x = ak_id y \<and> ak_key x = ak_key y \<and> ak_orgId x = ak_orgId y \<and> ak_serviceAccountId x = ak_serviceAccountId y"

inductive key_change :: "key_call \<Rightarrow> api_key list \<Rightarrow> api_key list \<Rightarrow> bool" for c where
  stay: "key_change c t t"
| append: "ak_id row \<notin> ak_id ` set t \<Longrightarrow> ak_key row \<notin> ak_key ` set t \<Longrightarrow> key_change c t (t @ [row])"
| upd: "(\<And>x. x \<in> set t \<Longrightarrow> P x \<Longrightarrow> same_row (f x) x \<and> (ak_isRevoked x \<longrightarrow> ak_isRevoked (f x) \<or> lifts x c)) \<Longrightarrow>
     key_change c t (upd_where P f t)"
| remove: "(\<And>x. x \<in> set t \<Longrightarrow> P x \<Longrightarrow> lifts x c) \<Longrightarrow> key_change c t (del_where P t)"

lemma store_key_change [simp]: "key_change c (ks_keys s) (ks_keys (snd (store_key fresh now input plaintext act s)))"
proof (cases "key_create fresh now input (ks_keys s)")
  case (Inr x)
  then have "x = (new_key_row fresh now input, ks_keys s @ [new_key_row fresh now input])"
    "fresh \<notin> ak_id ` set (ks_keys s)" "nk_key input \<notin> ak_key ` set (ks_keys s)"
    by (auto simp: key_create_def Let_def list_ex_iff split: if_splits)
  then show ?thesis using Inr by (auto simp: store_key_def log_audit_def new_key_row_def intro!: key_change.append)
qed (simp add: store_key_def key_change.stay)

lemma import_change [simp]:
  "key_change c (ks_keys s) (ks_keys (snd (importLegacyKeyForSA env fresh now orgId sa legacyName legacyKey s)))"
  by (auto simp: importLegacyKeyForSA_def Let_def key_create_def list_ex_iff new_key_row_def key_change.stay
      intro!: key_change.append split: option.split)

lemma revoke_change [simp]: "key_change c t (snd (key_revoke now i t))"
  by (auto simp: key_revoke_def key_change.stay same_row_def intro!: key_change.upd split: option.split)

lemma touch_change [simp]: "key_change c t (touchLastUsed i at_time t)"
  unfolding touchLastUsed_def by (rule key_change.upd) (simp add: same_row_def)

lemma update_change:
  assumes "distinct (map ak_id t)"
  shows "key_change (Update_row i patch) t (snd (key_update now i patch t))"
proof (cases "key_findById t i")
  case (Some ex)
  then have ex: "ex \<in> set t" "ak_id ex = i" by (auto simp: key_findById_def dest: find_Some_set)
  then have "x = ex" if "x \<in> set t" "ak_id x = i" for x using assms that by (auto simp: distinct_map inj_on_def)
  then show ?thesis unfolding key_update_def Some option.case Let_def snd_conv
    using ex by (intro key_change.upd) (auto simp: same_row_def coalesce_def split: option.splits)
qed (simp add: key_update_def key_change.stay)

lemma delete_change: "(\<And>x. x \<in> set t \<Longrightarrow> ak_id x = i \<Longrightarrow> lifts x c) \<Longrightarrow> key_change c t (snd (key_delete i t))"
  by (auto simp: key_delete_def key_change.stay intro!: key_change.remove split: option.split)

lemma user_gone_change:
  assumes "\<And>x. ak_serviceAccountId x = Some i \<Longrightarrow> lifts x c"
  shows "(key_change c)\<^sup>*\<^sup>* t (user_row_gone i t)"
proof -
  have "key_change c t (del_where (\<lambda>r. ak_serviceAccountId r = Some i) t)" using assms by (blast intro: key_change.remove)
  moreover have "key_change c (del_where (\<lambda>r. ak_serviceAccountId r = Some i) t) (user_row_gone i t)"
    unfolding user_row_gone_def by (rule key_change.upd) (simp add: same_row_def)
  ultimately show ?thesis by (meson r_into_rtranclp rtranclp.rtrancl_into_rtrancl)
qed

definition keys_within :: "api_key list \<Rightarrow> api_key list \<Rightarrow> bool" where
  "keys_within t t0 \<longleftrightarrow> set t \<subseteq> set t0 \<and> distinct (map ak_id t0)"

lemma delete_tokens_change:
  assumes "\<forall>k\<in>set ks. k \<in> set t0 \<and> lifts k c" "keys_within t t0"
  shows "(key_change c)\<^sup>*\<^sup>* t (fold (\<lambda>k t. snd (key_delete (ak_id k) t)) ks t)"
  using assms
proof (induction ks arbitrary: t)
  case (Cons k ks)
  have "x = k" if "x \<in> set t" "ak_id x = ak_id k" for x
    using Cons.prems that by (auto simp: keys_within_def distinct_map inj_on_def)
  then have step: "key_change c t (snd (key_delete (ak_id k) t))" using Cons.prems(1) by (intro delete_change) auto
  have "keys_within (snd (key_delete (ak_id k) t)) t0"
    using Cons.prems(2) by (auto simp: keys_within_def key_delete_def split: option.splits)
  then have "(key_change c)\<^sup>*\<^sup>* (snd (key_delete (ak_id k) t)) (fold (\<lambda>k t. snd (key_delete (ak_id k) t)) ks (snd (key_delete (ak_id k) t)))"
    using Cons.IH Cons.prems(1) by simp
  then show ?case using step by (simp add: converse_rtranclp_into_rtranclp)
qed simp

lemma listed_tokens:
  "k \<in> set (fst (key_list now \<lparr>lk_orgId = Some orgId, lk_serviceAccountId = Some (Some i), lk_includeRevoked = True,
     lk_includeExpired = True, lk_limit = None, lk_offset = None\<rparr> t)) \<Longrightarrow> k \<in> set t \<and> ak_serviceAccountId k = Some i"
  by (auto simp: key_list_def Let_def page_def key_selected_def dest!: in_set_takeD in_set_dropD)

lemma sa_delete_change:
  assumes "distinct (map ak_id (ks_keys s))"
  shows "(key_change (Delete_sa orgId i))\<^sup>*\<^sup>* (ks_keys s) (ks_keys (snd (service_account_delete env now orgId i s)))"
proof -
  let ?ts = "fst (key_list now \<lparr>lk_orgId = Some orgId, lk_serviceAccountId = Some (Some i), lk_includeRevoked = True,
     lk_includeExpired = True, lk_limit = None, lk_offset = None\<rparr> (ks_keys s))"
  let ?t = "fold (\<lambda>k t. snd (key_delete (ak_id k) t)) ?ts (ks_keys s)"
  have "(key_change (Delete_sa orgId i))\<^sup>*\<^sup>* (ks_keys s) ?t"
    using listed_tokens assms by (intro delete_tokens_change [of _ "ks_keys s"]) (auto simp: keys_within_def)
  moreover have "(key_change (Delete_sa orgId i))\<^sup>*\<^sup>* ?t (user_row_gone i ?t)" by (rule user_gone_change) simp
  ultimately show ?thesis by (auto simp: service_account_delete_def log_audit_def Let_def)
qed

lemmas key_op_defs = issueServiceAccountToken_def issuePersonalAccessToken_def service_revoke_def validateAndLookup_def
  log_audit_def Let_def

lemma key_step_change:
  assumes "distinct (map ak_id (ks_keys s))"
  shows "(key_change c)\<^sup>*\<^sup>* (ks_keys s) (ks_keys (key_step (env, now, c) s))"
proof (cases c)
  case (Delete_org orgId)
  then show ?thesis by (auto simp: org_row_gone_def intro!: r_into_rtranclp [of "key_change c"] key_change.remove)
qed (use assms in \<open>auto simp: key_op_defs key_change.stay sa_delete_change user_gone_change
       intro!: r_into_rtranclp [of "key_change _"] update_change delete_change split: option.split\<close>)

lemma key_change_ok: "key_change c t t' \<Longrightarrow> keys_ok t \<Longrightarrow> keys_ok t'"
proof (induction rule: key_change.induct)
  case (upd t P f)
  then have "map ak_id (upd_where P f t) = map ak_id t" "map ak_key (upd_where P f t) = map ak_key t"
    by (auto simp: upd_where_def same_row_def)
  with upd show ?case by (simp add: keys_ok_def)
qed (auto simp: keys_ok_def distinct_del_where)

lemma key_changes_ok: "(key_change c)\<^sup>*\<^sup>* t t' \<Longrightarrow> keys_ok t \<Longrightarrow> keys_ok t'"
  by (induction rule: rtranclp_induct) (auto intro: key_change_ok)

interpretation api_keys: invariant_system "\<lambda>s. s = no_keys" "\<lambda>s s'. \<exists>x. s' = key_step x s" "\<lambda>s. keys_ok (ks_keys s)"
proof unfold_locales
  show "keys_ok (ks_keys s')" if "\<exists>x. s' = key_step x s" "keys_ok (ks_keys s)" for s s'
    using that key_changes_ok [OF key_step_change] by (auto simp: keys_ok_def)
qed (simp add: no_keys_def keys_ok_def)

lemma key_run_reachable: "(\<lambda>s s'. \<exists>x. s' = key_step x s)\<^sup>*\<^sup>* s (key_run cs s)"
  by (induction cs arbitrary: s) (auto simp: key_run_def intro: converse_rtranclp_into_rtranclp)

lemma key_run_ok: "keys_ok (ks_keys (key_run cs no_keys))"
  using api_keys.reachable_inv [OF refl key_run_reachable] .

text \<open>A key that is in the table, under its hash alone, and revoked.\<close>

definition key_dead :: "api_key \<Rightarrow> api_key list \<Rightarrow> bool" where
  "key_dead r t \<longleftrightarrow> keys_ok t \<and> (\<exists>x\<in>set t. same_row x r \<and> ak_isRevoked x)"

lemma lifts_same: "same_row x r \<Longrightarrow> lifts x c = lifts r c"
  by (cases c) (auto simp: same_row_def)

lemma key_dead_change:
  assumes "key_change c t t'" "key_dead r t" "\<not> lifts r c"
  shows "key_dead r t'"
proof -
  obtain x where x: "x \<in> set t" "same_row x r" "ak_isRevoked x" and ok: "keys_ok t" using assms(2) by (auto simp: key_dead_def)
  have nl: "\<not> lifts x c" using lifts_same [OF x(2)] assms(3) by simp
  have "\<exists>x\<in>set t'. same_row x r \<and> ak_isRevoked x"
    using assms(1)
  proof cases
    case (upd P f)
    have "(if P x then f x else x) \<in> set t'" using x(1) by (auto simp: upd(1) upd_where_def)
    moreover have "same_row (if P x then f x else x) r \<and> ak_isRevoked (if P x then f x else x)"
      using upd(2) [OF x(1)] x nl by (auto simp: same_row_def)
    ultimately show ?thesis by blast
  qed (use x nl in auto)
  then show ?thesis using key_change_ok [OF assms(1) ok] by (simp add: key_dead_def)
qed

lemma key_dead_changes: "(key_change c)\<^sup>*\<^sup>* t t' \<Longrightarrow> key_dead r t \<Longrightarrow> \<not> lifts r c \<Longrightarrow> key_dead r t'"
  by (induction rule: rtranclp_induct) (auto intro: key_dead_change)

lemma key_dead_run: "\<forall>x\<in>set cs. \<not> lifts r (snd (snd x)) \<Longrightarrow> key_dead r (ks_keys s) \<Longrightarrow> key_dead r (ks_keys (key_run cs s))"
proof (induction cs arbitrary: s)
  case (Cons x cs)
  obtain env now c where x: "x = (env, now, c)" using prod_cases3 by blast
  have "key_dead r (ks_keys (key_step x s))"
    using key_dead_changes [OF key_step_change Cons.prems(2)] Cons.prems by (auto simp: x key_dead_def keys_ok_def)
  then show ?case using Cons by (simp add: key_run_def)
qed (simp add: key_run_def)

lemma service_revoke_dead:
  assumes "keys_ok (ks_keys s)" "r \<in> set (ks_keys s)" "service_revoke now (ak_orgId r) (ak_id r) s = (res, s')"
  shows "res = Inr () \<and> key_dead r (ks_keys s')"
proof -
  have find: "key_findById (ks_keys s) (ak_id r) = Some r"
    unfolding key_findById_def using assms(1,2) by (intro find_key_unique) (auto simp: keys_ok_def)
  have revoked: "\<exists>x\<in>set (ks_keys s'). same_row x r \<and> ak_isRevoked x"
  proof (cases "ak_isRevoked r")
    case True
    then show ?thesis using assms(2,3) find by (auto simp: service_revoke_def same_row_def)
  next
    case False
    then have "ks_keys s' = upd_where (\<lambda>x. ak_id x = ak_id r) (\<lambda>x. x\<lparr>ak_isRevoked := True, ak_updated := now\<rparr>) (ks_keys s)"
      using assms(3) find by (auto simp: service_revoke_def log_audit_def key_revoke_def)
    then have "r\<lparr>ak_isRevoked := True, ak_updated := now\<rparr> \<in> set (ks_keys s')"
      using assms(2) by (force simp: upd_where_def)
    then show ?thesis by (rule bexI [rotated]) (simp add: same_row_def)
  qed
  have "(key_change (Revoke (ak_orgId r) (ak_id r)))\<^sup>*\<^sup>* (ks_keys s) (ks_keys s')"
    using key_step_change [of s "Revoke (ak_orgId r) (ak_id r)" undefined now] assms(1,3) by (simp add: keys_ok_def)
  then have "keys_ok (ks_keys s')" using key_changes_ok assms(1) by blast
  then show ?thesis using revoked find assms(3) by (auto simp: key_dead_def service_revoke_def split: if_splits)
qed

text \<open>
  C36. A revoked API token stays out as long as its row is kept and left revoked: once the service
  revoked a key, no later sequence of writes to the key table makes a token with that hash valid
  again, whoever makes them and whatever happens to users and memberships, unless one of them
  clears the flag of that row by a repository update or removes the row, as the deletion of its
  service account does; in particular the hash cannot be issued or imported anew.
\<close>

theorem revoked_key_stays_out:
  assumes "s = key_run before no_keys" "r \<in> set (ks_keys s)" "ak_key r = ke_sha env tok"
    and "service_revoke now (ak_orgId r) (ak_id r) s = (res, s')" "\<forall>x\<in>set after. \<not> lifts r (snd (snd x))"
  shows "res = Inr () \<and> fst (validateAndLookup env later tok (key_run after s')) = None"
proof -
  have ok: "keys_ok (ks_keys s)" unfolding assms(1) by (rule key_run_ok)
  have res: "res = Inr ()" "key_dead r (ks_keys s')" using service_revoke_dead [OF ok assms(2,4)] by auto
  with key_dead_run [OF assms(5)] have "key_dead r (ks_keys (key_run after s'))" by simp
  then obtain x where x: "keys_ok (ks_keys (key_run after s'))" "x \<in> set (ks_keys (key_run after s'))" "ak_key x = ke_sha env tok"
    "ak_isRevoked x" using assms(3) by (auto simp: key_dead_def same_row_def)
  then have "findByHashedKey (ks_keys (key_run after s')) (ke_sha env tok) = None"
    by (auto simp: findByHashedKey_def find_None_set dest: same_key [OF x(1) _ x(2)])
  then show ?thesis using res by (simp add: validateAndLookup_def)
qed

section \<open>Quotas on tokens\<close>

definition active_sa_keys :: "int \<Rightarrow> string \<Rightarrow> string \<Rightarrow> api_key list \<Rightarrow> api_key list" where
  "active_sa_keys now orgId sa t = filter (\<lambda>r. ak_orgId r = orgId \<and> ak_serviceAccountId r = Some sa \<and> \<not> ak_isRevoked r
     \<and> (case ak_expires r of None \<Rightarrow> True | Some e \<Rightarrow> e > now)) t"

lemma key_list_active:
  "snd (key_list now \<lparr>lk_orgId = Some orgId, lk_serviceAccountId = Some (Some sa), lk_includeRevoked = False,
       lk_includeExpired = False, lk_limit = None, lk_offset = None\<rparr> t) = length (active_sa_keys now orgId sa t)"
  by (simp add: key_list_def active_sa_keys_def key_selected_def[abs_def] Let_def)

lemma key_createE:
  assumes "key_create fresh now input t = Inr (row, t')"
  shows "row = new_key_row fresh now input \<and> t' = t @ [row]"
  using assms by (auto simp: key_create_def Let_def split: if_splits)

text \<open>
  A configured limit on the tokens of a service account is kept: whenever the service issues a
  token for a service account, the token is one of that account's active tokens and, with a limit
  of at least 0, the account has at most that many active tokens afterwards.
\<close>

theorem sa_token_quota:
  assumes "issueServiceAccountToken env fresh random now orgId sa name ttl s = (Inr (plain, row), s')"
    and "orgId \<noteq> ''''" "sa \<noteq> ''''" "0 \<le> ke_limitPerSA env"
  shows "row \<in> set (active_sa_keys now orgId sa (ks_keys s'))
     \<and> int (length (active_sa_keys now orgId sa (ks_keys s'))) \<le> ke_limitPerSA env"
proof -
  have quota: "int (length (active_sa_keys now orgId sa (ks_keys s))) < ke_limitPerSA env"
    using assms
    by (auto simp: issueServiceAccountToken_def enforceTokenQuota_def given_def key_list_active Let_def
          split: if_splits option.splits)
  obtain input where stored: "store_key fresh now input plain ''serviceaccount.token_created'' s = (Inr (plain, row), s')"
    and input: "nk_orgId input = orgId" "nk_serviceAccountId input = Some sa" "nk_expires input = computeExpiry now ttl"
    using assms(1) by (force simp: issueServiceAccountToken_def store_key_def Let_def split: if_splits option.splits sum.splits)
  have row: "row = new_key_row fresh now input" "ks_keys s' = ks_keys s @ [row]"
    using stored by (auto simp: store_key_def log_audit_def dest: key_createE split: sum.splits)
  have "row \<in> set (active_sa_keys now orgId sa [row])"
    by (auto simp: active_sa_keys_def row(1) new_key_row_def input computeExpiry_def split: option.splits if_splits)
  then show ?thesis using quota row(2) by (auto simp: active_sa_keys_def)
qed

text \<open>
  The limit on personal access tokens has no effect: the check is called without an
  organisation and counts the tokens of the organisation with the empty name, so with any limit of
  at least 1 and no key in that organisation, issuing a token is never refused for the quota,
  however many tokens the user already has.
\<close>

theorem pat_quota_not_enforced:
  assumes "1 \<le> ke_limitPerUser env" "\<forall>r\<in>set (ks_keys s). ak_orgId r \<noteq> ''''"
    and "case ke_quotas env of None \<Rightarrow> True | Some qs \<Rightarrow> (\<forall>q\<in>set qs. qu_limitVal q \<noteq> 0)"
  shows "fst (issuePersonalAccessToken env fresh random now orgId userId name ttl role s) \<noteq> Inl (Forbidden ''Quota exceeded'')"
proof -
  have none: "filter (key_selected now (all_keys_of '''' None)) (ks_keys s) = []"
    using assms(2) by (auto simp: filter_empty_conv key_selected_def all_keys_of_def)
  then have "listByOwner now (ks_keys s) '''' userId = []"
    by (simp add: listByOwner_def key_list_def Let_def page_def)
  moreover have "qu_limitVal q \<noteq> 0" if "ke_quotas env = Some qs" "findUserQuota qs u ''api_keys'' = Some q" for qs u q
    using assms(3) that by (auto simp: findUserQuota_def dest!: find_Some_set)
  ultimately have "enforceTokenQuota env now None (Some userId) None (ke_limitPerUser env) (ks_keys s)"
    using assms(1) by (fastforce simp: enforceTokenQuota_def given_def Let_def split: option.splits)
  then show ?thesis
    by (auto simp: issuePersonalAccessToken_def store_key_def Let_def split: option.splits sum.splits)
qed

section \<open>Witnesses\<close>

definition ak_env :: key_env where
  "ak_env = \<lparr>ke_users = [\<lparr>us_id = ''u1'', us_login = ''ann'', us_email = ''ann@x'', us_password = None, us_orgId = ''o1'',
               us_isAdmin = False, us_isDisabled = False, us_isServiceAccount = False\<rparr>,
             \<lparr>us_id = ''sa1'', us_login = ''sa'', us_email = ''sa@x'', us_password = None, us_orgId = ''o1'',
               us_isAdmin = False, us_isDisabled = False, us_isServiceAccount = True\<rparr>],
     ke_orgUsers = [\<lparr>ou_orgId = ''o1'', ou_userId = ''u1'', ou_role = ''Admin''\<rparr>,
                    \<lparr>ou_orgId = ''o1'', ou_userId = ''sa1'', ou_role = ''Viewer''\<rparr>],
     ke_quotas = None, ke_limitPerSA = 1, ke_limitPerUser = 1, ke_cooldownMs = 60000, ke_sha = (\<lambda>x. CHR ''h'' # x)\<rparr>"

definition ak_row :: "string \<Rightarrow> string \<Rightarrow> api_key" where
  "ak_row i tok = new_key_row i 10 \<lparr>nk_orgId = ''o1'', nk_name = ''ci'', nk_key = CHR ''h'' # tok, nk_role = ''Admin'', nk_expires = None,
     nk_serviceAccountId = None, nk_ownerUserId = Some ''u1''\<rparr>"

lemma js_trim_ci: "js_trim ''ci'' = ''ci''"
  by code_simp

lemma issue_pat_example:
  "issuePersonalAccessToken ak_env ''k1'' ''r'' 10 ''o1'' ''u1'' ''ci'' None None no_keys
     = (Inr (''openobs_pat_r'', ak_row ''k1'' ''openobs_pat_r''),
        \<lparr>ks_keys = [ak_row ''k1'' ''openobs_pat_r''], ks_usedAuditAt = [], ks_audit = [(''apikey.created'', ''k1'')]\<rparr>)"
  by code_simp

theorem api_key_lookup_exact_witness:
  "\<exists>l. fst (validateAndLookup ak_env 20 ''openobs_pat_r'' \<lparr>ks_keys = [ak_row ''k1'' ''openobs_pat_r''], ks_usedAuditAt = [], ks_audit = []\<rparr>) = Some l
     \<and> kl_role l = ''Admin'' \<and> kl_orgId l = ''o1''"
proof -
  have ok: "keys_ok (ks_keys \<lparr>ks_keys = [ak_row ''k1'' ''openobs_pat_r''], ks_usedAuditAt = [], ks_audit = []\<rparr>)"
    by (simp add: keys_ok_def)
  show ?thesis
    using api_key_lookup_exact [OF ok, of ak_env 20 "''openobs_pat_r''" "\<lparr>kl_user = hd (ke_users ak_env), kl_orgId = ''o1'', kl_role = ''Admin'',
        kl_serviceAccountId = None, kl_keyId = ''k1'', kl_isServerAdmin = False\<rparr>"]
    by (simp add: ak_row_def new_key_row_def ak_env_def unexpired_def key_principal_def user_findById_def findMembership_def)
qed

theorem revoked_key_stays_out_witness:
  "fst (validateAndLookup ak_env 40 ''openobs_pat_r''
     (key_run [(ak_env, 35, Import_legacy ''k2'' ''o1'' ''sa1'' ''old'' ''openobs_pat_r''), (ak_env, 36, Delete_sa ''o1'' ''sa1'')]
       (snd (service_revoke 30 ''o1'' ''k1'' (key_run [(ak_env, 10, Issue_pat ''k1'' ''r'' ''o1'' ''u1'' ''ci'' None None)] no_keys))))) = None"
proof -
  let ?s = "key_run [(ak_env, 10, Issue_pat ''k1'' ''r'' ''o1'' ''u1'' ''ci'' None None)] no_keys"
  have keys: "ks_keys ?s = [ak_row ''k1'' ''openobs_pat_r'']" by (simp add: key_run_def issue_pat_example)
  have row: "ak_orgId (ak_row ''k1'' ''openobs_pat_r'') = ''o1''" "ak_id (ak_row ''k1'' ''openobs_pat_r'') = ''k1''"
    "ak_key (ak_row ''k1'' ''openobs_pat_r'') = ke_sha ak_env ''openobs_pat_r''" "ak_serviceAccountId (ak_row ''k1'' ''openobs_pat_r'') = None"
    by (simp_all add: ak_row_def new_key_row_def ak_env_def)
  show ?thesis
    using revoked_key_stays_out [of ?s "[(ak_env, 10, Issue_pat ''k1'' ''r'' ''o1'' ''u1'' ''ci'' None None)]" "ak_row ''k1'' ''openobs_pat_r''" ak_env "''openobs_pat_r''" 30
        "fst (service_revoke 30 ''o1'' ''k1'' ?s)" "snd (service_revoke 30 ''o1'' ''k1'' ?s)"
        "[(ak_env, 35, Import_legacy ''k2'' ''o1'' ''sa1'' ''old'' ''openobs_pat_r''), (ak_env, 36, Delete_sa ''o1'' ''sa1'')]" 40]
    by (simp add: keys row)
qed

text \<open>
  The two exceptions are real.  A revoked token of a service account is admitted again once the
  account is deleted, which removes the revoked row, and the same key is imported for another
  account; and a repository update that clears the flag brings a key back.
\<close>

definition two_accounts :: key_env where
  "two_accounts = ak_env\<lparr>ke_users := ke_users ak_env @ [(ke_users ak_env ! 1)\<lparr>us_id := ''sa2''\<rparr>],
     ke_orgUsers := ke_orgUsers ak_env @ [\<lparr>ou_orgId = ''o1'', ou_userId = ''sa2'', ou_role = ''Viewer''\<rparr>]\<rparr>"

theorem deleted_key_readmitted:
  "let s = key_run [(two_accounts, 10, Import_legacy ''k1'' ''o1'' ''sa1'' ''old'' ''tok''), (two_accounts, 20, Revoke ''o1'' ''k1'')] no_keys
   in fst (validateAndLookup two_accounts 30 ''tok'' s) = None
    \<and> fst (validateAndLookup two_accounts 30 ''tok''
        (key_run [(two_accounts, 25, Delete_sa ''o1'' ''sa1''), (two_accounts, 26, Import_legacy ''k2'' ''o1'' ''sa2'' ''old'' ''tok'')] s)) \<noteq> None
    \<and> fst (validateAndLookup two_accounts 30 ''tok''
        (key_run [(two_accounts, 25, Update_row ''k1'' \<lparr>kp_name = None, kp_role = None, kp_lastUsedAt = None, kp_expires = None,
           kp_isRevoked = Some False\<rparr>)] s)) \<noteq> None"
  by code_simp

theorem sa_token_quota_witness:
  "\<exists>plain row s'. issueServiceAccountToken ak_env ''k2'' ''r'' 10 ''o1'' ''sa1'' ''ci'' (Some 60) no_keys = (Inr (plain, row), s')
     \<and> int (length (active_sa_keys 10 ''o1'' ''sa1'' (ks_keys s'))) \<le> 1"
proof -
  obtain plain row s' where issued: "issueServiceAccountToken ak_env ''k2'' ''r'' 10 ''o1'' ''sa1'' ''ci'' (Some 60) no_keys = (Inr (plain, row), s')"
    by (simp add: issueServiceAccountToken_def js_trim_ci ak_env_def user_findById_def enforceTokenQuota_def given_def key_list_def
        no_keys_def findMembership_def store_key_def key_create_def Let_def)
  then show ?thesis using sa_token_quota [OF issued] by (auto simp: ak_env_def)
qed

theorem pat_quota_not_enforced_witness:
  "fst (issuePersonalAccessToken ak_env ''k2'' ''r2'' 10 ''o1'' ''u1'' ''ci'' None None
     \<lparr>ks_keys = [ak_row ''k1'' ''openobs_pat_r''], ks_usedAuditAt = [], ks_audit = []\<rparr>) \<noteq> Inl (Forbidden ''Quota exceeded'')"
  by (rule pat_quota_not_enforced) (simp_all add: ak_env_def ak_row_def new_key_row_def)

end
