(* ===== verification/Rate_Limiter.thy ===== *)
theory Rate_Limiter
  imports Rounds_Prelude
begin

text \<open>
  The sliding-window rate limiter of \<^verbatim>\<open>api-gateway/src/middleware/rate-limiter.ts\<close>: the store
  of a limiter, the middleware, the janitor that evicts idle keys, and the four limiters the server
  mounts.  The limiter refines a specification that only remembers which requests it let through;
  the janitor is invisible in that specification.
\<close>

section \<open>The limiter\<close>

datatype header_value = HV_undefined | HV_string string | HV_list "string list"

record http_request =
  rq_forwardedFor :: header_value
  rq_remoteAddress :: "string option"
  rq_userId :: "string option"

record window_entry =
  we_timestamps :: "int list"
  we_lastSeen :: int

record limiter_options =
  lo_windowMs :: int
  lo_max :: int
  lo_keyFn :: "(http_request \<Rightarrow> string option) option"

type_synonym limiter_store = "(string, window_entry) js_map"

definition limiter_getKey :: "limiter_options \<Rightarrow> http_request \<Rightarrow> string option" where
  "limiter_getKey opts req =
     (case lo_keyFn opts of
        Some keyFn \<Rightarrow> keyFn req
      | None \<Rightarrow>
          Some (case rq_forwardedFor req of
                  HV_string forwarded \<Rightarrow> js_trim (hd (split_on (CHR '','') forwarded))
                | _ \<Rightarrow> coalesce (rq_remoteAddress req) ''unknown''))"

text \<open>
  The answers of the middleware: the request passes unlimited, it passes with the number of
  requests that remain, or it is refused with the seconds to wait.
\<close>

datatype limiter_answer = Unlimited | Proceed int | Limited int

definition ceil_seconds :: "int \<Rightarrow> int" where
  "ceil_seconds ms = - ((- ms) div 1000)"

definition rateLimiter ::
  "limiter_options \<Rightarrow> http_request \<Rightarrow> int \<Rightarrow> limiter_store \<Rightarrow> limiter_answer \<times> limiter_store" where
  "rateLimiter opts req now store =
     (case limiter_getKey opts req of
        None \<Rightarrow> (Unlimited, store)
      | Some key \<Rightarrow>
          (let windowStart = now - lo_windowMs opts;
               entry = coalesce (map_of store key) \<lparr>we_timestamps = [], we_lastSeen = now\<rparr>;
               recent = filter (\<lambda>t. t > windowStart) (we_timestamps entry)
           in if int (length recent) \<ge> lo_max opts
              then (Limited (ceil_seconds (case recent of [] \<Rightarrow> lo_windowMs opts
                                                        | oldest # _ \<Rightarrow> oldest + lo_windowMs opts - now)),
                    AList.update key \<lparr>we_timestamps = recent, we_lastSeen = now\<rparr> store)
              else (Proceed (lo_max opts - int (length (recent @ [now]))),
                    AList.update key \<lparr>we_timestamps = recent @ [now], we_lastSeen = now\<rparr> store)))"

definition limiter_cleanup :: "limiter_options \<Rightarrow> int \<Rightarrow> limiter_store \<Rightarrow> limiter_store" where
  "limiter_cleanup opts now store =
     filter (\<lambda>(k, v). \<not> we_lastSeen v < now - lo_windowMs opts * 2) store"

section \<open>The mounted limiters\<close>

definition limiter_max :: "string option \<Rightarrow> int" where
  "limiter_max env =
     (case js_parseInt (coalesce env ''600'') of Some n \<Rightarrow> if n > 0 then n else 600 | None \<Rightarrow> 600)"

definition defaultRateLimiter :: "string option \<Rightarrow> limiter_options" where
  "defaultRateLimiter env = \<lparr>lo_windowMs = 60000, lo_max = limiter_max env, lo_keyFn = None\<rparr>"

definition loginRateLimiter :: limiter_options where
  "loginRateLimiter = \<lparr>lo_windowMs = 60000, lo_max = 10, lo_keyFn = None\<rparr>"

definition createUserRateLimiter :: "string option \<Rightarrow> limiter_options" where
  "createUserRateLimiter env = \<lparr>lo_windowMs = 60000, lo_max = limiter_max env, lo_keyFn = Some rq_userId\<rparr>"

definition TOKEN_ISSUE_RATE_LIMIT_MAX :: int where
  "TOKEN_ISSUE_RATE_LIMIT_MAX = 5"

definition createTokenIssueRateLimiter :: limiter_options where
  "createTokenIssueRateLimiter = \<lparr>lo_windowMs = 60000, lo_max = TOKEN_ISSUE_RATE_LIMIT_MAX,
     lo_keyFn = Some (\<lambda>req. Some (coalesce (rq_userId req) ''__unauth__''))\<rparr>"

text \<open>\<^verbatim>\<open>None\<close> is the answer 401 of the wrapper.\<close>

definition tokenIssueRateLimiter ::
  "http_request \<Rightarrow> int \<Rightarrow> limiter_store \<Rightarrow> limiter_answer option \<times> limiter_store" where
  "tokenIssueRateLimiter req now store =
     (if rq_userId req = None \<or> rq_userId req = Some '''' then (None, store)
      else (let (a, store') = rateLimiter createTokenIssueRateLimiter req now store in (Some a, store')))"

section \<open>The specification\<close>

text \<open>
  The specification keeps the list of the requests that were let through, as pairs of key and
  time.  A run is a list of requests and janitor rounds with their times.
\<close>

datatype limiter_event = Request http_request int | Janitor int

fun event_time :: "limiter_event \<Rightarrow> int" where
  "event_time (Request req now) = now"
| "event_time (Janitor now) = now"

fun limiter_run :: "limiter_options \<Rightarrow> limiter_event list \<Rightarrow> limiter_store \<Rightarrow> limiter_answer list" where
  "limiter_run opts [] store = []"
| "limiter_run opts (Request req now # es) store =
     (let (a, store') = rateLimiter opts req now store in a # limiter_run opts es store')"
| "limiter_run opts (Janitor now # es) store = limiter_run opts es (limiter_cleanup opts now store)"

type_synonym passed_log = "(string \<times> int) list"

definition passed_since :: "passed_log \<Rightarrow> string \<Rightarrow> int \<Rightarrow> int list" where
  "passed_since passed key start = map snd (filter (\<lambda>(k, t). k = key \<and> t > start) passed)"

definition spec_request ::
  "limiter_options \<Rightarrow> http_request \<Rightarrow> int \<Rightarrow> passed_log \<Rightarrow> limiter_answer \<times> passed_log" where
  "spec_request opts req now passed =
     (case limiter_getKey opts req of
        None \<Rightarrow> (Unlimited, passed)
      | Some key \<Rightarrow>
          (let recent = passed_since passed key (now - lo_windowMs opts)
           in if int (length recent) \<ge> lo_max opts
              then (Limited (ceil_seconds (case recent of [] \<Rightarrow> lo_windowMs opts
                                                        | oldest # _ \<Rightarrow> oldest + lo_windowMs opts - now)), passed)
              else (Proceed (lo_max opts - int (length recent) - 1), passed @ [(key, now)])))"

fun spec_run :: "limiter_options \<Rightarrow> limiter_event list \<Rightarrow> passed_log \<Rightarrow> limiter_answer list" where
  "spec_run opts [] passed = []"
| "spec_run opts (Request req now # es) passed =
     (let (a, passed') = spec_request opts req now passed in a # spec_run opts es passed')"
| "spec_run opts (Janitor now # es) passed = spec_run opts es passed"

text \<open>The store of a limiter at time \<open>now\<close> holds what the specification still needs.\<close>

definition entry_ok :: "limiter_options \<Rightarrow> int \<Rightarrow> passed_log \<Rightarrow> string \<Rightarrow> window_entry option \<Rightarrow> bool" where
  "entry_ok opts now passed key e \<longleftrightarrow>
     (case e of
        None \<Rightarrow> passed_since passed key (now - lo_windowMs opts) = []
      | Some v \<Rightarrow> filter (\<lambda>t. t > now - lo_windowMs opts) (we_timestamps v) = passed_since passed key (now - lo_windowMs opts)
          \<and> (\<forall>(k, t)\<in>set passed. k = key \<longrightarrow> t \<le> we_lastSeen v))"

definition store_ok :: "limiter_options \<Rightarrow> int \<Rightarrow> limiter_store \<Rightarrow> passed_log \<Rightarrow> bool" where
  "store_ok opts now store passed \<longleftrightarrow> distinct (map fst store) \<and> (\<forall>(k, t)\<in>set passed. t \<le> now)
     \<and> (\<forall>key. entry_ok opts now passed key (map_of store key))"

lemma filter_later: "a \<le> b \<Longrightarrow> filter (\<lambda>t. t > b) (filter (\<lambda>t. t > a) xs) = filter (\<lambda>t. t > (b :: int)) xs"
  by (induction xs) auto

lemma passed_since_later:
  "a \<le> b \<Longrightarrow> passed_since passed key b = filter (\<lambda>t. t > b) (passed_since passed key a)"
  by (induction passed) (auto simp: passed_since_def)

lemma passed_since_snoc:
  "passed_since (passed @ [(k, t)]) key a = passed_since passed key a @ (if k = key \<and> t > a then [t] else [])"
  by (simp add: passed_since_def)

lemma entry_ok_later:
  assumes "entry_ok opts now passed key e" "now \<le> now'"
  shows "entry_ok opts now' passed key e"
proof -
  have le: "now - lo_windowMs opts \<le> now' - lo_windowMs opts" using assms(2) by simp
  note later = passed_since_later [OF le, of passed key] filter_later [OF le]
  show ?thesis
  proof (cases e)
    case None
    then show ?thesis using assms(1) later(1) by (simp add: entry_ok_def)
  next
    case (Some v)
    have "filter (\<lambda>t. t > now - lo_windowMs opts) (we_timestamps v) = passed_since passed key (now - lo_windowMs opts)"
      and seen: "\<forall>(k, t)\<in>set passed. k = key \<longrightarrow> t \<le> we_lastSeen v"
      using assms(1) by (simp_all add: entry_ok_def Some)
    then have "filter (\<lambda>t. t > now' - lo_windowMs opts) (we_timestamps v) = passed_since passed key (now' - lo_windowMs opts)"
      using later(1) later(2) [of "we_timestamps v"] by simp
    then show ?thesis using seen by (simp add: entry_ok_def Some)
  qed
qed

lemma store_ok_later: "store_ok opts now store passed \<Longrightarrow> now \<le> now' \<Longrightarrow> store_ok opts now' store passed"
  unfolding store_ok_def by (blast intro: entry_ok_later order_trans)

lemma store_ok_cleanup:
  assumes "store_ok opts now store passed" "0 \<le> lo_windowMs opts"
  shows "store_ok opts now (limiter_cleanup opts now store) passed"
proof -
  have dist: "distinct (map fst store)" using assms(1) by (simp add: store_ok_def)
  have "entry_ok opts now passed key (map_of (limiter_cleanup opts now store) key)" for key
  proof (cases "map_of store key")
    case None
    then have "map_of (limiter_cleanup opts now store) key = None"
      by (auto simp: limiter_cleanup_def map_of_eq_None_iff)
    then show ?thesis using assms(1) None unfolding store_ok_def by metis
  next
    case (Some v)
    have ok: "entry_ok opts now passed key (Some v)" using assms(1) Some unfolding store_ok_def by metis
    show ?thesis
    proof (cases "we_lastSeen v < now - lo_windowMs opts * 2")
      case True
      then have "passed_since passed key (now - lo_windowMs opts) = []"
        using ok assms(2) by (fastforce simp: entry_ok_def passed_since_def filter_empty_conv)
      moreover have "map_of (limiter_cleanup opts now store) key = None"
        using True eq_key_imp_eq_value [OF dist map_of_SomeD [OF Some]]
        by (auto simp: limiter_cleanup_def map_of_eq_None_iff)
      ultimately show ?thesis by (simp add: entry_ok_def)
    next
      case False
      then have "map_of (limiter_cleanup opts now store) key = Some v"
        using map_of_SomeD [OF Some] dist
        by (intro map_of_is_SomeI) (auto simp: limiter_cleanup_def distinct_map_filter)
      then show ?thesis using ok by simp
    qed
  qed
  then show ?thesis
    using assms(1) by (auto simp: store_ok_def limiter_cleanup_def distinct_map_filter)
qed

text \<open>One request: the same answer, and the store again holds what is needed.\<close>

lemma rateLimiter_step:
  assumes "store_ok opts now store passed" "0 < lo_windowMs opts"
  shows "fst (rateLimiter opts req now store) = fst (spec_request opts req now passed)"
    and "store_ok opts now (snd (rateLimiter opts req now store)) (snd (spec_request opts req now passed))"
proof -
  let ?w = "now - lo_windowMs opts"
  have dist: "distinct (map fst store)" and le: "\<forall>(k, t)\<in>set passed. t \<le> now"
    and ok: "\<And>key. entry_ok opts now passed key (map_of store key)"
    using assms(1) by (auto simp: store_ok_def)
  have recent: "filter (\<lambda>t. t > ?w) (we_timestamps (coalesce (map_of store key) \<lparr>we_timestamps = [], we_lastSeen = now\<rparr>))
      = passed_since passed key ?w" for key
    using ok [of key] by (auto simp: entry_ok_def split: option.splits)
  show "fst (rateLimiter opts req now store) = fst (spec_request opts req now passed)"
    by (auto simp: rateLimiter_def spec_request_def recent Let_def split: option.splits)
  have upd: "store_ok opts now (AList.update key \<lparr>we_timestamps = ts, we_lastSeen = now\<rparr> store) passed'"
    if "filter (\<lambda>t. t > ?w) ts = passed_since passed' key ?w"
      and "passed' = passed \<or> passed' = passed @ [(key, now)]" for key ts passed'
  proof -
    have "entry_ok opts now passed' k (map_of (AList.update key \<lparr>we_timestamps = ts, we_lastSeen = now\<rparr> store) k)" for k
      using that ok [of k] le
      by (cases "k = key") (auto simp: update_conv' entry_ok_def passed_since_snoc split: option.splits)
    then show ?thesis using that(2) dist le by (auto simp: store_ok_def distinct_update)
  qed
  have idem: "filter (\<lambda>t. t > ?w) (passed_since passed key ?w) = passed_since passed key ?w" for key
    using passed_since_later [of ?w ?w passed key] by simp
  show "store_ok opts now (snd (rateLimiter opts req now store)) (snd (spec_request opts req now passed))"
  proof (cases "limiter_getKey opts req")
    case None
    then show ?thesis using assms(1) by (simp add: rateLimiter_def spec_request_def)
  next
    case (Some key)
    show ?thesis
      using upd [of "passed_since passed key ?w" passed key] upd [of "passed_since passed key ?w @ [now]" "passed @ [(key, now)]" key]
        idem [of key] assms(2)
      by (simp add: rateLimiter_def spec_request_def Some recent Let_def passed_since_snoc)
  qed
qed

lemma run_refines:
  assumes "store_ok opts now store passed" "0 < lo_windowMs opts"
    and "sorted (now # map event_time es)"
  shows "limiter_run opts es store = spec_run opts es passed"
  using assms(1,3)
proof (induction es arbitrary: now store passed)
  case (Cons e es)
  have now: "now \<le> event_time e" "sorted (event_time e # map event_time es)" using Cons.prems(2) by auto
  have ok: "store_ok opts (event_time e) store passed" using store_ok_later [OF Cons.prems(1) now(1)] .
  show ?case
  proof (cases e)
    case (Request req t)
    have t: "event_time e = t" by (simp add: Request)
    obtain a store' where x: "rateLimiter opts req t store = (a, store')" by fastforce
    obtain b passed' where y: "spec_request opts req t passed = (b, passed')" by fastforce
    show ?thesis
      using rateLimiter_step [OF ok [unfolded t] assms(2), of req] Cons.IH [of t store' passed'] now(2)
      by (simp add: Request x y)
  next
    case (Janitor t)
    then show ?thesis
      using store_ok_cleanup [OF ok] assms(2) Cons.IH [of t "limiter_cleanup opts t store" passed] now(2) by simp
  qed
qed simp

lemma run_from_empty:
  assumes "0 < lo_windowMs opts" "sorted (map event_time es)"
  shows "limiter_run opts es [] = spec_run opts es []"
proof (cases es)
  case (Cons e es')
  have "store_ok opts (event_time e) [] []" by (simp add: store_ok_def entry_ok_def passed_since_def)
  moreover have "sorted (event_time e # map event_time es)" using assms(2) by (simp add: Cons)
  ultimately show ?thesis using run_refines [OF _ assms(1)] by blast
qed simp

fun is_request :: "limiter_event \<Rightarrow> bool" where
  "is_request (Request req now) = True"
| "is_request (Janitor now) = False"

lemma spec_ignores_janitor: "spec_run opts (filter is_request es) passed = spec_run opts es passed"
  by (induction opts es passed rule: spec_run.induct) (auto split: prod.splits)

text \<open>
  C22. The limiter is an exact sliding window: on every run with a clock that does not go back, its
  answers, with the remaining counts and the waiting times, are those of the specification that
  remembers all requests let through; the janitor never changes an answer.
\<close>

theorem limiter_exact:
  assumes "0 < lo_windowMs opts" "sorted (map event_time es)"
  shows "limiter_run opts es [] = spec_run opts es []
     \<and> limiter_run opts (filter is_request es) [] = limiter_run opts es []"
  using run_from_empty [OF assms] run_from_empty [OF assms(1), of "filter is_request es"]
    sorted_filter [OF assms(2), of is_request] spec_ignores_janitor by simp

section \<open>The bound\<close>

text \<open>The requests of a run that were let through, with their keys.\<close>

fun passed_of :: "limiter_options \<Rightarrow> limiter_event list \<Rightarrow> limiter_answer list \<Rightarrow> passed_log" where
  "passed_of opts (Request req now # es) (a # as) =
     (case (limiter_getKey opts req, a) of
        (Some key, Proceed n) \<Rightarrow> (key, now) # passed_of opts es as
      | _ \<Rightarrow> passed_of opts es as)"
| "passed_of opts (Janitor now # es) as = passed_of opts es as"
| "passed_of opts es as = []"

definition in_window :: "passed_log \<Rightarrow> string \<Rightarrow> int \<Rightarrow> int \<Rightarrow> nat" where
  "in_window passed key start stop = length (filter (\<lambda>(k, t). k = key \<and> start < t \<and> t \<le> stop) passed)"

definition window_bounded :: "limiter_options \<Rightarrow> passed_log \<Rightarrow> bool" where
  "window_bounded opts passed \<longleftrightarrow>
     (\<forall>key stop. int (in_window passed key (stop - lo_windowMs opts) stop) \<le> lo_max opts)"

lemma in_window_snoc:
  "in_window (passed @ [(k, t)]) key a b = in_window passed key a b + (if k = key \<and> a < t \<and> t \<le> b then 1 else 0)"
  by (simp add: in_window_def)

lemma in_window_le_since:
  assumes "a \<le> a'" shows "in_window passed key a' b \<le> length (passed_since passed key a)"
  using assms by (induction passed) (auto simp: in_window_def passed_since_def)

lemma window_bounded_pass:
  assumes "window_bounded opts passed" "int (length (passed_since passed key (now - lo_windowMs opts))) < lo_max opts"
  shows "window_bounded opts (passed @ [(key, now)])"
proof -
  have "int (in_window (passed @ [(key, now)]) k (stop - lo_windowMs opts) stop) \<le> lo_max opts" for k stop
  proof (cases "k = key \<and> now \<le> stop")
    case True
    then have "in_window passed k (stop - lo_windowMs opts) stop \<le> length (passed_since passed key (now - lo_windowMs opts))"
      using in_window_le_since [of "now - lo_windowMs opts" "stop - lo_windowMs opts" passed key stop] by simp
    then show ?thesis using assms(2) by (simp add: in_window_snoc)
  next
    case False
    then show ?thesis using assms(1) by (auto simp: in_window_snoc window_bounded_def)
  qed
  then show ?thesis by (simp add: window_bounded_def)
qed

lemma spec_run_bounded:
  "window_bounded opts passed \<Longrightarrow> window_bounded opts (passed @ passed_of opts es (spec_run opts es passed))"
proof (induction es arbitrary: passed)
  case (Cons e es)
  show ?case
  proof (cases e)
    case (Request req now)
    show ?thesis
    proof (cases "limiter_getKey opts req")
      case (Some key)
      show ?thesis
        using Cons.IH [of passed] Cons.IH [of "passed @ [(key, now)]"] Cons.prems window_bounded_pass [of opts passed key now]
        by (auto simp: Request Some spec_request_def Let_def split: prod.splits)
    qed (use Cons in \<open>auto simp: Request spec_request_def\<close>)
  qed (use Cons in auto)
qed simp

text \<open>
  The rate limit holds in every window, wherever it starts: of the requests of one key, at most
  the configured number pass within any span of the window's length.
\<close>

theorem rate_bounded:
  assumes "0 < lo_windowMs opts" "0 \<le> lo_max opts" "sorted (map event_time es)"
  shows "int (in_window (passed_of opts es (limiter_run opts es [])) key (stop - lo_windowMs opts) stop) \<le> lo_max opts"
proof -
  have "window_bounded opts []" using assms(2) by (simp add: window_bounded_def in_window_def)
  then show ?thesis
    using spec_run_bounded [of opts "[]" es] run_from_empty [OF assms(1,3)] by (simp add: window_bounded_def)
qed


section \<open>The waiting time\<close>

fun limiter_event_step :: "limiter_options \<Rightarrow> limiter_event \<Rightarrow> limiter_store \<Rightarrow> limiter_store" where
  "limiter_event_step opts (Request req now) store = snd (rateLimiter opts req now store)"
| "limiter_event_step opts (Janitor now) store = limiter_cleanup opts now store"

text \<open>The stores a limiter can have at a time, with what the specification remembers.\<close>

lemma reachable_store:
  assumes "0 < lo_windowMs opts" "0 \<le> lo_max opts" "sorted (map event_time es)" "\<forall>e\<in>set es. event_time e \<le> now"
  shows "\<exists>passed. store_ok opts now (fold (limiter_event_step opts) es []) passed \<and> window_bounded opts passed"
  using assms(3,4)
proof (induction es arbitrary: now rule: rev_induct)
  case Nil
  have "store_ok opts now [] []" "window_bounded opts []"
    using assms(2) by (simp_all add: store_ok_def entry_ok_def passed_since_def window_bounded_def in_window_def)
  then show ?case by auto
next
  case (snoc e es)
  have "sorted (map event_time es)" "\<forall>x\<in>set es. event_time x \<le> event_time e"
    using snoc.prems(1) by (auto simp: sorted_append)
  then obtain passed where ok: "store_ok opts (event_time e) (fold (limiter_event_step opts) es []) passed" "window_bounded opts passed"
    using snoc.IH by blast
  have "\<exists>passed'. store_ok opts (event_time e) (limiter_event_step opts e (fold (limiter_event_step opts) es [])) passed'
      \<and> window_bounded opts passed'"
  proof (cases e)
    case (Request req t)
    have "window_bounded opts (snd (spec_request opts req t passed))"
      using ok(2) window_bounded_pass [of opts passed _ t]
      by (auto simp: spec_request_def Let_def split: option.splits)
    then show ?thesis using rateLimiter_step(2) [OF ok(1) assms(1)] Request by auto
  next
    case (Janitor t)
    then show ?thesis using store_ok_cleanup [OF ok(1)] assms(1) ok(2) by auto
  qed
  then show ?case using store_ok_later snoc.prems(2) by fastforce
qed

lemma since_le_window:
  assumes "store_ok opts now store passed"
  shows "length (passed_since passed key (now - d)) = in_window passed key (now - d) now"
  using assms unfolding store_ok_def passed_since_def in_window_def length_map
  by (intro arg_cong [where f = length] filter_cong) auto

text \<open>
  The advertised waiting time is right: a refused client is told to wait at least one second,
  and a request of the same key that arrives after that time, with nothing in between, passes.
\<close>

theorem retry_after_suffices:
  assumes "0 < lo_windowMs opts" "0 < lo_max opts" "sorted (map event_time es)" "\<forall>e\<in>set es. event_time e \<le> now"
    and "rateLimiter opts req now (fold (limiter_event_step opts) es []) = (Limited r, store')"
    and "limiter_getKey opts req' = limiter_getKey opts req" "now + 1000 * r \<le> later"
  shows "1 \<le> r \<and> (\<exists>n. fst (rateLimiter opts req' later store') = Proceed n)"
proof -
  let ?w = "lo_windowMs opts"
  obtain passed where ok: "store_ok opts now (fold (limiter_event_step opts) es []) passed" "window_bounded opts passed"
    using reachable_store [OF assms(1) _ assms(3,4)] assms(2) by auto
  have spec: "spec_request opts req now passed = (Limited r, snd (spec_request opts req now passed))"
    and ok': "store_ok opts now store' (snd (spec_request opts req now passed))"
    using rateLimiter_step [OF ok(1) assms(1), of req] assms(5) by (simp_all add: prod_eq_iff)
  obtain key where key: "limiter_getKey opts req = Some key" and full: "lo_max opts \<le> int (length (passed_since passed key (now - ?w)))"
    and same: "snd (spec_request opts req now passed) = passed"
    using spec by (auto simp: spec_request_def Let_def split: option.splits if_splits)
  then obtain oldest rest where recent: "passed_since passed key (now - ?w) = oldest # rest"
    using assms(2) by (cases "passed_since passed key (now - ?w)") auto
  then have r: "r = ceil_seconds (oldest + ?w - now)"
    using spec full by (auto simp: spec_request_def key Let_def)
  have "oldest \<in> set (passed_since passed key (now - ?w))" by (simp add: recent)
  then have pos: "oldest > now - ?w" by (auto simp: passed_since_def)
  have enough: "oldest + ?w - now \<le> 1000 * r" and one: "1 \<le> r"
    using pos unfolding r ceil_seconds_def by linarith+
  have "int (length (oldest # rest)) \<le> lo_max opts"
    using ok(2) since_le_window [OF ok(1), of key ?w] recent by (auto simp: window_bounded_def)
  moreover have "passed_since passed key (later - ?w) = filter (\<lambda>t. t > later - ?w) (oldest # rest)"
    using passed_since_later [of "now - ?w" "later - ?w" passed key] one assms(7) recent by simp
  then have "length (passed_since passed key (later - ?w)) \<le> length rest" using enough assms(7) by simp
  ultimately have room: "int (length (passed_since passed key (later - ?w))) < lo_max opts" by simp
  have "now \<le> later" using one assms(7) by simp
  then have "store_ok opts later store' passed" using store_ok_later ok' same by metis
  from rateLimiter_step(1) [OF this assms(1), of req'] room assms(6) key one
  show ?thesis by (simp add: spec_request_def Let_def)
qed

section \<open>The client chooses the key\<close>

text \<open>
  The limiters that key on the address trust the forwarding header, which the client sends: logins
  that differ in it never share a bucket, so the limit of ten per minute stops none of them.
\<close>

lemma fresh_key_passes:
  assumes "limiter_getKey opts req = Some key" "map_of store key = None" "0 < lo_max opts"
  shows "rateLimiter opts req now store =
     (Proceed (lo_max opts - 1), AList.update key \<lparr>we_timestamps = [now], we_lastSeen = now\<rparr> store)"
  using assms by (simp add: rateLimiter_def Let_def)

definition login_from :: "string \<Rightarrow> string \<Rightarrow> http_request" where
  "login_from ip addr = \<lparr>rq_forwardedFor = HV_string ip, rq_remoteAddress = Some addr, rq_userId = None\<rparr>"

text \<open>
  The login limiter does not bound an attacker who varies the forwarding header: however many
  attempts one address makes at one instant, all pass when their headers are pairwise different.
\<close>

theorem spoofed_header_evades_limit:
  assumes "distinct ips" "\<forall>ip\<in>set ips. CHR '','' \<notin> set ip \<and> js_trim ip = ip"
  shows "limiter_run loginRateLimiter (map (\<lambda>ip. Request (login_from ip addr) now) ips) [] =
     replicate (length ips) (Proceed 9)"
proof -
  have "limiter_run loginRateLimiter (map (\<lambda>ip. Request (login_from ip addr) now) ips) store = replicate (length ips) (Proceed 9)"
    if "\<forall>ip\<in>set ips. map_of store ip = None" for store
    using assms that
  proof (induction ips arbitrary: store)
    case (Cons ip ips)
    have key: "limiter_getKey loginRateLimiter (login_from ip addr) = Some ip"
      using Cons.prems(2) by (simp add: limiter_getKey_def loginRateLimiter_def login_from_def split_on_no_sep)
    have pass: "rateLimiter loginRateLimiter (login_from ip addr) now store =
        (Proceed 9, AList.update ip \<lparr>we_timestamps = [now], we_lastSeen = now\<rparr> store)"
      using fresh_key_passes [OF key] Cons.prems(3) by (simp add: loginRateLimiter_def)
    have "\<forall>x\<in>set ips. map_of (AList.update ip \<lparr>we_timestamps = [now], we_lastSeen = now\<rparr> store) x = None"
      using Cons.prems by (auto simp: update_conv')
    then show ?case using Cons by (simp add: pass)
  qed simp
  then show ?thesis by simp
qed

section \<open>Concrete runs\<close>

definition hit_from :: "string \<Rightarrow> int \<Rightarrow> limiter_event" where
  "hit_from ip now = Request (login_from ip ''10.0.0.1'') now"

definition two_per_second :: limiter_options where
  "two_per_second = \<lparr>lo_windowMs = 1000, lo_max = 2, lo_keyFn = None\<rparr>"

definition demo_hits :: "limiter_event list" where
  "demo_hits = [hit_from ''a'' 0, hit_from ''a'' 100, hit_from ''a'' 200, Janitor 300, hit_from ''b'' 300, hit_from ''a'' 1001]"

theorem limiter_exact_witness:
  "limiter_run two_per_second demo_hits [] = [Proceed 1, Proceed 0, Limited 1, Proceed 1, Proceed 0]
   \<and> limiter_run two_per_second demo_hits [] = spec_run two_per_second demo_hits []"
proof -
  have "0 < lo_windowMs two_per_second" "sorted (map event_time demo_hits)" by code_simp+
  moreover have "limiter_run two_per_second demo_hits [] = [Proceed 1, Proceed 0, Limited 1, Proceed 1, Proceed 0]" by code_simp
  ultimately show ?thesis using limiter_exact by blast
qed

theorem rate_bounded_witness:
  "int (in_window (passed_of two_per_second demo_hits (limiter_run two_per_second demo_hits [])) ''a'' (- 800) 200) \<le> 2"
proof -
  have "0 < lo_windowMs two_per_second" "0 \<le> lo_max two_per_second" "sorted (map event_time demo_hits)" by code_simp+
  from rate_bounded [OF this, of "''a''" 200] show ?thesis by (simp add: two_per_second_def)
qed

theorem retry_after_suffices_witness:
  "\<exists>n. fst (rateLimiter two_per_second (login_from ''a'' ''10.0.0.1'') 1200
      (snd (rateLimiter two_per_second (login_from ''a'' ''10.0.0.1'') 200
        (fold (limiter_event_step two_per_second) [hit_from ''a'' 0, hit_from ''a'' 100] [])))) = Proceed n"
proof -
  let ?es = "[hit_from ''a'' 0, hit_from ''a'' 100]"
  let ?x = "rateLimiter two_per_second (login_from ''a'' ''10.0.0.1'') 200 (fold (limiter_event_step two_per_second) ?es [])"
  have "fst ?x = Limited 1" by code_simp
  then have x: "?x = (Limited 1, snd ?x)" by (metis prod.collapse)
  have "0 < lo_windowMs two_per_second" "0 < lo_max two_per_second" "sorted (map event_time ?es)"
    "\<forall>e\<in>set ?es. event_time e \<le> 200" by code_simp+
  from retry_after_suffices [OF this x refl, of 1200] show ?thesis by simp
qed

theorem spoofed_header_evades_limit_witness:
  "limiter_run loginRateLimiter (map (\<lambda>ip. Request (login_from ip ''10.0.0.1'') 0)
     [''1'', ''2'', ''3'', ''4'', ''5'', ''6'', ''7'', ''8'', ''9'', ''10'', ''11'', ''12'']) [] = replicate 12 (Proceed 9)"
proof -
  let ?ips = "[''1'', ''2'', ''3'', ''4'', ''5'', ''6'', ''7'', ''8'', ''9'', ''10'', ''11'', ''12'']"
  have "distinct ?ips" "\<forall>ip\<in>set ?ips. CHR '','' \<notin> set ip \<and> js_trim ip = ip" by code_simp+
  moreover have "length ?ips = 12" by code_simp
  ultimately show ?thesis using spoofed_header_evades_limit [of ?ips "''10.0.0.1''" 0] by presburger
qed

end
