(* ===== verification/Login.thy ===== *)
theory Login
  imports Api_Keys Rate_Limiter
begin

text \<open>
  Password login (\<^verbatim>\<open>api-gateway/src/auth/local-provider.ts\<close>): hashing and verifying of
  passwords, the limiter of failed attempts and the provider.  The key-derivation function scrypt
  and the salt are parameters; bytes are numbers below 256.
\<close>

section \<open>Passwords\<close>

definition DEFAULT_PASSWORD_MIN_LENGTH :: int where
  "DEFAULT_PASSWORD_MIN_LENGTH = 12"

definition SCRYPT_KEYLEN :: nat where
  "SCRYPT_KEYLEN = 64"

definition SALT_BYTES :: nat where
  "SALT_BYTES = 16"

definition hex_digit :: "nat \<Rightarrow> char" where
  "hex_digit n = (if n < 10 then char_of (48 + n) else char_of (87 + n))"

definition hex_value :: "char \<Rightarrow> nat option" where
  "hex_value c = (let n = of_char c :: nat in
     if 48 \<le> n \<and> n \<le> 57 then Some (n - 48)
     else if 97 \<le> n \<and> n \<le> 102 then Some (n - 87)
     else if 65 \<le> n \<and> n \<le> 70 then Some (n - 55) else None)"

definition toHex :: "nat list \<Rightarrow> string" where
  "toHex bs = concat (map (\<lambda>b. [hex_digit (b div 16), hex_digit (b mod 16)]) bs)"

text \<open>Decoding stops at the first pair that is not hexadecimal and drops a last single digit.\<close>

fun fromHex :: "string \<Rightarrow> nat list" where
  "fromHex (a # b # s) =
     (case (hex_value a, hex_value b) of (Some x, Some y) \<Rightarrow> (16 * x + y) # fromHex s | _ \<Rightarrow> [])"
| "fromHex s = []"

type_synonym scrypt = "string \<Rightarrow> nat list \<Rightarrow> nat \<Rightarrow> nat list option"

text \<open>\<^verbatim>\<open>None\<close> stands for an exception of scrypt or, in hashing, for the TypeError on an empty password.\<close>

definition hashPassword :: "scrypt \<Rightarrow> nat list \<Rightarrow> string \<Rightarrow> string option" where
  "hashPassword scrypt salt password =
     (if password = '''' then None
      else (case scrypt password salt SCRYPT_KEYLEN of
              None \<Rightarrow> None
            | Some derived \<Rightarrow> Some (toHex salt @ '':'' @ toHex derived)))"

definition verifyPassword :: "scrypt \<Rightarrow> string \<Rightarrow> string \<Rightarrow> bool" where
  "verifyPassword scrypt password stored =
     (if CHR '':'' \<notin> set stored then False
      else (let parts = split_on (CHR '':'') stored; saltHex = parts ! 0; hashHex = parts ! 1 in
        if saltHex = '''' \<or> hashHex = '''' then False
        else (let expected = fromHex hashHex in
          if expected = [] then False
          else (case scrypt password (fromHex saltHex) (length expected) of
                  None \<Rightarrow> False
                | Some derived \<Rightarrow> if length derived \<noteq> length expected then False else derived = expected))))"

section \<open>The limiter of failed attempts\<close>

record login_limiter =
  ll_max :: int
  ll_windowMs :: int

definition default_login_limiter :: login_limiter where
  "default_login_limiter = \<lparr>ll_max = 5, ll_windowMs = 5 * 60 * 1000\<rparr>"

type_synonym login_windows = "(string, int list) js_map"

definition limiter_key :: "string option \<Rightarrow> string \<Rightarrow> string" where
  "limiter_key ip userLogin = coalesce ip ''-'' @ ''|'' @ js_toLowerCase userLogin"

definition isBlocked :: "login_limiter \<Rightarrow> int \<Rightarrow> string option \<Rightarrow> string \<Rightarrow> login_windows \<Rightarrow> bool \<times> login_windows" where
  "isBlocked lim now ip userLogin ws =
     (let k = limiter_key ip userLogin in
      case map_of ws k of
        None \<Rightarrow> (False, ws)
      | Some attempts \<Rightarrow>
          (let active = filter (\<lambda>t. t > now - ll_windowMs lim) attempts;
               ws' = (if active = [] then AList.delete k ws else AList.update k active ws)
           in (int (length active) \<ge> ll_max lim, ws')))"

definition retryAfterMs :: "login_limiter \<Rightarrow> int \<Rightarrow> string option \<Rightarrow> string \<Rightarrow> login_windows \<Rightarrow> int" where
  "retryAfterMs lim now ip userLogin ws =
     (case map_of ws (limiter_key ip userLogin) of
        None \<Rightarrow> 0
      | Some attempts \<Rightarrow>
          (let active = filter (\<lambda>t. t > now - ll_windowMs lim) attempts in
           if int (length active) < ll_max lim then 0
           else (case active of [] \<Rightarrow> 0 | oldest # _ \<Rightarrow> max 0 (oldest + ll_windowMs lim - now))))"

definition recordFailure :: "int \<Rightarrow> string option \<Rightarrow> string \<Rightarrow> login_windows \<Rightarrow> login_windows" where
  "recordFailure now ip userLogin ws =
     (let k = limiter_key ip userLogin; attempts = coalesce (map_of ws k) [] in AList.update k (attempts @ [now]) ws)"

definition limiter_reset :: "string option \<Rightarrow> string \<Rightarrow> login_windows \<Rightarrow> login_windows" where
  "limiter_reset ip userLogin ws = AList.delete (limiter_key ip userLogin) ws"

definition limiter_clear :: "login_windows \<Rightarrow> login_windows" where
  "limiter_clear ws = []"

section \<open>The provider\<close>

datatype auth_error = InvalidCredentials | RateLimited int

record login_input =
  li_user :: string
  li_password :: string
  li_ip :: "string option"

definition login_candidate :: "user_row list \<Rightarrow> string \<Rightarrow> user_row option" where
  "login_candidate users name =
     (case user_findByLogin users name of Some u \<Rightarrow> Some u | None \<Rightarrow> user_findByEmail users name)"

definition local_login ::
  "scrypt \<Rightarrow> login_limiter \<Rightarrow> user_row list \<Rightarrow> int \<Rightarrow> login_input \<Rightarrow> login_windows \<Rightarrow> (auth_error + user_row) \<times> login_windows" where
  "local_login scrypt lim users now input ws =
     (let name = li_user input; password = li_password input; ip = li_ip input in
      if name = '''' \<or> password = '''' then (Inl InvalidCredentials, ws)
      else (case isBlocked lim now ip name ws of
        (True, ws') \<Rightarrow> (Inl (RateLimited (ceil_seconds (retryAfterMs lim now ip name ws'))), ws')
      | (False, ws') \<Rightarrow>
          (let failed = (Inl InvalidCredentials, recordFailure now ip name ws') in
           case login_candidate users name of
             None \<Rightarrow> failed
           | Some candidate \<Rightarrow>
               if us_isDisabled candidate then failed
               else if us_isServiceAccount candidate then failed
               else (case us_password candidate of
                       None \<Rightarrow> failed
                     | Some stored \<Rightarrow>
                         if stored = '''' then failed
                         else if \<not> verifyPassword scrypt password stored then failed
                         else (Inr candidate, limiter_reset ip name ws')))))"

section \<open>Hashing and verifying\<close>

lemma hex_value_digit: "n < 16 \<Longrightarrow> hex_value (hex_digit n) = Some n"
  by (auto simp: hex_value_def hex_digit_def Let_def of_char_of)

lemma fromHex_toHex: "\<forall>b\<in>set bs. b < 256 \<Longrightarrow> fromHex (toHex bs) = bs"
  by (induction bs) (auto simp: toHex_def hex_value_digit)

lemma hex_digit_colon: "n < 16 \<Longrightarrow> hex_digit n \<noteq> CHR '':''"
  using hex_value_digit [of n] by (auto simp: hex_value_def)

lemma toHex_colon: "\<forall>b\<in>set bs. b < 256 \<Longrightarrow> CHR '':'' \<notin> set (toHex bs)"
proof (induction bs)
  case (Cons b bs)
  have "b div 16 < 16" "b mod 16 < 16" using Cons.prems by (auto simp: less_mult_imp_div_less)
  then show ?case using Cons hex_digit_colon [of "b div 16"] hex_digit_colon [of "b mod 16"] by (auto simp: toHex_def)
qed (simp add: toHex_def)

lemma toHex_empty [simp]: "toHex bs = '''' \<longleftrightarrow> bs = []"
  by (auto simp: toHex_def)

lemma toHex_split:
  assumes "\<forall>b\<in>set xs. b < 256" "\<forall>b\<in>set ys. b < 256"
  shows "split_on (CHR '':'') (toHex xs @ CHR '':'' # toHex ys) = [toHex xs, toHex ys]"
  using assms by (simp add: split_on_append_sep split_on_no_sep toHex_colon)

text \<open>
  C37. A stored password hash accepts exactly the passwords with the same derived key: for a salt of
  bytes that is not empty and a key-derivation function that yields the requested number of bytes,
  every password that can be hashed is accepted again, and any other password is accepted if and
  only if scrypt derives the same key from it.
\<close>

theorem password_roundtrip:
  assumes "salt \<noteq> []" "\<forall>b\<in>set salt. b < 256"
    and "\<And>p key. scrypt p salt SCRYPT_KEYLEN = Some key \<Longrightarrow> length key = SCRYPT_KEYLEN \<and> (\<forall>b\<in>set key. b < 256)"
    and "hashPassword scrypt salt password = Some stored"
  shows "verifyPassword scrypt password stored
     \<and> verifyPassword scrypt other stored = (scrypt other salt SCRYPT_KEYLEN = scrypt password salt SCRYPT_KEYLEN)"
proof -
  obtain key where key: "scrypt password salt SCRYPT_KEYLEN = Some key" and stored: "stored = toHex salt @ '':'' @ toHex key"
    using assms(4) by (auto simp: hashPassword_def split: if_splits option.splits)
  have len: "length key = SCRYPT_KEYLEN" "\<forall>b\<in>set key. b < 256" using assms(3) [OF key] by auto
  then have "key \<noteq> []" by (auto simp: SCRYPT_KEYLEN_def)
  have verify: "verifyPassword scrypt p stored = (scrypt p salt SCRYPT_KEYLEN = Some key)" for p
    using assms(1,2) assms(3) [of p] len \<open>key \<noteq> []\<close>
    by (auto simp: verifyPassword_def stored toHex_split fromHex_toHex Let_def split: option.splits)
  then show ?thesis by (simp add: key)
qed
section \<open>The specification of the lockout\<close>

text \<open>
  The specification remembers the failed attempts that no later success of the same key has
  cleared, and the account an attempt with good credentials leads to.
\<close>

definition accepted :: "scrypt \<Rightarrow> user_row list \<Rightarrow> string \<Rightarrow> string \<Rightarrow> user_row option" where
  "accepted scrypt users name password =
     (case login_candidate users name of
        None \<Rightarrow> None
      | Some u \<Rightarrow> if \<not> us_isDisabled u \<and> \<not> us_isServiceAccount u
          \<and> (case us_password u of None \<Rightarrow> False | Some stored \<Rightarrow> stored \<noteq> '''' \<and> verifyPassword scrypt password stored)
          then Some u else None)"

definition spec_login ::
  "scrypt \<Rightarrow> login_limiter \<Rightarrow> user_row list \<Rightarrow> int \<Rightarrow> login_input \<Rightarrow> passed_log \<Rightarrow> (auth_error + user_row) \<times> passed_log" where
  "spec_login scrypt lim users now input fails =
     (let key = limiter_key (li_ip input) (li_user input); recent = passed_since fails key (now - ll_windowMs lim) in
      if li_user input = '''' \<or> li_password input = '''' then (Inl InvalidCredentials, fails)
      else if int (length recent) \<ge> ll_max lim
      then (Inl (RateLimited (ceil_seconds (hd recent + ll_windowMs lim - now))), fails)
      else (case accepted scrypt users (li_user input) (li_password input) of
              None \<Rightarrow> (Inl InvalidCredentials, fails @ [(key, now)])
            | Some u \<Rightarrow> (Inr u, filter (\<lambda>(k, t). k \<noteq> key) fails)))"

fun login_run ::
  "scrypt \<Rightarrow> login_limiter \<Rightarrow> user_row list \<Rightarrow> (int \<times> login_input) list \<Rightarrow> login_windows \<Rightarrow> (auth_error + user_row) list \<times> login_windows" where
  "login_run scrypt lim users [] ws = ([], ws)"
| "login_run scrypt lim users ((now, input) # es) ws =
     (let (r, ws') = local_login scrypt lim users now input ws; (rs, ws'') = login_run scrypt lim users es ws' in (r # rs, ws''))"

fun spec_login_run ::
  "scrypt \<Rightarrow> login_limiter \<Rightarrow> user_row list \<Rightarrow> (int \<times> login_input) list \<Rightarrow> passed_log \<Rightarrow> (auth_error + user_row) list \<times> passed_log" where
  "spec_login_run scrypt lim users [] fails = ([], fails)"
| "spec_login_run scrypt lim users ((now, input) # es) fails =
     (let (r, fails') = spec_login scrypt lim users now input fails; (rs, fails'') = spec_login_run scrypt lim users es fails' in (r # rs, fails''))"

definition windows_ok :: "login_limiter \<Rightarrow> int \<Rightarrow> login_windows \<Rightarrow> passed_log \<Rightarrow> bool" where
  "windows_ok lim now ws fails \<longleftrightarrow>
     (\<forall>key. filter (\<lambda>t. t > now - ll_windowMs lim) (coalesce (map_of ws key) []) = passed_since fails key (now - ll_windowMs lim))"

lemma windows_ok_later:
  assumes "windows_ok lim now ws fails" "now \<le> now'"
  shows "windows_ok lim now' ws fails"
proof -
  have le: "now - ll_windowMs lim \<le> now' - ll_windowMs lim" using assms(2) by simp
  show ?thesis
    using assms(1) unfolding windows_ok_def by (metis passed_since_later [OF le] filter_later [OF le])
qed

lemma passed_since_idem: "filter (\<lambda>t. t > a) (passed_since fails key a) = passed_since fails key a"
  using passed_since_later [of a a fails key] by simp

lemma passed_since_cleared:
  "passed_since (filter (\<lambda>(k, t). k \<noteq> key) fails) k a = (if k = key then [] else passed_since fails k a)"
  by (induction fails) (auto simp: passed_since_def)

lemma isBlocked_ok:
  fixes ip name lim now fails
  defines "recent \<equiv> passed_since fails (limiter_key ip name) (now - ll_windowMs lim)"
  assumes "windows_ok lim now ws fails" "0 < ll_max lim"
  shows "fst (isBlocked lim now ip name ws) = (int (length recent) \<ge> ll_max lim)"
    and "windows_ok lim now (snd (isBlocked lim now ip name ws)) fails"
    and "recent \<noteq> [] \<Longrightarrow> map_of (snd (isBlocked lim now ip name ws)) (limiter_key ip name) = Some recent"
proof -
  let ?k = "limiter_key ip name"
  have r: "filter (\<lambda>t. t > now - ll_windowMs lim) (coalesce (map_of ws ?k) []) = recent"
    using assms(2) by (simp add: windows_ok_def recent_def)
  show "fst (isBlocked lim now ip name ws) = (int (length recent) \<ge> ll_max lim)"
    using r assms(3) by (auto simp: isBlocked_def Let_def split: option.splits)
  show "recent \<noteq> [] \<Longrightarrow> map_of (snd (isBlocked lim now ip name ws)) ?k = Some recent"
    using r by (cases "map_of ws ?k") (auto simp: isBlocked_def Let_def update_conv')
  show "windows_ok lim now (snd (isBlocked lim now ip name ws)) fails"
    unfolding windows_ok_def
  proof
    fix key
    have "filter (\<lambda>t. t > now - ll_windowMs lim) (coalesce (map_of (snd (isBlocked lim now ip name ws)) key) [])
        = filter (\<lambda>t. t > now - ll_windowMs lim) (coalesce (map_of ws key) [])"
      by (cases "key = ?k") (auto simp: isBlocked_def Let_def update_conv' delete_conv' split: option.splits)
    then show "filter (\<lambda>t. t > now - ll_windowMs lim) (coalesce (map_of (snd (isBlocked lim now ip name ws)) key) [])
        = passed_since fails key (now - ll_windowMs lim)"
      using assms(2) by (simp add: windows_ok_def)
  qed
qed

lemma retryAfterMs_ok:
  assumes "map_of ws (limiter_key ip name) = Some recent" "recent \<noteq> []" "\<forall>t\<in>set recent. now - ll_windowMs lim < t"
    and "int (length recent) \<ge> ll_max lim"
  shows "retryAfterMs lim now ip name ws = hd recent + ll_windowMs lim - now"
proof -
  have "filter (\<lambda>t. t > now - ll_windowMs lim) recent = recent" using assms(3) by simp
  then show ?thesis using assms by (cases recent) (auto simp: retryAfterMs_def)
qed

lemma recordFailure_ok:
  assumes "windows_ok lim now ws fails" "0 < ll_windowMs lim"
  shows "windows_ok lim now (recordFailure now ip name ws) (fails @ [(limiter_key ip name, now)])"
  using assms by (auto simp: windows_ok_def recordFailure_def Let_def update_conv' passed_since_snoc)

lemma limiter_reset_ok:
  assumes "windows_ok lim now ws fails"
  shows "windows_ok lim now (limiter_reset ip name ws) (filter (\<lambda>(k, t). k \<noteq> limiter_key ip name) fails)"
  using assms by (auto simp: windows_ok_def limiter_reset_def delete_conv' passed_since_cleared)

lemma login_accepted:
  assumes "name \<noteq> ''''" "password \<noteq> ''''" "isBlocked lim now ip name ws = (False, ws')"
  shows "local_login scrypt lim users now \<lparr>li_user = name, li_password = password, li_ip = ip\<rparr> ws =
     (case accepted scrypt users name password of
        None \<Rightarrow> (Inl InvalidCredentials, recordFailure now ip name ws')
      | Some u \<Rightarrow> (Inr u, limiter_reset ip name ws'))"
  using assms by (auto simp: local_login_def accepted_def Let_def split: option.splits)

lemma login_step:
  assumes "windows_ok lim now ws fails" "0 < ll_max lim" "0 < ll_windowMs lim"
  shows "fst (local_login scrypt lim users now input ws) = fst (spec_login scrypt lim users now input fails)
     \<and> windows_ok lim now (snd (local_login scrypt lim users now input ws)) (snd (spec_login scrypt lim users now input fails))"
proof -
  obtain name password ip where input: "input = \<lparr>li_user = name, li_password = password, li_ip = ip\<rparr>"
    by (metis login_input.surjective unit_eq)
  let ?recent = "passed_since fails (limiter_key ip name) (now - ll_windowMs lim)"
  obtain b ws' where blocked: "isBlocked lim now ip name ws = (b, ws')" by fastforce
  have b: "b = (int (length ?recent) \<ge> ll_max lim)" and ok: "windows_ok lim now ws' fails"
    and at_key: "?recent \<noteq> [] \<Longrightarrow> map_of ws' (limiter_key ip name) = Some ?recent"
    using isBlocked_ok [OF assms(1,2), of ip name] by (simp_all add: blocked)
  consider "name = '''' \<or> password = ''''" | "name \<noteq> ''''" "password \<noteq> ''''" "b" | "name \<noteq> ''''" "password \<noteq> ''''" "\<not> b"
    by blast
  then show ?thesis
  proof cases
    case 1
    then show ?thesis using assms(1) by (auto simp: input local_login_def spec_login_def)
  next
    case 2
    then have full: "int (length ?recent) \<ge> ll_max lim" "?recent \<noteq> []" using b assms(2) by auto
    have "retryAfterMs lim now ip name ws' = hd ?recent + ll_windowMs lim - now"
      by (rule retryAfterMs_ok [OF at_key [OF full(2)] full(2) _ full(1)]) (auto simp: passed_since_def)
    then show ?thesis using 2 full ok blocked by (simp add: input local_login_def spec_login_def Let_def)
  next
    case 3
    then have run: "local_login scrypt lim users now input ws =
        (case accepted scrypt users name password of
           None \<Rightarrow> (Inl InvalidCredentials, recordFailure now ip name ws')
         | Some u \<Rightarrow> (Inr u, limiter_reset ip name ws'))"
      unfolding input using login_accepted blocked by simp
    show ?thesis
      unfolding run using 3 b recordFailure_ok [OF ok assms(3)] limiter_reset_ok [OF ok]
      by (auto simp: spec_login_def input Let_def split: option.splits)
  qed
qed

lemma login_run_refines:
  assumes "0 < ll_max lim" "0 < ll_windowMs lim" "windows_ok lim now ws fails" "sorted (now # map fst es)"
  shows "fst (login_run scrypt lim users es ws) = fst (spec_login_run scrypt lim users es fails)"
  using assms(3,4)
proof (induction es arbitrary: now ws fails)
  case (Cons e es)
  obtain t input where e: "e = (t, input)" by fastforce
  have ok: "windows_ok lim t ws fails" using windows_ok_later [OF Cons.prems(1)] Cons.prems(2) by (simp add: e)
  have t: "sorted (t # map fst es)" using Cons.prems(2) by (simp add: e)
  have step: "fst (local_login scrypt lim users t input ws) = fst (spec_login scrypt lim users t input fails)"
    "windows_ok lim t (snd (local_login scrypt lim users t input ws)) (snd (spec_login scrypt lim users t input fails))"
    using login_step [OF ok assms(1,2), of scrypt users input] by auto
  show ?case using step(1) Cons.IH [OF step(2) t] by (simp add: e split_beta)
qed simp

lemma login_from_empty:
  assumes "0 < ll_max lim" "0 < ll_windowMs lim" "sorted (map fst es)"
  shows "fst (login_run scrypt lim users es []) = fst (spec_login_run scrypt lim users es [])"
proof (cases es)
  case (Cons e es')
  have "windows_ok lim (fst e) [] []" by (simp add: windows_ok_def passed_since_def)
  moreover have "sorted (fst e # map fst es)" using assms(3) by (simp add: Cons)
  ultimately show ?thesis using login_run_refines [OF assms(1,2)] by blast
qed simp

text \<open>
  C23. The lockout is exact: on every sequence of login attempts with a clock that does not go back,
  the provider answers as the specification that remembers all failed attempts and lets a good
  password clear those of its own key; a locked key is refused without looking at the password.
\<close>

theorem login_lockout_exact:
  assumes "0 < ll_max lim" "0 < ll_windowMs lim" "sorted (map fst es)"
  shows "fst (login_run scrypt lim users es []) = fst (spec_login_run scrypt lim users es [])"
  by (rule login_from_empty [OF assms])

section \<open>The bound on guesses\<close>

text \<open>The failed attempts of a run that count: those after the last success of the same key.\<close>

definition limiter_of :: "login_limiter \<Rightarrow> limiter_options" where
  "limiter_of lim = \<lparr>lo_windowMs = ll_windowMs lim, lo_max = ll_max lim, lo_keyFn = None\<rparr>"

fun open_failures :: "(int \<times> login_input) list \<Rightarrow> (auth_error + user_row) list \<Rightarrow> passed_log \<Rightarrow> passed_log" where
  "open_failures ((now, input) # es) (r # rs) fails =
     (let key = limiter_key (li_ip input) (li_user input) in
      open_failures es rs
        (case r of
           Inl InvalidCredentials \<Rightarrow> if li_user input = '''' \<or> li_password input = '''' then fails else fails @ [(key, now)]
         | Inl (RateLimited w) \<Rightarrow> fails
         | Inr u \<Rightarrow> filter (\<lambda>(k, t). k \<noteq> key) fails))"
| "open_failures es rs fails = fails"

lemma in_window_cleared: "in_window (filter P fails) key a b \<le> in_window fails key a b"
  by (induction fails) (auto simp: in_window_def)

lemma window_bounded_cleared: "window_bounded opts fails \<Longrightarrow> window_bounded opts (filter P fails)"
  unfolding window_bounded_def by (meson in_window_cleared of_nat_mono order_trans)

lemma open_failures_bounded:
  "window_bounded (limiter_of lim) fails \<Longrightarrow>
     window_bounded (limiter_of lim) (open_failures es (fst (spec_login_run scrypt lim users es fails)) fails)"
proof (induction es arbitrary: fails)
  case (Cons e es)
  obtain now input where e: "e = (now, input)" by fastforce
  let ?key = "limiter_key (li_ip input) (li_user input)"
  have "window_bounded (limiter_of lim) (fails @ [(?key, now)])"
    if "int (length (passed_since fails ?key (now - ll_windowMs lim))) < ll_max lim"
    using window_bounded_pass [OF Cons.prems, of ?key now] that by (simp add: limiter_of_def)
  then show ?case
    using Cons.IH [of fails] Cons.IH [of "fails @ [(?key, now)]"] Cons.IH [of "filter (\<lambda>(k, t). k \<noteq> ?key) fails"]
      Cons.prems window_bounded_cleared [OF Cons.prems]
    by (auto simp: e spec_login_def Let_def split_beta split: option.splits)
qed simp

text \<open>
  Guessing is bounded: between two successful logins of the same address and name, at most the
  configured number of wrong passwords (5 by default) are tried within any span of the window's
  length (5 minutes by default), whatever the order of the attempts of all clients.
\<close>

theorem login_guess_bound:
  assumes "0 < ll_max lim" "0 < ll_windowMs lim" "sorted (map fst es)"
  shows "int (in_window (open_failures es (fst (login_run scrypt lim users es [])) []) key (stop - ll_windowMs lim) stop) \<le> ll_max lim"
proof -
  have "window_bounded (limiter_of lim) []" using assms(1) by (simp add: window_bounded_def in_window_def limiter_of_def)
  then show ?thesis
    using open_failures_bounded [of lim "[]" es scrypt users] login_from_empty [OF assms]
    by (simp add: window_bounded_def limiter_of_def)
qed

section \<open>Witnesses\<close>

definition toy_scrypt :: scrypt where
  "toy_scrypt p salt n = Some (replicate n (length p mod 256))"

definition ann_row :: user_row where
  "ann_row = \<lparr>us_id = ''u1'', us_login = ''ann'', us_email = ''ann@x'', us_password = Some ''0a:03'', us_orgId = ''o1'',
     us_isAdmin = False, us_isDisabled = False, us_isServiceAccount = False\<rparr>"

definition try_login :: "int \<Rightarrow> string \<Rightarrow> int \<times> login_input" where
  "try_login now p = (now, \<lparr>li_user = ''Ann'', li_password = p, li_ip = Some ''1.2.3.4''\<rparr>)"

definition two_tries :: login_limiter where
  "two_tries = \<lparr>ll_max = 2, ll_windowMs = 1000\<rparr>"

theorem password_roundtrip_witness:
  "\<exists>stored. hashPassword toy_scrypt [7, 9] ''secret'' = Some stored \<and> verifyPassword toy_scrypt ''secret'' stored
     \<and> \<not> verifyPassword toy_scrypt ''wrong'' stored"
proof -
  obtain stored where stored: "hashPassword toy_scrypt [7, 9] ''secret'' = Some stored"
    by (simp add: hashPassword_def toy_scrypt_def)
  have "verifyPassword toy_scrypt ''secret'' stored
      \<and> verifyPassword toy_scrypt ''wrong'' stored = (toy_scrypt ''wrong'' [7, 9] SCRYPT_KEYLEN = toy_scrypt ''secret'' [7, 9] SCRYPT_KEYLEN)"
    by (rule password_roundtrip [OF _ _ _ stored]) (auto simp: toy_scrypt_def)
  moreover have "toy_scrypt ''wrong'' [7, 9] SCRYPT_KEYLEN \<noteq> toy_scrypt ''secret'' [7, 9] SCRYPT_KEYLEN"
    by (auto simp: toy_scrypt_def SCRYPT_KEYLEN_def replicate_eq_replicate)
  ultimately show ?thesis using stored by blast
qed

theorem login_lockout_exact_witness:
  "fst (login_run toy_scrypt two_tries [ann_row] [try_login 0 ''no'', try_login 10 ''no'', try_login 20 ''abc''] [])
     = fst (spec_login_run toy_scrypt two_tries [ann_row] [try_login 0 ''no'', try_login 10 ''no'', try_login 20 ''abc''] [])"
  by (rule login_lockout_exact) (simp_all add: two_tries_def try_login_def)

theorem login_guess_bound_witness:
  "int (in_window (open_failures [try_login 0 ''no'', try_login 10 ''no'', try_login 20 ''abc'']
      (fst (login_run toy_scrypt two_tries [ann_row] [try_login 0 ''no'', try_login 10 ''no'', try_login 20 ''abc''] [])) [])
      ''1.2.3.4|ann'' (- 900) 100) \<le> 2"
  using login_guess_bound [of two_tries "[try_login 0 ''no'', try_login 10 ''no'', try_login 20 ''abc'']" toy_scrypt "[ann_row]"
      "''1.2.3.4|ann''" 100]
  by (simp add: two_tries_def try_login_def)

end
