(* ===== verification/Request_Gate.thy ===== *)
theory Request_Gate
  imports Access_Control Sessions Login
begin

text \<open>
  The way of a request to a handler (\<^verbatim>\<open>api-gateway/src/middleware\<close>): the double-submit check
  (\<^verbatim>\<open>csrf.ts\<close>), authentication by session cookie or API token (\<^verbatim>\<open>auth.ts\<close>), the
  organisation of the request (\<^verbatim>\<open>org-context.ts\<close>, \<^verbatim>\<open>workspace-context.ts\<close>), the gate of the
  setup phase (\<^verbatim>\<open>bootstrap-aware.ts\<close>), and the chains in which \<^verbatim>\<open>server.ts\<close>,
  \<^verbatim>\<open>app/rbac-routes.ts\<close>, \<^verbatim>\<open>app/domain-routes.ts\<close> and the routers mount them: which of them a
  request passes, and in which order, depends on the route.  A request is served at one time.  Failures of the database, which the middleware answers
  with status 500, are not modelled.
\<close>

section \<open>Requests and cookies\<close>

record gate_request =
  gr_method :: string
  gr_path :: string
  gr_baseUrl :: string
  gr_headers :: "string \<Rightarrow> header_value"
  gr_queryOrgId :: header_value
  gr_remote :: "string option"

definition header_string :: "header_value \<Rightarrow> string option" where
  "header_string h = (case h of HV_string v \<Rightarrow> Some v | _ \<Rightarrow> None)"

text \<open>A part of the header: the name up to the first equals sign and the value after it.\<close>

definition cookie_pair :: "string \<Rightarrow> string \<times> string" where
  "cookie_pair part = (let ps = split_on (CHR ''='') (js_trim part) in (hd ps, join_with ''='' (tl ps)))"

definition readCookie :: "string option \<Rightarrow> string \<Rightarrow> string option" where
  "readCookie cookieHeader name =
     (case cookieHeader of
        None \<Rightarrow> None
      | Some h \<Rightarrow>
          if h = '''' then None
          else (case List.find (\<lambda>(k, v). k = name) (map cookie_pair (split_on (CHR '';'') h)) of
                  None \<Rightarrow> None
                | Some (k, v) \<Rightarrow> if v = '''' then None else Some v))"

definition request_cookie :: "gate_request \<Rightarrow> string \<Rightarrow> string option" where
  "request_cookie req name = readCookie (header_string (gr_headers req ''cookie'')) name"

definition bearerToken :: "gate_request \<Rightarrow> string option" where
  "bearerToken req =
     (case header_string (gr_headers req ''authorization'') of
        Some h \<Rightarrow> if js_startsWith h ''Bearer '' then Some (js_trim (drop 7 h))
                  else (case header_string (gr_headers req ''x-api-key'') of
                          Some k \<Rightarrow> if k = '''' then None else Some k | None \<Rightarrow> None)
      | None \<Rightarrow> (case header_string (gr_headers req ''x-api-key'') of
                   Some k \<Rightarrow> if k = '''' then None else Some k | None \<Rightarrow> None))"

section \<open>Authentication\<close>

record auth_identity = identity +
  ai_authenticatedBy :: string
  ai_sessionId :: "string option"
  ai_serviceAccountId :: "string option"

record auth_deps =
  ad_keys :: key_env
  ad_sessionOptions :: session_options
  ad_apiKeyService :: bool

record auth_state =
  as_tokens :: "auth_token list"
  as_keys :: key_state

type_synonym refusal = "nat \<times> string"

definition membership_role :: "key_env \<Rightarrow> string \<Rightarrow> string \<Rightarrow> string" where
  "membership_role env orgId userId = (case findMembership (ke_orgUsers env) orgId userId of Some m \<Rightarrow> ou_role m | None \<Rightarrow> ''None'')"

definition session_branch ::
  "auth_deps \<Rightarrow> int \<Rightarrow> string \<Rightarrow> auth_state \<Rightarrow> (refusal + auth_identity) \<times> auth_state" where
  "session_branch deps now rawSessionToken s =
     (case lookupByToken (ke_sha (ad_keys deps)) (ad_sessionOptions deps) now rawSessionToken (as_tokens s) of
        None \<Rightarrow> (Inl (401, ''SESSION_EXPIRED''), s)
      | Some row \<Rightarrow>
          (case user_findById (ke_users (ad_keys deps)) (at_userId row) of
             None \<Rightarrow> (Inl (401, ''USER_DISABLED''), s)
           | Some user \<Rightarrow>
               if us_isDisabled user then (Inl (401, ''USER_DISABLED''), s)
               else (Inr \<lparr>id_userId = us_id user, id_orgId = us_orgId user,
                       id_orgRole = membership_role (ad_keys deps) (us_orgId user) (us_id user),
                       id_isServerAdmin = us_isAdmin user, id_permissions = None,
                       ai_authenticatedBy = ''session'', ai_sessionId = Some (at_id row), ai_serviceAccountId = None\<rparr>,
                     s\<lparr>as_tokens := session_markSeen now (at_id row) (as_tokens s)\<rparr>)))"

definition service_branch ::
  "auth_deps \<Rightarrow> int \<Rightarrow> string \<Rightarrow> auth_state \<Rightarrow> (refusal + auth_identity) \<times> auth_state" where
  "service_branch deps now tok s =
     (let (lookup, ks) = validateAndLookup (ad_keys deps) now tok (as_keys s); s' = s\<lparr>as_keys := ks\<rparr> in
      case lookup of
        None \<Rightarrow> (Inl (401, ''INVALID_API_KEY''), s')
      | Some l \<Rightarrow> (Inr \<lparr>id_userId = us_id (kl_user l), id_orgId = kl_orgId l, id_orgRole = kl_role l,
                    id_isServerAdmin = kl_isServerAdmin l, id_permissions = None,
                    ai_authenticatedBy = ''api_key'', ai_sessionId = None, ai_serviceAccountId = kl_serviceAccountId l\<rparr>, s'))"

text \<open>The fallback without the service, which only test configurations reach.\<close>

definition fallback_branch ::
  "auth_deps \<Rightarrow> int \<Rightarrow> string \<Rightarrow> auth_state \<Rightarrow> (refusal + auth_identity) \<times> auth_state" where
  "fallback_branch deps now tok s =
     (case findByHashedKey (ks_keys (as_keys s)) (ke_sha (ad_keys deps) tok) of
        None \<Rightarrow> (Inl (401, ''INVALID_API_KEY''), s)
      | Some row \<Rightarrow>
          if (case ak_expires row of Some e \<Rightarrow> e < now | None \<Rightarrow> False) then (Inl (401, ''API_KEY_EXPIRED''), s)
          else (let s' = s\<lparr>as_keys := (as_keys s)\<lparr>ks_keys := touchLastUsed (ak_id row) now (ks_keys (as_keys s))\<rparr>\<rparr>;
                    principalId = coalesce (key_principal row) '''';
                    ident = (\<lambda>role adm. \<lparr>id_userId = principalId, id_orgId = ak_orgId row, id_orgRole = role,
                       id_isServerAdmin = adm, id_permissions = None, ai_authenticatedBy = ''api_key'',
                       ai_sessionId = None, ai_serviceAccountId = ak_serviceAccountId row\<rparr>)
                in if principalId = '''' then (Inr (ident ''None'' False), s')
                   else (case user_findById (ke_users (ad_keys deps)) principalId of
                           None \<Rightarrow> (Inl (401, ''USER_DISABLED''), s')
                         | Some owner \<Rightarrow>
                             if us_isDisabled owner then (Inl (401, ''USER_DISABLED''), s')
                             else (Inr (ident (membership_role (ad_keys deps) (ak_orgId row) principalId) (us_isAdmin owner)), s'))))"

definition authMiddleware ::
  "auth_deps \<Rightarrow> int \<Rightarrow> gate_request \<Rightarrow> auth_state \<Rightarrow> (refusal + auth_identity) \<times> auth_state" where
  "authMiddleware deps now req s =
     (case request_cookie req SESSION_COOKIE_NAME of
        Some rawSessionToken \<Rightarrow> session_branch deps now rawSessionToken s
      | None \<Rightarrow>
          (case bearerToken req of
             None \<Rightarrow> (Inl (401, ''UNAUTHORIZED''), s)
           | Some tok \<Rightarrow>
               if tok = '''' then (Inl (401, ''UNAUTHORIZED''), s)
               else if ad_apiKeyService deps then service_branch deps now tok s
               else fallback_branch deps now tok s))"

text \<open>Building the middleware: outside tests the service is required.\<close>

definition createAuthMiddleware ::
  "string \<Rightarrow> auth_deps \<Rightarrow> (int \<Rightarrow> gate_request \<Rightarrow> auth_state \<Rightarrow> (refusal + auth_identity) \<times> auth_state) result" where
  "createAuthMiddleware nodeEnv deps =
     (if \<not> ad_apiKeyService deps \<and> nodeEnv \<noteq> ''test''
      then Inl ''createAuthMiddleware: apiKeyService is required outside test mode - refusing to boot with the weaker pre-T6 raw-repo fallback path''
      else Inr (authMiddleware deps))"

section \<open>The double-submit check\<close>

definition CSRF_COOKIE_NAME :: string where
  "CSRF_COOKIE_NAME = ''openobs_csrf''"

definition CSRF_HEADER_NAME :: string where
  "CSRF_HEADER_NAME = ''x-csrf-token''"

definition SAFE_METHODS :: "string list" where
  "SAFE_METHODS = [''GET'', ''HEAD'', ''OPTIONS'']"

definition buildCsrfCookie :: "(int \<Rightarrow> string) \<Rightarrow> string \<Rightarrow> int option \<Rightarrow> bool option \<Rightarrow> string" where
  "buildCsrfCookie showInt tok maxAgeSec secure =
     join_with ''; '' ([CSRF_COOKIE_NAME @ ''='' @ tok, ''SameSite=Lax'', ''Path=/'',
        ''Max-Age='' @ showInt (coalesce maxAgeSec (60 * 60 * 24 * 7))] @ (if secure \<noteq> Some False then [''Secure''] else []))"

definition appendSetCookie :: "string \<Rightarrow> header_value \<Rightarrow> header_value" where
  "appendSetCookie v existing =
     (case existing of
        HV_undefined \<Rightarrow> HV_string v
      | HV_string e \<Rightarrow> if e = '''' then HV_string v else HV_list [e, v]
      | HV_list es \<Rightarrow> HV_list (es @ [v]))"

definition constantTimeEqual :: "string \<Rightarrow> string \<Rightarrow> bool" where
  "constantTimeEqual a b = (if length a \<noteq> length b then False else a = b)"

definition DEFAULT_EXEMPT_EXACT :: "string list" where
  "DEFAULT_EXEMPT_EXACT = [''/api/login'', ''/api/logout'', ''/api/setup/admin'', ''/api/saml/login'', ''/api/saml/acs'',
     ''/api/saml/metadata'', ''/api/saml/slo'']"

text \<open>The pattern of the OAuth routes: one segment after the prefix, or one segment and \<^verbatim>\<open>callback\<close>.\<close>

definition exempt_oauth :: "string \<Rightarrow> bool" where
  "exempt_oauth path \<longleftrightarrow> js_startsWith path ''/api/login/''
     \<and> (case split_on (CHR ''/'') (drop 11 path) of
          [provider] \<Rightarrow> provider \<noteq> ''''
        | [provider, rest] \<Rightarrow> provider \<noteq> '''' \<and> rest = ''callback''
        | _ \<Rightarrow> False)"

definition isExempt :: "string \<Rightarrow> string list \<Rightarrow> (string \<Rightarrow> bool) list \<Rightarrow> bool" where
  "isExempt path exemptExact exemptRegex \<longleftrightarrow> path \<in> set exemptExact \<or> list_ex (\<lambda>test. test path) exemptRegex"

record csrf_options =
  co_exact :: "string list"
  co_regex :: "(string \<Rightarrow> bool) list"
  co_production :: bool
  co_showInt :: "int \<Rightarrow> string"

text \<open>The answer, and the cookie header of the response.\<close>

definition csrfMiddleware ::
  "csrf_options \<Rightarrow> string \<Rightarrow> gate_request \<Rightarrow> header_value \<Rightarrow> (refusal + unit) \<times> header_value" where
  "csrfMiddleware opts fresh req setCookie =
     (if isExempt (gr_path req) (DEFAULT_EXEMPT_EXACT @ co_exact opts) (exempt_oauth # co_regex opts) then (Inr (), setCookie)
      else (let sessionCookie = request_cookie req SESSION_COOKIE_NAME;
                csrfCookie = request_cookie req CSRF_COOKIE_NAME;
                hasBearer = ((case header_string (gr_headers req ''authorization'') of Some h \<Rightarrow> js_startsWith h ''Bearer '' | None \<Rightarrow> False)
                   \<or> (case header_string (gr_headers req ''x-api-key'') of Some k \<Rightarrow> k \<noteq> '''' | None \<Rightarrow> False));
                safe = (gr_method req \<in> set SAFE_METHODS)
            in if hasBearer \<and> sessionCookie = None then (Inr (), setCookie)
               else if sessionCookie \<noteq> None \<and> csrfCookie = None
               then (if safe then Inr () else Inl (403, ''CSRF_FAILED''),
                     appendSetCookie (buildCsrfCookie (co_showInt opts) fresh None (Some (co_production opts))) setCookie)
               else if safe then (Inr (), setCookie)
               else if sessionCookie = None then (Inr (), setCookie)
               else (let headerValue = (case gr_headers req CSRF_HEADER_NAME of
                            HV_string v \<Rightarrow> Some v | HV_list vs \<Rightarrow> arr_get vs 0 | HV_undefined \<Rightarrow> None)
                     in case (headerValue, csrfCookie) of
                          (Some v, Some c) \<Rightarrow>
                            if v = '''' \<or> \<not> constantTimeEqual v c then (Inl (403, ''CSRF_FAILED''), setCookie) else (Inr (), setCookie)
                        | _ \<Rightarrow> (Inl (403, ''CSRF_FAILED''), setCookie))))"

section \<open>The organisation of a request\<close>

definition ORG_HEADER :: string where
  "ORG_HEADER = ''x-openobs-org-id''"

definition explicit_org :: "gate_request \<Rightarrow> string option" where
  "explicit_org req =
     (case header_string (gr_headers req ORG_HEADER) of
        Some h \<Rightarrow> if h \<noteq> '''' then Some h else header_string (gr_queryOrgId req)
      | None \<Rightarrow> header_string (gr_queryOrgId req))"

definition orgContextMiddleware ::
  "key_env \<Rightarrow> gate_request \<Rightarrow> auth_identity option \<Rightarrow> refusal + auth_identity" where
  "orgContextMiddleware env req auth =
     (case auth of
        None \<Rightarrow> Inl (401, ''UNAUTHORIZED'')
      | Some ident \<Rightarrow>
          (let explicit = explicit_org req; desired = coalesce explicit (id_orgId ident) in
           if desired = '''' then Inl (403, ''FORBIDDEN'')
           else (case findMembership (ke_orgUsers env) desired (id_userId ident) of
                   None \<Rightarrow> if id_isServerAdmin ident \<and> given explicit = 0 then Inr ident else Inl (403, ''FORBIDDEN'')
                 | Some m \<Rightarrow> Inr (ident\<lparr>id_orgId := desired, id_orgRole := ou_role m\<rparr>))))"

definition getOrgId :: "gate_request \<Rightarrow> auth_identity option \<Rightarrow> string result" where
  "getOrgId req auth =
     (let authed = (case auth of Some i \<Rightarrow> id_orgId i | None \<Rightarrow> '''') in
      if authed \<noteq> '''' then Inr authed
      else if given (header_string (gr_headers req ORG_HEADER)) = 1 then Inr (the (header_string (gr_headers req ORG_HEADER)))
      else if given (header_string (gr_queryOrgId req)) = 1 then Inr (the (header_string (gr_queryOrgId req)))
      else Inl ''org context missing'')"

section \<open>Middleware chains\<close>

text \<open>What a request carries through a chain: the identity, the stores, the response cookie, the setup mark.\<close>

record gate_context =
  gc_auth :: "auth_identity option"
  gc_state :: auth_state
  gc_ipLimits :: limiter_store
  gc_userLimits :: limiter_store
  gc_queryLimits :: limiter_store
  gc_setCookie :: header_value
  gc_allowBootstrap :: bool

type_synonym middleware = "gate_context \<Rightarrow> refusal option \<times> gate_context"

fun walk_chain :: "middleware list \<Rightarrow> gate_context \<Rightarrow> refusal option \<times> gate_context" where
  "walk_chain [] c = (None, c)"
| "walk_chain (mw # mws) c =
     (case mw c of (Some refused, c') \<Rightarrow> (Some refused, c') | (None, c') \<Rightarrow> walk_chain mws c')"

definition limiter_request :: "gate_request \<Rightarrow> auth_identity option \<Rightarrow> http_request" where
  "limiter_request req auth = \<lparr>rq_forwardedFor = gr_headers req ''x-forwarded-for'', rq_remoteAddress = gr_remote req,
     rq_userId = map_option id_userId auth\<rparr>"

definition mw_csrf :: "csrf_options \<Rightarrow> string \<Rightarrow> gate_request \<Rightarrow> middleware" where
  "mw_csrf opts fresh req c =
     (let (r, cookie) = csrfMiddleware opts fresh req (gc_setCookie c); c' = c\<lparr>gc_setCookie := cookie\<rparr>
      in case r of Inl refused \<Rightarrow> (Some refused, c') | Inr _ \<Rightarrow> (None, c'))"

definition mw_ipLimit :: "limiter_options \<Rightarrow> int \<Rightarrow> gate_request \<Rightarrow> middleware" where
  "mw_ipLimit opts now req c =
     (let (a, st) = rateLimiter opts (limiter_request req (gc_auth c)) now (gc_ipLimits c); c' = c\<lparr>gc_ipLimits := st\<rparr>
      in case a of Limited _ \<Rightarrow> (Some (429, ''RATE_LIMITED''), c') | _ \<Rightarrow> (None, c'))"

definition mw_userLimit :: "limiter_options \<Rightarrow> int \<Rightarrow> gate_request \<Rightarrow> middleware" where
  "mw_userLimit opts now req c =
     (let (a, st) = rateLimiter opts (limiter_request req (gc_auth c)) now (gc_userLimits c); c' = c\<lparr>gc_userLimits := st\<rparr>
      in case a of Limited _ \<Rightarrow> (Some (429, ''RATE_LIMITED''), c') | _ \<Rightarrow> (None, c'))"


definition mw_auth :: "auth_deps \<Rightarrow> int \<Rightarrow> gate_request \<Rightarrow> middleware" where
  "mw_auth deps now req c =
     (let (r, s) = authMiddleware deps now req (gc_state c); c' = c\<lparr>gc_state := s\<rparr>
      in case r of Inl refused \<Rightarrow> (Some refused, c') | Inr ident \<Rightarrow> (None, c'\<lparr>gc_auth := Some ident\<rparr>))"

definition mw_orgContext :: "key_env \<Rightarrow> gate_request \<Rightarrow> middleware" where
  "mw_orgContext env req c =
     (case orgContextMiddleware env req (gc_auth c) of
        Inl refused \<Rightarrow> (Some refused, c)
      | Inr ident \<Rightarrow> (None, c\<lparr>gc_auth := Some ident\<rparr>))"

definition mw_permission :: "ac_config \<Rightarrow> ac_world \<Rightarrow> evaluator result \<Rightarrow> middleware" where
  "mw_permission cfg w build c =
     (let (outcome, ident) = permissionGate cfg w (gc_allowBootstrap c) (map_option identity.truncate (gc_auth c)) build;
          c' = (case (ident, gc_auth c) of
                  (Some i, Some a) \<Rightarrow> c\<lparr>gc_auth := Some (a\<lparr>id_permissions := id_permissions i\<rparr>)\<rparr> | _ \<Rightarrow> c)
      in case outcome of Gate_next \<Rightarrow> (None, c') | Gate_status code msg \<Rightarrow> (Some (code, msg), c'))"


section \<open>The setup phase\<close>

datatype rule_path = Exact_path string | Path_pattern "string \<Rightarrow> bool"

definition strip_slashes :: "string \<Rightarrow> string" where
  "strip_slashes p = (let q = rev (dropWhile (\<lambda>c. c = CHR ''/'') (rev p)) in if q = '''' then ''/'' else q)"

definition normalizedRequestPath :: "gate_request \<Rightarrow> string" where
  "normalizedRequestPath req = strip_slashes (if gr_baseUrl req \<noteq> '''' then gr_baseUrl req @ gr_path req else gr_path req)"

definition normalizedRulePath :: "string \<Rightarrow> string" where
  "normalizedRulePath path = strip_slashes path"

definition js_upper_char :: "char \<Rightarrow> char" where
  "js_upper_char c = (let n = of_char c :: nat in if 97 \<le> n \<and> n \<le> 122 then char_of (n - 32) else c)"

definition js_toUpperCase :: "string \<Rightarrow> string" where
  "js_toUpperCase s = map js_upper_char s"

definition isPreBootstrapAllowed :: "gate_request \<Rightarrow> (string \<times> rule_path) list option \<Rightarrow> bool" where
  "isPreBootstrapAllowed req allowlist =
     (case allowlist of
        None \<Rightarrow> True
      | Some rules \<Rightarrow>
          (let meth = js_toUpperCase (gr_method req); path = normalizedRequestPath req in
           list_ex (\<lambda>(m, p). if js_toUpperCase m \<noteq> meth then False
              else (case p of Exact_path q \<Rightarrow> normalizedRulePath q = path | Path_pattern test \<Rightarrow> test path)) rules))"

definition bootstrapAware ::
  "bool \<Rightarrow> (string \<times> rule_path) list option \<Rightarrow> gate_request \<Rightarrow> middleware \<Rightarrow> middleware list \<Rightarrow> middleware" where
  "bootstrapAware bootstrapped allowlist req auth postAuthChain c =
     (if \<not> bootstrapped
      then (if \<not> isPreBootstrapAllowed req allowlist then (Some (401, ''UNAUTHORIZED''), c)
            else (None, c\<lparr>gc_allowBootstrap := True\<rparr>))
      else walk_chain (auth # postAuthChain) c)"

text \<open>One path segment between a prefix and a suffix.\<close>

definition segment_between :: "string \<Rightarrow> string \<Rightarrow> string \<Rightarrow> bool" where
  "segment_between pre suf path \<longleftrightarrow> js_startsWith path pre \<and> js_startsWith (rev path) (rev suf)
     \<and> length pre + length suf < length path
     \<and> CHR ''/'' \<notin> set (take (length path - length pre - length suf) (drop (length pre) path))"

definition preBootstrapAllowlist :: "(string \<times> rule_path) list" where
  "preBootstrapAllowlist =
     [(''POST'', Exact_path ''/api/connectors''),
      (''POST'', Path_pattern (segment_between ''/api/connectors/'' ''/test'')),
      (''PUT'', Path_pattern (segment_between ''/api/connectors/'' '''')),
      (''PUT'', Exact_path ''/api/system/llm''),
      (''PUT'', Exact_path ''/api/system/notifications'')]"

section \<open>The mounted chains\<close>

record server_env =
  se_csrf :: csrf_options
  se_freshCsrf :: string
  se_ipLimiter :: limiter_options
  se_userLimiter :: limiter_options
  se_queryLimiter :: limiter_options
  se_auth :: auth_deps
  se_ac :: ac_config
  se_world :: ac_world

text \<open>
  The global middleware in the order of \<^verbatim>\<open>mountGlobalMiddleware\<close>, and the chain that mounts with
  an organisation put before their router.
\<close>

definition global_chain :: "server_env \<Rightarrow> int \<Rightarrow> gate_request \<Rightarrow> middleware list" where
  "global_chain env now req = [mw_csrf (se_csrf env) (se_freshCsrf env) req, mw_ipLimit (se_ipLimiter env) now req]"

definition auth_chain :: "server_env \<Rightarrow> int \<Rightarrow> gate_request \<Rightarrow> middleware list" where
  "auth_chain env now req = [mw_auth (se_auth env) now req, mw_userLimit (se_userLimiter env) now req,
     mw_orgContext (ad_keys (se_auth env)) req]"

text \<open>
  The routes of teams, service accounts, folders, roles and the current organisation; the rules'
  permissions lie below two such mounts, and the list of all organisations has none.
\<close>

definition org_route :: "server_env \<Rightarrow> int \<Rightarrow> gate_request \<Rightarrow> evaluator result \<Rightarrow> middleware list" where
  "org_route env now req build = global_chain env now req @ auth_chain env now req @ [mw_permission (se_ac env) (se_world env) build]"



text \<open>The routes of connectors and of the system settings.\<close>

definition setup_route :: "server_env \<Rightarrow> bool \<Rightarrow> int \<Rightarrow> gate_request \<Rightarrow> evaluator result \<Rightarrow> middleware list" where
  "setup_route env bootstrapped now req build =
     global_chain env now req
     @ [bootstrapAware bootstrapped (Some preBootstrapAllowlist) req (hd (auth_chain env now req)) (tl (auth_chain env now req)),
        mw_permission (se_ac env) (se_world env) build]"







section \<open>Cookies round trip\<close>

definition cookie_ok :: "string \<times> string \<Rightarrow> bool" where
  "cookie_ok kv \<longleftrightarrow> (let (k, v) = kv in k \<noteq> '''' \<and> v \<noteq> '''' \<and> CHR ''='' \<notin> set k \<and> list_all (\<lambda>c. \<not> js_ws c \<and> c \<noteq> CHR '';'') (k @ v))"

definition cookie_header :: "(string \<times> string) list \<Rightarrow> string" where
  "cookie_header cs = join_with ''; '' (map (\<lambda>(k, v). k @ ''='' @ v) cs)"

lemma cookie_pair_blank [simp]: "cookie_pair (CHR '' '' # x) = cookie_pair x"
  by (simp add: cookie_pair_def js_trim_def js_ws_def)

lemma cookie_pair_of:
  assumes "cookie_ok (k, v)"
  shows "cookie_pair (k @ CHR ''='' # v) = (k, v)"
proof -
  have ws: "\<forall>c\<in>set (k @ v). \<not> js_ws c" "k \<noteq> []" "v \<noteq> []" using assms by (auto simp: cookie_ok_def list_all_iff)
  then have "\<not> js_ws (hd (k @ CHR ''='' # v))" "\<not> js_ws (last (k @ CHR ''='' # v))" by auto
  then have "js_trim (k @ CHR ''='' # v) = k @ CHR ''='' # v" by (simp add: js_trim_id)
  then show ?thesis using assms by (auto simp: cookie_pair_def cookie_ok_def split_on_append_sep)
qed

lemma cookie_header_pairs:
  "\<forall>kv\<in>set cs. cookie_ok kv \<Longrightarrow> cs \<noteq> [] \<Longrightarrow> map cookie_pair (split_on (CHR '';'') (cookie_header cs)) = cs"
proof (induction cs rule: induct_list012)
  case (2 kv)
  obtain k v where kv: "kv = (k, v)" by fastforce
  have "CHR '';'' \<notin> set (k @ ''='' @ v)" using 2 by (auto simp: kv cookie_ok_def list_all_iff)
  then show ?case using 2 by (simp add: kv cookie_header_def split_on_no_sep cookie_pair_of)
next
  case (3 kv kv' cs)
  obtain k v where kv: "kv = (k, v)" by fastforce
  have "CHR '';'' \<notin> set (k @ ''='' @ v)" using 3 by (auto simp: kv cookie_ok_def list_all_iff)
  then have "split_on (CHR '';'') (cookie_header (kv # kv' # cs)) = (k @ ''='' @ v) # split_on (CHR '';'') (CHR '' '' # cookie_header (kv' # cs))"
    using split_on_append_sep [of "CHR '';''" "k @ ''='' @ v" "CHR '' '' # cookie_header (kv' # cs)"] by (simp add: kv cookie_header_def)
  moreover obtain y ys where "split_on (CHR '';'') (cookie_header (kv' # cs)) = y # ys"
    by (metis neq_Nil_conv split_on_neq_Nil)
  ultimately show ?case using 3 cookie_pair_of [of k v] by (simp add: kv)
qed simp

lemma find_key_map_of: "List.find (\<lambda>(k, v). k = name) cs = map_option (Pair name) (map_of cs name)"
  by (induction cs) auto

text \<open>
  Cookies survive the trip: for every list of cookies whose names and values are not empty and
  hold no separator or blank, reading a name back from the header a browser builds of them yields
  the value of the first cookie of that name, and nothing for other names.
\<close>

theorem readCookie_roundtrip:
  assumes "\<forall>kv\<in>set cs. cookie_ok kv" "cs \<noteq> []"
  shows "readCookie (Some (cookie_header cs)) name = map_of cs name"
proof -
  have "cookie_header cs \<noteq> ''''"
  proof
    assume "cookie_header cs = ''''"
    then have "cs = [('''', '''')]" using cookie_header_pairs [OF assms] by (simp add: cookie_pair_def js_trim_def)
    then show False using assms(1) by (simp add: cookie_ok_def)
  qed
  moreover have "map_of cs name \<noteq> Some ''''" using assms(1) by (auto dest!: map_of_SomeD simp: cookie_ok_def)
  ultimately show ?thesis
    by (auto simp: readCookie_def cookie_header_pairs [OF assms] find_key_map_of split: option.splits)
qed

theorem readCookie_roundtrip_witness:
  "readCookie (Some (cookie_header [(''theme'', ''dark''), (SESSION_COOKIE_NAME, ''tok=1'')])) SESSION_COOKIE_NAME = Some ''tok=1''"
proof -
  have "readCookie (Some (cookie_header [(''theme'', ''dark''), (SESSION_COOKIE_NAME, ''tok=1'')])) SESSION_COOKIE_NAME
      = map_of [(''theme'', ''dark''), (SESSION_COOKIE_NAME, ''tok=1'')] SESSION_COOKIE_NAME"
    by (rule readCookie_roundtrip) (auto simp: cookie_ok_def SESSION_COOKIE_NAME_def js_ws_def)
  then show ?thesis by (simp add: SESSION_COOKIE_NAME_def)
qed

section \<open>Who gets through\<close>

lemma walk_chain_append:
  "walk_chain (xs @ ys) c = (case walk_chain xs c of (Some r, c') \<Rightarrow> (Some r, c') | (None, c') \<Rightarrow> walk_chain ys c')"
  by (induction xs arbitrary: c) (auto split: prod.splits option.splits)









































text \<open>
  The setup routes close with the setup: once the instance is set up they run exactly the chain
  of a route with the organisation context, and before that only the five listed operations get past
  the gate.
\<close>

theorem setup_closes:
  assumes "\<not> gc_allowBootstrap c"
  shows "walk_chain (setup_route env True now req build) c = walk_chain (org_route env now req build) c
     \<and> (fst (walk_chain (setup_route env False now req build) c) = None \<longrightarrow> isPreBootstrapAllowed req (Some preBootstrapAllowlist))"
proof
  have "walk_chain (bootstrapAware True (Some preBootstrapAllowlist) req (hd (auth_chain env now req)) (tl (auth_chain env now req)) # mws) d
      = walk_chain (auth_chain env now req @ mws) d" for mws d
    by (auto simp: bootstrapAware_def auth_chain_def split: prod.splits option.splits)
  then show "walk_chain (setup_route env True now req build) c = walk_chain (org_route env now req build) c"
    unfolding setup_route_def org_route_def walk_chain_append [of "global_chain env now req"] by (simp only:)
  show "fst (walk_chain (setup_route env False now req build) c) = None \<longrightarrow> isPreBootstrapAllowed req (Some preBootstrapAllowlist)"
    by (auto simp: setup_route_def walk_chain_append bootstrapAware_def split: prod.splits option.splits if_splits)
qed

section \<open>An API token in another organisation\<close>

text \<open>
  An API token is not confined to its organisation: a valid token of an account that is also a
  member of another organisation acts in that organisation, with the role the account has there, as
  soon as the request names it, although the token was issued for the first organisation.
\<close>

theorem key_acts_in_named_org:
  assumes "request_cookie req SESSION_COOKIE_NAME = None" "bearerToken req = Some tok" "tok \<noteq> ''''" "ad_apiKeyService deps"
    and "fst (validateAndLookup (ad_keys deps) now tok (as_keys s)) = Some l"
    and "explicit_org req = Some other" "other \<noteq> ''''" "findMembership (ke_orgUsers (ad_keys deps)) other (us_id (kl_user l)) = Some m"
  shows "\<exists>ident ident'. fst (authMiddleware deps now req s) = Inr ident \<and> id_orgId ident = kl_orgId l
     \<and> orgContextMiddleware (ad_keys deps) req (Some ident) = Inr ident' \<and> id_orgId ident' = other \<and> id_orgRole ident' = ou_role m"
  using assms by (auto simp: authMiddleware_def service_branch_def Let_def split_beta orgContextMiddleware_def)

section \<open>Witnesses\<close>

definition gate_user :: user_row where
  "gate_user = \<lparr>us_id = ''u'', us_login = ''ann'', us_email = ''ann@x'', us_password = None, us_orgId = ''o'',
     us_isAdmin = False, us_isDisabled = False, us_isServiceAccount = False\<rparr>"

definition gate_keys :: key_env where
  "gate_keys = \<lparr>ke_users = [gate_user], ke_orgUsers = [\<lparr>ou_orgId = ''o'', ou_userId = ''u'', ou_role = ''None''\<rparr>,
       \<lparr>ou_orgId = ''p'', ou_userId = ''u'', ou_role = ''Admin''\<rparr>],
     ke_quotas = None, ke_limitPerSA = - 1, ke_limitPerUser = - 1, ke_cooldownMs = 60000, ke_sha = (\<lambda>x. CHR ''h'' # x)\<rparr>"

definition gate_deps :: auth_deps where
  "gate_deps = \<lparr>ad_keys = gate_keys, ad_sessionOptions = DEFAULT_SESSION_OPTIONS, ad_apiKeyService = True\<rparr>"

definition gate_env :: server_env where
  "gate_env = \<lparr>se_csrf = \<lparr>co_exact = [], co_regex = [], co_production = True, co_showInt = (\<lambda>n. ''n'')\<rparr>, se_freshCsrf = ''f'',
     se_ipLimiter = loginRateLimiter, se_userLimiter = \<lparr>lo_windowMs = 60000, lo_max = 600, lo_keyFn = Some rq_userId\<rparr>, se_queryLimiter = \<lparr>lo_windowMs = 60000, lo_max = 600, lo_keyFn = None\<rparr>, se_auth = gate_deps,
     se_ac = \<lparr>ac_resolvers = None, ac_legacyAcl = False, ac_legacyEnabled = False, ac_legacyThrows = False\<rparr>,
     se_world = \<lparr>w_rbac = demo_db, w_folders = [], w_acl = [], w_dashboardFolder = (\<lambda>_ _. None), w_ruleFolder = (\<lambda>_ _. None)\<rparr>\<rparr>"

definition gate_headers :: "(string \<times> string) list \<Rightarrow> string \<Rightarrow> header_value" where
  "gate_headers hs name = (case map_of hs name of Some v \<Rightarrow> HV_string v | None \<Rightarrow> HV_undefined)"

definition gate_post :: gate_request where
  "gate_post = \<lparr>gr_method = ''POST'', gr_path = ''/api/query'', gr_baseUrl = '''',
     gr_headers = gate_headers [(''cookie'', ''openobs_session=s; openobs_csrf=c''), (''x-csrf-token'', ''c'')],
     gr_queryOrgId = HV_undefined, gr_remote = Some ''1.1.1.1''\<rparr>"

definition gate_start :: gate_context where
  "gate_start = \<lparr>gc_auth = None, gc_state = \<lparr>as_tokens = [\<lparr>at_id = ''t'', at_userId = ''u'', at_authToken = ''hs'', at_prevAuthToken = '''',
       at_userAgent = '''', at_clientIp = '''', at_authTokenSeen = False, at_seenAt = None, at_rotatedAt = 10, at_createdAt = 10,
       at_updatedAt = 10, at_revokedAt = None\<rparr>], as_keys = \<lparr>ks_keys = [ak_row ''k1'' ''a''], ks_usedAuditAt = [], ks_audit = []\<rparr>\<rparr>,
     gc_ipLimits = [], gc_userLimits = [], gc_queryLimits = [], gc_setCookie = HV_undefined, gc_allowBootstrap = False\<rparr>"

definition gate_evaluator :: evaluator where
  "gate_evaluator = ac_eval ''dashboards:read'' (OneScope ''folders:uid:top'')"



theorem setup_closes_witness:
  "walk_chain (setup_route gate_env True 20 gate_post (Inr gate_evaluator)) gate_start
   = walk_chain (org_route gate_env 20 gate_post (Inr gate_evaluator)) gate_start \<and> \<not> gc_allowBootstrap gate_start"
  using setup_closes [of gate_start] by (simp add: gate_start_def)

definition gate_key_request :: gate_request where
  "gate_key_request = gate_post\<lparr>gr_headers := gate_headers [(''x-api-key'', ''a''), (''x-openobs-org-id'', ''p'')]\<rparr>"

lemma gate_key_lookup:
  "map_option (\<lambda>l. (us_id (kl_user l), kl_orgId l))
     (fst (validateAndLookup (gate_keys\<lparr>ke_users := [gate_user\<lparr>us_id := ''u1''\<rparr>],
        ke_orgUsers := [\<lparr>ou_orgId = ''p'', ou_userId = ''u1'', ou_role = ''Admin''\<rparr>]\<rparr>) 20 ''a'' (as_keys (gc_state gate_start))))
   = Some (''u1'', ''o1'')"
  by code_simp

theorem key_acts_in_named_org_witness:
  "\<exists>ident (ident' :: auth_identity). fst (authMiddleware (gate_deps\<lparr>ad_keys := gate_keys\<lparr>ke_users := [gate_user\<lparr>us_id := ''u1''\<rparr>],
        ke_orgUsers := [\<lparr>ou_orgId = ''p'', ou_userId = ''u1'', ou_role = ''Admin''\<rparr>]\<rparr>\<rparr>) 20 gate_key_request (gc_state gate_start)) = Inr ident
     \<and> id_orgId ident = ''o1'' \<and> id_orgId ident' = ''p'' \<and> id_orgRole ident' = ''Admin''"
proof -
  let ?keys = "gate_keys\<lparr>ke_users := [gate_user\<lparr>us_id := ''u1''\<rparr>], ke_orgUsers := [\<lparr>ou_orgId = ''p'', ou_userId = ''u1'', ou_role = ''Admin''\<rparr>]\<rparr>"
  obtain l where l: "fst (validateAndLookup ?keys 20 ''a'' (as_keys (gc_state gate_start))) = Some l" "us_id (kl_user l) = ''u1''" "kl_orgId l = ''o1''"
    using gate_key_lookup by auto
  let ?deps = "gate_deps\<lparr>ad_keys := ?keys\<rparr>"
  have member: "findMembership (ke_orgUsers (ad_keys ?deps)) ''p'' (us_id (kl_user l)) = Some \<lparr>ou_orgId = ''p'', ou_userId = ''u1'', ou_role = ''Admin''\<rparr>"
    by (simp add: l(2) findMembership_def)
  have req: "request_cookie gate_key_request SESSION_COOKIE_NAME = None" "bearerToken gate_key_request = Some ''a''"
    "explicit_org gate_key_request = Some ''p''"
    by (simp_all add: gate_key_request_def gate_headers_def request_cookie_def readCookie_def header_string_def bearerToken_def explicit_org_def ORG_HEADER_def)
  have look: "fst (validateAndLookup (ad_keys ?deps) 20 ''a'' (as_keys (gc_state gate_start))) = Some l" using l(1) by simp
  have "ad_apiKeyService ?deps" by (simp add: gate_deps_def)
  then obtain ident and ident' :: auth_identity where "fst (authMiddleware ?deps 20 gate_key_request (gc_state gate_start)) = Inr ident"
      "id_orgId ident = kl_orgId l" "id_orgId ident' = ''p''" "id_orgRole ident' = ''Admin''"
    using key_acts_in_named_org [OF req(1,2) _ _ look req(3) _ member] by auto
  then show ?thesis using l(3) by metis
qed

end
