(* ===== verification/Alert_Store.thy ===== *)
theory Alert_Store
  imports Complex_Main Rounds_Prelude "HOL-Library.Char_ord" "HOL-Library.List_Lexorder"
begin

text \<open>
  Alert rules (\<^verbatim>\<open>common/src/models/alert.ts\<close>) and their repository
  (\<^verbatim>\<open>data-layer/src/repository/sqlite/alert-rule.ts\<close>): rules, the history of state changes,
  silences and flat notification policies.  Columns that hold JSON keep the value itself, since
  the repository writes them and reads its own text back; a corrupt column, on which it throws, is
  not modelled.  Times the server sets are milliseconds; those a client sends are texts and are
  compared as texts, as the source does.
\<close>

section \<open>The model\<close>

datatype alert_state = Normal | Pending | Firing | Resolved | Disabled

definition state_name :: "alert_state \<Rightarrow> string" where
  "state_name s = (case s of Normal \<Rightarrow> ''normal'' | Pending \<Rightarrow> ''pending'' | Firing \<Rightarrow> ''firing''
     | Resolved \<Rightarrow> ''resolved'' | Disabled \<Rightarrow> ''disabled'')"

datatype alert_operator = Gt | Ge | Lt | Le | Eq | Ne

text \<open>A number as JavaScript has it: finite (every double is a rational), infinite, or not a number.\<close>

datatype js_number = Fin rat | Infinite bool | NaN

record alert_condition =
  cn_query :: string
  cn_operator :: alert_operator
  cn_threshold :: rat
  cn_forDurationSec :: rat

type_synonym labels = "(string, string) js_map"

record alert_rule =
  ru_id :: string
  ru_name :: string
  ru_description :: string
  ru_originalPrompt :: "string option"
  ru_condition :: alert_condition
  ru_evaluationIntervalSec :: int
  ru_severity :: string
  ru_labels :: "labels option"
  ru_state :: alert_state
  ru_stateChangedAt :: int
  ru_pendingSince :: "int option"
  ru_notificationPolicyId :: "string option"
  ru_investigationId :: "string option"
  ru_workspaceId :: "string option"
  ru_folderUid :: "string option"
  ru_orgId :: string
  ru_createdBy :: string
  ru_lastEvaluatedAt :: "int option"
  ru_lastFiredAt :: "int option"
  ru_fireCount :: int
  ru_source :: string
  ru_provenance :: "string option"
  ru_createdAt :: int
  ru_updatedAt :: int

record alert_history =
  ah_id :: string
  ah_ruleId :: string
  ah_ruleName :: string
  ah_fromState :: alert_state
  ah_toState :: alert_state
  ah_value :: js_number
  ah_threshold :: rat
  ah_timestamp :: int
  ah_labels :: labels

record matcher =
  ma_label :: string
  ma_operator :: string
  ma_value :: string

record alert_silence =
  as_id :: string
  as_matchers :: "matcher list"
  as_startsAt :: string
  as_endsAt :: string
  as_comment :: string
  as_createdBy :: string
  as_createdAt :: int

record notification_policy =
  np_id :: string
  np_name :: string
  np_matchers :: "matcher list"
  np_channels :: "string list"
  np_groupBy :: "string list option"
  np_groupWaitSec :: "int option"
  np_groupIntervalSec :: "int option"
  np_repeatIntervalSec :: "int option"
  np_createdAt :: int
  np_updatedAt :: int

record alert_db =
  adb_rules :: "alert_rule list"
  adb_history :: "alert_history list"
  adb_silences :: "alert_silence list"
  adb_policies :: "notification_policy list"

section \<open>Rules\<close>

text \<open>What a caller sees of a row: the folder and the organisation columns are not copied.\<close>

definition rowToRule :: "alert_rule \<Rightarrow> alert_rule" where
  "rowToRule r = r\<lparr>ru_folderUid := None, ru_orgId := ''''\<rparr>"

record alert_input =
  ci_name :: string
  ci_description :: string
  ci_originalPrompt :: "string option"
  ci_condition :: alert_condition
  ci_evaluationIntervalSec :: int
  ci_severity :: string
  ci_labels :: "labels option"
  ci_notificationPolicyId :: "string option"
  ci_investigationId :: "string option"
  ci_workspaceId :: "string option"
  ci_folderUid :: "string option"
  ci_createdBy :: string
  ci_lastEvaluatedAt :: "int option"
  ci_lastFiredAt :: "int option"
  ci_source :: "string option"
  ci_provenance :: "string option"

definition new_rule_row :: "string \<Rightarrow> int \<Rightarrow> alert_input \<Rightarrow> alert_rule" where
  "new_rule_row i now data =
     \<lparr>ru_id = i, ru_name = ci_name data, ru_description = ci_description data, ru_originalPrompt = ci_originalPrompt data,
      ru_condition = ci_condition data, ru_evaluationIntervalSec = ci_evaluationIntervalSec data, ru_severity = ci_severity data,
      ru_labels = ci_labels data, ru_state = Normal, ru_stateChangedAt = now, ru_pendingSince = None,
      ru_notificationPolicyId = ci_notificationPolicyId data, ru_investigationId = ci_investigationId data,
      ru_workspaceId = ci_workspaceId data, ru_folderUid = ci_folderUid data, ru_orgId = ''org_main'', ru_createdBy = ci_createdBy data,
      ru_lastEvaluatedAt = ci_lastEvaluatedAt data, ru_lastFiredAt = ci_lastFiredAt data, ru_fireCount = 0,
      ru_source = coalesce (ci_source data) ''manual'', ru_provenance = ci_provenance data, ru_createdAt = now, ru_updatedAt = now\<rparr>"

definition rule_findById :: "alert_db \<Rightarrow> string \<Rightarrow> alert_rule option" where
  "rule_findById db i = map_option rowToRule (List.find (\<lambda>r. ru_id r = i) (adb_rules db))"

definition rule_create :: "string \<Rightarrow> int \<Rightarrow> alert_input \<Rightarrow> alert_db \<Rightarrow> (alert_rule \<times> alert_db) result" where
  "rule_create random now data db =
     (let i = ''alert_'' @ take 12 random; db' = db\<lparr>adb_rules := adb_rules db @ [new_rule_row i now data]\<rparr> in
      if list_ex (\<lambda>r. ru_id r = i) (adb_rules db) then Inl ''UNIQUE constraint failed''
      else (case rule_findById db' i of
              None \<Rightarrow> Inl (''[AlertRuleRepository] create: row '' @ i @ '' not found after insert'')
            | Some saved \<Rightarrow> Inr (saved, db')))"

definition getFolderUid :: "alert_db \<Rightarrow> string \<Rightarrow> string \<Rightarrow> string option" where
  "getFolderUid db orgId ruleId =
     (case List.find (\<lambda>r. ru_orgId r = orgId \<and> ru_id r = ruleId) (adb_rules db) of Some r \<Rightarrow> ru_folderUid r | None \<Rightarrow> None)"

record rule_filter =
  rf_state :: "string option"
  rf_severity :: "string option"
  rf_search :: "string option"
  rf_limit :: "int option"
  rf_offset :: "int option"

definition no_filter :: rule_filter where
  "no_filter = \<lparr>rf_state = None, rf_severity = None, rf_search = None, rf_limit = None, rf_offset = None\<rparr>"

definition present :: "string option \<Rightarrow> bool" where
  "present v \<longleftrightarrow> v \<noteq> None \<and> v \<noteq> Some ''''"

definition js_includes :: "string \<Rightarrow> string \<Rightarrow> bool" where
  "js_includes s q \<longleftrightarrow> list_ex (\<lambda>t. js_startsWith t q) (suffixes s)"

text \<open>\<^verbatim>\<open>slice\<close> counts a negative argument from the end.\<close>

definition slice_from :: "int \<Rightarrow> 'a list \<Rightarrow> 'a list" where
  "slice_from n xs = drop (nat (if n < 0 then max 0 (int (length xs) + n) else n)) xs"

definition slice_to :: "int \<Rightarrow> 'a list \<Rightarrow> 'a list" where
  "slice_to n xs = take (nat (if n < 0 then max 0 (int (length xs) + n) else n)) xs"

definition matches_search :: "string \<Rightarrow> alert_rule \<Rightarrow> bool" where
  "matches_search q r \<longleftrightarrow> js_includes (js_toLowerCase (ru_name r)) q \<or> js_includes (js_toLowerCase (ru_description r)) q
     \<or> list_ex (\<lambda>(k, v). js_includes (js_toLowerCase v) q) (coalesce (ru_labels r) [])"

definition rule_findAll :: "alert_db \<Rightarrow> rule_filter \<Rightarrow> alert_rule list \<times> nat" where
  "rule_findAll db flt =
     (let rows = sort_key (\<lambda>r. - ru_updatedAt r)
            (filter (\<lambda>r. (\<not> present (rf_state flt) \<or> Some (state_name (ru_state r)) = rf_state flt)
                       \<and> (\<not> present (rf_severity flt) \<or> Some (ru_severity r) = rf_severity flt)) (adb_rules db));
          rows1 = (if present (rf_search flt) then filter (matches_search (js_toLowerCase (the (rf_search flt)))) rows else rows);
          rows2 = (case rf_offset flt of Some n \<Rightarrow> if n \<noteq> 0 then slice_from n rows1 else rows1 | None \<Rightarrow> rows1);
          rows3 = (case rf_limit flt of Some n \<Rightarrow> if n \<noteq> 0 then slice_to n rows2 else rows2 | None \<Rightarrow> rows2)
      in (map rowToRule rows3, length rows1))"

definition findByWorkspace :: "alert_db \<Rightarrow> string \<Rightarrow> alert_rule list" where
  "findByWorkspace db w = map rowToRule (filter (\<lambda>r. ru_workspaceId r = Some w) (adb_rules db))"

text \<open>A patch: absent fields keep the column; an optional column is cleared by a present but undefined field.\<close>

record rule_patch =
  pa_name :: "string option"
  pa_description :: "string option"
  pa_originalPrompt :: "string option option"
  pa_condition :: "alert_condition option"
  pa_evaluationIntervalSec :: "int option"
  pa_severity :: "string option"
  pa_labels :: "labels option option"
  pa_state :: "alert_state option"
  pa_stateChangedAt :: "int option"
  pa_pendingSince :: "int option option"
  pa_notificationPolicyId :: "string option option"
  pa_investigationId :: "string option option"
  pa_workspaceId :: "string option option"
  pa_lastEvaluatedAt :: "int option option"
  pa_lastFiredAt :: "int option option"
  pa_fireCount :: "int option"

definition no_patch :: rule_patch where
  "no_patch = \<lparr>pa_name = None, pa_description = None, pa_originalPrompt = None, pa_condition = None, pa_evaluationIntervalSec = None,
     pa_severity = None, pa_labels = None, pa_state = None, pa_stateChangedAt = None, pa_pendingSince = None,
     pa_notificationPolicyId = None, pa_investigationId = None, pa_workspaceId = None, pa_lastEvaluatedAt = None,
     pa_lastFiredAt = None, pa_fireCount = None\<rparr>"

definition merge_patch :: "int \<Rightarrow> rule_patch \<Rightarrow> alert_rule \<Rightarrow> alert_rule \<Rightarrow> alert_rule" where
  "merge_patch now patch ex r = r\<lparr>
        ru_name := coalesce (pa_name patch) (ru_name ex),
        ru_description := coalesce (pa_description patch) (ru_description ex),
        ru_originalPrompt := coalesce (pa_originalPrompt patch) (ru_originalPrompt ex),
        ru_condition := coalesce (pa_condition patch) (ru_condition ex),
        ru_evaluationIntervalSec := coalesce (pa_evaluationIntervalSec patch) (ru_evaluationIntervalSec ex),
        ru_severity := coalesce (pa_severity patch) (ru_severity ex),
        ru_labels := coalesce (pa_labels patch) (ru_labels ex),
        ru_state := coalesce (pa_state patch) (ru_state ex),
        ru_stateChangedAt := coalesce (pa_stateChangedAt patch) (ru_stateChangedAt ex),
        ru_pendingSince := coalesce (pa_pendingSince patch) (ru_pendingSince ex),
        ru_notificationPolicyId := coalesce (pa_notificationPolicyId patch) (ru_notificationPolicyId ex),
        ru_investigationId := coalesce (pa_investigationId patch) (ru_investigationId ex),
        ru_workspaceId := coalesce (pa_workspaceId patch) (ru_workspaceId ex),
        ru_lastEvaluatedAt := coalesce (pa_lastEvaluatedAt patch) (ru_lastEvaluatedAt ex),
        ru_lastFiredAt := coalesce (pa_lastFiredAt patch) (ru_lastFiredAt ex),
        ru_fireCount := coalesce (pa_fireCount patch) (ru_fireCount ex),
        ru_updatedAt := now\<rparr>"

definition rule_update :: "int \<Rightarrow> string \<Rightarrow> rule_patch \<Rightarrow> alert_db \<Rightarrow> alert_rule option \<times> alert_db" where
  "rule_update now i patch db =
     (case rule_findById db i of
        None \<Rightarrow> (None, db)
      | Some ex \<Rightarrow>
          (let db' = db\<lparr>adb_rules := upd_where (\<lambda>r. ru_id r = i) (merge_patch now patch ex) (adb_rules db)\<rparr>
           in (rule_findById db' i, db')))"

text \<open>Deleting a rule deletes its history with it.\<close>

definition rule_delete :: "string \<Rightarrow> alert_db \<Rightarrow> bool \<times> alert_db" where
  "rule_delete i db =
     (if rule_findById db i = None then (False, db)
      else (True, db\<lparr>adb_rules := del_where (\<lambda>r. ru_id r = i) (adb_rules db),
                     adb_history := del_where (\<lambda>h. ah_ruleId h = i) (adb_history db)\<rparr>))"

definition transition_patch :: "int \<Rightarrow> alert_state \<Rightarrow> alert_rule \<Rightarrow> rule_patch" where
  "transition_patch now newState rule =
     (let base = no_patch\<lparr>pa_state := Some newState, pa_stateChangedAt := Some now, pa_lastEvaluatedAt := Some (Some now)\<rparr>;
          p1 = (if newState = Pending then base\<lparr>pa_pendingSince := Some (Some now)\<rparr> else base);
          p2 = (if newState = Firing
                then p1\<lparr>pa_lastFiredAt := Some (Some now), pa_fireCount := Some (ru_fireCount rule + 1), pa_pendingSince := Some None\<rparr>
                else p1)
      in if newState = Normal \<or> newState = Resolved then p2\<lparr>pa_pendingSince := Some None\<rparr> else p2)"

definition rule_transition ::
  "string \<Rightarrow> int \<Rightarrow> string \<Rightarrow> alert_state \<Rightarrow> js_number option \<Rightarrow> alert_db \<Rightarrow> alert_rule option \<times> alert_db" where
  "rule_transition fresh now i newState v db =
     (case rule_findById db i of
        None \<Rightarrow> (None, db)
      | Some rule \<Rightarrow>
          if ru_state rule = newState then (Some rule, db)
          else (let entry = \<lparr>ah_id = fresh, ah_ruleId = i, ah_ruleName = ru_name rule, ah_fromState = ru_state rule,
                      ah_toState = newState, ah_value = coalesce v (Fin 0), ah_threshold = cn_threshold (ru_condition rule),
                      ah_timestamp = now, ah_labels = coalesce (ru_labels rule) []\<rparr>
                in rule_update now i (transition_patch now newState rule) (db\<lparr>adb_history := adb_history db @ [entry]\<rparr>)))"

section \<open>History, silences and policies\<close>

text \<open>A negative limit of a query is no limit.\<close>

definition sql_limit :: "int \<Rightarrow> 'a list \<Rightarrow> 'a list" where
  "sql_limit n xs = (if n < 0 then xs else take (nat n) xs)"

definition getHistory :: "alert_db \<Rightarrow> string \<Rightarrow> int option \<Rightarrow> alert_history list" where
  "getHistory db ruleId limit =
     sql_limit (coalesce limit 50) (sort_key (\<lambda>h. - ah_timestamp h) (filter (\<lambda>h. ah_ruleId h = ruleId) (adb_history db)))"

definition getAllHistory :: "alert_db \<Rightarrow> int option \<Rightarrow> alert_history list" where
  "getAllHistory db limit = sql_limit (coalesce limit 100) (sort_key (\<lambda>h. - ah_timestamp h) (adb_history db))"

datatype silence_status = Active | Expired | PendingSilence

definition computeSilenceStatus :: "string \<Rightarrow> alert_silence \<Rightarrow> silence_status" where
  "computeSilenceStatus nowText s =
     (if as_endsAt s < nowText then Expired else if as_startsAt s > nowText then PendingSilence else Active)"

definition rowToSilence :: "string \<Rightarrow> alert_silence \<Rightarrow> alert_silence \<times> silence_status" where
  "rowToSilence nowText r = (r, computeSilenceStatus nowText r)"

definition createSilence ::
  "string \<Rightarrow> int \<Rightarrow> string \<Rightarrow> matcher list \<Rightarrow> string \<Rightarrow> string \<Rightarrow> string \<Rightarrow> string \<Rightarrow> alert_db \<Rightarrow> ((alert_silence \<times> silence_status) \<times> alert_db) result" where
  "createSilence random now nowText matchers startsAt endsAt comment createdBy db =
     (let i = ''silence_'' @ take 12 random;
          row = \<lparr>as_id = i, as_matchers = matchers, as_startsAt = startsAt, as_endsAt = endsAt, as_comment = comment,
                 as_createdBy = createdBy, as_createdAt = now\<rparr>
      in if list_ex (\<lambda>s. as_id s = i) (adb_silences db) then Inl ''UNIQUE constraint failed''
         else Inr (rowToSilence nowText row, db\<lparr>adb_silences := adb_silences db @ [row]\<rparr>))"

definition findSilences :: "string \<Rightarrow> alert_db \<Rightarrow> (alert_silence \<times> silence_status) list" where
  "findSilences nowText db = map (rowToSilence nowText) (filter (\<lambda>s. as_endsAt s > nowText) (adb_silences db))"

definition findAllSilencesIncludingExpired :: "string \<Rightarrow> alert_db \<Rightarrow> (alert_silence \<times> silence_status) list" where
  "findAllSilencesIncludingExpired nowText db = map (rowToSilence nowText) (adb_silences db)"

record silence_patch =
  sp_matchers :: "matcher list option"
  sp_startsAt :: "string option"
  sp_endsAt :: "string option"
  sp_comment :: "string option"
  sp_createdBy :: "string option"

definition updateSilence ::
  "string \<Rightarrow> string \<Rightarrow> silence_patch \<Rightarrow> alert_db \<Rightarrow> (alert_silence \<times> silence_status) option \<times> alert_db" where
  "updateSilence nowText i patch db =
     (case List.find (\<lambda>s. as_id s = i) (adb_silences db) of
        None \<Rightarrow> (None, db)
      | Some cur \<Rightarrow>
          (let db' = db\<lparr>adb_silences := upd_where (\<lambda>s. as_id s = i) (\<lambda>s. s\<lparr>
                 as_matchers := coalesce (sp_matchers patch) (as_matchers cur), as_startsAt := coalesce (sp_startsAt patch) (as_startsAt cur),
                 as_endsAt := coalesce (sp_endsAt patch) (as_endsAt cur), as_comment := coalesce (sp_comment patch) (as_comment cur),
                 as_createdBy := coalesce (sp_createdBy patch) (as_createdBy cur)\<rparr>) (adb_silences db)\<rparr>
           in (map_option (rowToSilence nowText) (List.find (\<lambda>s. as_id s = i) (adb_silences db')), db')))"

definition deleteSilence :: "string \<Rightarrow> alert_db \<Rightarrow> bool \<times> alert_db" where
  "deleteSilence i db =
     (if \<not> list_ex (\<lambda>s. as_id s = i) (adb_silences db) then (False, db)
      else (True, db\<lparr>adb_silences := del_where (\<lambda>s. as_id s = i) (adb_silences db)\<rparr>))"

definition findPolicyById :: "alert_db \<Rightarrow> string \<Rightarrow> notification_policy option" where
  "findPolicyById db i = List.find (\<lambda>p. np_id p = i) (adb_policies db)"

definition findAllPolicies :: "alert_db \<Rightarrow> notification_policy list" where
  "findAllPolicies db = adb_policies db"

definition createPolicy :: "string \<Rightarrow> int \<Rightarrow> notification_policy \<Rightarrow> alert_db \<Rightarrow> (notification_policy \<times> alert_db) result" where
  "createPolicy random now data db =
     (let i = ''policy_'' @ take 12 random; row = data\<lparr>np_id := i, np_createdAt := now, np_updatedAt := now\<rparr>;
          db' = db\<lparr>adb_policies := adb_policies db @ [row]\<rparr>
      in if list_ex (\<lambda>p. np_id p = i) (adb_policies db) then Inl ''UNIQUE constraint failed''
         else (case findPolicyById db' i of
                 None \<Rightarrow> Inl (''[AlertRuleRepository] createPolicy: row '' @ i @ '' not found after insert'')
               | Some saved \<Rightarrow> Inr (saved, db')))"

record policy_patch =
  pp_name :: "string option"
  pp_matchers :: "matcher list option"
  pp_channels :: "string list option"
  pp_groupBy :: "string list option option"
  pp_groupWaitSec :: "int option option"
  pp_groupIntervalSec :: "int option option"
  pp_repeatIntervalSec :: "int option option"

definition updatePolicy :: "int \<Rightarrow> string \<Rightarrow> policy_patch \<Rightarrow> alert_db \<Rightarrow> notification_policy option \<times> alert_db" where
  "updatePolicy now i patch db =
     (case findPolicyById db i of
        None \<Rightarrow> (None, db)
      | Some ex \<Rightarrow>
          (let db' = db\<lparr>adb_policies := upd_where (\<lambda>p. np_id p = i) (\<lambda>p. p\<lparr>
                 np_name := coalesce (pp_name patch) (np_name ex), np_matchers := coalesce (pp_matchers patch) (np_matchers ex),
                 np_channels := coalesce (pp_channels patch) (np_channels ex), np_groupBy := coalesce (pp_groupBy patch) (np_groupBy ex),
                 np_groupWaitSec := coalesce (pp_groupWaitSec patch) (np_groupWaitSec ex),
                 np_groupIntervalSec := coalesce (pp_groupIntervalSec patch) (np_groupIntervalSec ex),
                 np_repeatIntervalSec := coalesce (pp_repeatIntervalSec patch) (np_repeatIntervalSec ex),
                 np_updatedAt := now\<rparr>) (adb_policies db)\<rparr>
           in (findPolicyById db' i, db')))"

definition deletePolicy :: "string \<Rightarrow> alert_db \<Rightarrow> bool \<times> alert_db" where
  "deletePolicy i db =
     (if findPolicyById db i = None then (False, db)
      else (True, db\<lparr>adb_policies := del_where (\<lambda>p. np_id p = i) (adb_policies db)\<rparr>))"

section \<open>Bookkeeping of the state machine\<close>

lemma rowToRule_sel [simp]:
  "ru_id (rowToRule r) = ru_id r" "ru_state (rowToRule r) = ru_state r" "ru_condition (rowToRule r) = ru_condition r"
  "ru_fireCount (rowToRule r) = ru_fireCount r" "ru_pendingSince (rowToRule r) = ru_pendingSince r" "ru_name (rowToRule r) = ru_name r"
  "ru_labels (rowToRule r) = ru_labels r" "ru_evaluationIntervalSec (rowToRule r) = ru_evaluationIntervalSec r"
  "ru_lastFiredAt (rowToRule r) = ru_lastFiredAt r" "ru_workspaceId (rowToRule r) = ru_workspaceId r" "ru_severity (rowToRule r) = ru_severity r"
  "ru_folderUid (rowToRule r) = None" "ru_investigationId (rowToRule r) = ru_investigationId r" "ru_source (rowToRule r) = ru_source r"
  "ru_updatedAt (rowToRule r) = ru_updatedAt r"
  by (simp_all add: rowToRule_def)

definition firings :: "alert_db \<Rightarrow> string \<Rightarrow> alert_history list" where
  "firings db i = filter (\<lambda>h. ah_ruleId h = i \<and> ah_toState h = Firing) (adb_history db)"

text \<open>A patch that leaves the bookkeeping to the repository; enabling and disabling set the state alone.\<close>

definition quiet_patch :: "rule_patch \<Rightarrow> bool" where
  "quiet_patch p \<longleftrightarrow> pa_state p \<in> {None, Some Normal, Some Disabled} \<and> pa_pendingSince p = None \<and> pa_fireCount p = None
     \<and> pa_lastFiredAt p = None"

text \<open>
  A run of the repository: the database, by how much edits have moved the fire count of each rule
  away from its history, and the rules whose bookkeeping an edit has set directly.
\<close>

record alert_run =
  al_db :: alert_db
  al_offset :: "string \<Rightarrow> int"
  al_direct :: "string set"

definition edit_rule :: "int \<Rightarrow> string \<Rightarrow> rule_patch \<Rightarrow> alert_run \<Rightarrow> alert_run" where
  "edit_rule now i p a = a\<lparr>al_db := snd (rule_update now i p (al_db a)),
     al_offset := (case pa_fireCount p of Some n \<Rightarrow> (al_offset a)(i := n - int (length (firings (al_db a) i))) | None \<Rightarrow> al_offset a),
     al_direct := (if quiet_patch p then al_direct a else insert i (al_direct a))\<rparr>"

inductive alert_event :: "alert_run \<Rightarrow> alert_run \<Rightarrow> bool" where
  create: "rule_create random now data (al_db a) = Inr (saved, db') \<Longrightarrow>
     alert_event a \<lparr>al_db = db', al_offset = (al_offset a)(ru_id saved := 0), al_direct = al_direct a - {ru_id saved}\<rparr>"
| edit: "alert_event a (edit_rule now i p a)"
| delete: "alert_event a (a\<lparr>al_db := snd (rule_delete i (al_db a))\<rparr>)"
| transition: "alert_event a (a\<lparr>al_db := snd (rule_transition fresh now i new v (al_db a))\<rparr>)"
| silence: "createSilence random now nowText m x b c d (al_db a) = Inr (s, db') \<Longrightarrow> alert_event a (a\<lparr>al_db := db'\<rparr>)"
| edit_silence: "alert_event a (a\<lparr>al_db := snd (updateSilence nowText i sp (al_db a))\<rparr>)"
| delete_silence: "alert_event a (a\<lparr>al_db := snd (deleteSilence i (al_db a))\<rparr>)"
| policy: "createPolicy random now data' (al_db a) = Inr (s', db') \<Longrightarrow> alert_event a (a\<lparr>al_db := db'\<rparr>)"
| edit_policy: "alert_event a (a\<lparr>al_db := snd (updatePolicy now i pp (al_db a))\<rparr>)"
| delete_policy: "alert_event a (a\<lparr>al_db := snd (deletePolicy i (al_db a))\<rparr>)"

definition rule_ok :: "alert_run \<Rightarrow> alert_rule \<Rightarrow> bool" where
  "rule_ok a r \<longleftrightarrow> ru_fireCount r = al_offset a (ru_id r) + int (length (firings (al_db a) (ru_id r)))
     \<and> (ru_id r \<notin> al_direct a \<longrightarrow> al_offset a (ru_id r) = 0 \<and> (ru_state r = Pending \<longrightarrow> ru_pendingSince r \<noteq> None)
          \<and> (0 < ru_fireCount r \<longrightarrow> ru_lastFiredAt r \<noteq> None))"

definition alerts_inv :: "alert_run \<Rightarrow> bool" where
  "alerts_inv a \<longleftrightarrow> distinct (map ru_id (adb_rules (al_db a)))
     \<and> ah_ruleId ` set (adb_history (al_db a)) \<subseteq> ru_id ` set (adb_rules (al_db a)) \<and> (\<forall>r\<in>set (adb_rules (al_db a)). rule_ok a r)"

lemma frame_inv:
  "adb_rules db' = adb_rules (al_db a) \<Longrightarrow> adb_history db' = adb_history (al_db a) \<Longrightarrow> alerts_inv (a\<lparr>al_db := db'\<rparr>) = alerts_inv a"
  by (simp add: alerts_inv_def rule_ok_def firings_def)

lemma frame_ops [simp]:
  "adb_rules (snd (updateSilence nowText i sp db)) = adb_rules db" "adb_history (snd (updateSilence nowText i sp db)) = adb_history db"
  "adb_rules (snd (deleteSilence i db)) = adb_rules db" "adb_history (snd (deleteSilence i db)) = adb_history db"
  "adb_rules (snd (updatePolicy now i pp db)) = adb_rules db" "adb_history (snd (updatePolicy now i pp db)) = adb_history db"
  "adb_rules (snd (deletePolicy i db)) = adb_rules db" "adb_history (snd (deletePolicy i db)) = adb_history db"
  by (simp_all add: updateSilence_def deleteSilence_def updatePolicy_def deletePolicy_def Let_def split: option.split)

lemma frame_creations:
  "createSilence random now nowText m a b c d db = Inr (s, db') \<Longrightarrow> adb_rules db' = adb_rules db \<and> adb_history db' = adb_history db"
  "createPolicy random now data' db = Inr (s', db') \<Longrightarrow> adb_rules db' = adb_rules db \<and> adb_history db' = adb_history db"
  by (auto simp: createSilence_def createPolicy_def Let_def split: if_splits option.splits)

lemma find_rule:
  "rule_findById db i = Some x \<Longrightarrow> \<exists>r\<in>set (adb_rules db). ru_id r = i \<and> x = rowToRule r"
  by (auto simp: rule_findById_def dest: find_Some_set)

lemma find_rule_unique:
  "distinct (map ru_id (adb_rules db)) \<Longrightarrow> r \<in> set (adb_rules db) \<Longrightarrow> rule_findById db (ru_id r) = Some (rowToRule r)"
  by (simp add: rule_findById_def find_key_unique)

lemma merge_patch_sel [simp]:
  "ru_id (merge_patch now p ex r) = ru_id r" "ru_state (merge_patch now p ex r) = coalesce (pa_state p) (ru_state ex)"
  "ru_pendingSince (merge_patch now p ex r) = coalesce (pa_pendingSince p) (ru_pendingSince ex)"
  "ru_fireCount (merge_patch now p ex r) = coalesce (pa_fireCount p) (ru_fireCount ex)"
  "ru_lastFiredAt (merge_patch now p ex r) = coalesce (pa_lastFiredAt p) (ru_lastFiredAt ex)"
  "ru_condition (merge_patch now p ex r) = coalesce (pa_condition p) (ru_condition ex)"
  "ru_workspaceId (merge_patch now p ex r) = coalesce (pa_workspaceId p) (ru_workspaceId ex)"
  "ru_folderUid (merge_patch now p ex r) = ru_folderUid r" "ru_orgId (merge_patch now p ex r) = ru_orgId r"
  by (simp_all add: merge_patch_def)

text \<open>What an update does to the one row it concerns.\<close>

lemma rule_update_row:
  assumes "distinct (map ru_id (adb_rules db))" "r \<in> set (adb_rules db)"
  shows "rule_update now (ru_id r) p db =
     (Some (rowToRule (merge_patch now p (rowToRule r) r)),
      db\<lparr>adb_rules := upd_where (\<lambda>x. ru_id x = ru_id r) (merge_patch now p (rowToRule r)) (adb_rules db)\<rparr>)"
proof -
  let ?rows = "upd_where (\<lambda>x. ru_id x = ru_id r) (merge_patch now p (rowToRule r)) (adb_rules db)"
  have "distinct (map ru_id ?rows)" using assms(1) by (simp add: map_upd_where_key)
  moreover have "merge_patch now p (rowToRule r) r \<in> set ?rows" using assms(2) by (auto simp: set_upd_where)
  ultimately have "rule_findById (db\<lparr>adb_rules := ?rows\<rparr>) (ru_id (merge_patch now p (rowToRule r) r))
      = Some (rowToRule (merge_patch now p (rowToRule r) r))"
    by (intro find_rule_unique) simp_all
  then show ?thesis by (simp add: rule_update_def find_rule_unique [OF assms])
qed

lemma rule_update_missing: "rule_findById db i = None \<Longrightarrow> rule_update now i p db = (None, db)"
  by (simp add: rule_update_def)

text \<open>A change of one row that is right for this row and leaves the history of the others alone.\<close>

lemma inv_rows:
  assumes "alerts_inv a" "r \<in> set (adb_rules (al_db a))"
    and "\<And>j. j \<noteq> ru_id r \<Longrightarrow> firings (al_db a') j = firings (al_db a) j \<and> al_offset a' j = al_offset a j \<and> (j \<in> al_direct a' \<longleftrightarrow> j \<in> al_direct a)"
    and "ah_ruleId ` set (adb_history (al_db a')) \<subseteq> ru_id ` set (adb_rules (al_db a))"
    and "adb_rules (al_db a') = upd_where (\<lambda>x. ru_id x = ru_id r) f (adb_rules (al_db a))" "\<And>x. ru_id (f x) = ru_id x" "rule_ok a' (f r)"
  shows "alerts_inv a'"
proof -
  have dist: "distinct (map ru_id (adb_rules (al_db a)))" and ok: "\<forall>r\<in>set (adb_rules (al_db a)). rule_ok a r"
    using assms(1) by (auto simp: alerts_inv_def)
  have "rule_ok a' x" if "x \<in> set (adb_rules (al_db a))" "ru_id x \<noteq> ru_id r" for x
    using ok that assms(3) by (auto simp: rule_ok_def)
  moreover have "x = r" if "x \<in> set (adb_rules (al_db a))" "ru_id x = ru_id r" for x
    using dist that assms(2) by (auto simp: distinct_map dest: inj_onD)
  ultimately have "\<forall>x\<in>set (adb_rules (al_db a')). rule_ok a' x" unfolding assms(5) set_upd_where using assms(7) by auto
  moreover have "map ru_id (adb_rules (al_db a')) = map ru_id (adb_rules (al_db a))" using assms(5,6) by (simp add: map_upd_where_key)
  ultimately show ?thesis using dist assms(4) unfolding alerts_inv_def by (metis list.set_map)
qed

lemma alerts_inv_edit:
  assumes "alerts_inv a"
  shows "alerts_inv (edit_rule now i p a)"
proof (cases "rule_findById (al_db a) i")
  case None
  then have "i \<notin> ru_id ` set (adb_rules (al_db a))"
    using assms find_rule_unique [of "al_db a"] by (auto simp: alerts_inv_def)
  moreover have "al_db (edit_rule now i p a) = al_db a" using None by (simp add: edit_rule_def rule_update_missing)
  ultimately show ?thesis using assms by (auto simp: alerts_inv_def rule_ok_def edit_rule_def split: option.splits)
next
  case (Some x)
  then obtain r where r: "r \<in> set (adb_rules (al_db a))" "ru_id r = i" using find_rule by blast
  have dist: "distinct (map ru_id (adb_rules (al_db a)))" and ok: "rule_ok a r" using assms r by (auto simp: alerts_inv_def)
  have db: "al_db (edit_rule now i p a) = (al_db a)\<lparr>adb_rules := upd_where (\<lambda>x. ru_id x = i) (merge_patch now p (rowToRule r)) (adb_rules (al_db a))\<rparr>"
    using rule_update_row [OF dist r(1), of now p] by (simp add: edit_rule_def r(2))
  have firings: "firings (al_db (edit_rule now i p a)) j = firings (al_db a) j" for j by (simp add: db firings_def)
  have "rule_ok (edit_rule now i p a) (merge_patch now p (rowToRule r) r)"
    using ok r(2) unfolding rule_ok_def firings
    by (auto simp: edit_rule_def quiet_patch_def split: option.splits)
  moreover have "al_offset (edit_rule now i p a) j = al_offset a j \<and> (j \<in> al_direct (edit_rule now i p a) \<longleftrightarrow> j \<in> al_direct a)" if "j \<noteq> ru_id r" for j
    using that r(2) by (simp add: edit_rule_def split: option.split)
  moreover have "ah_ruleId ` set (adb_history (al_db (edit_rule now i p a))) \<subseteq> ru_id ` set (adb_rules (al_db a))"
    using assms by (simp add: db alerts_inv_def)
  ultimately show ?thesis
    using firings by (intro inv_rows [OF assms r(1), of _ "merge_patch now p (rowToRule r)"]) (simp_all add: db r(2))
qed

lemma rule_transition_row:
  assumes "distinct (map ru_id (adb_rules db))" "r \<in> set (adb_rules db)" "ru_state r \<noteq> new"
  shows "snd (rule_transition fresh now (ru_id r) new v db) =
     db\<lparr>adb_history := adb_history db @ [\<lparr>ah_id = fresh, ah_ruleId = ru_id r, ah_ruleName = ru_name r, ah_fromState = ru_state r, ah_toState = new,
          ah_value = coalesce v (Fin 0), ah_threshold = cn_threshold (ru_condition r), ah_timestamp = now, ah_labels = coalesce (ru_labels r) []\<rparr>],
        adb_rules := upd_where (\<lambda>y. ru_id y = ru_id r) (merge_patch now (transition_patch now new (rowToRule r)) (rowToRule r)) (adb_rules db)\<rparr>"
proof -
  let ?entry = "\<lparr>ah_id = fresh, ah_ruleId = ru_id r, ah_ruleName = ru_name r, ah_fromState = ru_state r, ah_toState = new,
      ah_value = coalesce v (Fin 0), ah_threshold = cn_threshold (ru_condition r), ah_timestamp = now, ah_labels = coalesce (ru_labels r) []\<rparr>"
  let ?db = "db\<lparr>adb_history := adb_history db @ [?entry]\<rparr>"
  have "rule_transition fresh now (ru_id r) new v db = rule_update now (ru_id r) (transition_patch now new (rowToRule r)) ?db"
    using find_rule_unique [OF assms(1,2)] assms(3) by (simp add: rule_transition_def)
  then show ?thesis using rule_update_row [of ?db r now] assms(1,2) by simp
qed

lemma inv_transition:
  assumes "alerts_inv a"
  shows "alerts_inv (a\<lparr>al_db := snd (rule_transition fresh now i new v (al_db a))\<rparr>)"
proof (cases "rule_findById (al_db a) i")
  case (Some x)
  then obtain r where r: "r \<in> set (adb_rules (al_db a))" "ru_id r = i" "x = rowToRule r" using find_rule by blast
  have dist: "distinct (map ru_id (adb_rules (al_db a)))" and ok: "rule_ok a r" using assms r by (auto simp: alerts_inv_def)
  show ?thesis
  proof (cases "ru_state r = new")
    case True
    then show ?thesis using assms Some r by (simp add: rule_transition_def)
  next
    case False
    let ?f = "merge_patch now (transition_patch now new (rowToRule r)) (rowToRule r)"
    note db = rule_transition_row [OF dist r(1) False, of fresh now v, unfolded r(2)]
    have "rule_ok (a\<lparr>al_db := snd (rule_transition fresh now i new v (al_db a))\<rparr>) (?f r)"
      using ok r unfolding db rule_ok_def
      by (auto simp: firings_def transition_patch_def no_patch_def Let_def)
    then show ?thesis
      by (intro inv_rows [OF assms r(1), of _ ?f]) (use assms r in \<open>auto simp: db firings_def alerts_inv_def\<close>)
  qed
qed (simp add: rule_transition_def assms)

lemma firings_unknown:
  assumes "alerts_inv a" "i \<notin> ru_id ` set (adb_rules (al_db a))"
  shows "firings (al_db a) i = []"
proof -
  have "i \<notin> ah_ruleId ` set (adb_history (al_db a))" using assms by (auto simp: alerts_inv_def)
  then show ?thesis by (auto simp: firings_def filter_empty_conv)
qed

lemma inv_append:
  assumes "alerts_inv a" "i \<notin> ru_id ` set (adb_rules (al_db a))"
  shows "alerts_inv \<lparr>al_db = (al_db a)\<lparr>adb_rules := adb_rules (al_db a) @ [new_rule_row i now data]\<rparr>,
     al_offset = (al_offset a)(i := 0), al_direct = al_direct a - {i}\<rparr>" (is "alerts_inv ?a")
proof -
  have "rule_ok ?a r" if "r \<in> set (adb_rules (al_db a))" for r
  proof -
    have "ru_id r \<noteq> i" "rule_ok a r" using assms that by (auto simp: alerts_inv_def)
    then show ?thesis by (simp add: rule_ok_def firings_def)
  qed
  moreover have "rule_ok ?a (new_rule_row i now data)"
    using firings_unknown [OF assms] by (simp add: rule_ok_def new_rule_row_def firings_def)
  moreover have "ru_id (new_rule_row i now data) = i" by (simp add: new_rule_row_def)
  ultimately show ?thesis using assms by (auto simp: alerts_inv_def)
qed

lemma find_append_new: "i \<notin> k ` set xs \<Longrightarrow> k y = i \<Longrightarrow> List.find (\<lambda>x. k x = i) (xs @ [y]) = Some y"
  by (induction xs) auto

lemma rule_create_new:
  assumes "i = ''alert_'' @ take 12 random" "i \<notin> ru_id ` set (adb_rules db)"
  shows "rule_create random now data db =
     Inr (rowToRule (new_rule_row i now data), db\<lparr>adb_rules := adb_rules db @ [new_rule_row i now data]\<rparr>)"
proof -
  have "List.find (\<lambda>r. ru_id r = i) (adb_rules db @ [new_rule_row i now data]) = Some (new_rule_row i now data)"
    by (rule find_append_new [OF assms(2)]) (simp add: new_rule_row_def)
  then show ?thesis
    unfolding rule_create_def Let_def assms(1) [symmetric] using assms(2) by (auto simp: list_ex_iff rule_findById_def)
qed

lemma rule_createE:
  assumes "rule_create random now data db = Inr (saved, db')"
  shows "\<exists>i. i \<notin> ru_id ` set (adb_rules db) \<and> db' = db\<lparr>adb_rules := adb_rules db @ [new_rule_row i now data]\<rparr>
     \<and> saved = rowToRule (new_rule_row i now data)"
proof (intro exI conjI)
  let ?i = "''alert_'' @ take 12 random"
  show new: "?i \<notin> ru_id ` set (adb_rules db)"
    using assms by (auto simp: rule_create_def Let_def list_ex_iff split: if_splits)
  then have "List.find (\<lambda>r. ru_id r = ?i) (adb_rules db @ [new_rule_row ?i now data]) = Some (new_rule_row ?i now data)"
    by (rule find_append_new) (simp add: new_rule_row_def)
  then show "db' = db\<lparr>adb_rules := adb_rules db @ [new_rule_row ?i now data]\<rparr>" "saved = rowToRule (new_rule_row ?i now data)"
    using assms by (auto simp: rule_create_def rule_findById_def Let_def split: if_splits)
qed

lemma alerts_inv_create:
  assumes "alerts_inv a" "rule_create random now data (al_db a) = Inr (saved, db')"
  shows "alerts_inv \<lparr>al_db = db', al_offset = (al_offset a)(ru_id saved := 0), al_direct = al_direct a - {ru_id saved}\<rparr>"
proof -
  obtain i where i: "i \<notin> ru_id ` set (adb_rules (al_db a))" "db' = (al_db a)\<lparr>adb_rules := adb_rules (al_db a) @ [new_rule_row i now data]\<rparr>"
      "saved = rowToRule (new_rule_row i now data)"
    using rule_createE [OF assms(2)] by blast
  then have "ru_id saved = i" by (simp add: new_rule_row_def)
  then show ?thesis using inv_append [OF assms(1) i(1), of now data] i(2) by simp
qed

lemma alerts_inv_delete:
  assumes "alerts_inv a"
  shows "alerts_inv (a\<lparr>al_db := snd (rule_delete i (al_db a))\<rparr>)"
proof -
  let ?db = "(al_db a)\<lparr>adb_rules := del_where (\<lambda>r. ru_id r = i) (adb_rules (al_db a)), adb_history := del_where (\<lambda>h. ah_ruleId h = i) (adb_history (al_db a))\<rparr>"
  have "firings ?db j = firings (al_db a) j" if "j \<noteq> i" for j
    using that by (auto simp: firings_def del_where_def intro!: filter_cong)
  then have "rule_ok (a\<lparr>al_db := ?db\<rparr>) r" if "r \<in> set (adb_rules (al_db a))" "ru_id r \<noteq> i" for r
    using that assms by (simp add: rule_ok_def alerts_inv_def)
  moreover have "ah_ruleId ` set (adb_history ?db) \<subseteq> ru_id ` set (adb_rules ?db)"
  proof
    fix j assume "j \<in> ah_ruleId ` set (adb_history ?db)"
    then have "j \<noteq> i" "j \<in> ah_ruleId ` set (adb_history (al_db a))" by auto
    then have "j \<in> ru_id ` set (adb_rules (al_db a))" using assms unfolding alerts_inv_def by blast
    then show "j \<in> ru_id ` set (adb_rules ?db)" using \<open>j \<noteq> i\<close> by auto
  qed
  moreover have "distinct (map ru_id (adb_rules ?db))" using assms by (simp add: alerts_inv_def distinct_del_where)
  ultimately have "alerts_inv (a\<lparr>al_db := ?db\<rparr>)" by (simp add: alerts_inv_def)
  then show ?thesis using assms by (simp add: rule_delete_def)
qed

definition empty_alerts :: alert_db where
  "empty_alerts = \<lparr>adb_rules = [], adb_history = [], adb_silences = [], adb_policies = []\<rparr>"

definition new_run :: alert_run where
  "new_run = \<lparr>al_db = empty_alerts, al_offset = (\<lambda>i. 0), al_direct = {}\<rparr>"

lemma alert_event_inv: "alert_event a a' \<Longrightarrow> alerts_inv a \<Longrightarrow> alerts_inv a'"
proof (induction rule: alert_event.induct)
  case (create random now data a saved db')
  then show ?case by (intro alerts_inv_create)
next
  case (silence random now nowText m x b c d a s db')
  then show ?case using frame_inv frame_creations(1) by metis
next
  case (policy random now data' a s' db')
  then show ?case using frame_inv frame_creations(2) by metis
next
  case (edit_silence a nowText i sp)
  then show ?case by (simp only: frame_inv [OF frame_ops(1,2)])
next
  case (delete_silence a i)
  then show ?case by (simp only: frame_inv [OF frame_ops(3,4)])
next
  case (edit_policy a now i pp)
  then show ?case by (simp only: frame_inv [OF frame_ops(5,6)])
next
  case (delete_policy a i)
  then show ?case by (simp only: frame_inv [OF frame_ops(7,8)])
qed (simp_all only: alerts_inv_edit alerts_inv_delete inv_transition)

interpretation alerts: invariant_system "\<lambda>a. a = new_run" alert_event alerts_inv
  by unfold_locales (simp add: new_run_def empty_alerts_def alerts_inv_def, blast intro: alert_event_inv)

text \<open>
  C27. The bookkeeping of alert rules, over every sequence of calls of the repository, edits of
  any fields included: the identifier of a rule finds its row, the history of a deleted rule is
  gone, and the fire count of a rule is the number of its entries in the history that lead to
  firing, moved only by what edits of the fire count itself have added.  For a rule whose state,
  times and count no edit has set, other than to enable or disable it, nothing was added, it has
  the time since when it is pending when it is pending, and the time of the last firing when it
  fired.  (An edit over HTTP may set these fields: the route passes the body on as it is.)
\<close>

theorem alert_bookkeeping:
  assumes "alert_event\<^sup>*\<^sup>* new_run a" "r \<in> set (adb_rules (al_db a))"
  shows "rule_findById (al_db a) (ru_id r) = Some (rowToRule r)
     \<and> ru_fireCount r = al_offset a (ru_id r)
          + int (length (filter (\<lambda>h. ah_ruleId h = ru_id r \<and> ah_toState h = Firing) (adb_history (al_db a))))
     \<and> (\<forall>h\<in>set (adb_history (al_db a)). rule_findById (al_db a) (ah_ruleId h) \<noteq> None)
     \<and> (ru_id r \<notin> al_direct a \<longrightarrow> al_offset a (ru_id r) = 0 \<and> (ru_state r = Pending \<longrightarrow> ru_pendingSince r \<noteq> None)
          \<and> (0 < ru_fireCount r \<longrightarrow> ru_lastFiredAt r \<noteq> None))"
proof -
  have inv: "alerts_inv a" using alerts.reachable_inv [OF refl assms(1)] .
  then have "rule_findById (al_db a) (ah_ruleId h) \<noteq> None" if "h \<in> set (adb_history (al_db a))" for h
  proof -
    have "ah_ruleId h \<in> ru_id ` set (adb_rules (al_db a))" using inv that unfolding alerts_inv_def by blast
    then obtain x where "x \<in> set (adb_rules (al_db a))" "ru_id x = ah_ruleId h" by auto
    then show ?thesis using find_rule_unique [of "al_db a" x] inv by (simp add: alerts_inv_def)
  qed
  moreover have "rule_ok a r" using inv assms(2) by (simp add: alerts_inv_def)
  ultimately show ?thesis
    using inv assms(2) find_rule_unique [of "al_db a" r] by (simp add: alerts_inv_def rule_ok_def firings_def)
qed

text \<open>
  The folder of a rule is lost: the rule a creation returns never names the folder it was stored
  with, nor does any later read, and the folder lookup of an organisation other than
  \<^verbatim>\<open>org_main\<close> never finds it, because every row is stored under \<^verbatim>\<open>org_main\<close>.
\<close>

theorem rule_folder_lost:
  assumes "rule_create random now data db = Inr (saved, db')"
  shows "ru_folderUid saved = None \<and> (\<forall>i x. rule_findById db' i = Some x \<longrightarrow> ru_folderUid x = None)
     \<and> (orgId \<noteq> ''org_main'' \<and> getFolderUid db orgId (ru_id saved) = None \<longrightarrow> getFolderUid db' orgId (ru_id saved) = None)"
proof -
  obtain i where i: "db' = db\<lparr>adb_rules := adb_rules db @ [new_rule_row i now data]\<rparr>" "saved = rowToRule (new_rule_row i now data)"
    "i \<notin> ru_id ` set (adb_rules db)"
    using rule_createE [OF assms] by blast
  have "ru_id saved = i" by (simp add: i(2) new_rule_row_def)
  moreover have "List.find (\<lambda>r. ru_orgId r = orgId \<and> ru_id r = i) (adb_rules db) = None"
    using i(3) by (auto simp: find_None_set)
  ultimately show ?thesis
    by (auto simp: i(1,2) rule_findById_def getFolderUid_def find_append_miss new_rule_row_def)
qed

section \<open>Witnesses\<close>

definition cpu_condition :: alert_condition where
  "cpu_condition = \<lparr>cn_query = ''cpu'', cn_operator = Gt, cn_threshold = 1 / 2, cn_forDurationSec = 60\<rparr>"

definition cpu_input :: alert_input where
  "cpu_input = \<lparr>ci_name = ''cpu'', ci_description = '''', ci_originalPrompt = None, ci_condition = cpu_condition, ci_evaluationIntervalSec = 60,
     ci_severity = ''high'', ci_labels = None, ci_notificationPolicyId = None, ci_investigationId = None, ci_workspaceId = Some ''o1'',
     ci_folderUid = Some ''ops'', ci_createdBy = ''u1'', ci_lastEvaluatedAt = None, ci_lastFiredAt = None, ci_source = Some ''api'',
     ci_provenance = None\<rparr>"

definition cpu_row :: alert_rule where
  "cpu_row = new_rule_row ''alert_1'' 10 cpu_input"

lemma create_cpu:
  "rule_create ''1'' 10 cpu_input empty_alerts = Inr (rowToRule cpu_row, empty_alerts\<lparr>adb_rules := [cpu_row]\<rparr>)"
  by (simp add: rule_create_def rule_findById_def empty_alerts_def cpu_row_def new_rule_row_def Let_def)

definition fired_run :: alert_run where
  "fired_run = \<lparr>al_db = snd (rule_transition ''h'' 20 ''alert_1'' Firing None (empty_alerts\<lparr>adb_rules := [cpu_row]\<rparr>)),
     al_offset = (\<lambda>i. 0), al_direct = {}\<rparr>"

theorem alert_bookkeeping_witness:
  "map ru_fireCount (adb_rules (al_db fired_run)) = [1] \<and> map ru_lastFiredAt (adb_rules (al_db fired_run)) \<noteq> [None]"
proof -
  let ?a = "\<lparr>al_db = empty_alerts\<lparr>adb_rules := [cpu_row]\<rparr>, al_offset = (\<lambda>i. 0), al_direct = {}\<rparr>"
  have "rule_create ''1'' 10 cpu_input (al_db new_run) = Inr (rowToRule cpu_row, empty_alerts\<lparr>adb_rules := [cpu_row]\<rparr>)"
    using create_cpu by (simp add: new_run_def)
  from alert_event.create [OF this] have "alert_event new_run ?a" by (simp add: new_run_def fun_upd_idem)
  moreover have "alert_event ?a fired_run"
    using alert_event.transition [of ?a "''h''" 20 "''alert_1''" Firing None] by (simp add: fired_run_def)
  ultimately have run: "alert_event\<^sup>*\<^sup>* new_run fired_run" by (meson rtranclp.simps)
  have "ru_id cpu_row = ''alert_1''" "ru_state cpu_row \<noteq> Firing" by (simp_all add: cpu_row_def new_rule_row_def)
  then have fired: "al_db fired_run = empty_alerts\<lparr>adb_rules := [merge_patch 20 (transition_patch 20 Firing (rowToRule cpu_row)) (rowToRule cpu_row) cpu_row],
      adb_history := adb_history (al_db fired_run)\<rparr>" "map ah_ruleId (adb_history (al_db fired_run)) = [''alert_1'']"
      "map ah_toState (adb_history (al_db fired_run)) = [Firing]"
    using rule_transition_row [of "empty_alerts\<lparr>adb_rules := [cpu_row]\<rparr>" cpu_row Firing "''h''" 20 None]
    by (simp_all add: fired_run_def upd_where_def empty_alerts_def)
  let ?r = "merge_patch 20 (transition_patch 20 Firing (rowToRule cpu_row)) (rowToRule cpu_row) cpu_row"
  have r1: "adb_rules (al_db fired_run) = [?r]" by (subst fired(1)) simp
  have r2: "ru_id ?r = ''alert_1''" using \<open>ru_id cpu_row = ''alert_1''\<close> by simp
  note r = r1 r2
  have "length (filter (\<lambda>h. ah_ruleId h = ru_id ?r \<and> ah_toState h = Firing) (adb_history (al_db fired_run))) = 1"
    using fired(2,3) r2 by auto
  moreover have "al_direct fired_run = {}" by (simp add: fired_run_def)
  ultimately show ?thesis using alert_bookkeeping [OF run, of ?r] r by auto
qed

theorem rule_folder_lost_witness:
  "ru_folderUid (rowToRule cpu_row) = None \<and> ru_folderUid cpu_row = Some ''ops''
     \<and> getFolderUid (empty_alerts\<lparr>adb_rules := [cpu_row]\<rparr>) ''o1'' ''alert_1'' = None"
  using rule_folder_lost [OF create_cpu, of "''o1''"]
  by (simp add: cpu_row_def new_rule_row_def cpu_input_def empty_alerts_def getFolderUid_def)

end
