(* ===== verification/Alert_Evaluator.thy ===== *)
theory Alert_Evaluator
  imports Alert_Store "HOL-Library.Multiset"
begin

text \<open>
  The alert evaluator (\<^verbatim>\<open>api-gateway/src/services/alert-evaluator-service.ts\<close>), the fingerprint of
  an alert (\<^verbatim>\<open>common/src/events/fingerprint.ts\<close>) and the leader lock
  (\<^verbatim>\<open>api-gateway/src/services/leader-lock.ts\<close>).  The metrics query is a parameter.  An evaluation
  is split where the source awaits the query, so that other calls can run in between.  The
  evaluator and the repository read the same clock.
\<close>

section \<open>Conditions\<close>

fun js_less :: "js_number \<Rightarrow> js_number \<Rightarrow> bool" where
  "js_less NaN y = False"
| "js_less x NaN = False"
| "js_less (Fin a) (Fin b) = (a < b)"
| "js_less (Fin a) (Infinite positive) = positive"
| "js_less (Infinite positive) (Fin b) = (\<not> positive)"
| "js_less (Infinite p) (Infinite q) = (\<not> p \<and> q)"

definition js_equal :: "js_number \<Rightarrow> js_number \<Rightarrow> bool" where
  "js_equal x y \<longleftrightarrow> x = y \<and> x \<noteq> NaN"

definition evaluatePredicate :: "alert_operator \<Rightarrow> js_number \<Rightarrow> js_number \<Rightarrow> bool" where
  "evaluatePredicate op v threshold =
     (case op of
        Gt \<Rightarrow> js_less threshold v
      | Ge \<Rightarrow> js_less threshold v \<or> js_equal v threshold
      | Lt \<Rightarrow> js_less v threshold
      | Le \<Rightarrow> js_less v threshold \<or> js_equal v threshold
      | Eq \<Rightarrow> js_equal v threshold
      | Ne \<Rightarrow> \<not> js_equal v threshold)"

definition decideTransition ::
  "alert_state \<Rightarrow> int option \<Rightarrow> alert_condition \<Rightarrow> bool \<Rightarrow> int \<Rightarrow> alert_state option" where
  "decideTransition state pendingSince condition predicateTrue now =
     (if state = Disabled then None
      else if predicateTrue then
        (if state = Firing then None
         else if state = Pending then
           (case pendingSince of
              None \<Rightarrow> None
            | Some since \<Rightarrow> if of_int (now - since) \<ge> cn_forDurationSec condition * 1000 then Some Firing else None)
         else if cn_forDurationSec condition = 0 then Some Firing else Some Pending)
      else if state = Firing then Some Resolved
      else if state = Pending then Some Normal
      else None)"

section \<open>Backtest of a condition\<close>

text \<open>
  Reading a decimal number: optional sign, digits with an optional point, an optional exponent;
  a blank text is 0.  The other literals of the language (hexadecimal and the like) do not occur in
  the answers of a metrics server.
\<close>

fun read_digits :: "nat \<Rightarrow> nat \<Rightarrow> string \<Rightarrow> nat \<times> nat \<times> string" where
  "read_digits acc n [] = (acc, n, [])"
| "read_digits acc n (c # cs) =
     (case digit_value c of Some d \<Rightarrow> read_digits (10 * acc + nat d) (n + 1) cs | None \<Rightarrow> (acc, n, c # cs))"

definition read_sign :: "string \<Rightarrow> bool \<times> string" where
  "read_sign s = (case s of c # cs \<Rightarrow> if c = CHR ''-'' then (True, cs) else if c = CHR ''+'' then (False, cs) else (False, s) | [] \<Rightarrow> (False, s))"

definition power_of_ten :: "int \<Rightarrow> rat" where
  "power_of_ten e = (if 0 \<le> e then 10 ^ nat e else 1 / 10 ^ nat (- e))"

definition js_Number :: "string \<Rightarrow> js_number" where
  "js_Number raw =
     (let t = js_trim raw in
      if t = '''' then Fin 0
      else (let (neg, s) = read_sign t in
        if s = ''Infinity'' then Infinite (\<not> neg)
        else (let (whole, n, s1) = read_digits 0 0 s;
                  (frac, m, s2) = (case s1 of c # cs \<Rightarrow> if c = CHR ''.'' then read_digits 0 0 cs else (0, 0, s1) | [] \<Rightarrow> (0, 0, s1));
                  mantissa = rat_of_nat whole + rat_of_nat frac * power_of_ten (- int m);
                  signed = (if neg then - mantissa else mantissa)
              in if n + m = 0 then NaN
                 else (case s2 of
                         [] \<Rightarrow> Fin signed
                       | c # cs \<Rightarrow>
                           if c \<noteq> CHR ''e'' \<and> c \<noteq> CHR ''E'' then NaN
                           else (let (eneg, s3) = read_sign cs; (e, k, s4) = read_digits 0 0 s3
                                 in if k = 0 \<or> s4 \<noteq> [] then NaN
                                    else Fin (signed * power_of_ten (if eneg then - int e else int e)))))))"

record preview_input =
  pi_query :: string
  pi_operator :: alert_operator
  pi_threshold :: js_number
  pi_lookbackHours :: "rat option"
  pi_step :: "string option"
  pi_maxSamples :: "int option"

datatype preview_result =
    Preview_ok nat "rat list" nat rat bool
  | Missing_capability string

type_synonym metric_series = "(rat \<times> string) list"
type_synonym range_query = "string \<Rightarrow> int \<Rightarrow> int \<Rightarrow> string \<Rightarrow> metric_series list result"

text \<open>The loops over series and samples: the count and the first timestamps.\<close>

definition preview_step :: "preview_input \<Rightarrow> int \<Rightarrow> rat \<times> string \<Rightarrow> rat list \<times> nat \<Rightarrow> rat list \<times> nat" where
  "preview_step input maxSamples sample acc =
     (let (tsSec, raw) = sample; (matches, n) = acc; v = js_Number raw in
      if \<not> (case v of Fin _ \<Rightarrow> True | _ \<Rightarrow> False) then acc
      else if evaluatePredicate (pi_operator input) v (pi_threshold input)
      then ((if int (length matches) < maxSamples then matches @ [tsSec] else matches), n + 1)
      else acc)"

definition previewAlertCondition :: "range_query option \<Rightarrow> preview_input \<Rightarrow> int \<Rightarrow> preview_result" where
  "previewAlertCondition metrics input now =
     (case metrics of
        None \<Rightarrow> Missing_capability ''no_metrics_datasource''
      | Some rangeQuery \<Rightarrow>
          (let lookbackHours = max 1 (min 168 (coalesce (pi_lookbackHours input) 24));
               start = \<lfloor>of_int now - lookbackHours * 3600000\<rfloor>;
               step = coalesce (pi_step input) ''60s'';
               maxSamples = max 1 (coalesce (pi_maxSamples input) 20)
           in case rangeQuery (pi_query input) start now step of
                Inl e \<Rightarrow> Missing_capability (''query_failed: '' @ e)
              | Inr series \<Rightarrow>
                  if series = [] then Preview_ok 0 [] 0 lookbackHours True
                  else (let (matches, n) = fold (preview_step input maxSamples) (concat series) ([], 0)
                        in Preview_ok n (map (\<lambda>sec. sec * 1000) matches) (length series) lookbackHours False)))"

section \<open>Fingerprints\<close>

definition fingerprint_text :: "string \<Rightarrow> labels \<Rightarrow> string" where
  "fingerprint_text ruleId ls =
     ruleId @ ''|'' @ join_with '','' (map (\<lambda>k. k @ ''='' @ the (map_of ls k)) (sort (map fst ls)))"

definition computeAlertFingerprint :: "(string \<Rightarrow> string) \<Rightarrow> string \<Rightarrow> labels \<Rightarrow> string" where
  "computeAlertFingerprint sha ruleId ls = sha (fingerprint_text ruleId ls)"

section \<open>The service\<close>

record alert_fired =
  af_ruleId :: string
  af_ruleName :: string
  af_orgId :: string
  af_severity :: string
  af_value :: js_number
  af_threshold :: rat
  af_operator :: alert_operator
  af_labels :: labels
  af_firedAt :: int
  af_fingerprint :: string

record evaluator_options =
  eo_eventBus :: bool
  eo_orgId :: "string option"
  eo_sha :: "string \<Rightarrow> string"
  eo_leaderLock :: bool

text \<open>
  A timer is the handle of a \<^verbatim>\<open>setInterval\<close> with its period; the service also keeps what the
  timer was made for.  Beside the map the service keeps, the state has the intervals that are live in
  the runtime, with the rule each evaluates: \<^verbatim>\<open>setInterval\<close> adds one, \<^verbatim>\<open>clearInterval\<close> removes it.
\<close>

record evaluator_state =
  ae_running :: bool
  ae_isLeader :: bool
  ae_timers :: "(string, nat \<times> int) js_map"
  ae_fingerprints :: "(string, int \<times> alert_state) js_map"
  ae_inFlight :: "string list"
  ae_leaderTimer :: bool
  ae_refreshTimer :: bool
  ae_debounce :: bool
  ae_nextHandle :: nat
  ae_live :: "(nat \<times> string \<times> int) list"

definition new_evaluator :: evaluator_state where
  "new_evaluator = \<lparr>ae_running = False, ae_isLeader = False, ae_timers = [], ae_fingerprints = [], ae_inFlight = [],
     ae_leaderTimer = False, ae_refreshTimer = False, ae_debounce = False, ae_nextHandle = 0, ae_live = []\<rparr>"

text \<open>An evaluation up to the query: the guard against overlap and the fresh read.\<close>

definition tick_begin :: "string \<Rightarrow> evaluator_state \<Rightarrow> alert_db \<Rightarrow> alert_rule option \<times> evaluator_state" where
  "tick_begin ruleId ev db =
     (if ruleId \<in> set (ae_inFlight ev) then (None, ev)
      else (case rule_findById db ruleId of
              None \<Rightarrow> (None, ev)
            | Some fresh \<Rightarrow>
                if ru_state fresh = Disabled then (None, ev)
                else (Some fresh, ev\<lparr>ae_inFlight := ae_inFlight ev @ [ruleId]\<rparr>)))"

text \<open>The rest, with the answer of the query: a failure, no sample, or a value.\<close>

definition tick_finish ::
  "evaluator_options \<Rightarrow> string \<Rightarrow> int \<Rightarrow> alert_rule \<Rightarrow> js_number option result \<Rightarrow> evaluator_state \<Rightarrow> alert_db \<Rightarrow>
     alert_fired list \<times> evaluator_state \<times> alert_db" where
  "tick_finish opts historyId now fresh answer ev db =
     (let ev' = ev\<lparr>ae_inFlight := filter (\<lambda>i. i \<noteq> ru_id fresh) (ae_inFlight ev)\<rparr> in
      case answer of
        Inl e \<Rightarrow> ([], ev', db)
      | Inr None \<Rightarrow> ([], ev', db)
      | Inr (Some v) \<Rightarrow>
          (let predicate = evaluatePredicate (cn_operator (ru_condition fresh)) v (Fin (cn_threshold (ru_condition fresh))) in
           case decideTransition (ru_state fresh) (ru_pendingSince fresh) (ru_condition fresh) predicate now of
             None \<Rightarrow> ([], ev', db)
           | Some next \<Rightarrow>
               if next = ru_state fresh then ([], ev', db)
               else (let (updated, db') = rule_transition historyId now (ru_id fresh) next (Some v) db in
                     case updated of
                       None \<Rightarrow> ([], ev', db')
                     | Some u \<Rightarrow>
                         if next = Firing \<and> eo_eventBus opts
                         then ([\<lparr>af_ruleId = ru_id u, af_ruleName = ru_name u, af_orgId = coalesce (eo_orgId opts) ''org_main'',
                                  af_severity = ru_severity u, af_value = v, af_threshold = cn_threshold (ru_condition u),
                                  af_operator = cn_operator (ru_condition u), af_labels = coalesce (ru_labels u) [], af_firedAt = now,
                                  af_fingerprint = computeAlertFingerprint (eo_sha opts) (ru_id u) (coalesce (ru_labels u) [])\<rparr>], ev', db')
                         else ([], ev', db'))))"

definition tickRule ::
  "evaluator_options \<Rightarrow> (alert_rule \<Rightarrow> js_number option result) \<Rightarrow> string \<Rightarrow> int \<Rightarrow> string \<Rightarrow> evaluator_state \<Rightarrow> alert_db \<Rightarrow>
     alert_fired list \<times> evaluator_state \<times> alert_db" where
  "tickRule opts query historyId now ruleId ev db =
     (case tick_begin ruleId ev db of
        (None, ev') \<Rightarrow> ([], ev', db)
      | (Some fresh, ev') \<Rightarrow> tick_finish opts historyId now fresh (query fresh) ev' db)"

fun tick_each ::
  "evaluator_options \<Rightarrow> (alert_rule \<Rightarrow> js_number option result) \<Rightarrow> (string \<Rightarrow> string) \<Rightarrow> int \<Rightarrow> alert_rule list \<Rightarrow> evaluator_state \<Rightarrow> alert_db \<Rightarrow>
     alert_fired list \<times> evaluator_state \<times> alert_db" where
  "tick_each opts query historyId now [] ev db = ([], ev, db)"
| "tick_each opts query historyId now (r # rs) ev db =
     (if ru_state r = Disabled then tick_each opts query historyId now rs ev db
      else (let (fired, ev', db') = tickRule opts query (historyId (ru_id r)) now (ru_id r) ev db;
                (rest, ev'', db'') = tick_each opts query historyId now rs ev' db'
            in (fired @ rest, ev'', db'')))"

definition tickAll ::
  "evaluator_options \<Rightarrow> (alert_rule \<Rightarrow> js_number option result) \<Rightarrow> (string \<Rightarrow> string) \<Rightarrow> int \<Rightarrow> evaluator_state \<Rightarrow> alert_db \<Rightarrow>
     alert_fired list \<times> evaluator_state \<times> alert_db" where
  "tickAll opts query historyId now ev db = tick_each opts query historyId now (fst (rule_findAll db no_filter)) ev db"

subsection \<open>The schedule\<close>

definition interval_ms :: "alert_rule \<Rightarrow> int" where
  "interval_ms rule = (if ru_evaluationIntervalSec rule = 0 then 60 else ru_evaluationIntervalSec rule) * 1000"

definition scheduleFingerprint :: "alert_rule \<Rightarrow> int \<Rightarrow> int \<times> alert_state" where
  "scheduleFingerprint rule intervalMs = (intervalMs, ru_state rule)"

definition clear_intervals :: "nat list \<Rightarrow> evaluator_state \<Rightarrow> evaluator_state" where
  "clear_intervals handles ev = ev\<lparr>ae_live := filter (\<lambda>t. fst t \<notin> set handles) (ae_live ev)\<rparr>"

definition schedule_rule :: "alert_rule \<Rightarrow> evaluator_state \<Rightarrow> evaluator_state" where
  "schedule_rule rule ev =
     (let intervalMs = interval_ms rule; fp = scheduleFingerprint rule intervalMs; existing = map_of (ae_timers ev) (ru_id rule) in
      if existing \<noteq> None \<and> map_of (ae_fingerprints ev) (ru_id rule) = Some fp then ev
      else (let ev1 = (case existing of None \<Rightarrow> ev | Some (handle, _) \<Rightarrow> clear_intervals [handle] ev)
            in ev1\<lparr>ae_timers := AList.update (ru_id rule) (ae_nextHandle ev, intervalMs) (ae_timers ev),
                   ae_fingerprints := AList.update (ru_id rule) fp (ae_fingerprints ev), ae_nextHandle := ae_nextHandle ev + 1,
                   ae_live := ae_live ev1 @ [(ae_nextHandle ev, ru_id rule, intervalMs)]\<rparr>))"

text \<open>The loop that drops the timers of rules that disappeared or were disabled.\<close>

definition drop_unseen :: "string list \<Rightarrow> evaluator_state \<Rightarrow> evaluator_state" where
  "drop_unseen seen ev =
     (clear_intervals (map (fst \<circ> snd) (filter (\<lambda>(k, v). k \<notin> set seen) (ae_timers ev))) ev)
       \<lparr>ae_timers := filter (\<lambda>(k, v). k \<in> set seen) (ae_timers ev),
        ae_fingerprints := filter (\<lambda>(k, v). k \<in> set seen \<or> map_of (ae_timers ev) k = None) (ae_fingerprints ev)\<rparr>"

definition refreshSchedule :: "alert_db \<Rightarrow> evaluator_state \<Rightarrow> evaluator_state" where
  "refreshSchedule db ev =
     (if \<not> ae_running ev then ev
      else (let active = filter (\<lambda>r. ru_state r \<noteq> Disabled) (fst (rule_findAll db no_filter))
            in drop_unseen (map ru_id active) (fold schedule_rule active ev)))"

definition notifyRuleChanged :: "evaluator_state \<Rightarrow> evaluator_state" where
  "notifyRuleChanged ev = (if \<not> ae_running ev \<or> \<not> ae_isLeader ev then ev else ev\<lparr>ae_debounce := True\<rparr>)"

text \<open>The debounce timer and the periodic timer, when they go off.\<close>

definition debounce_fires :: "alert_db \<Rightarrow> evaluator_state \<Rightarrow> evaluator_state" where
  "debounce_fires db ev = (if ae_debounce ev then refreshSchedule db (ev\<lparr>ae_debounce := False\<rparr>) else ev)"

definition refresh_fires :: "alert_db \<Rightarrow> evaluator_state \<Rightarrow> evaluator_state" where
  "refresh_fires db ev =
     (if \<not> ae_refreshTimer ev \<or> \<not> ae_running ev \<or> \<not> ae_isLeader ev then ev else refreshSchedule db ev)"

definition clear_schedulers :: "evaluator_state \<Rightarrow> evaluator_state" where
  "clear_schedulers ev = (clear_intervals (map (fst \<circ> snd) (ae_timers ev)) ev)\<lparr>ae_timers := [], ae_fingerprints := []\<rparr>"

section \<open>The leader lock\<close>

text \<open>The row of one key of the settings table; only the lock writes it.\<close>

record lock_value =
  lv_leaderId :: string
  lv_expiresAt :: int

definition tryAcquire :: "string \<Rightarrow> int \<Rightarrow> int \<Rightarrow> lock_value option \<Rightarrow> bool \<times> lock_value option" where
  "tryAcquire me ttlMs now row =
     (let v = \<lparr>lv_leaderId = me, lv_expiresAt = now + ttlMs\<rparr>;
          row' = (case row of None \<Rightarrow> Some v | Some cur \<Rightarrow> if lv_expiresAt cur < now then Some v else Some cur)
      in (case row' of Some cur \<Rightarrow> lv_leaderId cur = me | None \<Rightarrow> False, row'))"

definition heartbeat :: "string \<Rightarrow> int \<Rightarrow> int \<Rightarrow> lock_value option \<Rightarrow> bool \<times> lock_value option" where
  "heartbeat me ttlMs now row =
     (let row' = (case row of
            Some cur \<Rightarrow> if lv_leaderId cur = me then Some \<lparr>lv_leaderId = me, lv_expiresAt = now + ttlMs\<rparr> else Some cur
          | None \<Rightarrow> None)
      in (case row' of Some cur \<Rightarrow> lv_leaderId cur = me | None \<Rightarrow> False, row'))"

definition release :: "string \<Rightarrow> lock_value option \<Rightarrow> lock_value option" where
  "release me row = (case row of Some cur \<Rightarrow> if lv_leaderId cur = me then None else Some cur | None \<Rightarrow> None)"

definition tickLeader ::
  "evaluator_options \<Rightarrow> string \<Rightarrow> int \<Rightarrow> int \<Rightarrow> alert_db \<Rightarrow> evaluator_state \<Rightarrow> lock_value option \<Rightarrow> evaluator_state \<times> lock_value option" where
  "tickLeader opts me ttlMs now db ev row =
     (if \<not> eo_leaderLock opts then (ev, row)
      else if ae_isLeader ev
      then (let (stillMine, row') = heartbeat me ttlMs now row
            in (if stillMine then ev else clear_schedulers (ev\<lparr>ae_isLeader := False\<rparr>), row'))
      else (let (ok, row') = tryAcquire me ttlMs now row
            in (if ok then refreshSchedule db (ev\<lparr>ae_isLeader := True\<rparr>) else ev, row')))"

definition start ::
  "evaluator_options \<Rightarrow> string \<Rightarrow> int \<Rightarrow> int \<Rightarrow> alert_db \<Rightarrow> evaluator_state \<Rightarrow> lock_value option \<Rightarrow> evaluator_state \<times> lock_value option" where
  "start opts me ttlMs now db ev row =
     (if ae_running ev then (ev, row)
      else (let ev1 = ev\<lparr>ae_running := True\<rparr>;
                (ev2, row') = (if eo_leaderLock opts then tickLeader opts me ttlMs now db (ev1\<lparr>ae_leaderTimer := True\<rparr>) row
                               else (refreshSchedule db (ev1\<lparr>ae_isLeader := True\<rparr>), row))
            in (ev2\<lparr>ae_refreshTimer := True\<rparr>, row')))"

definition stop :: "evaluator_options \<Rightarrow> string \<Rightarrow> evaluator_state \<Rightarrow> lock_value option \<Rightarrow> evaluator_state \<times> lock_value option" where
  "stop opts me ev row =
     (let ev' = (clear_schedulers ev)\<lparr>ae_running := False, ae_leaderTimer := False, ae_refreshTimer := False, ae_debounce := False\<rparr>
      in (ev'\<lparr>ae_isLeader := False\<rparr>, if eo_leaderLock opts \<and> ae_isLeader ev then release me row else row))"

lemma clear_intervals_frame [simp]:
  "ae_running (clear_intervals hs ev) = ae_running ev" "ae_isLeader (clear_intervals hs ev) = ae_isLeader ev"
  "ae_timers (clear_intervals hs ev) = ae_timers ev" "ae_fingerprints (clear_intervals hs ev) = ae_fingerprints ev"
  "ae_inFlight (clear_intervals hs ev) = ae_inFlight ev" "ae_debounce (clear_intervals hs ev) = ae_debounce ev"
  "ae_nextHandle (clear_intervals hs ev) = ae_nextHandle ev"
  by (simp_all add: clear_intervals_def)

lemma clear_schedulers_timers [simp]: "ae_timers (clear_schedulers ev) = []"
  by (simp add: clear_schedulers_def)

lemma drop_unseen_frame [simp]:
  "ae_running (drop_unseen seen ev) = ae_running ev" "ae_isLeader (drop_unseen seen ev) = ae_isLeader ev"
  "ae_inFlight (drop_unseen seen ev) = ae_inFlight ev" "ae_debounce (drop_unseen seen ev) = ae_debounce ev"
  "ae_nextHandle (drop_unseen seen ev) = ae_nextHandle ev"
  "ae_timers (drop_unseen seen ev) = filter (\<lambda>(k, v). k \<in> set seen) (ae_timers ev)"
  "ae_fingerprints (drop_unseen seen ev) = filter (\<lambda>(k, v). k \<in> set seen \<or> map_of (ae_timers ev) k = None) (ae_fingerprints ev)"
  by (simp_all add: drop_unseen_def)

lemma schedule_rules_frame:
  "ae_inFlight (fold schedule_rule rs ev) = ae_inFlight ev" "ae_running (fold schedule_rule rs ev) = ae_running ev"
  "ae_isLeader (fold schedule_rule rs ev) = ae_isLeader ev" "ae_debounce (fold schedule_rule rs ev) = ae_debounce ev"
  by (induction rs arbitrary: ev) (simp_all add: schedule_rule_def Let_def split: option.split prod.split)

lemma refresh_frame [simp]:
  "ae_inFlight (refreshSchedule db ev) = ae_inFlight ev" "ae_running (refreshSchedule db ev) = ae_running ev"
  "ae_isLeader (refreshSchedule db ev) = ae_isLeader ev" "ae_debounce (refreshSchedule db ev) = ae_debounce ev"
  by (simp_all add: refreshSchedule_def schedule_rules_frame Let_def)

subsection \<open>Leases\<close>

text \<open>
  Replicas with the one row they share.  The lease of a replica is the expiry it was last granted;
  it ends with a failed heartbeat or a release.  The clock does not go back.
\<close>

record lock_system =
  ls_row :: "lock_value option"
  ls_now :: int
  ls_leases :: "string \<Rightarrow> int option"

inductive lock_event :: "int \<Rightarrow> lock_system \<Rightarrow> lock_system \<Rightarrow> bool" for ttl where
  acquired: "ls_now s \<le> now \<Longrightarrow> tryAcquire me ttl now (ls_row s) = (True, Some v) \<Longrightarrow>
     lock_event ttl s \<lparr>ls_row = Some v, ls_now = now, ls_leases = (ls_leases s)(me \<mapsto> lv_expiresAt v)\<rparr>"
| refused: "ls_now s \<le> now \<Longrightarrow> tryAcquire me ttl now (ls_row s) = (False, row') \<Longrightarrow>
     lock_event ttl s (s\<lparr>ls_row := row', ls_now := now\<rparr>)"
| beat: "ls_now s \<le> now \<Longrightarrow> heartbeat me ttl now (ls_row s) = (True, Some v) \<Longrightarrow>
     lock_event ttl s \<lparr>ls_row = Some v, ls_now = now, ls_leases = (ls_leases s)(me \<mapsto> lv_expiresAt v)\<rparr>"
| lost: "ls_now s \<le> now \<Longrightarrow> heartbeat me ttl now (ls_row s) = (False, row') \<Longrightarrow>
     lock_event ttl s \<lparr>ls_row = row', ls_now = now, ls_leases = (ls_leases s)(me := None)\<rparr>"
| released: "ls_now s \<le> now \<Longrightarrow>
     lock_event ttl s \<lparr>ls_row = release me (ls_row s), ls_now = now, ls_leases = (ls_leases s)(me := None)\<rparr>"
| waits: "ls_now s \<le> now \<Longrightarrow> lock_event ttl s (s\<lparr>ls_now := now\<rparr>)"

definition lease_inv :: "lock_system \<Rightarrow> bool" where
  "lease_inv s \<longleftrightarrow> (\<forall>i e. ls_leases s i = Some e \<and> ls_now s \<le> e \<longrightarrow>
     (\<exists>v. ls_row s = Some v \<and> lv_leaderId v = i \<and> e \<le> lv_expiresAt v))"

definition free_lock :: "lock_system \<Rightarrow> bool" where
  "free_lock s \<longleftrightarrow> ls_row s = None \<and> ls_leases s = Map.empty"

lemma lease_event: "lock_event ttl s s' \<Longrightarrow> lease_inv s \<Longrightarrow> lease_inv s'"
  by (induction rule: lock_event.induct)
     (fastforce simp: lease_inv_def tryAcquire_def heartbeat_def release_def Let_def split: option.splits if_splits)+

interpretation leases: invariant_system free_lock "lock_event ttl" lease_inv for ttl
  by unfold_locales (simp add: free_lock_def lease_inv_def, blast intro: lease_event)

text \<open>
  C9. At most one replica holds an unexpired lease, in every interleaving of acquisitions, heartbeats
  and releases of any number of replicas, and that replica owns the row; a free or expired lock is
  granted to whoever asks, and after a leadership tick a replica takes itself for the leader exactly
  when the row is its own.
\<close>

theorem lease_exclusive:
  assumes "free_lock s0" "(lock_event ttl)\<^sup>*\<^sup>* s0 s" "eo_leaderLock opts"
  shows "(ls_leases s i = Some e \<and> ls_now s \<le> e \<and> ls_leases s j = Some e' \<and> ls_now s \<le> e' \<longrightarrow>
       i = j \<and> map_option lv_leaderId (ls_row s) = Some i)
     \<and> ((\<forall>v. ls_row s = Some v \<longrightarrow> lv_expiresAt v < now) \<longrightarrow> fst (tryAcquire me ttl now (ls_row s)))
     \<and> ae_isLeader (fst (tickLeader opts me ttl now db ev (ls_row s)))
        = (map_option lv_leaderId (snd (tickLeader opts me ttl now db ev (ls_row s))) = Some me)"
proof (intro conjI impI)
  have inv: "lease_inv s" by (rule leases.reachable_inv [OF assms(1,2)])
  assume a: "ls_leases s i = Some e \<and> ls_now s \<le> e \<and> ls_leases s j = Some e' \<and> ls_now s \<le> e'"
  then have "map_option lv_leaderId (ls_row s) = Some i" "map_option lv_leaderId (ls_row s) = Some j"
    using inv by (auto simp: lease_inv_def)
  then show "i = j" "map_option lv_leaderId (ls_row s) = Some i" by simp_all
next
  assume "\<forall>v. ls_row s = Some v \<longrightarrow> lv_expiresAt v < now"
  then show "fst (tryAcquire me ttl now (ls_row s))" by (cases "ls_row s") (simp_all add: tryAcquire_def)
next
  show "ae_isLeader (fst (tickLeader opts me ttl now db ev (ls_row s)))
      = (map_option lv_leaderId (snd (tickLeader opts me ttl now db ev (ls_row s))) = Some me)"
    using assms(3)
    by (cases "ls_row s") (auto simp: tickLeader_def tryAcquire_def heartbeat_def clear_schedulers_def Let_def)
qed

section \<open>When a rule fires\<close>

text \<open>
  The evaluations of one rule in the order of time: the samples of the metrics query, where there
  may be none.  The state of the rule in the database moves as this machine does.
\<close>

definition holds :: "alert_condition \<Rightarrow> js_number \<Rightarrow> bool" where
  "holds c v = evaluatePredicate (cn_operator c) v (Fin (cn_threshold c))"

definition machine_step :: "alert_condition \<Rightarrow> int \<times> js_number option \<Rightarrow> alert_state \<times> int option \<Rightarrow> alert_state \<times> int option" where
  "machine_step c sample m =
     (case snd sample of
        None \<Rightarrow> m
      | Some v \<Rightarrow>
          (case decideTransition (fst m) (snd m) c (holds c v) (fst sample) of
             None \<Rightarrow> m
           | Some next \<Rightarrow> (next, if next = Pending then Some (fst sample) else None)))"

fun evaluations ::
  "evaluator_options \<Rightarrow> string \<Rightarrow> (int \<times> js_number option) list \<Rightarrow> evaluator_state \<Rightarrow> alert_db \<Rightarrow> alert_fired list \<times> evaluator_state \<times> alert_db" where
  "evaluations opts ruleId [] ev db = ([], ev, db)"
| "evaluations opts ruleId ((now, v) # samples) ev db =
     (let (fired, ev', db') = tickRule opts (\<lambda>_. Inr v) ruleId now ruleId ev db;
          (rest, ev'', db'') = evaluations opts ruleId samples ev' db'
      in (fired @ rest, ev'', db''))"

text \<open>What an event says of the rule that fired, when, and on which value.\<close>

definition published :: "alert_fired \<Rightarrow> string \<times> int \<times> js_number option" where
  "published f = (af_ruleId f, af_firedAt f, Some (af_value f))"

lemma decide_changes: "decideTransition st ps c b now = Some next \<Longrightarrow> next \<noteq> st \<and> next \<noteq> Disabled \<and> st \<noteq> Disabled"
  by (cases st) (auto simp: decideTransition_def split: if_splits option.splits)

lemma transition_row:
  assumes "distinct (map ru_id (adb_rules db))" "r \<in> set (adb_rules db)" "next \<noteq> ru_state r" "next \<noteq> Disabled"
  shows "\<exists>r' db'. rule_transition h now (ru_id r) next v db = (Some (rowToRule r'), db') \<and> r' \<in> set (adb_rules db')
     \<and> distinct (map ru_id (adb_rules db')) \<and> ru_id r' = ru_id r \<and> ru_condition r' = ru_condition r \<and> ru_state r' = next
     \<and> ru_pendingSince r' = (if next = Pending then Some now else None)"
proof -
  let ?entry = "\<lparr>ah_id = h, ah_ruleId = ru_id r, ah_ruleName = ru_name r, ah_fromState = ru_state r, ah_toState = next,
      ah_value = coalesce v (Fin 0), ah_threshold = cn_threshold (ru_condition r), ah_timestamp = now, ah_labels = coalesce (ru_labels r) []\<rparr>"
  let ?db = "db\<lparr>adb_history := adb_history db @ [?entry]\<rparr>" and ?p = "transition_patch now next (rowToRule r)"
  let ?r = "merge_patch now ?p (rowToRule r) r"
  have "rule_transition h now (ru_id r) next v db = rule_update now (ru_id r) ?p ?db"
    using assms find_rule_unique [OF assms(1,2)] by (simp add: rule_transition_def)
  then have "rule_transition h now (ru_id r) next v db
      = (Some (rowToRule ?r), ?db\<lparr>adb_rules := upd_where (\<lambda>x. ru_id x = ru_id r) (merge_patch now ?p (rowToRule r)) (adb_rules db)\<rparr>)"
    using rule_update_row [of ?db r now ?p] assms(1,2) by simp
  moreover have "ru_state ?r = next" "ru_condition ?r = ru_condition r" "ru_pendingSince ?r = (if next = Pending then Some now else None)"
    using assms(4) by (cases "next"; simp add: transition_patch_def no_patch_def Let_def)+
  ultimately show ?thesis
    using assms(1,2) by (intro exI [of _ ?r] exI) (auto simp: set_upd_where map_upd_where_key)
qed

lemma tick_follows_machine:
  assumes "distinct (map ru_id (adb_rules db))" "r \<in> set (adb_rules db)" "ru_id r \<notin> set (ae_inFlight ev)"
  shows "\<exists>r' fired ev' db'. tickRule opts (\<lambda>_. Inr v) h now (ru_id r) ev db = (fired, ev', db') \<and> r' \<in> set (adb_rules db')
     \<and> distinct (map ru_id (adb_rules db')) \<and> ru_id r' = ru_id r \<and> ru_condition r' = ru_condition r \<and> ru_id r \<notin> set (ae_inFlight ev')
     \<and> (ru_state r', ru_pendingSince r') =
         machine_step (ru_condition r) (now, v) (ru_state r, ru_pendingSince r)
     \<and> map published fired = (if eo_eventBus opts \<and> ru_state r' = Firing \<and> ru_state r \<noteq> Firing then [(ru_id r, now, v)] else [])"
proof (cases "ru_state r = Disabled")
  case True
  then have "tickRule opts (\<lambda>_. Inr v) h now (ru_id r) ev db = ([], ev, db)"
    using find_rule_unique [OF assms(1,2)] assms(3) by (simp add: tickRule_def tick_begin_def)
  then show ?thesis
    using assms True by (intro exI [of _ r] exI) (auto simp: machine_step_def decideTransition_def split: option.splits)
next
  case False
  let ?ev = "ev\<lparr>ae_inFlight := ae_inFlight ev @ [ru_id r]\<rparr>"
  have run: "tickRule opts (\<lambda>_. Inr v) h now (ru_id r) ev db = tick_finish opts h now (rowToRule r) (Inr v) ?ev db"
    using find_rule_unique [OF assms(1,2)] assms(3) False by (simp add: tickRule_def tick_begin_def)
  show ?thesis
  proof (cases "\<exists>x next. v = Some x \<and> decideTransition (ru_state r) (ru_pendingSince r) (ru_condition r) (holds (ru_condition r) x) now = Some next")
    case True
    then obtain x "next" where x: "v = Some x"
      "decideTransition (ru_state r) (ru_pendingSince r) (ru_condition r) (holds (ru_condition r) x) now = Some next" by blast
    have "next": "next \<noteq> ru_state r" "next \<noteq> Disabled" using decide_changes [OF x(2)] by auto
    obtain r' db' where row: "rule_transition h now (ru_id r) next v db = (Some (rowToRule r'), db')" "r' \<in> set (adb_rules db')"
        "distinct (map ru_id (adb_rules db'))" "ru_id r' = ru_id r" "ru_condition r' = ru_condition r" "ru_state r' = next"
        "ru_pendingSince r' = (if next = Pending then Some now else None)"
      using transition_row [OF assms(1,2) "next"] by blast
    have m: "machine_step (ru_condition r) (now, v) (ru_state r, ru_pendingSince r) = (next, if next = Pending then Some now else None)"
      by (simp add: machine_step_def x)
    show ?thesis
      unfolding run m using row "next" x
      by (intro exI [of _ r']) (auto simp: tick_finish_def published_def Let_def holds_def [symmetric])
  next
    case stay: False
    then have "machine_step (ru_condition r) (now, v) (ru_state r, ru_pendingSince r) = (ru_state r, ru_pendingSince r)"
      by (auto simp: machine_step_def split: option.splits)
    moreover have "tick_finish opts h now (rowToRule r) (Inr v) ?ev db = ([], ?ev\<lparr>ae_inFlight := filter (\<lambda>i. i \<noteq> ru_id r) (ae_inFlight ?ev)\<rparr>, db)"
      using stay by (auto simp: tick_finish_def Let_def holds_def split: option.splits)
    ultimately show ?thesis unfolding run using assms by (intro exI [of _ r]) simp
  qed
qed

lemma evaluations_follow_machine:
  assumes "distinct (map ru_id (adb_rules db))" "r \<in> set (adb_rules db)" "ru_id r \<notin> set (ae_inFlight ev)"
  shows "\<exists>r'. r' \<in> set (adb_rules (snd (snd (evaluations opts (ru_id r) samples ev db)))) \<and> ru_id r' = ru_id r
     \<and> distinct (map ru_id (adb_rules (snd (snd (evaluations opts (ru_id r) samples ev db)))))
     \<and> (ru_state r', ru_pendingSince r') = fold (machine_step (ru_condition r)) samples (ru_state r, ru_pendingSince r)"
  using assms
proof (induction samples arbitrary: r ev db)
  case (Cons s samples)
  obtain now v where s: "s = (now, v)" by fastforce
  obtain r' fired ev' db' where step: "tickRule opts (\<lambda>_. Inr v) (ru_id r) now (ru_id r) ev db = (fired, ev', db')"
      "r' \<in> set (adb_rules db')" "distinct (map ru_id (adb_rules db'))" "ru_id r' = ru_id r" "ru_condition r' = ru_condition r"
      "ru_id r \<notin> set (ae_inFlight ev')"
      "(ru_state r', ru_pendingSince r') = machine_step (ru_condition r) (now, v) (ru_state r, ru_pendingSince r)"
    using tick_follows_machine [OF Cons.prems, of opts v "ru_id r" now] by blast
  show ?case using Cons.IH [of db' r' ev'] step by (simp add: s split_beta)
qed auto

text \<open>
  The reference: since when the condition holds without a break, over the samples there are, and the
  time of the last sample.
\<close>

definition since_step :: "alert_condition \<Rightarrow> int \<times> js_number option \<Rightarrow> (int \<times> int) option \<Rightarrow> (int \<times> int) option" where
  "since_step c sample since =
     (case snd sample of
        None \<Rightarrow> since
      | Some v \<Rightarrow> if holds c v then Some (case since of None \<Rightarrow> fst sample | Some (t0, t) \<Rightarrow> t0, fst sample) else None)"

definition holds_since :: "alert_condition \<Rightarrow> (int \<times> js_number option) list \<Rightarrow> (int \<times> int) option" where
  "holds_since c samples = fold (since_step c) samples None"

definition agrees :: "alert_condition \<Rightarrow> alert_state \<times> int option \<Rightarrow> (int \<times> int) option \<Rightarrow> bool" where
  "agrees c m since \<longleftrightarrow>
     (case since of
        None \<Rightarrow> fst m = Normal \<or> fst m = Resolved
      | Some (t0, t) \<Rightarrow> t0 \<le> t \<and> (if of_int (t - t0) \<ge> cn_forDurationSec c * 1000 then fst m = Firing else m = (Pending, Some t0)))"

lemma agrees_step:
  assumes "agrees c m since" "0 \<le> cn_forDurationSec c" "case since of None \<Rightarrow> True | Some (t0, t) \<Rightarrow> t \<le> fst sample"
  shows "agrees c (machine_step c sample m) (since_step c sample since)"
proof (cases "snd sample")
  case (Some v)
  obtain st ps where m: "m = (st, ps)" by fastforce
  show ?thesis
  proof (cases since)
    case None
    then show ?thesis
      using assms Some m by (auto simp: agrees_def machine_step_def since_step_def decideTransition_def)
  next
    case (Some s)
    obtain t0 t where s: "s = (t0, t)" by fastforce
    have "rat_of_int (t - t0) \<le> rat_of_int (fst sample - t0)" using assms(3) by (simp add: Some s)
    then show ?thesis
      using assms \<open>snd sample = Some v\<close> m
      by (auto simp: Some s agrees_def machine_step_def since_step_def decideTransition_def split: if_splits)
  qed
qed (use assms in \<open>simp add: machine_step_def since_step_def\<close>)

lemma machine_agrees:
  assumes "agrees c m since" "0 \<le> cn_forDurationSec c" "sorted (map fst samples)"
    "case since of None \<Rightarrow> True | Some (t0, t) \<Rightarrow> \<forall>s\<in>set samples. t \<le> fst s"
  shows "agrees c (fold (machine_step c) samples m) (fold (since_step c) samples since)"
  using assms
proof (induction samples arbitrary: m since)
  case (Cons s samples)
  have "agrees c (machine_step c s m) (since_step c s since)"
    by (rule agrees_step [OF Cons.prems(1,2)]) (use Cons.prems(4) in \<open>auto split: option.splits\<close>)
  moreover have "case since_step c s since of None \<Rightarrow> True | Some (t0, t) \<Rightarrow> \<forall>x\<in>set samples. t \<le> fst x"
    using Cons.prems(3,4) by (auto simp: since_step_def split: option.splits)
  ultimately show ?case using Cons by simp
qed simp

text \<open>
  The firings there should be: one for every sample at which the condition has come to hold for the
  configured duration, and had not at the sample before.
\<close>

definition held_long :: "alert_condition \<Rightarrow> (int \<times> int) option \<Rightarrow> bool" where
  "held_long c since = (case since of None \<Rightarrow> False | Some (t0, t) \<Rightarrow> of_int (t - t0) \<ge> cn_forDurationSec c * 1000)"

fun due_firings :: "alert_condition \<Rightarrow> (int \<times> int) option \<Rightarrow> (int \<times> js_number option) list \<Rightarrow> (int \<times> js_number option) list" where
  "due_firings c since [] = []"
| "due_firings c since (s # samples) =
     (let since' = since_step c s since
      in (if held_long c since' \<and> \<not> held_long c since then [s] else []) @ due_firings c since' samples)"

lemma agrees_firing: "agrees c m since \<Longrightarrow> fst m = Firing \<longleftrightarrow> held_long c since"
  by (auto simp: agrees_def held_long_def split: option.splits if_splits)

lemma evaluations_publish:
  assumes "distinct (map ru_id (adb_rules db))" "r \<in> set (adb_rules db)" "ru_id r \<notin> set (ae_inFlight ev)"
    and "agrees (ru_condition r) (ru_state r, ru_pendingSince r) since" "0 \<le> cn_forDurationSec (ru_condition r)" "sorted (map fst samples)"
    and "case since of None \<Rightarrow> True | Some (t0, t) \<Rightarrow> \<forall>s\<in>set samples. t \<le> fst s"
  shows "map published (fst (evaluations opts (ru_id r) samples ev db))
     = (if eo_eventBus opts then map (Pair (ru_id r)) (due_firings (ru_condition r) since samples) else [])"
  using assms
proof (induction samples arbitrary: r ev db since)
  case (Cons s samples)
  obtain now v where s: "s = (now, v)" by fastforce
  obtain r' fired ev' db' where step: "tickRule opts (\<lambda>_. Inr v) (ru_id r) now (ru_id r) ev db = (fired, ev', db')"
      "r' \<in> set (adb_rules db')" "distinct (map ru_id (adb_rules db'))" "ru_id r' = ru_id r" "ru_condition r' = ru_condition r"
      "ru_id r \<notin> set (ae_inFlight ev')"
      "(ru_state r', ru_pendingSince r') = machine_step (ru_condition r) (now, v) (ru_state r, ru_pendingSince r)"
      "map published fired = (if eo_eventBus opts \<and> ru_state r' = Firing \<and> ru_state r \<noteq> Firing then [(ru_id r, now, v)] else [])"
    using tick_follows_machine [OF Cons.prems(1-3), of opts v "ru_id r" now] by blast
  let ?since = "since_step (ru_condition r) s since"
  have "agrees (ru_condition r) (machine_step (ru_condition r) s (ru_state r, ru_pendingSince r)) ?since"
    by (rule agrees_step [OF Cons.prems(4,5)]) (use Cons.prems(7) in \<open>auto split: option.splits\<close>)
  then have agree: "agrees (ru_condition r) (ru_state r', ru_pendingSince r') ?since" using step(7) by (simp add: s)
  have "case ?since of None \<Rightarrow> True | Some (t0, t) \<Rightarrow> \<forall>x\<in>set samples. t \<le> fst x"
    using Cons.prems(6,7) by (auto simp: since_step_def split: option.splits)
  then have "map published (fst (evaluations opts (ru_id r) samples ev' db'))
      = (if eo_eventBus opts then map (Pair (ru_id r)) (due_firings (ru_condition r) ?since samples) else [])"
    using Cons.IH [of db' r' ev' ?since] Cons.prems(5,6) agree step by simp
  then show ?case
    using step(1,8) agrees_firing [OF agree] agrees_firing [OF Cons.prems(4)] by (simp add: s split_beta Let_def)
qed simp

text \<open>
  C6. A rule fires exactly when it should: after any sequence of evaluations at times that do not go
  back, starting from a rule that is neither pending nor firing nor disabled, the rule is firing if and
  only if its condition held at every sample since some time and the last of these samples came at least
  the configured duration after the first; it is pending if the condition holds for a shorter time, and
  normal or resolved if it does not hold.  Evaluations without a sample change nothing.  On the event
  bus, the evaluations publish one event for each sample at which the condition has come to hold for
  the duration and had not before, in order, with the rule, the time and the value of the sample, and
  no other event; without a bus none.
\<close>

theorem alert_fires_exactly:
  assumes "distinct (map ru_id (adb_rules db))" "r \<in> set (adb_rules db)" "ru_id r \<notin> set (ae_inFlight ev)"
    and "ru_state r = Normal \<or> ru_state r = Resolved" "0 \<le> cn_forDurationSec (ru_condition r)" "sorted (map fst samples)"
  shows "\<exists>r'. rule_findById (snd (snd (evaluations opts (ru_id r) samples ev db))) (ru_id r) = Some r'
     \<and> (ru_state r' = Firing \<longleftrightarrow> (\<exists>t0 t. holds_since (ru_condition r) samples = Some (t0, t)
            \<and> of_int (t - t0) \<ge> cn_forDurationSec (ru_condition r) * 1000))
     \<and> (ru_state r' = Pending \<longleftrightarrow> (\<exists>t0 t. holds_since (ru_condition r) samples = Some (t0, t)
            \<and> of_int (t - t0) < cn_forDurationSec (ru_condition r) * 1000))
     \<and> (ru_state r' \<in> {Normal, Resolved} \<longleftrightarrow> holds_since (ru_condition r) samples = None)
     \<and> map published (fst (evaluations opts (ru_id r) samples ev db))
         = (if eo_eventBus opts then map (Pair (ru_id r)) (due_firings (ru_condition r) None samples) else [])"
proof -
  let ?db = "snd (snd (evaluations opts (ru_id r) samples ev db))" and ?c = "ru_condition r"
  obtain r' where r': "r' \<in> set (adb_rules ?db)" "ru_id r' = ru_id r" "distinct (map ru_id (adb_rules ?db))"
    "(ru_state r', ru_pendingSince r') = fold (machine_step ?c) samples (ru_state r, ru_pendingSince r)"
    using evaluations_follow_machine [OF assms(1-3), of opts samples] by blast
  have start: "agrees ?c (ru_state r, ru_pendingSince r) None" using assms(4) by (simp add: agrees_def)
  then have "agrees ?c (ru_state r', ru_pendingSince r') (holds_since ?c samples)"
    using machine_agrees [OF _ assms(5,6)] by (simp add: r'(4) holds_since_def)
  moreover have "rule_findById ?db (ru_id r) = Some (rowToRule r')"
    using find_rule_unique [OF r'(3,1)] r'(2) by simp
  moreover note evaluations_publish [OF assms(1-3) start assms(5,6), of opts]
  ultimately show ?thesis
    by (intro exI [of _ "rowToRule r'"]) (auto simp: agrees_def split: option.splits if_splits)
qed

section \<open>An evaluation and a concurrent edit\<close>

definition disable_patch :: rule_patch where
  "disable_patch = no_patch\<lparr>pa_state := Some Disabled\<rparr>"

text \<open>
  Disabling a rule while it is being evaluated is lost: if the rule is disabled between the read
  and the answer of the metrics query, and the evaluation had decided to let it fire, the rule ends up
  firing, its history says it came from disabled, and an event is published.
\<close>

theorem disable_lost_in_flight:
  assumes "distinct (map ru_id (adb_rules db))" "r \<in> set (adb_rules db)" "tick_begin (ru_id r) ev db = (Some fresh, ev1)"
    and "decideTransition (ru_state r) (ru_pendingSince r) (ru_condition r) (holds (ru_condition r) v) now = Some Firing"
    and "rule_update t (ru_id r) disable_patch db = (Some disabled, db1)" "eo_eventBus opts"
    and "tick_finish opts h now fresh (Inr (Some v)) ev1 db1 = (fired, ev2, db2)"
  shows "ru_state disabled = Disabled \<and> map_option ru_state (rule_findById db2 (ru_id r)) = Some Firing
     \<and> length fired = 1 \<and> ah_fromState (last (adb_history db2)) = Disabled"
proof -
  let ?r1 = "merge_patch t disable_patch (rowToRule r) r"
  have fresh: "fresh = rowToRule r"
    using assms(3) find_rule_unique [OF assms(1,2)] by (auto simp: tick_begin_def split: if_splits)
  have up: "disabled = rowToRule ?r1"
    "db1 = db\<lparr>adb_rules := upd_where (\<lambda>x. ru_id x = ru_id r) (merge_patch t disable_patch (rowToRule r)) (adb_rules db)\<rparr>"
    using assms(5) rule_update_row [OF assms(1,2), of t disable_patch] by auto
  have r1: "?r1 \<in> set (adb_rules db1)" "distinct (map ru_id (adb_rules db1))" "ru_state ?r1 = Disabled" "ru_id ?r1 = ru_id r"
    using assms(1,2) by (auto simp: up(2) set_upd_where map_upd_where_key disable_patch_def)
  obtain r2 db' where row: "rule_transition h now (ru_id r) Firing (Some v) db1 = (Some (rowToRule r2), db')" "r2 \<in> set (adb_rules db')"
      "distinct (map ru_id (adb_rules db'))" "ru_id r2 = ru_id r" "ru_state r2 = Firing"
    using transition_row [OF r1(2,1), of Firing h now "Some v"] r1(3,4) by auto
  have "ah_fromState (last (adb_history db')) = Disabled"
  proof -
    have "adb_history db' = adb_history (snd (rule_transition h now (ru_id r) Firing (Some v) db1))" using row(1) by simp
    also have "\<dots> = adb_history db1 @ [\<lparr>ah_id = h, ah_ruleId = ru_id r, ah_ruleName = ru_name ?r1, ah_fromState = Disabled,
        ah_toState = Firing, ah_value = v, ah_threshold = cn_threshold (ru_condition ?r1), ah_timestamp = now,
        ah_labels = coalesce (ru_labels ?r1) []\<rparr>]"
      using find_rule_unique [OF r1(2,1)] r1(3,4)
      by (simp add: rule_transition_def rule_update_def Let_def split: option.split)
    finally show ?thesis by simp
  qed
  moreover have "ru_state r \<noteq> Firing" using decide_changes [OF assms(4)] by auto
  ultimately show ?thesis
    using assms(4,6,7) row find_rule_unique [OF row(3,2)] up r1(3)
    by (auto simp: fresh tick_finish_def Let_def holds_def)
qed

section \<open>The schedule follows the rules\<close>

definition schedule_ok :: "evaluator_state \<Rightarrow> bool" where
  "schedule_ok ev \<longleftrightarrow> distinct (map fst (ae_timers ev))
     \<and> (\<forall>i h ms. map_of (ae_timers ev) i = Some (h, ms) \<longrightarrow> (\<exists>st. map_of (ae_fingerprints ev) i = Some (ms, st)))"

lemma schedule_ok_rule: "schedule_ok ev \<Longrightarrow> schedule_ok (schedule_rule r ev)"
  by (auto simp: schedule_ok_def schedule_rule_def scheduleFingerprint_def Let_def update_conv' distinct_update simp del: map_of_eq_Some_iff)

lemma schedule_rule_timer:
  assumes "schedule_ok ev"
  shows "\<exists>h. map_of (ae_timers (schedule_rule r ev)) (ru_id r) = Some (h, interval_ms r)"
    and "i \<noteq> ru_id r \<Longrightarrow> map_of (ae_timers (schedule_rule r ev)) i = map_of (ae_timers ev) i"
proof -
  show "\<exists>h. map_of (ae_timers (schedule_rule r ev)) (ru_id r) = Some (h, interval_ms r)"
  proof (cases "map_of (ae_timers ev) (ru_id r)")
    case None
    then show ?thesis by (simp add: schedule_rule_def Let_def update_conv')
  next
    case (Some t)
    then show ?thesis
      using assms by (cases t) (fastforce simp: schedule_rule_def schedule_ok_def scheduleFingerprint_def Let_def update_conv' simp del: map_of_eq_Some_iff)
  qed
qed (simp add: schedule_rule_def Let_def update_conv')

lemma schedule_rule_fp:
  "map_of (ae_fingerprints (schedule_rule r ev)) (ru_id r) = Some (interval_ms r, ru_state r)"
  "i \<noteq> ru_id r \<Longrightarrow> map_of (ae_fingerprints (schedule_rule r ev)) i = map_of (ae_fingerprints ev) i"
  by (simp_all add: schedule_rule_def scheduleFingerprint_def Let_def update_conv')

lemma schedule_rules_fp:
  "distinct (map ru_id rs) \<Longrightarrow>
     (\<forall>r\<in>set rs. map_of (ae_fingerprints (fold schedule_rule rs ev)) (ru_id r) = Some (interval_ms r, ru_state r))
     \<and> (\<forall>i. i \<notin> ru_id ` set rs \<longrightarrow> map_of (ae_fingerprints (fold schedule_rule rs ev)) i = map_of (ae_fingerprints ev) i)"
proof (induction rs arbitrary: ev)
  case (Cons r rs)
  then show ?case using Cons.IH [of "schedule_rule r ev"] by (auto simp: schedule_rule_fp)
qed simp

lemma schedule_nothing:
  "\<forall>r\<in>set rs. map_of (ae_timers ev) (ru_id r) \<noteq> None \<and> map_of (ae_fingerprints ev) (ru_id r) = Some (interval_ms r, ru_state r)
     \<Longrightarrow> fold schedule_rule rs ev = ev"
  by (induction rs) (simp_all add: schedule_rule_def scheduleFingerprint_def)

lemma schedule_rules:
  assumes "schedule_ok ev" "distinct (map ru_id rs)"
  shows "schedule_ok (fold schedule_rule rs ev)
     \<and> (\<forall>r\<in>set rs. \<exists>h. map_of (ae_timers (fold schedule_rule rs ev)) (ru_id r) = Some (h, interval_ms r))
     \<and> (\<forall>i. i \<notin> ru_id ` set rs \<longrightarrow> map_of (ae_timers (fold schedule_rule rs ev)) i = map_of (ae_timers ev) i)"
  using assms
proof (induction rs arbitrary: ev)
  case (Cons r rs)
  have ok: "schedule_ok (schedule_rule r ev)" by (rule schedule_ok_rule [OF Cons.prems(1)])
  obtain h where h: "map_of (ae_timers (schedule_rule r ev)) (ru_id r) = Some (h, interval_ms r)"
    using schedule_rule_timer(1) [OF Cons.prems(1)] by blast
  have "ru_id r \<notin> ru_id ` set rs" "distinct (map ru_id rs)" using Cons.prems(2) by auto
  then show ?case
    using Cons.IH [OF ok] h schedule_rule_timer(2) [OF Cons.prems(1)] by auto
qed simp

lemma map_of_keep: "map_of (filter (\<lambda>(k, v). P k) xs) k = (if P k then map_of xs k else None)"
  by (induction xs) auto

definition active_ids :: "alert_db \<Rightarrow> string set" where
  "active_ids db = ru_id ` {r \<in> set (adb_rules db). ru_state r \<noteq> Disabled}"

lemma findAll_all: "set (fst (rule_findAll db no_filter)) = rowToRule ` set (adb_rules db)"
  "distinct (map ru_id (adb_rules db)) \<Longrightarrow> distinct (map ru_id (fst (rule_findAll db no_filter)))"
proof -
  have eq: "fst (rule_findAll db no_filter) = map rowToRule (sort_key (\<lambda>r. - ru_updatedAt r) (adb_rules db))"
    by (simp add: rule_findAll_def no_filter_def present_def Let_def)
  show "set (fst (rule_findAll db no_filter)) = rowToRule ` set (adb_rules db)" by (simp add: eq)
  assume d: "distinct (map ru_id (adb_rules db))"
  then have "distinct (adb_rules db)" "inj_on ru_id (set (adb_rules db))" by (simp_all add: distinct_map)
  then show "distinct (map ru_id (fst (rule_findAll db no_filter)))"
    by (simp add: eq distinct_map comp_def)
qed

lemma refresh_exact:
  assumes "schedule_ok ev" "ae_running ev" "distinct (map ru_id (adb_rules db))"
  shows "schedule_ok (refreshSchedule db ev)
     \<and> (\<forall>r\<in>set (adb_rules db). ru_state r \<noteq> Disabled \<longrightarrow> (\<exists>h. map_of (ae_timers (refreshSchedule db ev)) (ru_id r) = Some (h, interval_ms r)))
     \<and> dom (map_of (ae_timers (refreshSchedule db ev))) = active_ids db"
proof -
  define active where "active = filter (\<lambda>r. ru_state r \<noteq> Disabled) (fst (rule_findAll db no_filter))"
  let ?ev = "fold schedule_rule active ev"
  have dist: "distinct (map ru_id active)" unfolding active_def using findAll_all(2) [OF assms(3)] by (rule distinct_map_filter)
  have "set active = rowToRule ` {r \<in> set (adb_rules db). ru_state r \<noteq> Disabled}" by (auto simp: active_def findAll_all)
  then have ids: "ru_id ` set active = active_ids db" by (simp add: active_ids_def image_image)
  note rules = schedule_rules [OF assms(1) dist]
  have ids': "set (map ru_id active) = active_ids db" using ids by simp
  have run: "refreshSchedule db ev = drop_unseen (map ru_id active) ?ev"
    using assms(2) by (simp add: refreshSchedule_def active_def [symmetric])
  have ms: "interval_ms (rowToRule r) = interval_ms r" for r by (simp add: interval_ms_def)
  have timer: "\<exists>h. map_of (ae_timers ?ev) (ru_id r) = Some (h, interval_ms r)" if "r \<in> set (adb_rules db)" "ru_state r \<noteq> Disabled" for r
  proof -
    have "rowToRule r \<in> set active" using that by (auto simp: active_def findAll_all)
    then show ?thesis using rules ms by fastforce
  qed
  have "schedule_ok (refreshSchedule db ev)"
    using rules unfolding run by (auto simp: schedule_ok_def ids' map_of_keep distinct_map_filter simp del: map_of_eq_Some_iff set_map)
  moreover have "map_of (ae_timers ?ev) i \<noteq> None" if i: "i \<in> active_ids db" for i
  proof -
    obtain r where "r \<in> set (adb_rules db)" "ru_state r \<noteq> Disabled" "i = ru_id r" using i by (auto simp: active_ids_def)
    then show ?thesis using timer by fastforce
  qed
  then have "dom (map_of (ae_timers (refreshSchedule db ev))) = active_ids db"
    unfolding run by (auto simp: ids' map_of_keep split: if_splits simp del: map_of_eq_Some_iff set_map)
  ultimately show ?thesis using timer unfolding run by (auto simp: ids' map_of_keep active_ids_def simp del: map_of_eq_Some_iff set_map)
qed

lemma drop_unseen_idem: "drop_unseen seen (drop_unseen seen ev) = drop_unseen seen ev"
proof -
  have "filter (\<lambda>(k, v). k \<notin> set seen) (ae_timers (drop_unseen seen ev)) = []" by (auto simp: filter_empty_conv)
  then have "clear_intervals (map (fst \<circ> snd) (filter (\<lambda>(k, v). k \<notin> set seen) (ae_timers (drop_unseen seen ev)))) (drop_unseen seen ev)
      = drop_unseen seen ev" by (simp add: clear_intervals_def)
  moreover have "filter (\<lambda>(k, v). k \<in> set seen \<or> map_of (ae_timers (drop_unseen seen ev)) k = None) (ae_fingerprints (drop_unseen seen ev))
      = ae_fingerprints (drop_unseen seen ev)"
    by (auto simp: filter_filter map_of_keep intro!: filter_cong split: if_splits simp del: map_of_eq_Some_iff)
  ultimately show ?thesis by (simp add: drop_unseen_def [of seen "drop_unseen seen ev"] filter_filter)
qed

lemma refresh_idem:
  assumes "schedule_ok ev" "distinct (map ru_id (adb_rules db))"
  shows "refreshSchedule db (refreshSchedule db ev) = refreshSchedule db ev"
proof (cases "ae_running ev")
  case True
  define active where "active = filter (\<lambda>r. ru_state r \<noteq> Disabled) (fst (rule_findAll db no_filter))"
  let ?ev = "fold schedule_rule active ev"
  have dist: "distinct (map ru_id active)" unfolding active_def using findAll_all(2) [OF assms(2)] by (rule distinct_map_filter)
  have run: "refreshSchedule db x = drop_unseen (map ru_id active) (fold schedule_rule active x)" if "ae_running x" for x
    using that by (simp add: refreshSchedule_def active_def [symmetric])
  let ?new = "refreshSchedule db ev"
  have timer: "map_of (ae_timers ?ev) (ru_id r) \<noteq> None" if "r \<in> set active" for r
    using schedule_rules [OF assms(1) dist] that by fastforce
  have "fold schedule_rule active ?new = ?new"
    using schedule_rules_fp [OF dist, of ev] timer
    by (intro schedule_nothing) (auto simp: run [OF True] map_of_keep simp del: map_of_eq_Some_iff)
  moreover have "drop_unseen (map ru_id active) ?new = ?new"
    unfolding run [OF True] by (rule drop_unseen_idem)
  ultimately show ?thesis using run [of ?new] True by simp
qed (simp add: refreshSchedule_def)

text \<open>The life of a service: every call and timer, with a database whose identifiers are unique.\<close>

inductive evaluator_event :: "evaluator_options \<Rightarrow> evaluator_state \<Rightarrow> evaluator_state \<Rightarrow> bool" for opts where
  starts: "distinct (map ru_id (adb_rules db)) \<Longrightarrow> evaluator_event opts ev (fst (start opts me ttl now db ev row))"
| stops: "evaluator_event opts ev (fst (stop opts me ev row))"
| leader_tick: "distinct (map ru_id (adb_rules db)) \<Longrightarrow> ae_running ev \<Longrightarrow> evaluator_event opts ev (fst (tickLeader opts me ttl now db ev row))"
| changed: "evaluator_event opts ev (notifyRuleChanged ev)"
| debounced: "distinct (map ru_id (adb_rules db)) \<Longrightarrow> evaluator_event opts ev (debounce_fires db ev)"
| refreshed: "distinct (map ru_id (adb_rules db)) \<Longrightarrow> evaluator_event opts ev (refresh_fires db ev)"
| begins: "evaluator_event opts ev (snd (tick_begin i ev db))"
| finishes: "evaluator_event opts ev (fst (snd (tick_finish opts h now fresh answer ev db)))"

text \<open>The live intervals are those of the map of timers, each once.\<close>

definition live_ok :: "evaluator_state \<Rightarrow> bool" where
  "live_ok ev \<longleftrightarrow> (\<forall>h i ms. (h, i, ms) \<in> set (ae_live ev) \<longleftrightarrow> map_of (ae_timers ev) i = Some (h, ms))
     \<and> distinct (map fst (ae_live ev)) \<and> (\<forall>t\<in>set (ae_live ev). fst t < ae_nextHandle ev)"

lemma live_one:
  assumes "live_ok ev" "map_of (ae_timers ev) i = Some (h, ms)" "map_of (ae_timers ev) j = Some (h, ms')"
  shows "i = j"
proof -
  have "(h, i, ms) \<in> set (ae_live ev)" "(h, j, ms') \<in> set (ae_live ev)" using assms unfolding live_ok_def by blast+
  moreover have "inj_on fst (set (ae_live ev))" using assms(1) by (simp add: live_ok_def distinct_map)
  ultimately show ?thesis using inj_onD [of fst _ "(h, i, ms)" "(h, j, ms')"] by simp
qed

lemma live_clear:
  assumes "live_ok ev"
  shows "(h, i, ms) \<in> set (ae_live (clear_intervals hs ev)) \<longleftrightarrow> map_of (ae_timers ev) i = Some (h, ms) \<and> h \<notin> set hs"
    and "distinct (map fst (ae_live (clear_intervals hs ev)))" and "\<forall>t\<in>set (ae_live (clear_intervals hs ev)). fst t < ae_nextHandle ev"
  using assms by (auto simp: live_ok_def clear_intervals_def distinct_map_filter simp del: map_of_eq_Some_iff)

lemma live_schedule_rule:
  assumes "live_ok ev"
  shows "live_ok (schedule_rule r ev)"
proof (cases "map_of (ae_timers ev) (ru_id r)")
  case None
  then show ?thesis
    using assms by (auto simp: live_ok_def schedule_rule_def Let_def update_conv' less_Suc_eq simp del: map_of_eq_Some_iff)
next
  case (Some t)
  obtain h ms where t: "t = (h, ms)" by fastforce
  have "i = ru_id r" if "map_of (ae_timers ev) i = Some (h, ms')" for i ms'
    using live_one [OF assms that] Some t by blast
  then show ?thesis
    using assms live_clear [OF assms, where hs = "[h]"] Some t
    by (fastforce simp: live_ok_def schedule_rule_def Let_def update_conv' less_Suc_eq simp del: map_of_eq_Some_iff)
qed

lemma live_schedule_rules: "live_ok ev \<Longrightarrow> live_ok (fold schedule_rule rs ev)"
  by (induction rs arbitrary: ev) (simp_all add: live_schedule_rule)

lemma live_drop:
  assumes "live_ok ev" "distinct (map fst (ae_timers ev))"
  shows "live_ok (drop_unseen seen ev)"
proof -
  let ?gone = "map (fst \<circ> snd) (filter (\<lambda>(k, v). k \<notin> set seen) (ae_timers ev))"
  have "h \<in> set ?gone \<longleftrightarrow> i \<notin> set seen" if "map_of (ae_timers ev) i = Some (h, ms)" for i h ms
  proof
    assume "h \<in> set ?gone"
    then obtain j ms' where "j \<notin> set seen" "map_of (ae_timers ev) j = Some (h, ms')" using assms(2) by auto
    then show "i \<notin> set seen" using live_one [OF assms(1) that] by blast
  next
    assume "i \<notin> set seen"
    then show "h \<in> set ?gone" using map_of_SomeD [OF that] by force
  qed
  then show ?thesis
    using live_clear [OF assms(1), where hs = ?gone]
    by (auto simp: live_ok_def drop_unseen_def map_of_keep simp del: map_of_eq_Some_iff)
qed

lemma live_refresh: "live_ok ev \<Longrightarrow> schedule_ok ev \<Longrightarrow> live_ok (refreshSchedule db ev)"
proof -
  assume live: "live_ok ev" and ok: "schedule_ok ev"
  have "schedule_ok (fold schedule_rule rs ev)" for rs using ok by (induction rs arbitrary: ev) (simp_all add: schedule_ok_rule)
  then show ?thesis
    using live_drop [OF live_schedule_rules [OF live]] live by (simp add: refreshSchedule_def schedule_ok_def Let_def)
qed

lemma live_clear_schedulers: "live_ok ev \<Longrightarrow> ae_live (clear_schedulers ev) = []"
proof -
  assume live: "live_ok ev"
  have "t \<notin> set (ae_live (clear_schedulers ev))" for t
  proof
    assume t: "t \<in> set (ae_live (clear_schedulers ev))"
    obtain h i ms where [simp]: "t = (h, i, ms)" by (cases t)
    have "map_of (ae_timers ev) i = Some (h, ms)" "h \<notin> set (map (fst \<circ> snd) (ae_timers ev))"
      using t live_clear(1) [OF live, of h i ms "map (fst \<circ> snd) (ae_timers ev)"] by (simp_all add: clear_schedulers_def)
    then show False using map_of_SomeD by force
  qed
  then show ?thesis by (metis list.set_intros(1) neq_Nil_conv)
qed

lemma live_rules:
  assumes "live_ok ev" "dom (map_of (ae_timers ev)) = active_ids db"
    "\<forall>r\<in>set (adb_rules db). ru_state r \<noteq> Disabled \<longrightarrow> (\<exists>h. map_of (ae_timers ev) (ru_id r) = Some (h, interval_ms r))"
  shows "distinct (map (fst \<circ> snd) (ae_live ev))
     \<and> snd ` set (ae_live ev) = (\<lambda>r. (ru_id r, interval_ms r)) ` {r \<in> set (adb_rules db). ru_state r \<noteq> Disabled}" (is "_ \<and> _ = ?rules")
proof
  have mem: "(h, i, ms) \<in> set (ae_live ev) \<longleftrightarrow> map_of (ae_timers ev) i = Some (h, ms)" for h i ms
    using assms(1) unfolding live_ok_def by blast
  then have "inj_on (fst \<circ> snd) (set (ae_live ev))" by (auto intro!: inj_onI simp del: map_of_eq_Some_iff)
  moreover have "distinct (ae_live ev)" using assms(1) by (auto simp: live_ok_def distinct_map)
  ultimately show "distinct (map (fst \<circ> snd) (ae_live ev))" by (simp add: distinct_map)
  show "snd ` set (ae_live ev) = ?rules"
  proof (intro set_eqI iffI)
    fix x assume "x \<in> snd ` set (ae_live ev)"
    then obtain h where h: "map_of (ae_timers ev) (fst x) = Some (h, snd x)" using mem by (cases x) auto
    then have "fst x \<in> active_ids db" using assms(2) by blast
    then obtain r where "r \<in> set (adb_rules db)" "ru_state r \<noteq> Disabled" "fst x = ru_id r" by (auto simp: active_ids_def)
    then show "x \<in> ?rules" using assms(3) h by (cases x) fastforce
  next
    fix x assume "x \<in> ?rules"
    then obtain h where "map_of (ae_timers ev) (fst x) = Some (h, snd x)" using assms(3) by auto
    then show "x \<in> snd ` set (ae_live ev)" using mem by (metis image_iff prod.collapse snd_conv)
  qed
qed

definition evaluator_inv :: "evaluator_state \<Rightarrow> bool" where
  "evaluator_inv ev \<longleftrightarrow> schedule_ok ev \<and> live_ok ev \<and> distinct (ae_inFlight ev) \<and> (\<not> ae_running ev \<longrightarrow> ae_timers ev = [] \<and> \<not> ae_debounce ev \<and> \<not> ae_isLeader ev)"

lemma refresh_inv:
  assumes "evaluator_inv ev" "distinct (map ru_id (adb_rules db))"
  shows "evaluator_inv (refreshSchedule db ev)"
proof (cases "ae_running ev")
  case True
  then show ?thesis using refresh_exact [OF _ True assms(2)] live_refresh assms(1) by (simp add: evaluator_inv_def)
next
  case False
  then show ?thesis using assms(1) by (simp add: refreshSchedule_def)
qed

lemma evaluator_inv_flags:
  "evaluator_inv ev \<Longrightarrow> evaluator_inv (ev\<lparr>ae_running := True\<rparr>)"
  "evaluator_inv ev \<Longrightarrow> ae_running ev \<Longrightarrow> evaluator_inv (ev\<lparr>ae_isLeader := b\<rparr>)"
  "evaluator_inv ev \<Longrightarrow> evaluator_inv (ev\<lparr>ae_leaderTimer := b\<rparr>)" "evaluator_inv ev \<Longrightarrow> evaluator_inv (ev\<lparr>ae_refreshTimer := b\<rparr>)"
  "evaluator_inv ev \<Longrightarrow> evaluator_inv (ev\<lparr>ae_debounce := False\<rparr>)" "evaluator_inv ev \<Longrightarrow> evaluator_inv (clear_schedulers ev)"
  using live_clear_schedulers [of ev] by (simp_all add: evaluator_inv_def schedule_ok_def live_ok_def clear_schedulers_def)

lemma leader_tick_inv:
  assumes "evaluator_inv ev" "distinct (map ru_id (adb_rules db))" "ae_running ev"
  shows "evaluator_inv (fst (tickLeader opts me ttl now db ev row))"
  using assms by (simp add: tickLeader_def split_beta Let_def evaluator_inv_flags refresh_inv)

lemma evaluator_event_inv: "evaluator_event opts ev ev' \<Longrightarrow> evaluator_inv ev \<Longrightarrow> evaluator_inv ev'"
proof (induction rule: evaluator_event.induct)
  case (starts db ev me ttl now row)
  let ?ev = "ev\<lparr>ae_running := True\<rparr>"
  have "evaluator_inv ?ev" using starts by (simp add: evaluator_inv_flags)
  then show ?case
    using starts leader_tick_inv [of "?ev\<lparr>ae_leaderTimer := True\<rparr>" db opts me ttl now row] refresh_inv [of "?ev\<lparr>ae_isLeader := True\<rparr>" db]
    by (auto simp: start_def split_beta Let_def evaluator_inv_flags)
next
  case (leader_tick db ev me ttl now row)
  then show ?case using leader_tick_inv by blast
next
  case (debounced db ev)
  then show ?case by (simp add: debounce_fires_def refresh_inv evaluator_inv_flags)
next
  case (refreshed db ev)
  then show ?case by (simp add: refresh_fires_def refresh_inv)
next
  case (finishes ev h now fresh answer db)
  have "fst (snd (tick_finish opts h now fresh answer ev db)) = ev\<lparr>ae_inFlight := filter (\<lambda>i. i \<noteq> ru_id fresh) (ae_inFlight ev)\<rparr>"
    by (auto simp: tick_finish_def Let_def split_beta split: option.splits sum.splits)
  then show ?case using finishes by (simp add: evaluator_inv_def schedule_ok_def live_ok_def)
next
  case (stops ev me row)
  then show ?case using evaluator_inv_flags(6) [of ev] by (simp add: stop_def evaluator_inv_def schedule_ok_def live_ok_def Let_def)
qed (auto simp:  notifyRuleChanged_def tick_begin_def Let_def evaluator_inv_def schedule_ok_def live_ok_def split: option.splits)

interpretation evaluators: invariant_system "\<lambda>ev. ev = new_evaluator" "evaluator_event opts" evaluator_inv for opts
  by unfold_locales (simp add: new_evaluator_def evaluator_inv_def schedule_ok_def live_ok_def, blast intro: evaluator_event_inv)

text \<open>
  C28. The schedule follows the rules: whatever calls and timers a service has been through, a refresh
  of a running service leaves exactly one timer for every enabled rule and none for any other, each
  with the period of its rule, and keeps the timer of a rule whose period and state have not changed;
  no rule is evaluated twice at the same time, and a stopped service has no timer.  The intervals that
  are live in the runtime are those timers and no other, each once: none that was replaced or dropped
  goes on, so after a refresh the live intervals evaluate exactly the enabled rules.
\<close>

theorem schedule_exact:
  assumes "(evaluator_event opts)\<^sup>*\<^sup>* new_evaluator ev" "distinct (map ru_id (adb_rules db))"
  shows "(ae_running ev \<longrightarrow> dom (map_of (ae_timers (refreshSchedule db ev))) = active_ids db
         \<and> (\<forall>r\<in>set (adb_rules db). ru_state r \<noteq> Disabled \<longrightarrow>
              (\<exists>h. map_of (ae_timers (refreshSchedule db ev)) (ru_id r) = Some (h, interval_ms r))))
     \<and> distinct (map fst (ae_timers ev)) \<and> distinct (ae_inFlight ev) \<and> (\<not> ae_running ev \<longrightarrow> ae_timers ev = [])
     \<and> refreshSchedule db (refreshSchedule db ev) = refreshSchedule db ev
     \<and> distinct (map fst (ae_live ev)) \<and> (\<forall>h i ms. (h, i, ms) \<in> set (ae_live ev) \<longleftrightarrow> map_of (ae_timers ev) i = Some (h, ms))
     \<and> (ae_running ev \<longrightarrow> distinct (map (fst \<circ> snd) (ae_live (refreshSchedule db ev)))
         \<and> snd ` set (ae_live (refreshSchedule db ev)) = (\<lambda>r. (ru_id r, interval_ms r)) ` {r \<in> set (adb_rules db). ru_state r \<noteq> Disabled})"
proof -
  have inv: "evaluator_inv ev" by (rule evaluators.reachable_inv [OF refl assms(1)])
  then have ok: "schedule_ok ev" and rest: "distinct (map fst (ae_timers ev))" "distinct (ae_inFlight ev)" "\<not> ae_running ev \<longrightarrow> ae_timers ev = []"
    by (simp_all add: evaluator_inv_def schedule_ok_def)
  have "evaluator_inv (refreshSchedule db ev)" using refresh_inv [OF inv assms(2)] .
  then have "live_ok ev" "live_ok (refreshSchedule db ev)" using inv by (simp_all add: evaluator_inv_def)
  then have live: "distinct (map fst (ae_live ev))" "\<forall>h i ms. (h, i, ms) \<in> set (ae_live ev) \<longleftrightarrow> map_of (ae_timers ev) i = Some (h, ms)"
      "live_ok (refreshSchedule db ev)"
    unfolding live_ok_def [of ev] by blast+
  show ?thesis
  proof (cases "ae_running ev")
    case True
    note timers = conjunct2 [OF refresh_exact [OF ok True assms(2)]]
    show ?thesis
      using timers live_rules [OF live(3) conjunct2 [OF timers] conjunct1 [OF timers]] refresh_idem [OF ok assms(2)] rest live(1,2)
      by (intro conjI) simp_all
  next
    case False
    then show ?thesis using refresh_idem [OF ok assms(2)] rest live(1,2) by (intro conjI) simp_all
  qed
qed

text \<open>
  A replica that lost the lock can go on evaluating: if a rule changes while a replica leads and
  the replica loses the lock before the debounced refresh runs, the refresh schedules every enabled rule
  again although the replica is no longer the leader, and neither the periodic refresh nor a failed
  attempt to lead removes the timers.
\<close>

theorem lost_leader_schedules:
  assumes "schedule_ok ev" "ae_running ev" "ae_isLeader ev" "eo_leaderLock opts" "distinct (map ru_id (adb_rules db))"
    and "row = Some \<lparr>lv_leaderId = other, lv_expiresAt = e\<rparr>" "other \<noteq> me" "later \<le> e"
    and "tickLeader opts me ttl now db (notifyRuleChanged ev) row = (ev1, row')" "ev2 = debounce_fires db ev1"
  shows "\<not> ae_isLeader ev1 \<and> ae_timers ev1 = [] \<and> \<not> ae_isLeader ev2
     \<and> dom (map_of (ae_timers ev2)) = active_ids db
     \<and> refresh_fires db ev2 = ev2 \<and> tickLeader opts me ttl later db ev2 row = (ev2, row)"
proof -
  have ev1: "ev1 = clear_schedulers (ev\<lparr>ae_debounce := True, ae_isLeader := False\<rparr>)"
    using assms(2-4,6,7,9) by (simp add: notifyRuleChanged_def tickLeader_def heartbeat_def Let_def)
  then have ev2: "ev2 = refreshSchedule db (ev1\<lparr>ae_debounce := False\<rparr>)"
    by (simp add: assms(10) debounce_fires_def clear_schedulers_def)
  have "schedule_ok (ev1\<lparr>ae_debounce := False\<rparr>)" "ae_running (ev1\<lparr>ae_debounce := False\<rparr>)"
    using assms(2) by (simp_all add: ev1 clear_schedulers_def schedule_ok_def)
  then have "dom (map_of (ae_timers ev2)) = active_ids db"
    using refresh_exact [OF _ _ assms(5)] by (simp add: ev2)
  moreover have "\<not> ae_isLeader ev2" by (simp add: ev2 ev1 clear_schedulers_def)
  ultimately show ?thesis
    using assms(4,6-8) by (auto simp: ev1 clear_schedulers_def refresh_fires_def tickLeader_def tryAcquire_def Let_def)
qed

section \<open>Fingerprints identify alerts\<close>

text \<open>
  The fingerprint of an alert does not depend on the order of its labels; but two different label
  sets of the same rule can have the same fingerprint, since the separators are not escaped.
\<close>

theorem fingerprint_order:
  assumes "distinct (map fst ls)" "mset ls = mset ls'"
  shows "computeAlertFingerprint sha ruleId ls = computeAlertFingerprint sha ruleId ls'
     \<and> computeAlertFingerprint sha ruleId [(''a'', ''1,b=2'')] = computeAlertFingerprint sha ruleId [(''a'', ''1''), (''b'', ''2'')]"
proof
  have m: "mset (map fst ls) = mset (map fst ls')" using assms(2) by (metis mset_map)
  have keys: "sort (map fst ls) = sort (map fst ls')" "distinct (map fst ls')"
    using assms(1) m mset_eq_imp_distinct_iff [OF m] by (auto intro!: properties_for_sort simp: m simp del: mset_map)
  have "set ls = set ls'" using assms(2) by (metis set_mset_mset)
  then have "map_of ls = map_of ls'" using map_of_inject_set assms(1) keys(2) by blast
  then show "computeAlertFingerprint sha ruleId ls = computeAlertFingerprint sha ruleId ls'"
    using keys(1) by (simp add: computeAlertFingerprint_def fingerprint_text_def)
  have "sort [''a'', ''b''] = [''a'', ''b'']" by code_simp
  then show "computeAlertFingerprint sha ruleId [(''a'', ''1,b=2'')] = computeAlertFingerprint sha ruleId [(''a'', ''1''), (''b'', ''2'')]"
    by (simp add: computeAlertFingerprint_def fingerprint_text_def)
qed

section \<open>Witnesses\<close>

definition demo_options :: evaluator_options where
  "demo_options = \<lparr>eo_eventBus = True, eo_orgId = None, eo_sha = (\<lambda>x. x), eo_leaderLock = True\<rparr>"

definition cpu_db :: alert_db where
  "cpu_db = empty_alerts\<lparr>adb_rules := [cpu_row]\<rparr>"

definition now_db :: alert_db where
  "now_db = empty_alerts\<lparr>adb_rules := [cpu_row\<lparr>ru_condition := cpu_condition\<lparr>cn_forDurationSec := 0\<rparr>\<rparr>]\<rparr>"

theorem lease_exclusive_witness:
  "map_option lv_leaderId (ls_row \<lparr>ls_row = Some \<lparr>lv_leaderId = ''a'', lv_expiresAt = 130\<rparr>, ls_now = 100, ls_leases = [''a'' \<mapsto> 130]\<rparr>) = Some ''a''"
proof -
  let ?init = "\<lparr>ls_row = None, ls_now = 0, ls_leases = Map.empty\<rparr>"
  let ?s = "\<lparr>ls_row = Some \<lparr>lv_leaderId = ''a'', lv_expiresAt = 130\<rparr>, ls_now = 100, ls_leases = [''a'' \<mapsto> 130]\<rparr>"
  have "tryAcquire ''a'' 30 100 (ls_row ?init) = (True, Some \<lparr>lv_leaderId = ''a'', lv_expiresAt = 130\<rparr>)" by (simp add: tryAcquire_def)
  from lock_event.acquired [OF _ this] have "lock_event 30 ?init ?s" by simp
  then have run: "(lock_event 30)\<^sup>*\<^sup>* ?init ?s" by (rule r_into_rtranclp)
  have fr: "free_lock ?init" by (simp add: free_lock_def)
  have op: "eo_leaderLock demo_options" by (simp add: demo_options_def)
  from lease_exclusive [OF fr run op, of "''a''" 130 "''a''" 130] show ?thesis by simp
qed

theorem alert_fires_exactly_witness:
  "\<exists>r'. rule_findById (snd (snd (evaluations demo_options ''alert_1'' [(100, Some (Fin 1)), (200, None), (61000, Some (Fin 2))] new_evaluator cpu_db))) ''alert_1'' = Some r'
     \<and> ru_state r' = Firing
     \<and> map published (fst (evaluations demo_options ''alert_1'' [(100, Some (Fin 1)), (200, None), (61000, Some (Fin 2))] new_evaluator cpu_db))
        = [(''alert_1'', 61000, Some (Fin 2))]"
proof -
  have since: "holds_since (ru_condition cpu_row) [(100, Some (Fin 1)), (200, None), (61000, Some (Fin 2))] = Some (100, 61000)"
    by (simp add: holds_since_def since_step_def holds_def evaluatePredicate_def cpu_row_def new_rule_row_def cpu_input_def cpu_condition_def)
  have "due_firings (ru_condition cpu_row) None [(100, Some (Fin 1)), (200, None), (61000, Some (Fin 2))] = [(61000, Some (Fin 2))]"
    by (simp add: held_long_def since_step_def holds_def evaluatePredicate_def cpu_row_def new_rule_row_def cpu_input_def cpu_condition_def)
  moreover have "ru_id cpu_row = ''alert_1''" "cn_forDurationSec (ru_condition cpu_row) = 60" "eo_eventBus demo_options"
    by (simp_all add: cpu_row_def new_rule_row_def cpu_input_def cpu_condition_def demo_options_def)
  ultimately show ?thesis
    using alert_fires_exactly [of cpu_db cpu_row new_evaluator "[(100, Some (Fin 1)), (200, None), (61000, Some (Fin 2))]" demo_options] since
    by (auto simp: cpu_db_def empty_alerts_def new_evaluator_def cpu_row_def new_rule_row_def)
qed

theorem disable_lost_in_flight_witness:
  "map_option ru_state (rule_findById (snd (snd (tick_finish demo_options ''h'' 50 (the (fst (tick_begin ''alert_1'' new_evaluator now_db)))
      (Inr (Some (Fin 1))) (snd (tick_begin ''alert_1'' new_evaluator now_db)) (snd (rule_update 40 ''alert_1'' disable_patch now_db))))) ''alert_1'') = Some Firing"
proof -
  let ?r = "cpu_row\<lparr>ru_condition := cpu_condition\<lparr>cn_forDurationSec := 0\<rparr>\<rparr>"
  have r: "distinct (map ru_id (adb_rules now_db))" "?r \<in> set (adb_rules now_db)" "ru_id ?r = ''alert_1''" "ru_state ?r = Normal"
    by (simp_all add: now_db_def empty_alerts_def cpu_row_def new_rule_row_def)
  have find: "rule_findById now_db ''alert_1'' = Some (rowToRule ?r)" using find_rule_unique [OF r(1,2)] r(3) by simp
  then have begun: "tick_begin (ru_id ?r) new_evaluator now_db = (Some (rowToRule ?r), new_evaluator\<lparr>ae_inFlight := [''alert_1'']\<rparr>)"
    using r(3,4) by (simp add: tick_begin_def new_evaluator_def)
  have decide: "decideTransition (ru_state ?r) (ru_pendingSince ?r) (ru_condition ?r) (holds (ru_condition ?r) (Fin 1)) 50 = Some Firing"
    by (simp add: decideTransition_def holds_def evaluatePredicate_def cpu_condition_def cpu_row_def new_rule_row_def)
  obtain disabled db1 where dis: "rule_update 40 (ru_id ?r) disable_patch now_db = (Some disabled, db1)"
    using rule_update_row [OF r(1,2)] by simp
  obtain fired ev2 db2 where fin: "tick_finish demo_options ''h'' 50 (rowToRule ?r) (Inr (Some (Fin 1))) (new_evaluator\<lparr>ae_inFlight := [''alert_1'']\<rparr>) db1
      = (fired, ev2, db2)" by (metis prod_cases3)
  have "map_option ru_state (rule_findById db2 (ru_id ?r)) = Some Firing"
    using disable_lost_in_flight [OF r(1,2) begun decide dis _ fin] by (simp add: demo_options_def)
  then show ?thesis using begun dis fin r(3) by simp
qed

theorem schedule_exact_witness:
  "dom (map_of (ae_timers (refreshSchedule cpu_db (fst (start demo_options ''a'' 30 0 cpu_db new_evaluator None))))) = active_ids cpu_db"
proof -
  have "distinct (map ru_id (adb_rules cpu_db))" by (simp add: cpu_db_def empty_alerts_def)
  moreover from evaluator_event.starts [OF this]
  have "(evaluator_event demo_options)\<^sup>*\<^sup>* new_evaluator (fst (start demo_options ''a'' 30 0 cpu_db new_evaluator None))"
    by (rule r_into_rtranclp)
  moreover have "ae_running (fst (start demo_options ''a'' 30 0 cpu_db new_evaluator None))"
    by (simp add: start_def tickLeader_def tryAcquire_def new_evaluator_def demo_options_def Let_def)
  ultimately show ?thesis using schedule_exact by blast
qed

theorem lost_leader_schedules_witness:
  "dom (map_of (ae_timers (debounce_fires cpu_db (fst (tickLeader demo_options ''a'' 30 100 cpu_db
      (notifyRuleChanged (new_evaluator\<lparr>ae_running := True, ae_isLeader := True\<rparr>)) (Some \<lparr>lv_leaderId = ''b'', lv_expiresAt = 120\<rparr>)))))) = active_ids cpu_db"
proof -
  let ?ev = "new_evaluator\<lparr>ae_running := True, ae_isLeader := True\<rparr>" and ?row = "Some \<lparr>lv_leaderId = ''b'', lv_expiresAt = 120\<rparr>"
  have ev: "schedule_ok ?ev" "ae_running ?ev" "ae_isLeader ?ev" "eo_leaderLock demo_options" "distinct (map ru_id (adb_rules cpu_db))"
    by (simp_all add: new_evaluator_def schedule_ok_def demo_options_def cpu_db_def empty_alerts_def)
  obtain ev1 row' where tick: "tickLeader demo_options ''a'' 30 100 cpu_db (notifyRuleChanged ?ev) ?row = (ev1, row')" by fastforce
  have "''b'' \<noteq> ''a''" "(110 :: int) \<le> 120" by simp_all
  from lost_leader_schedules [OF ev refl this tick refl] show ?thesis by (simp add: tick)
qed

theorem fingerprint_order_witness:
  "computeAlertFingerprint (\<lambda>x. x) ''r'' [(''b'', ''2''), (''a'', ''1'')] = computeAlertFingerprint (\<lambda>x. x) ''r'' [(''a'', ''1''), (''b'', ''2'')]"
  using fingerprint_order [of "[(''b'', ''2''), (''a'', ''1'')]" "[(''a'', ''1''), (''b'', ''2'')]" "\<lambda>x. x" "''r''"] by simp

end
