(* ===== verification/Alert_Routes.thy ===== *)
theory Alert_Routes
  imports Alert_Evaluator Access_Control
begin

text \<open>
  The HTTP routes of alert rules, silences and flat notification policies
  (\<^verbatim>\<open>api-gateway/src/routes/alert-rules.ts\<close>, with the gate of
  \<^verbatim>\<open>common/src/resources/writable-gate.ts\<close>).  A request carries the identity that authentication
  left on it; the bodies are the typed values the handlers read.  Starting the background agent
  after \<^verbatim>\<open>/:id/investigate\<close> is not modelled, only the rows the route writes.
\<close>

section \<open>Requests and answers\<close>

record alert_world =
  aw_db :: alert_db
  aw_folders :: "folder list"
  aw_audit :: "(string \<times> string) list"

record route_env =
  re_ac :: ac_config
  re_world :: ac_world
  re_orgs :: "string list"
  re_users :: "string list"
  re_now :: int
  re_nowText :: string
  re_random :: string
  re_metrics :: "string \<Rightarrow> range_query option"

record alert_request =
  rq_auth :: "identity option"
  rq_headerOrg :: "string option"
  rq_queryOrg :: "string option"

datatype alert_response =
    Refuse nat string
  | Throw string
  | Send_rule nat alert_rule
  | Send_rules "alert_rule list" nat
  | Send_history "alert_history list"
  | Send_silence nat "alert_silence \<times> silence_status"
  | Send_silences "(alert_silence \<times> silence_status) list"
  | Send_policy nat notification_policy
  | Send_policies "notification_policy list"
  | Send_preview preview_result
  | Send_investigation string bool
  | Send_test
  | No_content

definition resolveOrgId :: "alert_request \<Rightarrow> string result" where
  "resolveOrgId req =
     (let authed = (case rq_auth req of Some i \<Rightarrow> id_orgId i | None \<Rightarrow> '''') in
      if authed \<noteq> '''' then Inr authed
      else if present (rq_headerOrg req) then Inr (the (rq_headerOrg req))
      else if present (rq_queryOrg req) then Inr (the (rq_queryOrg req))
      else Inl ''org context missing'')"

text \<open>The permission gate in front of a handler.\<close>

definition alert_gate ::
  "route_env \<Rightarrow> alert_request \<Rightarrow> evaluator \<Rightarrow> (alert_world \<Rightarrow> alert_response \<times> alert_world) \<Rightarrow> alert_world \<Rightarrow> alert_response \<times> alert_world" where
  "alert_gate env req ev body w =
     (case fst (permissionGate (re_ac env) (re_world env) False (rq_auth req) (Inr ev)) of
        Gate_status code msg \<Rightarrow> (Refuse code msg, w)
      | Gate_next \<Rightarrow> body w)"

definition with_orgId :: "alert_request \<Rightarrow> (string \<Rightarrow> alert_world \<Rightarrow> alert_response \<times> alert_world) \<Rightarrow> alert_world \<Rightarrow> alert_response \<times> alert_world" where
  "with_orgId req body w = (case resolveOrgId req of Inl e \<Rightarrow> (Throw e, w) | Inr orgId \<Rightarrow> body orgId w)"

definition assertWritable :: "string \<Rightarrow> bool" where
  "assertWritable source \<longleftrightarrow> \<not> (source = ''provisioned_file'' \<or> source = ''provisioned_git'')"

definition refuseIfProvisioned ::
  "alert_rule \<Rightarrow> (alert_world \<Rightarrow> alert_response \<times> alert_world) \<Rightarrow> alert_world \<Rightarrow> alert_response \<times> alert_world" where
  "refuseIfProvisioned rule body w =
     (if assertWritable (ru_source rule) then body w
      else (Refuse 409 (''Cannot mutate provisioned resource alert_rule:'' @ ru_id rule @ '' (source='' @ ru_source rule
              @ ''). Fork to your workspace, or propose a diff.''), w))"

definition loadOwnedRule ::
  "alert_request \<Rightarrow> string \<Rightarrow> (alert_rule \<Rightarrow> alert_world \<Rightarrow> alert_response \<times> alert_world) \<Rightarrow> alert_world \<Rightarrow> alert_response \<times> alert_world" where
  "loadOwnedRule req i body w =
     (case rule_findById (aw_db w) i of
        None \<Rightarrow> (Refuse 404 ''Alert rule not found'', w)
      | Some rule \<Rightarrow>
          with_orgId req (\<lambda>orgId w. if ru_workspaceId rule \<noteq> Some orgId then (Refuse 404 ''Alert rule not found'', w) else body rule w) w)"

definition rule_scope :: "string \<Rightarrow> string \<Rightarrow> evaluator" where
  "rule_scope act i = ac_eval act (OneScope (''alert.rules:uid:'' @ i))"

definition audit_log :: "string \<Rightarrow> string \<Rightarrow> alert_world \<Rightarrow> alert_world" where
  "audit_log act target w = w\<lparr>aw_audit := aw_audit w @ [(act, target)]\<rparr>"

section \<open>Rules\<close>

definition DEFAULT_ALERT_RULE_FOLDER_UID :: string where
  "DEFAULT_ALERT_RULE_FOLDER_UID = ''alerts''"

definition requestFolderUid :: "string option \<Rightarrow> string" where
  "requestFolderUid folderUid = (case folderUid of Some f \<Rightarrow> js_trim f | None \<Rightarrow> '''')"

definition resolveAlertRuleFolderUid ::
  "route_env \<Rightarrow> string \<Rightarrow> string option \<Rightarrow> string option \<Rightarrow> folder list \<Rightarrow> (string \<times> folder list) result" where
  "resolveAlertRuleFolderUid env workspaceId userId requested folders =
     (if requestFolderUid requested \<noteq> '''' then Inr (requestFolderUid requested, folders)
      else (case folder_findByUid folders workspaceId DEFAULT_ALERT_RULE_FOLDER_UID of
              Some existing \<Rightarrow> Inr (fo_uid existing, folders)
            | None \<Rightarrow>
                res_bind (folder_create (re_orgs env) (re_users env) (re_random env) (re_now env)
                    \<lparr>nf_id = None, nf_uid = DEFAULT_ALERT_RULE_FOLDER_UID, nf_orgId = workspaceId, nf_title = ''Alerts'',
                     nf_description = Some ''Default folder for alert rules created without an explicit folder.'', nf_parentUid = None,
                     nf_createdBy = userId, nf_updatedBy = userId, nf_source = Some ''api'', nf_provenance = None\<rparr> folders)
                  (\<lambda>(f, folders'). Inr (fo_uid f, folders'))))"

record create_body =
  cb_name :: "string option"
  cb_description :: "string option"
  cb_originalPrompt :: "string option"
  cb_condition :: "alert_condition option"
  cb_evaluationIntervalSec :: "int option"
  cb_severity :: "string option"
  cb_labels :: "labels option"
  cb_createdBy :: "string option"
  cb_notificationPolicyId :: "string option"
  cb_folderUid :: "string option"

definition auth_user :: "alert_request \<Rightarrow> string option" where
  "auth_user req = map_option id_userId (rq_auth req)"

definition create_input :: "create_body \<Rightarrow> string \<Rightarrow> string \<Rightarrow> alert_input" where
  "create_input body workspaceId folderUid =
     \<lparr>ci_name = the (cb_name body), ci_description = coalesce (cb_description body) '''', ci_originalPrompt = cb_originalPrompt body,
      ci_condition = the (cb_condition body), ci_evaluationIntervalSec = coalesce (cb_evaluationIntervalSec body) 60,
      ci_severity = coalesce (cb_severity body) ''medium'',
      ci_labels = Some (AList.update ''workspaceId'' workspaceId (coalesce (cb_labels body) [])),
      ci_notificationPolicyId = cb_notificationPolicyId body, ci_investigationId = None, ci_workspaceId = Some workspaceId,
      ci_folderUid = Some folderUid, ci_createdBy = coalesce (cb_createdBy body) ''user'', ci_lastEvaluatedAt = None,
      ci_lastFiredAt = None, ci_source = Some ''api'', ci_provenance = None\<rparr>"

definition store_rule :: "route_env \<Rightarrow> string \<Rightarrow> alert_input \<Rightarrow> alert_world \<Rightarrow> alert_response \<times> alert_world" where
  "store_rule env act input w =
     (case rule_create (re_random env) (re_now env) input (aw_db w) of
        Inl e \<Rightarrow> (Throw e, w)
      | Inr (rule, db) \<Rightarrow> (Send_rule 201 rule, audit_log act (ru_id rule) (w\<lparr>aw_db := db\<rparr>)))"

definition post_rule :: "route_env \<Rightarrow> alert_request \<Rightarrow> create_body \<Rightarrow> alert_world \<Rightarrow> alert_response \<times> alert_world" where
  "post_rule env req body =
     (let folder = requestFolderUid (cb_folderUid body) in
      alert_gate env req (ac_eval A_AlertRulesCreate (OneScope (''folders:uid:'' @ (if folder = '''' then DEFAULT_ALERT_RULE_FOLDER_UID else folder))))
       (\<lambda>w. if \<not> present (cb_name body) \<or> cb_condition body = None then (Refuse 400 ''name and condition are required'', w)
            else with_orgId req (\<lambda>workspaceId w.
              case resolveAlertRuleFolderUid env workspaceId (auth_user req) (cb_folderUid body) (aw_folders w) of
                Inl e \<Rightarrow> (Throw e, w)
              | Inr (folderUid, folders) \<Rightarrow>
                  store_rule env ''alert_rule.create'' (create_input body workspaceId folderUid) (w\<lparr>aw_folders := folders\<rparr>)) w))"

definition fork_input :: "alert_rule \<Rightarrow> string \<Rightarrow> string \<Rightarrow> string \<Rightarrow> string option \<Rightarrow> alert_input" where
  "fork_input existing userId workspaceId folderUid newTitle =
     \<lparr>ci_name = (if requestFolderUid newTitle \<noteq> '''' then requestFolderUid newTitle else ru_name existing @ '' (forked)''),
      ci_description = ru_description existing, ci_originalPrompt = ru_originalPrompt existing, ci_condition = ru_condition existing,
      ci_evaluationIntervalSec = ru_evaluationIntervalSec existing, ci_severity = ru_severity existing,
      ci_labels = Some (coalesce (ru_labels existing) []),
      ci_notificationPolicyId = (if present (ru_notificationPolicyId existing) then ru_notificationPolicyId existing else None),
      ci_investigationId = None, ci_workspaceId = Some workspaceId, ci_folderUid = Some folderUid, ci_createdBy = userId,
      ci_lastEvaluatedAt = None, ci_lastFiredAt = None, ci_source = Some ''manual'', ci_provenance = Some (ru_id existing)\<rparr>"

definition fork_rule ::
  "route_env \<Rightarrow> alert_request \<Rightarrow> string \<Rightarrow> string option \<Rightarrow> string option \<Rightarrow> alert_world \<Rightarrow> alert_response \<times> alert_world" where
  "fork_rule env req i newTitle folder =
     alert_gate env req (rule_scope A_AlertRulesRead i)
       (loadOwnedRule req i (\<lambda>existing.
          with_orgId req (\<lambda>workspaceId.
            (let userId = coalesce (auth_user req) ''anonymous'';
                 folderUid = (if requestFolderUid folder \<noteq> '''' then requestFolderUid folder else ''personal-'' @ userId)
             in store_rule env ''alert_rule.fork'' (fork_input existing userId workspaceId folderUid newTitle)))))"

definition list_rules ::
  "route_env \<Rightarrow> alert_request \<Rightarrow> rule_filter \<Rightarrow> alert_world \<Rightarrow> alert_response \<times> alert_world" where
  "list_rules env req flt =
     alert_gate env req (ac_eval A_AlertRulesRead (OneScope ''folders:*''))
       (with_orgId req (\<lambda>workspaceId w.
          (let rules = filter (\<lambda>r. ru_workspaceId r = Some workspaceId) (fst (rule_findAll (aw_db w) flt))
           in (Send_rules rules (length rules), w))))"

definition get_rule :: "route_env \<Rightarrow> alert_request \<Rightarrow> string \<Rightarrow> alert_world \<Rightarrow> alert_response \<times> alert_world" where
  "get_rule env req i =
     alert_gate env req (rule_scope A_AlertRulesRead i) (loadOwnedRule req i (\<lambda>rule w. (Send_rule 200 rule, w)))"

definition patch_rule ::
  "route_env \<Rightarrow> string \<Rightarrow> rule_patch \<Rightarrow> string option \<Rightarrow> alert_world \<Rightarrow> alert_response \<times> alert_world" where
  "patch_rule env i patch act w =
     (case rule_update (re_now env) i patch (aw_db w) of
        (None, db) \<Rightarrow> (Refuse 404 ''Alert rule not found'', w\<lparr>aw_db := db\<rparr>)
      | (Some updated, db) \<Rightarrow>
          (Send_rule 200 updated, (case act of Some a \<Rightarrow> audit_log a (ru_id updated) | None \<Rightarrow> id) (w\<lparr>aw_db := db\<rparr>)))"

definition put_rule :: "route_env \<Rightarrow> alert_request \<Rightarrow> string \<Rightarrow> rule_patch \<Rightarrow> alert_world \<Rightarrow> alert_response \<times> alert_world" where
  "put_rule env req i body =
     alert_gate env req (rule_scope A_AlertRulesWrite i)
       (loadOwnedRule req i (\<lambda>existing. refuseIfProvisioned existing (patch_rule env i body (Some ''alert_rule.update''))))"

definition delete_rule :: "route_env \<Rightarrow> alert_request \<Rightarrow> string \<Rightarrow> alert_world \<Rightarrow> alert_response \<times> alert_world" where
  "delete_rule env req i =
     alert_gate env req (rule_scope A_AlertRulesDelete i)
       (loadOwnedRule req i (\<lambda>existing. refuseIfProvisioned existing (\<lambda>w.
          case rule_delete i (aw_db w) of
            (False, db) \<Rightarrow> (Refuse 404 ''Alert rule not found'', w)
          | (True, db) \<Rightarrow> (No_content, audit_log ''alert_rule.delete'' (ru_id existing) (w\<lparr>aw_db := db\<rparr>)))))"

definition disable_rule :: "route_env \<Rightarrow> alert_request \<Rightarrow> string \<Rightarrow> alert_world \<Rightarrow> alert_response \<times> alert_world" where
  "disable_rule env req i =
     alert_gate env req (rule_scope A_AlertRulesWrite i)
       (loadOwnedRule req i (\<lambda>existing. refuseIfProvisioned existing (patch_rule env i (no_patch\<lparr>pa_state := Some Disabled\<rparr>) None)))"

definition enable_rule :: "route_env \<Rightarrow> alert_request \<Rightarrow> string \<Rightarrow> alert_world \<Rightarrow> alert_response \<times> alert_world" where
  "enable_rule env req i =
     alert_gate env req (rule_scope A_AlertRulesWrite i)
       (loadOwnedRule req i (\<lambda>existing. patch_rule env i (no_patch\<lparr>pa_state := Some Normal\<rparr>) None))"

definition rule_history :: "route_env \<Rightarrow> alert_request \<Rightarrow> string \<Rightarrow> int option \<Rightarrow> alert_world \<Rightarrow> alert_response \<times> alert_world" where
  "rule_history env req i limit =
     alert_gate env req (rule_scope A_AlertRulesRead i)
       (loadOwnedRule req i (\<lambda>rule w. (Send_history (getHistory (aw_db w) (ru_id rule) (Some (coalesce limit 50))), w)))"

definition test_rule :: "route_env \<Rightarrow> alert_request \<Rightarrow> string \<Rightarrow> alert_world \<Rightarrow> alert_response \<times> alert_world" where
  "test_rule env req i =
     alert_gate env req (rule_scope A_AlertRulesWrite i) (loadOwnedRule req i (\<lambda>rule w. (Send_test, w)))"

text \<open>The new investigation is a row of another store: its identifier is a parameter, or none without that store.\<close>

definition investigate_rule ::
  "route_env \<Rightarrow> alert_request \<Rightarrow> string option \<Rightarrow> bool \<Rightarrow> string \<Rightarrow> bool \<Rightarrow> alert_world \<Rightarrow> alert_response \<times> alert_world" where
  "investigate_rule env req investigationStore runner i force =
     alert_gate env req (rule_scope A_AlertRulesWrite i)
       (loadOwnedRule req i (\<lambda>rule w.
          if present (ru_investigationId rule) \<and> \<not> force then (Send_investigation (the (ru_investigationId rule)) True, w)
          else (case investigationStore of
                  None \<Rightarrow> (Refuse 503 ''Investigation stores not configured'', w)
                | Some newId \<Rightarrow>
                    if \<not> runner then (Refuse 503 ''Background investigation runner not configured'', w)
                    else if rq_auth req = None then (Refuse 401 ''Authentication required'', w)
                    else (Send_investigation newId False,
                          audit_log ''investigation.create'' newId
                            (w\<lparr>aw_db := snd (rule_update (re_now env) (ru_id rule) (no_patch\<lparr>pa_investigationId := Some (Some newId)\<rparr>) (aw_db w))\<rparr>)))))"

definition operator_names :: "(string \<times> alert_operator) list" where
  "operator_names = [(''>'', Gt), (''>='', Ge), (''<'', Lt), (''<='', Le), (''=='', Eq), (''!='', Ne)]"

definition preview_rule ::
  "route_env \<Rightarrow> alert_request \<Rightarrow> string option \<Rightarrow> js_number \<Rightarrow> string option \<Rightarrow> string option \<Rightarrow> rat option \<Rightarrow> alert_world \<Rightarrow> alert_response \<times> alert_world" where
  "preview_rule env req query threshold comparator operator lookbackHours =
     alert_gate env req (ac_eval A_AlertRulesRead (OneScope ''folders:*''))
       (\<lambda>w. let q = requestFolderUid query; operatorRaw = coalesce comparator (coalesce operator '''') in
          if q = '''' then (Refuse 400 ''query is required'', w)
          else if \<not> (case threshold of Fin _ \<Rightarrow> True | _ \<Rightarrow> False) then (Refuse 400 ''threshold must be a number'', w)
          else (case map_of operator_names operatorRaw of
                  None \<Rightarrow> (Refuse 400 ''comparator must be one of >, >=, <, <=, ==, !='', w)
                | Some op \<Rightarrow>
                    with_orgId req (\<lambda>orgId w. (Send_preview (previewAlertCondition (re_metrics env orgId)
                       \<lparr>pi_query = q, pi_operator = op, pi_threshold = threshold, pi_lookbackHours = lookbackHours,
                        pi_step = None, pi_maxSamples = None\<rparr> (re_now env)), w)) w))"

section \<open>Silences and policies\<close>

definition list_silences :: "route_env \<Rightarrow> alert_request \<Rightarrow> bool \<Rightarrow> alert_world \<Rightarrow> alert_response \<times> alert_world" where
  "list_silences env req includingExpired =
     alert_gate env req (ac_eval A_AlertSilencesRead NoScope)
       (\<lambda>w. (Send_silences (if includingExpired then findAllSilencesIncludingExpired (re_nowText env) (aw_db w)
                             else findSilences (re_nowText env) (aw_db w)), w))"

definition post_silence ::
  "route_env \<Rightarrow> alert_request \<Rightarrow> matcher list option \<Rightarrow> string option \<Rightarrow> string option \<Rightarrow> string option \<Rightarrow> string option \<Rightarrow> alert_world \<Rightarrow> alert_response \<times> alert_world" where
  "post_silence env req matchers startsAt endsAt comment createdBy =
     alert_gate env req (ac_eval A_AlertSilencesCreate NoScope)
       (\<lambda>w. if matchers = None \<or> \<not> present startsAt \<or> \<not> present endsAt
            then (Refuse 400 ''matchers, startsAt, endsAt are required'', w)
            else (case createSilence (re_random env) (re_now env) (re_nowText env) (the matchers) (the startsAt) (the endsAt)
                         (coalesce comment '''') (coalesce createdBy ''user'') (aw_db w) of
                    Inl e \<Rightarrow> (Throw e, w)
                  | Inr (silence, db) \<Rightarrow> (Send_silence 201 silence, w\<lparr>aw_db := db\<rparr>)))"

definition put_silence :: "route_env \<Rightarrow> alert_request \<Rightarrow> string \<Rightarrow> silence_patch \<Rightarrow> alert_world \<Rightarrow> alert_response \<times> alert_world" where
  "put_silence env req i patch =
     alert_gate env req (ac_eval A_AlertSilencesWrite NoScope)
       (\<lambda>w. case updateSilence (re_nowText env) i patch (aw_db w) of
              (None, db) \<Rightarrow> (Refuse 404 ''Silence not found'', w)
            | (Some updated, db) \<Rightarrow> (Send_silence 200 updated, w\<lparr>aw_db := db\<rparr>))"

definition delete_silence :: "route_env \<Rightarrow> alert_request \<Rightarrow> string \<Rightarrow> alert_world \<Rightarrow> alert_response \<times> alert_world" where
  "delete_silence env req i =
     alert_gate env req (ac_eval A_AlertSilencesWrite NoScope)
       (\<lambda>w. case deleteSilence i (aw_db w) of
              (False, db) \<Rightarrow> (Refuse 404 ''Silence not found'', w) | (True, db) \<Rightarrow> (No_content, w\<lparr>aw_db := db\<rparr>))"

definition list_policies :: "route_env \<Rightarrow> alert_request \<Rightarrow> alert_world \<Rightarrow> alert_response \<times> alert_world" where
  "list_policies env req =
     alert_gate env req (ac_eval A_AlertNotificationsRead NoScope) (\<lambda>w. (Send_policies (findAllPolicies (aw_db w)), w))"

definition post_policy :: "route_env \<Rightarrow> alert_request \<Rightarrow> policy_patch \<Rightarrow> alert_world \<Rightarrow> alert_response \<times> alert_world" where
  "post_policy env req body =
     alert_gate env req (ac_eval A_AlertNotificationsWrite NoScope)
       (\<lambda>w. if \<not> present (pp_name body) \<or> pp_channels body = None then (Refuse 400 ''name and channels are required'', w)
            else (case createPolicy (re_random env) (re_now env)
                         \<lparr>np_id = '''', np_name = the (pp_name body), np_matchers = coalesce (pp_matchers body) [], np_channels = the (pp_channels body),
                          np_groupBy = Some (coalesce (coalesce (pp_groupBy body) None) []),
                          np_groupWaitSec = Some (coalesce (coalesce (pp_groupWaitSec body) None) 30),
                          np_groupIntervalSec = Some (coalesce (coalesce (pp_groupIntervalSec body) None) 300),
                          np_repeatIntervalSec = Some (coalesce (coalesce (pp_repeatIntervalSec body) None) 3600),
                          np_createdAt = 0, np_updatedAt = 0\<rparr> (aw_db w) of
                    Inl e \<Rightarrow> (Throw e, w)
                  | Inr (policy, db) \<Rightarrow> (Send_policy 201 policy, w\<lparr>aw_db := db\<rparr>)))"

definition put_policy :: "route_env \<Rightarrow> alert_request \<Rightarrow> string \<Rightarrow> policy_patch \<Rightarrow> alert_world \<Rightarrow> alert_response \<times> alert_world" where
  "put_policy env req i patch =
     alert_gate env req (ac_eval A_AlertNotificationsWrite NoScope)
       (\<lambda>w. case updatePolicy (re_now env) i patch (aw_db w) of
              (None, db) \<Rightarrow> (Refuse 404 ''Notification policy not found'', w)
            | (Some updated, db) \<Rightarrow> (Send_policy 200 updated, w\<lparr>aw_db := db\<rparr>))"

definition delete_policy :: "route_env \<Rightarrow> alert_request \<Rightarrow> string \<Rightarrow> alert_world \<Rightarrow> alert_response \<times> alert_world" where
  "delete_policy env req i =
     alert_gate env req (ac_eval A_AlertNotificationsWrite NoScope)
       (\<lambda>w. case deletePolicy i (aw_db w) of
              (False, db) \<Rightarrow> (Refuse 404 ''Notification policy not found'', w) | (True, db) \<Rightarrow> (No_content, w\<lparr>aw_db := db\<rparr>))"

section \<open>All routes\<close>

datatype alert_call =
    List_rules rule_filter | Get_rule string | Post_rule create_body | Fork_rule string "string option" "string option"
  | Put_rule string rule_patch | Delete_rule string | Disable_rule string | Enable_rule string
  | Rule_history string "int option" | Test_rule string | Investigate_rule "string option" bool string bool
  | Preview_rule "string option" js_number "string option" "string option" "rat option"
  | List_silences bool | Post_silence "matcher list option" "string option" "string option" "string option" "string option"
  | Put_silence string silence_patch | Delete_silence string
  | List_policies | Post_policy policy_patch | Put_policy string policy_patch | Delete_policy string

fun serve :: "route_env \<Rightarrow> alert_request \<Rightarrow> alert_call \<Rightarrow> alert_world \<Rightarrow> alert_response \<times> alert_world" where
  "serve env req (List_rules flt) = list_rules env req flt"
| "serve env req (Get_rule i) = get_rule env req i"
| "serve env req (Post_rule body) = post_rule env req body"
| "serve env req (Fork_rule i title folder) = fork_rule env req i title folder"
| "serve env req (Put_rule i patch) = put_rule env req i patch"
| "serve env req (Delete_rule i) = delete_rule env req i"
| "serve env req (Disable_rule i) = disable_rule env req i"
| "serve env req (Enable_rule i) = enable_rule env req i"
| "serve env req (Rule_history i limit) = rule_history env req i limit"
| "serve env req (Test_rule i) = test_rule env req i"
| "serve env req (Investigate_rule newId runner i force) = investigate_rule env req newId runner i force"
| "serve env req (Preview_rule q t c p l) = preview_rule env req q t c p l"
| "serve env req (List_silences all) = list_silences env req all"
| "serve env req (Post_silence m s e c b) = post_silence env req m s e c b"
| "serve env req (Put_silence i patch) = put_silence env req i patch"
| "serve env req (Delete_silence i) = delete_silence env req i"
| "serve env req List_policies = list_policies env req"
| "serve env req (Post_policy body) = post_policy env req body"
| "serve env req (Put_policy i patch) = put_policy env req i patch"
| "serve env req (Delete_policy i) = delete_policy env req i"

section \<open>Other organisations\<close>

text \<open>The rows that satisfy a condition are still there.\<close>

definition keeps :: "(alert_rule \<Rightarrow> bool) \<Rightarrow> alert_world \<Rightarrow> alert_world \<Rightarrow> bool" where
  "keeps P w w' \<longleftrightarrow> (\<forall>r\<in>set (adb_rules (aw_db w)). P r \<longrightarrow> r \<in> set (adb_rules (aw_db w')))"

lemma keeps_same [simp]: "adb_rules (aw_db w') = adb_rules (aw_db w) \<Longrightarrow> keeps P w w'"
  by (simp add: keeps_def)

lemma gate_keeps: "keeps P w (snd (body w)) \<Longrightarrow> keeps P w (snd (alert_gate env req ev body w))"
  by (auto simp: alert_gate_def split: gate_outcome.split)

lemma org_keeps: "(\<And>orgId. resolveOrgId req = Inr orgId \<Longrightarrow> keeps P w (snd (body orgId w))) \<Longrightarrow> keeps P w (snd (with_orgId req body w))"
  by (auto simp: with_orgId_def split: sum.split)

lemma owned_keeps:
  assumes "\<And>rule orgId. rule_findById (aw_db w) i = Some rule \<Longrightarrow> resolveOrgId req = Inr orgId \<Longrightarrow> ru_workspaceId rule = Some orgId
      \<Longrightarrow> keeps P w (snd (body rule w))"
  shows "keeps P w (snd (loadOwnedRule req i body w))"
proof (cases "rule_findById (aw_db w) i")
  case (Some rule)
  then show ?thesis unfolding loadOwnedRule_def Some option.case by (intro org_keeps) (auto intro: assms [OF Some])
qed (simp add: loadOwnedRule_def)

lemma frame_pairs:
  "updateSilence nowText i sp db = (a, db') \<Longrightarrow> adb_rules db' = adb_rules db" "deleteSilence i db = (b, db') \<Longrightarrow> adb_rules db' = adb_rules db"
  "updatePolicy now i pp db = (c, db') \<Longrightarrow> adb_rules db' = adb_rules db" "deletePolicy i db = (b, db') \<Longrightarrow> adb_rules db' = adb_rules db"
  by (metis frame_ops snd_conv)+

lemma store_keeps: "adb_rules (aw_db w') = adb_rules (aw_db w) \<Longrightarrow> keeps P w (snd (store_rule env act input w'))"
  by (auto simp: store_rule_def audit_log_def keeps_def dest!: rule_createE split: sum.split)

lemma update_keeps:
  assumes "distinct (map ru_id (adb_rules db))" "rule_findById db i = Some rule" "\<And>r. rule = rowToRule r \<Longrightarrow> \<not> P r"
    "r \<in> set (adb_rules db)" "P r"
  shows "r \<in> set (adb_rules (snd (rule_update now i p db)))"
proof -
  obtain x where x: "x \<in> set (adb_rules db)" "ru_id x = i" "rule = rowToRule x" using find_rule [OF assms(2)] by blast
  have "r \<noteq> x" using assms(3) [OF x(3)] assms(5) by auto
  then have "ru_id r \<noteq> i" using assms(1,4) x by (auto simp: distinct_map dest: inj_onD)
  then show ?thesis
    using assms(4) rule_update_row [OF assms(1) x(1), of now p] x(2) by (auto simp: set_upd_where)
qed

lemma delete_keeps:
  assumes "distinct (map ru_id (adb_rules db))" "rule_findById db i = Some rule" "\<And>r. rule = rowToRule r \<Longrightarrow> \<not> P r"
    "r \<in> set (adb_rules db)" "P r"
  shows "r \<in> set (adb_rules (snd (rule_delete i db)))"
proof -
  obtain x where x: "x \<in> set (adb_rules db)" "ru_id x = i" "rule = rowToRule x" using find_rule [OF assms(2)] by blast
  have "r \<noteq> x" using assms(3) [OF x(3)] assms(5) by auto
  then have "ru_id r \<noteq> i" using assms(1,4) x by (auto simp: distinct_map dest: inj_onD)
  then show ?thesis using assms(2,4) by (simp add: rule_delete_def)
qed

lemma patch_keeps:
  assumes "distinct (map ru_id (adb_rules (aw_db w)))" "rule_findById (aw_db w) i = Some rule" "\<And>r. rule = rowToRule r \<Longrightarrow> \<not> P r"
  shows "keeps P w (snd (patch_rule env i patch act w))"
  using update_keeps [OF assms(1,2), of P _ "re_now env" patch] assms(3)
  by (auto simp: patch_rule_def audit_log_def keeps_def split_beta split: option.split prod.split)

lemma refuse_keeps: "(assertWritable (ru_source rule) \<Longrightarrow> keeps P w (snd (body w))) \<Longrightarrow> keeps P w (snd (refuseIfProvisioned rule body w))"
  by (simp add: refuseIfProvisioned_def)

lemma deleted_keeps:
  assumes "distinct (map ru_id (adb_rules (aw_db w)))" "rule_findById (aw_db w) i = Some rule" "\<And>r. rule = rowToRule r \<Longrightarrow> \<not> P r"
  shows "keeps P w (snd (case rule_delete i (aw_db w) of
            (False, db) \<Rightarrow> (Refuse 404 ''Alert rule not found'', w)
          | (True, db) \<Rightarrow> (No_content, audit_log ''alert_rule.delete'' j (w\<lparr>aw_db := db\<rparr>))))"
  using delete_keeps [OF assms(1,2), of P] assms(3) by (auto simp: keeps_def audit_log_def split: prod.split bool.split)

text \<open>A call keeps a row unless it may change it: the row has to satisfy what the handlers check.\<close>

lemma serve_keeps:
  assumes "distinct (map ru_id (adb_rules (aw_db w)))"
    and "\<And>r orgId. resolveOrgId req = Inr orgId \<Longrightarrow> ru_workspaceId r = Some orgId \<Longrightarrow> assertWritable (ru_source r) \<Longrightarrow> \<not> P r"
    and "\<And>r orgId i newId runner force. call = Enable_rule i \<or> call = Investigate_rule newId runner i force \<Longrightarrow>
       resolveOrgId req = Inr orgId \<Longrightarrow> ru_workspaceId r = Some orgId \<Longrightarrow> \<not> P r"
  shows "keeps P w (snd (serve env req call w))"
proof (cases call)
  case (Put_rule i patch)
  then show ?thesis unfolding Put_rule serve.simps put_rule_def
    by (intro gate_keeps owned_keeps refuse_keeps patch_keeps [OF assms(1)]) (auto dest: assms(2))
next
  case (Delete_rule i)
  then show ?thesis unfolding Delete_rule serve.simps delete_rule_def
    by (intro gate_keeps owned_keeps refuse_keeps deleted_keeps [OF assms(1)]) (auto dest: assms(2))
next
  case (Disable_rule i)
  then show ?thesis unfolding Disable_rule serve.simps disable_rule_def
    by (intro gate_keeps owned_keeps refuse_keeps patch_keeps [OF assms(1)]) (auto dest: assms(2))
next
  case (Enable_rule i)
  show ?thesis unfolding Enable_rule serve.simps enable_rule_def
    by (intro gate_keeps owned_keeps patch_keeps [OF assms(1)]) (auto dest: assms(3) [OF disjI1, OF Enable_rule])
next
  case (Investigate_rule newId runner i force)
  have "keeps P w (w\<lparr>aw_db := snd (rule_update n i p (aw_db w))\<rparr>)" if "rule_findById (aw_db w) i = Some rule" "resolveOrgId req = Inr orgId"
    "ru_workspaceId rule = Some orgId" for rule orgId n p
  proof -
    have "\<not> P x" if "rule = rowToRule x" for x
      using assms(3) [OF disjI2, OF Investigate_rule \<open>resolveOrgId req = Inr orgId\<close>] \<open>ru_workspaceId rule = Some orgId\<close> that by auto
    then show ?thesis using update_keeps [OF assms(1) that(1), of P _ n p] by (simp add: keeps_def)
  qed
  then show ?thesis unfolding Investigate_rule serve.simps investigate_rule_def
    by (intro gate_keeps owned_keeps) (auto simp: audit_log_def keeps_def dest!: find_rule split: option.split)
qed (auto simp: list_rules_def get_rule_def post_rule_def fork_rule_def rule_history_def test_rule_def preview_rule_def list_silences_def
      post_silence_def put_silence_def delete_silence_def list_policies_def post_policy_def put_policy_def delete_policy_def Let_def
      intro!: gate_keeps owned_keeps org_keeps store_keeps split: option.split sum.split prod.split bool.split,
      (rule keeps_same, simp add: frame_pairs frame_creations)+)














text \<open>
  Provisioned rules are protected: no call except enabling and investigating changes or removes a
  rule that a file or a repository provides; enabling, however, is not checked, and puts such a rule
  into the normal state.
\<close>

theorem provisioned_protected:
  assumes "distinct (map ru_id (adb_rules (aw_db w)))" "r \<in> set (adb_rules (aw_db w))" "\<not> assertWritable (ru_source r)"
  shows "((\<nexists>i. call = Enable_rule i) \<and> (\<nexists>n b i f. call = Investigate_rule n b i f) \<longrightarrow> r \<in> set (adb_rules (aw_db (snd (serve env req call w)))))
     \<and> (ru_workspaceId r = Some orgId \<and> resolveOrgId req = Inr orgId
        \<and> fst (permissionGate (re_ac env) (re_world env) False (rq_auth req) (Inr (rule_scope A_AlertRulesWrite (ru_id r)))) = Gate_next
        \<longrightarrow> (\<exists>r'. rule_findById (aw_db (snd (serve env req (Enable_rule (ru_id r)) w))) (ru_id r) = Some r' \<and> ru_state r' = Normal))"
proof (intro conjI impI)
  assume "(\<nexists>i. call = Enable_rule i) \<and> (\<nexists>n b i f. call = Investigate_rule n b i f)"
  then have "keeps (\<lambda>r. \<not> assertWritable (ru_source r)) w (snd (serve env req call w))"
    by (intro serve_keeps [OF assms(1)]) auto
  then show "r \<in> set (adb_rules (aw_db (snd (serve env req call w))))" using assms(2,3) by (simp add: keeps_def)
next
  assume a: "ru_workspaceId r = Some orgId \<and> resolveOrgId req = Inr orgId
    \<and> fst (permissionGate (re_ac env) (re_world env) False (rq_auth req) (Inr (rule_scope A_AlertRulesWrite (ru_id r)))) = Gate_next"
  let ?p = "no_patch\<lparr>pa_state := Some Normal\<rparr>"
  have "rule_update (re_now env) (ru_id r) ?p (aw_db w) = (Some (rowToRule (merge_patch (re_now env) ?p (rowToRule r) r)),
      (aw_db w)\<lparr>adb_rules := upd_where (\<lambda>x. ru_id x = ru_id r) (merge_patch (re_now env) ?p (rowToRule r)) (adb_rules (aw_db w))\<rparr>)"
    by (rule rule_update_row [OF assms(1,2)])
  moreover from this have "rule_findById (snd (rule_update (re_now env) (ru_id r) ?p (aw_db w))) (ru_id r)
      = Some (rowToRule (merge_patch (re_now env) ?p (rowToRule r) r))"
    using find_rule_unique [OF assms(1,2)] by (auto simp: rule_update_def Let_def)
  ultimately show "\<exists>r'. rule_findById (aw_db (snd (serve env req (Enable_rule (ru_id r)) w))) (ru_id r) = Some r' \<and> ru_state r' = Normal"
    using a find_rule_unique [OF assms(1,2)]
    by (auto simp: enable_rule_def alert_gate_def loadOwnedRule_def with_orgId_def patch_rule_def no_patch_def)
qed

text \<open>
  Copying a rule needs no permission on the target folder: a caller who may read a rule can create
  a copy of it in any folder he names, whatever his permissions on that folder are.
\<close>

theorem fork_into_any_folder:
  assumes "distinct (map ru_id (adb_rules (aw_db w)))" "r \<in> set (adb_rules (aw_db w))" "ru_workspaceId r = Some orgId" "resolveOrgId req = Inr orgId"
    and "fst (permissionGate (re_ac env) (re_world env) False (rq_auth req) (Inr (rule_scope A_AlertRulesRead (ru_id r)))) = Gate_next"
    and "js_trim folder \<noteq> ''''" "''alert_'' @ take 12 (re_random env) \<notin> ru_id ` set (adb_rules (aw_db w))"
  shows "\<exists>copy row. fst (serve env req (Fork_rule (ru_id r) title (Some folder)) w) = Send_rule 201 copy
     \<and> row \<in> set (adb_rules (aw_db (snd (serve env req (Fork_rule (ru_id r) title (Some folder)) w))))
     \<and> ru_id row = ru_id copy \<and> ru_folderUid row = Some (js_trim folder) \<and> ru_condition row = ru_condition r"
proof -
  let ?i = "''alert_'' @ take 12 (re_random env)"
  let ?input = "fork_input (rowToRule r) (coalesce (auth_user req) ''anonymous'') orgId (js_trim folder) title"
  have run: "serve env req (Fork_rule (ru_id r) title (Some folder)) w = store_rule env ''alert_rule.fork'' ?input w"
    using assms(3-6) find_rule_unique [OF assms(1,2)]
    by (simp add: fork_rule_def alert_gate_def loadOwnedRule_def with_orgId_def requestFolderUid_def Let_def)
  let ?row = "new_rule_row ?i (re_now env) ?input"
  have create: "rule_create (re_random env) (re_now env) ?input (aw_db w)
      = Inr (rowToRule (new_rule_row ?i (re_now env) ?input), (aw_db w)\<lparr>adb_rules := adb_rules (aw_db w) @ [new_rule_row ?i (re_now env) ?input]\<rparr>)"
    by (rule rule_create_new [OF refl assms(7)])
  have "ru_folderUid ?row = Some (js_trim folder)" "ru_condition ?row = ru_condition r" by (simp_all add: new_rule_row_def fork_input_def)
  then show ?thesis
    unfolding run store_rule_def create sum.case prod.case fst_conv snd_conv
    by (intro exI [of _ "rowToRule ?row"] exI [of _ ?row]) (simp add: audit_log_def)
qed

text \<open>
  Editing can move a rule to another organisation: a caller who may write a rule of his
  organisation can name another organisation in the body; afterwards his own requests no longer find
  the rule, and it is among the rules of the other organisation.
\<close>

theorem put_moves_rule:
  assumes "distinct (map ru_id (adb_rules (aw_db w)))" "r \<in> set (adb_rules (aw_db w))" "ru_workspaceId r = Some orgId" "resolveOrgId req = Inr orgId"
    and "fst (permissionGate (re_ac env) (re_world env) False (rq_auth req) (Inr (rule_scope A_AlertRulesWrite (ru_id r)))) = Gate_next"
    and "assertWritable (ru_source r)" "other \<noteq> orgId"
    and "serve env req (Put_rule (ru_id r) (no_patch\<lparr>pa_workspaceId := Some (Some other)\<rparr>)) w = (a, w')"
  shows "(\<exists>r'. a = Send_rule 200 r' \<and> ru_id r' = ru_id r \<and> r' \<in> set (findByWorkspace (aw_db w') other))
     \<and> (\<exists>code msg. fst (serve env req (Get_rule (ru_id r)) w') = Refuse code msg)"
proof -
  let ?p = "no_patch\<lparr>pa_workspaceId := Some (Some other)\<rparr>"
  let ?r = "merge_patch (re_now env) ?p (rowToRule r) r"
  let ?db = "(aw_db w)\<lparr>adb_rules := upd_where (\<lambda>x. ru_id x = ru_id r) (merge_patch (re_now env) ?p (rowToRule r)) (adb_rules (aw_db w))\<rparr>"
  have up: "rule_update (re_now env) (ru_id r) ?p (aw_db w) = (Some (rowToRule ?r), ?db)"
    by (rule rule_update_row [OF assms(1,2)])
  have w': "a = Send_rule 200 (rowToRule ?r)" "aw_db w' = ?db"
    using assms(3-6,8) find_rule_unique [OF assms(1,2)] up
    by (auto simp: put_rule_def alert_gate_def loadOwnedRule_def with_orgId_def refuseIfProvisioned_def patch_rule_def audit_log_def)
  have r: "?r \<in> set (adb_rules ?db)" "distinct (map ru_id (adb_rules ?db))" "ru_workspaceId ?r = Some other"
    using assms(1,2) by (auto simp: set_upd_where map_upd_where_key no_patch_def)
  have "rule_findById ?db (ru_id r) = Some (rowToRule ?r)" using find_rule_unique [OF r(2,1)] by simp
  then have "\<exists>code msg. fst (serve env req (Get_rule (ru_id r)) w') = Refuse code msg"
    using assms(4,7) r(3) by (auto simp: get_rule_def alert_gate_def loadOwnedRule_def with_orgId_def w' split: gate_outcome.split)
  then show ?thesis using r by (auto simp: w' findByWorkspace_def)
qed

text \<open>
  Paging happens before the filter by organisation: if the rules updated most recently belong to
  other organisations, a page of them is answered as an empty list with the total 0, although the
  organisation of the caller has rules.
\<close>

theorem list_page_hides_rules:
  assumes "fst (permissionGate (re_ac env) (re_world env) False (rq_auth req) (Inr (ac_eval A_AlertRulesRead (OneScope ''folders:*'')))) = Gate_next"
    and "resolveOrgId req = Inr orgId" "0 < n"
    and "\<forall>r\<in>set (take (nat n) (sort_key (\<lambda>r. - ru_updatedAt r) (adb_rules (aw_db w)))). ru_workspaceId r \<noteq> Some orgId"
  shows "serve env req (List_rules (no_filter\<lparr>rf_limit := Some n\<rparr>)) w = (Send_rules [] 0, w)"
proof -
  have "fst (rule_findAll (aw_db w) (no_filter\<lparr>rf_limit := Some n\<rparr>))
      = map rowToRule (take (nat n) (sort_key (\<lambda>r. - ru_updatedAt r) (adb_rules (aw_db w))))"
    using assms(3) by (simp add: rule_findAll_def no_filter_def present_def slice_to_def Let_def)
  then have "filter (\<lambda>r. ru_workspaceId r = Some orgId) (fst (rule_findAll (aw_db w) (no_filter\<lparr>rf_limit := Some n\<rparr>))) = []"
    using assms(4) by (auto simp: filter_empty_conv)
  then show ?thesis using assms(1,2) by (simp add: list_rules_def alert_gate_def with_orgId_def)
qed

section \<open>Witnesses\<close>

definition alert_perm :: "string \<Rightarrow> string \<Rightarrow> string \<Rightarrow> permission_row" where
  "alert_perm i act sc = \<lparr>pr_id = i, pr_roleId = ''r'', pr_action = act, pr_scope = sc, pr_kind = '''', pr_attribute = '''',
     pr_identifier = '''', pr_created = 0, pr_updated = 0\<rparr>"

definition reader_env :: route_env where
  "reader_env = \<lparr>re_ac = \<lparr>ac_resolvers = None, ac_legacyAcl = False, ac_legacyEnabled = False, ac_legacyThrows = False\<rparr>,
     re_world = \<lparr>w_rbac = demo_db\<lparr>db_perms := [alert_perm ''1'' ''alert.rules:read'' ''alert.rules:*'', alert_perm ''2'' ''alert.rules:write'' ''alert.rules:*'',
         alert_perm ''3'' ''alert.rules:read'' ''folders:*'']\<rparr>,
       w_folders = [], w_acl = [], w_dashboardFolder = (\<lambda>_ _. None), w_ruleFolder = (\<lambda>_ _. None)\<rparr>,
     re_orgs = [''o''], re_users = [''u''], re_now = 50, re_nowText = ''2026'', re_random = ''2'', re_metrics = (\<lambda>_. None)\<rparr>"

definition reader_request :: alert_request where
  "reader_request = \<lparr>rq_auth = Some demo_user, rq_headerOrg = None, rq_queryOrg = None\<rparr>"

definition own_row :: alert_rule where
  "own_row = cpu_row\<lparr>ru_workspaceId := Some ''o''\<rparr>"

definition git_row :: alert_rule where
  "git_row = own_row\<lparr>ru_source := ''provisioned_git'', ru_state := Disabled\<rparr>"

definition world_of :: "alert_rule list \<Rightarrow> alert_world" where
  "world_of rs = \<lparr>aw_db = empty_alerts\<lparr>adb_rules := rs\<rparr>, aw_folders = [], aw_audit = []\<rparr>"

lemma world_of_rules [simp]: "adb_rules (aw_db (world_of rs)) = rs"
  by (simp add: world_of_def)

lemma reader_gates:
  "fst (permissionGate (re_ac reader_env) (re_world reader_env) False (rq_auth reader_request) (Inr (rule_scope A_AlertRulesRead ''alert_1''))) = Gate_next"
  "fst (permissionGate (re_ac reader_env) (re_world reader_env) False (rq_auth reader_request) (Inr (rule_scope A_AlertRulesWrite ''alert_1''))) = Gate_next"
  "fst (permissionGate (re_ac reader_env) (re_world reader_env) False (rq_auth reader_request) (Inr (ac_eval A_AlertRulesRead (OneScope ''folders:*'')))) = Gate_next"
  by code_simp+

lemma create_denied:
  "fst (permissionGate (re_ac reader_env) (re_world reader_env) False (rq_auth reader_request) (Inr (ac_eval A_AlertRulesCreate (OneScope ''folders:uid:ops'')))) \<noteq> Gate_next"
  by code_simp

lemma reader_org: "resolveOrgId reader_request = Inr ''o''"
  by (simp add: resolveOrgId_def reader_request_def demo_user_def)

lemma own_row_sel: "ru_id own_row = ''alert_1''" "ru_workspaceId own_row = Some ''o''" "ru_source own_row = ''api''"
  "ru_id git_row = ''alert_1''" "ru_workspaceId git_row = Some ''o''" "ru_source git_row = ''provisioned_git''" "ru_workspaceId cpu_row = Some ''o1''"
  by (simp_all add: own_row_def git_row_def cpu_row_def new_rule_row_def cpu_input_def)


theorem provisioned_protected_witness:
  "git_row \<in> set (adb_rules (aw_db (snd (serve reader_env reader_request (Disable_rule ''alert_1'') (world_of [git_row])))))
     \<and> map_option ru_state (rule_findById (aw_db (snd (serve reader_env reader_request (Enable_rule ''alert_1'') (world_of [git_row])))) ''alert_1'') = Some Normal"
proof -
  have g: "distinct (map ru_id (adb_rules (aw_db (world_of [git_row]))))" "git_row \<in> set (adb_rules (aw_db (world_of [git_row])))"
    "\<not> assertWritable (ru_source git_row)" by (simp_all add: own_row_sel assertWritable_def)
  show ?thesis
    using provisioned_protected [OF g, of "Disable_rule ''alert_1''" reader_env reader_request "''o''"] reader_org own_row_sel reader_gates(2)
    by (auto simp del: serve.simps)
qed

theorem fork_into_any_folder_witness:
  "\<exists>copy row. fst (serve reader_env reader_request (Fork_rule ''alert_1'' None (Some ''ops'')) (world_of [own_row])) = Send_rule 201 copy
     \<and> row \<in> set (adb_rules (aw_db (snd (serve reader_env reader_request (Fork_rule ''alert_1'' None (Some ''ops'')) (world_of [own_row])))))
     \<and> ru_folderUid row = Some ''ops''
     \<and> fst (permissionGate (re_ac reader_env) (re_world reader_env) False (rq_auth reader_request) (Inr (ac_eval A_AlertRulesCreate (OneScope ''folders:uid:ops'')))) \<noteq> Gate_next"
proof -
  have trim: "js_trim ''ops'' = ''ops''" by code_simp
  have g: "distinct (map ru_id (adb_rules (aw_db (world_of [own_row]))))" "own_row \<in> set (adb_rules (aw_db (world_of [own_row])))"
    "ru_workspaceId own_row = Some ''o''" "''alert_'' @ take 12 (re_random reader_env) \<notin> ru_id ` set (adb_rules (aw_db (world_of [own_row])))"
    by (simp_all add: own_row_sel reader_env_def)
  have gate: "fst (permissionGate (re_ac reader_env) (re_world reader_env) False (rq_auth reader_request) (Inr (rule_scope A_AlertRulesRead (ru_id own_row)))) = Gate_next"
    unfolding own_row_sel by (rule reader_gates(1))
  have "js_trim ''ops'' \<noteq> ''''" by (simp add: trim)
  from fork_into_any_folder [OF g(1-3) reader_org gate this g(4), of None] show ?thesis
    unfolding trim own_row_sel using create_denied by blast
qed

theorem put_moves_rule_witness:
  "\<exists>r'. fst (serve reader_env reader_request (Put_rule ''alert_1'' (no_patch\<lparr>pa_workspaceId := Some (Some ''p'')\<rparr>)) (world_of [own_row])) = Send_rule 200 r'
     \<and> ru_id r' = ''alert_1''"
proof -
  have g: "distinct (map ru_id (adb_rules (aw_db (world_of [own_row]))))" "own_row \<in> set (adb_rules (aw_db (world_of [own_row])))"
    "ru_workspaceId own_row = Some ''o''" "assertWritable (ru_source own_row)" by (simp_all add: own_row_sel assertWritable_def)
  have gate: "fst (permissionGate (re_ac reader_env) (re_world reader_env) False (rq_auth reader_request) (Inr (rule_scope A_AlertRulesWrite (ru_id own_row)))) = Gate_next"
    unfolding own_row_sel by (rule reader_gates(2))
  obtain a w' where run: "serve reader_env reader_request (Put_rule (ru_id own_row) (no_patch\<lparr>pa_workspaceId := Some (Some ''p'')\<rparr>)) (world_of [own_row]) = (a, w')"
    by fastforce
  have "''p'' \<noteq> ''o''" by simp
  from put_moves_rule [OF g(1-3) reader_org gate g(4) this run] run show ?thesis unfolding own_row_sel by auto
qed

theorem list_page_hides_rules_witness:
  "serve reader_env reader_request (List_rules (no_filter\<lparr>rf_limit := Some 1\<rparr>)) (world_of [cpu_row\<lparr>ru_updatedAt := 20\<rparr>, own_row])
     = (Send_rules [] 0, world_of [cpu_row\<lparr>ru_updatedAt := 20\<rparr>, own_row])"
proof (rule list_page_hides_rules [OF reader_gates(3) reader_org])
  show "(0 :: int) < 1" by simp
  have "ru_updatedAt own_row = 10" by (simp add: own_row_def cpu_row_def new_rule_row_def)
  then show "\<forall>r\<in>set (take (nat 1) (sort_key (\<lambda>r. - ru_updatedAt r) (adb_rules (aw_db (world_of [cpu_row\<lparr>ru_updatedAt := 20\<rparr>, own_row]))))). ru_workspaceId r \<noteq> Some ''o''"
    by (simp add: own_row_sel)
qed

end
