(* ===== verification/Notifications.thy ===== *)
theory Notifications
  imports Alert_Evaluator
begin

text \<open>
  Notifications: the policy tree, contact points and mute timings
  (\<^verbatim>\<open>data-layer/src/repository/sqlite/notification.ts\<close> and \<^verbatim>\<open>notification-routing.ts\<close>), the record of
  what was sent (\<^verbatim>\<open>sqlite/notification-dispatch.ts\<close>), and the consumer that turns alerts and
  approval requests into messages (\<^verbatim>\<open>api-gateway/src/services/notification-consumer.ts\<close>).
  Parameters are the matching of regular expressions (no value for a pattern that does not compile,
  on which the source throws), the local calendar of a time zone, and the senders.
\<close>

section \<open>The policy tree\<close>

record policy_data =
  pd_id :: string
  pd_matchers :: "matcher list"
  pd_contactPointId :: string
  pd_groupBy :: "string list option"
  pd_groupWaitSec :: "rat option"
  pd_groupIntervalSec :: "rat option"
  pd_repeatIntervalSec :: "rat option"
  pd_continueMatching :: bool
  pd_muteTimingIds :: "string list option"
  pd_isDefault :: bool
  pd_createdAt :: int
  pd_updatedAt :: int

datatype policy_node = Node (node_data: policy_data) (node_children: "policy_node list")

type_synonym regex = "string \<Rightarrow> string \<Rightarrow> bool option"

section \<open>Routing as the repository previews it\<close>

definition matchesLabel :: "regex \<Rightarrow> string option \<Rightarrow> string \<Rightarrow> string \<Rightarrow> bool option" where
  "matchesLabel re labelValue operator matchValue =
     (let v = coalesce labelValue '''' in
      if operator = ''='' then Some (v = matchValue)
      else if operator = ''!='' then Some (v \<noteq> matchValue)
      else if operator = ''=~'' then re matchValue v
      else if operator = ''!~'' then map_option Not (re matchValue v)
      else Some False)"

fun every_option :: "('a \<Rightarrow> bool option) \<Rightarrow> 'a list \<Rightarrow> bool option" where
  "every_option f [] = Some True"
| "every_option f (x # xs) = (case f x of None \<Rightarrow> None | Some False \<Rightarrow> Some False | Some True \<Rightarrow> every_option f xs)"

definition nodeMatchesLabels :: "regex \<Rightarrow> policy_data \<Rightarrow> labels \<Rightarrow> bool option" where
  "nodeMatchesLabels re d ls = every_option (\<lambda>m. matchesLabel re (map_of ls (ma_label m)) (ma_operator m) (ma_value m)) (pd_matchers d)"

fun walkTree :: "regex \<Rightarrow> policy_node \<Rightarrow> labels \<Rightarrow> policy_data list option"
  and walkForest :: "regex \<Rightarrow> policy_node list \<Rightarrow> labels \<Rightarrow> policy_data list option" where
  "walkTree re (Node d cs) ls =
     (case (if pd_isDefault d then Some True else nodeMatchesLabels re d ls) of
        None \<Rightarrow> None
      | Some False \<Rightarrow> Some []
      | Some True \<Rightarrow> map_option (\<lambda>rs. d # rs) (walkForest re cs ls))"
| "walkForest re [] ls = Some []"
| "walkForest re (c # cs) ls =
     (case walkTree re c ls of None \<Rightarrow> None | Some a \<Rightarrow> map_option (\<lambda>b. a @ b) (walkForest re cs ls))"

record preview_route =
  pv_contactPointId :: string
  pv_groupBy :: "string list"
  pv_muteTimingIds :: "string list"

definition preview_of :: "policy_data \<Rightarrow> preview_route" where
  "preview_of d = \<lparr>pv_contactPointId = pd_contactPointId d, pv_groupBy = coalesce (pd_groupBy d) [],
     pv_muteTimingIds = coalesce (pd_muteTimingIds d) []\<rparr>"

fun routeIntoTree :: "regex \<Rightarrow> policy_node \<Rightarrow> labels \<Rightarrow> (bool \<times> preview_route list) option"
  and routeChildren :: "regex \<Rightarrow> policy_node list \<Rightarrow> labels \<Rightarrow> (bool \<times> preview_route list) option" where
  "routeIntoTree re (Node d cs) ls =
     (case (if pd_isDefault d then Some True else nodeMatchesLabels re d ls) of
        None \<Rightarrow> None
      | Some False \<Rightarrow> Some (False, [])
      | Some True \<Rightarrow>
          map_option (\<lambda>(childMatched, collected).
             (True, collected @ (if (\<not> childMatched \<or> pd_isDefault d) \<and> pd_contactPointId d \<noteq> '''' then [preview_of d] else [])))
           (routeChildren re cs ls))"
| "routeChildren re [] ls = Some (False, [])"
| "routeChildren re (c # cs) ls =
     (case routeIntoTree re c ls of
        None \<Rightarrow> None
      | Some (hit, collected) \<Rightarrow>
          if hit \<and> \<not> pd_continueMatching (node_data c) then Some (True, collected)
          else map_option (\<lambda>(h, rest). (hit \<or> h, collected @ rest)) (routeChildren re cs ls))"

subsection \<open>Mute timings\<close>

record local_date =
  ld_weekday :: int
  ld_day :: int
  ld_month :: int
  ld_year :: int
  ld_minute :: int

record time_interval =
  ti_timesOfDay :: "(int \<times> int) list"
  ti_weekdays :: "int list"
  ti_daysOfMonth :: "int list"
  ti_months :: "int list"
  ti_years :: "int list"
  ti_location :: "string option"

record mute_timing =
  mt_id :: string
  mt_name :: string
  mt_timeIntervals :: "time_interval list"
  mt_createdAt :: int
  mt_updatedAt :: int

definition leap_year :: "int \<Rightarrow> bool" where
  "leap_year y \<longleftrightarrow> y mod 4 = 0 \<and> (y mod 100 \<noteq> 0 \<or> y mod 400 = 0)"

definition days_in_month :: "int \<Rightarrow> int \<Rightarrow> int" where
  "days_in_month y m =
     (if m = 2 then (if leap_year y then 29 else 28) else if m \<in> {4, 6, 9, 11} then 30 else 31)"

definition intervalActive :: "(string \<Rightarrow> int \<Rightarrow> local_date) \<Rightarrow> time_interval \<Rightarrow> int \<Rightarrow> bool" where
  "intervalActive localDate interval now =
     (let d = localDate (coalesce (ti_location interval) ''UTC'') now in
      if ti_years interval \<noteq> [] \<and> ld_year d \<notin> set (ti_years interval) then False
      else if ti_months interval \<noteq> [] \<and> ld_month d \<notin> set (ti_months interval) then False
      else if ti_weekdays interval \<noteq> [] \<and> ld_weekday d \<notin> set (ti_weekdays interval) then False
      else if ti_daysOfMonth interval \<noteq> []
              \<and> ld_day d \<notin> set (map (\<lambda>n. if n < 0 then days_in_month (ld_year d) (ld_month d) + n + 1 else n) (ti_daysOfMonth interval)) then False
      else if ti_timesOfDay interval \<noteq> []
              \<and> \<not> list_ex (\<lambda>(a, b). a \<le> ld_minute d \<and> ld_minute d \<le> b) (ti_timesOfDay interval) then False
      else True)"

definition isMutedByTimings :: "(string \<Rightarrow> int \<Rightarrow> local_date) \<Rightarrow> string list \<Rightarrow> (string, mute_timing) js_map \<Rightarrow> int \<Rightarrow> bool" where
  "isMutedByTimings localDate ids timings now =
     list_ex (\<lambda>i. case map_of timings i of None \<Rightarrow> False
                  | Some mt \<Rightarrow> list_ex (\<lambda>iv. intervalActive localDate iv now) (mt_timeIntervals mt)) ids"

section \<open>The repository\<close>

record integration =
  in_id :: string
  in_type :: string
  in_name :: string
  in_settings :: "(string, string) js_map"

record contact_point =
  cp_id :: string
  cp_name :: string
  cp_integrations :: "integration list"
  cp_createdAt :: int
  cp_updatedAt :: int

record notification_db =
  nd_contactPoints :: "contact_point list"
  nd_tree :: "policy_node option"
  nd_muteTimings :: "mute_timing list"

definition createContactPoint :: "string \<Rightarrow> int \<Rightarrow> string \<Rightarrow> integration list \<Rightarrow> notification_db \<Rightarrow> (contact_point \<times> notification_db) result" where
  "createContactPoint random now name integrations db =
     (let row = \<lparr>cp_id = ''cp_'' @ take 12 random, cp_name = name, cp_integrations = integrations, cp_createdAt = now, cp_updatedAt = now\<rparr>
      in if list_ex (\<lambda>c. cp_id c = cp_id row) (nd_contactPoints db) then Inl ''UNIQUE constraint failed''
         else Inr (row, db\<lparr>nd_contactPoints := nd_contactPoints db @ [row]\<rparr>))"

definition findContactPointById :: "notification_db \<Rightarrow> string \<Rightarrow> contact_point option" where
  "findContactPointById db i = List.find (\<lambda>c. cp_id c = i) (nd_contactPoints db)"

definition updateContactPoint ::
  "int \<Rightarrow> string \<Rightarrow> string option \<Rightarrow> integration list option \<Rightarrow> notification_db \<Rightarrow> contact_point option \<times> notification_db" where
  "updateContactPoint now i name integrations db =
     (let db' = db\<lparr>nd_contactPoints := upd_where (\<lambda>c. cp_id c = i) (\<lambda>c. c\<lparr>cp_name := coalesce name (cp_name c),
            cp_integrations := coalesce integrations (cp_integrations c), cp_updatedAt := now\<rparr>) (nd_contactPoints db)\<rparr>
      in (findContactPointById db' i, db'))"

definition deleteContactPoint :: "string \<Rightarrow> notification_db \<Rightarrow> bool \<times> notification_db" where
  "deleteContactPoint i db =
     (list_ex (\<lambda>c. cp_id c = i) (nd_contactPoints db), db\<lparr>nd_contactPoints := del_where (\<lambda>c. cp_id c = i) (nd_contactPoints db)\<rparr>)"

definition defaultPolicyTree :: "int \<Rightarrow> policy_node" where
  "defaultPolicyTree now = Node \<lparr>pd_id = ''root'', pd_matchers = [], pd_contactPointId = '''', pd_groupBy = Some [''alertname''],
     pd_groupWaitSec = Some 30, pd_groupIntervalSec = Some 300, pd_repeatIntervalSec = Some 3600, pd_continueMatching = False,
     pd_muteTimingIds = Some [], pd_isDefault = True, pd_createdAt = now, pd_updatedAt = now\<rparr> []"

definition getPolicyTree :: "int \<Rightarrow> notification_db \<Rightarrow> policy_node" where
  "getPolicyTree now db = (case nd_tree db of None \<Rightarrow> defaultPolicyTree now | Some t \<Rightarrow> t)"

definition updatePolicyTree :: "int \<Rightarrow> policy_node \<Rightarrow> notification_db \<Rightarrow> notification_db" where
  "updatePolicyTree now tree db = db\<lparr>nd_tree := Some (Node ((node_data tree)\<lparr>pd_updatedAt := now\<rparr>) (node_children tree))\<rparr>"

fun findNodeById :: "policy_node \<Rightarrow> string \<Rightarrow> policy_node option"
  and findInForest :: "policy_node list \<Rightarrow> string \<Rightarrow> policy_node option" where
  "findNodeById (Node d cs) i = (if pd_id d = i then Some (Node d cs) else findInForest cs i)"
| "findInForest [] i = None"
| "findInForest (c # cs) i = (case findNodeById c i of Some n \<Rightarrow> Some n | None \<Rightarrow> findInForest cs i)"

text \<open>The source changes the node it found in place: the first one in this order.\<close>

fun alterNode :: "(policy_node \<Rightarrow> policy_node) \<Rightarrow> string \<Rightarrow> policy_node \<Rightarrow> policy_node"
  and alterForest :: "(policy_node \<Rightarrow> policy_node) \<Rightarrow> string \<Rightarrow> policy_node list \<Rightarrow> policy_node list" where
  "alterNode f i (Node d cs) = (if pd_id d = i then f (Node d cs) else Node d (alterForest f i cs))"
| "alterForest f i [] = []"
| "alterForest f i (c # cs) = (if findNodeById c i \<noteq> None then alterNode f i c # cs else c # alterForest f i cs)"

definition addChildPolicy :: "string \<Rightarrow> int \<Rightarrow> string \<Rightarrow> policy_data \<Rightarrow> notification_db \<Rightarrow> policy_node option \<times> notification_db" where
  "addChildPolicy random now parentId policy db =
     (let tree = getPolicyTree now db;
          newNode = Node (policy\<lparr>pd_id := take 12 random, pd_createdAt := now, pd_updatedAt := now\<rparr>) []
      in if findNodeById tree parentId = None then (None, db)
         else (Some newNode, updatePolicyTree now (alterNode (\<lambda>n. Node (node_data n) (node_children n @ [newNode])) parentId tree) db))"

text \<open>A patch of a node is any change of its fields but the identifier and the children.\<close>

definition node_updatePolicy :: "int \<Rightarrow> string \<Rightarrow> (policy_data \<Rightarrow> policy_data) \<Rightarrow> notification_db \<Rightarrow> policy_node option \<times> notification_db" where
  "node_updatePolicy now i patch db =
     (let tree = getPolicyTree now db;
          change = (\<lambda>n. Node ((patch (node_data n))\<lparr>pd_id := pd_id (node_data n), pd_createdAt := pd_createdAt (node_data n), pd_updatedAt := now\<rparr>)
                          (node_children n))
      in case findNodeById tree i of
           None \<Rightarrow> (None, db)
         | Some node \<Rightarrow> (Some (change node), updatePolicyTree now (alterNode change i tree) db))"

definition drop_child :: "string \<Rightarrow> policy_node list \<Rightarrow> policy_node list" where
  "drop_child i cs = takeWhile (\<lambda>c. pd_id (node_data c) \<noteq> i) cs @ tl (dropWhile (\<lambda>c. pd_id (node_data c) \<noteq> i) cs)"

fun removeNodeById :: "policy_node \<Rightarrow> string \<Rightarrow> bool \<times> policy_node"
  and removeInForest :: "policy_node list \<Rightarrow> string \<Rightarrow> bool \<times> policy_node list" where
  "removeNodeById (Node d cs) i =
     (if list_ex (\<lambda>c. pd_id (node_data c) = i) cs then (True, Node d (drop_child i cs))
      else (let (deleted, cs') = removeInForest cs i in (deleted, Node d cs')))"
| "removeInForest [] i = (False, [])"
| "removeInForest (c # cs) i =
     (case removeNodeById c i of
        (True, c') \<Rightarrow> (True, c' # cs)
      | (False, c') \<Rightarrow> (let (deleted, cs') = removeInForest cs i in (deleted, c' # cs')))"

definition node_deletePolicy :: "int \<Rightarrow> string \<Rightarrow> notification_db \<Rightarrow> bool \<times> notification_db" where
  "node_deletePolicy now i db =
     (if i = ''root'' then (False, db)
      else (case removeNodeById (getPolicyTree now db) i of
              (True, tree) \<Rightarrow> (True, updatePolicyTree now tree db) | (False, tree) \<Rightarrow> (False, db)))"

definition createMuteTiming :: "string \<Rightarrow> int \<Rightarrow> string \<Rightarrow> time_interval list \<Rightarrow> notification_db \<Rightarrow> (mute_timing \<times> notification_db) result" where
  "createMuteTiming random now name intervals db =
     (let row = \<lparr>mt_id = ''mute_'' @ take 12 random, mt_name = name, mt_timeIntervals = intervals, mt_createdAt = now, mt_updatedAt = now\<rparr>
      in if list_ex (\<lambda>m. mt_id m = mt_id row) (nd_muteTimings db) then Inl ''UNIQUE constraint failed''
         else Inr (row, db\<lparr>nd_muteTimings := nd_muteTimings db @ [row]\<rparr>))"

definition findMuteTimingById :: "notification_db \<Rightarrow> string \<Rightarrow> mute_timing option" where
  "findMuteTimingById db i = List.find (\<lambda>m. mt_id m = i) (nd_muteTimings db)"

definition updateMuteTiming ::
  "int \<Rightarrow> string \<Rightarrow> string option \<Rightarrow> time_interval list option \<Rightarrow> notification_db \<Rightarrow> mute_timing option \<times> notification_db" where
  "updateMuteTiming now i name intervals db =
     (let db' = db\<lparr>nd_muteTimings := upd_where (\<lambda>m. mt_id m = i) (\<lambda>m. m\<lparr>mt_name := coalesce name (mt_name m),
            mt_timeIntervals := coalesce intervals (mt_timeIntervals m), mt_updatedAt := now\<rparr>) (nd_muteTimings db)\<rparr>
      in (findMuteTimingById db' i, db'))"

definition deleteMuteTiming :: "string \<Rightarrow> notification_db \<Rightarrow> bool \<times> notification_db" where
  "deleteMuteTiming i db =
     (list_ex (\<lambda>m. mt_id m = i) (nd_muteTimings db), db\<lparr>nd_muteTimings := del_where (\<lambda>m. mt_id m = i) (nd_muteTimings db)\<rparr>)"

definition isMuted :: "(string \<Rightarrow> int \<Rightarrow> local_date) \<Rightarrow> string list \<Rightarrow> int \<Rightarrow> notification_db \<Rightarrow> bool" where
  "isMuted localDate ids now db = isMutedByTimings localDate ids (map (\<lambda>m. (mt_id m, m)) (nd_muteTimings db)) now"

definition routeAlert ::
  "regex \<Rightarrow> (string \<Rightarrow> int \<Rightarrow> local_date) \<Rightarrow> int \<Rightarrow> labels \<Rightarrow> notification_db \<Rightarrow> (string \<times> string list \<times> bool) list option" where
  "routeAlert re localDate now ls db =
     map_option (\<lambda>(hit, collected). map (\<lambda>c. (pv_contactPointId c, pv_groupBy c, isMuted localDate (pv_muteTimingIds c) now db)) collected)
       (routeIntoTree re (getPolicyTree now db) ls)"

end
