(* ===== verification/Notification_Consumer.thy ===== *)
theory Notification_Consumer
  imports Notifications Approvals
begin

text \<open>
  The notification consumer (\<^verbatim>\<open>api-gateway/src/services/notification-consumer.ts\<close>), which turns fired
  alerts and new approval requests into messages, the record of what was sent
  (\<^verbatim>\<open>data-layer/src/repository/sqlite/notification-dispatch.ts\<close>), and the wrapper of the approval
  repository that publishes new requests (\<^verbatim>\<open>services/publishing-approval-repository.ts\<close>).
  A sender is a parameter: it accepts a message, refuses it, or throws.  The results: the walk over
  the policy tree selects exactly the nodes the matching rules describe, an alert that matches is
  delivered, and no contact point hears of the same alert again within the shorter of the two intervals
  of its route after a delivery that was on record when the dispatch looked.  The consumer does not
  wait for one handling before it starts the next, so in the runs below handlings overlap.
\<close>

section \<open>Messages and the record of what was sent\<close>

record alert_notice =
  an_ruleId :: string
  an_ruleName :: string
  an_orgId :: string
  an_severity :: string
  an_value :: js_number
  an_threshold :: rat
  an_operator :: string
  an_labels :: labels
  an_firedAt :: int
  an_fingerprint :: string

fun operator_text :: "alert_operator \<Rightarrow> string" where
  "operator_text Gt = ''>''"
| "operator_text Ge = ''>=''"
| "operator_text Lt = ''<''"
| "operator_text Le = ''<=''"
| "operator_text Eq = ''==''"
| "operator_text Ne = ''!=''"

definition notice_of :: "alert_fired \<Rightarrow> alert_notice" where
  "notice_of e = \<lparr>an_ruleId = af_ruleId e, an_ruleName = af_ruleName e, an_orgId = af_orgId e, an_severity = af_severity e,
     an_value = af_value e, an_threshold = af_threshold e, an_operator = operator_text (af_operator e), an_labels = af_labels e,
     an_firedAt = af_firedAt e, an_fingerprint = af_fingerprint e\<rparr>"

record dispatch_row =
  dr_id :: string
  dr_orgId :: string
  dr_fingerprint :: string
  dr_contactPointId :: string
  dr_groupKey :: string
  dr_lastSentAt :: int
  dr_sentCount :: int

definition findByKey :: "dispatch_row list \<Rightarrow> string \<Rightarrow> string \<Rightarrow> string \<Rightarrow> string \<Rightarrow> dispatch_row option" where
  "findByKey t orgId fingerprint contactPointId groupKey =
     List.find (\<lambda>r. dr_orgId r = orgId \<and> dr_fingerprint r = fingerprint \<and> dr_contactPointId r = contactPointId \<and> dr_groupKey r = groupKey) t"

text \<open>
  The table is unique on the fingerprint, the contact point and the group key, whatever the
  organisation, and on the identifier.
\<close>

definition upsertSent ::
  "string \<Rightarrow> string \<Rightarrow> string \<Rightarrow> string \<Rightarrow> string \<Rightarrow> int \<Rightarrow> dispatch_row list \<Rightarrow> dispatch_row list result" where
  "upsertSent random orgId fingerprint contactPointId groupKey sentAt t =
     (case findByKey t orgId fingerprint contactPointId groupKey of
        Some existing \<Rightarrow>
          Inr (upd_where (\<lambda>r. dr_id r = dr_id existing) (\<lambda>r. r\<lparr>dr_lastSentAt := sentAt, dr_sentCount := dr_sentCount existing + 1\<rparr>) t)
      | None \<Rightarrow>
          (let row = \<lparr>dr_id = ''nd_'' @ take 12 random, dr_orgId = orgId, dr_fingerprint = fingerprint,
                 dr_contactPointId = contactPointId, dr_groupKey = groupKey, dr_lastSentAt = sentAt, dr_sentCount = 1\<rparr>
           in if list_ex (\<lambda>r. dr_id r = dr_id row \<or> dr_fingerprint r = fingerprint \<and> dr_contactPointId r = contactPointId
                   \<and> dr_groupKey r = groupKey) t
              then Inl ''UNIQUE constraint failed'' else Inr (t @ [row])))"

section \<open>Routes\<close>

record matched_route =
  mr_contactPointId :: string
  mr_groupBy :: "string list"
  mr_groupIntervalSec :: rat
  mr_repeatIntervalSec :: rat

definition DEFAULT_GROUP_INTERVAL_SEC :: rat where
  "DEFAULT_GROUP_INTERVAL_SEC = 300"

definition DEFAULT_REPEAT_INTERVAL_SEC :: rat where
  "DEFAULT_REPEAT_INTERVAL_SEC = 3600"

definition toRoute :: "policy_data \<Rightarrow> matched_route" where
  "toRoute d = \<lparr>mr_contactPointId = pd_contactPointId d, mr_groupBy = coalesce (pd_groupBy d) [],
     mr_groupIntervalSec = coalesce (pd_groupIntervalSec d) DEFAULT_GROUP_INTERVAL_SEC,
     mr_repeatIntervalSec = coalesce (pd_repeatIntervalSec d) DEFAULT_REPEAT_INTERVAL_SEC\<rparr>"

text \<open>An operator outside the four is no condition.  No value: a pattern does not compile.\<close>

fun matchersMatch :: "regex \<Rightarrow> matcher list \<Rightarrow> labels \<Rightarrow> bool option" where
  "matchersMatch re [] ls = Some True"
| "matchersMatch re (m # ms) ls =
     (let v = coalesce (map_of ls (ma_label m)) '''' in
      case (if ma_operator m = ''='' then Some (v = ma_value m)
            else if ma_operator m = ''!='' then Some (v \<noteq> ma_value m)
            else if ma_operator m = ''=~'' then re (ma_value m) v
            else if ma_operator m = ''!~'' then map_option Not (re (ma_value m) v)
            else Some True) of
        None \<Rightarrow> None | Some False \<Rightarrow> Some False | Some True \<Rightarrow> matchersMatch re ms ls)"

fun walk :: "regex \<Rightarrow> policy_node \<Rightarrow> labels \<Rightarrow> (bool \<times> matched_route list) option"
  and walk_children :: "regex \<Rightarrow> policy_node list \<Rightarrow> labels \<Rightarrow> (bool \<times> matched_route list) option" where
  "walk re (Node d cs) ls =
     map_option (\<lambda>(anyChildMatched, out).
        (anyChildMatched, out @ (if \<not> anyChildMatched \<and> pd_isDefault d \<and> pd_contactPointId d \<noteq> '''' then [toRoute d] else [])))
      (walk_children re cs ls)"
| "walk_children re [] ls = Some (False, [])"
| "walk_children re (c # cs) ls =
     (case matchersMatch re (pd_matchers (node_data c)) ls of
        None \<Rightarrow> None
      | Some False \<Rightarrow> walk_children re cs ls
      | Some True \<Rightarrow>
          (case walk re c ls of
             None \<Rightarrow> None
           | Some (m, inner) \<Rightarrow>
               if \<not> pd_continueMatching (node_data c) then Some (True, toRoute (node_data c) # inner)
               else map_option (\<lambda>(m', out). (True, toRoute (node_data c) # inner @ out)) (walk_children re cs ls)))"

definition collectMatchingRoutes :: "regex \<Rightarrow> policy_node \<Rightarrow> labels \<Rightarrow> matched_route list option" where
  "collectMatchingRoutes re tree ls = map_option snd (walk re tree ls)"

definition computeGroupKey :: "string list \<Rightarrow> labels \<Rightarrow> string" where
  "computeGroupKey groupBy ls =
     (if groupBy = [] then '''' else join_with ''|'' (map (\<lambda>label. coalesce (map_of ls label) '''') groupBy))"

datatype dispatch_decision = Send_now | Skip_group_window

definition decideDispatch :: "dispatch_row option \<Rightarrow> matched_route \<Rightarrow> int \<Rightarrow> dispatch_decision" where
  "decideDispatch existing route now =
     (case existing of
        None \<Rightarrow> Send_now
      | Some r \<Rightarrow>
          (let elapsedMs = now - dr_lastSentAt r in
           if dr_sentCount r > 0 \<and> of_int elapsedMs \<ge> mr_repeatIntervalSec route * 1000 then Send_now
           else if of_int elapsedMs < mr_groupIntervalSec route * 1000 then Skip_group_window
           else Send_now))"

section \<open>The consumer\<close>

type_synonym sender = "integration \<Rightarrow> alert_notice \<Rightarrow> bool option"

text \<open>
  What was sent is kept as a log: the key, the integrations that accepted the message, and the two
  readings of the clock, when the decision was taken and when the delivery was recorded.
\<close>

record sent_notice =
  se_orgId :: string
  se_fingerprint :: string
  se_contactPointId :: string
  se_groupKey :: string
  se_integrations :: "string list"
  se_decidedAt :: int
  se_sentAt :: int

record consumer_state =
  cs_db :: notification_db
  cs_dispatch :: "dispatch_row list"
  cs_sent :: "sent_notice list"

definition extractWebhookUrl :: "(string, string) js_map \<Rightarrow> string" where
  "extractWebhookUrl settings = coalesce (map_of settings ''url'') (coalesce (map_of settings ''webhookUrl'') '''')"

text \<open>
  The address check and the request are one parameter: the status of the response, or no value when
  either throws (an address that is not safe, a network failure, the timeout).
\<close>

definition postWebhook :: "(string \<Rightarrow> 'b \<Rightarrow> nat option) \<Rightarrow> integration \<Rightarrow> 'b \<Rightarrow> bool" where
  "postWebhook post i body =
     (let url = extractWebhookUrl (in_settings i) in
      if url = '''' then False
      else (case post url body of None \<Rightarrow> False | Some status \<Rightarrow> 200 \<le> status \<and> status \<le> 299))"

definition senderFor :: "(string \<Rightarrow> alert_notice \<Rightarrow> nat option) \<Rightarrow> string \<Rightarrow> sender option" where
  "senderFor post type =
     (if type \<in> {''slack'', ''webhook'', ''discord'', ''teams''} then Some (\<lambda>i payload. Some (postWebhook post i payload)) else None)"

definition accepts :: "(string \<Rightarrow> sender option) \<Rightarrow> alert_notice \<Rightarrow> integration \<Rightarrow> bool" where
  "accepts senders payload i = (case senders (in_type i) of None \<Rightarrow> False | Some send \<Rightarrow> send i payload = Some True)"

definition sendAndRecord ::
  "(string \<Rightarrow> sender option) \<Rightarrow> int \<Rightarrow> int \<Rightarrow> string \<Rightarrow> alert_notice \<Rightarrow> matched_route \<Rightarrow> string \<Rightarrow> consumer_state \<Rightarrow> consumer_state" where
  "sendAndRecord senders now sentAt random payload route groupKey st =
     (case findContactPointById (cs_db st) (mr_contactPointId route) of
        None \<Rightarrow> st
      | Some cp \<Rightarrow>
          (let accepted = filter (accepts senders payload) (cp_integrations cp) in
           if accepted = [] then st
           else st\<lparr>cs_sent := cs_sent st @ [\<lparr>se_orgId = an_orgId payload, se_fingerprint = an_fingerprint payload,
                    se_contactPointId = mr_contactPointId route, se_groupKey = groupKey, se_integrations = map in_id accepted,
                    se_decidedAt = now, se_sentAt = sentAt\<rparr>],
                  cs_dispatch := (case upsertSent random (an_orgId payload) (an_fingerprint payload) (mr_contactPointId route)
                       groupKey sentAt (cs_dispatch st) of
                     Inl e \<Rightarrow> cs_dispatch st | Inr t \<Rightarrow> t)\<rparr>))"

definition dispatchToContactPoint ::
  "(string \<Rightarrow> sender option) \<Rightarrow> int \<Rightarrow> int \<Rightarrow> string \<Rightarrow> alert_notice \<Rightarrow> matched_route \<Rightarrow> consumer_state \<Rightarrow> consumer_state" where
  "dispatchToContactPoint senders now sentAt random payload route st =
     (let groupKey = computeGroupKey (mr_groupBy route) (an_labels payload);
          existing = findByKey (cs_dispatch st) (an_orgId payload) (an_fingerprint payload) (mr_contactPointId route) groupKey
      in case decideDispatch existing route now of
           Skip_group_window \<Rightarrow> st
         | Send_now \<Rightarrow> sendAndRecord senders now sentAt random payload route groupKey st)"

fun unique_routes :: "string list \<Rightarrow> matched_route list \<Rightarrow> matched_route list" where
  "unique_routes seen [] = []"
| "unique_routes seen (r # rs) =
     (if mr_contactPointId r = '''' \<or> mr_contactPointId r \<in> set seen then unique_routes seen rs
      else r # unique_routes (mr_contactPointId r # seen) rs)"

text \<open>
  What one handling of an event reads from outside: the senders, and for every contact point the two
  readings of the clock and the random identifier.  The handling ends with no value when a pattern of
  the tree does not compile: the promise is rejected and the event is lost.
\<close>

record handling =
  ha_senders :: "string \<Rightarrow> sender option"
  ha_readAt :: int
  ha_now :: "string \<Rightarrow> int"
  ha_sentAt :: "string \<Rightarrow> int"
  ha_random :: "string \<Rightarrow> string"

definition dispatch_route :: "handling \<Rightarrow> alert_notice \<Rightarrow> matched_route \<Rightarrow> consumer_state \<Rightarrow> consumer_state" where
  "dispatch_route h payload route =
     (let c = mr_contactPointId route in dispatchToContactPoint (ha_senders h) (ha_now h c) (ha_sentAt h c) (ha_random h c) payload route)"

definition handle :: "regex \<Rightarrow> handling \<Rightarrow> alert_notice \<Rightarrow> consumer_state \<Rightarrow> consumer_state option" where
  "handle re h payload st =
     (case collectMatchingRoutes re (getPolicyTree (ha_readAt h) (cs_db st)) (an_labels payload) of
        None \<Rightarrow> None
      | Some routes \<Rightarrow> Some (fold (dispatch_route h payload) (unique_routes [] routes) st))"

section \<open>Approval requests\<close>

record approval_created =
  ac_approvalId :: string
  ac_orgId :: string
  ac_planId :: "string option"
  ac_investigationId :: "string option"
  ac_opsConnectorId :: "string option"
  ac_targetNamespace :: "string option"
  ac_requesterTeamId :: "string option"
  ac_summary :: string
  ac_severity :: "string option"
  ac_createdAt :: int

definition json_string :: "json option \<Rightarrow> string option" where
  "json_string v = (case v of Some (JStr s) \<Rightarrow> Some s | _ \<Rightarrow> None)"

definition deriveSummary :: "approval_action \<Rightarrow> (string \<times> json) list \<Rightarrow> string" where
  "deriveSummary act ctx =
     (case json_string (map_of ctx ''reason'') of
        Some (c # cs) \<Rightarrow> c # cs
      | _ \<Rightarrow> aa_type act @ '' on '' @ aa_targetService act)"

definition derivePlanId :: "approval_action \<Rightarrow> (string \<times> json) list \<Rightarrow> string option" where
  "derivePlanId act ctx =
     (if aa_type act = ''plan'' then json_string (map_of (aa_params act) ''planId'') else json_string (map_of ctx ''planId''))"

definition publishing_submit ::
  "string \<Rightarrow> string \<Rightarrow> int \<Rightarrow> submit_params \<Rightarrow> approval_sql_row list \<Rightarrow>
     (approval_request \<times> approval_sql_row list \<times> approval_created) result" where
  "publishing_submit orgId fresh now params t =
     res_bind (sql_submit fresh now params t) (\<lambda>(row, t').
       Inr (row, t', \<lparr>ac_approvalId = ar_id row, ac_orgId = orgId, ac_planId = derivePlanId (sp_action params) (sp_context params),
         ac_investigationId = json_string (map_of (sp_context params) ''investigationId''),
         ac_opsConnectorId = sp_opsConnectorId params, ac_targetNamespace = sp_targetNamespace params,
         ac_requesterTeamId = sp_requesterTeamId params, ac_summary = deriveSummary (sp_action params) (sp_context params),
         ac_severity = None, ac_createdAt = aq_createdAt row\<rparr>))"

definition approval_notice :: "approval_created \<Rightarrow> alert_notice" where
  "approval_notice p =
     \<lparr>an_ruleId = ac_approvalId p, an_ruleName = ''Approval pending: '' @ ac_summary p, an_orgId = ac_orgId p,
      an_severity = coalesce (ac_severity p) ''medium'', an_value = Fin 0, an_threshold = 0, an_operator = ''pending'',
      an_labels = (''approvalId'', ac_approvalId p)
        # (if truthy (ac_opsConnectorId p) then [(''connector'', the (ac_opsConnectorId p))] else [])
        @ (if truthy (ac_targetNamespace p) then [(''namespace'', the (ac_targetNamespace p))] else [])
        @ (if truthy (ac_requesterTeamId p) then [(''team'', the (ac_requesterTeamId p))] else []),
      an_firedAt = ac_createdAt p, an_fingerprint = ac_approvalId p\<rparr>"

definition approval_row_of :: "approval_created \<Rightarrow> approval_row" where
  "approval_row_of p = \<lparr>ar_id = ac_approvalId p, ar_opsConnectorId = ac_opsConnectorId p,
     ar_targetNamespace = ac_targetNamespace p, ar_requesterTeamId = ac_requesterTeamId p\<rparr>"

fun collect_teams :: "regex \<Rightarrow> policy_node \<Rightarrow> string list \<Rightarrow> matched_route list option" where
  "collect_teams re tree [] = Some []"
| "collect_teams re tree (t # ts) =
     (case collectMatchingRoutes re tree [(''team'', t)] of
        None \<Rightarrow> None
      | Some matched \<Rightarrow> map_option (\<lambda>rest. matched @ rest) (collect_teams re tree ts))"

definition approver_teams :: "rbac_db \<Rightarrow> (string \<times> string) list \<Rightarrow> approval_created \<Rightarrow> string list" where
  "approver_teams db orgUsers p =
     concat (map (\<lambda>u. map tm_teamId (team_member_listTeamsForUser db u (Some (ac_orgId p))))
       (findApprovers db orgUsers (ac_orgId p) (approval_row_of p)))"

definition handleApprovalCreated ::
  "regex \<Rightarrow> bool \<Rightarrow> rbac_db \<Rightarrow> (string \<times> string) list \<Rightarrow> handling \<Rightarrow> approval_created \<Rightarrow> consumer_state \<Rightarrow> consumer_state option" where
  "handleApprovalCreated re wired db orgUsers h p st =
     (if \<not> wired then Some st
      else if findApprovers db orgUsers (ac_orgId p) (approval_row_of p) = [] then Some st
      else (case collect_teams re (getPolicyTree (ha_readAt h) (cs_db st)) (approver_teams db orgUsers p) of
              None \<Rightarrow> None
            | Some routes \<Rightarrow> Some (fold (dispatch_route h (approval_notice p)) (unique_routes [] routes) st)))"

section \<open>What the walk selects\<close>

definition node_matches :: "regex \<Rightarrow> labels \<Rightarrow> policy_node \<Rightarrow> bool" where
  "node_matches re ls n \<longleftrightarrow> matchersMatch re (pd_matchers (node_data n)) ls = Some True"

text \<open>A child is selected when it matches and every sibling before it that matches lets the walk continue.\<close>

definition selects :: "regex \<Rightarrow> labels \<Rightarrow> policy_node \<Rightarrow> policy_node \<Rightarrow> bool" where
  "selects re ls n c \<longleftrightarrow>
     (\<exists>pre post. node_children n = pre @ c # post \<and> node_matches re ls c
        \<and> (\<forall>x\<in>set pre. node_matches re ls x \<longrightarrow> pd_continueMatching (node_data x)))"

definition falls_back :: "regex \<Rightarrow> labels \<Rightarrow> policy_node \<Rightarrow> bool" where
  "falls_back re ls n \<longleftrightarrow> pd_isDefault (node_data n) \<and> pd_contactPointId (node_data n) \<noteq> ''''
     \<and> (\<forall>c\<in>set (node_children n). \<not> node_matches re ls c)"

fun selected :: "regex \<Rightarrow> labels \<Rightarrow> policy_node list \<Rightarrow> policy_node list" where
  "selected re ls [] = []"
| "selected re ls (c # cs) =
     (if node_matches re ls c then c # (if pd_continueMatching (node_data c) then selected re ls cs else []) else selected re ls cs)"

lemma set_selected:
  "c \<in> set (selected re ls cs) \<longleftrightarrow>
     (\<exists>pre post. cs = pre @ c # post \<and> node_matches re ls c \<and> (\<forall>x\<in>set pre. node_matches re ls x \<longrightarrow> pd_continueMatching (node_data x)))"
proof (induction cs)
  case (Cons d cs)
  show ?case
    unfolding selected.simps by (subst Cons_eq_append_conv) (use Cons.IH in \<open>auto 4 3 simp: Bex_def\<close>)
qed simp

lemma selects_iff: "selects re ls n c \<longleftrightarrow> c \<in> set (selected re ls (node_children n))"
  by (simp add: selects_def set_selected)

lemma selected_Nil: "selected re ls cs = [] \<longleftrightarrow> (\<forall>c\<in>set cs. \<not> node_matches re ls c)"
  by (induction cs) auto

definition routes_of :: "regex \<Rightarrow> labels \<Rightarrow> policy_node \<Rightarrow> matched_route set" where
  "routes_of re ls n = (case walk re n ls of None \<Rightarrow> {} | Some (m, out) \<Rightarrow> set out)"

lemma routes_of_Some: "walk re n ls = Some (m, out) \<Longrightarrow> routes_of re ls n = set out"
  by (simp add: routes_of_def)

lemma walk_children_selected:
  "walk_children re cs ls = Some (m, out) \<Longrightarrow>
     m = (selected re ls cs \<noteq> []) \<and> set out = (\<Union>c\<in>set (selected re ls cs). insert (toRoute (node_data c)) (routes_of re ls c))"
proof (induction cs arbitrary: m out)
  case (Cons a cs)
  consider "matchersMatch re (pd_matchers (node_data a)) ls = Some False"
    | m1 inner where "matchersMatch re (pd_matchers (node_data a)) ls = Some True" "walk re a ls = Some (m1, inner)"
    using Cons.prems by (auto split: option.splits bool.splits)
  then show ?case
  proof cases
    case 1
    then show ?thesis using Cons.prems Cons.IH by (simp add: node_matches_def)
  next
    case 2
    show ?thesis
    proof (cases "pd_continueMatching (node_data a)")
      case True
      obtain m2 out2 where "walk_children re cs ls = Some (m2, out2)" "out = toRoute (node_data a) # inner @ out2" "m"
        using Cons.prems True 2 by auto
      then show ?thesis using Cons.IH 2 True by (auto simp: node_matches_def routes_of_Some)
    next
      case False
      then show ?thesis using Cons.prems 2 by (auto simp: node_matches_def routes_of_Some)
    qed
  qed
qed simp

lemma walk_selected:
  assumes "walk re n ls = Some (m, out)" "selects re ls n c"
  shows "\<exists>m' out'. walk re c ls = Some (m', out')"
proof (cases n)
  case (Node d cs)
  have "walk_children re cs ls = Some (m, out) \<Longrightarrow> c \<in> set (selected re ls cs) \<Longrightarrow> \<exists>m' out'. walk re c ls = Some (m', out')" for m out
    by (induction cs arbitrary: m out) (auto simp: node_matches_def split: option.splits bool.splits if_splits)
  then show ?thesis using assms by (auto simp: Node selects_iff)
qed

lemma routes_step:
  assumes "walk re n ls = Some (m, out)"
  shows "set out = (\<Union>c\<in>{c. selects re ls n c}. insert (toRoute (node_data c)) (routes_of re ls c))
     \<union> (if falls_back re ls n then {toRoute (node_data n)} else {})"
proof (cases n)
  case (Node d cs)
  obtain m1 out1 where w: "walk_children re cs ls = Some (m1, out1)"
    and out: "out = out1 @ (if \<not> m1 \<and> pd_isDefault d \<and> pd_contactPointId d \<noteq> '''' then [toRoute d] else [])"
    using assms by (auto simp: Node)
  show ?thesis
    using walk_children_selected [OF w] by (auto simp: out Node selects_iff falls_back_def selected_Nil)
qed

lemma routes_closure:
  assumes "walk re n ls = Some (m, out)"
  shows "set out = (\<lambda>x. toRoute (node_data x)) `
     ({x. (selects re ls)\<^sup>+\<^sup>+ n x} \<union> {x. (selects re ls)\<^sup>*\<^sup>* n x \<and> falls_back re ls x})"
  using assms
proof (induction n arbitrary: m out)
  case (Node d cs)
  let ?S = "selects re ls" and ?r = "\<lambda>x. toRoute (node_data x)"
  let ?R = "\<lambda>n. ?r ` ({x. ?S\<^sup>+\<^sup>+ n x} \<union> {x. ?S\<^sup>*\<^sup>* n x \<and> falls_back re ls x})"
  have below: "routes_of re ls c = ?R c" if sel: "?S (Node d cs) c" for c
  proof -
    from sel have c: "c \<in> set cs" by (auto simp: selects_def)
    obtain m' out' where "walk re c ls = Some (m', out')" using walk_selected [OF Node.prems sel] by blast
    then show ?thesis using Node.IH [OF c] by (simp add: routes_of_def)
  qed
  have plus: "?S\<^sup>+\<^sup>+ n x \<longleftrightarrow> (\<exists>c. ?S n c \<and> (x = c \<or> ?S\<^sup>+\<^sup>+ c x))" for n x
    by (metis tranclp.r_into_trancl tranclpD rtranclpD tranclp_into_tranclp2)
  have star: "?S\<^sup>*\<^sup>* n x \<longleftrightarrow> x = n \<or> (\<exists>c. ?S n c \<and> ?S\<^sup>*\<^sup>* c x)" for n x
    by (metis converse_rtranclpE converse_rtranclp_into_rtranclp rtranclp.rtrancl_refl)
  have "set out = (\<Union>c\<in>{c. ?S (Node d cs) c}. insert (?r c) (?R c)) \<union> (if falls_back re ls (Node d cs) then {?r (Node d cs)} else {})"
    using routes_step [OF Node.prems] below by simp
  also have "\<dots> = ?R (Node d cs)"
    unfolding plus [of "Node d cs"] star [of "Node d cs"] by auto (rule image_eqI [of _ _ "Node d cs"], auto)
  finally show ?case .
qed

text \<open>
  C19. The routes of an alert are exactly those of the policy nodes the rules select: from the root, a
  child that matches while every earlier matching sibling continues, and so on below it; and a
  default node with a contact point none of whose children match stands for them.  So an alert is
  routed whenever the root is a default policy with a contact point.
\<close>

theorem routes_exact:
  assumes "collectMatchingRoutes re tree ls = Some routes"
  shows "set routes = (\<lambda>n. toRoute (node_data n)) `
       ({n. (selects re ls)\<^sup>+\<^sup>+ tree n} \<union> {n. (selects re ls)\<^sup>*\<^sup>* tree n \<and> falls_back re ls n})
     \<and> (pd_isDefault (node_data tree) \<and> pd_contactPointId (node_data tree) \<noteq> '''' \<longrightarrow> routes \<noteq> [])"
proof (intro conjI impI)
  obtain m where w: "walk re tree ls = Some (m, routes)"
    using assms by (auto simp: collectMatchingRoutes_def)
  show "set routes = (\<lambda>n. toRoute (node_data n)) `
       ({n. (selects re ls)\<^sup>+\<^sup>+ tree n} \<union> {n. (selects re ls)\<^sup>*\<^sup>* tree n \<and> falls_back re ls n})"
    by (rule routes_closure [OF w])
  assume "pd_isDefault (node_data tree) \<and> pd_contactPointId (node_data tree) \<noteq> ''''"
  then show "routes \<noteq> []"
    using routes_step [OF w] selected_Nil [of re ls "node_children tree"]
    by (cases "selected re ls (node_children tree)") (auto simp: falls_back_def selects_iff)
qed

section \<open>One delivery\<close>

definition same_key :: "dispatch_row \<Rightarrow> string \<times> string \<times> string \<times> string \<Rightarrow> bool" where
  "same_key r k \<longleftrightarrow> (dr_orgId r, dr_fingerprint r, dr_contactPointId r, dr_groupKey r) = k"

text \<open>
  The table as the consumer keeps it: identifiers are unique, every row has been sent at least once,
  and a fingerprint belongs to one organisation (it names the rule or the request).
\<close>

definition dispatch_ok :: "(string \<Rightarrow> string) \<Rightarrow> dispatch_row list \<Rightarrow> bool" where
  "dispatch_ok org t \<longleftrightarrow> distinct (map dr_id t) \<and> (\<forall>r\<in>set t. dr_sentCount r > 0 \<and> dr_orgId r = org (dr_fingerprint r))"

lemma find_append: "List.find P (xs @ ys) = (case List.find P xs of None \<Rightarrow> List.find P ys | Some x \<Rightarrow> Some x)"
  by (induction xs) auto

lemma findByKey_same: "findByKey t a b c d = List.find (\<lambda>r. same_key r (a, b, c, d)) t"
  by (simp add: findByKey_def same_key_def)

lemma findByKey_SomeD: "findByKey t a b c d = Some r \<Longrightarrow> r \<in> set t \<and> same_key r (a, b, c, d)"
  unfolding findByKey_same by (rule find_Some_set)

lemma upsert_lookup:
  assumes ok: "dispatch_ok org t" and up: "upsertSent random a b c d sentAt t = Inr t'"
  shows "\<exists>row. dr_lastSentAt row = sentAt \<and> dr_sentCount row > 0 \<and>
     (\<forall>a' b' c' d'. findByKey t' a' b' c' d' = (if (a', b', c', d') = (a, b, c, d) then Some row else findByKey t a' b' c' d'))"
proof (cases "findByKey t a b c d")
  case None
  let ?row = "\<lparr>dr_id = ''nd_'' @ take 12 random, dr_orgId = a, dr_fingerprint = b, dr_contactPointId = c, dr_groupKey = d,
    dr_lastSentAt = sentAt, dr_sentCount = 1\<rparr>"
  have "t' = t @ [?row]" using up None by (auto simp: upsertSent_def Let_def split: if_splits)
  then show ?thesis
    using None by (intro exI [of _ ?row]) (auto simp: findByKey_same find_append same_key_def split: option.splits)
next
  case (Some r)
  let ?f = "\<lambda>x. x\<lparr>dr_lastSentAt := sentAt, dr_sentCount := dr_sentCount r + 1\<rparr>"
  have t': "t' = upd_where (\<lambda>x. dr_id x = dr_id r) ?f t" using up Some by (simp add: upsertSent_def)
  have r: "r \<in> set t" "same_key r (a, b, c, d)" "dr_sentCount r > 0"
    using findByKey_SomeD [OF Some] ok by (auto simp: dispatch_ok_def)
  have "findByKey t' a' b' c' d' = map_option (\<lambda>x. if dr_id x = dr_id r then ?f x else x) (findByKey t a' b' c' d')" for a' b' c' d'
    unfolding t' findByKey_def by (rule find_upd_where) auto
  moreover have "dr_id x \<noteq> dr_id r" if "findByKey t a' b' c' d' = Some x" "(a', b', c', d') \<noteq> (a, b, c, d)" for x a' b' c' d'
  proof -
    have "x \<in> set t" "x \<noteq> r" using findByKey_SomeD [OF that(1)] that(2) r(2) by (auto simp: same_key_def)
    then show ?thesis using r(1) ok by (auto simp: dispatch_ok_def distinct_map inj_on_def)
  qed
  ultimately show ?thesis
    using Some r(3) by (intro exI [of _ "?f r"]) (auto split: option.splits simp: map_option_case)
qed

lemma upsert_ok:
  assumes "dispatch_ok org t" "a = org b" "upsertSent random a b c d sentAt t = Inr t'"
  shows "dispatch_ok org t'"
proof (cases "findByKey t a b c d")
  case None
  then show ?thesis using assms by (auto simp: dispatch_ok_def upsertSent_def Let_def list_ex_iff split: if_splits) blast
next
  case (Some r)
  then have "dr_sentCount r > 0" using assms(1) by (auto simp: dispatch_ok_def dest: findByKey_SomeD)
  then show ?thesis using assms Some
    by (auto simp: dispatch_ok_def upsertSent_def map_upd_where_key set_upd_where)
qed

lemma upsert_succeeds:
  assumes "dispatch_ok org t" "a = org b" "''nd_'' @ take 12 random \<notin> dr_id ` set t"
  shows "\<exists>t'. upsertSent random a b c d sentAt t = Inr t'"
proof (cases "findByKey t a b c d")
  case None
  then have "\<not> same_key r (a, b, c, d)" if "r \<in> set t" for r using that by (simp add: findByKey_same find_None_set)
  then show ?thesis
    using None assms by (auto simp: upsertSent_def Let_def list_ex_iff same_key_def dispatch_ok_def image_iff)
qed (simp add: upsertSent_def)

text \<open>A key is due when it was never sent, or when the shorter of the route's two intervals has passed.\<close>

definition gap :: "matched_route \<Rightarrow> rat" where
  "gap route = min (mr_groupIntervalSec route) (mr_repeatIntervalSec route) * 1000"

definition due :: "dispatch_row list \<Rightarrow> alert_notice \<Rightarrow> matched_route \<Rightarrow> int \<Rightarrow> bool" where
  "due t payload route now =
     (case findByKey t (an_orgId payload) (an_fingerprint payload) (mr_contactPointId route)
             (computeGroupKey (mr_groupBy route) (an_labels payload)) of
        None \<Rightarrow> True
      | Some r \<Rightarrow> gap route \<le> of_int (now - dr_lastSentAt r))"

definition accepting :: "(string \<Rightarrow> sender option) \<Rightarrow> alert_notice \<Rightarrow> notification_db \<Rightarrow> string \<Rightarrow> string list" where
  "accepting senders payload db c =
     (case findContactPointById db c of
        None \<Rightarrow> [] | Some cp \<Rightarrow> map in_id (filter (accepts senders payload) (cp_integrations cp)))"

definition delivery :: "handling \<Rightarrow> alert_notice \<Rightarrow> notification_db \<Rightarrow> matched_route \<Rightarrow> sent_notice" where
  "delivery h payload db route =
     (let c = mr_contactPointId route in
      \<lparr>se_orgId = an_orgId payload, se_fingerprint = an_fingerprint payload, se_contactPointId = c,
       se_groupKey = computeGroupKey (mr_groupBy route) (an_labels payload),
       se_integrations = accepting (ha_senders h) payload db c, se_decidedAt = ha_now h c, se_sentAt = ha_sentAt h c\<rparr>)"

definition delivers :: "handling \<Rightarrow> alert_notice \<Rightarrow> consumer_state \<Rightarrow> matched_route \<Rightarrow> bool" where
  "delivers h payload st route \<longleftrightarrow>
     accepting (ha_senders h) payload (cs_db st) (mr_contactPointId route) \<noteq> []
     \<and> due (cs_dispatch st) payload route (ha_now h (mr_contactPointId route))"

lemma decide_due:
  assumes "dispatch_ok org t"
  shows "decideDispatch (findByKey t (an_orgId p) (an_fingerprint p) (mr_contactPointId r) (computeGroupKey (mr_groupBy r) (an_labels p))) r now
     = (if due t p r now then Send_now else Skip_group_window)"
  using assms by (auto simp: decideDispatch_def due_def gap_def dispatch_ok_def min_def split: option.splits dest!: findByKey_SomeD)

definition recorded :: "handling \<Rightarrow> alert_notice \<Rightarrow> matched_route \<Rightarrow> dispatch_row list \<Rightarrow> dispatch_row list result" where
  "recorded h payload route t =
     upsertSent (ha_random h (mr_contactPointId route)) (an_orgId payload) (an_fingerprint payload) (mr_contactPointId route)
       (computeGroupKey (mr_groupBy route) (an_labels payload)) (ha_sentAt h (mr_contactPointId route)) t"

lemma dispatch_route_effect:
  assumes "dispatch_ok org (cs_dispatch st)"
  shows "dispatch_route h p r st =
     (if delivers h p st r
      then st\<lparr>cs_sent := cs_sent st @ [delivery h p (cs_db st) r],
              cs_dispatch := (case recorded h p r (cs_dispatch st) of Inl e \<Rightarrow> cs_dispatch st | Inr t \<Rightarrow> t)\<rparr>
      else st)"
  using assms unfolding dispatch_route_def dispatchToContactPoint_def Let_def decide_due [OF assms]
  by (simp add: sendAndRecord_def delivers_def accepting_def delivery_def recorded_def Let_def split: option.splits)

lemma dispatch_route_ok:
  assumes "dispatch_ok org (cs_dispatch st)" "an_orgId p = org (an_fingerprint p)"
  shows "dispatch_ok org (cs_dispatch (dispatch_route h p r st))"
  using assms upsert_ok [OF assms] by (auto simp: dispatch_route_effect [OF assms(1)] recorded_def split: sum.splits)

lemma dispatch_route_frame:
  assumes "dispatch_ok org (cs_dispatch st)" "mr_contactPointId r' \<noteq> mr_contactPointId r"
  shows "delivers h p (dispatch_route h p r st) r' \<longleftrightarrow> delivers h p st r'"
    and "cs_db (dispatch_route h p r st) = cs_db st"
proof -
  have other: "findByKey t a b (mr_contactPointId r') d = findByKey (cs_dispatch st) a b (mr_contactPointId r') d"
    if "recorded h p r (cs_dispatch st) = Inr t" for t a b d
    using upsert_lookup [OF assms(1) that [unfolded recorded_def]] assms(2) by auto
  show "cs_db (dispatch_route h p r st) = cs_db st"
    by (simp add: dispatch_route_effect [OF assms(1)])
  then show "delivers h p (dispatch_route h p r st) r' \<longleftrightarrow> delivers h p st r'"
    by (simp add: delivers_def due_def dispatch_route_effect [OF assms(1)] other split: sum.splits)
qed

lemma unique_routes_subset: "set (unique_routes seen rs) \<subseteq> set rs"
  by (induction rs arbitrary: seen) auto

lemma unique_routes_set:
  "mr_contactPointId ` set (unique_routes seen rs) = mr_contactPointId ` set rs - insert '''' (set seen)"
  by (induction rs arbitrary: seen) auto

lemma unique_routes_distinct: "distinct (map mr_contactPointId (unique_routes seen rs))"
proof (induction rs arbitrary: seen)
  case (Cons r rs)
  then show ?case using unique_routes_set [of "mr_contactPointId r # seen" rs] by auto
qed simp

lemma dispatch_routes_effect:
  assumes "dispatch_ok org (cs_dispatch st)" "an_orgId p = org (an_fingerprint p)" "distinct (map mr_contactPointId rs)"
  shows "cs_sent (fold (dispatch_route h p) rs st) = cs_sent st @ map (delivery h p (cs_db st)) (filter (delivers h p st) rs)
     \<and> cs_db (fold (dispatch_route h p) rs st) = cs_db st
     \<and> dispatch_ok org (cs_dispatch (fold (dispatch_route h p) rs st))"
  using assms
proof (induction rs arbitrary: st)
  case (Cons r rs)
  let ?st = "dispatch_route h p r st"
  note ok = dispatch_route_ok [OF Cons.prems(1,2)] and eff = dispatch_route_effect [OF Cons.prems(1)]
  have "delivers h p ?st r' = delivers h p st r'" if "r' \<in> set rs" for r'
    using that Cons.prems(3) by (intro dispatch_route_frame(1) [OF Cons.prems(1)]) (auto simp: image_iff)
  then have "filter (delivers h p ?st) rs = filter (delivers h p st) rs" by (simp cong: filter_cong)
  moreover have "cs_db ?st = cs_db st" by (simp add: eff)
  moreover have "cs_sent ?st = cs_sent st @ (if delivers h p st r then [delivery h p (cs_db st) r] else [])" by (simp add: eff)
  ultimately show ?case using Cons.IH [OF ok Cons.prems(2)] Cons.prems(3) by simp
qed simp

text \<open>
  C20. Handling a fired alert delivers it: every contact point the routes name, except the empty name,
  is considered once, with the settings of its first route, and is sent the alert exactly when one of
  its integrations accepts it and its key is due; nothing else is sent, and a sender that refuses or
  throws does not keep the others from being tried.
\<close>

theorem alert_delivered:
  assumes "dispatch_ok org (cs_dispatch st)" "an_orgId p = org (an_fingerprint p)"
    and "collectMatchingRoutes re (getPolicyTree (ha_readAt h) (cs_db st)) (an_labels p) = Some routes"
  shows "(\<exists>st'. handle re h p st = Some st'
       \<and> cs_sent st' = cs_sent st @ map (delivery h p (cs_db st)) (filter (delivers h p st) (unique_routes [] routes)))
     \<and> distinct (map mr_contactPointId (unique_routes [] routes))
     \<and> mr_contactPointId ` set (unique_routes [] routes) = mr_contactPointId ` set routes - {''''}"
  using dispatch_routes_effect [OF assms(1,2) unique_routes_distinct] assms(3) unique_routes_distinct [of "[]" routes]
    unique_routes_set [of "[]" routes]
  by (auto simp: handle_def)

section \<open>How often a contact point is told\<close>

definition sent_key :: "sent_notice \<Rightarrow> string \<times> string \<times> string \<times> string" where
  "sent_key e = (se_orgId e, se_fingerprint e, se_contactPointId e, se_groupKey e)"

text \<open>
  The two halves of a dispatch to a contact point: the look at the record of the key, with the
  decision, and the sending with the new record.  Between them the consumer awaits the database and
  the senders, so the halves of other dispatches come in between: the subscription does not wait for one
  event to be handled before the next.
\<close>

definition looks_due :: "handling \<Rightarrow> alert_notice \<Rightarrow> matched_route \<Rightarrow> consumer_state \<Rightarrow> bool" where
  "looks_due h p r st \<longleftrightarrow> decideDispatch (findByKey (cs_dispatch st) (an_orgId p) (an_fingerprint p) (mr_contactPointId r)
     (computeGroupKey (mr_groupBy r) (an_labels p))) r (ha_now h (mr_contactPointId r)) = Send_now"

definition send_route :: "handling \<Rightarrow> alert_notice \<Rightarrow> matched_route \<Rightarrow> consumer_state \<Rightarrow> consumer_state" where
  "send_route h p r st = (let c = mr_contactPointId r in
     sendAndRecord (ha_senders h) (ha_now h c) (ha_sentAt h c) (ha_random h c) p r (computeGroupKey (mr_groupBy r) (an_labels p)) st)"

lemma dispatch_route_halves: "dispatch_route h p r st = (if looks_due h p r st then send_route h p r st else st)"
  by (simp add: dispatch_route_def dispatchToContactPoint_def looks_due_def send_route_def Let_def split: dispatch_decision.split)

lemma send_route_effect:
  "send_route h p r st =
     (if accepting (ha_senders h) p (cs_db st) (mr_contactPointId r) \<noteq> []
      then st\<lparr>cs_sent := cs_sent st @ [delivery h p (cs_db st) r],
              cs_dispatch := (case recorded h p r (cs_dispatch st) of Inl e \<Rightarrow> cs_dispatch st | Inr t \<Rightarrow> t)\<rparr>
      else st)"
  by (simp add: send_route_def sendAndRecord_def accepting_def delivery_def recorded_def Let_def split: option.splits)

text \<open>
  A run of the consumer: its state, the time, the dispatches that have looked and not yet sent, each
  with the number of deliveries there were when it looked, and for every delivery its route and that
  number.
\<close>

record consumer_run =
  cr_state :: consumer_state
  cr_now :: int
  cr_pending :: "(handling \<times> alert_notice \<times> matched_route \<times> nat) list"
  cr_log :: "(matched_route \<times> nat) list"

text \<open>
  The clock does not go back, the identifier drawn for a record is new, the intervals of a route are
  not negative, and a fingerprint is of one organisation.  The configuration may change at any time.
\<close>

inductive consumer_event :: "(string \<Rightarrow> string) \<Rightarrow> consumer_run \<Rightarrow> consumer_run \<Rightarrow> bool" for org where
  looks: "an_orgId p = org (an_fingerprint p) \<Longrightarrow> 0 \<le> gap r \<Longrightarrow> cr_now s \<le> ha_now h (mr_contactPointId r) \<Longrightarrow>
     looks_due h p r (cr_state s) \<Longrightarrow>
     consumer_event org s (s\<lparr>cr_now := ha_now h (mr_contactPointId r),
       cr_pending := (h, p, r, length (cs_sent (cr_state s))) # cr_pending s\<rparr>)"
| sends: "(h, p, r, n) \<in> set (cr_pending s) \<Longrightarrow> cr_now s \<le> ha_sentAt h (mr_contactPointId r) \<Longrightarrow>
     ''nd_'' @ take 12 (ha_random h (mr_contactPointId r)) \<notin> dr_id ` set (cs_dispatch (cr_state s)) \<Longrightarrow>
     st' = send_route h p r (cr_state s) \<Longrightarrow>
     consumer_event org s \<lparr>cr_state = st', cr_now = ha_sentAt h (mr_contactPointId r), cr_pending = remove1 (h, p, r, n) (cr_pending s),
       cr_log = cr_log s @ (if cs_sent st' = cs_sent (cr_state s) then [] else [(r, n)])\<rparr>"
| waits: "cr_now s \<le> now \<Longrightarrow> consumer_event org s (s\<lparr>cr_now := now\<rparr>)"
| configuration: "consumer_event org s (s\<lparr>cr_state := (cr_state s)\<lparr>cs_db := db\<rparr>\<rparr>)"

text \<open>A dispatch is a look and, when due, a sending right after it: handlings one after the other are runs too.\<close>

lemma dispatch_is_run:
  assumes "an_orgId p = org (an_fingerprint p)" "0 \<le> gap r" "cr_now s \<le> ha_now h (mr_contactPointId r)"
    and "ha_now h (mr_contactPointId r) \<le> ha_sentAt h (mr_contactPointId r)"
    and "''nd_'' @ take 12 (ha_random h (mr_contactPointId r)) \<notin> dr_id ` set (cs_dispatch (cr_state s))"
  shows "\<exists>s'. (consumer_event org)\<^sup>*\<^sup>* s s' \<and> cr_state s' = dispatch_route h p r (cr_state s) \<and> cr_pending s' = cr_pending s
     \<and> cr_now s' \<le> max (cr_now s) (ha_sentAt h (mr_contactPointId r))
     \<and> cr_log s' = cr_log s @ (if cs_sent (cr_state s') = cs_sent (cr_state s) then [] else [(r, length (cs_sent (cr_state s)))])"
proof (cases "looks_due h p r (cr_state s)")
  case True
  let ?n = "length (cs_sent (cr_state s))"
  let ?s1 = "s\<lparr>cr_now := ha_now h (mr_contactPointId r), cr_pending := (h, p, r, ?n) # cr_pending s\<rparr>"
  have "consumer_event org s ?s1" using assms(1-3) True by (intro consumer_event.looks)
  moreover define s2 where "s2 = \<lparr>cr_state = send_route h p r (cr_state ?s1), cr_now = ha_sentAt h (mr_contactPointId r),
      cr_pending = remove1 (h, p, r, ?n) (cr_pending ?s1),
      cr_log = cr_log ?s1 @ (if cs_sent (send_route h p r (cr_state ?s1)) = cs_sent (cr_state ?s1) then [] else [(r, ?n)])\<rparr>"
  moreover have "consumer_event org ?s1 s2"
    unfolding s2_def using assms(4,5) by (intro consumer_event.sends [OF _ _ _ refl]) simp_all
  ultimately have "(consumer_event org)\<^sup>*\<^sup>* s s2" by (meson converse_rtranclp_into_rtranclp r_into_rtranclp)
  then show ?thesis using True by (intro exI [of _ s2]) (simp add: s2_def dispatch_route_halves)
next
  case False
  then show ?thesis by (intro exI [of _ s]) (simp add: dispatch_route_halves)
qed

definition same_alert :: "alert_notice \<Rightarrow> matched_route \<Rightarrow> sent_notice \<Rightarrow> bool" where
  "same_alert p r e \<longleftrightarrow> sent_key e = (an_orgId p, an_fingerprint p, mr_contactPointId r, computeGroupKey (mr_groupBy r) (an_labels p))"

definition spaced :: "sent_notice list \<Rightarrow> (matched_route \<times> nat) list \<Rightarrow> nat \<Rightarrow> bool" where
  "spaced sent lg j \<longleftrightarrow> (case lg ! j of (r, n) \<Rightarrow> n \<le> j \<and> se_contactPointId (sent ! j) = mr_contactPointId r
     \<and> (\<forall>i<n. sent_key (sent ! i) = sent_key (sent ! j) \<longrightarrow> of_int (se_sentAt (sent ! i)) + gap r \<le> of_int (se_decidedAt (sent ! j))))"

definition pending_ok :: "(string \<Rightarrow> string) \<Rightarrow> sent_notice list \<Rightarrow> handling \<times> alert_notice \<times> matched_route \<times> nat \<Rightarrow> bool" where
  "pending_ok org sent x \<longleftrightarrow> (case x of (h, p, r, n) \<Rightarrow> an_orgId p = org (an_fingerprint p) \<and> n \<le> length sent
     \<and> (\<forall>i<n. same_alert p r (sent ! i) \<longrightarrow> of_int (se_sentAt (sent ! i)) + gap r \<le> of_int (ha_now h (mr_contactPointId r))))"

definition spaced_inv :: "(string \<Rightarrow> string) \<Rightarrow> consumer_run \<Rightarrow> bool" where
  "spaced_inv org s \<longleftrightarrow> dispatch_ok org (cs_dispatch (cr_state s)) \<and> length (cr_log s) = length (cs_sent (cr_state s))
     \<and> (\<forall>j<length (cr_log s). spaced (cs_sent (cr_state s)) (cr_log s) j)
     \<and> (\<forall>x\<in>set (cr_pending s). pending_ok org (cs_sent (cr_state s)) x)
     \<and> (\<forall>e\<in>set (cs_sent (cr_state s)). se_sentAt e \<le> cr_now s
          \<and> (\<exists>row. findByKey (cs_dispatch (cr_state s)) (se_orgId e) (se_fingerprint e) (se_contactPointId e) (se_groupKey e) = Some row
               \<and> se_sentAt e \<le> dr_lastSentAt row))"

lemma spaced_look:
  assumes inv: "spaced_inv org s" and org: "an_orgId p = org (an_fingerprint p)" and due: "looks_due h p r (cr_state s)"
  shows "pending_ok org (cs_sent (cr_state s)) (h, p, r, length (cs_sent (cr_state s)))"
proof -
  let ?st = "cr_state s" and ?now = "ha_now h (mr_contactPointId r)"
  have ok: "dispatch_ok org (cs_dispatch ?st)" using inv by (simp add: spaced_inv_def)
  have isdue: "due (cs_dispatch ?st) p r ?now"
    using due unfolding looks_due_def decide_due [OF ok] by (simp split: if_splits)
  have "of_int (se_sentAt e) + gap r \<le> of_int ?now" if e: "e \<in> set (cs_sent ?st)" "same_alert p r e" for e
  proof -
    obtain row where row: "findByKey (cs_dispatch ?st) (se_orgId e) (se_fingerprint e) (se_contactPointId e) (se_groupKey e) = Some row"
      "se_sentAt e \<le> dr_lastSentAt row" using inv e(1) by (auto simp: spaced_inv_def)
    have "gap r \<le> of_int (?now - dr_lastSentAt row)"
      using isdue row(1) e(2) by (simp add: due_def same_alert_def sent_key_def)
    then show ?thesis using row(2) by simp
  qed
  then show ?thesis using org by (simp add: pending_ok_def)
qed

lemma spaced_append:
  "j < length lg \<Longrightarrow> length lg = length sent \<Longrightarrow> spaced sent lg j \<Longrightarrow> spaced (sent @ [e]) (lg @ [x]) j"
  by (auto simp: spaced_def nth_append split: prod.splits)

lemma pending_append: "pending_ok org sent x \<Longrightarrow> pending_ok org (sent @ [e]) x"
  by (auto simp: pending_ok_def nth_append split: prod.splits)

lemma spaced_send:
  assumes inv: "spaced_inv org s" and pending: "(h, p, r, n) \<in> set (cr_pending s)" and clock: "cr_now s \<le> ha_sentAt h (mr_contactPointId r)"
    and id: "''nd_'' @ take 12 (ha_random h (mr_contactPointId r)) \<notin> dr_id ` set (cs_dispatch (cr_state s))"
    and st': "st' = send_route h p r (cr_state s)"
  shows "spaced_inv org \<lparr>cr_state = st', cr_now = ha_sentAt h (mr_contactPointId r), cr_pending = remove1 (h, p, r, n) (cr_pending s),
       cr_log = cr_log s @ (if cs_sent st' = cs_sent (cr_state s) then [] else [(r, n)])\<rparr>"
proof (cases "accepting (ha_senders h) p (cs_db (cr_state s)) (mr_contactPointId r) = []")
  case True
  then have same: "st' = cr_state s" by (simp add: st' send_route_effect)
  have "x \<in> set (cr_pending s)" if "x \<in> set (remove1 (h, p, r, n) (cr_pending s))" for x using that notin_set_remove1 by metis
  then show ?thesis using inv clock unfolding spaced_inv_def same by (simp add: order_trans [OF _ clock])
next
  case False
  let ?st = "cr_state s" and ?e = "delivery h p (cs_db (cr_state s)) r"
  have ok: "dispatch_ok org (cs_dispatch ?st)" and wait: "pending_ok org (cs_sent ?st) (h, p, r, n)"
    using inv pending by (auto simp: spaced_inv_def)
  then have org: "an_orgId p = org (an_fingerprint p)" by (simp add: pending_ok_def)
  obtain t where t: "recorded h p r (cs_dispatch ?st) = Inr t"
    using upsert_succeeds [OF ok org id] by (force simp: recorded_def)
  have st: "cs_sent st' = cs_sent ?st @ [?e]" "cs_dispatch st' = t"
    using False t by (simp_all add: st' send_route_effect)
  have e: "sent_key ?e = (an_orgId p, an_fingerprint p, mr_contactPointId r, computeGroupKey (mr_groupBy r) (an_labels p))"
      "se_contactPointId ?e = mr_contactPointId r" "se_decidedAt ?e = ha_now h (mr_contactPointId r)" "se_sentAt ?e = ha_sentAt h (mr_contactPointId r)"
    by (simp_all add: delivery_def sent_key_def Let_def)
  obtain row where row: "dr_lastSentAt row = se_sentAt ?e"
    and look: "\<And>a b c d. findByKey t a b c d = (if (a, b, c, d) = sent_key ?e then Some row else findByKey (cs_dispatch ?st) a b c d)"
    using upsert_lookup [OF ok t [unfolded recorded_def]] by (auto simp: delivery_def sent_key_def Let_def)
  have len: "length (cr_log s) = length (cs_sent ?st)" using inv by (simp add: spaced_inv_def)
  have "spaced (cs_sent ?st @ [?e]) (cr_log s @ [(r, n)]) j" if "j < Suc (length (cr_log s))" for j
  proof (cases "j < length (cr_log s)")
    case True
    then show ?thesis using inv len by (intro spaced_append) (simp_all add: spaced_inv_def)
  next
    case False
    then have "j = length (cr_log s)" using that by simp
    then show ?thesis using wait e len by (auto simp: spaced_def pending_ok_def same_alert_def nth_append)
  qed
  moreover have "pending_ok org (cs_sent ?st @ [?e]) x" if "x \<in> set (remove1 (h, p, r, n) (cr_pending s))" for x
  proof (rule pending_append)
    have "x \<in> set (cr_pending s)" using that notin_set_remove1 by metis
    then show "pending_ok org (cs_sent ?st) x" using inv by (simp add: spaced_inv_def)
  qed
  moreover have "\<exists>row. findByKey t (se_orgId x) (se_fingerprint x) (se_contactPointId x) (se_groupKey x) = Some row \<and> se_sentAt x \<le> dr_lastSentAt row"
    "se_sentAt x \<le> ha_sentAt h (mr_contactPointId r)" if "x = ?e \<or> x \<in> set (cs_sent ?st)" for x
  proof -
    show "se_sentAt x \<le> ha_sentAt h (mr_contactPointId r)" using that inv clock e(4) by (fastforce simp: spaced_inv_def)
    then show "\<exists>row. findByKey t (se_orgId x) (se_fingerprint x) (se_contactPointId x) (se_groupKey x) = Some row \<and> se_sentAt x \<le> dr_lastSentAt row"
      using that inv row e(4) by (cases "sent_key x = sent_key ?e") (auto simp: look spaced_inv_def, auto simp: sent_key_def)
  qed
  moreover have "dispatch_ok org t" using upsert_ok [OF ok org] t by (simp add: recorded_def)
  ultimately show ?thesis using len by (simp add: spaced_inv_def st)
qed

lemma spaced_event: "consumer_event org s s' \<Longrightarrow> spaced_inv org s \<Longrightarrow> spaced_inv org s'"
proof (induction rule: consumer_event.induct)
  case (looks p r s h)
  then show ?case using spaced_look [of org s p h r] by (fastforce simp: spaced_inv_def)
next
  case (sends h p r n s st')
  then show ?case using spaced_send by blast
qed (fastforce simp: spaced_inv_def)+

definition fresh_consumer :: "(string \<Rightarrow> string) \<Rightarrow> consumer_run \<Rightarrow> bool" where
  "fresh_consumer org s \<longleftrightarrow> cs_sent (cr_state s) = [] \<and> cr_pending s = [] \<and> cr_log s = [] \<and> dispatch_ok org (cs_dispatch (cr_state s))"

interpretation consumers: invariant_system "fresh_consumer org" "consumer_event org" "spaced_inv org" for org
  by unfold_locales (simp add: fresh_consumer_def spaced_inv_def, blast intro: spaced_event)

text \<open>
  C21. However alerts and approval requests arrive, their handlings overlap and the configuration
  changes in between, a contact point is told an alert again (organisation, fingerprint and group key)
  only when the shorter of the two intervals of the route by which it is told again has passed since
  every delivery to it that was recorded when this dispatch looked at the record: all earlier ones,
  if the handlings do not overlap; also across a restart, since the record is kept in the table.
\<close>

theorem notifications_spaced:
  assumes "fresh_consumer org s0" "(consumer_event org)\<^sup>*\<^sup>* s0 s" "j < length (cs_sent (cr_state s))" "cr_log s ! j = (r, n)"
  shows "se_contactPointId (cs_sent (cr_state s) ! j) = mr_contactPointId r \<and> n \<le> j
     \<and> (\<forall>i<n. sent_key (cs_sent (cr_state s) ! i) = sent_key (cs_sent (cr_state s) ! j) \<longrightarrow>
          of_int (se_sentAt (cs_sent (cr_state s) ! i)) + min (mr_groupIntervalSec r) (mr_repeatIntervalSec r) * 1000
            \<le> of_int (se_decidedAt (cs_sent (cr_state s) ! j)))"
proof -
  have "spaced_inv org s" using consumers.reachable_inv [OF assms(1,2)] .
  then have "spaced (cs_sent (cr_state s)) (cr_log s) j" using assms(3) by (simp add: spaced_inv_def)
  then show ?thesis using assms(4) by (simp add: spaced_def gap_def)
qed

text \<open>
  Two handlings that overlap send twice: when both look at the record before either has sent, both
  find the alert due and both deliver it, however long the intervals are.
\<close>

theorem overlap_sends_twice:
  assumes "looks_due h1 p r st" "looks_due h2 p r st"
    and "accepting (ha_senders h1) p (cs_db st) (mr_contactPointId r) \<noteq> []" "accepting (ha_senders h2) p (cs_db st) (mr_contactPointId r) \<noteq> []"
  shows "cs_sent (send_route h2 p r (send_route h1 p r st)) = cs_sent st @ [delivery h1 p (cs_db st) r, delivery h2 p (cs_db st) r]
     \<and> sent_key (delivery h1 p (cs_db st) r) = sent_key (delivery h2 p (cs_db st) r)"
  using assms(3,4) by (simp add: send_route_effect delivery_def sent_key_def Let_def)

text \<open>
  The interval after which an unchanged alert is repeated never delays anything: with any repeat
  interval at least as long as the group interval the decision is that of the group interval alone.
\<close>

theorem repeat_interval_ignored:
  assumes "mr_groupIntervalSec route \<le> mr_repeatIntervalSec route"
  shows "decideDispatch existing route now
     = decideDispatch existing (route\<lparr>mr_repeatIntervalSec := mr_groupIntervalSec route\<rparr>) now"
  using assms by (auto simp: decideDispatch_def Let_def split: option.splits)

lemma dispatch_route_sent:
  "cs_sent (dispatch_route h p r st) = cs_sent st
   \<or> (\<exists>e. cs_sent (dispatch_route h p r st) = cs_sent st @ [e] \<and> se_contactPointId e = mr_contactPointId r
        \<and> se_orgId e = an_orgId p \<and> se_fingerprint e = an_fingerprint p)"
  by (simp add: dispatch_route_def dispatchToContactPoint_def sendAndRecord_def Let_def split: dispatch_decision.splits option.splits)

lemma dispatch_routes_sent:
  "e \<in> set (cs_sent (fold (dispatch_route h p) rs st)) \<Longrightarrow>
     e \<in> set (cs_sent st) \<or> (\<exists>r\<in>set rs. se_contactPointId e = mr_contactPointId r \<and> se_orgId e = an_orgId p \<and> se_fingerprint e = an_fingerprint p)"
proof (induction rs arbitrary: st)
  case (Cons r rs)
  then show ?case using dispatch_route_sent [of h p r st] by fastforce
qed simp

lemma collect_teams_set:
  "collect_teams re tree ts = Some routes \<Longrightarrow> r \<in> set routes \<Longrightarrow>
     \<exists>t\<in>set ts. \<exists>matched. collectMatchingRoutes re tree [(''team'', t)] = Some matched \<and> r \<in> set matched"
  by (induction ts arbitrary: routes) (auto split: option.splits)

text \<open>
  A new approval request is announced only where an approver's team listens: whatever is sent for
  it goes to a contact point of a node selected for the team label of a team, in the request's
  organisation, of a user who may approve the request.
\<close>

theorem approval_announced_to_teams:
  assumes "handleApprovalCreated re wired db orgUsers h a st = Some st'"
    and "e \<in> set (cs_sent st')" "e \<notin> set (cs_sent st)"
  shows "se_fingerprint e = ac_approvalId a \<and> se_orgId e = ac_orgId a
     \<and> (\<exists>u\<in>set (findApprovers db orgUsers (ac_orgId a) (approval_row_of a)).
          \<exists>m\<in>set (team_member_listTeamsForUser db u (Some (ac_orgId a))).
            \<exists>n. ((selects re [(''team'', tm_teamId m)])\<^sup>*\<^sup>* (getPolicyTree (ha_readAt h) (cs_db st)) n)
                \<and> se_contactPointId e = pd_contactPointId (node_data n))"
proof -
  let ?tree = "getPolicyTree (ha_readAt h) (cs_db st)"
  have "st' \<noteq> st" using assms(2,3) by metis
  then obtain routes where routes: "collect_teams re ?tree (approver_teams db orgUsers a) = Some routes"
    and st': "st' = fold (dispatch_route h (approval_notice a)) (unique_routes [] routes) st"
    using assms(1) unfolding handleApprovalCreated_def by (simp split: if_splits option.splits)
  obtain r where r: "r \<in> set routes" "se_contactPointId e = mr_contactPointId r" "se_orgId e = ac_orgId a"
      "se_fingerprint e = ac_approvalId a"
    using dispatch_routes_sent [OF assms(2) [unfolded st']] assms(3) unique_routes_subset [of "[]" routes]
    by (auto simp: approval_notice_def)
  obtain t matched m where t: "t \<in> set (approver_teams db orgUsers a)" "walk re ?tree [(''team'', t)] = Some (m, matched)" "r \<in> set matched"
    using collect_teams_set [OF routes r(1)] by (auto simp: collectMatchingRoutes_def)
  obtain n where n: "(selects re [(''team'', t)])\<^sup>*\<^sup>* ?tree n" "r = toRoute (node_data n)"
    using t(3) unfolding routes_closure [OF t(2)] by (auto dest: tranclp_into_rtranclp)
  obtain u mb where "u \<in> set (findApprovers db orgUsers (ac_orgId a) (approval_row_of a))"
      "mb \<in> set (team_member_listTeamsForUser db u (Some (ac_orgId a)))" "t = tm_teamId mb"
    using t(1) by (auto simp: approver_teams_def)
  moreover have "se_contactPointId e = pd_contactPointId (node_data n)" using r(2) n(2) by (simp add: toRoute_def)
  ultimately show ?thesis using r(3,4) n(1) by blast
qed

text \<open>
  The preview of the routing and the routing differ: when a child matches, the preview still lists
  the contact point of a default root, which the consumer does not tell (unless a node below names it
  too).
\<close>

theorem preview_differs:
  assumes "pd_isDefault d" "pd_contactPointId d \<noteq> ''''" "c \<in> set cs" "node_matches re ls c"
    and "\<And>n. (selects re ls)\<^sup>+\<^sup>+ (Node d cs) n \<Longrightarrow> pd_contactPointId (node_data n) \<noteq> pd_contactPointId d"
    and "routeIntoTree re (Node d cs) ls = Some (hit, collected)" "collectMatchingRoutes re (Node d cs) ls = Some routes"
  shows "pd_contactPointId d \<in> pv_contactPointId ` set collected \<and> pd_contactPointId d \<notin> mr_contactPointId ` set routes"
proof -
  obtain m where w: "walk re (Node d cs) ls = Some (m, routes)" using assms(7) by (auto simp: collectMatchingRoutes_def)
  have "pd_contactPointId (node_data n) \<noteq> pd_contactPointId d" if "(selects re ls)\<^sup>*\<^sup>* (Node d cs) n" "falls_back re ls n" for n
  proof -
    have "n \<noteq> Node d cs" using that(2) assms(3,4) by (auto simp: falls_back_def)
    then show ?thesis using that(1) assms(5) by (blast dest: rtranclpD)
  qed
  then have "pd_contactPointId d \<notin> mr_contactPointId ` set routes"
    unfolding routes_closure [OF w] using assms(5) by (fastforce simp: toRoute_def)
  moreover have "pd_contactPointId d \<in> pv_contactPointId ` set collected"
    using assms(1,2,6) by (auto simp: preview_of_def)
  ultimately show ?thesis by simp
qed

section \<open>An example\<close>

text \<open>A default policy and one for the payments team; both contact points are webhooks that accept.\<close>

definition ex_policy :: "string \<Rightarrow> matcher list \<Rightarrow> string \<Rightarrow> bool \<Rightarrow> policy_data" where
  "ex_policy i ms c isDefault = \<lparr>pd_id = i, pd_matchers = ms, pd_contactPointId = c, pd_groupBy = Some [''team''],
     pd_groupWaitSec = None, pd_groupIntervalSec = None, pd_repeatIntervalSec = None, pd_continueMatching = False,
     pd_muteTimingIds = None, pd_isDefault = isDefault, pd_createdAt = 0, pd_updatedAt = 0\<rparr>"

definition ex_pay :: policy_data where
  "ex_pay = ex_policy ''p1'' [\<lparr>ma_label = ''team'', ma_operator = ''='', ma_value = ''payments''\<rparr>] ''cp_pay'' False"

definition ex_tree :: policy_node where
  "ex_tree = Node (ex_policy ''root'' [] ''cp_all'' True) [Node ex_pay []]"

definition ex_point :: "string \<Rightarrow> contact_point" where
  "ex_point i = \<lparr>cp_id = i, cp_name = i, cp_integrations = [\<lparr>in_id = ''i1'', in_type = ''webhook'', in_name = ''hook'',
     in_settings = [(''url'', ''http://hooks'')]\<rparr>], cp_createdAt = 0, cp_updatedAt = 0\<rparr>"

definition ex_consumer :: consumer_state where
  "ex_consumer = \<lparr>cs_db = \<lparr>nd_contactPoints = [ex_point ''cp_all'', ex_point ''cp_pay''], nd_tree = Some ex_tree, nd_muteTimings = []\<rparr>,
     cs_dispatch = [], cs_sent = []\<rparr>"

definition ex_notice :: alert_notice where
  "ex_notice = \<lparr>an_ruleId = ''r'', an_ruleName = ''Errors'', an_orgId = ''org_main'', an_severity = ''high'', an_value = Fin 7,
     an_threshold = 5, an_operator = ''>'', an_labels = [(''team'', ''payments'')], an_firedAt = 0, an_fingerprint = ''r:team=payments''\<rparr>"

definition ex_handling :: "int \<Rightarrow> handling" where
  "ex_handling now = \<lparr>ha_senders = senderFor (\<lambda>url body. Some 200), ha_readAt = now, ha_now = (\<lambda>c. now), ha_sentAt = (\<lambda>c. now + 10),
     ha_random = (\<lambda>c. if now = 0 then ''0123456789ab'' else ''ba9876543210'')\<rparr>"

definition no_regex :: regex where
  "no_regex pattern v = None"

definition ex_sent :: "int \<Rightarrow> sent_notice" where
  "ex_sent now = \<lparr>se_orgId = ''org_main'', se_fingerprint = ''r:team=payments'', se_contactPointId = ''cp_pay'', se_groupKey = ''payments'',
     se_integrations = [''i1''], se_decidedAt = now, se_sentAt = now + 10\<rparr>"

definition ex_row :: "int \<Rightarrow> int \<Rightarrow> dispatch_row" where
  "ex_row time n = \<lparr>dr_id = ''nd_0123456789ab'', dr_orgId = ''org_main'', dr_fingerprint = ''r:team=payments'', dr_contactPointId = ''cp_pay'',
     dr_groupKey = ''payments'', dr_lastSentAt = time, dr_sentCount = n\<rparr>"

lemmas example_simps = ex_policy_def ex_pay_def ex_tree_def ex_point_def ex_consumer_def ex_notice_def ex_handling_def no_regex_def
  ex_sent_def ex_row_def Let_def

lemma ex_routes: "collectMatchingRoutes no_regex ex_tree [(''team'', ''payments'')] = Some [toRoute ex_pay]"
  by (simp add: collectMatchingRoutes_def example_simps)

lemma ex_getPolicyTree: "getPolicyTree now (cs_db ex_consumer) = ex_tree"
  by (simp add: getPolicyTree_def ex_consumer_def)

lemma ex_unique: "unique_routes [] [toRoute ex_pay] = [toRoute ex_pay]"
  by (simp add: toRoute_def example_simps)

lemma ex_first: "handle no_regex (ex_handling 0) ex_notice ex_consumer
    = Some (ex_consumer\<lparr>cs_dispatch := [ex_row 10 1], cs_sent := [ex_sent 0]\<rparr>)"
  by (simp add: handle_def ex_getPolicyTree ex_routes ex_unique ex_notice_def [unfolded Let_def])
     (simp add: dispatch_route_def dispatchToContactPoint_def sendAndRecord_def findContactPointById_def accepts_def senderFor_def
       postWebhook_def extractWebhookUrl_def computeGroupKey_def toRoute_def findByKey_def decideDispatch_def upsertSent_def example_simps)

lemma ex_second: "handle no_regex (ex_handling 300010) ex_notice (ex_consumer\<lparr>cs_dispatch := [ex_row 10 1], cs_sent := [ex_sent 0]\<rparr>)
    = Some (ex_consumer\<lparr>cs_dispatch := [ex_row 300020 2], cs_sent := [ex_sent 0, ex_sent 300010]\<rparr>)"
  by (simp add: handle_def ex_getPolicyTree ex_routes ex_unique ex_notice_def [unfolded Let_def])
     (simp add: dispatch_route_def dispatchToContactPoint_def sendAndRecord_def findContactPointById_def accepts_def senderFor_def
       postWebhook_def extractWebhookUrl_def computeGroupKey_def toRoute_def findByKey_def decideDispatch_def upsertSent_def example_simps
       DEFAULT_GROUP_INTERVAL_SEC_def DEFAULT_REPEAT_INTERVAL_SEC_def)

definition ex_start :: consumer_run where
  "ex_start = \<lparr>cr_state = ex_consumer, cr_now = 0, cr_pending = [], cr_log = []\<rparr>"

lemma ex_run:
  "\<exists>s. (consumer_event (\<lambda>f. ''org_main''))\<^sup>*\<^sup>* ex_start s \<and> cs_sent (cr_state s) = [ex_sent 0, ex_sent 300010]
     \<and> cr_log s = [(toRoute ex_pay, 0), (toRoute ex_pay, 1)]"
proof -
  let ?r = "toRoute ex_pay"
  have one: "dispatch_route (ex_handling now) ex_notice ?r st = st'"
    if "handle no_regex (ex_handling now) ex_notice st = Some st'" "cs_db st = cs_db ex_consumer" for now st st'
    using that ex_routes ex_unique by (simp add: handle_def ex_getPolicyTree ex_notice_def [THEN arg_cong [where f = an_labels]] split: option.splits)
  have r: "an_orgId ex_notice = ''org_main''" "0 \<le> gap ?r"
    by (simp_all add: gap_def toRoute_def example_simps DEFAULT_GROUP_INTERVAL_SEC_def DEFAULT_REPEAT_INTERVAL_SEC_def)
  have c: "ha_now (ex_handling now) x = now" "ha_sentAt (ex_handling now) x = now + 10" for now x by (simp_all add: ex_handling_def)
  obtain s1 where s1: "(consumer_event (\<lambda>f. ''org_main''))\<^sup>*\<^sup>* ex_start s1"
      "cr_state s1 = ex_consumer\<lparr>cs_dispatch := [ex_row 10 1], cs_sent := [ex_sent 0]\<rparr>" "cr_log s1 = [(?r, 0)]" "cr_now s1 \<le> 10"
    using dispatch_is_run [of ex_notice "\<lambda>f. ''org_main''" ?r ex_start "ex_handling 0"] one [OF ex_first] r
    by (auto simp: ex_start_def c) (auto simp: ex_consumer_def ex_start_def)
  obtain s2 where "(consumer_event (\<lambda>f. ''org_main''))\<^sup>*\<^sup>* s1 s2"
      "cr_state s2 = ex_consumer\<lparr>cs_dispatch := [ex_row 300020 2], cs_sent := [ex_sent 0, ex_sent 300010]\<rparr>"
      "cr_log s2 = [(?r, 0), (?r, 1)]"
    using dispatch_is_run [of ex_notice "\<lambda>f. ''org_main''" ?r s1 "ex_handling 300010"] one [OF ex_second] r s1
    by (auto simp: c) (auto simp: ex_handling_def ex_row_def)
  then show ?thesis using s1(1) by (intro exI [of _ s2]) (auto intro: rtranclp_trans)
qed

theorem routes_exact_witness:
  "set [toRoute ex_pay] = (\<lambda>n. toRoute (node_data n)) `
     ({n. (selects no_regex [(''team'', ''payments'')])\<^sup>+\<^sup>+ ex_tree n}
      \<union> {n. (selects no_regex [(''team'', ''payments'')])\<^sup>*\<^sup>* ex_tree n \<and> falls_back no_regex [(''team'', ''payments'')] n})"
  using routes_exact [OF ex_routes] by (rule conjunct1)

theorem alert_delivered_witness:
  "\<exists>st'. handle no_regex (ex_handling 0) ex_notice ex_consumer = Some st' \<and> cs_sent st' = [ex_sent 0]"
proof -
  have "dispatch_ok (\<lambda>f. ''org_main'') (cs_dispatch ex_consumer)" by (simp add: dispatch_ok_def ex_consumer_def)
  moreover have "an_orgId ex_notice = ''org_main''" by (simp add: ex_notice_def)
  moreover have "collectMatchingRoutes no_regex (getPolicyTree (ha_readAt (ex_handling 0)) (cs_db ex_consumer)) (an_labels ex_notice)
      = Some [toRoute ex_pay]"
    using ex_routes by (simp add: ex_notice_def ex_getPolicyTree)
  moreover have "map (delivery (ex_handling 0) ex_notice (cs_db ex_consumer))
      (filter (delivers (ex_handling 0) ex_notice ex_consumer) [toRoute ex_pay]) = [ex_sent 0]"
    by (simp add: delivers_def delivery_def accepting_def due_def findContactPointById_def accepts_def senderFor_def
       postWebhook_def extractWebhookUrl_def computeGroupKey_def toRoute_def findByKey_def example_simps)
  moreover have "cs_sent ex_consumer = []" by (simp add: ex_consumer_def)
  ultimately show ?thesis
    using alert_delivered [of "\<lambda>f. ''org_main''" ex_consumer ex_notice no_regex "ex_handling 0" "[toRoute ex_pay]", unfolded ex_unique]
    by (metis append_Nil)
qed

theorem notifications_spaced_witness:
  "\<exists>s. (consumer_event (\<lambda>f. ''org_main''))\<^sup>*\<^sup>* ex_start s \<and> length (cs_sent (cr_state s)) = 2
     \<and> of_int (se_sentAt (cs_sent (cr_state s) ! 0)) + 300000 \<le> (of_int (se_decidedAt (cs_sent (cr_state s) ! 1)) :: rat)"
proof -
  obtain s where s: "(consumer_event (\<lambda>f. ''org_main''))\<^sup>*\<^sup>* ex_start s" "cs_sent (cr_state s) = [ex_sent 0, ex_sent 300010]"
      "cr_log s = [(toRoute ex_pay, 0), (toRoute ex_pay, 1)]"
    using ex_run by blast
  have "fresh_consumer (\<lambda>f. ''org_main'') ex_start" by (simp add: fresh_consumer_def ex_start_def ex_consumer_def dispatch_ok_def)
  from notifications_spaced [OF this s(1), of 1 "toRoute ex_pay" 1] s
  have "of_int (se_sentAt (cs_sent (cr_state s) ! 0)) + min (mr_groupIntervalSec (toRoute ex_pay)) (mr_repeatIntervalSec (toRoute ex_pay)) * 1000
      \<le> (of_int (se_decidedAt (cs_sent (cr_state s) ! 1)) :: rat)"
    by (simp add: sent_key_def ex_sent_def)
  then show ?thesis
    using s by (intro exI [of _ s]) (simp add: toRoute_def ex_pay_def ex_policy_def DEFAULT_GROUP_INTERVAL_SEC_def DEFAULT_REPEAT_INTERVAL_SEC_def)
qed

theorem overlap_sends_twice_witness:
  "length (cs_sent (send_route (ex_handling 5) ex_notice (toRoute ex_pay) (send_route (ex_handling 0) ex_notice (toRoute ex_pay) ex_consumer))) = 2"
proof -
  have "looks_due (ex_handling 0) ex_notice (toRoute ex_pay) ex_consumer" "looks_due (ex_handling 5) ex_notice (toRoute ex_pay) ex_consumer"
    by (simp_all add: looks_due_def findByKey_def decideDispatch_def ex_consumer_def)
  moreover have "accepting (ha_senders (ex_handling n)) ex_notice (cs_db ex_consumer) (mr_contactPointId (toRoute ex_pay)) \<noteq> []" for n
    by (simp add: accepting_def findContactPointById_def accepts_def senderFor_def postWebhook_def extractWebhookUrl_def toRoute_def example_simps)
  moreover have "cs_sent ex_consumer = []" by (simp add: ex_consumer_def)
  ultimately show ?thesis
    using overlap_sends_twice [of "ex_handling 0" ex_notice "toRoute ex_pay" ex_consumer "ex_handling 5"] by simp
qed

theorem repeat_interval_ignored_witness:
  "decideDispatch (Some (ex_row 10 1)) (toRoute ex_pay) 300010 = Send_now
   \<and> decideDispatch (Some (ex_row 10 1)) (toRoute ex_pay) 300010
     = decideDispatch (Some (ex_row 10 1)) ((toRoute ex_pay)\<lparr>mr_repeatIntervalSec := mr_groupIntervalSec (toRoute ex_pay)\<rparr>) 300010"
  using repeat_interval_ignored [of "toRoute ex_pay" "Some (ex_row 10 1)" 300010]
  by (simp add: decideDispatch_def toRoute_def example_simps DEFAULT_GROUP_INTERVAL_SEC_def DEFAULT_REPEAT_INTERVAL_SEC_def)

definition ex_rbac :: rbac_db where
  "ex_rbac = (approval_db ''approvals:approve'' ''approvals:*'')
     \<lparr>db_team_members := [\<lparr>tm_id = ''m'', tm_orgId = ''org_main'', tm_teamId = ''payments'', tm_userId = ''eve'',
         tm_external = False, tm_permission = 0, tm_created = 0, tm_updated = 0\<rparr>],
      db_team_roles := [\<lparr>tr_id = ''tr'', tr_orgId = ''org_main'', tr_teamId = ''payments'', tr_roleId = ''r'', tr_created = 0\<rparr>]\<rparr>"

definition ex_approval :: approval_created where
  "ex_approval = \<lparr>ac_approvalId = ''a1'', ac_orgId = ''org_main'', ac_planId = None, ac_investigationId = None,
     ac_opsConnectorId = Some ''prod'', ac_targetNamespace = None, ac_requesterTeamId = None, ac_summary = ''scale up'',
     ac_severity = None, ac_createdAt = 0\<rparr>"

lemma ex_approvers: "findApprovers ex_rbac [] ''org_main'' (approval_row_of ex_approval) = [''u'', ''eve'']"
  by code_simp

lemma ex_approval_handled:
  "\<exists>st'. handleApprovalCreated no_regex True ex_rbac [] (ex_handling 0) ex_approval ex_consumer = Some st'
     \<and> map se_contactPointId (cs_sent st') = [''cp_pay'']"
proof -
  have "ac_orgId ex_approval = ''org_main''" by (simp add: ex_approval_def)
  moreover from this have "approver_teams ex_rbac [] ex_approval = [''payments'']"
    by (simp add: approver_teams_def ex_approvers) (simp add: team_member_listTeamsForUser_def ex_rbac_def truthy_def)
  ultimately show ?thesis
    by (simp add: handleApprovalCreated_def ex_approvers ex_getPolicyTree ex_routes ex_unique del: unique_routes.simps)
       (simp add: dispatch_route_def dispatchToContactPoint_def sendAndRecord_def findContactPointById_def accepts_def senderFor_def
         postWebhook_def extractWebhookUrl_def toRoute_def findByKey_def decideDispatch_def example_simps)
qed

theorem approval_announced_to_teams_witness:
  "\<exists>st' e u m n. handleApprovalCreated no_regex True ex_rbac [] (ex_handling 0) ex_approval ex_consumer = Some st'
     \<and> e \<in> set (cs_sent st') \<and> u \<in> set (findApprovers ex_rbac [] ''org_main'' (approval_row_of ex_approval))
     \<and> m \<in> set (team_member_listTeamsForUser ex_rbac u (Some ''org_main''))
     \<and> (selects no_regex [(''team'', tm_teamId m)])\<^sup>*\<^sup>* ex_tree n \<and> se_contactPointId e = pd_contactPointId (node_data n)"
proof -
  obtain st' where st': "handleApprovalCreated no_regex True ex_rbac [] (ex_handling 0) ex_approval ex_consumer = Some st'"
    and "map se_contactPointId (cs_sent st') = [''cp_pay'']" by (rule exE [OF ex_approval_handled]) (erule conjE, rule that)
  then obtain e where e: "e \<in> set (cs_sent st')" by (cases "cs_sent st'") auto
  have fresh: "e \<notin> set (cs_sent ex_consumer)" and org: "ac_orgId ex_approval = ''org_main''"
    by (simp_all add: ex_consumer_def ex_approval_def)
  show ?thesis
    using approval_announced_to_teams [OF st' e fresh, unfolded ex_getPolicyTree org] st' e by blast
qed

end
