(* ===== verification/Js_Text.thy ===== *)
theory Js_Text
  imports Rounds_Prelude
begin

text \<open>
  The text functions of the language that the agent uses: \<^verbatim>\<open>String(v)\<close> and
  \<^verbatim>\<open>JSON.stringify(v)\<close> on JSON values, \<^verbatim>\<open>indexOf\<close>, and the search of a
  regular expression as a scan of the suffixes.  Numbers are integers, printed in decimal.
\<close>

section \<open>Decimal numbers\<close>

definition digit_char :: "nat \<Rightarrow> char" where
  "digit_char d = char_of (48 + d)"

fun nat_decimal :: "nat \<Rightarrow> string" where
  "nat_decimal n = (if n < 10 then [digit_char n] else nat_decimal (n div 10) @ [digit_char (n mod 10)])"

declare nat_decimal.simps [simp del]

definition int_decimal :: "int \<Rightarrow> string" where
  "int_decimal i = (if i < 0 then ''-'' @ nat_decimal (nat (- i)) else nat_decimal (nat i))"

lemma digit_value_char: "d < 10 \<Longrightarrow> digit_value (digit_char d) = Some (int d)"
  by (simp add: digit_value_def digit_char_def Let_def)

lemma digits_value_snoc:
  "(\<forall>c\<in>set ds. digit_value c \<noteq> None) \<Longrightarrow> digit_value c = Some v \<Longrightarrow>
     digits_value a (ds @ [c]) = 10 * digits_value a ds + v"
  by (induction ds arbitrary: a) (auto split: option.splits)

lemma nat_decimal_digits: "c \<in> set (nat_decimal n) \<Longrightarrow> digit_value c \<noteq> None"
proof (induction n rule: nat_decimal.induct)
  case (1 n)
  then show ?case by (subst (asm) (2) nat_decimal.simps) (auto simp: digit_value_char split: if_splits)
qed

text \<open>Printing and reading back a number.\<close>

lemma digits_nat_decimal: "digits_value 0 (nat_decimal n) = int n"
proof (induction n rule: nat_decimal.induct)
  case (1 n)
  show ?case
  proof (cases "n < 10")
    case True
    then show ?thesis by (subst nat_decimal.simps) (simp add: digit_value_char)
  next
    case False
    then have "digits_value 0 (nat_decimal n) = 10 * int (n div 10) + int (n mod 10)"
      using 1 by (subst nat_decimal.simps)
        (simp add: digits_value_snoc [of _ _ "int (n mod 10)"] digit_value_char nat_decimal_digits)
    also have "\<dots> = int n" by presburger
    finally show ?thesis .
  qed
qed

lemma nat_decimal_inj: "nat_decimal m = nat_decimal n \<Longrightarrow> m = n"
  by (metis digits_nat_decimal of_nat_eq_iff)

section \<open>Values as text\<close>

fun js_String :: "json \<Rightarrow> string" where
  "js_String JNull = ''null''"
| "js_String (JBool b) = (if b then ''true'' else ''false'')"
| "js_String (JNum n) = int_decimal n"
| "js_String (JStr s) = s"
| "js_String (JArr xs) = join_with '','' (map (\<lambda>x. if x = JNull then '''' else js_String x) xs)"
| "js_String (JObj kvs) = ''[object Object]''"

definition hex_char :: "nat \<Rightarrow> char" where
  "hex_char d = (if d < 10 then digit_char d else char_of (87 + d))"

definition json_escape :: "char \<Rightarrow> string" where
  "json_escape c = (let n = (of_char c :: nat) in
     if n = 34 then [CHR 0x5C, CHR 0x22]
     else if n = 92 then [CHR 0x5C, CHR 0x5C]
     else if n = 8 then [CHR 0x5C, CHR ''b'']
     else if n = 12 then [CHR 0x5C, CHR ''f'']
     else if n = 10 then [CHR 0x5C, CHR ''n'']
     else if n = 13 then [CHR 0x5C, CHR ''r'']
     else if n = 9 then [CHR 0x5C, CHR ''t'']
     else if n < 32 then [CHR 0x5C, CHR ''u'', CHR ''0'', CHR ''0'', hex_char (n div 16), hex_char (n mod 16)]
     else [c])"

definition json_quote :: "string \<Rightarrow> string" where
  "json_quote s = [CHR 0x22] @ concat (map json_escape s) @ [CHR 0x22]"

lemma size_json_field:
  "x \<in> set xs \<Longrightarrow> size x < Suc (size_list size xs)"
  "(k, v) \<in> set kvs \<Longrightarrow> size v < Suc (size_list (size_prod (\<lambda>x. 0) size) kvs)"
  by (induction xs, auto) (induction kvs, auto)

function (sequential) JSON_stringify :: "json \<Rightarrow> string" where
  "JSON_stringify JNull = ''null''"
| "JSON_stringify (JBool b) = (if b then ''true'' else ''false'')"
| "JSON_stringify (JNum n) = int_decimal n"
| "JSON_stringify (JStr s) = json_quote s"
| "JSON_stringify (JArr xs) = ''['' @ join_with '','' (map JSON_stringify xs) @ '']''"
| "JSON_stringify (JObj kvs) =
     ''{'' @ join_with '','' (map (\<lambda>kv. json_quote (fst kv) @ '':'' @ JSON_stringify (snd kv)) kvs) @ ''}''"
  by pat_completeness auto
termination
  by (relation "measure size") (auto simp: size_json_field)

section \<open>Searching\<close>

text \<open>The first suffix a matcher accepts, with the text before it: the search of a pattern.\<close>

fun re_search :: "(string \<Rightarrow> 'a option) \<Rightarrow> string \<Rightarrow> 'a option" where
  "re_search m [] = m []"
| "re_search m (c # s) = (case m (c # s) of Some r \<Rightarrow> Some r | None \<Rightarrow> re_search m s)"

fun js_indexOf :: "string \<Rightarrow> string \<Rightarrow> nat option" where
  "js_indexOf p [] = (if p = [] then Some 0 else None)"
| "js_indexOf p (c # s) = (if js_startsWith (c # s) p then Some 0 else map_option Suc (js_indexOf p s))"

definition contains_text :: "string \<Rightarrow> string \<Rightarrow> bool" where
  "contains_text s p \<longleftrightarrow> js_indexOf p s \<noteq> None"

lemma js_indexOf_Some: "js_indexOf p s = Some i \<Longrightarrow> s = take i s @ p @ drop (i + length p) s"
proof (induction s arbitrary: i)
  case (Cons c s)
  show ?case
  proof (cases "js_startsWith (c # s) p")
    case True
    with Cons.prems have "i = 0" by simp
    with True show ?thesis by (metis append_Nil append_take_drop_id js_startsWith_def plus_nat.add_0 take0)
  next
    case False
    with Cons.prems obtain j where "js_indexOf p s = Some j" "i = Suc j" by auto
    with Cons.IH show ?thesis by simp
  qed
qed (auto split: if_splits)

lemma js_indexOf_first: "js_indexOf p (pre @ p @ post) \<noteq> None"
  by (induction pre) (cases p; cases post; simp add: js_startsWith_def)+

end
