(* ===== verification/Agent_Gate.thy ===== *)
theory Agent_Gate
  imports Access_Control Js_Text
begin

text \<open>
  The permission gate of the chat agent (\<^verbatim>\<open>packages/agent-core/src/agent\<close>): the agent
  registry (\<^verbatim>\<open>agent-registry.ts\<close>), the permission each tool needs
  (\<^verbatim>\<open>tool-permissions.ts\<close>), the three-layer check (\<^verbatim>\<open>permission-gate.ts\<close>) and the
  audit of tool calls (\<^verbatim>\<open>orchestrator-audit-reporter.ts\<close>).  The third layer is the access
  control service of \<^verbatim>\<open>Access_Control\<close>.  The results: the gate decides exactly by its three
  layers, every tool of a registered agent has an entry, the entries name catalogued actions, and
  a query that names no connector needs a grant on all connectors.  That the audit is complete up
  to its cool-down is shown with the runner in \<^verbatim>\<open>Agent_Loop\<close>.
\<close>

section \<open>Agent definitions\<close>

datatype permission_mode = Read_only | Artifact_mutation | Propose_only | Approval_required_mode | Guarded_execution

definition mode_name :: "permission_mode \<Rightarrow> string" where
  "mode_name m = (case m of Read_only \<Rightarrow> ''read_only'' | Artifact_mutation \<Rightarrow> ''artifact_mutation''
     | Propose_only \<Rightarrow> ''propose_only'' | Approval_required_mode \<Rightarrow> ''approval_required''
     | Guarded_execution \<Rightarrow> ''guarded_execution'')"

record agent_def =
  ag_type :: string
  ag_description :: string
  ag_allowedTools :: "string list"
  ag_inputKinds :: "string list"
  ag_outputKinds :: "string list"
  ag_permissionMode :: permission_mode
  ag_maxIterations :: "nat option"
  ag_canRunInBackground :: "bool option"

definition agent_register :: "agent_def \<Rightarrow> (string, agent_def) js_map \<Rightarrow> (string, agent_def) js_map" where
  "agent_register def m = AList.update (ag_type def) def m"

definition agent_get :: "(string, agent_def) js_map \<Rightarrow> string \<Rightarrow> agent_def option" where
  "agent_get m t = map_of m t"

definition agent_getAll :: "(string, agent_def) js_map \<Rightarrow> agent_def list" where
  "agent_getAll m = map snd m"

definition agent_has :: "(string, agent_def) js_map \<Rightarrow> string \<Rightarrow> bool" where
  "agent_has m t \<longleftrightarrow> t \<in> fst ` set m"

definition orchestrator_def :: agent_def where
  "orchestrator_def = \<lparr>ag_type = ''orchestrator'',
     ag_description = ''Autonomous observability agent that uses primitive tools to build dashboards, investigate issues, and manage alerts'',
     ag_allowedTools =
       [''dashboard_create'', ''dashboard_list'', ''dashboard_clone'',
        ''dashboard_add_panels'', ''dashboard_remove_panels'', ''dashboard_modify_panel'',
        ''dashboard_add_variable'', ''dashboard_set_title'',
        ''folder_create'', ''folder_list'',
        ''investigation_create'', ''investigation_list'', ''investigation_add_section'', ''investigation_complete'',
        ''connectors_list'', ''connectors_suggest'', ''connectors_pin'', ''connectors_unpin'',
        ''metrics_query'', ''metrics_range_query'', ''metrics_discover'', ''metrics_validate'', ''metric_explore'',
        ''logs_query'', ''logs_labels'', ''logs_label_values'',
        ''changes_list_recent'', ''ops_run_command'',
        ''remediation_plan_create'', ''remediation_plan_create_rescue'',
        ''web_search'',
        ''alert_rule_write'', ''alert_rule_list'', ''alert_rule_history'',
        ''navigate'',
        ''connector_list'', ''connector_template_list'', ''connector_detect'',
        ''connector_propose'', ''connector_apply'', ''connector_test'',
        ''setting_get'', ''setting_set'',
        ''tool_search'', ''ask_user''],
     ag_inputKinds = [''dashboard''],
     ag_outputKinds = [''dashboard'', ''panel'', ''dashboard_variable'', ''investigation_report'', ''alert_rule''],
     ag_permissionMode = Artifact_mutation, ag_maxIterations = Some 30, ag_canRunInBackground = None\<rparr>"

definition verification_def :: agent_def where
  "verification_def = \<lparr>ag_type = ''verification'',
     ag_description = ''Verifies generated artifacts (dashboards, investigation reports, alert rules) meet quality standards'',
     ag_allowedTools = [''verifier.run'', ''metrics_query'', ''llm.complete''],
     ag_inputKinds = [''dashboard'', ''investigation_report'', ''alert_rule''], ag_outputKinds = [],
     ag_permissionMode = Read_only, ag_maxIterations = None, ag_canRunInBackground = Some True\<rparr>"

definition agentRegistry :: "(string, agent_def) js_map" where
  "agentRegistry = agent_register verification_def (agent_register orchestrator_def [])"

section \<open>The context of a tool call\<close>

type_synonym tool_args = "(string \<times> json) list"

text \<open>
  What the gate reads: the access control service, the identity, the active dashboard and the
  folder lookup of the alert rule store, which is optional and may throw.  The remaining state of
  the handlers is \<^verbatim>\<open>cx_rest\<close>.
\<close>

record 'w action_ctx =
  cx_ac :: ac_config
  cx_world :: ac_world
  cx_identity :: identity
  cx_activeDashboardId :: "string option"
  cx_getFolderUid :: "('w \<Rightarrow> string \<Rightarrow> string \<Rightarrow> string option result) option"
  cx_rest :: 'w

text \<open>\<^verbatim>\<open>args.n ?? d\<close>, and \<^verbatim>\<open>String(args.n ?? d)\<close>; \<^verbatim>\<open>text_arg\<close> is a string argument, empty when it is none.\<close>

definition arg_or :: "tool_args \<Rightarrow> string \<Rightarrow> json \<Rightarrow> json" where
  "arg_or args n d = (case map_of args n of None \<Rightarrow> d | Some v \<Rightarrow> if v = JNull then d else v)"

definition String_arg :: "tool_args \<Rightarrow> string \<Rightarrow> string \<Rightarrow> string" where
  "String_arg args n d = js_String (arg_or args n (JStr d))"

definition text_arg :: "tool_args \<Rightarrow> string \<Rightarrow> string" where
  "text_arg args n = (case map_of args n of Some (JStr s) \<Rightarrow> s | _ \<Rightarrow> '''')"

section \<open>The permission of each tool\<close>

definition resolveConnectorScope :: "tool_args \<Rightarrow> string" where
  "resolveConnectorScope args =
     (if text_arg args ''sourceId'' \<noteq> '''' then ''connectors:id:'' @ text_arg args ''sourceId''
      else if text_arg args ''datasourceId'' \<noteq> '''' then ''connectors:id:'' @ text_arg args ''datasourceId''
      else if text_arg args ''datasourceUid'' \<noteq> '''' then ''connectors:id:'' @ text_arg args ''datasourceUid''
      else ''connectors:id:*'')"

definition resolveDashboardScope :: "'w action_ctx \<Rightarrow> string" where
  "resolveDashboardScope ctx =
     (if truthy (cx_activeDashboardId ctx) then ''dashboards:uid:'' @ the (cx_activeDashboardId ctx) else ''dashboards:uid:*'')"

definition lookupAlertRuleFolderUid :: "'w action_ctx \<Rightarrow> string \<Rightarrow> string option result" where
  "lookupAlertRuleFolderUid ctx ruleId =
     (if ruleId = '''' then Inr None
      else (case cx_getFolderUid ctx of
              Some getF \<Rightarrow> getF (cx_rest ctx) (id_orgId (cx_identity ctx)) ruleId
            | None \<Rightarrow> Inr None))"

type_synonym 'w tool_builder = "tool_args \<Rightarrow> 'w action_ctx \<Rightarrow> evaluator option result"

definition fixed_builder :: "string \<Rightarrow> scope_arg \<Rightarrow> 'w tool_builder" where
  "fixed_builder act sc args ctx = Inr (Some (ac_eval act sc))"

definition arg_builder :: "string \<Rightarrow> string \<Rightarrow> string \<Rightarrow> string \<Rightarrow> 'w tool_builder" where
  "arg_builder act pre n d args ctx = Inr (Some (ac_eval act (OneScope (pre @ String_arg args n d))))"

definition dashboard_builder :: "'w tool_builder" where
  "dashboard_builder args ctx = Inr (Some (ac_eval ''dashboards:write'' (OneScope (resolveDashboardScope ctx))))"

definition connector_builder :: "'w tool_builder" where
  "connector_builder args ctx = Inr (Some (ac_eval ''connectors:query'' (OneScope (resolveConnectorScope args))))"

definition DEFAULT_RULE_FOLDER :: string where
  "DEFAULT_RULE_FOLDER = ''alerts''"

definition alert_rule_write_builder :: "'w tool_builder" where
  "alert_rule_write_builder args ctx =
     (let opn = text_arg args ''op'' in
      if opn = ''create''
      then Inr (Some (ac_eval ''alert.rules:create'' (OneScope (''folders:uid:'' @ String_arg args ''folderUid'' DEFAULT_RULE_FOLDER))))
      else if opn = ''update'' \<or> opn = ''delete''
      then res_bind (lookupAlertRuleFolderUid ctx (String_arg args ''ruleId'' ''''))
             (\<lambda>folderUid. Inr (Some (ac_eval (if opn = ''update'' then ''alert.rules:write'' else ''alert.rules:delete'')
                (OneScope (''folders:uid:'' @ coalesce folderUid ''*'')))))
      else Inr (Some (ac_eval ''alert.rules:write''
             (OneScope (''op:invalid:'' @ (if opn = '''' then ''missing'' else opn))))))"

definition ops_builder :: "'w tool_builder" where
  "ops_builder args ctx = Inr (Some (ac_any
     [ac_eval A_OpsCommandsRun (OneScope (''connectors:id:'' @ String_arg args ''connectorId'' ''*'')),
      ac_eval A_InstanceConfigWrite NoScope]))"

definition TOOL_PERMS :: "(string \<times> 'w tool_builder) list" where
  "TOOL_PERMS =
     [(''dashboard_create'', arg_builder ''dashboards:create'' ''folders:uid:'' ''folderUid'' ''*''),
      (''dashboard_list'', fixed_builder ''dashboards:read'' (OneScope ''dashboards:*'')),
      (''dashboard_clone'', arg_builder ''dashboards:create'' ''folders:uid:'' ''folderUid'' ''*''),
      (''dashboard_add_panels'', dashboard_builder),
      (''dashboard_remove_panels'', dashboard_builder),
      (''dashboard_modify_panel'', dashboard_builder),
      (''dashboard_set_title'', dashboard_builder),
      (''dashboard_add_variable'', dashboard_builder),
      (''dashboard_rearrange'', dashboard_builder),
      (''folder_create'', arg_builder ''folders:create'' ''folders:uid:'' ''parentUid'' ''*''),
      (''folder_list'', fixed_builder ''folders:read'' (OneScope ''folders:*'')),
      (''investigation_create'', fixed_builder ''investigations:create'' NoScope),
      (''investigation_list'', fixed_builder ''investigations:read'' (OneScope ''investigations:*'')),
      (''investigation_add_section'', arg_builder ''investigations:write'' ''investigations:uid:'' ''investigationId'' ''*''),
      (''investigation_complete'', arg_builder ''investigations:write'' ''investigations:uid:'' ''investigationId'' ''*''),
      (''alert_rule_write'', alert_rule_write_builder),
      (''alert_rule_list'', fixed_builder ''alert.rules:read'' (OneScope ''alert.rules:*'')),
      (''alert_rule_history'', arg_builder ''alert.rules:read'' ''alert.rules:uid:'' ''ruleId'' ''*''),
      (''metrics_query'', connector_builder),
      (''metrics_range_query'', connector_builder),
      (''metrics_discover'', connector_builder),
      (''metrics_validate'', connector_builder),
      (''metric_explore'', connector_builder),
      (''logs_query'', connector_builder),
      (''logs_labels'', connector_builder),
      (''logs_label_values'', connector_builder),
      (''changes_list_recent'', fixed_builder ''investigations:read'' (OneScope ''investigations:*'')),
      (''remediation_plan_create'', arg_builder ''investigations:write'' ''investigations:uid:'' ''investigationId'' ''*''),
      (''remediation_plan_create_rescue'', arg_builder ''investigations:write'' ''investigations:uid:'' ''investigationId'' ''*''),
      (''ops_run_command'', ops_builder),
      (''connector_propose'', fixed_builder ''connectors:write'' (OneScope ''connectors:*'')),
      (''connector_apply'', fixed_builder ''connectors:write'' (OneScope ''connectors:*'')),
      (''connector_test'', arg_builder ''connectors:write'' ''connectors:id:'' ''connectorId'' ''*''),
      (''setting_get'', fixed_builder A_InstanceConfigWrite NoScope),
      (''setting_set'', fixed_builder A_InstanceConfigWrite NoScope),
      (''web_search'', fixed_builder ''chat:use'' NoScope)]"

definition UNGATED_TOOLS :: "string list" where
  "UNGATED_TOOLS = [''navigate'', ''ask_user'', ''tool_search'', ''llm.complete'', ''verifier.run'', ''connectors_list'',
     ''connectors_suggest'', ''connectors_pin'', ''connectors_unpin'', ''connector_list'', ''connector_template_list'',
     ''connector_detect'']"

definition buildToolEvaluator :: "string \<Rightarrow> 'w tool_builder" where
  "buildToolEvaluator tool args ctx =
     (if tool \<in> set UNGATED_TOOLS then Inr None
      else (case map_of TOOL_PERMS tool of
              None \<Rightarrow> Inr (Some (ac_eval ''agent:unknown_tool'' (OneScope (''tool:'' @ tool))))
            | Some builder \<Rightarrow> builder args ctx))"

section \<open>The three-layer check\<close>

datatype deny_reason = Deny_allowedTools | Deny_permissionMode | Deny_rbac

record gate_result =
  gr_ok :: bool
  gr_reason :: "deny_reason option"
  gr_action :: "string option"
  gr_scope :: "string option"

definition gate_pass :: gate_result where
  "gate_pass = \<lparr>gr_ok = True, gr_reason = None, gr_action = None, gr_scope = None\<rparr>"

definition gate_deny :: "deny_reason \<Rightarrow> string \<Rightarrow> string \<Rightarrow> gate_result" where
  "gate_deny r a s = \<lparr>gr_ok = False, gr_reason = Some r, gr_action = Some a, gr_scope = Some s\<rparr>"

definition GATE_TERMINAL :: "string list" where
  "GATE_TERMINAL = [''ask_user'']"

definition GATE_MUTATIONS :: "string list" where
  "GATE_MUTATIONS = [''dashboard_create'', ''dashboard_add_panels'', ''dashboard_remove_panels'', ''dashboard_modify_panel'',
     ''dashboard_rearrange'', ''dashboard_add_variable'', ''dashboard_set_title'', ''folder_create'', ''investigation_create'',
     ''investigation_add_section'', ''investigation_complete'', ''alert_rule_write'']"

text \<open>The rendered evaluator is cut at the first \<^verbatim>\<open> on \<close>, if that is not at the start.\<close>

definition denied_rendering :: "evaluator \<Rightarrow> gate_result" where
  "denied_rendering e =
     (let rendered = ev_string e in
      case js_indexOf '' on '' rendered of
        Some i \<Rightarrow> if i > 0 then gate_deny Deny_rbac (js_trim (take i rendered)) (js_trim (drop (i + 4) rendered))
                  else gate_deny Deny_rbac (js_trim rendered) ''''
      | None \<Rightarrow> gate_deny Deny_rbac (js_trim rendered) '''')"

definition checkPermission ::
  "agent_def \<Rightarrow> string \<Rightarrow> tool_args \<Rightarrow> 'w action_ctx \<Rightarrow> gate_result \<times> 'w action_ctx" where
  "checkPermission agentDef tool args ctx =
     (if tool \<in> set GATE_TERMINAL then (gate_pass, ctx)
      else if tool \<notin> set (ag_allowedTools agentDef)
      then (gate_deny Deny_allowedTools tool (''agent:'' @ ag_type agentDef), ctx)
      else if tool \<in> set GATE_MUTATIONS \<and> ag_permissionMode agentDef \<in> {Read_only, Propose_only}
      then (gate_deny Deny_permissionMode tool (''mode:'' @ mode_name (ag_permissionMode agentDef)), ctx)
      else (case buildToolEvaluator tool args ctx of
              Inl err \<Rightarrow> (gate_deny Deny_rbac tool ''scope-resolution-failed'', ctx)
            | Inr None \<Rightarrow> (gate_pass, ctx)
            | Inr (Some e) \<Rightarrow>
                (let (allowed, ident') = ac_evaluate (cx_ac ctx) (cx_world ctx) (cx_identity ctx) e;
                     ctx' = ctx\<lparr>cx_identity := ident'\<rparr>
                 in (if allowed then gate_pass else denied_rendering e, ctx'))))"

definition denialObservation :: "gate_result \<Rightarrow> string" where
  "denialObservation r =
     ''permission denied: '' @ coalesce (gr_action r) ''unknown'' @ '' on '' @ coalesce (gr_scope r) ''*''"

section \<open>The audit of tool calls\<close>

datatype audit_path = Audit_allow | Audit_denied

record audit_entry =
  ae_action :: string
  ae_actorType :: string
  ae_actorId :: string
  ae_orgId :: string
  ae_targetType :: "string option"
  ae_targetId :: "string option"
  ae_outcome :: string
  ae_agentType :: string
  ae_tool :: string
  ae_requiredAction :: "string option"
  ae_requiredScope :: "string option"
  ae_deniedBy :: "deny_reason option"
  ae_argsSummary :: string

definition ALLOW_AUDIT_COOLDOWN_MS :: int where
  "ALLOW_AUDIT_COOLDOWN_MS = 60000"

definition audit_pickString :: "json option \<Rightarrow> string option" where
  "audit_pickString v = (case v of Some (JStr s) \<Rightarrow> if s \<noteq> '''' then Some s else None | _ \<Rightarrow> None)"

text \<open>\<^verbatim>\<open>args.a ?? args.b ?? \<dots>\<close>\<close>

fun first_arg :: "tool_args \<Rightarrow> string list \<Rightarrow> json option" where
  "first_arg args [] = None"
| "first_arg args (n # ns) =
     (case map_of args n of None \<Rightarrow> first_arg args ns | Some v \<Rightarrow> if v = JNull \<and> ns \<noteq> [] then first_arg args ns else Some v)"

definition inferTargetType :: "string \<Rightarrow> string option" where
  "inferTargetType tool =
     (if js_startsWith tool ''dashboard.'' then Some ''dashboard''
      else if js_startsWith tool ''folder.'' then Some ''folder''
      else if js_startsWith tool ''investigation.'' then Some ''investigation''
      else if js_startsWith tool ''metrics.'' \<or> js_startsWith tool ''logs.'' \<or> tool = ''connectors_list'' then Some ''connector''
      else if tool = ''changes_list_recent'' then Some ''changes''
      else if js_startsWith tool ''ops.'' then Some ''ops_connector''
      else if js_startsWith tool ''alert_rule.'' then Some ''alert_rule''
      else if tool = ''web_search'' then Some ''web_search''
      else None)"

definition inferTargetId :: "string \<Rightarrow> tool_args \<Rightarrow> string option" where
  "inferTargetId tool args =
     (if js_startsWith tool ''dashboard.'' then audit_pickString (map_of args ''dashboardId'')
      else if js_startsWith tool ''investigation.'' then audit_pickString (map_of args ''investigationId'')
      else if js_startsWith tool ''folder.'' then audit_pickString (first_arg args [''folderUid'', ''parentUid''])
      else if js_startsWith tool ''metrics.'' \<or> js_startsWith tool ''logs.'' \<or> tool = ''changes_list_recent''
      then audit_pickString (first_arg args [''sourceId'', ''connectorId'', ''datasourceId'', ''datasourceUid''])
      else if js_startsWith tool ''ops.'' then audit_pickString (map_of args ''connectorId'')
      else if tool = ''alert_rule_write''
      then (let opn = text_arg args ''op'' in
            if opn = ''create'' then audit_pickString (Some (arg_or args ''folderUid'' (JStr DEFAULT_RULE_FOLDER)))
            else if opn = ''update'' \<or> opn = ''delete'' then audit_pickString (map_of args ''ruleId'')
            else None)
      else if tool = ''alert_rule_history'' then audit_pickString (map_of args ''ruleId'')
      else None)"

definition summarizeArgs :: "tool_args \<Rightarrow> string" where
  "summarizeArgs args =
     (let s = JSON_stringify (JObj args) in if length s \<le> 200 then s else take 200 s @ ''...'')"

text \<open>
  The reporter of one run: whether a writer is wired, who acts, and the times of the last rows of
  allowed calls.  A row is what the writer is asked to write; its failures are caught.
\<close>

record reporter_deps =
  rp_writer :: bool
  rp_userId :: string
  rp_orgId :: string
  rp_serviceAccountId :: "string option"
  rp_agentType :: string

record audit_state =
  au_rows :: "audit_entry list"
  au_allowAt :: "(string, int) js_map"

definition audit_entry_for ::
  "reporter_deps \<Rightarrow> audit_path \<Rightarrow> string \<Rightarrow> tool_args \<Rightarrow> gate_result \<Rightarrow> audit_entry" where
  "audit_entry_for deps path tool args gateResult =
     \<lparr>ae_action = (if path = Audit_allow then ''agent.tool_called'' else ''agent.tool_denied''),
      ae_actorType = (if truthy (rp_serviceAccountId deps) then ''service_account'' else ''user''),
      ae_actorId = coalesce (rp_serviceAccountId deps) (rp_userId deps),
      ae_orgId = rp_orgId deps,
      ae_targetType = inferTargetType tool, ae_targetId = inferTargetId tool args,
      ae_outcome = (if path = Audit_allow then ''success'' else ''failure''),
      ae_agentType = rp_agentType deps, ae_tool = tool,
      ae_requiredAction = gr_action gateResult, ae_requiredScope = gr_scope gateResult,
      ae_deniedBy = (if path = Audit_denied then gr_reason gateResult else None),
      ae_argsSummary = summarizeArgs args\<rparr>"

definition audit_key :: "reporter_deps \<Rightarrow> string \<Rightarrow> string" where
  "audit_key deps tool = rp_userId deps @ '':'' @ tool"

definition writeToolAudit ::
  "reporter_deps \<Rightarrow> int \<Rightarrow> audit_path \<Rightarrow> string \<Rightarrow> tool_args \<Rightarrow> gate_result \<Rightarrow> audit_state \<Rightarrow> audit_state" where
  "writeToolAudit deps now path tool args gateResult st =
     (if \<not> rp_writer deps then st
      else (let row = audit_entry_for deps path tool args gateResult in
            if path = Audit_allow
            then (let last = coalesce (map_of (au_allowAt st) (audit_key deps tool)) 0 in
                  if now - last < ALLOW_AUDIT_COOLDOWN_MS then st
                  else st\<lparr>au_rows := au_rows st @ [row], au_allowAt := AList.update (audit_key deps tool) now (au_allowAt st)\<rparr>)
            else st\<lparr>au_rows := au_rows st @ [row]\<rparr>))"

section \<open>What the gate decides\<close>

lemma builder_total: "(t, b) \<in> set TOOL_PERMS \<Longrightarrow> b args ctx \<noteq> Inr None"
  by (auto simp: TOOL_PERMS_def fixed_builder_def arg_builder_def dashboard_builder_def connector_builder_def ops_builder_def
      alert_rule_write_builder_def Let_def split: if_splits)

lemma buildToolEvaluator_None: "buildToolEvaluator tool args ctx = Inr None \<longleftrightarrow> tool \<in> set UNGATED_TOOLS"
  by (auto simp: buildToolEvaluator_def split: option.splits dest!: map_of_SomeD dest: builder_total)

text \<open>What a passed gate means, on the context the call was made in.\<close>

definition tool_permitted :: "string \<Rightarrow> tool_args \<Rightarrow> 'w action_ctx \<Rightarrow> bool" where
  "tool_permitted tool args ctx \<longleftrightarrow> tool \<in> set UNGATED_TOOLS
     \<or> (\<exists>e. buildToolEvaluator tool args ctx = Inr (Some e) \<and> fst (ac_evaluate (cx_ac ctx) (cx_world ctx) (cx_identity ctx) e))"

lemma gate_pass_ok [simp]: "gr_ok gate_pass" "\<not> gr_ok (gate_deny r a s)" "\<not> gr_ok (denied_rendering e)"
  by (auto simp: gate_pass_def gate_deny_def denied_rendering_def Let_def split: option.splits)

lemma checkPermission_ok:
  "gr_ok (fst (checkPermission ad tool args ctx)) \<longleftrightarrow>
     tool = ''ask_user'' \<or> (tool \<in> set (ag_allowedTools ad)
       \<and> \<not> (tool \<in> set GATE_MUTATIONS \<and> ag_permissionMode ad \<in> {Read_only, Propose_only})
       \<and> tool_permitted tool args ctx)"
proof (cases "buildToolEvaluator tool args ctx")
  case (Inl err)
  then show ?thesis
    using buildToolEvaluator_None [of tool args ctx] by (auto simp: checkPermission_def tool_permitted_def GATE_TERMINAL_def)
next
  case (Inr r)
  then show ?thesis
    using buildToolEvaluator_None [of tool args ctx]
    by (cases r) (auto simp: checkPermission_def tool_permitted_def GATE_TERMINAL_def case_prod_beta Let_def)
qed

lemma ac_evaluate_frame:
  "snd (ac_evaluate cfg w ident e) = snd (ensurePermissions (w_rbac w) ident)"
  by (simp add: ac_evaluate_def case_prod_beta Let_def)

text \<open>The check only fills the permission cache of the identity.\<close>

lemma checkPermission_frame:
  "snd (checkPermission ad tool args ctx) \<in> {ctx, ctx\<lparr>cx_identity := snd (ensurePermissions (w_rbac (cx_world ctx)) (cx_identity ctx))\<rparr>}"
  by (auto simp: checkPermission_def case_prod_beta Let_def ac_evaluate_frame split: sum.splits option.splits)

section \<open>Calls that name no resource\<close>

definition wide :: "string \<Rightarrow> bool" where
  "wide s \<longleftrightarrow> ps_identifier (parseScope s) = ''*''"

lemma wide_literals [simp]:
  "wide ''dashboards:*''" "wide ''dashboards:uid:*''" "wide ''folders:*''" "wide ''folders:uid:*''" "wide ''alert.rules:*''"
  "wide ''alert.rules:uid:*''" "wide ''connectors:*''" "wide ''connectors:uid:*''" "wide ''users:*''" "wide ''users:id:*''"
  "wide ''teams:*''" "wide ''teams:id:*''" "wide ''serviceaccounts:*''" "wide ''serviceaccounts:id:*''"
  "wide ''connectors:id:*''" "wide ''investigations:uid:*''" "wide ''investigations:*''"
  by (simp_all add: wide_def parseScope_def)

lemma covers_wide: "scopeCovers g s \<Longrightarrow> wide s \<Longrightarrow> wide g"
  by (auto simp: scopeCovers_segments seg_covers_def seg_matches_def wide_def)

lemma resolvers_wide:
  assumes "wide s"
  shows "x \<in> set (buildDashboardsResolver deps s) \<Longrightarrow> wide x"
    "x \<in> set (buildFoldersResolver deps s) \<Longrightarrow> wide x"
    "x \<in> set (buildAlertRulesResolver deps s) \<Longrightarrow> wide x"
    "x \<in> set (flat_resolver k a s) \<Longrightarrow> wide (k @ '':*'') \<Longrightarrow> wide (k @ '':'' @ a @ '':*'') \<Longrightarrow> wide x"
proof -
  have [simp]: "ps_identifier (parseScope s) = ''*''" using assms by (simp add: wide_def)
  show "x \<in> set (buildDashboardsResolver deps s) \<Longrightarrow> wide x"
    using assms unfolding buildDashboardsResolver_def Let_def set_js_uniq if_distrib [of set] by (auto split: if_splits)
  show "x \<in> set (buildFoldersResolver deps s) \<Longrightarrow> wide x"
    using assms unfolding buildFoldersResolver_def Let_def set_js_uniq if_distrib [of set]
    by (cases "rd_folders deps") (auto split: if_splits)
  show "x \<in> set (buildAlertRulesResolver deps s) \<Longrightarrow> wide x"
    using assms unfolding buildAlertRulesResolver_def Let_def set_js_uniq if_distrib [of set] by (auto split: if_splits)
  show "x \<in> set (flat_resolver k a s) \<Longrightarrow> wide (k @ '':*'') \<Longrightarrow> wide (k @ '':'' @ a @ '':*'') \<Longrightarrow> wide x"
    using assms unfolding flat_resolver_def Let_def set_js_uniq if_distrib [of set] by (auto split: if_splits)
qed

lemma resolve_wide:
  assumes "wide s" "x \<in> set (registry_resolve deps s)"
  shows "wide x"
  using assms resolvers_wide [OF assms(1)]
  by (auto simp: registry_resolve_def Let_def split: if_splits)

lemma cached_wide: "wide s \<Longrightarrow> x \<in> set (cached_resolver (registry_resolve deps) l s) \<Longrightarrow> wide x"
  by (auto simp: cached_resolver_def dest: resolve_wide split: if_splits)

text \<open>A check on a wildcard scope passes only with a wildcard grant of the action, or through the legacy fallback.\<close>

lemma wide_check_needs_wide:
  assumes "fst (ac_evaluate cfg w ident (ac_eval act (OneScope s)))" "wide s"
  shows "(\<exists>p\<in>set (fst (ensurePermissions (w_rbac w) ident)). action p = act \<and> wide (scope p))
     \<or> legacy_allows cfg w ident (ac_eval act (OneScope s))"
proof -
  have "evaluate (ac_eval act (OneScope s)) ps \<Longrightarrow> \<exists>p\<in>set ps. action p = act \<and> wide (scope p)" for ps
    using covers_wide [OF _ assms(2)] by (auto simp: evaluate_satisfies ac_eval_def grants_def)
  moreover have "evaluate (ev_mutate (cached_resolver (registry_resolve deps) l) (ac_eval act (OneScope s))) ps \<Longrightarrow>
      \<exists>p\<in>set ps. action p = act \<and> wide (scope p)" for deps l ps
    by (auto simp: evaluate_satisfies ac_eval_def grants_def dest: covers_wide [OF _ cached_wide [OF assms(2)]])
  ultimately show ?thesis
    using assms(1) unfolding ac_evaluate_iff by (auto split: option.splits)
qed

text \<open>
  A metrics or logs tool that names no connector needs \<^verbatim>\<open>connectors:query\<close> on all
  connectors: the gate never reads a missing identifier as any one of them.
\<close>

lemma no_legacy_connectors: "\<not> legacy_allows cfg w ident (ac_eval ''connectors:query'' (OneScope ''connectors:id:*''))"
proof -
  have "exec_target (ev_string (ac_eval ''connectors:query'' (OneScope ''connectors:id:*''))) = None" by code_simp
  then show ?thesis by (simp add: legacy_allows_def extractDashboardAclTarget_def)
qed

definition CONNECTOR_TOOLS :: "string list" where
  "CONNECTOR_TOOLS = [''metrics_query'', ''metrics_range_query'', ''metrics_discover'', ''metrics_validate'', ''metric_explore'',
     ''logs_query'', ''logs_labels'', ''logs_label_values'']"

lemma connector_tool_evaluator:
  assumes "tool \<in> set CONNECTOR_TOOLS"
  shows "buildToolEvaluator tool args (ctx :: 'w action_ctx) =
     Inr (Some (ac_eval ''connectors:query'' (OneScope (resolveConnectorScope args))))"
proof -
  have "tool \<notin> set UNGATED_TOOLS \<and> map_of TOOL_PERMS tool = Some (connector_builder :: 'w tool_builder)"
    using assms unfolding CONNECTOR_TOOLS_def by (elim set_ConsD [elim_format] disjE) (simp_all add: UNGATED_TOOLS_def TOOL_PERMS_def)
  then show ?thesis by (simp add: buildToolEvaluator_def connector_builder_def)
qed

text \<open>
  Fail-closed gate for connectors: a metrics or logs tool call that names no connector passes
  the gate only if the caller holds \<^verbatim>\<open>connectors:query\<close> with a wildcard identifier.
\<close>

theorem unnamed_connector_needs_wildcard:
  assumes "tool \<in> set CONNECTOR_TOOLS"
    and "text_arg args ''sourceId'' = ''''" "text_arg args ''datasourceId'' = ''''" "text_arg args ''datasourceUid'' = ''''"
    and "gr_ok (fst (checkPermission ad tool args ctx))"
  shows "\<exists>p\<in>set (fst (ensurePermissions (w_rbac (cx_world ctx)) (cx_identity ctx))).
     action p = ''connectors:query'' \<and> ps_identifier (parseScope (scope p)) = ''*''"
proof -
  have "tool \<noteq> ''ask_user''" "tool \<notin> set UNGATED_TOOLS" using assms(1) by (auto simp: CONNECTOR_TOOLS_def UNGATED_TOOLS_def)
  then have "fst (ac_evaluate (cx_ac ctx) (cx_world ctx) (cx_identity ctx) (ac_eval ''connectors:query'' (OneScope ''connectors:id:*'')))"
    using assms by (simp add: checkPermission_ok tool_permitted_def connector_tool_evaluator resolveConnectorScope_def)
  from wide_check_needs_wide [OF this wide_literals(15)] no_legacy_connectors show ?thesis unfolding wide_def by blast
qed

text \<open>
  The gate reads the connector from \<^verbatim>\<open>sourceId\<close> first; a second identifier in
  \<^verbatim>\<open>datasourceId\<close>, which is the one the handler of \<^verbatim>\<open>metric_explore\<close> uses, plays
  no role then.
\<close>

lemma metric_explore_gate_ignores_datasourceId:
  assumes "text_arg args ''sourceId'' \<noteq> ''''" "text_arg args' ''sourceId'' = text_arg args ''sourceId''"
  shows "checkPermission ad ''metric_explore'' args' ctx = checkPermission ad ''metric_explore'' args ctx"
proof -
  have "''metric_explore'' \<in> set CONNECTOR_TOOLS" "resolveConnectorScope args' = resolveConnectorScope args"
    using assms by (simp_all add: CONNECTOR_TOOLS_def resolveConnectorScope_def)
  then show ?thesis unfolding checkPermission_def by (simp only: connector_tool_evaluator)
qed

section \<open>The catalogue of tools\<close>

fun ev_actions :: "evaluator \<Rightarrow> string set" where
  "ev_actions (ActionEvaluator act scopes) = {act}"
| "ev_actions (ResolvedActionEvaluator act resolved) = {act}"
| "ev_actions (AllEvaluator children) = (\<Union>c\<in>set children. ev_actions c)"
| "ev_actions (AnyEvaluator children) = (\<Union>c\<in>set children. ev_actions c)"

lemma TOOL_PERMS_keys:
  "map fst TOOL_PERMS = [''dashboard_create'', ''dashboard_list'', ''dashboard_clone'', ''dashboard_add_panels'',
     ''dashboard_remove_panels'', ''dashboard_modify_panel'', ''dashboard_set_title'', ''dashboard_add_variable'',
     ''dashboard_rearrange'', ''folder_create'', ''folder_list'', ''investigation_create'', ''investigation_list'',
     ''investigation_add_section'', ''investigation_complete'', ''alert_rule_write'', ''alert_rule_list'',
     ''alert_rule_history'', ''metrics_query'', ''metrics_range_query'', ''metrics_discover'', ''metrics_validate'',
     ''metric_explore'', ''logs_query'', ''logs_labels'', ''logs_label_values'', ''changes_list_recent'',
     ''remediation_plan_create'', ''remediation_plan_create_rescue'', ''ops_run_command'', ''connector_propose'',
     ''connector_apply'', ''connector_test'', ''setting_get'', ''setting_set'', ''web_search'']"
  by (simp add: TOOL_PERMS_def)

lemma TOOL_PERMS_distinct: "distinct (map fst TOOL_PERMS)"
  unfolding TOOL_PERMS_keys by code_simp

lemma known_tool_actions:
  "list_all isKnownAction [''dashboards:create'', ''dashboards:read'', ''dashboards:write'', ''folders:create'', ''folders:read'',
     ''investigations:create'', ''investigations:read'', ''investigations:write'', ''alert.rules:create'', ''alert.rules:write'',
     ''alert.rules:delete'', ''alert.rules:read'', ''connectors:query'', ''connectors:write'', ''chat:use'', A_OpsCommandsRun,
     A_InstanceConfigWrite]"
  by code_simp

lemma builder_actions_known:
  "(t, b) \<in> set TOOL_PERMS \<Longrightarrow> b args ctx = Inr (Some e) \<Longrightarrow> a \<in> ev_actions e \<Longrightarrow> isKnownAction a"
  using known_tool_actions
  by (auto simp: TOOL_PERMS_def fixed_builder_def arg_builder_def dashboard_builder_def connector_builder_def ops_builder_def
      alert_rule_write_builder_def Let_def ac_eval_def ac_any_def split: if_splits)

lemma registered_tools_listed:
  "\<forall>ad\<in>set (agent_getAll agentRegistry). \<forall>t\<in>set (ag_allowedTools ad). t \<in> set UNGATED_TOOLS \<or> t \<in> set (map fst TOOL_PERMS)"
  unfolding TOOL_PERMS_keys by code_simp

text \<open>
  C26. The tool catalogue is complete: every tool of every registered agent is either listed as
  ungated or has a permission entry, so that none of them is refused as unknown, and each
  permission a tool call is checked against names only actions of the RBAC catalogue, whatever
  the arguments are.
\<close>

theorem tool_catalogue_complete:
  assumes "ad \<in> set (agent_getAll agentRegistry)" "tool \<in> set (ag_allowedTools ad)"
  shows "tool \<in> set UNGATED_TOOLS \<and> buildToolEvaluator tool args ctx = Inr None
     \<or> (\<forall>e. buildToolEvaluator tool args ctx = Inr (Some e) \<longrightarrow> (\<forall>a\<in>ev_actions e. isKnownAction a))
        \<and> buildToolEvaluator tool args ctx \<noteq> Inr None"
proof (cases "tool \<in> set UNGATED_TOOLS")
  case True
  then show ?thesis by (simp add: buildToolEvaluator_None)
next
  case False
  with registered_tools_listed assms have "tool \<in> set (map fst (TOOL_PERMS :: (string \<times> 'a tool_builder) list))"
    unfolding TOOL_PERMS_keys by blast
  then obtain b where b: "map_of (TOOL_PERMS :: (string \<times> 'a tool_builder) list) tool = Some b"
    by (auto dest: weak_map_of_SomeI)
  with False have "buildToolEvaluator tool args ctx = b args ctx" by (simp add: buildToolEvaluator_def)
  with builder_actions_known [OF map_of_SomeD [OF b]] buildToolEvaluator_None [of tool args ctx] False show ?thesis by auto
qed

text \<open>Witnesses: a user who may query one connector only.\<close>

definition connector_user :: identity where
  "connector_user = demo_user\<lparr>id_permissions := Some [\<lparr>action = ''connectors:query'', scope = ''connectors:*''\<rparr>]\<rparr>"

definition demo_ctx :: "identity \<Rightarrow> unit action_ctx" where
  "demo_ctx ident = \<lparr>cx_ac = boot_config demo_world, cx_world = demo_world, cx_identity = ident, cx_activeDashboardId = None,
     cx_getFolderUid = None, cx_rest = ()\<rparr>"

theorem unnamed_connector_needs_wildcard_witness:
  "\<exists>p\<in>set (fst (ensurePermissions (w_rbac demo_world) connector_user)).
     action p = ''connectors:query'' \<and> ps_identifier (parseScope (scope p)) = ''*''"
proof -
  have "gr_ok (fst (checkPermission orchestrator_def ''metrics_query'' [(''query'', JStr ''up'')] (demo_ctx connector_user)))"
    by code_simp
  from unnamed_connector_needs_wildcard [OF _ _ _ _ this] show ?thesis
    by (simp add: CONNECTOR_TOOLS_def text_arg_def demo_ctx_def)
qed

theorem tool_catalogue_complete_witness:
  "\<exists>e. buildToolEvaluator ''folder_list'' [] (demo_ctx demo_user) = Inr (Some e) \<and> ''folders:read'' \<in> ev_actions e \<and> isKnownAction ''folders:read''"
proof -
  have listed: "orchestrator_def \<in> set (agent_getAll agentRegistry)" "''folder_list'' \<in> set (ag_allowedTools orchestrator_def)"
    "''folder_list'' \<notin> set UNGATED_TOOLS"
    by code_simp+
  have "buildToolEvaluator ''folder_list'' [] (demo_ctx demo_user) = Inr (Some (ac_eval ''folders:read'' (OneScope ''folders:*'')))"
    using listed(3) by (simp add: buildToolEvaluator_def TOOL_PERMS_def fixed_builder_def)
  moreover have "''folders:read'' \<in> ev_actions (ac_eval ''folders:read'' (OneScope ''folders:*''))" by (simp add: ac_eval_def)
  ultimately show ?thesis using tool_catalogue_complete [OF listed(1,2), of "[]" "demo_ctx demo_user"] listed(3) by blast
qed

end
