(* ===== verification/Agent_Loop.thy ===== *)
theory Agent_Loop
  imports Agent_Gate "HOL-Library.Char_ord" "HOL-Library.List_Lexorder"
begin

text \<open>
  The chat agent: the tool registry (\<^verbatim>\<open>tool-schema-registry.ts\<close>), the search of deferred tools
  (\<^verbatim>\<open>tool-search.ts\<close>, \<^verbatim>\<open>handlers/tool-search.ts\<close>), the runner that wraps every tool call in the
  permission gate (\<^verbatim>\<open>orchestrator-action-runner.ts\<close>) and the loop that talks to the language model
  (\<^verbatim>\<open>react-loop.ts\<close>, \<^verbatim>\<open>token-utils.ts\<close>).  The language model is a parameter: a function from the number of
  the call, the messages and the tools offered to a response or an exception; it may answer
  anything.  So are the tool handlers, which may change everything a handler can reach, and the
  descriptions and argument schemas of the tools.  The results: no handler runs unless the gate
  passed for the caller, the run ends after at most 200 turns with an answer that the user sees,
  every request of a turn replays the tool calls so far with their results within the token budget,
  and only tools of the agent are offered.
\<close>

section \<open>The tool registry\<close>

datatype tool_category = Always_on | Deferred

record tool_entry =
  te_category :: tool_category
  te_required :: "string list"

definition tool_entry_of :: "tool_category \<Rightarrow> string list \<Rightarrow> tool_entry" where
  "tool_entry_of c r = \<lparr>te_category = c, te_required = r\<rparr>"

definition TOOL_REGISTRY :: "(string \<times> tool_entry) list" where
  "TOOL_REGISTRY =
     [(''connectors_list'', tool_entry_of Always_on []),
      (''connectors_suggest'', tool_entry_of Always_on []),
      (''connectors_pin'', tool_entry_of Deferred [''connectorId'']),
      (''connectors_unpin'', tool_entry_of Deferred []),
      (''metrics_query'', tool_entry_of Deferred [''sourceId'', ''query'']),
      (''metrics_range_query'', tool_entry_of Deferred [''sourceId'', ''query'']),
      (''metrics_discover'', tool_entry_of Always_on [''sourceId'', ''kind'']),
      (''metrics_validate'', tool_entry_of Deferred [''sourceId'', ''query'']),
      (''metric_explore'', tool_entry_of Always_on [''query'']),
      (''logs_query'', tool_entry_of Deferred [''sourceId'', ''query'', ''start'', ''end'']),
      (''logs_labels'', tool_entry_of Deferred [''sourceId'']),
      (''logs_label_values'', tool_entry_of Deferred [''sourceId'', ''label'']),
      (''changes_list_recent'', tool_entry_of Deferred []),
      (''ops_run_command'', tool_entry_of Always_on [''connectorId'', ''command'', ''intent'']),
      (''remediation_plan_create'', tool_entry_of Always_on [''investigationId'', ''summary'', ''steps'']),
      (''remediation_plan_create_rescue'', tool_entry_of Deferred [''rescueForPlanId'', ''investigationId'', ''summary'', ''steps'']),
      (''dashboard_create'', tool_entry_of Always_on [''title'', ''datasourceId'']),
      (''dashboard_list'', tool_entry_of Always_on []),
      (''dashboard_clone'', tool_entry_of Always_on [''sourceDashboardId'', ''targetDatasourceId'']),
      (''dashboard_add_panels'', tool_entry_of Always_on [''panels'']),
      (''dashboard_remove_panels'', tool_entry_of Always_on [''panelIds'']),
      (''dashboard_modify_panel'', tool_entry_of Always_on [''panelId'']),
      (''dashboard_set_title'', tool_entry_of Always_on [''title'']),
      (''dashboard_add_variable'', tool_entry_of Always_on [''name'']),
      (''folder_create'', tool_entry_of Deferred [''title'']),
      (''folder_list'', tool_entry_of Deferred []),
      (''investigation_create'', tool_entry_of Always_on [''question'']),
      (''investigation_list'', tool_entry_of Deferred []),
      (''investigation_add_section'', tool_entry_of Deferred [''type'', ''content'']),
      (''investigation_complete'', tool_entry_of Deferred [''summary'']),
      (''alert_rule_write'', tool_entry_of Deferred [''op'']),
      (''alert_rule_list'', tool_entry_of Deferred []),
      (''alert_rule_history'', tool_entry_of Deferred []),
      (''web_search'', tool_entry_of Always_on [''query'']),
      (''navigate'', tool_entry_of Always_on [''path'']),
      (''tool_search'', tool_entry_of Always_on [''query'']),
      (''connector_list'', tool_entry_of Always_on []),
      (''connector_template_list'', tool_entry_of Deferred []),
      (''connector_detect'', tool_entry_of Deferred []),
      (''connector_propose'', tool_entry_of Deferred [''template'', ''name'', ''config'']),
      (''connector_apply'', tool_entry_of Deferred [''draftId'']),
      (''connector_test'', tool_entry_of Deferred [''connectorId'']),
      (''setting_get'', tool_entry_of Deferred [''key'']),
      (''setting_set'', tool_entry_of Deferred [''key'', ''value'']),
      (''ask_user'', tool_entry_of Always_on [''question''])]"

definition NON_LLM_TOOLS :: "string list" where
  "NON_LLM_TOOLS = [''llm.complete'', ''verifier.run'']"

text \<open>One character stands for the dash of the messages.\<close>

definition em_dash :: string where
  "em_dash = [CHR 0x97]"

definition in_quotes :: "string \<Rightarrow> string" where
  "in_quotes s = [CHR 0x22] @ s @ [CHR 0x22]"

definition missing_schema :: "string \<Rightarrow> string" where
  "missing_schema name = ''Tool schema missing for '' @ in_quotes name @ '' '' @ em_dash @ '' add an entry in tool-schema-registry.ts''"

definition lookupEntry :: "string \<Rightarrow> tool_entry result" where
  "lookupEntry name = (case map_of TOOL_REGISTRY name of None \<Rightarrow> Inl (missing_schema name) | Some entry \<Rightarrow> Inr entry)"

fun res_map :: "('a \<Rightarrow> 'b result) \<Rightarrow> 'a list \<Rightarrow> 'b list result" where
  "res_map f [] = Inr []"
| "res_map f (x # xs) = res_bind (f x) (\<lambda>y. res_bind (res_map f xs) (\<lambda>ys. Inr (y # ys)))"

text \<open>A definition is offered by its name; its description and schema are fixed texts.\<close>

definition llm_tools :: "string list \<Rightarrow> string list" where
  "llm_tools allowedTools = filter (\<lambda>name. name \<notin> set NON_LLM_TOOLS) allowedTools"

definition toolsForAgent :: "string list \<Rightarrow> string list result" where
  "toolsForAgent allowedTools = res_map (\<lambda>name. res_bind (lookupEntry name) (\<lambda>entry. Inr name)) (llm_tools allowedTools)"

definition names_of_category :: "tool_category \<Rightarrow> string list \<Rightarrow> string list result" where
  "names_of_category c names =
     res_bind (res_map (\<lambda>name. res_bind (lookupEntry name) (\<lambda>entry. Inr (name, entry))) names)
       (\<lambda>entries. Inr (map fst (filter (\<lambda>(name, entry). te_category entry = c) entries)))"

definition alwaysOnToolsForAgent :: "string list \<Rightarrow> string list result" where
  "alwaysOnToolsForAgent allowedTools = names_of_category Always_on (llm_tools allowedTools)"

definition deferredToolNamesForAgent :: "string list \<Rightarrow> string list result" where
  "deferredToolNamesForAgent allowedTools = names_of_category Deferred (llm_tools allowedTools)"

definition deferredSchemasByName :: "string list \<Rightarrow> string list" where
  "deferredSchemasByName names =
     filter (\<lambda>name. case map_of TOOL_REGISTRY name of Some entry \<Rightarrow> te_category entry = Deferred | None \<Rightarrow> False) names"

section \<open>Searching deferred tools\<close>

record tool_texts =
  tt_description :: "string \<Rightarrow> string"
  tt_schema :: "string \<Rightarrow> json"

definition MAX_RESULTS :: nat where
  "MAX_RESULTS = 8"

definition SELECT_PREFIX :: string where
  "SELECT_PREFIX = ''select:''"

fun select_from :: "string list \<Rightarrow> string list \<Rightarrow> string list \<Rightarrow> string list" where
  "select_from catalog out [] = out"
| "select_from catalog out (raw # rest) =
     (let name = js_trim raw in
      if name = '''' \<or> name \<in> set out then select_from catalog out rest
      else if name \<in> set catalog
      then (if length (out @ [name]) \<ge> MAX_RESULTS then out @ [name] else select_from catalog (out @ [name]) rest)
      else select_from catalog out rest)"

definition selectTools :: "string list \<Rightarrow> string list \<Rightarrow> string list" where
  "selectTools names catalog = select_from catalog [] names"

definition is_lower :: "char \<Rightarrow> bool" where
  "is_lower c \<longleftrightarrow> 97 \<le> (of_char c :: nat) \<and> (of_char c :: nat) \<le> 122"

definition is_upper :: "char \<Rightarrow> bool" where
  "is_upper c \<longleftrightarrow> 65 \<le> (of_char c :: nat) \<and> (of_char c :: nat) \<le> 90"

fun split_camel :: "string \<Rightarrow> string" where
  "split_camel (a # b # s) = (if is_lower a \<and> is_upper b then a # CHR '' '' # split_camel (b # s) else a # split_camel (b # s))"
| "split_camel s = s"

function js_words :: "string \<Rightarrow> string list" where
  "js_words [] = []"
| "js_words (c # s) =
     (if js_ws c then js_words s
      else (c # takeWhile (\<lambda>x. \<not> js_ws x) s) # js_words (dropWhile (\<lambda>x. \<not> js_ws x) s))"
  by pat_completeness auto
termination
  by (relation "measure length") (auto simp: less_Suc_eq_le length_dropWhile_le)

definition parseNameParts :: "string \<Rightarrow> string list" where
  "parseNameParts name =
     js_words (js_toLowerCase (map (\<lambda>c. if c \<in> {CHR ''_'', CHR ''.''} then CHR '' '' else c) (split_camel name)))"

definition re_word :: "char \<Rightarrow> bool" where
  "re_word c \<longleftrightarrow> is_lower c \<or> is_upper c \<or> digit_value c \<noteq> None \<or> c = CHR ''_''"

definition boundary :: "char option \<Rightarrow> char option \<Rightarrow> bool" where
  "boundary a b \<longleftrightarrow> (case a of Some c \<Rightarrow> re_word c | None \<Rightarrow> False) \<noteq> (case b of Some c \<Rightarrow> re_word c | None \<Rightarrow> False)"

definition first_char :: "string \<Rightarrow> char option" where
  "first_char s = (case s of [] \<Rightarrow> None | c # _ \<Rightarrow> Some c)"

text \<open>\<^verbatim>\<open>/\bterm\b/\<close>, with the character before the position carried along.\<close>

fun word_test :: "string \<Rightarrow> char option \<Rightarrow> string \<Rightarrow> bool" where
  "word_test t prev s =
     (js_startsWith s t \<and> boundary prev (first_char s) \<and> boundary (first_char (rev t)) (first_char (drop (length t) s))
      \<or> (case s of [] \<Rightarrow> False | c # rest \<Rightarrow> word_test t (Some c) rest))"

declare word_test.simps [simp del]

definition term_score :: "string list \<Rightarrow> string \<Rightarrow> string \<Rightarrow> nat \<times> bool" where
  "term_score nameParts descLower t =
     (let (s1, h1) = (if t \<in> set nameParts then (10, True)
                      else if list_ex (\<lambda>p. js_startsWith p t) nameParts then (5, True) else (0, False));
          hit = word_test t None descLower
      in (s1 + (if hit then 2 else 0), h1 \<or> hit))"

definition score_tool :: "tool_texts \<Rightarrow> string list \<Rightarrow> string \<Rightarrow> nat \<times> nat" where
  "score_tool texts terms name =
     (let scores = map (term_score (parseNameParts name) (js_toLowerCase (tt_description texts name))) terms
      in (sum_list (map fst scores), length (filter snd scores)))"

text \<open>Three stable sorts, the last key first: the comparison by terms hit, then score, then name.\<close>

definition rank_tools :: "(string \<times> nat \<times> nat) list \<Rightarrow> (string \<times> nat \<times> nat) list" where
  "rank_tools hits = sort_key (\<lambda>(name, score, termsHit). - int termsHit)
     (sort_key (\<lambda>(name, score, termsHit). - int score) (sort_key fst hits))"

definition searchTools :: "tool_texts \<Rightarrow> string \<Rightarrow> string list \<Rightarrow> string list" where
  "searchTools texts query catalog =
     (let trimmed = js_trim query in
      if trimmed = '''' then []
      else if js_startsWith (js_toLowerCase trimmed) SELECT_PREFIX
      then selectTools (split_on CHR '','' (drop (length SELECT_PREFIX) trimmed)) catalog
      else (let queryLower = js_toLowerCase trimmed in
        case List.find (\<lambda>name. js_toLowerCase name = queryLower) catalog of
          Some name \<Rightarrow> [name]
        | None \<Rightarrow>
            (let prefixMatches = take MAX_RESULTS (filter (\<lambda>name. js_startsWith (js_toLowerCase name) queryLower) catalog);
                 terms = js_words queryLower;
                 scored = map (\<lambda>name. (name, score_tool texts terms name)) catalog;
                 hits = filter (\<lambda>(name, score, termsHit). score > 0) scored
             in if CHR ''_'' \<in> set queryLower \<and> CHR '' '' \<notin> set queryLower \<and> prefixMatches \<noteq> [] then prefixMatches
                else if terms = [] then []
                else map fst (take MAX_RESULTS (rank_tools hits)))))"

definition formatToolSearchObservation :: "tool_texts \<Rightarrow> string list \<Rightarrow> string" where
  "formatToolSearchObservation texts defs =
     (if defs = []
      then ''No tools matched. Refine the query or use `select:<name>` to load a known tool by exact name.''
      else ''<functions>'' @ [CHR 0x0A] @ join_with [CHR 0x0A] (map (\<lambda>name. ''<function>'' @ JSON_stringify (JObj
             [(''description'', JStr (tt_description texts name)), (''name'', JStr name), (''parameters'', tt_schema texts name)])
             @ ''</function>'') defs) @ [CHR 0x0A] @ ''</functions>'')"

record search_result =
  sr_observation :: string
  sr_loaded :: "string list"
  sr_error :: "string option"

definition query_required :: string where
  "query_required = ''Error: '' @ in_quotes ''query'' @ '' is required. Use '' @ in_quotes ''select:<name>[,<name>...]''
     @ '' to load known tools by name, or whitespace-separated keywords to search.''"

definition deferredCatalog :: "string list \<Rightarrow> string list result" where
  "deferredCatalog allowedTools =
     res_bind (deferredToolNamesForAgent allowedTools) (\<lambda>names. Inr (js_uniq (filter (\<lambda>n. map_of TOOL_REGISTRY n \<noteq> None) names)))"

definition resolveToolSearch :: "tool_texts \<Rightarrow> string \<Rightarrow> string list \<Rightarrow> search_result result" where
  "resolveToolSearch texts query allowedTools =
     (let trimmed = js_trim query in
      if trimmed = '''' then Inr \<lparr>sr_observation = query_required, sr_loaded = [], sr_error = Some query_required\<rparr>
      else res_bind (deferredCatalog allowedTools) (\<lambda>catalog.
        let defs = (if js_startsWith (js_toLowerCase trimmed) SELECT_PREFIX
                    then selectTools (split_on CHR '','' (drop (length SELECT_PREFIX) trimmed)) catalog
                    else searchTools texts trimmed catalog)
        in Inr \<lparr>sr_observation = formatToolSearchObservation texts defs, sr_loaded = defs, sr_error = None\<rparr>))"

section \<open>The action runner\<close>

text \<open>
  The events a client sees; the time stamps of agent events are left out.  \<^verbatim>\<open>Sse_other\<close> stands for
  the kinds only handlers send.
\<close>

datatype sse =
    Sse_thinking string
  | Sse_tool_call string tool_args string
  | Sse_tool_result string string bool
  | Sse_agent_event string string tool_args
  | Sse_approval_required string tool_args string
  | Sse_reply string
  | Sse_ask_user string "(string \<times> string \<times> string option) list"
  | Sse_error string
  | Sse_other string json

type_synonym 'w handlers =
  "string \<Rightarrow> tool_args \<Rightarrow> 'w action_ctx \<Rightarrow> string option result \<times> 'w action_ctx \<times> sse list"

definition DISPATCH :: "(string \<times> string) list" where
  "DISPATCH =
     [(''dashboard_create'', ''handleDashboardCreate''),
      (''dashboard_list'', ''handleDashboardList''),
      (''dashboard_clone'', ''handleDashboardClone''),
      (''dashboard_add_panels'', ''handleDashboardAddPanels''),
      (''dashboard_set_title'', ''handleDashboardSetTitle''),
      (''dashboard_remove_panels'', ''handleDashboardRemovePanels''),
      (''dashboard_modify_panel'', ''handleDashboardModifyPanel''),
      (''dashboard_add_variable'', ''handleDashboardAddVariable''),
      (''investigation_create'', ''handleInvestigationCreate''),
      (''investigation_list'', ''handleInvestigationList''),
      (''investigation_add_section'', ''handleInvestigationAddSection''),
      (''investigation_complete'', ''handleInvestigationComplete''),
      (''alert_rule_write'', ''handleAlertRuleWrite''),
      (''alert_rule_list'', ''handleAlertRuleList''),
      (''alert_rule_history'', ''handleAlertRuleHistory''),
      (''folder_create'', ''handleFolderCreate''),
      (''folder_list'', ''handleFolderList''),
      (''navigate'', ''handleNavigate''),
      (''connectors_list'', ''handleConnectorsList''),
      (''connectors_suggest'', ''handleConnectorsSuggest''),
      (''connectors_pin'', ''handleConnectorsPin''),
      (''connectors_unpin'', ''handleConnectorsUnpin''),
      (''metrics_query'', ''handleMetricsQuery''),
      (''metrics_range_query'', ''handleMetricsRangeQuery''),
      (''metrics_discover'', ''handleMetricsDiscover''),
      (''metrics_validate'', ''handleMetricsValidate''),
      (''metric_explore'', ''handleMetricExplore''),
      (''logs_query'', ''handleLogsQuery''),
      (''logs_labels'', ''handleLogsLabels''),
      (''logs_label_values'', ''handleLogsLabelValues''),
      (''changes_list_recent'', ''handleChangesListRecent''),
      (''ops_run_command'', ''handleOpsRunCommand''),
      (''remediation_plan_create'', ''handleRemediationPlanCreate''),
      (''remediation_plan_create_rescue'', ''handleRemediationPlanCreateRescue''),
      (''connector_list'', ''handleConnectorList''),
      (''connector_template_list'', ''handleConnectorTemplateList''),
      (''connector_detect'', ''handleConnectorDetect''),
      (''connector_propose'', ''handleConnectorPropose''),
      (''connector_apply'', ''handleConnectorApply''),
      (''connector_test'', ''handleConnectorTest''),
      (''setting_get'', ''handleSettingGet''),
      (''setting_set'', ''handleSettingSet''),
      (''web_search'', ''handleWebSearch'')]"

definition dispatchAction :: "'w handlers \<Rightarrow> string \<Rightarrow> tool_args \<Rightarrow> 'w action_ctx \<Rightarrow> string option result \<times> 'w action_ctx \<times> sse list" where
  "dispatchAction H act args ctx =
     (case map_of DISPATCH act of
        Some h \<Rightarrow> H h args ctx
      | None \<Rightarrow> if act = ''tool_search'' then (Inr None, ctx, [])
                else (Inr (Some (''Unknown action '' @ in_quotes act @ '' - skipping.'')), ctx, []))"

definition missing_arg :: "tool_args \<Rightarrow> string \<Rightarrow> bool" where
  "missing_arg args name =
     (case map_of args name of None \<Rightarrow> True | Some JNull \<Rightarrow> True | Some (JStr s) \<Rightarrow> js_trim s = '''' | Some _ \<Rightarrow> False)"

definition checkRequiredArgs :: "string \<Rightarrow> tool_args \<Rightarrow> string option" where
  "checkRequiredArgs act args =
     (let required = (case map_of TOOL_REGISTRY act of Some entry \<Rightarrow> te_required entry | None \<Rightarrow> []);
          missing = filter (missing_arg args) required
      in if missing = [] then None
         else Some (''Cannot run '' @ act @ '': missing required argument'' @ (if length missing > 1 then ''s'' else '''') @ '' ''
                @ join_with '', '' (map in_quotes missing)
                @ ''. Ask the user for the missing value (use ask_user) instead of guessing.''))"

definition RUNNER_MUTATIONS :: "string list" where
  "RUNNER_MUTATIONS = [''dashboard_create'', ''dashboard_clone'', ''dashboard_add_panels'', ''dashboard_remove_panels'',
     ''dashboard_modify_panel'', ''dashboard_rearrange'', ''dashboard_add_variable'', ''dashboard_set_title'',
     ''investigation_create'', ''investigation_add_section'', ''investigation_complete'', ''alert_rule_write'']"

definition isMutationAction :: "string \<Rightarrow> bool" where
  "isMutationAction act \<longleftrightarrow> act \<in> set RUNNER_MUTATIONS"

text \<open>
  The state of a run.  \<^verbatim>\<open>rn_calls\<close> records the handler calls with the context each was given; the
  code has no such list, it is there to state what the runner guarantees.
\<close>

record 'w runner =
  rn_ctx :: "'w action_ctx"
  rn_audit :: audit_state
  rn_count :: nat
  rn_calls :: "(string \<times> tool_args \<times> 'w action_ctx) list"

record 'w runner_deps =
  rd_agentDef :: agent_def
  rd_reporter :: reporter_deps
  rd_handlers :: "'w handlers"
  rd_clock :: "nat \<Rightarrow> int"

definition agent_event :: "agent_def \<Rightarrow> string \<Rightarrow> tool_args \<Rightarrow> sse" where
  "agent_event def kind metadata = Sse_agent_event kind (ag_type def) metadata"

definition deny_name :: "deny_reason \<Rightarrow> string" where
  "deny_name r = (case r of Deny_allowedTools \<Rightarrow> ''allowedTools'' | Deny_permissionMode \<Rightarrow> ''permissionMode'' | Deny_rbac \<Rightarrow> ''rbac'')"

definition json_opt :: "string option \<Rightarrow> json" where
  "json_opt v = (case v of Some s \<Rightarrow> JStr s | None \<Rightarrow> JNull)"

text \<open>
  Every call gets a context built from the dependencies of the run: the service, the identity and
  the rule store stay, what the handlers keep in shared state survives, and so does the permission
  cache of the identity object.
\<close>

definition buildActionContext :: "'w action_ctx \<Rightarrow> 'w action_ctx \<Rightarrow> 'w action_ctx" where
  "buildActionContext deps left = left\<lparr>cx_ac := cx_ac deps, cx_getFolderUid := cx_getFolderUid deps,
     cx_identity := (cx_identity deps)\<lparr>id_permissions := id_permissions (cx_identity left)\<rparr>\<rparr>"

definition run_handler ::
  "'w runner_deps \<Rightarrow> string \<Rightarrow> tool_args \<Rightarrow> 'w runner \<Rightarrow> string option result \<times> 'w runner \<times> sse list" where
  "run_handler deps act args r =
     (let ctx = rn_ctx r;
          (out, left, evs) = dispatchAction (rd_handlers deps) act args ctx;
          r' = r\<lparr>rn_ctx := buildActionContext ctx left,
                 rn_calls := (if map_of DISPATCH act = None then rn_calls r else rn_calls r @ [(act, args, ctx)])\<rparr>
      in case out of
           Inr obs \<Rightarrow> (Inr obs, r', evs)
         | Inl err \<Rightarrow>
             (let text = ''Action '' @ in_quotes act @ '' failed: '' @ err @ ''. Do NOT retry '' @ em_dash
                    @ '' end your turn with a plain-text reply that tells the user what went wrong.''
              in (Inr (Some text), r', evs @ [Sse_tool_result act text False,
                    agent_event (rd_agentDef deps) ''agent.tool_completed''
                      [(''tool'', JStr act), (''success'', JBool False), (''error'', JStr err)]])))"

definition runner_execute ::
  "'w runner_deps \<Rightarrow> string \<Rightarrow> tool_args \<Rightarrow> 'w runner \<Rightarrow> string option result \<times> 'w runner \<times> sse list" where
  "runner_execute deps act args r0 =
     (let def = rd_agentDef deps; now = rd_clock deps (rn_count r0);
          (gateResult, ctx) = checkPermission def act args (rn_ctx r0);
          r = r0\<lparr>rn_ctx := ctx, rn_count := Suc (rn_count r0)\<rparr>
      in if \<not> gr_ok gateResult
         then (let observation = denialObservation gateResult
               in (Inr (Some observation),
                   r\<lparr>rn_audit := writeToolAudit (rd_reporter deps) now Audit_denied act args gateResult (rn_audit r)\<rparr>,
                   [agent_event def ''agent.tool_blocked'' [(''tool'', JStr act),
                      (''reason'', json_opt (map_option deny_name (gr_reason gateResult))),
                      (''deniedAction'', json_opt (gr_action gateResult)), (''deniedScope'', json_opt (gr_scope gateResult))],
                    Sse_tool_result act observation False]))
         else if isMutationAction act \<and> ag_permissionMode def = Approval_required_mode
         then (Inr (Some (''Action '' @ in_quotes act @ '' requires approval. A proposal has been submitted.'')), r,
               [agent_event def ''agent.artifact_proposed'' [(''tool'', JStr act), (''args'', JObj args)],
                Sse_approval_required act args (''Action '' @ in_quotes act @ '' requires approval before execution.'')])
         else (case checkRequiredArgs act args of
                 Some missingObs \<Rightarrow> (Inr (Some missingObs), r, [Sse_tool_result act missingObs False])
               | None \<Rightarrow>
                   (let r1 = r\<lparr>rn_audit := writeToolAudit (rd_reporter deps) now Audit_allow act args gateResult (rn_audit r)\<rparr>;
                        (out, r2, evs) = run_handler deps act args r1
                    in (out, r2, agent_event def ''agent.tool_called'' [(''tool'', JStr act)] # evs))))"

section \<open>Messages\<close>

datatype content_block =
    Text_block string
  | Tool_use string string tool_args "json option"
  | Tool_result string string string

datatype msg_content = Plain string | Blocks "content_block list"

record llm_message =
  ms_role :: string
  ms_content :: msg_content

definition message :: "string \<Rightarrow> msg_content \<Rightarrow> llm_message" where
  "message role content = \<lparr>ms_role = role, ms_content = content\<rparr>"

record observation =
  ob_action :: string
  ob_args :: tool_args
  ob_result :: string
  ob_toolUseId :: "string option"
  ob_batchId :: "nat option"
  ob_providerMetadata :: "json option"
  ob_preToolText :: "string option"

definition block_json :: "content_block \<Rightarrow> json" where
  "block_json b = JObj (case b of
       Text_block t \<Rightarrow> [(''type'', JStr ''text''), (''text'', JStr t)]
     | Tool_use i n a meta \<Rightarrow> [(''type'', JStr ''tool_use''), (''id'', JStr i), (''name'', JStr n), (''input'', JObj a)]
         @ (case meta of Some v \<Rightarrow> [(''providerMetadata'', v)] | None \<Rightarrow> [])
     | Tool_result i n t \<Rightarrow> [(''type'', JStr ''tool_result''), (''tool_use_id'', JStr i), (''tool_name'', JStr n), (''content'', JStr t)])"

definition estimateTokens :: "string \<Rightarrow> int" where
  "estimateTokens text = (int (length text) + 3) div 4"

definition content_text :: "msg_content \<Rightarrow> string" where
  "content_text c = (case c of Plain s \<Rightarrow> s | Blocks bs \<Rightarrow> JSON_stringify (JArr (map block_json bs)))"

definition estimateMessagesTokens :: "llm_message list \<Rightarrow> int" where
  "estimateMessagesTokens messages = sum_list (map (\<lambda>m. estimateTokens (content_text (ms_content m)) + 4) messages)"

definition CONTEXT_WINDOW :: int where
  "CONTEXT_WINDOW = 128000"

definition TOKEN_BUDGET_TOKENS :: int where
  "TOKEN_BUDGET_TOKENS = CONTEXT_WINDOW * 95 div 100"

definition OBSERVATION_KEEP_RECENT :: nat where
  "OBSERVATION_KEEP_RECENT = 6"

definition OBSERVATION_MAX_CHARS :: nat where
  "OBSERVATION_MAX_CHARS = 2000"

definition MAX_ITERATIONS :: nat where
  "MAX_ITERATIONS = 200"

text \<open>Consecutive observations of one batch; \<^verbatim>\<open>cur\<close> is the batch being collected.\<close>

fun group_batches :: "nat option \<Rightarrow> observation list \<Rightarrow> observation list \<Rightarrow> observation list list" where
  "group_batches bid cur [] = (if cur \<noteq> [] then [cur] else [])"
| "group_batches bid cur (obs # rest) =
     (if ob_batchId obs \<noteq> bid
      then (if cur \<noteq> [] then [cur] else []) @ group_batches (ob_batchId obs) [obs] rest
      else group_batches bid (cur @ [obs]) rest)"

definition result_text :: "bool \<Rightarrow> string \<Rightarrow> string" where
  "result_text isOlder res =
     (if isOlder then ''[Earlier] '' @ take 120 res @ (if length res > 120 then ''...'' else '''')
      else if length res > OBSERVATION_MAX_CHARS
      then take OBSERVATION_MAX_CHARS res @ [CHR 0x0A] @ ''... (truncated, '' @ nat_decimal (length res) @ '' chars total)''
      else res)"

definition replay_id :: "nat \<Rightarrow> string \<Rightarrow> string" where
  "replay_id i act = ''replay_'' @ nat_decimal i @ ''_'' @ act"

definition use_block :: "nat \<Rightarrow> observation \<Rightarrow> content_block" where
  "use_block idx obs = Tool_use (coalesce (ob_toolUseId obs) (replay_id idx (ob_action obs))) (ob_action obs) (ob_args obs)
     (ob_providerMetadata obs)"

fun result_blocks :: "bool \<Rightarrow> nat \<Rightarrow> observation list \<Rightarrow> content_block list" where
  "result_blocks isOlder k [] = []"
| "result_blocks isOlder k (obs # rest) =
     Tool_result (coalesce (ob_toolUseId obs) (replay_id k (ob_action obs))) (ob_action obs) (result_text isOlder (ob_result obs))
       # result_blocks isOlder (Suc k) rest"

fun batch_messages :: "nat \<Rightarrow> nat \<Rightarrow> observation list list \<Rightarrow> llm_message list" where
  "batch_messages cutoff idx [] = []"
| "batch_messages cutoff idx (batch # rest) =
     (let isOlder = idx + length batch \<le> cutoff;
          idx' = idx + length batch;
          preText = (case batch of [] \<Rightarrow> None | obs # _ \<Rightarrow> ob_preToolText obs);
          assistantBlocks = (if truthy preText then [Text_block (the preText)] else []) @ map (use_block idx') batch
      in message ''assistant'' (Blocks assistantBlocks)
         # message ''user'' (Blocks (result_blocks isOlder (idx + 1) batch))
         # batch_messages cutoff idx' rest)"

definition buildMessages :: "string option \<Rightarrow> string \<Rightarrow> string \<Rightarrow> observation list \<Rightarrow> llm_message list" where
  "buildMessages conversationSummary systemPrompt userMessage observations =
     [message ''system'' (Plain systemPrompt)]
     @ (if truthy conversationSummary
        then [message ''user'' (Plain (''[Conversation Summary]'' @ [CHR 0x0A] @ the conversationSummary)),
              message ''assistant'' (Plain ''Understood. I have the context from the previous conversation.'')]
        else [])
     @ [message ''user'' (Plain userMessage)]
     @ batch_messages (length observations - OBSERVATION_KEEP_RECENT) 0 (group_batches None [] observations)"

section \<open>Errors of the model\<close>

text \<open>The patterns are matched on the lower-case text; captured groups are cut from the original.\<close>

definition api_status :: "string \<Rightarrow> nat option" where
  "api_status msg = re_search (\<lambda>s. let p = ''api error ''; ds = takeWhile (\<lambda>c. digit_value c \<noteq> None) (drop (length p) s);
       rest = drop (length p + length ds) s
     in if js_startsWith s p \<and> ds \<noteq> [] \<and> first_char rest = Some (CHR '':'') then Some (nat (digits_value 0 ds)) else None)
     (js_toLowerCase msg)"

definition is_rate_limit :: "string \<Rightarrow> bool" where
  "is_rate_limit msg \<longleftrightarrow> list_ex (contains_text (js_toLowerCase msg))
     [''ratelimit'', ''rate-limit'', ''rate limit'', ''quota'', ''resource_exhausted'', ''credit balance'', ''billing'']"

definition is_billing :: "string \<Rightarrow> bool" where
  "is_billing msg \<longleftrightarrow> contains_text (js_toLowerCase msg) ''credit balance'' \<or> contains_text (js_toLowerCase msg) ''billing''
     \<or> re_search (\<lambda>s. let p = ''insufficient''; line = takeWhile (\<lambda>c. c \<notin> {CHR 0x0A, CHR 0x0D}) (drop (length p) s)
         in if js_startsWith s p \<and> (contains_text line ''credit'' \<or> contains_text line ''funds'') then Some () else None)
         (js_toLowerCase msg) \<noteq> None"

definition is_number_char :: "char \<Rightarrow> bool" where
  "is_number_char c \<longleftrightarrow> digit_value c \<noteq> None \<or> c = CHR ''.''"

definition drop_opt :: "(char \<Rightarrow> bool) \<Rightarrow> string \<Rightarrow> string" where
  "drop_opt P s = (case s of [] \<Rightarrow> [] | c # r \<Rightarrow> if P c then r else s)"

definition retry_in :: "string \<Rightarrow> string option" where
  "retry_in msg = re_search (\<lambda>s. let p = ''retry in ''; s0 = drop (length p) s; ds = takeWhile is_number_char s0;
       s1 = dropWhile js_ws (dropWhile is_number_char s0);
       s2 = drop_opt (\<lambda>c. js_lower_char c = CHR ''s'') (drop_opt (\<lambda>c. js_lower_char c \<in> {CHR ''m'', CHR ''s''}) s1)
     in if js_startsWith (js_toLowerCase s) p \<and> ds \<noteq> [] then Some (take (length s0 - length s2) s0) else None) msg"

definition retry_delay :: "string \<Rightarrow> string option" where
  "retry_delay msg = re_search (\<lambda>s. let p = ''retrydelay''; sep = (\<lambda>c. c \<in> {CHR 0x27, CHR 0x22, CHR '':''} \<or> js_ws c);
       s0 = drop (length p) s; s1 = dropWhile sep s0; ds = takeWhile is_number_char s1; s2 = dropWhile is_number_char s1
     in if js_startsWith (js_toLowerCase s) p \<and> length s1 < length s0 \<and> ds \<noteq> []
           \<and> (case s2 of [] \<Rightarrow> False | c # _ \<Rightarrow> js_lower_char c = CHR ''s'')
        then Some (take (length ds + 1) s1) else None) msg"

definition classifyLlmError :: "string \<Rightarrow> string" where
  "classifyLlmError msg =
     (case api_status msg of
        None \<Rightarrow> ''The LLM call failed: '' @ msg
      | Some status \<Rightarrow>
          if status = 429 \<or> is_rate_limit msg
          then (let retryHint = (case (retry_in msg, retry_delay msg) of
                      (Some m, _) \<Rightarrow> '' (try again in '' @ m @ '')'' | (None, Some m) \<Rightarrow> '' (try again in '' @ m @ '')'' | _ \<Rightarrow> '''')
                in if is_billing msg
                   then ''The LLM provider rejected the request due to insufficient credits / billing. Top up the account or switch to a different model in Setup.''
                   else ''The LLM provider hit a rate limit or quota cap'' @ retryHint @ ''. Switch to a different model or wait before retrying.'')
          else if status = 401 \<or> status = 403
          then ''The LLM provider rejected the API key. Check the model configuration in Setup.''
          else if status \<ge> 400 \<and> status < 500
          then ''The LLM provider rejected the request ('' @ nat_decimal status @ ''). Check the model configuration and try again.''
          else if status \<ge> 500
          then ''The LLM provider returned a server error ('' @ nat_decimal status @ ''). Please retry in a moment.''
          else ''The LLM provider returned an unexpected error ('' @ nat_decimal status @ '').'')"

section \<open>The loop\<close>

record tool_call =
  tc_id :: string
  tc_name :: string
  tc_input :: "tool_args option"
  tc_providerMetadata :: "json option"

text \<open>
  The language model: an exception with its name and message, or the text, the tool calls and the
  thinking blocks of a response.
\<close>

datatype llm_outcome =
    Llm_throws string string
  | Llm_responds string "tool_call list" "string list"

type_synonym llm_model = "nat \<Rightarrow> llm_message list \<Rightarrow> string list \<Rightarrow> llm_outcome"

type_synonym 's executor = "string \<Rightarrow> tool_args \<Rightarrow> 's \<Rightarrow> string option result \<times> 's \<times> sse list"

datatype loop_result = Returned string | Threw string string

record loop_deps =
  ld_gateway :: llm_model
  ld_userId :: string
  ld_allowedTools :: "string list"
  ld_texts :: tool_texts
  ld_conversationSummary :: "string option"
  ld_aborted :: "nat \<Rightarrow> bool"

text \<open>
  The variables of a run, the state of the executor, the events sent, and the requests made to the
  model with the tools offered.
\<close>

record 's loop_state =
  lp_obs :: "observation list"
  lp_lastAction :: "string option"
  lp_lastDraft :: "string option"
  lp_lastObs :: "string option"
  lp_batch :: nat
  lp_loaded :: "string list"
  lp_sse :: "sse list"
  lp_ext :: 's
  lp_requests :: "(llm_message list \<times> string list) list"

definition send :: "sse \<Rightarrow> 's loop_state \<Rightarrow> 's loop_state" where
  "send e st = st\<lparr>lp_sse := lp_sse st @ [e]\<rparr>"

definition ask_llm :: "loop_deps \<Rightarrow> llm_message list \<Rightarrow> string list \<Rightarrow> 's loop_state \<Rightarrow> llm_outcome \<times> 's loop_state" where
  "ask_llm deps messages tools st =
     (ld_gateway deps (length (lp_requests st)) messages tools, st\<lparr>lp_requests := lp_requests st @ [(messages, tools)]\<rparr>)"

text \<open>Abort checks: \<^verbatim>\<open>2 i\<close> at the start of turn \<^verbatim>\<open>i\<close>, \<^verbatim>\<open>2 i + 1\<close> just before its request.\<close>

definition abort_error :: loop_result where
  "abort_error = Threw ''AbortError'' ''Agent loop aborted by caller''"

definition pick_text :: "json option \<Rightarrow> string option" where
  "pick_text v = (case v of Some (JStr s) \<Rightarrow> if js_trim s \<noteq> '''' then Some s else None | _ \<Rightarrow> None)"

definition or_text :: "string option \<Rightarrow> string option \<Rightarrow> string option" where
  "or_text a b = (case a of Some x \<Rightarrow> Some x | None \<Rightarrow> b)"

definition ask_text :: "tool_args \<Rightarrow> string option \<Rightarrow> string" where
  "ask_text args msg = coalesce (or_text (pick_text (map_of args ''question'')) (or_text (pick_text (map_of args ''message''))
     (or_text (pick_text (map_of args ''text'')) msg))) ''''"

definition ask_option :: "json \<Rightarrow> (string \<times> string \<times> string option) option" where
  "ask_option v = (case v of
       JObj obj \<Rightarrow> (case (pick_text (map_of obj ''id''), pick_text (map_of obj ''label'')) of
           (Some i, Some l) \<Rightarrow> Some (i, l, pick_text (map_of obj ''hint'')) | _ \<Rightarrow> None)
     | _ \<Rightarrow> None)"

definition ask_options :: "tool_args \<Rightarrow> (string \<times> string \<times> string option) list" where
  "ask_options args = (case map_of args ''options'' of Some (JArr vs) \<Rightarrow> List.map_filter ask_option vs | _ \<Rightarrow> [])"

definition TERMINAL_ACTIONS :: "string list" where
  "TERMINAL_ACTIONS = [''ask_user'']"

definition TOOL_SEARCH_ACTION :: string where
  "TOOL_SEARCH_ACTION = ''tool_search''"

definition answer_ask_user :: "tool_args \<Rightarrow> string option \<Rightarrow> 's loop_state \<Rightarrow> string \<times> 's loop_state" where
  "answer_ask_user args msg st =
     (let text = ask_text args msg; options = ask_options args in
      if options \<noteq> [] then (text, send (Sse_ask_user text options) st)
      else if text \<noteq> '''' then (text, send (Sse_reply text) st)
      else (text, st))"

definition search_summary :: "search_result \<Rightarrow> string" where
  "search_summary res =
     (case sr_error res of
        Some e \<Rightarrow> e
      | None \<Rightarrow> if sr_loaded res \<noteq> []
          then ''Loaded '' @ nat_decimal (length (sr_loaded res)) @ '' tool'' @ (if length (sr_loaded res) = 1 then '''' else ''s'') @ '': ''
               @ join_with '', '' (sr_loaded res)
          else ''No tools matched'')"

definition search_step ::
  "loop_deps \<Rightarrow> string list \<Rightarrow> tool_args \<Rightarrow> 's loop_state \<Rightarrow> string option result \<times> 's loop_state" where
  "search_step deps allDeferredNames args st =
     (let query = text_arg args ''query'';
          st1 = send (Sse_tool_call TOOL_SEARCH_ACTION [(''query'', JStr query)] ''Loading tool'') st
      in case resolveToolSearch (ld_texts deps) query allDeferredNames of
           Inl e \<Rightarrow> (Inl e, st1)
         | Inr res \<Rightarrow> (Inr (Some (sr_observation res)),
             send (Sse_tool_result TOOL_SEARCH_ACTION (search_summary res) (sr_error res = None))
               (st1\<lparr>lp_loaded := lp_loaded st1 @ filter (\<lambda>n. n \<notin> set (lp_loaded st1)) (sr_loaded res)\<rparr>)))"

definition exec_step :: "'s executor \<Rightarrow> string \<Rightarrow> tool_args \<Rightarrow> 's loop_state \<Rightarrow> string option result \<times> 's loop_state" where
  "exec_step exec act args st =
     (let (out, ext, evs) = exec act args (lp_ext st) in (out, st\<lparr>lp_ext := ext, lp_sse := lp_sse st @ evs\<rparr>))"

definition observe :: "tool_call \<Rightarrow> string \<Rightarrow> nat \<Rightarrow> string option \<Rightarrow> observation" where
  "observe tc text batchId msg = \<lparr>ob_action = tc_name tc, ob_args = coalesce (tc_input tc) [], ob_result = text,
     ob_toolUseId = Some (tc_id tc), ob_batchId = Some batchId, ob_providerMetadata = tc_providerMetadata tc,
     ob_preToolText = (if truthy msg then msg else None)\<rparr>"

text \<open>
  One batch of tool calls; \<^verbatim>\<open>msg\<close> is the prose before the first of them.  The run ends inside the
  batch on \<^verbatim>\<open>ask_user\<close>, on a handler that returns nothing, and on an exception.
\<close>

fun run_batch ::
  "loop_deps \<Rightarrow> 's executor \<Rightarrow> string list \<Rightarrow> nat \<Rightarrow> string option \<Rightarrow> tool_call list \<Rightarrow> 's loop_state \<Rightarrow>
     loop_result option \<times> 's loop_state" where
  "run_batch deps exec allDeferred batchId msg [] st = (None, st)"
| "run_batch deps exec allDeferred batchId msg (tc # rest) st =
     (let act = tc_name tc; args = coalesce (tc_input tc) [];
          st1 = st\<lparr>lp_lastAction := Some act, lp_lastDraft := msg\<rparr>
      in if act \<in> set TERMINAL_ACTIONS
         then (let (text, st2) = answer_ask_user args msg st1 in (Some (Returned text), st2))
         else (let (out, st2) = (if act = TOOL_SEARCH_ACTION then search_step deps allDeferred args st1 else exec_step exec act args st1)
               in case out of
                    Inl err \<Rightarrow> (Some (Threw ''Error'' err), st2)
                  | Inr None \<Rightarrow> (Some (Returned ''''), st2)
                  | Inr (Some text) \<Rightarrow>
                      run_batch deps exec allDeferred batchId None rest
                        (st2\<lparr>lp_lastObs := Some text, lp_obs := lp_obs st2 @ [observe tc text batchId msg]\<rparr>)))"

definition reply_and_return :: "string \<Rightarrow> 's loop_state \<Rightarrow> loop_result \<times> 's loop_state" where
  "reply_and_return text st = (Returned text, send (Sse_reply text) st)"

definition budget_reply :: "nat \<Rightarrow> string" where
  "budget_reply i = ''I've worked through '' @ nat_decimal i @ '' step'' @ (if i = 1 then '''' else ''s'')
     @ '' on this task, but the conversation has grown past the context budget. Here's a summary of where I am so far ''
     @ em_dash @ '' ask me a focused follow-up if you need more detail.''"

definition ceiling_reply :: string where
  "ceiling_reply = ''I ran through '' @ nat_decimal MAX_ITERATIONS @ '' steps without reaching a clear stopping point. This usually means the task branched more than expected or I got stuck on a loop. Try narrowing the request, or ask me what I learned along the way.''"

definition no_content_reply :: string where
  "no_content_reply = ''Model returned no content and no tool call. This usually means the prompt or tool schema is misconfigured.''"

definition generic_reply :: string where
  "generic_reply = ''I ran the action, but couldn't summarize the result. Check the activity log above for the raw output.''"

definition composePostActionReply ::
  "loop_deps \<Rightarrow> string \<Rightarrow> string \<Rightarrow> string option \<Rightarrow> string \<Rightarrow> 's loop_state \<Rightarrow> string \<times> 's loop_state" where
  "composePostActionReply deps userMessage act draftReply observationText st =
     (let nl = [CHR 0x0A];
          messages = [message ''system'' (Plain ''You are writing the final assistant reply for an observability dashboard chat after an action has already completed. Write one short, natural sentence in plain language. Do not mention internal tool names, JSON, or implementation details.''),
            message ''user'' (Plain (''User request: '' @ userMessage @ nl @ ''Action: '' @ act @ nl @ ''Draft reply: ''
              @ coalesce draftReply ''(none)'' @ nl @ ''Result: '' @ observationText))];
          (resp, st1) = ask_llm deps messages [] st;
          draft = (case draftReply of Some d \<Rightarrow> js_trim d | None \<Rightarrow> '''');
          fallback = (if draft \<noteq> '''' then draft else generic_reply)
      in case resp of
           Llm_responds content calls thinking \<Rightarrow> (if js_trim content \<noteq> '''' then js_trim content else fallback, st1)
         | Llm_throws name msg \<Rightarrow> (fallback, st1))"

definition finish_run :: "loop_deps \<Rightarrow> string \<Rightarrow> 's loop_state \<Rightarrow> loop_result \<times> 's loop_state" where
  "finish_run deps userMessage st =
     (case (lp_lastAction st, lp_lastObs st) of
        (Some act, Some obs) \<Rightarrow>
          if act \<noteq> '''' \<and> obs \<noteq> ''''
          then (let (finalReply, st1) = composePostActionReply deps userMessage act (lp_lastDraft st) obs st
                in reply_and_return finalReply st1)
          else reply_and_return ceiling_reply st
      | _ \<Rightarrow> reply_and_return ceiling_reply st)"

definition prose :: "string \<Rightarrow> string option" where
  "prose content = (if js_trim content \<noteq> '''' then Some (js_trim content) else None)"

text \<open>One turn: \<^const>\<open>None\<close> when the loop goes on.\<close>

definition loop_turn ::
  "loop_deps \<Rightarrow> 's executor \<Rightarrow> string \<Rightarrow> string \<Rightarrow> string list \<Rightarrow> string list \<Rightarrow> nat \<Rightarrow> 's loop_state \<Rightarrow>
     loop_result option \<times> 's loop_state" where
  "loop_turn deps exec systemPrompt userMessage alwaysOn allDeferred i st =
     (if ld_aborted deps (2 * i) then (Some abort_error, st)
      else (let messages = buildMessages (ld_conversationSummary deps) systemPrompt userMessage (lp_obs st) in
        if estimateMessagesTokens messages > TOKEN_BUDGET_TOKENS
        then (let (res, st1) = reply_and_return (budget_reply i) st in (Some res, st1))
        else if ld_aborted deps (2 * i + 1) then (Some abort_error, st)
        else (let (resp, st1) = ask_llm deps messages (alwaysOn @ deferredSchemasByName (lp_loaded st)) st in
          case resp of
            Llm_throws name msg \<Rightarrow>
              if name = ''AbortError'' then (Some (Threw name msg), st1)
              else (let text = classifyLlmError msg; (res, st2) = reply_and_return text (send (Sse_error text) st1) in (Some res, st2))
          | Llm_responds content calls thinking \<Rightarrow>
              (let st2 = fold (\<lambda>tb. send (Sse_thinking tb)) thinking st1 in
               if calls = []
               then (case prose content of
                       Some text \<Rightarrow> (let (res, st3) = reply_and_return text st2 in (Some res, st3))
                     | None \<Rightarrow> (let (res, st3) = reply_and_return no_content_reply (send (Sse_error no_content_reply) st2)
                                in (Some res, st3)))
               else (let st3 = (case prose content of Some text \<Rightarrow> send (Sse_reply text) st2 | None \<Rightarrow> st2)
                     in run_batch deps exec allDeferred (lp_batch st3) (prose content) calls
                          (st3\<lparr>lp_batch := Suc (lp_batch st3)\<rparr>))))))"

fun loop_turns ::
  "loop_deps \<Rightarrow> 's executor \<Rightarrow> string \<Rightarrow> string \<Rightarrow> string list \<Rightarrow> string list \<Rightarrow> nat \<Rightarrow> 's loop_state \<Rightarrow> loop_result \<times> 's loop_state" where
  "loop_turns deps exec sys usr alwaysOn allDeferred 0 st = finish_run deps usr st"
| "loop_turns deps exec sys usr alwaysOn allDeferred (Suc k) st =
     (case loop_turn deps exec sys usr alwaysOn allDeferred (MAX_ITERATIONS - Suc k) st of
        (Some res, st1) \<Rightarrow> (res, st1)
      | (None, st1) \<Rightarrow> loop_turns deps exec sys usr alwaysOn allDeferred k st1)"

definition start_state :: "'s \<Rightarrow> 's loop_state" where
  "start_state ext = \<lparr>lp_obs = [], lp_lastAction = None, lp_lastDraft = None, lp_lastObs = None, lp_batch = 0, lp_loaded = [],
     lp_sse = [], lp_ext = ext, lp_requests = []\<rparr>"

definition runLoop :: "loop_deps \<Rightarrow> 's executor \<Rightarrow> string \<Rightarrow> string \<Rightarrow> 's \<Rightarrow> loop_result \<times> 's loop_state" where
  "runLoop deps exec systemPrompt userMessage ext =
     (if ld_userId deps = ''''
      then (Threw ''Error'' ''ReActLoop.runLoop: identity is required. Background callers must resolve a service account token before starting the loop.'',
            start_state ext)
      else (case (alwaysOnToolsForAgent (ld_allowedTools deps), deferredToolNamesForAgent (ld_allowedTools deps)) of
              (Inr alwaysOn, Inr allDeferred) \<Rightarrow>
                loop_turns deps exec systemPrompt userMessage alwaysOn allDeferred MAX_ITERATIONS (start_state ext)
            | (Inl e, _) \<Rightarrow> (Threw ''Error'' e, start_state ext)
            | (_, Inl e) \<Rightarrow> (Threw ''Error'' e, start_state ext)))"

section \<open>What a request to the model looks like\<close>

definition uses :: "llm_message \<Rightarrow> (string \<times> string \<times> tool_args) list" where
  "uses m = (case ms_content m of Plain s \<Rightarrow> [] | Blocks bs \<Rightarrow> List.map_filter (\<lambda>b. case b of Tool_use i n a v \<Rightarrow> Some (i, n, a) | _ \<Rightarrow> None) bs)"

definition results :: "llm_message \<Rightarrow> (string \<times> string \<times> string) list" where
  "results m = (case ms_content m of Plain s \<Rightarrow> [] | Blocks bs \<Rightarrow> List.map_filter (\<lambda>b. case b of Tool_result i n t \<Rightarrow> Some (i, n, t) | _ \<Rightarrow> None) bs)"

definition call_key :: "string \<times> string \<times> 'a \<Rightarrow> string \<times> string" where
  "call_key c = (fst c, fst (snd c))"

text \<open>Turns of an assistant message with tool calls and a user message with exactly their results, in order.\<close>

fun paired :: "llm_message list \<Rightarrow> bool" where
  "paired [] = True"
| "paired (a # u # rest) \<longleftrightarrow> ms_role a = ''assistant'' \<and> ms_role u = ''user'' \<and> uses a \<noteq> [] \<and> results a = [] \<and> uses u = []
     \<and> map call_key (results u) = map call_key (uses a) \<and> paired rest"
| "paired [m] = False"

text \<open>The messages a request begins with.\<close>

definition opening_of :: "string option \<Rightarrow> string \<Rightarrow> string \<Rightarrow> llm_message list" where
  "opening_of summary sys usr = message ''system'' (Plain sys)
     # (case summary of
          Some t \<Rightarrow> if t = '''' then [] else [message ''user'' (Plain (''[Conversation Summary]'' @ [CHR 0x0A] @ t)),
                message ''assistant'' (Plain ''Understood. I have the context from the previous conversation.'')]
        | None \<Rightarrow> [])
     @ [message ''user'' (Plain usr)]"

lemma map_filter_simps [simp]:
  "List.map_filter f (xs @ ys) = List.map_filter f xs @ List.map_filter f ys"
  "List.map_filter f [] = []"
  "List.map_filter f (x # xs) = (case f x of None \<Rightarrow> List.map_filter f xs | Some y \<Rightarrow> y # List.map_filter f xs)"
  by (induction xs) (auto simp: List.map_filter_def split: option.splits)

lemma group_batches_concat: "concat (group_batches bid cur obs) = cur @ obs"
  by (induction bid cur obs rule: group_batches.induct) auto

lemma group_batches_nonempty: "b \<in> set (group_batches bid cur obs) \<Longrightarrow> b \<noteq> []"
  by (induction bid cur obs rule: group_batches.induct) (auto split: if_splits)

definition has_id :: "observation \<Rightarrow> bool" where
  "has_id obs \<longleftrightarrow> ob_toolUseId obs \<noteq> None"

definition obs_call :: "observation \<Rightarrow> string \<times> string \<times> tool_args" where
  "obs_call obs = (the (ob_toolUseId obs), ob_action obs, ob_args obs)"

definition obs_result :: "bool \<Rightarrow> observation \<Rightarrow> string \<times> string \<times> string" where
  "obs_result old obs = (the (ob_toolUseId obs), ob_action obs, result_text old (ob_result obs))"

text \<open>
  A conversation replayed: the opening, then the calls of all observations with their arguments,
  each message with calls answered by their results; only results before the last six may be
  shortened to their beginnings.
\<close>

definition replays :: "llm_message list \<Rightarrow> observation list \<Rightarrow> llm_message list \<Rightarrow> bool" where
  "replays start obs messages \<longleftrightarrow> (\<exists>rest k. messages = start @ rest \<and> paired rest \<and> concat (map uses rest) = map obs_call obs
     \<and> k \<le> length obs - OBSERVATION_KEEP_RECENT
     \<and> concat (map results rest) = map (obs_result True) (take k obs) @ map (obs_result False) (drop k obs))"

lemma batch_blocks:
  "List.map_filter (\<lambda>b. case b of Tool_use i n a v \<Rightarrow> Some (i, n, a) | _ \<Rightarrow> None) (result_blocks old k batch) = []"
  "List.map_filter (\<lambda>b. case b of Tool_result i n t \<Rightarrow> Some (i, n, t) | _ \<Rightarrow> None) (map (use_block idx) batch) = []"
  "\<forall>obs\<in>set batch. has_id obs \<Longrightarrow>
     List.map_filter (\<lambda>b. case b of Tool_use i n a v \<Rightarrow> Some (i, n, a) | _ \<Rightarrow> None) (map (use_block idx) batch) = map obs_call batch"
  "\<forall>obs\<in>set batch. has_id obs \<Longrightarrow>
     List.map_filter (\<lambda>b. case b of Tool_result i n t \<Rightarrow> Some (i, n, t) | _ \<Rightarrow> None) (result_blocks old k batch) = map (obs_result old) batch"
  by (induction batch arbitrary: k) (auto simp: use_block_def obs_call_def obs_result_def has_id_def)

lemma batch_ids:
  assumes "\<forall>obs\<in>set batch. has_id obs"
  shows "uses (message r (Blocks ((if c then [Text_block t] else []) @ map (use_block idx) batch))) = map obs_call batch"
    "results (message r (Blocks ((if c then [Text_block t] else []) @ map (use_block idx) batch))) = []"
    "results (message r (Blocks (result_blocks old k batch))) = map (obs_result old) batch"
    "uses (message r (Blocks (result_blocks old k batch))) = []"
  using assms by (simp_all add: uses_def results_def message_def batch_blocks)

lemma batch_messages_paired:
  "\<forall>b\<in>set batches. b \<noteq> [] \<and> (\<forall>obs\<in>set b. has_id obs) \<Longrightarrow>
     paired (batch_messages cutoff idx batches)
     \<and> concat (map uses (batch_messages cutoff idx batches)) = map obs_call (concat batches)"
  by (induction batches arbitrary: idx)
     (simp_all add: Let_def batch_ids, simp_all add: message_def obs_call_def obs_result_def call_key_def)

lemma batch_messages_results:
  "\<forall>b\<in>set batches. b \<noteq> [] \<and> (\<forall>obs\<in>set b. has_id obs) \<Longrightarrow>
     \<exists>k. (k = 0 \<or> idx + k \<le> cutoff) \<and> concat (map results (batch_messages cutoff idx batches))
       = map (obs_result True) (take k (concat batches)) @ map (obs_result False) (drop k (concat batches))"
proof (induction batches arbitrary: idx)
  case (Cons batch rest)
  let ?idx = "idx + length batch"
  obtain k where k: "k = 0 \<or> ?idx + k \<le> cutoff" "concat (map results (batch_messages cutoff ?idx rest))
      = map (obs_result True) (take k (concat rest)) @ map (obs_result False) (drop k (concat rest))"
    using Cons.IH [of ?idx] Cons.prems by auto
  have "\<forall>obs\<in>set batch. has_id obs" using Cons.prems by simp
  then have out: "concat (map results (batch_messages cutoff idx (batch # rest)))
      = map (obs_result (?idx \<le> cutoff)) batch @ concat (map results (batch_messages cutoff ?idx rest))"
    by (simp add: Let_def batch_ids)
  show ?case
  proof (cases "?idx \<le> cutoff")
    case True
    then show ?thesis using k out by (intro exI [of _ "length batch + k"]) auto
  next
    case False
    then show ?thesis using k out by (intro exI [of _ 0]) auto
  qed
qed auto

lemma buildMessages_replays:
  assumes "\<forall>o1\<in>set obs. has_id o1"
  shows "replays (opening_of summary sys usr) obs (buildMessages summary sys usr obs)"
proof -
  let ?rest = "batch_messages (length obs - OBSERVATION_KEEP_RECENT) 0 (group_batches None [] obs)"
  have batches: "\<forall>b\<in>set (group_batches None [] obs). b \<noteq> [] \<and> (\<forall>o1\<in>set b. has_id o1)"
  proof
    fix b assume b: "b \<in> set (group_batches None [] obs)"
    then show "b \<noteq> [] \<and> (\<forall>o1\<in>set b. has_id o1)"
      using assms group_batches_nonempty [OF b] group_batches_concat [of None "[]" obs] by (metis UN_I append_Nil set_concat)
  qed
  have "paired ?rest" "concat (map uses ?rest) = map obs_call obs"
    using batch_messages_paired [OF batches] group_batches_concat [of None "[]" obs] by simp_all
  moreover obtain k where "k \<le> length obs - OBSERVATION_KEEP_RECENT"
      "concat (map results ?rest) = map (obs_result True) (take k obs) @ map (obs_result False) (drop k obs)"
    using batch_messages_results [OF batches, of 0 "length obs - OBSERVATION_KEEP_RECENT"] group_batches_concat [of None "[]" obs] by auto
  moreover have "buildMessages summary sys usr obs = opening_of summary sys usr @ ?rest"
    by (simp add: buildMessages_def opening_of_def truthy_def split: option.split)
  ultimately show ?thesis unfolding replays_def by blast
qed

section \<open>The tools of the agent\<close>

lemma res_map_Inr: "res_map f xs = Inr ys \<longleftrightarrow> list_all2 (\<lambda>x y. f x = Inr y) xs ys"
  by (induction xs arbitrary: ys) (auto simp: list_all2_Cons1)

lemma lookupEntry_Inr: "lookupEntry n = Inr e \<longleftrightarrow> map_of TOOL_REGISTRY n = Some e"
  by (simp add: lookupEntry_def split: option.splits)

lemma names_of_category_set:
  assumes "names_of_category c names = Inr ns"
  shows "n \<in> set ns \<longleftrightarrow> n \<in> set names \<and> (\<exists>e. map_of TOOL_REGISTRY n = Some e \<and> te_category e = c)"
proof -
  obtain es where es: "list_all2 (\<lambda>n ne. res_bind (lookupEntry n) (\<lambda>e. Inr (n, e)) = Inr ne) names es"
    and ns: "ns = map fst (filter (\<lambda>(n, e). te_category e = c) es)"
    using assms by (auto simp: names_of_category_def res_map_Inr)
  from es have "set es = {(n, e). n \<in> set names \<and> map_of TOOL_REGISTRY n = Some e}"
    by (induction rule: list_all2_induct) (auto simp: lookupEntry_Inr)
  then have "n \<in> fst ` set (filter (\<lambda>(n, e). te_category e = c) es) \<longleftrightarrow>
      n \<in> set names \<and> (\<exists>e. map_of TOOL_REGISTRY n = Some e \<and> te_category e = c)"
    by (simp add: image_iff) blast
  with ns show ?thesis by (simp only: set_map)
qed

lemma select_from_catalog: "set (select_from catalog out names) \<subseteq> set out \<union> set catalog"
  by (induction catalog out names rule: select_from.induct) (auto simp: Let_def)

lemma searchTools_catalog: "set (searchTools texts query catalog) \<subseteq> set catalog"
proof -
  have "set (map fst (take n (rank_tools (filter P (map (\<lambda>x. (x, f x)) catalog))))) \<subseteq> set catalog" for n P f
    by (auto simp: rank_tools_def dest: in_set_takeD)
  moreover have "set (take n (filter P catalog)) \<subseteq> set catalog" for n P by (auto dest: in_set_takeD)
  ultimately show ?thesis
    using select_from_catalog [of catalog "[]"]
    by (auto simp: searchTools_def Let_def selectTools_def split: option.splits dest!: find_Some_set)
qed

lemma resolveToolSearch_loaded:
  assumes "resolveToolSearch texts query names = Inr res" "n \<in> set (sr_loaded res)"
  shows "n \<in> set names \<and> (\<exists>e. map_of TOOL_REGISTRY n = Some e \<and> te_category e = Deferred)"
proof -
  have cat: "n \<in> set names \<and> (\<exists>e. map_of TOOL_REGISTRY n = Some e \<and> te_category e = Deferred)"
    if "deferredCatalog names = Inr catalog" "n \<in> set catalog" for catalog
    using that by (auto simp: deferredCatalog_def deferredToolNamesForAgent_def names_of_category_set llm_tools_def)
  show ?thesis
    using assms cat select_from_catalog [of _ "[]"] searchTools_catalog
    by (auto simp: resolveToolSearch_def Let_def selectTools_def split: if_splits) blast+
qed

text \<open>A search never loads more than eight tools.\<close>

lemma resolveToolSearch_bounded:
  assumes "resolveToolSearch texts query names = Inr res"
  shows "length (sr_loaded res) \<le> MAX_RESULTS"
proof -
  have sel: "length (select_from catalog out xs) \<le> MAX_RESULTS" if "length out < MAX_RESULTS" for catalog out xs
    using that by (induction catalog out xs rule: select_from.induct) (auto simp: Let_def)
  then have sel0: "length (selectTools xs catalog) \<le> MAX_RESULTS" for xs catalog
    by (simp add: selectTools_def MAX_RESULTS_def)
  have "length (searchTools texts q catalog) \<le> MAX_RESULTS" for q catalog
    using sel0 by (auto simp: searchTools_def Let_def MAX_RESULTS_def split: option.splits)
  with sel0 assms show ?thesis by (auto simp: resolveToolSearch_def Let_def split: if_splits)
qed

section \<open>Invariants of a run\<close>

text \<open>The tool calls of the response to the request with a given number.\<close>

definition calls_of :: "loop_deps \<Rightarrow> (llm_message list \<times> string list) list \<Rightarrow> nat \<Rightarrow> (string \<times> string \<times> tool_args) list" where
  "calls_of deps reqs b =
     (case ld_gateway deps b (fst (reqs ! b)) (snd (reqs ! b)) of
        Llm_responds content calls thinking \<Rightarrow> map (\<lambda>c. (tc_id c, tc_name c, coalesce (tc_input c) [])) calls
      | Llm_throws name msg \<Rightarrow> [])"

definition calls_before :: "loop_deps \<Rightarrow> (llm_message list \<times> string list) list \<Rightarrow> nat \<Rightarrow> (string \<times> string \<times> tool_args) list" where
  "calls_before deps reqs i = concat (map (calls_of deps reqs) [0..<i])"

lemma calls_before_append: "i \<le> length reqs \<Longrightarrow> calls_before deps (reqs @ further) i = calls_before deps reqs i"
  by (auto simp: calls_before_def calls_of_def nth_append intro!: arg_cong [where f = concat])

lemma calls_before_Suc: "calls_before deps reqs (Suc i) = calls_before deps reqs i @ calls_of deps reqs i"
  by (simp add: calls_before_def)

text \<open>
  What holds of the state during the turns: every observation has the identifier of its tool call,
  the loaded tools are deferred tools of the agent, and every request so far was well formed: it
  replays observations of the run that answer exactly the calls the model made before, within the
  token budget, and offers registered tools of the agent.
\<close>

definition request_ok ::
  "loop_deps \<Rightarrow> llm_message list \<Rightarrow> string list \<Rightarrow> observation list \<Rightarrow> (llm_message list \<times> string list) list \<Rightarrow> nat \<Rightarrow> bool" where
  "request_ok deps start allowed all reqs i \<longleftrightarrow>
     (\<exists>obs later. all = obs @ later \<and> map obs_call obs = calls_before deps reqs i \<and> replays start obs (fst (reqs ! i)))
     \<and> estimateMessagesTokens (fst (reqs ! i)) \<le> TOKEN_BUDGET_TOKENS
     \<and> set (snd (reqs ! i)) \<subseteq> set allowed \<inter> fst ` set TOOL_REGISTRY"

definition turns_inv :: "loop_deps \<Rightarrow> llm_message list \<Rightarrow> string list \<Rightarrow> string list \<Rightarrow> 's loop_state \<Rightarrow> bool" where
  "turns_inv deps start allowed deferred st \<longleftrightarrow> (\<forall>o1\<in>set (lp_obs st). has_id o1) \<and> set (lp_loaded st) \<subseteq> set deferred
     \<and> (\<forall>i<length (lp_requests st). request_ok deps start allowed (lp_obs st) (lp_requests st) i)"

text \<open>Between turns, the observations answer all calls the model made.\<close>

definition all_answered :: "loop_deps \<Rightarrow> 's loop_state \<Rightarrow> bool" where
  "all_answered deps st \<longleftrightarrow> map obs_call (lp_obs st) = calls_before deps (lp_requests st) (length (lp_requests st))"

lemma request_ok_more:
  "request_ok deps start allowed all reqs i \<Longrightarrow> i < length reqs \<Longrightarrow> request_ok deps start allowed (all @ newer) (reqs @ further) i"
  by (fastforce simp: request_ok_def nth_append calls_before_append)

lemma send_simps [simp]:
  "lp_obs (send e st) = lp_obs st" "lp_loaded (send e st) = lp_loaded st" "lp_requests (send e st) = lp_requests st"
  "lp_ext (send e st) = lp_ext st" "lp_batch (send e st) = lp_batch st" "lp_sse (send e st) = lp_sse st @ [e]"
  "lp_lastAction (send e st) = lp_lastAction st" "lp_lastObs (send e st) = lp_lastObs st" "lp_lastDraft (send e st) = lp_lastDraft st"
  by (simp_all add: send_def)

lemma send_inv [simp]: "turns_inv deps start allowed deferred (send e st) = turns_inv deps start allowed deferred st"
  by (simp add: turns_inv_def)

lemma sends_frame [simp]:
  "lp_obs (fold (\<lambda>x. send (f x)) xs st) = lp_obs st" "lp_loaded (fold (\<lambda>x. send (f x)) xs st) = lp_loaded st"
  "lp_requests (fold (\<lambda>x. send (f x)) xs st) = lp_requests st" "lp_ext (fold (\<lambda>x. send (f x)) xs st) = lp_ext st"
  "turns_inv deps start allowed deferred (fold (\<lambda>x. send (f x)) xs st) = turns_inv deps start allowed deferred st"
  by (induction xs arbitrary: st) simp_all

lemma search_step_inv:
  assumes "turns_inv deps start allowed deferred st"
  shows "turns_inv deps start allowed deferred (snd (search_step deps deferred args st))"
    "lp_requests (snd (search_step deps deferred args st)) = lp_requests st"
    "lp_ext (snd (search_step deps deferred args st)) = lp_ext st"
  using assms resolveToolSearch_loaded [of "ld_texts deps" "text_arg args ''query''" deferred]
  by (fastforce simp: search_step_def turns_inv_def Let_def split: sum.splits)+

lemma exec_step_inv:
  assumes "turns_inv deps start allowed deferred st"
  shows "turns_inv deps start allowed deferred (snd (exec_step exec act args st))"
    "lp_requests (snd (exec_step exec act args st)) = lp_requests st"
  using assms by (auto simp: exec_step_def turns_inv_def case_prod_beta Let_def)

lemma answer_ask_user_inv:
  "turns_inv deps start allowed deferred (snd (answer_ask_user args msg st)) = turns_inv deps start allowed deferred st"
  "lp_requests (snd (answer_ask_user args msg st)) = lp_requests st"
  "lp_ext (snd (answer_ask_user args msg st)) = lp_ext st"
  by (auto simp: answer_ask_user_def Let_def)

lemma turns_inv_fields [simp]:
  "turns_inv deps start allowed deferred (st\<lparr>lp_lastAction := a, lp_lastDraft := d\<rparr>) = turns_inv deps start allowed deferred st"
  "turns_inv deps start allowed deferred (st\<lparr>lp_batch := b\<rparr>) = turns_inv deps start allowed deferred st"
  by (simp_all add: turns_inv_def)

lemma step_obs:
  "lp_obs (snd (search_step deps deferred args st)) = lp_obs st" "lp_obs (snd (exec_step exec act args st)) = lp_obs st"
  "lp_obs (snd (answer_ask_user args msg st)) = lp_obs st"
  by (simp_all add: search_step_def exec_step_def answer_ask_user_def case_prod_beta Let_def split: sum.splits)

lemma turns_inv_observe:
  assumes "turns_inv deps start allowed deferred st" "has_id o1"
  shows "turns_inv deps start allowed deferred (st\<lparr>lp_lastObs := t, lp_obs := lp_obs st @ [o1]\<rparr>)"
proof -
  have "request_ok deps start allowed (lp_obs st @ [o1]) (lp_requests st) i" if "i < length (lp_requests st)" for i
    using request_ok_more [of deps start allowed "lp_obs st" "lp_requests st" i "[o1]" "[]"] assms(1) that by (simp add: turns_inv_def)
  then show ?thesis using assms by (simp add: turns_inv_def)
qed

lemma run_batch_inv:
  "turns_inv deps start allowed deferred st \<Longrightarrow>
     turns_inv deps start allowed deferred (snd (run_batch deps exec deferred bid msg calls st))
     \<and> lp_requests (snd (run_batch deps exec deferred bid msg calls st)) = lp_requests st
     \<and> (fst (run_batch deps exec deferred bid msg calls st) = None \<longrightarrow>
          map obs_call (lp_obs (snd (run_batch deps exec deferred bid msg calls st)))
          = map obs_call (lp_obs st) @ map (\<lambda>c. (tc_id c, tc_name c, coalesce (tc_input c) [])) calls)"
proof (induction calls arbitrary: msg st)
  case (Cons tc rest)
  let ?st = "st\<lparr>lp_lastAction := Some (tc_name tc), lp_lastDraft := msg\<rparr>"
  let ?step = "if tc_name tc = TOOL_SEARCH_ACTION then search_step deps deferred (coalesce (tc_input tc) []) ?st
               else exec_step exec (tc_name tc) (coalesce (tc_input tc) []) ?st"
  obtain out st2 where step: "?step = (out, st2)" by (metis surj_pair)
  have "turns_inv deps start allowed deferred (snd ?step) \<and> lp_requests (snd ?step) = lp_requests st \<and> lp_obs (snd ?step) = lp_obs st"
    using Cons.prems by (simp add: search_step_inv(1,2) exec_step_inv step_obs)
  then have inv2: "turns_inv deps start allowed deferred st2" "lp_requests st2 = lp_requests st" "lp_obs st2 = lp_obs st"
    unfolding step by simp_all
  then have "turns_inv deps start allowed deferred (st2\<lparr>lp_lastObs := Some t, lp_obs := lp_obs st2 @ [observe tc t bid msg]\<rparr>)" for t
    by (intro turns_inv_observe) (simp_all add: observe_def has_id_def)
  note IH = Cons.IH [OF this]
  have "obs_call (observe tc t bid msg) = (tc_id tc, tc_name tc, coalesce (tc_input tc) [])" for t
    by (simp add: obs_call_def observe_def)
  then show ?case
    using Cons.prems inv2 IH
    by (auto simp: step answer_ask_user_inv Let_def case_prod_beta split: sum.splits option.splits)
qed simp

lemma ask_turn_inv:
  assumes "turns_inv deps (opening_of summary sys usr) allowed deferred st" "set alwaysOn \<subseteq> set allowed \<inter> fst ` set TOOL_REGISTRY"
    and "set deferred \<subseteq> set allowed" "all_answered deps st"
    and "estimateMessagesTokens (buildMessages summary sys usr (lp_obs st)) \<le> TOKEN_BUDGET_TOKENS"
  shows "turns_inv deps (opening_of summary sys usr) allowed deferred (snd (ask_llm deps (buildMessages summary sys usr (lp_obs st))
           (alwaysOn @ deferredSchemasByName (lp_loaded st)) st))"
proof -
  let ?req = "(buildMessages summary sys usr (lp_obs st), alwaysOn @ deferredSchemasByName (lp_loaded st))"
  have "set (deferredSchemasByName (lp_loaded st)) \<subseteq> set allowed \<inter> fst ` set TOOL_REGISTRY"
  proof
    fix n
    assume n: "n \<in> set (deferredSchemasByName (lp_loaded st))"
    then have "n \<in> set (lp_loaded st)" "n \<in> fst ` set TOOL_REGISTRY"
      by (auto simp: deferredSchemasByName_def split: option.splits dest!: map_of_SomeD intro: rev_image_eqI)
    with assms(1,3) show "n \<in> set allowed \<inter> fst ` set TOOL_REGISTRY" by (auto simp: turns_inv_def)
  qed
  moreover have "replays (opening_of summary sys usr) (lp_obs st) (buildMessages summary sys usr (lp_obs st))"
    using assms(1) by (intro buildMessages_replays) (simp add: turns_inv_def)
  moreover from this have "\<exists>obs later. lp_obs st = obs @ later \<and> map obs_call obs = calls_before deps (lp_requests st) (length (lp_requests st))
      \<and> replays (opening_of summary sys usr) obs (buildMessages summary sys usr (lp_obs st))"
    using assms(4) by (intro exI [of _ "lp_obs st"] exI [of _ "[]"]) (simp add: all_answered_def)
  ultimately have "request_ok deps (opening_of summary sys usr) allowed (lp_obs st) (lp_requests st @ [?req]) (length (lp_requests st))"
    using assms(2,5) by (simp add: request_ok_def calls_before_append)
  moreover have "request_ok deps (opening_of summary sys usr) allowed (lp_obs st) (lp_requests st @ [?req]) i" if "i < length (lp_requests st)" for i
    using request_ok_more [of deps "opening_of summary sys usr" allowed "lp_obs st" "lp_requests st" i "[]" "[?req]"] assms(1) that
    by (simp add: turns_inv_def)
  ultimately show ?thesis
    using assms(1) by (auto simp: ask_llm_def turns_inv_def less_Suc_eq)
qed

text \<open>A turn with its request named and the pairs of the definition taken apart.\<close>

definition turn_messages :: "loop_deps \<Rightarrow> string \<Rightarrow> string \<Rightarrow> 's loop_state \<Rightarrow> llm_message list" where
  "turn_messages deps sys usr st = buildMessages (ld_conversationSummary deps) sys usr (lp_obs st)"

definition turn_asked :: "loop_deps \<Rightarrow> string \<Rightarrow> string \<Rightarrow> string list \<Rightarrow> 's loop_state \<Rightarrow> llm_outcome \<times> 's loop_state" where
  "turn_asked deps sys usr alwaysOn st =
     ask_llm deps (turn_messages deps sys usr st) (alwaysOn @ deferredSchemasByName (lp_loaded st)) st"

lemma loop_turn_cases:
  "loop_turn deps exec sys usr alwaysOn deferred i st =
    (if ld_aborted deps (2 * i) then (Some abort_error, st)
     else if estimateMessagesTokens (turn_messages deps sys usr st) > TOKEN_BUDGET_TOKENS then (Some (Returned (budget_reply i)), send (Sse_reply (budget_reply i)) st)
     else if ld_aborted deps (2 * i + 1) then (Some abort_error, st)
     else (case fst (turn_asked deps sys usr alwaysOn st) of
       Llm_throws name msg \<Rightarrow>
         if name = ''AbortError'' then (Some (Threw name msg), snd (turn_asked deps sys usr alwaysOn st))
         else (Some (Returned (classifyLlmError msg)),
               send (Sse_reply (classifyLlmError msg)) (send (Sse_error (classifyLlmError msg)) (snd (turn_asked deps sys usr alwaysOn st))))
     | Llm_responds content calls thinking \<Rightarrow>
         (let st2 = fold (\<lambda>tb. send (Sse_thinking tb)) thinking (snd (turn_asked deps sys usr alwaysOn st)) in
          if calls = []
          then (case prose content of
                  Some t \<Rightarrow> (Some (Returned t), send (Sse_reply t) st2)
                | None \<Rightarrow> (Some (Returned no_content_reply), send (Sse_reply no_content_reply) (send (Sse_error no_content_reply) st2)))
          else (let st3 = (case prose content of Some t \<Rightarrow> send (Sse_reply t) st2 | None \<Rightarrow> st2)
                in run_batch deps exec deferred (lp_batch st3) (prose content) calls (st3\<lparr>lp_batch := Suc (lp_batch st3)\<rparr>)))))"
  by (simp add: loop_turn_def reply_and_return_def Let_def case_prod_beta turn_messages_def turn_asked_def
      split: llm_outcome.splits option.splits)

lemma loop_turn_inv:
  assumes "turns_inv deps (opening_of (ld_conversationSummary deps) sys usr) allowed deferred st"
    and "set alwaysOn \<subseteq> set allowed \<inter> fst ` set TOOL_REGISTRY" "set deferred \<subseteq> set allowed" "all_answered deps st"
    and "loop_turn deps exec sys usr alwaysOn deferred i st = (out, st')"
  shows "turns_inv deps (opening_of (ld_conversationSummary deps) sys usr) allowed deferred st'
     \<and> length (lp_requests st') \<le> Suc (length (lp_requests st)) \<and> (out = None \<longrightarrow> all_answered deps st')"
proof -
  let ?asked = "turn_asked deps sys usr alwaysOn st" and ?inv = "turns_inv deps (opening_of (ld_conversationSummary deps) sys usr) allowed deferred"
  let ?req = "(turn_messages deps sys usr st, alwaysOn @ deferredSchemasByName (lp_loaded st))"
  have asked: "lp_requests (snd ?asked) = lp_requests st @ [?req]" "lp_obs (snd ?asked) = lp_obs st"
      "fst ?asked = ld_gateway deps (length (lp_requests st)) (fst ?req) (snd ?req)" by (simp_all add: turn_asked_def ask_llm_def)
  have inv: "?inv (snd ?asked)"
    if "\<not> estimateMessagesTokens (turn_messages deps sys usr st) > TOKEN_BUDGET_TOKENS"
    using ask_turn_inv [OF assms(1-4)] that by (simp add: turn_asked_def turn_messages_def)
  have batch: "?inv s1 \<and> lp_requests s1 = lp_requests (snd ?asked) \<and> (o1 = None \<longrightarrow> all_answered deps s1)"
    if "run_batch deps exec deferred b msg calls (s\<lparr>lp_batch := b'\<rparr>) = (o1, s1)" "?inv s" "lp_requests s = lp_requests (snd ?asked)"
      "lp_obs s = lp_obs st" "fst ?asked = Llm_responds content calls thinking" for s b b' msg content calls thinking o1 s1
    using run_batch_inv [of deps "opening_of (ld_conversationSummary deps) sys usr" allowed deferred "s\<lparr>lp_batch := b'\<rparr>" exec b msg calls] that assms(4)
    by (auto simp: asked all_answered_def calls_before_Suc calls_before_append calls_of_def)
  show ?thesis
    using assms(1,5) inv unfolding loop_turn_cases Let_def
    by (cases "fst ?asked") (auto simp: asked(1,2) split: option.splits if_splits dest!: batch)
qed

section \<open>The answer of a run\<close>

definition visible :: "string \<Rightarrow> sse list \<Rightarrow> bool" where
  "visible r evs \<longleftrightarrow> r = '''' \<or> (evs \<noteq> [] \<and> (last evs = Sse_reply r \<or> (\<exists>options. last evs = Sse_ask_user r options)))"

definition answered :: "loop_result \<Rightarrow> 's loop_state \<Rightarrow> bool" where
  "answered res st \<longleftrightarrow> (\<forall>r. res = Returned r \<longrightarrow> visible r (lp_sse st))"

lemma run_batch_answered:
  "run_batch deps exec deferred bid msg calls st = (Some res, st') \<Longrightarrow> answered res st'"
proof (induction calls arbitrary: msg st)
  case (Cons tc rest)
  then show ?case
    by (auto simp: Let_def case_prod_beta answered_def visible_def answer_ask_user_def split: if_splits sum.splits option.splits)
qed simp

lemma loop_turn_answered:
  assumes "loop_turn deps exec sys usr alwaysOn deferred i st = (Some res, st')"
  shows "answered res st'"
  using assms run_batch_answered [of deps exec deferred _ _ _ _ res st'] unfolding loop_turn_cases Let_def
  by (cases "fst (turn_asked deps sys usr alwaysOn st)")
     (auto simp: answered_def visible_def abort_error_def split: if_splits option.splits)

lemma finish_run_answered:
  "\<exists>r. fst (finish_run deps usr st) = Returned r \<and> visible r (lp_sse (snd (finish_run deps usr st)))"
  by (auto simp: finish_run_def reply_and_return_def visible_def case_prod_beta Let_def split: option.splits)

lemma finish_run_obs: "lp_obs (snd (finish_run deps usr st)) = lp_obs st"
  by (auto simp: finish_run_def reply_and_return_def composePostActionReply_def ask_llm_def case_prod_beta Let_def
      split: option.splits llm_outcome.splits)

lemma finish_run_requests:
  "\<exists>closing. lp_requests (snd (finish_run deps usr st)) = lp_requests st @ closing \<and> length closing \<le> 1
     \<and> (\<forall>req\<in>set closing. snd req = [] \<and> (\<forall>m\<in>set (fst req). \<exists>s. ms_content m = Plain s))"
  by (auto simp: finish_run_def reply_and_return_def composePostActionReply_def ask_llm_def message_def case_prod_beta Let_def
      split: option.splits llm_outcome.splits)

lemma loop_turns_run:
  assumes "turns_inv deps (opening_of (ld_conversationSummary deps) sys usr) allowed deferred st" "set alwaysOn \<subseteq> set allowed \<inter> fst ` set TOOL_REGISTRY"
    and "set deferred \<subseteq> set allowed" "all_answered deps st" "loop_turns deps exec sys usr alwaysOn deferred k st = (res, st')"
  shows "answered res st' \<and> (\<exists>rs closing. lp_requests st' = rs @ closing \<and> length rs \<le> length (lp_requests st) + k
     \<and> (\<forall>i<length rs. request_ok deps (opening_of (ld_conversationSummary deps) sys usr) allowed (lp_obs st') rs i) \<and> length closing \<le> 1
     \<and> (\<forall>req\<in>set closing. snd req = [] \<and> (\<forall>m\<in>set (fst req). \<exists>s. ms_content m = Plain s)))"
  using assms(1,4,5)
proof (induction k arbitrary: st)
  case 0
  then have fin: "finish_run deps usr st = (res, st')" by simp
  moreover have "\<forall>i<length (lp_requests st). request_ok deps (opening_of (ld_conversationSummary deps) sys usr) allowed (lp_obs st) (lp_requests st) i"
    using 0 by (simp add: turns_inv_def)
  moreover have "lp_obs st' = lp_obs st" using finish_run_obs [of deps usr st] fin by simp
  moreover obtain closing where "lp_requests st' = lp_requests st @ closing" "length closing \<le> 1"
      "\<forall>req\<in>set closing. snd req = [] \<and> (\<forall>m\<in>set (fst req). \<exists>s. ms_content m = Plain s)"
    using finish_run_requests [of deps usr st] fin by auto
  moreover have "answered res st'" using finish_run_answered [of deps usr st] fin by (auto simp: answered_def)
  ultimately show ?case by (intro conjI exI [of _ "lp_requests st"] exI [of _ closing]) simp_all
next
  case (Suc k)
  obtain out st1 where turn: "loop_turn deps exec sys usr alwaysOn deferred (MAX_ITERATIONS - Suc k) st = (out, st1)"
    by (metis surj_pair)
  then have inv: "turns_inv deps (opening_of (ld_conversationSummary deps) sys usr) allowed deferred st1"
      "length (lp_requests st1) \<le> Suc (length (lp_requests st))" "out = None \<longrightarrow> all_answered deps st1"
    using loop_turn_inv [OF Suc.prems(1) assms(2,3) Suc.prems(2) turn] by auto
  show ?case
  proof (cases out)
    case None
    with Suc.prems turn have "loop_turns deps exec sys usr alwaysOn deferred k st1 = (res, st')" by simp
    from Suc.IH [OF inv(1) _ this] inv(3) None
    obtain rs closing where "answered res st'" "lp_requests st' = rs @ closing" "length rs \<le> length (lp_requests st1) + k" "length closing \<le> 1"
        "\<forall>i<length rs. request_ok deps (opening_of (ld_conversationSummary deps) sys usr) allowed (lp_obs st') rs i"
        "\<forall>req\<in>set closing. snd req = [] \<and> (\<forall>m\<in>set (fst req). \<exists>s. ms_content m = Plain s)"
      by blast
    then show ?thesis using inv(2) by (intro conjI exI [of _ rs] exI [of _ closing]) simp_all
  next
    case (Some r)
    with Suc.prems turn have "r = res" "st1 = st'" by auto
    moreover have "answered res st'" using loop_turn_answered turn Some calculation by metis
    ultimately show ?thesis using inv by (intro conjI exI [of _ "lp_requests st'"] exI [of _ "[]"]) (auto simp: turns_inv_def)
  qed
qed

lemma registry_member: "map_of TOOL_REGISTRY n = Some e \<Longrightarrow> n \<in> fst ` set TOOL_REGISTRY"
  by (drule map_of_SomeD) (rule rev_image_eqI, assumption, simp)

lemma agent_tools_sets:
  assumes "alwaysOnToolsForAgent allowed = Inr alwaysOn" "deferredToolNamesForAgent allowed = Inr deferred"
  shows "set alwaysOn \<subseteq> set allowed \<inter> fst ` set TOOL_REGISTRY" "set deferred \<subseteq> set allowed"
proof -
  show "set deferred \<subseteq> set allowed"
    using names_of_category_set [OF assms(2) [unfolded deferredToolNamesForAgent_def]] by (auto simp: llm_tools_def)
  show "set alwaysOn \<subseteq> set allowed \<inter> fst ` set TOOL_REGISTRY"
    using names_of_category_set [OF assms(1) [unfolded alwaysOnToolsForAgent_def]]
    by (auto simp: llm_tools_def intro: registry_member)
qed

lemma start_inv: "turns_inv deps start allowed deferred (start_state ext)" "all_answered deps (start_state ext)"
  by (simp_all add: turns_inv_def start_state_def all_answered_def calls_before_def)


section \<open>What the loop asks of the executor of tool calls\<close>

locale loop_executor =
  fixes exec :: "'s executor"
    and inv :: "'s \<Rightarrow> bool"
  assumes exec_inv: "inv s \<Longrightarrow> inv (fst (snd (exec act args s)))"
begin

lemma exec_step_ext: "inv (lp_ext st) \<Longrightarrow> inv (lp_ext (snd (exec_step exec act args st)))"
  by (simp add: exec_step_def case_prod_beta Let_def exec_inv)

lemma search_step_ext: "lp_ext (snd (search_step deps deferred args st)) = lp_ext st"
  by (simp add: search_step_def Let_def split: sum.splits)

lemma run_batch_ext: "inv (lp_ext st) \<Longrightarrow> inv (lp_ext (snd (run_batch deps exec deferred bid msg calls st)))"
proof (induction calls arbitrary: msg st)
  case (Cons tc rest)
  let ?st = "st\<lparr>lp_lastAction := Some (tc_name tc), lp_lastDraft := msg\<rparr>"
  let ?step = "if tc_name tc = TOOL_SEARCH_ACTION then search_step deps deferred (coalesce (tc_input tc) []) ?st
               else exec_step exec (tc_name tc) (coalesce (tc_input tc) []) ?st"
  obtain out st2 where step: "?step = (out, st2)" by (metis surj_pair)
  have "inv (lp_ext (snd ?step))" using Cons.prems by (simp add: search_step_ext exec_step_ext)
  with step have "inv (lp_ext st2)" by simp
  with Cons show ?case by (auto simp: step answer_ask_user_inv Let_def case_prod_beta split: sum.splits option.splits)
qed simp

lemma loop_turn_ext: "inv (lp_ext st) \<Longrightarrow> inv (lp_ext (snd (loop_turn deps exec sys usr alwaysOn deferred i st)))"
proof -
  assume st: "inv (lp_ext st)"
  have "lp_ext (snd (turn_asked deps sys usr alwaysOn st)) = lp_ext st" by (simp add: turn_asked_def ask_llm_def)
  then show ?thesis
    unfolding loop_turn_cases Let_def using st run_batch_ext
    by (cases "fst (turn_asked deps sys usr alwaysOn st)") (auto split: option.splits)
qed

lemma finish_run_ext: "lp_ext (snd (finish_run deps usr st)) = lp_ext st"
  by (auto simp: finish_run_def reply_and_return_def composePostActionReply_def ask_llm_def case_prod_beta Let_def
      split: option.splits llm_outcome.splits)

lemma loop_turns_ext: "inv (lp_ext st) \<Longrightarrow> inv (lp_ext (snd (loop_turns deps exec sys usr alwaysOn deferred k st)))"
proof (induction k arbitrary: st)
  case (Suc k)
  then show ?case
    using loop_turn_ext [OF Suc.prems, of deps sys usr alwaysOn deferred "MAX_ITERATIONS - Suc k"]
    by (auto split: prod.splits option.splits)
qed (simp add: finish_run_ext)

lemma runLoop_ext: "inv ext \<Longrightarrow> inv (lp_ext (snd (runLoop deps exec sys usr ext)))"
  using loop_turns_ext [of "start_state ext"] by (auto simp: runLoop_def start_state_def split: sum.splits)

end

text \<open>An executor that turns every failure into an observation: then a run is only left by an abort.\<close>

locale total_executor = loop_executor +
  assumes exec_total: "inv s \<Longrightarrow> \<exists>obs. fst (exec act args s) = Inr obs"
begin

lemma search_total:
  assumes "deferredToolNamesForAgent allowed = Inr deferred"
  shows "\<exists>obs. fst (search_step deps deferred args st) = Inr obs"
proof -
  have "\<exists>es. res_map (\<lambda>name. res_bind (lookupEntry name) (\<lambda>entry. Inr (name, entry))) ns = Inr es" if "set ns \<subseteq> set deferred" for ns
    using that
  proof (induction ns)
    case (Cons n ns)
    then obtain e where "map_of TOOL_REGISTRY n = Some e"
      using names_of_category_set [OF assms [unfolded deferredToolNamesForAgent_def], of n] by auto
    with Cons show ?case by (auto simp: lookupEntry_def)
  qed simp
  from this [of "llm_tools deferred"] have "\<exists>c. deferredCatalog deferred = Inr c"
    by (auto simp: deferredCatalog_def deferredToolNamesForAgent_def names_of_category_def llm_tools_def)
  then show ?thesis by (auto simp: search_step_def resolveToolSearch_def Let_def split: sum.splits)
qed

lemma run_batch_total:
  assumes "deferredToolNamesForAgent allowed = Inr deferred" "inv (lp_ext st)"
  shows "fst (run_batch deps exec deferred bid msg calls st) \<noteq> Some (Threw name err)"
  using assms(2)
proof (induction calls arbitrary: msg st)
  case (Cons tc rest)
  let ?st = "st\<lparr>lp_lastAction := Some (tc_name tc), lp_lastDraft := msg\<rparr>"
  let ?step = "if tc_name tc = TOOL_SEARCH_ACTION then search_step deps deferred (coalesce (tc_input tc) []) ?st
               else exec_step exec (tc_name tc) (coalesce (tc_input tc) []) ?st"
  obtain out st2 where step: "?step = (out, st2)" by (metis surj_pair)
  have "inv (lp_ext (snd ?step))" using Cons.prems by (simp add: search_step_ext exec_step_ext)
  moreover have "\<exists>obs. fst ?step = Inr obs"
    using exec_total [OF Cons.prems] by (simp add: search_total [OF assms(1)] exec_step_def case_prod_beta Let_def)
  ultimately obtain obs where "out = Inr obs" "inv (lp_ext st2)" using step by auto
  with Cons.IH [of "st2\<lparr>lp_lastObs := _, lp_obs := _\<rparr>"] show ?case
    by (cases obs) (auto simp: step Let_def case_prod_beta)
qed simp

lemma loop_turn_total:
  assumes "deferredToolNamesForAgent allowed = Inr deferred" "inv (lp_ext st)" "\<forall>n. \<not> ld_aborted deps n"
    and "\<forall>n ms ts msg. ld_gateway deps n ms ts \<noteq> Llm_throws ''AbortError'' msg"
  shows "fst (loop_turn deps exec sys usr alwaysOn deferred i st) \<noteq> Some (Threw name err)"
proof -
  have "lp_ext (snd (turn_asked deps sys usr alwaysOn st)) = lp_ext st" "fst (turn_asked deps sys usr alwaysOn st) \<noteq> Llm_throws ''AbortError'' msg" for msg
    using assms(4) by (simp_all add: turn_asked_def ask_llm_def)
  then show ?thesis
    unfolding loop_turn_cases Let_def using assms(2,3) run_batch_total [OF assms(1)]
    by (cases "fst (turn_asked deps sys usr alwaysOn st)") (auto split: option.splits)
qed

lemma loop_turns_total:
  assumes "deferredToolNamesForAgent allowed = Inr deferred" "inv (lp_ext st)" "\<forall>n. \<not> ld_aborted deps n"
    and "\<forall>n ms ts msg. ld_gateway deps n ms ts \<noteq> Llm_throws ''AbortError'' msg"
  shows "\<exists>r. fst (loop_turns deps exec sys usr alwaysOn deferred k st) = Returned r"
  using assms(2)
proof (induction k arbitrary: st)
  case 0
  then show ?case using finish_run_answered [of deps usr st] by auto
next
  case (Suc k)
  obtain out st1 where turn: "loop_turn deps exec sys usr alwaysOn deferred (MAX_ITERATIONS - Suc k) st = (out, st1)" by (metis surj_pair)
  then have "inv (lp_ext st1)"
    using loop_turn_ext [OF Suc.prems, of deps sys usr alwaysOn deferred "MAX_ITERATIONS - Suc k"] by simp
  moreover have "out \<noteq> Some (Threw name err)" for name err
    using loop_turn_total [OF assms(1) Suc.prems assms(3,4)] turn by (metis fst_conv)
  ultimately show ?case using Suc.IH [of st1] turn by (cases out) (auto, metis loop_result.exhaust)
qed

end

section \<open>The runner under the loop\<close>

text \<open>What every handler call must satisfy, on the context it was given.\<close>

definition call_authorized :: "agent_def \<Rightarrow> identity \<Rightarrow> string \<times> tool_args \<times> 'w action_ctx \<Rightarrow> bool" where
  "call_authorized ad ident call = (case call of (tool, args, ctx) \<Rightarrow>
     id_userId (cx_identity ctx) = id_userId ident \<and> id_orgId (cx_identity ctx) = id_orgId ident
     \<and> tool \<in> set (ag_allowedTools ad)
     \<and> (ag_permissionMode ad \<in> {Read_only, Propose_only} \<longrightarrow> tool \<notin> set GATE_MUTATIONS)
     \<and> (ag_permissionMode ad = Approval_required_mode \<longrightarrow> tool \<notin> set RUNNER_MUTATIONS)
     \<and> tool_permitted tool args ctx
     \<and> (\<forall>e. map_of TOOL_REGISTRY tool = Some e \<longrightarrow> (\<forall>n\<in>set (te_required e). \<not> missing_arg args n)))"

text \<open>Filling the permission cache does not change a decision.\<close>

lemma cache_idem: "ensurePermissions db (snd (ensurePermissions db ident)) =
    (fst (ensurePermissions db ident), snd (ensurePermissions db ident))"
  by (auto simp: ensurePermissions_def Let_def split: option.splits)

lemma ac_evaluate_ensured:
  "fst (ac_evaluate cfg w (snd (ensurePermissions (w_rbac w) ident)) e) = fst (ac_evaluate cfg w ident e)"
  by (simp add: ac_evaluate_iff cache_idem legacy_allows_def split: option.split)

lemma builder_ensured:
  assumes "ctx' \<in> {ctx, ctx\<lparr>cx_identity := snd (ensurePermissions (w_rbac (cx_world ctx)) (cx_identity ctx))\<rparr>}"
  shows "buildToolEvaluator tool args ctx' = buildToolEvaluator tool args ctx"
proof -
  have "resolveDashboardScope ctx' = resolveDashboardScope ctx" "lookupAlertRuleFolderUid ctx' = lookupAlertRuleFolderUid ctx"
    using assms by (auto simp: resolveDashboardScope_def lookupAlertRuleFolderUid_def fun_eq_iff split: option.split)
  then have "(t, b) \<in> set TOOL_PERMS \<Longrightarrow> b args ctx' = b args ctx" for t b
    unfolding TOOL_PERMS_def
    by (auto simp: fixed_builder_def arg_builder_def dashboard_builder_def connector_builder_def ops_builder_def
        alert_rule_write_builder_def Let_def)
  then show ?thesis by (auto simp: buildToolEvaluator_def split: option.splits dest!: map_of_SomeD)
qed

lemma permitted_after_gate:
  "tool_permitted tool args (snd (checkPermission ad tool args ctx)) = tool_permitted tool args ctx"
  using checkPermission_frame [of ad tool args ctx] builder_ensured [OF checkPermission_frame [of ad tool args ctx], of tool args]
  by (auto simp: tool_permitted_def ac_evaluate_ensured)

definition same_principal :: "identity \<Rightarrow> 'w action_ctx \<Rightarrow> bool" where
  "same_principal ident ctx \<longleftrightarrow> id_userId (cx_identity ctx) = id_userId ident \<and> id_orgId (cx_identity ctx) = id_orgId ident"

lemma gate_same_principal: "same_principal ident (snd (checkPermission ad tool args ctx)) = same_principal ident ctx"
  using checkPermission_frame [of ad tool args ctx] by (auto simp: same_principal_def)

definition runner_inv :: "agent_def \<Rightarrow> identity \<Rightarrow> 'w runner \<Rightarrow> bool" where
  "runner_inv ad ident r \<longleftrightarrow> same_principal ident (rn_ctx r) \<and> (\<forall>call\<in>set (rn_calls r). call_authorized ad ident call)"

lemma run_handler_inv:
  assumes "runner_inv ad ident r"
    and "map_of DISPATCH act \<noteq> None \<Longrightarrow> call_authorized ad ident (act, args, rn_ctx r)"
  shows "runner_inv ad ident (fst (snd (run_handler deps act args r)))"
  using assms
  by (auto simp: run_handler_def runner_inv_def buildActionContext_def same_principal_def Let_def case_prod_beta
      split: sum.splits option.splits)

lemma runner_execute_inv:
  assumes "runner_inv (rd_agentDef deps) ident r"
  shows "runner_inv (rd_agentDef deps) ident (fst (snd (runner_execute deps act args r)))"
proof -
  obtain g ctx where gate: "checkPermission (rd_agentDef deps) act args (rn_ctx r) = (g, ctx)" by (metis surj_pair)
  have ctx: "same_principal ident ctx"
    using gate_same_principal [of ident "rd_agentDef deps" act args "rn_ctx r"] gate assms by (simp add: runner_inv_def)
  have auth: "call_authorized (rd_agentDef deps) ident (act, args, ctx)"
    if "gr_ok g" "checkRequiredArgs act args = None" "map_of DISPATCH act \<noteq> None"
      "\<not> (isMutationAction act \<and> ag_permissionMode (rd_agentDef deps) = Approval_required_mode)"
  proof -
    have "act \<noteq> ''ask_user''" using that(3) by (auto simp: DISPATCH_def)
    moreover have "tool_permitted act args (rn_ctx r) = tool_permitted act args ctx"
      using permitted_after_gate [of act args "rd_agentDef deps" "rn_ctx r"] gate by simp
    ultimately have "act \<in> set (ag_allowedTools (rd_agentDef deps))" "tool_permitted act args ctx"
      "\<not> (act \<in> set GATE_MUTATIONS \<and> ag_permissionMode (rd_agentDef deps) \<in> {Read_only, Propose_only})"
      using that(1) checkPermission_ok [of "rd_agentDef deps" act args "rn_ctx r"] gate by auto
    then show ?thesis
      using ctx that(2,4)
      by (auto simp: call_authorized_def same_principal_def isMutationAction_def checkRequiredArgs_def Let_def filter_empty_conv
          split: if_splits)
  qed
  have inv: "runner_inv (rd_agentDef deps) ident (r\<lparr>rn_ctx := ctx, rn_count := n, rn_audit := a\<rparr>)" for n a
    using assms ctx by (simp add: runner_inv_def)
  have handled: "runner_inv (rd_agentDef deps) ident (fst (snd (run_handler deps act args (r\<lparr>rn_ctx := ctx, rn_count := n, rn_audit := a\<rparr>))))"
    if "gr_ok g" "checkRequiredArgs act args = None"
      "\<not> (isMutationAction act \<and> ag_permissionMode (rd_agentDef deps) = Approval_required_mode)" for n a
    using run_handler_inv [OF inv, of act args] auth that by simp
  show ?thesis
    using handled assms ctx
    by (auto simp: runner_execute_def gate Let_def case_prod_beta runner_inv_def split: option.splits)
qed

lemma runner_execute_total: "\<exists>obs. fst (runner_execute deps act args r) = Inr obs"
  by (auto simp: runner_execute_def run_handler_def Let_def case_prod_beta split: option.splits sum.splits)

interpretation agent: total_executor "runner_execute deps" "runner_inv (rd_agentDef deps) ident" for deps ident
  by unfold_locales (auto simp: runner_execute_inv runner_execute_total)

text \<open>The loop and the runner as \<^verbatim>\<open>OrchestratorAgent\<close> wires them.\<close>

record agent_env =
  ev_gateway :: llm_model
  ev_texts :: tool_texts
  ev_summary :: "string option"
  ev_aborted :: "nat \<Rightarrow> bool"

definition loop_deps_of :: "'w runner_deps \<Rightarrow> agent_env \<Rightarrow> 'w runner \<Rightarrow> loop_deps" where
  "loop_deps_of deps env r = \<lparr>ld_gateway = ev_gateway env, ld_userId = id_userId (cx_identity (rn_ctx r)),
     ld_allowedTools = ag_allowedTools (rd_agentDef deps), ld_texts = ev_texts env, ld_conversationSummary = ev_summary env,
     ld_aborted = ev_aborted env\<rparr>"

definition run_agent ::
  "'w runner_deps \<Rightarrow> agent_env \<Rightarrow> string \<Rightarrow> string \<Rightarrow> 'w runner \<Rightarrow> loop_result \<times> 'w runner loop_state" where
  "run_agent deps env systemPrompt userMessage r =
     runLoop (loop_deps_of deps env r) (runner_execute deps) systemPrompt userMessage r"

definition start_runner :: "'w action_ctx \<Rightarrow> 'w runner" where
  "start_runner ctx = \<lparr>rn_ctx = ctx, rn_audit = \<lparr>au_rows = [], au_allowAt = []\<rparr>, rn_count = 0, rn_calls = []\<rparr>"

text \<open>
  C4. The agent cannot exceed its caller: whatever the language model answers and whatever the
  handlers do, every handler that runs is called for a tool of the agent, for the principal the
  run was started for, with its required arguments, not for a mutation when the agent is
  read-only, proposing or waiting for approval, and either the tool is ungated or the access
  control service granted that very principal the permission of the tool for these arguments in
  the state of the call.
\<close>

theorem agent_calls_authorized:
  "\<forall>call\<in>set (rn_calls (lp_ext (snd (run_agent deps env systemPrompt userMessage (start_runner ctx))))).
     call_authorized (rd_agentDef deps) (cx_identity ctx) call"
proof -
  have "runner_inv (rd_agentDef deps) (cx_identity ctx) (start_runner ctx)"
    by (simp add: runner_inv_def same_principal_def start_runner_def)
  from agent.runLoop_ext [OF this] show ?thesis by (simp add: runner_inv_def run_agent_def)
qed

lemma registered_schemas:
  "\<forall>ad\<in>set (agent_getAll agentRegistry). \<exists>on df. alwaysOnToolsForAgent (ag_allowedTools ad) = Inr on
     \<and> deferredToolNamesForAgent (ag_allowedTools ad) = Inr df"
proof -
  have "list_all (\<lambda>ad. \<not> isl (alwaysOnToolsForAgent (ag_allowedTools ad)) \<and> \<not> isl (deferredToolNamesForAgent (ag_allowedTools ad)))
      (agent_getAll agentRegistry)"
    by code_simp
  then show ?thesis unfolding list_all_iff isl_def by (metis sumE)
qed

text \<open>
  C8. The agent always answers: a run of a registered agent for a user, which nobody aborts, ends
  after at most 200 turns and 201 requests to the model, whatever the model answers, including
  errors, and whatever the handlers do, including exceptions; the text it returns is the last
  thing the user was sent, as a reply or a question, or it is empty.
\<close>

theorem agent_answers:
  assumes "rd_agentDef deps \<in> set (agent_getAll agentRegistry)" "id_userId (cx_identity (rn_ctx r)) \<noteq> ''''"
    and "\<forall>n. \<not> ev_aborted env n" "\<forall>n ms ts msg. ev_gateway env n ms ts \<noteq> Llm_throws ''AbortError'' msg"
  shows "\<exists>answer st. run_agent deps env systemPrompt userMessage r = (Returned answer, st)
     \<and> length (lp_requests st) \<le> 201
     \<and> (answer = '''' \<or> last (lp_sse st) = Sse_reply answer \<or> (\<exists>options. last (lp_sse st) = Sse_ask_user answer options))"
proof -
  let ?ld = "loop_deps_of deps env r"
  obtain on df where tools: "alwaysOnToolsForAgent (ag_allowedTools (rd_agentDef deps)) = Inr on"
      "deferredToolNamesForAgent (ag_allowedTools (rd_agentDef deps)) = Inr df"
    using registered_schemas assms(1) by blast
  obtain res st where run: "loop_turns ?ld (runner_execute deps) systemPrompt userMessage on df MAX_ITERATIONS (start_state r) = (res, st)"
    by (metis surj_pair)
  have whole: "run_agent deps env systemPrompt userMessage r = (res, st)"
    using assms(2) run tools by (simp add: run_agent_def runLoop_def loop_deps_of_def)
  have "\<exists>answer. res = Returned answer"
  proof -
    have "total_executor (runner_execute deps) (\<lambda>_. True)" by unfold_locales (auto simp: runner_execute_total)
    from total_executor.loop_turns_total [OF this tools(2), where st = "start_state r" and deps = ?ld]
    have "\<exists>a. fst (loop_turns ?ld (runner_execute deps) systemPrompt userMessage on df MAX_ITERATIONS (start_state r)) = Returned a"
      using assms(3,4) by (simp add: loop_deps_of_def)
    with run show ?thesis by simp
  qed
  moreover have "answered res st" "\<exists>rs closing. lp_requests st = rs @ closing \<and> length rs \<le> MAX_ITERATIONS \<and> length closing \<le> 1"
    using loop_turns_run [OF start_inv(1) agent_tools_sets [OF tools] start_inv(2) run] by (auto simp: start_state_def)
  ultimately show ?thesis using whole by (auto simp: answered_def visible_def MAX_ITERATIONS_def)
qed

section \<open>Every tool call is audited\<close>

definition audited :: "audit_state \<Rightarrow> string \<Rightarrow> bool" where
  "audited st tool \<longleftrightarrow> (\<exists>row\<in>set (au_rows st). ae_tool row = tool \<and> ae_action row = ''agent.tool_called'')"

definition audit_inv :: "reporter_deps \<Rightarrow> 'w runner \<Rightarrow> bool" where
  "audit_inv rep r \<longleftrightarrow> (\<forall>tool. map_of (au_allowAt (rn_audit r)) (audit_key rep tool) \<noteq> None \<longrightarrow> audited (rn_audit r) tool)
     \<and> (\<forall>(tool, args, ctx)\<in>set (rn_calls r). audited (rn_audit r) tool)"

lemma audit_key_inj [simp]: "audit_key rep t = audit_key rep t' \<longleftrightarrow> t = t'"
  by (simp add: audit_key_def)

lemma audited_mono: "audited st t \<Longrightarrow> audited (writeToolAudit rep now path tool args g st) t"
  by (auto simp: audited_def writeToolAudit_def Let_def)

lemma write_allow_audited:
  assumes "rp_writer rep" "now \<ge> ALLOW_AUDIT_COOLDOWN_MS" "map_of (au_allowAt st) (audit_key rep tool) \<noteq> None \<longrightarrow> audited st tool"
  shows "audited (writeToolAudit rep now Audit_allow tool args g st) tool"
  using assms
  by (cases "map_of (au_allowAt st) (audit_key rep tool)") (auto simp: audited_def writeToolAudit_def Let_def audit_entry_for_def)

lemma write_keys_audited:
  assumes "\<forall>t. map_of (au_allowAt st) (audit_key rep t) \<noteq> None \<longrightarrow> audited st t"
    and "map_of (au_allowAt (writeToolAudit rep now path tool args g st)) (audit_key rep t) \<noteq> None"
  shows "audited (writeToolAudit rep now path tool args g st) t"
proof (cases "map_of (au_allowAt st) (audit_key rep t) = None")
  case True
  with assms(2) have "t = tool \<and> writeToolAudit rep now path tool args g st = st\<lparr>au_rows := au_rows st @ [audit_entry_for rep Audit_allow tool args g],
      au_allowAt := AList.update (audit_key rep tool) now (au_allowAt st)\<rparr>"
    by (auto simp: writeToolAudit_def Let_def update_conv' split: if_splits)
  then show ?thesis by (auto simp: audited_def audit_entry_for_def)
next
  case False
  with assms(1) show ?thesis by (auto intro: audited_mono)
qed

lemma runner_execute_audit:
  assumes "rp_writer (rd_reporter deps)" "\<forall>n. rd_clock deps n \<ge> ALLOW_AUDIT_COOLDOWN_MS" "audit_inv (rd_reporter deps) r"
  shows "audit_inv (rd_reporter deps) (fst (snd (runner_execute deps act args r)))"
proof -
  obtain g ctx where gate: "checkPermission (rd_agentDef deps) act args (rn_ctx r) = (g, ctx)" by (metis surj_pair)
  let ?w = "\<lambda>path. writeToolAudit (rd_reporter deps) (rd_clock deps (rn_count r)) path act args g (rn_audit r)"
  have keys: "map_of (au_allowAt (?w path)) (audit_key (rd_reporter deps) t) \<noteq> None \<longrightarrow> audited (?w path) t" for path t
    using assms(3) write_keys_audited [of "rn_audit r" "rd_reporter deps"] by (auto simp: audit_inv_def)
  have calls: "\<forall>(tool, args, ctx)\<in>set (rn_calls r). audited (?w path) tool" for path
    using assms(3) audited_mono by (fastforce simp: audit_inv_def)
  have this_call: "audited (?w Audit_allow) act"
    using write_allow_audited assms by (simp add: audit_inv_def)
  show ?thesis
    using keys calls this_call assms(3)
    by (auto simp: runner_execute_def run_handler_def gate audit_inv_def Let_def case_prod_beta split: option.splits sum.splits)
qed

text \<open>
  C25. No silent tool call: with an audit writer wired, every tool whose handler ran has a row
  saying that it was called; the cool-down only drops further rows of a tool that has one.
\<close>

theorem agent_calls_audited:
  assumes "rp_writer (rd_reporter deps)" "\<forall>n. rd_clock deps n \<ge> ALLOW_AUDIT_COOLDOWN_MS"
  shows "\<forall>(tool, args, c)\<in>set (rn_calls (lp_ext (snd (run_agent deps env systemPrompt userMessage (start_runner ctx))))).
     \<exists>row\<in>set (au_rows (rn_audit (lp_ext (snd (run_agent deps env systemPrompt userMessage (start_runner ctx)))))).
       ae_tool row = tool \<and> ae_action row = ''agent.tool_called''"
proof -
  have "loop_executor (runner_execute deps) (audit_inv (rd_reporter deps))"
    by unfold_locales (rule runner_execute_audit [OF assms])
  moreover have "audit_inv (rd_reporter deps) (start_runner ctx)" by (simp add: audit_inv_def start_runner_def)
  ultimately have "audit_inv (rd_reporter deps) (lp_ext (snd (run_agent deps env systemPrompt userMessage (start_runner ctx))))"
    unfolding run_agent_def by (rule loop_executor.runLoop_ext)
  then show ?thesis by (simp add: audit_inv_def audited_def)
qed

section \<open>A run\<close>

text \<open>
  A model that queries a metric and then asks a question, for a user who may query all connectors.
\<close>

definition call_of :: "string \<Rightarrow> string \<Rightarrow> tool_args \<Rightarrow> tool_call" where
  "call_of i n a = \<lparr>tc_id = i, tc_name = n, tc_input = Some a, tc_providerMetadata = None\<rparr>"

definition scripted_llm :: llm_model where
  "scripted_llm n ms ts = Llm_responds ''Checking.''
     [call_of ''t1'' ''metrics_query'' [(''sourceId'', JStr ''prod''), (''query'', JStr ''up'')],
      call_of ''t2'' ''ask_user'' [(''question'', JStr ''Which service?'')]] []"

definition chat_env :: agent_env where
  "chat_env = \<lparr>ev_gateway = scripted_llm, ev_texts = \<lparr>tt_description = (\<lambda>n. ''''), tt_schema = (\<lambda>n. JNull)\<rparr>,
     ev_summary = None, ev_aborted = (\<lambda>n. False)\<rparr>"

definition demo_deps :: "unit runner_deps" where
  "demo_deps = \<lparr>rd_agentDef = orchestrator_def,
     rd_reporter = \<lparr>rp_writer = True, rp_userId = ''u'', rp_orgId = ''o'', rp_serviceAccountId = None, rp_agentType = ''orchestrator''\<rparr>,
     rd_handlers = (\<lambda>h args ctx. (Inr (Some ''1''), ctx, [])), rd_clock = (\<lambda>n. 1000000)\<rparr>"

abbreviation demo_runner :: "unit runner" where
  "demo_runner \<equiv> start_runner (demo_ctx connector_user)"

definition demo_tools :: "string list \<times> string list" where
  "demo_tools = (projr (alwaysOnToolsForAgent (ag_allowedTools orchestrator_def)), projr (deferredToolNamesForAgent (ag_allowedTools orchestrator_def)))"

definition demo_turn :: "loop_result option \<times> unit runner loop_state" where
  "demo_turn = loop_turn (loop_deps_of demo_deps chat_env demo_runner) (runner_execute demo_deps) ''sys'' ''hi''
     (fst demo_tools) (snd demo_tools) 0 (start_state demo_runner)"

lemma demo_turn_eval:
  "case demo_turn of (res, st) \<Rightarrow> res = Some (Returned ''Which service?'') \<and> map fst (rn_calls (lp_ext st)) = [''metrics_query'']
     \<and> length (lp_requests st) = 1"
  by code_simp

lemma orchestrator_registered: "orchestrator_def \<in> set (agent_getAll agentRegistry)"
  by code_simp

lemma loop_turns_stop:
  "loop_turn deps exec sys usr alwaysOn deferred (MAX_ITERATIONS - Suc k) st = (Some res, st') \<Longrightarrow>
     loop_turns deps exec sys usr alwaysOn deferred (Suc k) st = (res, st')"
  by simp

lemma demo_run:
  "run_agent demo_deps chat_env ''sys'' ''hi'' demo_runner = (Returned ''Which service?'', snd demo_turn)"
  "map fst (rn_calls (lp_ext (snd demo_turn))) = [''metrics_query'']" "length (lp_requests (snd demo_turn)) = 1"
proof -
  have turn: "demo_turn = (Some (Returned ''Which service?''), snd demo_turn)"
    using demo_turn_eval by (auto simp: case_prod_beta prod_eq_iff)
  have tools: "alwaysOnToolsForAgent (ag_allowedTools orchestrator_def) = Inr (fst demo_tools)"
      "deferredToolNamesForAgent (ag_allowedTools orchestrator_def) = Inr (snd demo_tools)"
    using registered_schemas orchestrator_registered by (auto simp: demo_tools_def)
  have steps: "MAX_ITERATIONS = Suc 199" by (simp add: MAX_ITERATIONS_def)
  have "loop_turns (loop_deps_of demo_deps chat_env demo_runner) (runner_execute demo_deps) ''sys'' ''hi''
      (fst demo_tools) (snd demo_tools) MAX_ITERATIONS (start_state demo_runner) = (Returned ''Which service?'', snd demo_turn)"
    unfolding steps by (rule loop_turns_stop) (use turn in \<open>simp add: MAX_ITERATIONS_def flip: demo_turn_def\<close>)
  moreover have "ld_allowedTools (loop_deps_of demo_deps chat_env demo_runner) = ag_allowedTools orchestrator_def"
    "ld_userId (loop_deps_of demo_deps chat_env demo_runner) = ''u''"
    by (simp_all add: loop_deps_of_def demo_deps_def start_runner_def demo_ctx_def connector_user_def demo_user_def)
  ultimately show "run_agent demo_deps chat_env ''sys'' ''hi'' demo_runner = (Returned ''Which service?'', snd demo_turn)"
    unfolding run_agent_def runLoop_def by (simp add: tools)
qed (use demo_turn_eval in \<open>auto simp: case_prod_beta\<close>)

theorem agent_calls_authorized_witness:
  "rn_calls (lp_ext (snd (run_agent demo_deps chat_env ''sys'' ''hi'' demo_runner))) \<noteq> []
   \<and> list_all (call_authorized orchestrator_def connector_user) (rn_calls (lp_ext (snd (run_agent demo_deps chat_env ''sys'' ''hi'' demo_runner))))"
proof -
  have "rd_agentDef demo_deps = orchestrator_def" "cx_identity (demo_ctx connector_user) = connector_user"
    by (simp_all add: demo_deps_def demo_ctx_def)
  then show ?thesis
    using agent_calls_authorized [of demo_deps chat_env "''sys''" "''hi''" "demo_ctx connector_user"] demo_run
    by (auto simp: list_all_iff)
qed


theorem agent_answers_witness:
  "\<exists>st. run_agent demo_deps chat_env ''sys'' ''hi'' demo_runner = (Returned ''Which service?'', st) \<and> length (lp_requests st) \<le> 201
     \<and> (last (lp_sse st) = Sse_reply ''Which service?'' \<or> (\<exists>options. last (lp_sse st) = Sse_ask_user ''Which service?'' options))"
proof -
  have "rd_agentDef demo_deps \<in> set (agent_getAll agentRegistry)" "id_userId (cx_identity (rn_ctx demo_runner)) \<noteq> ''''"
    "\<forall>n. \<not> ev_aborted chat_env n" "\<forall>n ms ts msg. ev_gateway chat_env n ms ts \<noteq> Llm_throws ''AbortError'' msg"
    using orchestrator_registered
    by (simp_all add: demo_deps_def chat_env_def scripted_llm_def start_runner_def demo_ctx_def connector_user_def demo_user_def)
  from agent_answers [OF this, of "''sys''" "''hi''"] demo_run(1) show ?thesis by auto
qed

theorem agent_calls_audited_witness:
  "\<exists>row\<in>set (au_rows (rn_audit (lp_ext (snd (run_agent demo_deps chat_env ''sys'' ''hi'' demo_runner))))).
     ae_tool row = ''metrics_query'' \<and> ae_action row = ''agent.tool_called''"
proof -
  have "rp_writer (rd_reporter demo_deps)" "\<forall>n. rd_clock demo_deps n \<ge> ALLOW_AUDIT_COOLDOWN_MS"
    by (simp_all add: demo_deps_def ALLOW_AUDIT_COOLDOWN_MS_def)
  from agent_calls_audited [OF this, of chat_env "''sys''" "''hi''" "demo_ctx connector_user"]
  show ?thesis using demo_run by (cases "rn_calls (lp_ext (snd demo_turn))") auto
qed

end
