(* ===== verification/Agent_Tools.thy ===== *)
theory Agent_Tools
  imports Agent_Loop Alert_Routes
begin

text \<open>
  Tool handlers of the chat agent on the stores of this development: alert rules
  (\<^verbatim>\<open>agent-core/src/agent/handlers/alert.ts\<close>, over the store adapter of
  \<^verbatim>\<open>api-gateway/src/services/chat-service.ts\<close>) and folders (\<^verbatim>\<open>handlers/folder.ts\<close>).  The remaining handlers are
  a parameter.  Numbers in tool calls are integers; the text of a number in a reply is a
  parameter.  The results: no run of the agent changes a provisioned rule, and exactly when a
  call of the tool deletes a rule, in which the organisation of the rule plays no part: unlike
  the HTTP routes, the tool lets a caller delete a rule of another organisation.
\<close>

section \<open>The state of the tools\<close>

text \<open>The actions a turn leaves in the conversation; the patch of a modification is left out.\<close>

datatype conversation_action =
    Create_alert_rule string string string alert_condition int
  | Modify_alert_rule string
  | Delete_alert_rule string

record agent_world =
  gw_alert :: alert_world
  gw_actions :: "conversation_action list"

record tool_env =
  tn_now :: int
  tn_random :: string
  tn_orgs :: "string list"
  tn_users :: "string list"
  tn_metrics :: "range_query option"
  tn_number :: "rat \<Rightarrow> string"
  tn_folderBackend :: bool
  tn_agentDef :: agent_def
  tn_timeBase36 :: string
  tn_suffix :: string

definition store_getFolderUid :: "agent_world \<Rightarrow> string \<Rightarrow> string \<Rightarrow> string option result" where
  "store_getFolderUid w orgId ruleId = Inr (getFolderUid (aw_db (gw_alert w)) orgId ruleId)"

definition rules_db :: "agent_world action_ctx \<Rightarrow> alert_db" where
  "rules_db ctx = aw_db (gw_alert (cx_rest ctx))"

definition set_alert :: "alert_world \<Rightarrow> agent_world action_ctx \<Rightarrow> agent_world action_ctx" where
  "set_alert a ctx = ctx\<lparr>cx_rest := (cx_rest ctx)\<lparr>gw_alert := a\<rparr>\<rparr>"

definition push_action :: "conversation_action \<Rightarrow> agent_world action_ctx \<Rightarrow> agent_world action_ctx" where
  "push_action c ctx = ctx\<lparr>cx_rest := (cx_rest ctx)\<lparr>gw_actions := gw_actions (cx_rest ctx) @ [c]\<rparr>\<rparr>"

definition tool_audit :: "string \<Rightarrow> string \<Rightarrow> agent_world action_ctx \<Rightarrow> agent_world action_ctx" where
  "tool_audit act target ctx = set_alert (audit_log act target (gw_alert (cx_rest ctx))) ctx"

definition caller_org :: "agent_world action_ctx \<Rightarrow> string" where
  "caller_org ctx = id_orgId (cx_identity ctx)"

definition check_permission_of :: "evaluator \<Rightarrow> 'w action_ctx \<Rightarrow> bool \<times> 'w action_ctx" where
  "check_permission_of e ctx =
     (let (ok, ident) = ac_evaluate (cx_ac ctx) (cx_world ctx) (cx_identity ctx) e in (ok, ctx\<lparr>cx_identity := ident\<rparr>))"

type_synonym 'w handler_result = "string option result \<times> 'w action_ctx \<times> sse list"

section \<open>Alert rules\<close>

definition evalAlertRuleWrite :: "agent_world action_ctx \<Rightarrow> string \<Rightarrow> string \<Rightarrow> bool \<times> agent_world action_ctx" where
  "evalAlertRuleWrite ctx act ruleId =
     (let folderUid = (case cx_getFolderUid ctx of
            Some getF \<Rightarrow> (case getF (cx_rest ctx) (caller_org ctx) ruleId of Inr f \<Rightarrow> f | Inl e \<Rightarrow> None)
          | None \<Rightarrow> None)
      in check_permission_of (ac_eval act (OneScope (''folders:uid:'' @ coalesce folderUid ''*''))) ctx)"

definition provisioned_error :: "string \<Rightarrow> string \<Rightarrow> string" where
  "provisioned_error ruleId source = ''Error: Cannot mutate provisioned resource alert_rule:'' @ ruleId @ '' (source='' @ source
     @ ''). Fork to your workspace, or propose a diff.''"

text \<open>The specification of a new rule; a message on the left.\<close>

record create_spec =
  cs_name :: string
  cs_description :: string
  cs_condition :: alert_condition
  cs_evaluationIntervalSec :: int
  cs_severity :: string
  cs_labels :: labels

definition field_text :: "(string \<times> json) list \<Rightarrow> string \<Rightarrow> string" where
  "field_text obj n = js_trim (text_arg obj n)"

definition num_field :: "(string \<times> json) list \<Rightarrow> string \<Rightarrow> int option" where
  "num_field obj n = (case map_of obj n of Some (JNum v) \<Rightarrow> Some v | _ \<Rightarrow> None)"

definition SPEC_OPERATORS :: "(string \<times> alert_operator) list" where
  "SPEC_OPERATORS = [(''>'', Gt), (''<'', Lt), (''>='', Ge), (''<='', Le), (''=='', Eq)]"

definition spec_labels :: "(string \<times> json) list \<Rightarrow> labels result" where
  "spec_labels raw =
     (case map_of raw ''labels'' of
        None \<Rightarrow> Inr []
      | Some (JObj kvs) \<Rightarrow> if list_ex (\<lambda>(k, v). \<not> is_JStr v) kvs then Inl ''alert_rule_write create spec labels must be string values.''
                          else Inr (map (\<lambda>(k, v). (k, the_JStr v)) kvs)
      | Some _ \<Rightarrow> Inl ''alert_rule_write create spec labels must be an object.'')"

definition parseCreateSpec :: "json option \<Rightarrow> create_spec result" where
  "parseCreateSpec v =
     (case v of
        Some (JObj raw) \<Rightarrow>
          (case map_of raw ''condition'' of
             Some (JObj condition) \<Rightarrow>
               if field_text raw ''name'' = '''' then Inl ''alert_rule_write create spec requires name.''
               else if field_text raw ''description'' = '''' then Inl ''alert_rule_write create spec requires description.''
               else if field_text condition ''query'' = '''' then Inl ''alert_rule_write create spec requires condition.query.''
               else (case map_of SPEC_OPERATORS (text_arg condition ''operator'') of
                 None \<Rightarrow> Inl ''alert_rule_write create spec requires condition.operator.''
               | Some operator \<Rightarrow>
               (case num_field condition ''threshold'' of
                 None \<Rightarrow> Inl ''alert_rule_write create spec requires numeric condition.threshold.''
               | Some threshold \<Rightarrow>
               (case num_field condition ''forDurationSec'' of
                 None \<Rightarrow> Inl ''alert_rule_write create spec requires numeric condition.forDurationSec.''
               | Some forDurationSec \<Rightarrow>
               (case num_field raw ''evaluationIntervalSec'' of
                 None \<Rightarrow> Inl ''alert_rule_write create spec requires positive evaluationIntervalSec.''
               | Some interval \<Rightarrow>
                 if interval \<le> 0 then Inl ''alert_rule_write create spec requires positive evaluationIntervalSec.''
                 else if text_arg raw ''severity'' \<notin> {''critical'', ''high'', ''medium'', ''low''}
                 then Inl ''alert_rule_write create spec requires severity.''
                 else res_bind (spec_labels raw) (\<lambda>labels.
                   if (case map_of raw ''autoInvestigate'' of None \<Rightarrow> False | Some (JBool b) \<Rightarrow> False | Some _ \<Rightarrow> True)
                   then Inl ''alert_rule_write create spec autoInvestigate must be boolean.''
                   else Inr \<lparr>cs_name = field_text raw ''name'', cs_description = field_text raw ''description'',
                     cs_condition = \<lparr>cn_query = field_text condition ''query'', cn_operator = operator,
                        cn_threshold = of_int threshold, cn_forDurationSec = of_int forDurationSec\<rparr>,
                     cs_evaluationIntervalSec = interval, cs_severity = text_arg raw ''severity'', cs_labels = labels\<rparr>)))))
           | _ \<Rightarrow> Inl ''alert_rule_write create spec requires condition.'')
      | _ \<Rightarrow> Inl (''alert_rule_write with op='' @ in_quotes ''create'' @ '' requires '' @ in_quotes ''spec'' @ ''.''))"

definition agent_folder_for_rule ::
  "tool_env \<Rightarrow> agent_world action_ctx \<Rightarrow> tool_args \<Rightarrow> (string \<times> folder list) result" where
  "agent_folder_for_rule env ctx args =
     (let requested = js_trim (text_arg args ''folderUid''); folders = aw_folders (gw_alert (cx_rest ctx)) in
      if requested \<noteq> '''' then Inr (requested, folders)
      else if \<not> tn_folderBackend env
      then Inl ''Folder backend is required to create alert rules without an explicit folder.''
      else (case folder_findByUid folders (caller_org ctx) DEFAULT_RULE_FOLDER of
              Some existing \<Rightarrow> Inr (fo_uid existing, folders)
            | None \<Rightarrow>
                res_bind (folder_create (tn_orgs env) (tn_users env) (tn_random env) (tn_now env)
                    \<lparr>nf_id = None, nf_uid = DEFAULT_RULE_FOLDER, nf_orgId = caller_org ctx, nf_title = ''Alerts'',
                     nf_description = Some ''Default folder for alert rules created without an explicit folder.'', nf_parentUid = None,
                     nf_createdBy = Some (id_userId (cx_identity ctx)), nf_updatedBy = Some (id_userId (cx_identity ctx)),
                     nf_source = Some ''ai_generated'', nf_provenance = None\<rparr> folders)
                  (\<lambda>(f, folders'). Inr (fo_uid f, folders'))))"

definition operator_sign :: "alert_operator \<Rightarrow> string" where
  "operator_sign op = (case op of Gt \<Rightarrow> ''>'' | Ge \<Rightarrow> ''>='' | Lt \<Rightarrow> ''<'' | Le \<Rightarrow> ''<='' | Eq \<Rightarrow> ''=='' | Ne \<Rightarrow> ''!='')"

text \<open>The backtest of a new rule over the last day; nothing when no metrics source answers.\<close>

definition previewForAgent :: "tool_env \<Rightarrow> alert_condition \<Rightarrow> (nat \<times> nat) option" where
  "previewForAgent env cond =
     (case tn_metrics env of
        None \<Rightarrow> None
      | Some rangeQuery \<Rightarrow>
          (case rangeQuery (cn_query cond) (tn_now env - 24 * 3600000) (tn_now env) ''60s'' of
             Inl e \<Rightarrow> None
           | Inr series \<Rightarrow> Some (length (filter (\<lambda>(ts, raw). (case js_Number raw of
                 Fin v \<Rightarrow> evaluatePredicate (cn_operator cond) (Fin v) (Fin (cn_threshold cond)) | _ \<Rightarrow> False)) (concat series)),
               length series)))"

definition preview_text :: "tool_env \<Rightarrow> alert_condition \<Rightarrow> string" where
  "preview_text env cond = (case previewForAgent env cond of
       None \<Rightarrow> ''''
     | Some (n, series) \<Rightarrow> '' Preview: would have fired '' @ nat_decimal n @ '' time(s) across '' @ nat_decimal series
         @ '' series in the last 24h.'')"

definition agent_rule_input :: "create_spec \<Rightarrow> string \<Rightarrow> string \<Rightarrow> string \<Rightarrow> alert_input" where
  "agent_rule_input spec dashboardId orgId folderUid =
     \<lparr>ci_name = cs_name spec, ci_description = cs_description spec, ci_originalPrompt = Some (cs_description spec),
      ci_condition = cs_condition spec, ci_evaluationIntervalSec = cs_evaluationIntervalSec spec, ci_severity = cs_severity spec,
      ci_labels = Some (if dashboardId \<noteq> '''' then AList.update ''dashboardId'' dashboardId (cs_labels spec) else cs_labels spec),
      ci_notificationPolicyId = None, ci_investigationId = None, ci_workspaceId = Some orgId, ci_folderUid = Some folderUid,
      ci_createdBy = ''llm'', ci_lastEvaluatedAt = None, ci_lastFiredAt = None, ci_source = Some ''ai_generated'', ci_provenance = None\<rparr>"

definition upsert_patch :: "create_spec \<Rightarrow> rule_patch" where
  "upsert_patch spec = no_patch\<lparr>pa_description := Some (cs_description spec), pa_condition := Some (cs_condition spec),
     pa_evaluationIntervalSec := Some (cs_evaluationIntervalSec spec), pa_severity := Some (cs_severity spec)\<rparr>"

definition rule_saved_text :: "tool_env \<Rightarrow> string \<Rightarrow> alert_rule \<Rightarrow> string" where
  "rule_saved_text env verb rule = verb @ '' alert rule '' @ in_quotes (ru_name rule) @ '' (id: '' @ ru_id rule @ '', '' @ ru_severity rule
     @ '', evaluating every '' @ int_decimal (ru_evaluationIntervalSec rule) @ ''s). Rule: '' @ cn_query (ru_condition rule) @ '' ''
     @ operator_sign (cn_operator (ru_condition rule)) @ '' '' @ tn_number env (cn_threshold (ru_condition rule)) @ '' for ''
     @ tn_number env (cn_forDurationSec (ru_condition rule)) @ ''s.'' @ preview_text env (ru_condition rule)"

definition rule_saved ::
  "tool_env \<Rightarrow> string \<Rightarrow> string \<Rightarrow> alert_rule \<Rightarrow> alert_db \<Rightarrow> agent_world action_ctx \<Rightarrow> string result \<times> agent_world action_ctx" where
  "rule_saved env verb act rule db ctx =
     (Inr (rule_saved_text env verb rule),
      push_action (Create_alert_rule (ru_id rule) (ru_name rule) (ru_severity rule) (ru_condition rule) (ru_evaluationIntervalSec rule))
        (tool_audit act (ru_id rule) (set_alert ((gw_alert (cx_rest ctx))\<lparr>aw_db := db\<rparr>) ctx)))"

definition insert_rule ::
  "tool_env \<Rightarrow> string \<Rightarrow> string \<Rightarrow> tool_args \<Rightarrow> create_spec \<Rightarrow> string \<Rightarrow> agent_world action_ctx \<Rightarrow> string result \<times> agent_world action_ctx" where
  "insert_rule env verb act args spec folderUid ctx =
     (case rule_create (tn_random env) (tn_now env)
          (agent_rule_input spec (String_arg args ''dashboardId'' '''') (caller_org ctx) folderUid) (rules_db ctx) of
        Inl e \<Rightarrow> (Inl e, ctx)
      | Inr (rule, db') \<Rightarrow> rule_saved env verb act rule db' ctx)"

definition upsert_rule ::
  "tool_env \<Rightarrow> tool_args \<Rightarrow> create_spec \<Rightarrow> string \<Rightarrow> string \<Rightarrow> agent_world action_ctx \<Rightarrow> string result \<times> agent_world action_ctx" where
  "upsert_rule env args spec folderUid matchId ctx =
     (let source = (case rule_findById (rules_db ctx) matchId of Some r \<Rightarrow> ru_source r | None \<Rightarrow> ''manual'') in
      if \<not> assertWritable source then (Inr (provisioned_error matchId source), ctx)
      else (case rule_update (tn_now env) matchId (upsert_patch spec) (rules_db ctx) of
              (Some rule, db') \<Rightarrow> rule_saved env ''Updated'' ''alert_rule.update'' rule db' ctx
            | (None, db') \<Rightarrow> insert_rule env ''Updated'' ''alert_rule.update'' args spec folderUid ctx))"

definition createAlertRule ::
  "tool_env \<Rightarrow> tool_args \<Rightarrow> agent_world action_ctx \<Rightarrow> string result \<times> agent_world action_ctx" where
  "createAlertRule env args ctx0 =
     (case agent_folder_for_rule env ctx0 args of
        Inl e \<Rightarrow> (Inl e, ctx0)
      | Inr (folderUid, folders) \<Rightarrow>
          (let ctx = set_alert ((gw_alert (cx_rest ctx0))\<lparr>aw_folders := folders\<rparr>) ctx0 in
           case parseCreateSpec (map_of args ''spec'') of
             Inl e \<Rightarrow> (Inr (''Error: '' @ e), ctx)
           | Inr spec \<Rightarrow>
               (case List.find (\<lambda>r. ru_name r = cs_name spec) (findByWorkspace (rules_db ctx) (caller_org ctx)) of
                  None \<Rightarrow> insert_rule env ''Created'' ''alert_rule.create'' args spec folderUid ctx
                | Some existing \<Rightarrow> upsert_rule env args spec folderUid (ru_id existing) ctx)))"

definition deleteAlertRule :: "tool_args \<Rightarrow> agent_world action_ctx \<Rightarrow> string result \<times> agent_world action_ctx" where
  "deleteAlertRule args ctx0 =
     (let ruleId = String_arg args ''ruleId'' ''''; existing = rule_findById (rules_db ctx0) ruleId in
      if (case existing of Some r \<Rightarrow> \<not> assertWritable (ru_source r) | None \<Rightarrow> False)
      then (Inr (provisioned_error ruleId (ru_source (the existing))), ctx0)
      else (let (allowed, ctx) = evalAlertRuleWrite ctx0 ''alert.rules:delete'' ruleId in
        if \<not> allowed then (Inr (''Error: not authorized to delete alert rule '' @ ruleId @ ''.''), ctx)
        else (let db' = snd (rule_delete ruleId (rules_db ctx)) in
          (Inr (''Deleted '' @ in_quotes (case existing of Some r \<Rightarrow> ru_name r | None \<Rightarrow> ''the alert rule'') @ ''.''),
           push_action (Delete_alert_rule ruleId)
             (tool_audit ''alert_rule.delete'' ruleId (set_alert ((gw_alert (cx_rest ctx))\<lparr>aw_db := db'\<rparr>) ctx))))))"

text \<open>
  The patch of an update, with fields of the types the tool schema gives them; an object under
  \<^verbatim>\<open>patch\<close>, or the arguments themselves.
\<close>

definition patch_fields :: "tool_args \<Rightarrow> (string \<times> json) list" where
  "patch_fields args = (case map_of args ''patch'' of Some (JObj o1) \<Rightarrow> o1 | None \<Rightarrow> args | Some JNull \<Rightarrow> args | Some _ \<Rightarrow> [])"

definition nonempty_text :: "(string \<times> json) list \<Rightarrow> string \<Rightarrow> string option" where
  "nonempty_text obj n = (if text_arg obj n \<noteq> '''' then Some (text_arg obj n) else None)"

definition patched_condition :: "(string \<times> json) list \<Rightarrow> alert_condition \<Rightarrow> alert_condition" where
  "patched_condition patch c = c\<lparr>
     cn_threshold := (case num_field patch ''threshold'' of Some v \<Rightarrow> of_int v | None \<Rightarrow> cn_threshold c),
     cn_operator := (case map_of operator_names (text_arg patch ''operator'') of Some op \<Rightarrow> op | None \<Rightarrow> cn_operator c),
     cn_forDurationSec := (case num_field patch ''forDurationSec'' of Some v \<Rightarrow> of_int v | None \<Rightarrow> cn_forDurationSec c),
     cn_query := coalesce (nonempty_text patch ''query'') (cn_query c)\<rparr>"

definition update_patch :: "(string \<times> json) list \<Rightarrow> alert_rule \<Rightarrow> rule_patch" where
  "update_patch patch existing = no_patch\<lparr>
     pa_severity := nonempty_text patch ''severity'',
     pa_evaluationIntervalSec := (case num_field patch ''evaluationIntervalSec'' of Some v \<Rightarrow> if v \<noteq> 0 then Some v else None | None \<Rightarrow> None),
     pa_name := nonempty_text patch ''name'',
     pa_condition := (if num_field patch ''threshold'' \<noteq> None \<or> text_arg patch ''operator'' \<noteq> '''' \<or> num_field patch ''forDurationSec'' \<noteq> None
                         \<or> text_arg patch ''query'' \<noteq> ''''
                      then Some (patched_condition patch (ru_condition existing)) else None)\<rparr>"

definition updateAlertRule ::
  "tool_env \<Rightarrow> tool_args \<Rightarrow> agent_world action_ctx \<Rightarrow> string result \<times> agent_world action_ctx" where
  "updateAlertRule env args ctx0 =
     (let ruleId = String_arg args ''ruleId'' '''' in
      case rule_findById (rules_db ctx0) ruleId of
        None \<Rightarrow> (Inr (''Error: alert rule '' @ ruleId @ '' not found.''), ctx0)
      | Some existing \<Rightarrow>
          if \<not> assertWritable (ru_source existing) then (Inr (provisioned_error ruleId (ru_source existing)), ctx0)
          else (let (allowed, ctx) = evalAlertRuleWrite ctx0 ''alert.rules:write'' ruleId in
            if \<not> allowed then (Inr (''Error: not authorized to modify alert rule '' @ ruleId @ ''.''), ctx)
            else (let (updated, db') = rule_update (tn_now env) ruleId (update_patch (patch_fields args) existing) (rules_db ctx);
                      shown = coalesce updated existing
                  in (Inr (''Updated '' @ in_quotes (ru_name shown) @ '' to '' @ tn_number env (cn_threshold (ru_condition shown))
                        @ '' ('' @ operator_sign (cn_operator (ru_condition shown)) @ '').''),
                      push_action (Modify_alert_rule ruleId)
                        (tool_audit ''alert_rule.update'' ruleId (set_alert ((gw_alert (cx_rest ctx))\<lparr>aw_db := db'\<rparr>) ctx))))))"

definition alert_write_display :: "string \<Rightarrow> tool_args \<Rightarrow> string" where
  "alert_write_display opn args =
     (if opn = ''create''
      then ''Creating alert rule: '' @ take 60 (case map_of args ''spec'' of Some (JObj spec) \<Rightarrow> String_arg spec ''name'' '''' | _ \<Rightarrow> '''')
      else if opn = ''update'' then ''Updating alert rule '' @ String_arg args ''ruleId'' '''' @ ''...''
      else ''Deleting alert rule '' @ String_arg args ''ruleId'' '''' @ ''...'')"

definition json_truthy :: "json option \<Rightarrow> bool" where
  "json_truthy v = (case v of None \<Rightarrow> False | Some JNull \<Rightarrow> False | Some (JBool b) \<Rightarrow> b | Some (JNum n) \<Rightarrow> n \<noteq> 0 | Some (JStr s) \<Rightarrow> s \<noteq> ''''
     | Some _ \<Rightarrow> True)"

definition run_alert_op ::
  "tool_env \<Rightarrow> string \<Rightarrow> tool_args \<Rightarrow> agent_world action_ctx \<Rightarrow> string result \<times> agent_world action_ctx" where
  "run_alert_op env opn args ctx =
     (if opn = ''create'' then createAlertRule env args ctx
      else if opn = ''update'' then updateAlertRule env args ctx
      else deleteAlertRule args ctx)"

definition handleAlertRuleWrite :: "tool_env \<Rightarrow> tool_args \<Rightarrow> agent_world action_ctx \<Rightarrow> agent_world handler_result" where
  "handleAlertRuleWrite env args ctx =
     (let opn = text_arg args ''op'';
          answer = (\<lambda>t. (Inr (Some t), ctx, []));
          call = Sse_tool_call ''alert_rule_write''
            ((''op'', JStr opn) # (if json_truthy (map_of args ''ruleId'') then [(''ruleId'', the (map_of args ''ruleId''))] else []))
            (alert_write_display opn args);
          go = (case run_alert_op env opn args ctx of
                  (Inr observation, ctx') \<Rightarrow>
                    (Inr (Some observation), ctx', [call, Sse_tool_result ''alert_rule_write'' observation (\<not> js_startsWith observation ''Error:''),
                       agent_event (tn_agentDef env) ''agent.tool_completed'' [(''tool'', JStr ''alert_rule_write''), (''summary'', JStr observation)]])
                | (Inl e, ctx') \<Rightarrow>
                    (Inl e, ctx', [call, Sse_tool_result ''alert_rule_write'' (''alert_rule_write ('' @ opn @ '') failed: '' @ e) False]))
      in if opn = ''''
         then answer (''Error: alert_rule_write requires '' @ in_quotes ''op'' @ '' (one of: create, update, delete).'')
         else if opn \<notin> {''create'', ''update'', ''delete''}
         then answer (''Error: alert_rule_write received unknown op '' @ in_quotes opn @ ''. Expected one of: create, update, delete.'')
         else if opn = ''create''
         then (case parseCreateSpec (map_of args ''spec'') of Inl e \<Rightarrow> answer (''Error: '' @ e) | Inr spec \<Rightarrow> go)
         else if text_arg args ''ruleId'' = ''''
         then answer (''Error: alert_rule_write with op='' @ in_quotes opn @ '' requires '' @ in_quotes ''ruleId'' @ ''.'')
         else go)"

definition matchesFilter :: "string \<Rightarrow> string option \<Rightarrow> bool" where
  "matchesFilter t flt = (if \<not> truthy flt then True else if t = '''' then False else js_includes (js_toLowerCase t) (js_toLowerCase (the flt)))"

definition rule_line :: "tool_env \<Rightarrow> alert_rule \<Rightarrow> string" where
  "rule_line env r = ''- ['' @ ru_id r @ ''] '' @ in_quotes (ru_name r) @ '' ('' @ ru_severity r @ '') '' @ em_dash @ '' '' @ cn_query (ru_condition r)
     @ '' '' @ operator_sign (cn_operator (ru_condition r)) @ '' '' @ tn_number env (cn_threshold (ru_condition r))"

definition handleAlertRuleList :: "tool_env \<Rightarrow> tool_args \<Rightarrow> agent_world action_ctx \<Rightarrow> agent_world handler_result" where
  "handleAlertRuleList env args ctx =
     (let flt = (case map_of args ''filter'' of Some (JStr s) \<Rightarrow> Some s | _ \<Rightarrow> None);
          call = Sse_tool_call ''alert_rule_list'' (if truthy flt then [(''filter'', JStr (the flt))] else [])
            (if truthy flt then ''Searching alert rules matching '' @ in_quotes (the flt) else ''Listing alert rules'');
          (visible_rules, ident) = filterByPermission (cx_ac ctx) (cx_world ctx) (cx_identity ctx) (fst (rule_findAll (rules_db ctx) no_filter))
            (\<lambda>r. ac_eval ''alert.rules:read'' (OneScope (''alert.rules:uid:'' @ ru_id r)));
          filtered = filter (\<lambda>r. matchesFilter (ru_name r) flt) visible_rules;
          ctx' = ctx\<lparr>cx_identity := ident\<rparr>
      in if filtered = []
         then (let msg = (if truthy flt then ''No alert rules match '' @ in_quotes (the flt) @ '' ('' @ nat_decimal (length visible_rules) @ '' total).''
                          else ''No alert rules found.'')
               in (Inr (Some msg), ctx', [call, Sse_tool_result ''alert_rule_list'' msg True]))
         else (Inr (Some (nat_decimal (length filtered) @ '' alert rule(s)''
                 @ (if truthy flt then '' matching '' @ in_quotes (the flt) else '''') @ '':'' @ [CHR 0x0A]
                 @ join_with [CHR 0x0A] (map (rule_line env) filtered))),
               ctx', [call, Sse_tool_result ''alert_rule_list'' (nat_decimal (length filtered) @ '' alert rules found'') True]))"

section \<open>Folders\<close>

definition boundary_result ::
  "string \<Rightarrow> tool_args \<Rightarrow> string \<Rightarrow> (string \<times> string) result \<times> agent_world action_ctx \<times> sse list \<Rightarrow> agent_world handler_result" where
  "boundary_result tool callArgs display body =
     (case body of
        (Inr (observation, summary), ctx, evs) \<Rightarrow>
          (Inr (Some observation), ctx, Sse_tool_call tool callArgs display # evs @ [Sse_tool_result tool summary True])
      | (Inl e, ctx, evs) \<Rightarrow> (Inl e, ctx, Sse_tool_call tool callArgs display # evs @ [Sse_tool_result tool e False]))"

definition is_alnum_lower :: "char \<Rightarrow> bool" where
  "is_alnum_lower c \<longleftrightarrow> is_lower c \<or> digit_value c \<noteq> None"

text \<open>Runs of other characters become one dash.\<close>

fun dash_runs :: "bool \<Rightarrow> string \<Rightarrow> string" where
  "dash_runs inRun [] = []"
| "dash_runs inRun (c # s) =
     (if is_alnum_lower c then c # dash_runs False s
      else if inRun then dash_runs True s else CHR ''-'' # dash_runs True s)"

definition drop_dash :: "string \<Rightarrow> string" where
  "drop_dash s = drop_opt (\<lambda>c. c = CHR ''-'') s"

definition folder_slug :: "string \<Rightarrow> string" where
  "folder_slug title = take 40 (rev (drop_dash (rev (drop_dash (dash_runs False (js_toLowerCase title))))))"

definition handleFolderCreate :: "tool_env \<Rightarrow> tool_args \<Rightarrow> agent_world action_ctx \<Rightarrow> agent_world handler_result" where
  "handleFolderCreate env args ctx =
     (let title = js_trim (String_arg args ''title'' '''') in
      if \<not> tn_folderBackend env then (Inr (Some ''Error: folder backend not configured on this deployment.''), ctx, [])
      else if title = '''' then (Inr (Some (''Error: '' @ in_quotes ''title'' @ '' is required.'')), ctx, [])
      else (let parentUid = nonempty_text args ''parentUid'';
                w = gw_alert (cx_rest ctx);
                slug = (if folder_slug title \<noteq> '''' then folder_slug title else ''folder-'' @ tn_timeBase36 env);
                uid = (if folder_findByUid (aw_folders w) (caller_org ctx) slug \<noteq> None then slug @ ''-'' @ tn_suffix env else slug);
                userId = Some (id_userId (cx_identity ctx));
                body = (case folder_create (tn_orgs env) (tn_users env) (tn_random env) (tn_now env)
                     \<lparr>nf_id = None, nf_uid = uid, nf_orgId = caller_org ctx, nf_title = title, nf_description = None, nf_parentUid = parentUid,
                      nf_createdBy = userId, nf_updatedBy = userId, nf_source = Some ''ai_generated'', nf_provenance = None\<rparr> (aw_folders w) of
                   Inl e \<Rightarrow> (Inl e, ctx, [])
                 | Inr (folder, folders) \<Rightarrow>
                     (let observation = ''Folder '' @ in_quotes (fo_title folder) @ '' created (uid='' @ fo_uid folder @ '')''
                            @ (if truthy (fo_parentUid folder) then '' under '' @ the (fo_parentUid folder) else '' at root'') @ ''.''
                      in (Inr (observation, observation),
                          tool_audit ''folder.create'' (fo_uid folder) (set_alert (w\<lparr>aw_folders := folders\<rparr>) ctx),
                          [agent_event (tn_agentDef env) ''agent.tool_completed'' [(''tool'', JStr ''folder_create''), (''folderUid'', JStr (fo_uid folder))]])))
            in boundary_result ''folder_create'' [(''title'', JStr title), (''parentUid'', json_opt parentUid)] (''Creating folder: '' @ title) body))"

definition folder_line :: "folder \<Rightarrow> string" where
  "folder_line f = ''- '' @ fo_title f @ '' (uid='' @ fo_uid f @ '')'' @ (if truthy (fo_parentUid f) then '', parent='' @ the (fo_parentUid f) else '''')"

text \<open>The limit is a natural number here; the code passes on any number.\<close>

definition handleFolderList :: "tool_env \<Rightarrow> tool_args \<Rightarrow> agent_world action_ctx \<Rightarrow> agent_world handler_result" where
  "handleFolderList env args ctx =
     (if \<not> tn_folderBackend env then (Inr (Some ''Error: folder backend not configured on this deployment.''), ctx, [])
      else (let parentUid = (case map_of args ''parentUid'' of Some (JStr s) \<Rightarrow> Some s | _ \<Rightarrow> None);
                lim = min (case num_field args ''limit'' of Some n \<Rightarrow> nat n | None \<Rightarrow> 50) 200;
                items = fst (folder_list (aw_folders (gw_alert (cx_rest ctx))) (caller_org ctx) (Some parentUid) (Some lim) None);
                (visible_folders, ident) = filterByPermission (cx_ac ctx) (cx_world ctx) (cx_identity ctx) items
                  (\<lambda>f. ac_eval ''folders:read'' (OneScope (''folders:uid:'' @ fo_uid f)));
                ctx' = ctx\<lparr>cx_identity := ident\<rparr>;
                none = ''No folders visible to you'' @ (if truthy parentUid then '' under '' @ the parentUid @ ''.'' else ''.'');
                n = length visible_folders;
                observation = nat_decimal n @ '' folders:'' @ [CHR 0x0A] @ join_with [CHR 0x0A] (map folder_line (take 20 visible_folders))
                  @ (if n > 20 then [CHR 0x0A] @ ''... and '' @ nat_decimal (n - 20) @ '' more folders'' else '''')
            in boundary_result ''folder_list'' [(''parentUid'', json_opt parentUid), (''limit'', JNum (int lim))] ''Listing folders''
                 (Inr (if visible_folders = [] then (none, none) else (observation, nat_decimal n @ '' folders'')), ctx', [])))"

section \<open>The handlers together\<close>

definition agent_handlers :: "tool_env \<Rightarrow> agent_world handlers \<Rightarrow> agent_world handlers" where
  "agent_handlers env others h args ctx =
     (if h = ''handleAlertRuleWrite'' then handleAlertRuleWrite env args ctx
      else if h = ''handleAlertRuleList'' then handleAlertRuleList env args ctx
      else if h = ''handleFolderCreate'' then handleFolderCreate env args ctx
      else if h = ''handleFolderList'' then handleFolderList env args ctx
      else others h args ctx)"

section \<open>Provisioned rules\<close>

text \<open>A set of provisioned rows that the database has, under unique identifiers.\<close>

definition holds_rows :: "alert_rule set \<Rightarrow> agent_world action_ctx \<Rightarrow> bool" where
  "holds_rows R ctx \<longleftrightarrow> distinct (map ru_id (adb_rules (rules_db ctx))) \<and> R \<subseteq> set (adb_rules (rules_db ctx))"

definition provisioned_rows :: "alert_rule set \<Rightarrow> bool" where
  "provisioned_rows R \<longleftrightarrow> (\<forall>r\<in>R. \<not> assertWritable (ru_source r))"

lemma ctx_frames [simp]:
  "rules_db (set_alert a ctx) = aw_db a" "rules_db (push_action c ctx) = rules_db ctx" "rules_db (tool_audit act t ctx) = rules_db ctx"
  "rules_db (ctx\<lparr>cx_identity := i\<rparr>) = rules_db ctx" "cx_rest (ctx\<lparr>cx_identity := i\<rparr>) = cx_rest ctx"
  "gw_alert (cx_rest (set_alert a ctx)) = a" "caller_org (set_alert a ctx) = caller_org ctx"
  "aw_db (gw_alert (cx_rest ctx)) = rules_db ctx"
  by (simp_all add: rules_db_def set_alert_def push_action_def tool_audit_def audit_log_def caller_org_def)

lemma check_permission_frame [simp]:
  "rules_db (snd (check_permission_of e ctx)) = rules_db ctx" "cx_rest (snd (check_permission_of e ctx)) = cx_rest ctx"
  by (simp_all add: check_permission_of_def case_prod_beta Let_def)

lemma evalAlertRuleWrite_frame [simp]:
  "rules_db (snd (evalAlertRuleWrite ctx act i)) = rules_db ctx"
  by (simp add: evalAlertRuleWrite_def Let_def)

text \<open>Deleting or updating a rule leaves the rows with other identifiers alone.\<close>

lemma found_row:
  assumes "distinct (map ru_id rows)" "r \<in> set rows" "ru_id r = i"
  shows "List.find (\<lambda>x. ru_id x = i) rows = Some r"
  using find_key_unique [OF assms(1,2)] assms(3) by simp

lemma rule_source_found:
  assumes "distinct (map ru_id (adb_rules db))" "r \<in> set (adb_rules db)" "ru_id r = i"
  shows "rule_findById db i = Some (rowToRule r)"
  using found_row [OF assms] by (simp add: rule_findById_def)

lemma rowToRule_fields [simp]:
  "ru_source (rowToRule r) = ru_source r" "ru_id (rowToRule r) = ru_id r" "ru_name (rowToRule r) = ru_name r"
  "ru_workspaceId (rowToRule r) = ru_workspaceId r" "ru_condition (rowToRule r) = ru_condition r"
  by (simp_all add: rowToRule_def)

lemma update_holds:
  assumes "distinct (map ru_id (adb_rules db))" "R \<subseteq> set (adb_rules db)" "\<forall>r\<in>R. ru_id r \<noteq> i"
  shows "distinct (map ru_id (adb_rules (snd (rule_update now i patch db)))) \<and> R \<subseteq> set (adb_rules (snd (rule_update now i patch db)))"
proof -
  have "map ru_id (upd_where (\<lambda>r. ru_id r = i) (merge_patch now patch ex) (adb_rules db)) = map ru_id (adb_rules db)" for ex
    by (rule map_upd_where_key) (simp add: merge_patch_def)
  then show ?thesis using assms by (auto simp: rule_update_def Let_def set_upd_where split: option.splits)
qed

lemma delete_holds:
  assumes "distinct (map ru_id (adb_rules db))" "R \<subseteq> set (adb_rules db)" "\<forall>r\<in>R. ru_id r \<noteq> i"
  shows "distinct (map ru_id (adb_rules (snd (rule_delete i db)))) \<and> R \<subseteq> set (adb_rules (snd (rule_delete i db)))"
  using assms by (auto simp: rule_delete_def distinct_del_where)

lemma create_holds:
  assumes "distinct (map ru_id (adb_rules db))" "R \<subseteq> set (adb_rules db)" "rule_create random now input db = Inr (rule, db')"
  shows "distinct (map ru_id (adb_rules db')) \<and> R \<subseteq> set (adb_rules db')"
proof -
  let ?i = "''alert_'' @ take 12 random"
  have "ru_id (new_rule_row ?i now input) = ?i" by (simp add: new_rule_row_def)
  moreover have "?i \<notin> ru_id ` set (adb_rules db)" "adb_rules db' = adb_rules db @ [new_rule_row ?i now input]"
    using assms(3) by (auto simp: rule_create_def Let_def list_ex_iff split: if_splits option.splits)
  ultimately show ?thesis using assms(1,2) by auto
qed

text \<open>An identifier that passed the writable gate is not one of the provisioned rows.\<close>

lemma writable_not_provisioned:
  assumes "holds_rows R ctx" "provisioned_rows R" "rule_findById (rules_db ctx) i = Some x" "assertWritable (ru_source x)"
  shows "\<forall>r\<in>R. ru_id r \<noteq> i"
proof (intro ballI notI)
  fix r assume r: "r \<in> R" "ru_id r = i"
  then have "rule_findById (rules_db ctx) i = Some (rowToRule r)"
    using assms(1) by (intro rule_source_found) (auto simp: holds_rows_def)
  with assms(3) have "x = rowToRule r" by simp
  with assms(2,4) r(1) show False by (auto simp: provisioned_rows_def)
qed

lemma absent_not_provisioned:
  assumes "holds_rows R ctx" "rule_findById (rules_db ctx) i = None"
  shows "\<forall>r\<in>R. ru_id r \<noteq> i"
  using assms rule_source_found [of "rules_db ctx" _ i] by (fastforce simp: holds_rows_def)

lemma delete_tool_holds:
  assumes "holds_rows R ctx" "provisioned_rows R"
  shows "holds_rows R (snd (deleteAlertRule args ctx))"
proof (cases "rule_findById (rules_db ctx) (String_arg args ''ruleId'' '''')")
  case None
  from absent_not_provisioned [OF assms(1) this] show ?thesis
    using assms None delete_holds [of "rules_db ctx" R]
    by (auto simp: deleteAlertRule_def holds_rows_def Let_def case_prod_beta)
next
  case (Some x)
  show ?thesis
  proof (cases "assertWritable (ru_source x)")
    case True
    from writable_not_provisioned [OF assms Some True] show ?thesis
      using assms Some True delete_holds [of "rules_db ctx" R]
      by (auto simp: deleteAlertRule_def holds_rows_def Let_def case_prod_beta)
  next
    case False
    with assms Some show ?thesis by (simp add: deleteAlertRule_def Let_def)
  qed
qed

lemma update_tool_holds:
  assumes "holds_rows R ctx" "provisioned_rows R"
  shows "holds_rows R (snd (updateAlertRule env args ctx))"
proof (cases "rule_findById (rules_db ctx) (String_arg args ''ruleId'' '''')")
  case None
  with assms show ?thesis by (simp add: updateAlertRule_def Let_def)
next
  case (Some x)
  show ?thesis
  proof (cases "assertWritable (ru_source x)")
    case True
    from writable_not_provisioned [OF assms Some True] show ?thesis
      using assms Some True update_holds [of "rules_db ctx" R]
      by (auto simp: updateAlertRule_def holds_rows_def Let_def case_prod_beta)
  next
    case False
    with assms Some show ?thesis by (simp add: updateAlertRule_def Let_def)
  qed
qed

lemma rule_saved_holds:
  "distinct (map ru_id (adb_rules db)) \<and> R \<subseteq> set (adb_rules db) \<Longrightarrow> holds_rows R (snd (rule_saved env verb act rule db ctx))"
  by (simp add: rule_saved_def holds_rows_def)

lemma insert_rule_holds:
  assumes "holds_rows R ctx"
  shows "holds_rows R (snd (insert_rule env verb act args spec folderUid ctx))"
proof -
  have "holds_rows R (snd (rule_saved env verb act rule db ctx))"
    if "rule_create random now input (rules_db ctx) = Inr (rule, db)" for random now input rule db
    using assms that by (intro rule_saved_holds create_holds [of "rules_db ctx"]) (simp_all add: holds_rows_def)
  with assms show ?thesis by (auto simp: insert_rule_def split: sum.splits)
qed

lemma upsert_rule_holds:
  assumes "holds_rows R ctx" "provisioned_rows R"
  shows "holds_rows R (snd (upsert_rule env args spec folderUid i ctx))"
proof (cases "rule_findById (rules_db ctx) i")
  case None
  then have "fst (rule_update (tn_now env) i (upsert_patch spec) (rules_db ctx)) = None" by (simp add: rule_update_def)
  with assms None insert_rule_holds [OF assms(1)] show ?thesis
    by (auto simp: upsert_rule_def Let_def split: option.splits prod.splits)
next
  case (Some x)
  have "holds_rows R (snd (rule_saved env ''Updated'' ''alert_rule.update'' rule db' ctx))"
    if "assertWritable (ru_source x)" "rule_update (tn_now env) i (upsert_patch spec) (rules_db ctx) = (Some rule, db')" for rule db'
    using update_holds [OF _ _ writable_not_provisioned [OF assms Some that(1)], of "rules_db ctx" "tn_now env" "upsert_patch spec"] that(2) assms(1)
    by (intro rule_saved_holds) (simp add: holds_rows_def)
  with assms Some insert_rule_holds [OF assms(1)] show ?thesis
    by (auto simp: upsert_rule_def Let_def split: option.splits prod.splits)
qed

lemma create_tool_holds:
  assumes "holds_rows R ctx" "provisioned_rows R"
  shows "holds_rows R (snd (createAlertRule env args ctx))"
proof -
  have "holds_rows R (set_alert ((gw_alert (cx_rest ctx))\<lparr>aw_folders := folders\<rparr>) ctx)" for folders
    using assms(1) by (simp add: holds_rows_def)
  with assms insert_rule_holds upsert_rule_holds show ?thesis
    by (auto simp: createAlertRule_def Let_def split: sum.splits option.splits prod.splits)
qed

lemma alert_write_holds:
  assumes "holds_rows R ctx" "provisioned_rows R"
  shows "holds_rows R (fst (snd (handleAlertRuleWrite env args ctx)))"
proof -
  have "holds_rows R (snd (run_alert_op env opn args ctx))" for opn
    using create_tool_holds [OF assms] update_tool_holds [OF assms] delete_tool_holds [OF assms] by (simp add: run_alert_op_def)
  then show ?thesis
    using assms(1) by (auto simp: handleAlertRuleWrite_def Let_def split: sum.splits prod.splits) (metis snd_conv)+
qed

lemma alert_list_holds: "holds_rows R (fst (snd (handleAlertRuleList env args ctx))) = holds_rows R ctx"
  by (simp add: handleAlertRuleList_def holds_rows_def Let_def case_prod_beta)

lemma folder_tools_hold:
  "holds_rows R (fst (snd (handleFolderCreate env args ctx))) = holds_rows R ctx"
  "holds_rows R (fst (snd (handleFolderList env args ctx))) = holds_rows R ctx"
  by (auto simp: handleFolderCreate_def handleFolderList_def boundary_result_def holds_rows_def Let_def case_prod_beta split: sum.splits)

section \<open>A run of the agent on these tools\<close>

text \<open>The gate and the wiring of the runner leave the database alone; a handler changes it.\<close>

lemma gate_rules_db [simp]: "rules_db (snd (checkPermission ad tool args ctx)) = rules_db ctx"
  using checkPermission_frame [of ad tool args ctx] by auto

lemma rebuilt_rules_db [simp]: "rules_db (buildActionContext deps left) = rules_db left"
  by (simp add: buildActionContext_def rules_db_def del: ctx_frames)

lemma handlers_hold:
  assumes "\<forall>h args ctx. rules_db (fst (snd (others h args ctx))) = rules_db ctx" "holds_rows R ctx" "provisioned_rows R"
  shows "holds_rows R (fst (snd (agent_handlers env others h args ctx)))"
proof -
  have "holds_rows R (fst (snd (others h args ctx)))"
    using assms(2) unfolding holds_rows_def assms(1) [THEN spec, THEN spec, THEN spec] .
  with assms(2) show ?thesis
    unfolding agent_handlers_def
    by (simp only: alert_write_holds [OF assms(2,3)] alert_list_holds folder_tools_hold split: if_split) simp
qed

lemma runner_execute_holds:
  assumes "rd_handlers deps = agent_handlers env others" "\<forall>h args ctx. rules_db (fst (snd (others h args ctx))) = rules_db ctx"
    and "provisioned_rows R" "holds_rows R (rn_ctx r)"
  shows "holds_rows R (rn_ctx (fst (snd (runner_execute deps act args r))))"
proof -
  obtain g ctx where gate: "checkPermission (rd_agentDef deps) act args (rn_ctx r) = (g, ctx)" by (metis surj_pair)
  with assms(4) have ctx: "holds_rows R ctx"
    using gate_rules_db [of "rd_agentDef deps" act args "rn_ctx r"] by (simp add: holds_rows_def)
  then have "holds_rows R (fst (snd (dispatchAction (rd_handlers deps) act args ctx)))"
    using handlers_hold [OF assms(2) _ assms(3)] assms(1) by (simp add: dispatchAction_def split: option.split)
  then have "holds_rows R (rn_ctx (fst (snd (run_handler deps act args r'))))" if "rn_ctx r' = ctx" for r'
    using that by (auto simp: run_handler_def Let_def case_prod_beta holds_rows_def split: sum.splits)
  with ctx show ?thesis by (simp add: runner_execute_def gate Let_def case_prod_beta split: option.split)
qed

text \<open>
  C10. Rules under version control are safe from the agent: whatever the language model answers,
  however many tool calls it makes and whatever permissions the caller has, a run of the agent
  leaves every provisioned alert rule in the database exactly as it was, provided that the
  handlers of the other tools do not touch alert rules.
\<close>

theorem provisioned_rules_safe:
  assumes "rd_handlers deps = agent_handlers env others" "\<forall>h args ctx. rules_db (fst (snd (others h args ctx))) = rules_db ctx"
    and "distinct (map ru_id (adb_rules (rules_db ctx)))"
  shows "\<forall>rule\<in>set (adb_rules (rules_db ctx)). \<not> assertWritable (ru_source rule) \<longrightarrow>
     rule \<in> set (adb_rules (rules_db (rn_ctx (lp_ext (snd (run_agent deps aenv systemPrompt userMessage (start_runner ctx)))))))"
proof -
  let ?R = "{rule \<in> set (adb_rules (rules_db ctx)). \<not> assertWritable (ru_source rule)}"
  have R: "provisioned_rows ?R" by (simp add: provisioned_rows_def)
  have "loop_executor (runner_execute deps) (\<lambda>r. holds_rows ?R (rn_ctx r))"
    by unfold_locales (rule runner_execute_holds [OF assms(1,2) R])
  moreover have "holds_rows ?R (rn_ctx (start_runner ctx))" using assms(3) by (auto simp: holds_rows_def start_runner_def)
  ultimately have "holds_rows ?R (rn_ctx (lp_ext (snd (run_agent deps aenv systemPrompt userMessage (start_runner ctx)))))"
    unfolding run_agent_def by (rule loop_executor.runLoop_ext)
  then show ?thesis by (auto simp: holds_rows_def)
qed

section \<open>When a rule is deleted\<close>

definition delete_args :: "string \<Rightarrow> tool_args" where
  "delete_args ruleId = [(''op'', JStr ''delete''), (''ruleId'', JStr ruleId)]"

definition may_delete :: "agent_world action_ctx \<Rightarrow> string \<Rightarrow> bool" where
  "may_delete ctx ruleId \<longleftrightarrow> fst (ac_evaluate (cx_ac ctx) (cx_world ctx) (cx_identity ctx)
     (ac_eval ''alert.rules:delete'' (OneScope (''folders:uid:'' @ coalesce (getFolderUid (rules_db ctx) (caller_org ctx) ruleId) ''*''))))"

lemma alert_write_perms: "map_of TOOL_PERMS ''alert_rule_write'' = Some alert_rule_write_builder"
  by (simp add: TOOL_PERMS_def)

lemma delete_gate:
  assumes "cx_getFolderUid ctx = Some store_getFolderUid" "i \<noteq> ''''"
  shows "checkPermission orchestrator_def ''alert_rule_write'' (delete_args i) ctx =
    (let e = ac_eval ''alert.rules:delete'' (OneScope (''folders:uid:'' @ coalesce (getFolderUid (rules_db ctx) (caller_org ctx) i) ''*''))
     in (if may_delete ctx i then gate_pass else denied_rendering e,
         ctx\<lparr>cx_identity := snd (ensurePermissions (w_rbac (cx_world ctx)) (cx_identity ctx))\<rparr>))"
proof -
  have "''alert_rule_write'' \<in> set (ag_allowedTools orchestrator_def)" "''alert_rule_write'' \<notin> set GATE_TERMINAL"
    "ag_permissionMode orchestrator_def \<notin> {Read_only, Propose_only}" "''alert_rule_write'' \<notin> set UNGATED_TOOLS"
    by code_simp+
  then show ?thesis
    using assms
    by (simp add: checkPermission_def buildToolEvaluator_def alert_write_perms alert_rule_write_builder_def lookupAlertRuleFolderUid_def delete_args_def
        text_arg_def String_arg_def arg_or_def js_String.simps store_getFolderUid_def may_delete_def caller_org_def Let_def case_prod_beta ac_evaluate_frame)
qed

lemma delete_tool_exact:
  assumes "cx_getFolderUid ctx = Some store_getFolderUid" "distinct (map ru_id (adb_rules (rules_db ctx)))"
    and "row \<in> set (adb_rules (rules_db ctx))" "ru_id row \<noteq> ''''"
  shows "row \<in> set (adb_rules (rules_db (fst (snd (handleAlertRuleWrite env (delete_args (ru_id row)) ctx))))) \<longleftrightarrow>
     \<not> (assertWritable (ru_source row) \<and> may_delete ctx (ru_id row))"
proof -
  have args: "String_arg (delete_args i) ''ruleId'' '''' = i" "text_arg (delete_args i) ''op'' = ''delete''"
    "text_arg (delete_args i) ''ruleId'' = i" for i
    by (simp_all add: delete_args_def String_arg_def arg_or_def text_arg_def js_String.simps)
  have "fst (evalAlertRuleWrite ctx ''alert.rules:delete'' (ru_id row)) = may_delete ctx (ru_id row)"
    using assms(1) by (simp add: evalAlertRuleWrite_def check_permission_of_def may_delete_def store_getFolderUid_def Let_def case_prod_beta)
  then have "row \<in> set (adb_rules (rules_db (snd (deleteAlertRule (delete_args (ru_id row)) ctx)))) \<longleftrightarrow>
     \<not> (assertWritable (ru_source row) \<and> may_delete ctx (ru_id row))"
    using assms(3) rule_source_found [OF assms(2,3) refl]
    by (simp add: deleteAlertRule_def args Let_def case_prod_beta rule_delete_def)
  then show ?thesis
    using assms(4) by (simp add: handleAlertRuleWrite_def args run_alert_op_def Let_def case_prod_beta split: sum.split)
qed

text \<open>
  C16. Exactly when the agent deletes an alert rule: a call of the tool through the whole runner
  (gate, required arguments, dispatch, the handler's own checks) removes a rule if and only if its
  source is writable and the caller has \<^verbatim>\<open>alert.rules:delete\<close> on the folder that the caller's own
  organisation records for the rule, or on all folders when it records none.  The organisation
  the rule belongs to plays no part, so a caller with the permission on all folders deletes the
  rules of every organisation, which the HTTP route refuses.
\<close>

theorem agent_delete_exact:
  assumes "rd_agentDef deps = orchestrator_def" "rd_handlers deps = agent_handlers env others"
    and "cx_getFolderUid (rn_ctx r) = Some store_getFolderUid" "distinct (map ru_id (adb_rules (rules_db (rn_ctx r))))"
    and "row \<in> set (adb_rules (rules_db (rn_ctx r)))" "ru_id row \<noteq> ''''"
  shows "row \<in> set (adb_rules (rules_db (rn_ctx (fst (snd (runner_execute deps ''alert_rule_write'' (delete_args (ru_id row)) r)))))) \<longleftrightarrow>
     \<not> (assertWritable (ru_source row) \<and> may_delete (rn_ctx r) (ru_id row))"
proof -
  let ?ctx = "(rn_ctx r)\<lparr>cx_identity := snd (ensurePermissions (w_rbac (cx_world (rn_ctx r))) (cx_identity (rn_ctx r)))\<rparr>"
  have gate: "checkPermission orchestrator_def ''alert_rule_write'' (delete_args (ru_id row)) (rn_ctx r) =
      (if may_delete (rn_ctx r) (ru_id row) then gate_pass else denied_rendering (ac_eval ''alert.rules:delete''
         (OneScope (''folders:uid:'' @ coalesce (getFolderUid (rules_db (rn_ctx r)) (caller_org (rn_ctx r)) (ru_id row)) ''*''))), ?ctx)"
    using delete_gate [OF assms(3,6)] by (simp add: Let_def)
  have again: "may_delete ?ctx (ru_id row) = may_delete (rn_ctx r) (ru_id row)"
    by (simp add: may_delete_def ac_evaluate_ensured caller_org_def)
  have runs: "map_of DISPATCH ''alert_rule_write'' = Some ''handleAlertRuleWrite''" "ag_permissionMode orchestrator_def \<noteq> Approval_required_mode"
    "map_of TOOL_REGISTRY ''alert_rule_write'' = Some (tool_entry_of Deferred [''op''])" "js_trim ''delete'' \<noteq> ''''"
    by code_simp+
  have required: "checkRequiredArgs ''alert_rule_write'' (delete_args (ru_id row)) = None"
    by (simp add: checkRequiredArgs_def runs(3) tool_entry_of_def missing_arg_def delete_args_def runs(4))
  have handled: "row \<in> set (adb_rules (rules_db (rn_ctx (fst (snd (run_handler deps ''alert_rule_write'' (delete_args (ru_id row)) r')))))) \<longleftrightarrow>
      \<not> (assertWritable (ru_source row) \<and> may_delete (rn_ctx r) (ru_id row))" if "rn_ctx r' = ?ctx" for r'
    using delete_tool_exact [of ?ctx row env] assms(2-6) that again
    by (simp add: run_handler_def dispatchAction_def runs(1) agent_handlers_def Let_def case_prod_beta split: sum.split)
  show ?thesis
    using handled assms(5) runs(2)
    by (simp add: runner_execute_def assms(1) gate required Let_def gate_pass_def denied_rendering_def case_prod_beta)
qed

section \<open>Witnesses\<close>

definition rule_keeper :: identity where
  "rule_keeper = demo_user\<lparr>id_permissions := Some [\<lparr>action = ''alert.rules:delete'', scope = ''folders:*''\<rparr>]\<rparr>"

definition rules_ctx :: "alert_rule list \<Rightarrow> agent_world action_ctx" where
  "rules_ctx rows = \<lparr>cx_ac = boot_config demo_world, cx_world = demo_world, cx_identity = rule_keeper, cx_activeDashboardId = None,
     cx_getFolderUid = Some store_getFolderUid, cx_rest = \<lparr>gw_alert = world_of rows, gw_actions = []\<rparr>\<rparr>"

definition rules_env :: tool_env where
  "rules_env = \<lparr>tn_now = 20, tn_random = ''2'', tn_orgs = [''o''], tn_users = [''u''], tn_metrics = None, tn_number = (\<lambda>q. ''''),
     tn_folderBackend = True, tn_agentDef = orchestrator_def, tn_timeBase36 = ''1'', tn_suffix = ''2''\<rparr>"

definition rules_deps :: "agent_world runner_deps" where
  "rules_deps = \<lparr>rd_agentDef = orchestrator_def, rd_reporter = rd_reporter demo_deps,
     rd_handlers = agent_handlers rules_env (\<lambda>h args ctx. (Inr None, ctx, [])), rd_clock = (\<lambda>n. 1000000)\<rparr>"

lemma rules_ctx_db [simp]: "adb_rules (rules_db (rules_ctx rows)) = rows"
  by (simp add: rules_ctx_def rules_db_def del: ctx_frames)

text \<open>A model that deletes the rule, run on a rule from a repository.\<close>

definition deleting_env :: agent_env where
  "deleting_env = chat_env\<lparr>ev_gateway := (\<lambda>n ms ts. Llm_responds '''' [call_of ''t1'' ''alert_rule_write'' (delete_args ''alert_1'')] [])\<rparr>"

theorem provisioned_rules_safe_witness:
  "git_row \<in> set (adb_rules (rules_db (rn_ctx (lp_ext (snd
     (run_agent rules_deps deleting_env ''sys'' ''delete it'' (start_runner (rules_ctx [git_row]))))))))"
proof -
  have "\<not> assertWritable (ru_source git_row)" by (simp add: own_row_sel assertWritable_def)
  then show ?thesis
    using provisioned_rules_safe [of rules_deps rules_env "\<lambda>h args ctx. (Inr None, ctx, [])" "rules_ctx [git_row]" deleting_env "''sys''" "''delete it''"]
    by (simp add: rules_deps_def)
qed

theorem agent_delete_exact_witness:
  "ru_workspaceId cpu_row \<noteq> Some (caller_org (rules_ctx [cpu_row]))
   \<and> cpu_row \<notin> set (adb_rules (rules_db (rn_ctx (fst (snd
       (runner_execute rules_deps ''alert_rule_write'' (delete_args ''alert_1'') (start_runner (rules_ctx [cpu_row]))))))))"
proof -
  have may: "may_delete (rules_ctx [cpu_row]) ''alert_1''" by code_simp
  have row: "ru_id cpu_row = ''alert_1''" "ru_source cpu_row = ''api''" "assertWritable ''api''"
    by (simp_all add: cpu_row_def new_rule_row_def cpu_input_def assertWritable_def)
  have "caller_org (rules_ctx [cpu_row]) = ''o''" by (simp add: caller_org_def rules_ctx_def rule_keeper_def demo_user_def)
  moreover have "cx_getFolderUid (rules_ctx [cpu_row]) = Some store_getFolderUid" by (simp add: rules_ctx_def)
  ultimately show ?thesis
    using agent_delete_exact [of rules_deps rules_env "\<lambda>h args ctx. (Inr None, ctx, [])" "start_runner (rules_ctx [cpu_row])" cpu_row] may row
    by (simp add: own_row_sel rules_deps_def start_runner_def)
qed

end
