(* ===== verification/Spec2Isabelle.thy ===== *)
theory Spec2Isabelle
  imports Fixed_Roles Rbac_Seed Plan_Safety Plan_Routes Request_Gate Alert_Routes Notification_Consumer Agent_Tools
begin

text \<open>
  \<^bold>\<open>Rounds: who gets in, who may do what, which alerts fire and reach whom, what a plan runs
  and what the agent may do.\<close>

  Rounds is an observability server whose agent investigates alerts and proposes fixes.  A fix is
  a remediation plan, a list of kubectl commands; people approve plans or single steps over the
  HTTP API, a role-based access control decides who may, and an executor hands the approved
  commands to kubectl through an allow-list.  This development models that path, from the cookie or
  API key of a request over the permission tables to the spawned process, and the other path that
  starts it: an alert rule is evaluated, fires, and is told to the contact points of its policy;
  and the agent itself: the loop that sends a conversation to a language model, runs the tools it
  asks for behind a permission gate, and replies.
  All files below are under \<^verbatim>\<open>src/packages\<close>.

  \<^bold>\<open>Parts and theories.\<close>

  \<^item> \<open>Rounds_Prelude\<close>: JavaScript strings, lists and maps (\<open>js_startsWith\<close>, \<open>js_uniq\<close>, ordered
    maps), JSON values, results \<open>string + 'a\<close> for code that throws, table updates, and the locales
    \<open>keyed_store\<close> (the laws of a map), \<open>invariant_system\<close> (a step relation and an invariant) and
    \<open>op_system\<close> (operations that keep an invariant), the last a sublocale of the second.
  \<^item> \<open>Scopes\<close>: \<^verbatim>\<open>common/src/rbac/scope.ts\<close> and \<^verbatim>\<open>models/rbac.ts\<close>: the three-segment scopes,
    their coverage (locale \<open>coverage\<close>, interpreted on \<open>scopeCovers\<close>), and the scopes of approvals.
  \<^item> \<open>Evaluator\<close>: \<^verbatim>\<open>common/src/rbac/evaluator.ts\<close>: the four evaluator classes as one data type
    with \<open>evaluate\<close>, \<open>ev_mutate\<close> and \<open>ev_string\<close>; the evaluation refines a decision over the set
    of granted permissions and is monotone in the grants.
  \<^item> \<open>Actions_Catalog\<close>, \<open>Fixed_Roles\<close>: \<^verbatim>\<open>common/src/rbac/actions.ts\<close>, \<^verbatim>\<open>roles-def.ts\<close>,
    \<^verbatim>\<open>fixed-roles-def.ts\<close>: the complete catalogues, and the resolution of a basic role along
    its parents.
  \<^item> \<open>Role_Store\<close>: the SQLite repositories of roles, permissions, user roles, team roles and team
    members (\<^verbatim>\<open>data-layer/src/repository/auth\<close>) over one record \<open>rbac_db\<close> of tables.  Every
    method is a function on it; the keys and cascades of the schema are part of the functions, and
    \<open>db_ok\<close> says that keys are unique and references resolve.
  \<^item> \<open>Rbac_Seed\<close>: \<^verbatim>\<open>data-layer/src/seed/rbac-seed.ts\<close>: completeness and idempotence of the seed.
  \<^item> \<open>Folders\<close>: \<^verbatim>\<open>folder-repository.ts\<close> and the deletion of \<^verbatim>\<open>services/folder-service.ts\<close>: the folder
    tree with its parent, depth and cycle checks, and the removal of a subtree with what is filed in it.
  \<^item> \<open>Access_Control\<close>: \<^verbatim>\<open>api-gateway/src/services/accesscontrol-service.ts\<close>, the resolvers of
    \<^verbatim>\<open>rbac/resolvers\<close>, the dashboard ACL repository and service, and the gate
    \<^verbatim>\<open>middleware/require-permission.ts\<close>.
  \<^item> \<open>Kubectl\<close>: \<^verbatim>\<open>adapters/src/execution/kubectl-allowlist.ts\<close> and \<^verbatim>\<open>kubectl-adapter.ts\<close>: the
    vector parser, the policy, the command tokenizer and the execution adapter.
  \<^item> \<open>Approvals\<close>: the approval repositories in memory and in SQLite (both interpret the locale
    \<open>approval_store\<close>), their event wrapper, \<^verbatim>\<open>routes/approval.ts\<close> and \<^verbatim>\<open>approval-router.ts\<close>.
  \<^item> \<open>Plan_Store\<close>: \<^verbatim>\<open>repository/sqlite/remediation-plan.ts\<close>: plans and steps as two tables
    (\<open>plan_db\<close>) with creation in a transaction, reads, patches and expiry.
  \<^item> \<open>Plan_Executor\<close>: \<^verbatim>\<open>services/plan-executor-service.ts\<close>, \<^verbatim>\<open>plan-namespaces.ts\<close> and
    \<^verbatim>\<open>app/plans-boot.ts\<close>: the executor on the state \<open>exec_state\<close> (plan tables, approval table,
    the log of adapter calls, the audit log); \<open>step_begin\<close> and \<open>step_finish\<close> are the halves of a step
    around the running command, between which a cancellation can come.
  \<^item> \<open>Plan_Safety\<close>: the executor as an event system: the relation \<open>plan_event\<close> has a rule for every
    way plans, steps and approval requests change, and interprets \<open>invariant_system\<close>.
  \<^item> \<open>Plan_Routes\<close>: \<^verbatim>\<open>routes/plans.ts\<close>: the endpoints with the two-layered auto-edit gate.
  \<^item> \<open>Rate_Limiter\<close>: \<^verbatim>\<open>api-gateway/src/middleware/rate-limiter.ts\<close>: the sliding window per key with
    its clean-up, refining a specification that keeps every admitted request (\<open>spec_request\<close>).
  \<^item> \<open>Sessions\<close>: \<^verbatim>\<open>user-auth-token-repository.ts\<close> and \<^verbatim>\<open>auth/session-service.ts\<close>: session tokens with
    rotation, grace period, idle and absolute expiry; the relation \<open>session_event\<close>.
  \<^item> \<open>Api_Keys\<close>: \<^verbatim>\<open>api-key-repository.ts\<close>, \<^verbatim>\<open>quota-repository.ts\<close> and \<^verbatim>\<open>services/apikey-service.ts\<close>: keys of
    service accounts and users with their quotas, and everything that writes to the key table as the
    calls \<open>key_call\<close> of a run.
  \<^item> \<open>Login\<close>: \<^verbatim>\<open>auth/local-provider.ts\<close>: stored passwords and the login with its lockout.
  \<^item> \<open>Request_Gate\<close>: \<^verbatim>\<open>middleware/auth.ts\<close>, \<^verbatim>\<open>csrf.ts\<close>, \<^verbatim>\<open>org-context.ts\<close>, \<^verbatim>\<open>bootstrap-aware.ts\<close>, composed as
    \<^verbatim>\<open>server.ts\<close>, \<^verbatim>\<open>app/domain-routes.ts\<close>, \<^verbatim>\<open>app/rbac-routes.ts\<close> and the routers mount them, with the limiters
    and the permission gate, for each kind of route (\<open>route_chain\<close>).
  \<^item> \<open>Alert_Store\<close>: \<^verbatim>\<open>repository/sqlite/alert-rule.ts\<close>: rules, history, silences and policies (\<open>alert_db\<close>).
  \<^item> \<open>Alert_Evaluator\<close>: \<^verbatim>\<open>services/alert-evaluator-service.ts\<close>, \<^verbatim>\<open>leader-lock.ts\<close> and
    \<^verbatim>\<open>common/src/events/fingerprint.ts\<close>: the state machine of a rule, its ticks (\<open>tick_begin\<close> and
    \<open>tick_finish\<close> around the query in flight), the schedule with the live intervals, and the lease of the leader as an event
    system of many replicas (\<open>lock_event\<close>).
  \<^item> \<open>Alert_Routes\<close>: \<^verbatim>\<open>routes/alert-rules.ts\<close>: all endpoints, gathered in \<open>serve\<close>.
  \<^item> \<open>Notifications\<close>, \<open>Notification_Consumer\<close>: \<^verbatim>\<open>sqlite/notification.ts\<close>, \<^verbatim>\<open>notification-routing.ts\<close>,
    \<^verbatim>\<open>notification-dispatch.ts\<close>, \<^verbatim>\<open>services/notification-consumer.ts\<close> and
    \<^verbatim>\<open>publishing-approval-repository.ts\<close>: the policy tree and its walk, the record of what was sent, and
    the handling of alerts and approval requests; in \<open>consumer_event\<close> handlings overlap between the look
    at the record and the sending.
  \<^item> \<open>Js_Text\<close>: decimal numbers, \<^verbatim>\<open>String\<close>, \<^verbatim>\<open>JSON.stringify\<close> and searches in strings.
  \<^item> \<open>Agent_Gate\<close>: \<^verbatim>\<open>agent-core/src/agent\<close>: \<^verbatim>\<open>agent-registry.ts\<close>, \<^verbatim>\<open>tool-permissions.ts\<close>, \<^verbatim>\<open>permission-gate.ts\<close>,
    \<^verbatim>\<open>orchestrator-audit-reporter.ts\<close>: the agents, the permission of every tool, the three-layer check
    (\<open>checkPermission\<close>) on a context \<open>action_ctx\<close> with the access control service above, and the audit.
  \<^item> \<open>Agent_Loop\<close>: \<^verbatim>\<open>tool-schema-registry.ts\<close>, \<^verbatim>\<open>tool-search.ts\<close>, \<^verbatim>\<open>orchestrator-action-runner.ts\<close>,
    \<^verbatim>\<open>token-utils.ts\<close> and \<^verbatim>\<open>react-loop.ts\<close>, wired as \<^verbatim>\<open>orchestrator-agent.ts\<close> does (\<open>run_agent\<close>).  The language
    model and the handlers of the tools are parameters.  The locales \<open>loop_executor\<close> and
    \<open>total_executor\<close> say what the loop needs of the runner; the runner interprets them.
  \<^item> \<open>Agent_Tools\<close>: \<^verbatim>\<open>handlers/alert.ts\<close> and \<^verbatim>\<open>handlers/folder.ts\<close> on the alert and folder stores.

  \<^bold>\<open>What the theorems show.\<close>  Nothing reaches kubectl for a plan that nobody approved; an automatic
  run that nobody disturbs is one pass over the steps and ends settled, and a cancellation stops it
  at the step in flight; a manual run executes exactly the step whose
  request was approved; an auto-edit approval is covered by grants on the namespaces its commands
  name first; each spawned vector
  passed the policy, which confines mutations to unprotected namespaces.  A resolved approval stays
  resolved but for an override, and the routes answer only callers with a fitting grant.  Folders
  stay a forest, and deleting one takes exactly its subtree.  The permission tables stay
  consistent under all repository calls, seeding them is complete and idempotent, the permissions
  of a user are those of his roles, and the evaluation with its shortcuts decides like the plain
  specification.  A request reaches a protected handler only with a live session or key of an enabled
  user, past the CSRF check and with the permission of the route; it acts in the organisation it
  names only on routes where the organisation context comes last, and in the one of the account or
  key on all others;
  sessions and keys open exactly what they should; a revoked session opens nothing, nor does a revoked
  key whose row is kept and left revoked; limits and the
  lockout answer as their specifications.  A rule fires, and its firing is published, exactly when its condition has held for the
  configured time; at most one replica holds the lease; the routes keep organisations apart.  The
  walk over the policy tree selects the nodes the matching rules describe, an alert is delivered to
  their contact points, and none of them hears of it again too soon after a delivery on record.  Whatever the language model
  answers, a run of the agent ends with a reply, replays the conversation to the model in every turn,
  calls a tool only with
  the permission of its user and leaves an audit row, and never changes a provisioned rule.  Where the code departs from its
  comments the departure is stated as a theorem (for instance \<open>step_approval_ignores_status\<close>,
  \<open>repeated_flag_evades_gate\<close>, \<open>fork_into_any_folder\<close>, \<open>disable_lost_in_flight\<close>, \<open>lost_leader_schedules\<close>,
  \<open>put_moves_rule\<close>, \<open>repeat_interval_ignored\<close>, \<open>overlap_sends_twice\<close>, \<open>deleted_key_readmitted\<close>,
  \<open>row_delete_allows_cycle\<close>, \<open>agent_delete_exact\<close>).

  \<^bold>\<open>Modelling choices.\<close>  An \<^verbatim>\<open>async\<close> method is the state transformer of its completed run; the
  interleaving of whole calls is what the event relations quantify over, the interleaving inside a
  call is modelled where a long wait invites it: in the ticks of the alert evaluator, in the dispatches
  of the notification consumer, and for a cancellation during a step of a plan.  A thrown error is a value \<open>Inl\<close> of the result.  Times are milliseconds as
  integers, generated identifiers and the clock are parameters indexed by a counter, and numbers
  are printed by a parameter.  A JSON column holds its value.  Strings are lists of characters, and
  one character stands for one UTF-16 unit.

  \<^bold>\<open>Bounds and termination.\<close>  No definition needs fuel except the tokenizer of the kubectl command
  string, which the code lets loop: \<open>tokenize_from\<close> returns an option, \<open>None\<close> for no return, and
  theorems say where it returns and where it does not.  The loop of the executor ends because every
  round takes a step out of the pending ones (the termination proof of \<open>runNext\<close>); the ancestor
  walk of a folder is bounded by the code's own depth limit, the collection of a subtree ends because it
  visits no folder twice, and the loop of the agent by its 200
  turns, which \<open>loop_turns\<close> counts down.

  \<^bold>\<open>Not modelled.\<close>  The web interface, which renders; the model gateway, which translates requests
  for the providers; the tools of the agent for dashboards, investigations, metrics, logs,
  connectors and plans, its prompt, the shortcut for alert follow-ups and the background runner; sign-in by OAuth, SAML and LDAP, which are protocols of
  libraries; the PostgreSQL repositories, which repeat the SQLite ones over another driver; the
  metric and log connectors, dashboards, investigations and websockets.  Failures of the database
  other than violated constraints are left out, and so are the texts of messages and log lines.
\<close>

end
